(* ===== verification/Go_Base.thy ===== *)
theory Go_Base
  imports Main "HOL-Library.Word" "HOL-Library.Code_Target_Nat"
begin

text \<open>
  The prelude of the development: the result type, the generic facts on lists that the
  relational tables of the controller rest on, and the named collections of simplification rules.

  A table of the SQLite database is a list of rows in insertion order. The statements that the
  stores issue are the functions of this theory: \<open>upd_where p f t\<close> is \<open>UPDATE t SET f WHERE p\<close>,
  \<open>del_where p t\<close> is \<open>DELETE FROM t WHERE p\<close>, \<open>ins_row r t\<close> is an \<open>INSERT\<close> that no constraint
  refuses, \<open>sel_row p t\<close> is the first row of \<open>SELECT ... WHERE p\<close>, and \<open>hits p t\<close> is the number of
  affected rows. A statement is atomic: it happens completely or not at all.

  \<open>faults\<close> is the plan of driver failures of one call (lost disk, busy database, cancelled
  context): \<open>fl k = Some msg\<close> says that the \<open>k\<close>-th statement of the call fails with the driver's
  text \<open>msg\<close> and changes nothing. Times are nanoseconds since the epoch, as in \<open>time.Time\<close>; a
  column holds whole seconds.
\<close>

named_theorems go_defs \<open>definitions of the Go runtime model that proofs unfold together\<close>
named_theorems table_simps \<open>rewriting of table statements\<close>

type_synonym ('e, 'a) result = "'e + 'a"

text \<open>
  \<open>x, err := r; if err != nil { return err }; ...\<close> is \<open>and_then r (\<lambda>x. ...)\<close>, a check that only returns
  an error is an option, and \<open>check_err c\<close> goes on when it is \<open>None\<close>.
\<close>

definition and_then :: "('e, 'a) result \<Rightarrow> ('a \<Rightarrow> ('e, 'b) result) \<Rightarrow> ('e, 'b) result" where
  "and_then r f = (case r of Inl e \<Rightarrow> Inl e | Inr x \<Rightarrow> f x)"

definition check_err :: "'e option \<Rightarrow> ('e, unit) result" where
  "check_err c = (case c of Some e \<Rightarrow> Inl e | None \<Rightarrow> Inr ())"

definition refuse_if :: "bool \<Rightarrow> 'e \<Rightarrow> ('e, unit) result" where
  "refuse_if b e = (if b then Inl e else Inr ())"

lemma and_then_simps [simp]: "and_then (Inl e) f = Inl e" "and_then (Inr x) f = f x"
  by (simp_all add: and_then_def)

lemma and_then_Inr: "and_then r f = Inr y \<longleftrightarrow> (\<exists>x. r = Inr x \<and> f x = Inr y)"
  by (cases r) auto

lemma check_err_Inr [simp]: "check_err c = Inr u \<longleftrightarrow> c = None"
  by (simp add: check_err_def split: option.splits)

lemma check_err_simps [simp]: "check_err None = Inr ()" "check_err (Some e) = Inl e"
  by (simp_all add: check_err_def)

lemma refuse_if_Inr [simp]: "refuse_if b e = Inr u \<longleftrightarrow> \<not> b"
  by (simp add: refuse_if_def)

lemma refuse_if_simps [simp]: "refuse_if True e = Inl e" "refuse_if False e = Inr ()"
  by (simp_all add: refuse_if_def)

type_synonym faults = "nat \<Rightarrow> string option"

definition no_faults :: faults where
  "no_faults k = None"

lemma no_faults_simp [simp]: "no_faults k = None"
  by (simp add: no_faults_def)

text \<open>\<open>time.Time\<close> and \<open>time.Duration\<close> in nanoseconds; \<open>unix\<close> is \<open>Time.Unix()\<close>.\<close>

type_synonym time = int

definition second :: int where
  "second = 1000000000"

definition unix :: "time \<Rightarrow> int" where
  "unix t = t div second"

definition from_unix :: "int \<Rightarrow> time" where
  "from_unix s = s * second"

lemma unix_from_unix [simp]: "unix (from_unix s) = s"
  by (simp add: unix_def from_unix_def second_def)

lemma unix_mono: "s \<le> t \<Longrightarrow> unix s \<le> unix t"
  by (simp add: unix_def second_def zdiv_mono1)

lemma unix_add_second [simp]: "unix (t + n * second) = unix t + n"
  by (simp add: unix_def second_def)

lemma from_unix_le: "from_unix (unix t) \<le> t" "t < from_unix (unix t) + second"
  by (auto simp: from_unix_def unix_def second_def)

subsection \<open>Statements on tables\<close>

definition upd_where :: "('r \<Rightarrow> bool) \<Rightarrow> ('r \<Rightarrow> 'r) \<Rightarrow> 'r list \<Rightarrow> 'r list" where
  "upd_where p f t = map (\<lambda>r. if p r then f r else r) t"

definition del_where :: "('r \<Rightarrow> bool) \<Rightarrow> 'r list \<Rightarrow> 'r list" where
  "del_where p t = filter (\<lambda>r. \<not> p r) t"

definition ins_row :: "'r \<Rightarrow> 'r list \<Rightarrow> 'r list" where
  "ins_row r t = t @ [r]"

definition sel_row :: "('r \<Rightarrow> bool) \<Rightarrow> 'r list \<Rightarrow> 'r option" where
  "sel_row p t = find p t"

definition hits :: "('r \<Rightarrow> bool) \<Rightarrow> 'r list \<Rightarrow> nat" where
  "hits p t = length (filter p t)"

lemma set_upd_where [table_simps]:
  "set (upd_where p f t) = f ` {q \<in> set t. p q} \<union> {q \<in> set t. \<not> p q}"
  by (auto simp: upd_where_def split: if_splits)

lemma set_del_where [simp, table_simps]: "set (del_where p t) = {r \<in> set t. \<not> p r}"
  by (auto simp: del_where_def)

lemma set_ins_row [simp, table_simps]: "set (ins_row r t) = insert r (set t)"
  by (auto simp: ins_row_def)

lemma sel_row_Some: "sel_row p t = Some r \<Longrightarrow> r \<in> set t \<and> p r"
  by (auto simp: sel_row_def find_Some_iff)

lemma sel_row_None: "sel_row p t = None \<longleftrightarrow> (\<forall>r \<in> set t. \<not> p r)"
  by (auto simp: sel_row_def find_None_iff)

lemma hits_zero: "hits p t = 0 \<longleftrightarrow> (\<forall>r \<in> set t. \<not> p r)"
  by (auto simp: hits_def filter_empty_conv)

lemma hits_del_where: "hits p t + length (del_where p t) = length t"
  by (simp add: hits_def del_where_def sum_length_filter_compl)

lemma upd_where_none: "(\<And>r. r \<in> set t \<Longrightarrow> \<not> p r) \<Longrightarrow> upd_where p f t = t"
  by (induction t) (auto simp: upd_where_def)

lemma length_upd_where [simp]: "length (upd_where p f t) = length t"
  by (simp add: upd_where_def)

lemma map_upd_where:
  "(\<And>r. r \<in> set t \<Longrightarrow> p r \<Longrightarrow> k (f r) = k r) \<Longrightarrow> map k (upd_where p f t) = map k t"
  by (simp add: upd_where_def)

subsection \<open>Tables with a key\<close>

text \<open>
  \<open>keyed key t\<close> is a \<open>PRIMARY KEY\<close> or \<open>UNIQUE\<close> constraint: no two rows agree on the column (or
  expression) \<open>key\<close>. The lemmas say which statements keep it.
\<close>

definition keyed :: "('r \<Rightarrow> 'k) \<Rightarrow> 'r list \<Rightarrow> bool" where
  "keyed key t \<longleftrightarrow> distinct (map key t)"

lemma keyed_Nil [simp]: "keyed key []"
  by (simp add: keyed_def)

lemma keyed_ins: "keyed key t \<Longrightarrow> (\<And>q. q \<in> set t \<Longrightarrow> key q \<noteq> key r) \<Longrightarrow> keyed key (ins_row r t)"
  by (force simp: keyed_def ins_row_def)

lemma keyed_del [intro]: "keyed key t \<Longrightarrow> keyed key (del_where p t)"
  by (simp add: keyed_def del_where_def distinct_map_filter)

lemma keyed_upd:
  "keyed key t \<Longrightarrow> (\<And>r. r \<in> set t \<Longrightarrow> p r \<Longrightarrow> key (f r) = key r) \<Longrightarrow> keyed key (upd_where p f t)"
  by (simp add: keyed_def map_upd_where)

lemma keyed_unique: "keyed key t \<Longrightarrow> q \<in> set t \<Longrightarrow> r \<in> set t \<Longrightarrow> key q = key r \<Longrightarrow> q = r"
  by (auto simp: keyed_def distinct_map inj_on_def)

lemma keyed_sel: "keyed key t \<Longrightarrow> r \<in> set t \<Longrightarrow> sel_row (\<lambda>q. key q = key r) t = Some r"
proof -
  assume k: "keyed key t" and r: "r \<in> set t"
  then obtain q where q: "sel_row (\<lambda>q. key q = key r) t = Some q"
    by (cases "sel_row (\<lambda>q. key q = key r) t") (auto simp: sel_row_None)
  with sel_row_Some [OF q] k r show ?thesis
    by (auto dest: keyed_unique)
qed

lemma keyed_hits_le_1: "keyed key t \<Longrightarrow> hits (\<lambda>r. key r = k) t \<le> 1"
proof (induction t)
  case (Cons r t)
  then have new: "key r \<notin> key ` set t" by (simp add: keyed_def)
  have "hits (\<lambda>r. key r = k) t = 0" if "key r = k"
    unfolding hits_zero using new that by (metis imageI)
  with Cons show ?case
    by (auto simp: hits_def keyed_def)
qed (simp add: hits_def)

subsection \<open>Transition systems\<close>

text \<open>The contract of a component that keeps an invariant: every step of it does.\<close>

locale transition_system =
  fixes step :: "'s \<Rightarrow> 's \<Rightarrow> bool" and inv :: "'s \<Rightarrow> bool"
  assumes step_inv: "step s s' \<Longrightarrow> inv s \<Longrightarrow> inv s'"
begin

lemma reach_inv: "step\<^sup>*\<^sup>* s s' \<Longrightarrow> inv s \<Longrightarrow> inv s'"
  by (induction rule: rtranclp_induct) (auto intro: step_inv)

lemma reach_property:
  assumes "step\<^sup>*\<^sup>* s s'" "inv s" "P s" and "\<And>s s'. step s s' \<Longrightarrow> inv s \<Longrightarrow> P s \<Longrightarrow> P s'"
  shows "P s'"
  using assms(1)
proof (induction rule: rtranclp_induct)
  case (step y z)
  then show ?case using assms(2,4) reach_inv by blast
qed (rule assms(3))

end

end
