(* ===== verification/Go_Text.thy ===== *)
theory Go_Text
  imports Go_Base "HOL-Library.Char_ord" "HOL-Library.List_Lexorder"
begin

text \<open>
  The part of Go's \<open>strings\<close>, \<open>strconv\<close> and \<open>regexp\<close> packages the controller's validators use.
  A Go string is a sequence of bytes, so it is a \<open>string\<close> here, one \<open>char\<close> per byte, and
  \<open>length\<close> is Go's \<open>len\<close>.

  \<open>trim_space\<close> is \<open>strings.TrimSpace\<close>, with the Unicode white space in its UTF-8 encoding.
  \<open>to_lower\<close> is \<open>strings.ToLower\<close> on ASCII letters and on the two runes whose lower case is an
  ASCII letter (the Kelvin sign and the dotted capital I); other non-ASCII runes are kept, and
  every validator refuses a text that still holds one of their bytes.
\<close>

subsection \<open>Bytes\<close>

abbreviation byte :: "char \<Rightarrow> nat" where
  "byte c \<equiv> of_char c"

definition is_digit :: "char \<Rightarrow> bool" where
  "is_digit c \<longleftrightarrow> 48 \<le> byte c \<and> byte c \<le> 57"

definition is_lower_hex :: "char \<Rightarrow> bool" where
  "is_lower_hex c \<longleftrightarrow> is_digit c \<or> 97 \<le> byte c \<and> byte c \<le> 102"

definition is_upper :: "char \<Rightarrow> bool" where
  "is_upper c \<longleftrightarrow> 65 \<le> byte c \<and> byte c \<le> 90"

definition is_lower :: "char \<Rightarrow> bool" where
  "is_lower c \<longleftrightarrow> 97 \<le> byte c \<and> byte c \<le> 122"

definition is_alnum :: "char \<Rightarrow> bool" where
  "is_alnum c \<longleftrightarrow> is_digit c \<or> is_upper c \<or> is_lower c"

definition lower_byte :: "char \<Rightarrow> char" where
  "lower_byte c = (if is_upper c then char_of (byte c + 32) else c)"

lemma byte_char_of_small: "n < 256 \<Longrightarrow> byte (char_of (n :: nat)) = n"
  by (simp add: of_char_of)

lemma lower_byte_id [simp]: "\<not> is_upper c \<Longrightarrow> lower_byte c = c"
  by (simp add: lower_byte_def)

lemma not_upper_lower_byte [simp]: "\<not> is_upper (lower_byte c)"
  by (auto simp: lower_byte_def is_upper_def byte_char_of_small)

lemma lower_byte_idem [simp]: "lower_byte (lower_byte c) = lower_byte c"
  by simp

lemma byte_lower_byte: "byte (lower_byte c) = (if is_upper c then byte c + 32 else byte c)"
  by (auto simp: lower_byte_def is_upper_def byte_char_of_small)

subsection \<open>White space\<close>

definition ascii_space :: "char \<Rightarrow> bool" where
  "ascii_space c \<longleftrightarrow> byte c \<in> {9, 10, 11, 12, 13, 32}"

text \<open>The UTF-8 encodings of the runes that \<open>unicode.IsSpace\<close> accepts.\<close>

definition space_seqs :: "string list" where
  "space_seqs =
    [[CHR 0x09], [CHR 0x0A], [CHR 0x0B], [CHR 0x0C], [CHR 0x0D], [CHR 0x20],
     [CHR 0xC2, CHR 0x85], [CHR 0xC2, CHR 0xA0], [CHR 0xE1, CHR 0x9A, CHR 0x80],
     [CHR 0xE2, CHR 0x80, CHR 0x80], [CHR 0xE2, CHR 0x80, CHR 0x81],
     [CHR 0xE2, CHR 0x80, CHR 0x82], [CHR 0xE2, CHR 0x80, CHR 0x83],
     [CHR 0xE2, CHR 0x80, CHR 0x84], [CHR 0xE2, CHR 0x80, CHR 0x85],
     [CHR 0xE2, CHR 0x80, CHR 0x86], [CHR 0xE2, CHR 0x80, CHR 0x87],
     [CHR 0xE2, CHR 0x80, CHR 0x88], [CHR 0xE2, CHR 0x80, CHR 0x89],
     [CHR 0xE2, CHR 0x80, CHR 0x8A], [CHR 0xE2, CHR 0x80, CHR 0xA8],
     [CHR 0xE2, CHR 0x80, CHR 0xA9], [CHR 0xE2, CHR 0x80, CHR 0xAF],
     [CHR 0xE2, CHR 0x81, CHR 0x9F], [CHR 0xE3, CHR 0x80, CHR 0x80]]"

definition starts_with :: "string \<Rightarrow> string \<Rightarrow> bool" where
  "starts_with w s \<longleftrightarrow> take (length w) s = w"

definition lead_seq :: "string list \<Rightarrow> string \<Rightarrow> nat" where
  "lead_seq ws s = (case find (\<lambda>w. starts_with w s) ws of None \<Rightarrow> 0 | Some w \<Rightarrow> length w)"

function strip_with :: "string list \<Rightarrow> string \<Rightarrow> string" where
  "strip_with ws s =
    (if s = [] \<or> lead_seq ws s = 0 then s else strip_with ws (drop (lead_seq ws s) s))"
  by pat_completeness auto
termination
  by (relation "measure (\<lambda>(ws, s). length s)") auto

declare strip_with.simps [simp del]

definition trim_left :: "string \<Rightarrow> string" where
  "trim_left s = strip_with space_seqs s"

definition trim_right :: "string \<Rightarrow> string" where
  "trim_right s = rev (strip_with (map rev space_seqs) (rev s))"

definition trim_space :: "string \<Rightarrow> string" where
  "trim_space s = trim_right (trim_left s)"

text \<open>A text of visible ASCII bytes is its own trimming: no white-space rune starts or ends in it.\<close>

definition visible :: "char \<Rightarrow> bool" where
  "visible c \<longleftrightarrow> 32 < byte c \<and> byte c < 127"

lemma strip_with_id: "lead_seq ws s = 0 \<Longrightarrow> strip_with ws s = s"
  by (subst strip_with.simps) simp

lemma lead_seq_zero:
  "(\<And>w. w \<in> set ws \<Longrightarrow> \<not> starts_with w s) \<Longrightarrow> lead_seq ws s = 0"
  by (auto simp: lead_seq_def find_None_iff split: option.splits dest!: find_Some_iff [THEN iffD1])

lemma starts_with_Cons:
  "starts_with (x # w) s \<longleftrightarrow> (\<exists>t. s = x # t \<and> starts_with w t)"
  by (cases s) (auto simp: starts_with_def)

lemma starts_with_Nil [simp]: "starts_with [] s"
  by (simp add: starts_with_def)

lemma space_seqs_invisible: "list_all (\<lambda>w. w \<noteq> [] \<and> \<not> visible (hd w)) space_seqs"
  by code_simp

lemma space_seqs_rev_invisible:
  "list_all (\<lambda>w. w \<noteq> [] \<and> \<not> visible (hd w)) (map rev space_seqs)"
  by code_simp

lemma lead_seq_visible:
  assumes ws: "list_all (\<lambda>w. w \<noteq> [] \<and> \<not> visible (hd w)) ws" and s: "s = [] \<or> visible (hd s)"
  shows "lead_seq ws s = 0"
proof (rule lead_seq_zero)
  fix w assume "w \<in> set ws"
  with ws have "w \<noteq> [] \<and> \<not> visible (hd w)"
    by (simp add: list_all_iff)
  then obtain x v where "w = x # v" "\<not> visible x"
    by (cases w) auto
  with s show "\<not> starts_with w s"
    by (auto simp: starts_with_Cons)
qed

lemmas lead_space_visible = lead_seq_visible [OF space_seqs_invisible]
lemmas trail_space_visible = lead_seq_visible [OF space_seqs_rev_invisible]

lemma trim_space_visible:
  assumes "s = [] \<or> visible (hd s) \<and> visible (last s)"
  shows "trim_space s = s"
proof -
  have "trim_left s = s"
    using assms by (auto simp: trim_left_def intro!: strip_with_id lead_space_visible)
  moreover have "strip_with (map rev space_seqs) (rev s) = rev s"
    using assms by (intro strip_with_id trail_space_visible) (auto simp: hd_rev)
  ultimately show ?thesis
    by (simp add: trim_space_def trim_right_def)
qed

lemma trim_space_Nil [simp]: "trim_space [] = []"
  by (rule trim_space_visible) simp

lemma strip_with_fixed: "strip_with ws (strip_with ws s) = strip_with ws s"
proof (induction ws s rule: strip_with.induct)
  case (1 ws s)
  show ?case
  proof (cases "s = [] \<or> lead_seq ws s = 0")
    case True
    then have "strip_with ws s = s" by (subst strip_with.simps) simp
    then show ?thesis by simp
  next
    case False
    then have "strip_with ws s = strip_with ws (drop (lead_seq ws s) s)"
      by (subst strip_with.simps) simp
    with 1 False show ?thesis by simp
  qed
qed

lemma strip_with_step:
  "\<not> (s = [] \<or> lead_seq ws s = 0) \<Longrightarrow> strip_with ws s = strip_with ws (drop (lead_seq ws s) s)"
  by (subst strip_with.simps) simp

lemma strip_with_stop: "s = [] \<or> lead_seq ws s = 0 \<Longrightarrow> strip_with ws s = s"
  by (subst strip_with.simps) simp

lemma strip_with_suffix: "\<exists>n. strip_with ws s = drop n s"
proof (induction ws s rule: strip_with.induct)
  case (1 ws s)
  show ?case
  proof (cases "s = [] \<or> lead_seq ws s = 0")
    case True
    then have "strip_with ws s = drop 0 s" by (simp add: strip_with_stop)
    then show ?thesis by blast
  next
    case False
    with 1 obtain n where "strip_with ws s = drop n (drop (lead_seq ws s) s)"
      by (metis strip_with_step)
    then show ?thesis by (metis drop_drop)
  qed
qed

lemma set_strip_with: "set (strip_with ws s) \<subseteq> set s"
  using strip_with_suffix [of ws s] by (auto dest: in_set_dropD)

lemma length_strip_with: "length (strip_with ws s) \<le> length s"
  using strip_with_suffix [of ws s] by auto

lemma set_trim_space: "set (trim_space s) \<subseteq> set s"
proof -
  have "set (trim_space s) \<subseteq> set (rev (trim_left s))"
    using set_strip_with [of "map rev space_seqs" "rev (trim_left s)"]
    by (simp only: trim_space_def trim_right_def set_rev)
  also have "\<dots> \<subseteq> set s"
    unfolding trim_left_def set_rev by (rule set_strip_with)
  finally show ?thesis .
qed

lemma length_trim_space: "length (trim_space s) \<le> length s"
proof -
  have "length (trim_space s) \<le> length (rev (trim_left s))"
    using length_strip_with [of "map rev space_seqs" "rev (trim_left s)"]
    by (simp only: trim_space_def trim_right_def length_rev)
  also have "\<dots> \<le> length s"
    unfolding trim_left_def length_rev by (rule length_strip_with)
  finally show ?thesis .
qed

lemma starts_with_append: "starts_with w s \<Longrightarrow> starts_with w (s @ t)"
  by (metis append_assoc append_eq_conv_conj append_take_drop_id starts_with_def)

lemma lead_seq_pos: "lead_seq ws s \<noteq> 0 \<Longrightarrow> \<exists>w \<in> set ws. starts_with w s"
  by (cases "find (\<lambda>w. starts_with w s) ws")
    (auto simp: lead_seq_def find_Some_iff dest: nth_mem)

lemma lead_seq_0: "lead_seq ws s = 0 \<Longrightarrow> w \<in> set ws \<Longrightarrow> starts_with w s \<Longrightarrow> [] \<in> set ws"
  by (cases "find (\<lambda>w. starts_with w s) ws")
    (auto simp: lead_seq_def find_None_iff find_Some_iff dest: nth_mem)

lemma trim_space_idem: "trim_space (trim_space s) = trim_space s"
proof -
  define t where "t = trim_left s"
  define u where "u = trim_right t"
  have tt: "trim_left t = t"
    by (simp add: t_def trim_left_def strip_with_fixed)
  have uu: "trim_right u = u"
    by (simp add: u_def trim_right_def strip_with_fixed)
  obtain n where "strip_with (map rev space_seqs) (rev t) = drop n (rev t)"
    using strip_with_suffix by blast
  then have "u = take (length t - n) t"
    by (simp add: u_def trim_right_def rev_drop)
  then obtain v where v: "t = u @ v"
    by (metis append_take_drop_id)
  have "trim_left u = u"
  proof (cases "u = [] \<or> lead_seq space_seqs u = 0")
    case True
    then show ?thesis by (simp add: trim_left_def strip_with_stop)
  next
    case False
    then obtain w where w: "w \<in> set space_seqs" "starts_with w u"
      using lead_seq_pos by blast
    have "lead_seq space_seqs t \<noteq> 0"
    proof
      assume "lead_seq space_seqs t = 0"
      moreover have "starts_with w t" using w v by (simp add: starts_with_append)
      ultimately have "[] \<in> set space_seqs"
        using w lead_seq_0 by blast
      then show False using space_seqs_invisible by (auto simp: list_all_iff)
    qed
    moreover have "t \<noteq> []" using False v by auto
    ultimately have "strip_with space_seqs t = strip_with space_seqs (drop (lead_seq space_seqs t) t)"
      by (intro strip_with_step) simp
    then have "length (strip_with space_seqs t) \<le> length t - lead_seq space_seqs t"
      by (metis length_strip_with length_drop)
    moreover have "strip_with space_seqs t = t" using tt by (simp add: trim_left_def)
    ultimately show ?thesis using \<open>lead_seq space_seqs t \<noteq> 0\<close> \<open>t \<noteq> []\<close>
      by (metis diff_less le_antisym length_greater_0_conv less_le_not_le not_gr_zero)
  qed
  then show ?thesis
    using uu by (simp add: trim_space_def u_def t_def)
qed

subsection \<open>Lower case\<close>

function to_lower :: "string \<Rightarrow> string" where
  "to_lower s =
    (case s of
       [] \<Rightarrow> []
     | c # cs \<Rightarrow>
         if starts_with [CHR 0xE2, CHR 0x84, CHR 0xAA] s then CHR ''k'' # to_lower (drop 3 s)
         else if starts_with [CHR 0xC4, CHR 0xB0] s then CHR ''i'' # to_lower (drop 2 s)
         else lower_byte c # to_lower cs)"
  by pat_completeness auto
termination
  by (relation "measure length") auto

declare to_lower.simps [simp del]

lemma to_lower_Nil [simp]: "to_lower [] = []"
  by (subst to_lower.simps) simp

lemma to_lower_ascii:
  "(\<And>c. c \<in> set s \<Longrightarrow> byte c < 128) \<Longrightarrow> to_lower s = map lower_byte s"
proof (induction s)
  case (Cons c cs)
  have "byte c < 128" by (simp add: Cons.prems)
  then have "\<not> starts_with [CHR 0xE2, CHR 0x84, CHR 0xAA] (c # cs)"
    "\<not> starts_with [CHR 0xC4, CHR 0xB0] (c # cs)"
    by (auto simp: starts_with_Cons)
  with Cons show ?case by (subst to_lower.simps) simp
qed simp

lemma to_lower_id:
  assumes "\<And>c. c \<in> set s \<Longrightarrow> byte c < 128 \<and> \<not> is_upper c"
  shows "to_lower s = s"
proof -
  have "to_lower s = map lower_byte s"
    using assms by (intro to_lower_ascii) simp
  also have "\<dots> = s"
    using assms by (induction s) auto
  finally show ?thesis .
qed

definition lower_trim :: "string \<Rightarrow> string" where
  "lower_trim s = to_lower (trim_space s)"

text \<open>A canonical text is kept by \<open>strings.ToLower(strings.TrimSpace(s))\<close>.\<close>

definition canonical_char :: "char \<Rightarrow> bool" where
  "canonical_char c \<longleftrightarrow> visible c \<and> \<not> is_upper c"

lemma lower_trim_canonical:
  assumes "\<And>c. c \<in> set s \<Longrightarrow> canonical_char c"
  shows "lower_trim s = s"
proof -
  have "trim_space s = s"
    by (rule trim_space_visible) (cases s; use assms in \<open>auto simp: canonical_char_def\<close>)
  moreover have "to_lower s = s"
    using assms by (intro to_lower_id) (force simp: canonical_char_def visible_def)
  ultimately show ?thesis by (simp add: lower_trim_def)
qed

lemma canonical_lower_hex: "is_lower_hex c \<Longrightarrow> canonical_char c"
  by (auto simp: is_lower_hex_def is_digit_def canonical_char_def visible_def is_upper_def)

subsection \<open>Searching and splitting\<close>

text \<open>\<open>strings.HasPrefix\<close> is \<open>starts_with\<close>; \<open>strings.Contains\<close>, \<open>strings.Split\<close> on one byte.\<close>

fun contains_sub :: "string \<Rightarrow> string \<Rightarrow> bool" where
  "contains_sub w [] \<longleftrightarrow> w = []"
| "contains_sub w (c # cs) \<longleftrightarrow> starts_with w (c # cs) \<or> contains_sub w cs"

fun split_on :: "char \<Rightarrow> string \<Rightarrow> string list" where
  "split_on d [] = [[]]"
| "split_on d (c # cs) =
    (if c = d then [] # split_on d cs
     else (case split_on d cs of [] \<Rightarrow> [[c]] | w # ws \<Rightarrow> (c # w) # ws))"

fun join_with :: "string \<Rightarrow> string list \<Rightarrow> string" where
  "join_with d [] = []"
| "join_with d [w] = w"
| "join_with d (w # ws) = w @ d @ join_with d ws"

lemma split_on_not_Nil [simp]: "split_on d s \<noteq> []"
  by (induction s) (auto split: list.splits)

lemma split_on_none: "d \<notin> set s \<Longrightarrow> split_on d s = [s]"
  by (induction s) auto

lemma split_on_append: "d \<notin> set w \<Longrightarrow> split_on d (w @ d # s) = w # split_on d s"
  by (induction w) auto

lemma join_split: "join_with [d] (split_on d s) = s"
proof (induction s)
  case (Cons c cs)
  then show ?case
    by (cases "split_on d cs" rule: remdups_adj.cases) (auto split: list.splits)
qed simp

lemma split_join:
  assumes "ws \<noteq> []" "\<And>w. w \<in> set ws \<Longrightarrow> d \<notin> set w"
  shows "split_on d (join_with [d] ws) = ws"
  using assms
  by (induction "[d]" ws rule: join_with.induct) (auto simp: split_on_none split_on_append)

text \<open>\<open>strings.ReplaceAll(s, old, new)\<close> for a non-empty \<open>old\<close>.\<close>

function replace_all :: "string \<Rightarrow> string \<Rightarrow> string \<Rightarrow> string" where
  "replace_all old new s =
    (case s of
       [] \<Rightarrow> []
     | c # cs \<Rightarrow>
         if old \<noteq> [] \<and> starts_with old s then new @ replace_all old new (drop (length old) s)
         else c # replace_all old new cs)"
  by pat_completeness auto
termination
  by (relation "measure (\<lambda>(old, new, s). length s)") auto

declare replace_all.simps [simp del]

subsection \<open>Decimal numerals\<close>

fun digits_nat :: "nat \<Rightarrow> string" where
  "digits_nat n =
    (if n < 10 then [char_of (48 + n)] else digits_nat (n div 10) @ [char_of (48 + n mod 10)])"

declare digits_nat.simps [simp del]

definition digit_val :: "char \<Rightarrow> nat" where
  "digit_val c = byte c - 48"

definition val_digits :: "string \<Rightarrow> nat" where
  "val_digits s = foldl (\<lambda>v c. v * 10 + digit_val c) 0 s"

lemma digits_nat_props:
  "digits_nat n \<noteq> [] \<and> (\<forall>c \<in> set (digits_nat n). is_digit c) \<and> val_digits (digits_nat n) = n"
proof (induction n rule: digits_nat.induct)
  case (1 n)
  show ?case
  proof (cases "n < 10")
    case True
    then show ?thesis
      by (subst (1 2 3) digits_nat.simps)
        (simp add: is_digit_def val_digits_def digit_val_def byte_char_of_small)
  next
    case False
    with 1 show ?thesis
      by (subst (1 2 3) digits_nat.simps)
        (auto simp: is_digit_def val_digits_def digit_val_def byte_char_of_small)
  qed
qed

lemma hd_digits_nat: "n > 0 \<Longrightarrow> hd (digits_nat n) \<noteq> CHR ''0''"
proof (induction n rule: digits_nat.induct)
  case (1 n)
  show ?case
  proof (cases "n < 10")
    case True
    with 1 have "byte (hd (digits_nat n)) \<noteq> 48"
      by (subst digits_nat.simps) (simp add: byte_char_of_small)
    then show ?thesis by auto
  next
    case False
    then have "hd (digits_nat n) = hd (digits_nat (n div 10))"
      using digits_nat_props [of "n div 10"] by (subst digits_nat.simps) simp
    with 1 False show ?thesis by simp
  qed
qed

lemma digits_nat_0: "digits_nat 0 = ''0''"
  by code_simp

subsection \<open>Identifiers\<close>

text \<open>
  The two regular expressions every store checks its keys with: thirty-two lower-case hexadecimal
  digits, and the canonical SMBIOS UUID \<open>8-4-4-4-12\<close>.
\<close>

definition hex_run :: "nat \<Rightarrow> string \<Rightarrow> bool" where
  "hex_run n s \<longleftrightarrow> length s = n \<and> list_all is_lower_hex s"

definition hex32_match :: "string \<Rightarrow> bool" where
  "hex32_match s \<longleftrightarrow> hex_run 32 s"

definition smbios_uuid_match :: "string \<Rightarrow> bool" where
  "smbios_uuid_match s \<longleftrightarrow>
    (case split_on CHR ''-'' s of
       [a, b, c, d, e] \<Rightarrow> hex_run 8 a \<and> hex_run 4 b \<and> hex_run 4 c \<and> hex_run 4 d \<and> hex_run 12 e
     | _ \<Rightarrow> False)"

lemma hex_run_canonical: "hex_run n s \<Longrightarrow> c \<in> set s \<Longrightarrow> canonical_char c"
  by (auto simp: hex_run_def list_all_iff intro: canonical_lower_hex)

lemma hex32_canonical: "hex32_match s \<Longrightarrow> lower_trim s = s"
  by (rule lower_trim_canonical) (auto simp: hex32_match_def intro: hex_run_canonical)

lemma set_split_on: "set s \<subseteq> insert d (\<Union> (set ` set (split_on d s)))"
proof (induction s)
  case (Cons a s)
  obtain w ws where "split_on d s = w # ws"
    using split_on_not_Nil [of d s] by (cases "split_on d s") simp_all
  with Cons show ?case by auto
qed simp

lemma smbios_uuid_canonical:
  assumes "smbios_uuid_match s"
  shows "lower_trim s = s"
proof (rule lower_trim_canonical)
  fix c assume "c \<in> set s"
  moreover obtain a b c' d e where parts: "split_on CHR ''-'' s = [a, b, c', d, e]"
    and runs: "hex_run 8 a" "hex_run 4 b" "hex_run 4 c'" "hex_run 4 d" "hex_run 12 e"
    using assms by (auto simp: smbios_uuid_match_def split: list.splits)
  ultimately have "c = CHR ''-'' \<or> c \<in> set a \<union> set b \<union> set c' \<union> set d \<union> set e"
    using set_split_on [of s "CHR ''-''"] by auto
  with runs show "canonical_char c"
    by (auto simp: canonical_char_def visible_def is_upper_def dest: hex_run_canonical)
qed

subsection \<open>Runes\<close>

text \<open>
  The runes of a text as \<open>range\<close> and \<open>regexp\<close> see them: an invalid byte is U+FFFD of width one.
\<close>

definition is_cont :: "nat \<Rightarrow> nat \<Rightarrow> char \<Rightarrow> bool" where
  "is_cont lo hi c \<longleftrightarrow> lo \<le> byte c \<and> byte c \<le> hi"

definition utf8_lead :: "nat \<Rightarrow> (nat \<times> nat \<times> nat) option" where
  "utf8_lead b =
    (if 0xC2 \<le> b \<and> b \<le> 0xDF then Some (1, 0x80, 0xBF)
     else if b = 0xE0 then Some (2, 0xA0, 0xBF)
     else if b = 0xED then Some (2, 0x80, 0x9F)
     else if 0xE1 \<le> b \<and> b \<le> 0xEF then Some (2, 0x80, 0xBF)
     else if b = 0xF0 then Some (3, 0x90, 0xBF)
     else if 0xF1 \<le> b \<and> b \<le> 0xF3 then Some (3, 0x80, 0xBF)
     else if b = 0xF4 then Some (3, 0x80, 0x8F)
     else None)"

definition decode_rune :: "string \<Rightarrow> nat \<times> nat" where
  "decode_rune s =
    (case s of
       [] \<Rightarrow> (0xFFFD, 0)
     | c # cs \<Rightarrow>
       (if byte c < 128 then (byte c, 1)
        else case utf8_lead (byte c) of
          None \<Rightarrow> (0xFFFD, 1)
        | Some (n, lo, hi) \<Rightarrow>
          (if n \<le> length cs \<and> is_cont lo hi (hd cs) \<and> list_all (is_cont 0x80 0xBF) (take n cs)
           then (foldl (\<lambda>v d. v * 64 + (byte d - 0x80)) (byte c mod 2 ^ (6 - n)) (take n cs), Suc n)
           else (0xFFFD, 1))))"

function runes :: "string \<Rightarrow> nat list" where
  "runes s = (if s = [] then [] else fst (decode_rune s) # runes (drop (max 1 (snd (decode_rune s))) s))"
  by pat_completeness auto
termination
  by (relation "measure length") auto

declare runes.simps [simp del]

subsection \<open>Validators\<close>

text \<open>
  The contract every canonicalising validator of the stores keeps: what it returns is accepted
  again and unchanged. A store may therefore validate a value it read back.
\<close>

locale canonical_validator =
  fixes check :: "string \<Rightarrow> ('e, string) result"
  assumes stable: "check s = Inr t \<Longrightarrow> check t = Inr t"
begin

lemma accepted_iff: "(\<exists>s. check s = Inr t) \<longleftrightarrow> check t = Inr t"
  using stable by blast

lemma same_canonical: "check s = Inr t \<Longrightarrow> check t = Inr u \<Longrightarrow> u = t"
  using stable by force

end

end
