(* ===== verification/Go_Net.thy ===== *)
theory Go_Net
  imports Go_Text
begin

unbundle bit_operations_syntax

text \<open>
  The part of Go's \<open>net\<close> and \<open>net/netip\<close> packages the controller uses: IPv4 addresses as 32-bit
  words, \<open>netip.Addr\<close> with its zero value and its IPv6 form, \<open>net.IP\<close> as a byte slice (nil is
  the empty list), parsing and printing of literals, and IPv4 prefixes.
\<close>

subsection \<open>IPv4 addresses\<close>

type_synonym ip4 = "32 word"

definition ip4_of :: "nat \<Rightarrow> nat \<Rightarrow> nat \<Rightarrow> nat \<Rightarrow> ip4" where
  "ip4_of a b c d = word_of_nat (((a * 256 + b) * 256 + c) * 256 + d)"

definition octets :: "ip4 \<Rightarrow> nat list" where
  "octets w = [unat w div 16777216, unat w div 65536 mod 256, unat w div 256 mod 256, unat w mod 256]"

definition show_ip4 :: "ip4 \<Rightarrow> string" where
  "show_ip4 w = join_with ''.'' (map digits_nat (octets w))"

text \<open>One decimal field: no sign, no leading zero, at most \<open>m\<close>.\<close>

definition parse_dec :: "nat \<Rightarrow> string \<Rightarrow> nat option" where
  "parse_dec m s =
    (if s \<noteq> [] \<and> list_all is_digit s \<and> (length s = 1 \<or> hd s \<noteq> CHR ''0'') \<and> val_digits s \<le> m
     then Some (val_digits s) else None)"

definition parse_ip4 :: "string \<Rightarrow> ip4 option" where
  "parse_ip4 s =
    (case map (parse_dec 255) (split_on CHR ''.'' s) of
       [Some a, Some b, Some c, Some d] \<Rightarrow> Some (ip4_of a b c d)
     | _ \<Rightarrow> None)"

lemma unat_ip4_lt: "unat (w :: ip4) < 4294967296"
proof -
  have "unat w < 2 ^ LENGTH(32)" by (rule unsigned_less)
  then show ?thesis by simp
qed

text \<open>Counting up: the successor of an address is larger by one unless it is the last one.\<close>

lemma unat_ip4_next: "w \<noteq> (- 1 :: ip4) \<Longrightarrow> unat (w + 1) = Suc (unat w)"
  using unatSuc [of w] by (metis add.commute eq_neg_iff_add_eq_0)

lemma ip4_next_closer: "w \<noteq> (- 1 :: ip4) \<Longrightarrow> 4294967296 - unat (w + 1) < 4294967296 - unat w"
  using unat_ip4_lt [of w] by (simp add: unat_ip4_next)

lemma ip4_le_next: "w \<noteq> (- 1 :: ip4) \<Longrightarrow> w \<le> v \<longleftrightarrow> v = w \<or> w + 1 \<le> v"
  by (auto simp: word_le_nat_alt unat_ip4_next word_unat_eq_iff)

lemma ip4_le_max [simp]: "(w :: ip4) \<le> - 1" "- 1 \<le> w \<longleftrightarrow> w = - 1" "\<not> - 1 < w"
  by (auto simp: word_order.extremum_unique)

lemma octet_bounds: "n \<in> set (octets w) \<Longrightarrow> n < 256"
  using unat_ip4_lt [of w] by (auto simp: octets_def)

lemma ip4_of_octets:
  "ip4_of (unat w div 16777216) (unat w div 65536 mod 256) (unat w div 256 mod 256) (unat w mod 256) = w"
proof -
  have step: "n div m * 256 + n div k mod 256 = n div k" if "m = k * 256" for n k m :: nat
    using that by (simp add: div_mult2_eq)
  have "((unat w div 16777216 * 256 + unat w div 65536 mod 256) * 256 + unat w div 256 mod 256) * 256
      + unat w mod 256 = unat w"
    by (simp add: step)
  then show ?thesis by (simp add: ip4_of_def)
qed

lemma parse_dec_digits: "n \<le> m \<Longrightarrow> parse_dec m (digits_nat n) = Some n"
proof -
  assume n: "n \<le> m"
  have "length (digits_nat n) = 1 \<or> hd (digits_nat n) \<noteq> CHR ''0''"
    by (cases "n = 0") (auto simp: digits_nat_0 hd_digits_nat)
  with n digits_nat_props [of n] show ?thesis
    by (simp add: parse_dec_def list_all_iff)
qed

lemma dot_not_digit: "CHR ''.'' \<notin> set (digits_nat n)"
  using digits_nat_props [of n] by (auto simp: is_digit_def)

lemma parse_show_ip4 [simp]: "parse_ip4 (show_ip4 w) = Some w"
proof -
  have "split_on CHR ''.'' (show_ip4 w) = map digits_nat (octets w)"
    unfolding show_ip4_def by (rule split_join) (auto simp: octets_def dot_not_digit)
  moreover have "map (parse_dec 255) (map digits_nat (octets w)) = map Some (octets w)"
    using octet_bounds [of _ w] by (force intro!: parse_dec_digits simp: less_Suc_eq_le [symmetric])
  ultimately show ?thesis
    by (simp add: parse_ip4_def octets_def ip4_of_octets)
qed

lemma show_ip4_inj [simp]: "show_ip4 a = show_ip4 b \<longleftrightarrow> a = b"
  by (metis parse_show_ip4 option.inject)

lemma trim_space_show_ip4 [simp]: "trim_space (show_ip4 w) = show_ip4 w"
proof (rule trim_space_visible)
  obtain a b c d where o: "octets w = [a, b, c, d]"
    by (simp add: octets_def)
  have digits: "digits_nat n \<noteq> []" "x \<in> set (digits_nat n) \<Longrightarrow> visible x" for n x
    using digits_nat_props [of n] by (auto simp: is_digit_def visible_def)
  have s: "show_ip4 w = digits_nat a @ ''.'' @ digits_nat b @ ''.'' @ digits_nat c @ ''.'' @ digits_nat d"
    by (simp add: show_ip4_def o)
  have "visible (hd (show_ip4 w))"
    using digits(1) [of a] digits(2) [of "hd (digits_nat a)" a] by (simp add: s)
  moreover have "visible (last (show_ip4 w))"
    using digits(1) [of d] digits(2) [of "last (digits_nat d)" d] by (simp add: s)
  ultimately show "show_ip4 w = [] \<or> visible (hd (show_ip4 w)) \<and> visible (last (show_ip4 w))"
    by simp
qed

subsection \<open>IPv6 literals\<close>

definition hex_val :: "char \<Rightarrow> nat" where
  "hex_val c = (if is_digit c then byte c - 48 else if is_upper c then byte c - 55 else byte c - 87)"

definition is_hex :: "char \<Rightarrow> bool" where
  "is_hex c \<longleftrightarrow> is_lower_hex c \<or> 65 \<le> byte c \<and> byte c \<le> 70"

definition val_hex :: "string \<Rightarrow> nat" where
  "val_hex s = foldl (\<lambda>v c. v * 16 + hex_val c) 0 s"

text \<open>
  The loop of \<open>netip.parseIPv6\<close>: \<open>gs\<close> are the 16-bit groups read so far, \<open>el\<close> the group index of
  the ellipsis. At most eight groups are read, so the first argument is the number left.
\<close>

fun ip6_groups :: "nat \<Rightarrow> string \<Rightarrow> nat list \<Rightarrow> nat option \<Rightarrow> (nat list \<times> nat option \<times> string) option"
where
  "ip6_groups 0 s gs el = Some (gs, el, s)"
| "ip6_groups (Suc k) s gs el =
    (let h = takeWhile is_hex s; rest = drop (length h) s; gs' = gs @ [val_hex h] in
     if h = [] \<or> length h > 4 then None
     else if rest \<noteq> [] \<and> hd rest = CHR ''.'' then
       (if el = None \<and> length gs \<noteq> 6 \<or> length gs > 6 then None
        else case parse_ip4 s of
               None \<Rightarrow> None
             | Some w \<Rightarrow> Some (gs @ [unat w div 65536, unat w mod 65536], el, []))
     else if rest = [] then Some (gs', el, [])
     else if hd rest \<noteq> CHR '':'' \<or> tl rest = [] then None
     else if hd (tl rest) = CHR '':'' then
       (if el \<noteq> None then None
        else if tl (tl rest) = [] then Some (gs', Some (length gs'), [])
        else ip6_groups k (tl (tl rest)) gs' (Some (length gs')))
     else ip6_groups k (tl rest) gs' el)"

definition ip6_finish :: "(nat list \<times> nat option \<times> string) option \<Rightarrow> nat list option" where
  "ip6_finish r =
    (case r of
       None \<Rightarrow> None
     | Some (gs, el, s) \<Rightarrow>
         if s \<noteq> [] then None
         else if length gs < 8 then
           (case el of
              None \<Rightarrow> None
            | Some e \<Rightarrow> Some (take e gs @ replicate (8 - length gs) 0 @ drop e gs))
         else if el \<noteq> None then None else Some gs)"

definition parse_ip6 :: "string \<Rightarrow> nat list option" where
  "parse_ip6 s =
    (if starts_with ''::'' s then
       (if drop 2 s = [] then Some (replicate 8 0)
        else ip6_finish (ip6_groups 8 (drop 2 s) [] (Some 0)))
     else ip6_finish (ip6_groups 8 s [] None))"

subsection \<open>netip.Addr\<close>

text \<open>
  \<open>AddrZero\<close> is the zero \<open>netip.Addr\<close> (and what \<open>Next\<close> of the last IPv4 address returns): not
  valid, printed as \<open>invalid IP\<close>, smaller than every address.
\<close>

datatype addr = AddrZero | Addr4 ip4 | Addr6 "nat list" string

fun is4 :: "addr \<Rightarrow> bool" where
  "is4 (Addr4 w) = True"
| "is4 _ = False"

definition parse_addr :: "string \<Rightarrow> addr option" where
  "parse_addr s =
    (case find (\<lambda>c. c \<in> {CHR ''.'', CHR '':'', CHR ''%''}) s of
       None \<Rightarrow> None
     | Some c \<Rightarrow>
         if c = CHR ''.'' then map_option Addr4 (parse_ip4 s)
         else if c = CHR '':'' then
           (let body = takeWhile (\<lambda>c. c \<noteq> CHR ''%'') s; zone = drop (Suc (length body)) s in
            if CHR ''%'' \<in> set s \<and> zone = [] then None
            else map_option (\<lambda>gs. Addr6 gs zone) (parse_ip6 body))
         else None)"

fun addr_rank :: "addr \<Rightarrow> nat" where
  "addr_rank AddrZero = 0"
| "addr_rank (Addr4 _) = 32"
| "addr_rank (Addr6 _ _) = 128"

text \<open>\<open>a.Compare(b) <= 0\<close>: by bit length first, then by value.\<close>

fun lex_le :: "nat list \<Rightarrow> nat list \<Rightarrow> bool" where
  "lex_le [] _ = True"
| "lex_le (x # xs) [] = False"
| "lex_le (x # xs) (y # ys) = (x < y \<or> x = y \<and> lex_le xs ys)"

fun addr_le :: "addr \<Rightarrow> addr \<Rightarrow> bool" where
  "addr_le (Addr4 a) (Addr4 b) = (a \<le> b)"
| "addr_le (Addr6 a za) (Addr6 b zb) =
    (if a = b then lex_le (map byte za) (map byte zb) else lex_le a b)"
| "addr_le a b = (addr_rank a \<le> addr_rank b)"

fun show_addr4 :: "addr \<Rightarrow> string" where
  "show_addr4 (Addr4 w) = show_ip4 w"
| "show_addr4 _ = ''invalid IP''"

lemma show_ip4_not_invalid [simp]: "show_ip4 w \<noteq> ''invalid IP''"
proof
  assume "show_ip4 w = ''invalid IP''"
  then have "parse_ip4 ''invalid IP'' = Some w" by (metis parse_show_ip4)
  moreover have "parse_ip4 ''invalid IP'' = None" by code_simp
  ultimately show False by simp
qed

lemma find_dot: "(\<And>c. c \<in> set u \<Longrightarrow> \<not> P c) \<Longrightarrow> P d \<Longrightarrow> find P (u @ d # v) = Some d"
  by (induction u) auto

lemma parse_addr_show_ip4 [simp]: "parse_addr (show_ip4 w) = Some (Addr4 w)"
proof -
  let ?P = "\<lambda>c. c \<in> {CHR ''.'', CHR '':'', CHR ''%''}"
  obtain a b c d where o: "octets w = [a, b, c, d]"
    by (simp add: octets_def)
  have "\<not> ?P x" if "x \<in> set (digits_nat a)" for x
    using that digits_nat_props [of a] by (auto simp: is_digit_def)
  then have "find ?P (show_ip4 w) = Some CHR ''.''"
    unfolding show_ip4_def o by (simp add: find_dot)
  then show ?thesis by (simp add: parse_addr_def)
qed

lemma parse_addr_is4:
  "parse_addr s = Some a \<Longrightarrow> is4 a \<Longrightarrow> \<exists>w. a = Addr4 w \<and> parse_ip4 s = Some w"
  by (auto simp: parse_addr_def Let_def split: option.splits if_splits)

lemma addr_le_4_4 [simp]: "addr_le a (Addr4 w) \<Longrightarrow> addr_le (Addr4 v) a \<Longrightarrow> is4 a"
  by (cases a) auto

text \<open>
  An inclusive segment of a pool: \<open>leases.Range\<close> and its copy \<open>dhcp.Range\<close>, which the adapter in
  \<open>cmd/controller\<close> translates field by field.
\<close>

record addr_range =
  r_start :: addr
  r_end :: addr

definition in_range :: "ip4 \<Rightarrow> addr_range \<Rightarrow> bool" where
  "in_range w r \<longleftrightarrow> addr_le (r_start r) (Addr4 w) \<and> addr_le (Addr4 w) (r_end r)"

subsection \<open>net.IP\<close>

type_synonym net_ip = "8 word list"

definition ip4_bytes :: "ip4 \<Rightarrow> net_ip" where
  "ip4_bytes w = map word_of_nat (octets w)"

definition v4_in_v6_prefix :: net_ip where
  "v4_in_v6_prefix = [0, 0, 0, 0, 0, 0, 0, 0, 0, 0, 255, 255]"

definition to4 :: "net_ip \<Rightarrow> net_ip" where
  "to4 ip =
    (if length ip = 4 then ip
     else if length ip = 16 \<and> take 12 ip = v4_in_v6_prefix then drop 12 ip
     else [])"

definition ip4_of_bytes :: "net_ip \<Rightarrow> ip4" where
  "ip4_of_bytes b = (case b of [a, b, c, d] \<Rightarrow> ip4_of (unat a) (unat b) (unat c) (unat d) | _ \<Rightarrow> 0)"

definition ip_unspecified :: "net_ip \<Rightarrow> bool" where
  "ip_unspecified ip \<longleftrightarrow> to4 ip = [0, 0, 0, 0] \<or> ip = replicate 16 0"

text \<open>\<open>netip.AddrFromSlice(ip.To4())\<close>: no address for a slice that is not IPv4.\<close>

definition addr_from_to4 :: "net_ip \<Rightarrow> ip4 option" where
  "addr_from_to4 ip = (if to4 ip = [] then None else Some (ip4_of_bytes (to4 ip)))"

definition ip6_bytes :: "nat list \<Rightarrow> net_ip" where
  "ip6_bytes gs = concat (map (\<lambda>g. [word_of_nat (g div 256), word_of_nat (g mod 256)]) gs)"

text \<open>\<open>net.ParseIP\<close>: nil for what is not a literal, and for a literal with a zone.\<close>

definition parse_ip :: "string \<Rightarrow> net_ip" where
  "parse_ip s =
    (case parse_addr s of
       Some (Addr4 w) \<Rightarrow> v4_in_v6_prefix @ ip4_bytes w
     | Some (Addr6 gs zone) \<Rightarrow> if zone = [] then ip6_bytes gs else []
     | _ \<Rightarrow> [])"

text \<open>\<open>net.ParseIP(s).To4()\<close> as the address it denotes.\<close>

definition parse_to4 :: "string \<Rightarrow> ip4 option" where
  "parse_to4 s = addr_from_to4 (parse_ip s)"

lemma length_octets [simp]: "length (octets w) = 4"
  by (simp add: octets_def)

lemma length_ip4_bytes [simp]: "length (ip4_bytes w) = 4"
  by (simp add: ip4_bytes_def)

lemma length_v4_prefix [simp]: "length v4_in_v6_prefix = 12"
  by (simp add: v4_in_v6_prefix_def)

lemma to4_ip4_bytes [simp]: "to4 (ip4_bytes w) = ip4_bytes w"
  by (simp add: to4_def)

lemma to4_mapped [simp]: "to4 (v4_in_v6_prefix @ ip4_bytes w) = ip4_bytes w"
  by (simp add: to4_def)

lemma ip4_of_bytes_ip4_bytes [simp]: "ip4_of_bytes (ip4_bytes w) = w"
proof -
  have "map unat (ip4_bytes w) = octets w"
    using octet_bounds [of _ w]
    by (auto simp: ip4_bytes_def unat_of_nat intro!: map_idI)
  then show ?thesis
    by (auto simp: ip4_of_bytes_def octets_def ip4_bytes_def ip4_of_octets)
qed

lemma ip4_bytes_not_Nil [simp]: "ip4_bytes w \<noteq> []"
  by (simp add: ip4_bytes_def octets_def)

lemma addr_from_to4_bytes [simp]: "addr_from_to4 (ip4_bytes w) = Some w"
  by (simp add: addr_from_to4_def)

lemma parse_to4_show_ip4 [simp]: "parse_to4 (show_ip4 w) = Some w"
  by (simp add: parse_to4_def parse_ip_def addr_from_to4_def)

lemma ip4_bytes_inj [simp]: "ip4_bytes a = ip4_bytes b \<longleftrightarrow> a = b"
  by (metis ip4_of_bytes_ip4_bytes)

lemma ip4_bytes_0: "ip4_bytes 0 = [0, 0, 0, 0]"
  by (simp add: ip4_bytes_def octets_def)

lemma unspecified_ip4_bytes [simp]: "ip_unspecified (ip4_bytes w) \<longleftrightarrow> w = 0"
proof -
  have "ip4_bytes w \<noteq> replicate 16 0"
    by (rule notI, drule arg_cong [where f = length]) simp
  then show ?thesis
    by (metis ip4_bytes_0 ip4_bytes_inj ip_unspecified_def to4_ip4_bytes)
qed

subsection \<open>IPv4 prefixes\<close>

text \<open>A prefix is an address and the number of its leading bits that matter (\<open>\<le> 32\<close>).\<close>

type_synonym prefix4 = "ip4 \<times> nat"

definition prefix_bits :: "nat \<Rightarrow> ip4 \<Rightarrow> ip4" where
  "prefix_bits n w = drop_bit (32 - n) w"

definition prefix_masked :: "prefix4 \<Rightarrow> prefix4" where
  "prefix_masked p = (push_bit (32 - snd p) (prefix_bits (snd p) (fst p)), snd p)"

definition prefix_contains :: "prefix4 \<Rightarrow> ip4 \<Rightarrow> bool" where
  "prefix_contains p w \<longleftrightarrow> prefix_bits (snd p) (fst p) = prefix_bits (snd p) w"

definition prefix_overlaps :: "prefix4 \<Rightarrow> prefix4 \<Rightarrow> bool" where
  "prefix_overlaps p q \<longleftrightarrow>
    (let n = min (snd p) (snd q) in prefix_bits n (fst p) = prefix_bits n (fst q))"

text \<open>\<open>netip.ParsePrefix\<close>: the address and the bits around the last slash.\<close>

definition cut_last_slash :: "string \<Rightarrow> (string \<times> string) option" where
  "cut_last_slash s =
    (if CHR ''/'' \<in> set s
     then (let b = rev (takeWhile (\<lambda>c. c \<noteq> CHR ''/'') (rev s))
           in Some (take (length s - length b - 1) s, b))
     else None)"

datatype prefix = Prefix4 prefix4 | Prefix6 "nat list" nat

definition parse_prefix :: "string \<Rightarrow> prefix option" where
  "parse_prefix s =
    (case cut_last_slash s of
       None \<Rightarrow> None
     | Some (a, b) \<Rightarrow>
         (case parse_addr a of
            Some (Addr4 w) \<Rightarrow> map_option (\<lambda>n. Prefix4 (w, n)) (parse_dec 32 b)
          | Some (Addr6 gs zone) \<Rightarrow>
              if zone \<noteq> [] then None else map_option (Prefix6 gs) (parse_dec 128 b)
          | _ \<Rightarrow> None))"

lemma prefix_bits_mono:
  assumes "m \<le> n" "n \<le> 32" "prefix_bits n v = prefix_bits n w"
  shows "prefix_bits m v = prefix_bits m w"
proof -
  have "drop_bit (32 - m) x = drop_bit (n - m) (drop_bit (32 - n) x)" for x :: ip4
    using assms by simp
  with assms(3) show ?thesis
    by (simp only: prefix_bits_def)
qed

lemma prefix_bits_masked:
  "n \<le> 32 \<Longrightarrow> prefix_bits n (push_bit (32 - n) (prefix_bits n w)) = prefix_bits n w"
  unfolding prefix_bits_def
  by (rule bit_eqI) (auto simp: bit_drop_bit_eq bit_push_bit_iff dest: bit_imp_le_length)

text \<open>Two masked prefixes that do not overlap have no address in common.\<close>

lemma prefix_disjoint:
  assumes "\<not> prefix_overlaps p q" "snd p \<le> 32" "snd q \<le> 32" "prefix_contains p w"
  shows "\<not> prefix_contains q w"
proof
  assume q: "prefix_contains q w"
  let ?n = "min (snd p) (snd q)"
  have "prefix_bits ?n (fst p) = prefix_bits ?n w"
    using assms by (auto simp: prefix_contains_def intro: prefix_bits_mono [where n = "snd p"])
  moreover have "prefix_bits ?n (fst q) = prefix_bits ?n w"
    using assms q by (auto simp: prefix_contains_def intro: prefix_bits_mono [where n = "snd q"])
  ultimately show False
    using assms(1) by (simp add: prefix_overlaps_def Let_def)
qed

lemma parse_dec_le: "parse_dec m s = Some n \<Longrightarrow> n \<le> m"
  by (auto simp: parse_dec_def split: if_splits)

lemma parse_prefix_bits: "parse_prefix s = Some (Prefix4 p) \<Longrightarrow> snd p \<le> 32"
  by (auto simp: parse_prefix_def split: option.splits addr.splits if_splits)
    (auto dest: parse_dec_le)

text \<open>\<open>net.CIDRMask(n, 32)\<close>.\<close>

definition cidr_mask :: "nat \<Rightarrow> ip4" where
  "cidr_mask n = push_bit (32 - n) (- 1)"

lemma and_cidr_mask: "x AND cidr_mask n = push_bit (32 - n) (drop_bit (32 - n) x)"
  unfolding cidr_mask_def
  by (rule bit_eqI) (auto simp: bit_and_iff bit_push_bit_iff bit_drop_bit_eq bit_not_iff bit_mask_iff)

lemma prefix_contains_netmask:
  assumes "prefix_contains (v, k) w" "n \<le> k" "k \<le> 32"
  shows "v AND cidr_mask n = w AND cidr_mask n"
proof -
  have "drop_bit (32 - n) v = drop_bit (32 - n) w"
    using prefix_bits_mono [of n k v w] assms by (simp add: prefix_contains_def prefix_bits_def)
  then show ?thesis
    by (simp add: and_cidr_mask)
qed

text \<open>A network is convex: what lies between two of its addresses belongs to it.\<close>

lemma prefix_bits_le: "v \<le> w \<Longrightarrow> prefix_bits n v \<le> prefix_bits n w"
  unfolding prefix_bits_def word_le_nat_alt by (simp add: unat_drop_bit_eq drop_bit_nat_def div_le_mono)

lemma prefix_convex:
  "prefix_contains p u \<Longrightarrow> prefix_contains p w \<Longrightarrow> u \<le> v \<Longrightarrow> v \<le> w \<Longrightarrow> prefix_contains p v"
  using prefix_bits_le [of u v "snd p"] prefix_bits_le [of v w "snd p"]
  by (simp add: prefix_contains_def)

lemma show_ip4_not_Nil [simp]: "show_ip4 w \<noteq> []"
proof
  assume "show_ip4 w = []"
  then have "parse_addr [] = Some (Addr4 w)" by (metis parse_addr_show_ip4)
  then show False by (simp add: parse_addr_def)
qed

end
