(* ===== verification/Lease_Store.thy ===== *)
theory Lease_Store
  imports Go_Net
begin

text \<open>
  \<open>internal/leases/store.go\<close>: the persistent DHCP lease table. The state is the \<open>leases\<close> table, a
  list of \<open>lease\<close> rows whose times are whole seconds. \<open>allocate\<close>, \<open>confirm\<close>, \<open>release\<close>,
  \<open>gc_leases\<close> and \<open>list_leases\<close> are the methods of \<open>Store\<close>; each takes the driver's fault plan and
  the clock reading of the call. \<open>allocate\<close> runs under \<open>allocMu\<close>, so it is one step; its result is
  \<open>None\<close> when the address scan does not return.
\<close>

subsection \<open>Rows and inputs\<close>

datatype lease_state = Offered | Active | Released

record lease =
  l_mac :: string
  l_ip :: string
  l_hostname :: string
  l_state :: lease_state
  l_expires :: time
  l_created :: time
  l_updated :: time

text \<open>The exclude set is the list of the keys of the Go map.\<close>

record alloc_input =
  ai_mac :: string
  ai_hostname :: string
  ai_ranges :: "addr_range list"
  ai_exclude :: "string list"
  ai_lease_dur :: int

datatype lease_error =
    MacRequired
  | NoRanges
  | RangeNotV4 nat
  | RangeOrder nat addr addr
  | PoolEmpty
  | LeaseNotFound
  | IpMismatch string string
  | LeaseDb string string

fun lease_error_text :: "lease_error \<Rightarrow> string" where
  "lease_error_text MacRequired = ''leases: mac required''"
| "lease_error_text NoRanges = ''leases: at least one pool range required''"
| "lease_error_text (RangeNotV4 i) = ''leases: range '' @ digits_nat i @ '' bounds must be IPv4''"
| "lease_error_text (RangeOrder i a b) =
     ''leases: range '' @ digits_nat i @ '' start '' @ show_addr4 a @ '' > end '' @ show_addr4 b"
| "lease_error_text PoolEmpty = ''leases: pool exhausted''"
| "lease_error_text LeaseNotFound = ''leases: not found''"
| "lease_error_text (IpMismatch req got) =
     ''leases: requested '' @ req @ '' but offered '' @ got"
| "lease_error_text (LeaseDb stage msg) = stage @ '': '' @ msg"

definition normalize_mac :: "string \<Rightarrow> string" where
  "normalize_mac s = map lower_byte s"

lemma normalize_mac_idem [simp]: "normalize_mac (normalize_mac s) = normalize_mac s"
  by (simp add: normalize_mac_def)

subsection \<open>The address scan\<close>

definition ip_in_ranges :: "string \<Rightarrow> addr_range list \<Rightarrow> bool" where
  "ip_in_ranges ip rs =
    (case parse_addr ip of
       None \<Rightarrow> False
     | Some a \<Rightarrow> list_ex (\<lambda>r. addr_le (r_start r) a \<and> addr_le a (r_end r)) rs)"

definition excluded :: "string list \<Rightarrow> string \<Rightarrow> bool" where
  "excluded ex ip \<longleftrightarrow> ip \<in> set ex"

text \<open>
  The inner loop of \<open>nextFreeRanges\<close>. \<open>ip.Next()\<close> of 255.255.255.255 is the zero \<open>Addr\<close>, which
  compares below every address: in a range that ends there the loop goes on with addresses that
  print as \<open>invalid IP\<close>, returns the first, and does not stop if that text is itself unusable.
\<close>

datatype scan = Found addr | Exhausted | Diverges

function scan_range :: "(string \<Rightarrow> bool) \<Rightarrow> ip4 \<Rightarrow> ip4 \<Rightarrow> scan" where
  "scan_range bad ip hi =
    (if hi < ip then Exhausted
     else if \<not> bad (show_ip4 ip) then Found (Addr4 ip)
     else if ip = -1 then (if bad ''invalid IP'' then Diverges else Found AddrZero)
     else scan_range bad (ip + 1) hi)"
  by pat_completeness auto
termination
  by (relation "measure (\<lambda>(bad, ip, hi). 4294967296 - unat ip)")
    (auto simp: ip4_next_closer)

declare scan_range.simps [simp del]

fun next_free_ranges :: "(string \<Rightarrow> bool) \<Rightarrow> addr_range list \<Rightarrow> scan" where
  "next_free_ranges bad [] = Exhausted"
| "next_free_ranges bad (r # rs) =
    (case (r_start r, r_end r) of
       (Addr4 a, Addr4 b) \<Rightarrow>
         (case scan_range bad a b of Exhausted \<Rightarrow> next_free_ranges bad rs | res \<Rightarrow> res)
     | _ \<Rightarrow> next_free_ranges bad rs)"

subsection \<open>Statements\<close>

text \<open>\<open>INSERT ... ON CONFLICT(mac) DO UPDATE\<close>: \<open>None\<close> when \<open>UNIQUE(ip)\<close> refuses the row.\<close>

definition sql_upsert_lease :: "lease \<Rightarrow> lease list \<Rightarrow> lease list option" where
  "sql_upsert_lease r t =
    (if \<exists>q \<in> set t. l_mac q \<noteq> l_mac r \<and> l_ip q = l_ip r then None
     else if \<exists>q \<in> set t. l_mac q = l_mac r
     then Some (upd_where (\<lambda>q. l_mac q = l_mac r)
       (\<lambda>q. q\<lparr>l_ip := l_ip r, l_hostname := l_hostname r, l_state := Offered,
              l_expires := l_expires r, l_updated := l_updated r\<rparr>) t)
     else Some (ins_row r t))"

definition taken_set :: "time \<Rightarrow> lease list \<Rightarrow> string list" where
  "taken_set now t =
    map l_ip (filter (\<lambda>r. l_state r \<in> {Offered, Active} \<and> unix now \<le> unix (l_expires r)) t)"

fun check_ranges :: "nat \<Rightarrow> addr_range list \<Rightarrow> lease_error option" where
  "check_ranges i [] = None"
| "check_ranges i (r # rs) =
    (if \<not> is4 (r_start r) \<or> \<not> is4 (r_end r) then Some (RangeNotV4 i)
     else if \<not> addr_le (r_start r) (r_end r) then Some (RangeOrder i (r_start r) (r_end r))
     else check_ranges (Suc i) rs)"

subsection \<open>Allocate\<close>

definition whole :: "time \<Rightarrow> time" where
  "whole t = from_unix (unix t)"

definition offer_dur :: int where
  "offer_dur = 60 * second"

text \<open>The second half of \<open>Allocate\<close>, when no sticky row was kept: scan, evict, insert.\<close>

definition allocate_fresh ::
  "faults \<Rightarrow> time \<Rightarrow> string \<Rightarrow> alloc_input \<Rightarrow> lease list \<Rightarrow> ((lease_error, lease) result \<times> lease list) option"
where
  "allocate_fresh fl now mac inp t =
    (case fl 2 of
       Some msg \<Rightarrow> Some (Inl (LeaseDb ''query taken'' msg), t)
     | None \<Rightarrow>
       (let taken = taken_set now t in
        case next_free_ranges (\<lambda>s. excluded (ai_exclude inp) s \<or> s \<in> set taken) (ai_ranges inp) of
          Diverges \<Rightarrow> None
        | Exhausted \<Rightarrow> Some (Inl PoolEmpty, t)
        | Found a \<Rightarrow>
          (let ip = show_addr4 a;
               row = \<lparr>l_mac = mac, l_ip = ip, l_hostname = ai_hostname inp, l_state = Offered,
                      l_expires = whole (now + offer_dur), l_created = whole now,
                      l_updated = whole now\<rparr>
           in case fl 3 of
                Some msg \<Rightarrow> Some (Inl (LeaseDb (''evict prior holder of '' @ ip) msg), t)
              | None \<Rightarrow>
                (let t1 = del_where (\<lambda>r. l_ip r = ip) t in
                 case fl 4 of
                   Some msg \<Rightarrow> Some (Inl (LeaseDb ''insert lease'' msg), t1)
                 | None \<Rightarrow>
                   (case sql_upsert_lease row t1 of
                      None \<Rightarrow> Some (Inl (LeaseDb ''insert lease'' ''UNIQUE constraint failed: leases.ip''), t1)
                    | Some t2 \<Rightarrow>
                        Some (Inr (row\<lparr>l_expires := now + offer_dur, l_created := now, l_updated := now\<rparr>),
                              t2))))))"

definition allocate ::
  "faults \<Rightarrow> time \<Rightarrow> alloc_input \<Rightarrow> lease list \<Rightarrow> ((lease_error, lease) result \<times> lease list) option"
where
  "allocate fl now inp t =
    (if ai_mac inp = [] then Some (Inl MacRequired, t)
     else if ai_ranges inp = [] then Some (Inl NoRanges, t)
     else case check_ranges 0 (ai_ranges inp) of
       Some e \<Rightarrow> Some (Inl e, t)
     | None \<Rightarrow>
       (let mac = normalize_mac (ai_mac inp); mine = (\<lambda>r. l_mac r = mac); expires = now + offer_dur in
        case fl 0 of
          Some msg \<Rightarrow> Some (Inl (LeaseDb ''scan lease'' msg), t)
        | None \<Rightarrow>
          (case sel_row mine t of
             None \<Rightarrow> allocate_fresh fl now mac inp t
           | Some existing \<Rightarrow>
             (if ip_in_ranges (l_ip existing) (ai_ranges inp)
                 \<and> \<not> excluded (ai_exclude inp) (l_ip existing)
              then (case fl 1 of
                      Some msg \<Rightarrow> Some (Inl (LeaseDb ''refresh sticky lease'' msg), t)
                    | None \<Rightarrow>
                      Some (Inr (existing\<lparr>l_state := Offered, l_expires := expires, l_updated := now,
                                           l_hostname := ai_hostname inp\<rparr>),
                            upd_where mine
                              (\<lambda>r. r\<lparr>l_state := Offered, l_expires := whole expires,
                                     l_updated := whole now, l_hostname := ai_hostname inp\<rparr>) t))
              else (case fl 1 of
                      Some msg \<Rightarrow> Some (Inl (LeaseDb ''drop stale sticky'' msg), t)
                    | None \<Rightarrow> allocate_fresh fl now mac inp (del_where mine t))))))"

subsection \<open>Confirm, Release, GC, List\<close>

definition confirm ::
  "faults \<Rightarrow> time \<Rightarrow> string \<Rightarrow> string \<Rightarrow> int \<Rightarrow> lease list \<Rightarrow> (lease_error, lease) result \<times> lease list"
where
  "confirm fl now mac0 requested dur t =
    (let mac = normalize_mac mac0; mine = (\<lambda>r. l_mac r = mac); expires = now + dur in
     case fl 0 of
       Some msg \<Rightarrow> (Inl (LeaseDb ''scan lease'' msg), t)
     | None \<Rightarrow>
       (case sel_row mine t of
          None \<Rightarrow> (Inl LeaseNotFound, t)
        | Some row \<Rightarrow>
          (if requested \<noteq> [] \<and> l_ip row \<noteq> requested then (Inl (IpMismatch requested (l_ip row)), t)
           else case fl 1 of
             Some msg \<Rightarrow> (Inl (LeaseDb ''confirm lease'' msg), t)
           | None \<Rightarrow>
             (Inr (row\<lparr>l_state := Active, l_expires := expires, l_updated := now\<rparr>),
              upd_where mine
                (\<lambda>r. r\<lparr>l_state := Active, l_expires := whole expires, l_updated := whole now\<rparr>) t))))"

definition release ::
  "faults \<Rightarrow> time \<Rightarrow> string \<Rightarrow> lease list \<Rightarrow> lease_error option \<times> lease list" where
  "release fl now mac0 t =
    (let mac = normalize_mac mac0; mine = (\<lambda>r. l_mac r = mac) in
     case fl 0 of
       Some msg \<Rightarrow> (Some (LeaseDb ''release lease'' msg), t)
     | None \<Rightarrow>
       (if hits mine t = 0 then (Some LeaseNotFound, t)
        else (None, upd_where mine
                (\<lambda>r. r\<lparr>l_state := Released, l_expires := whole now, l_updated := whole now\<rparr>) t)))"

definition gc_leases ::
  "faults \<Rightarrow> time \<Rightarrow> int \<Rightarrow> lease list \<Rightarrow> (lease_error, nat) result \<times> lease list" where
  "gc_leases fl now keep t =
    (let old = (\<lambda>r. unix (l_expires r) < unix (now - keep)) in
     case fl 0 of
       Some msg \<Rightarrow> (Inl (LeaseDb ''gc leases'' msg), t)
     | None \<Rightarrow> (Inr (hits old t), del_where old t))"

definition list_leases :: "faults \<Rightarrow> lease list \<Rightarrow> (lease_error, lease list) result" where
  "list_leases fl t =
    (case fl 0 of
       Some msg \<Rightarrow> Inl (LeaseDb ''list leases'' msg)
     | None \<Rightarrow> Inr (sort_key l_ip t))"

subsection \<open>What the scan returns\<close>

text \<open>
  The scan is characterised by the unusable addresses before its result. \<open>wraps rs\<close> says that a
  range of the pool ends at 255.255.255.255, the only case in which it can leave its range.
\<close>

definition wraps :: "addr_range list \<Rightarrow> bool" where
  "wraps rs \<longleftrightarrow> (\<exists>r \<in> set rs. r_end r = Addr4 (- 1))"

lemma scan_range_past: "b < a \<Longrightarrow> scan_range bad a b = Exhausted"
  by (subst scan_range.simps) simp

lemma scan_range_here: "a \<le> b \<Longrightarrow> \<not> bad (show_ip4 a) \<Longrightarrow> scan_range bad a b = Found (Addr4 a)"
  by (subst scan_range.simps) (simp add: leD)

lemma scan_range_skip:
  "a \<le> b \<Longrightarrow> bad (show_ip4 a) \<Longrightarrow> a \<noteq> - 1 \<Longrightarrow> scan_range bad a b = scan_range bad (a + 1) b"
  by (subst scan_range.simps) (simp add: leD)

lemma scan_range_wrap:
  "bad (show_ip4 (- 1)) \<Longrightarrow>
   scan_range bad (- 1) (- 1) = (if bad ''invalid IP'' then Diverges else Found AddrZero)"
  by (subst scan_range.simps) simp

lemma scan_range_spec:
  assumes "b \<noteq> - 1"
  shows "(case scan_range bad a b of
      Exhausted \<Rightarrow> (\<forall>v. a \<le> v \<and> v \<le> b \<longrightarrow> bad (show_ip4 v))
    | Found x \<Rightarrow> (\<exists>w. x = Addr4 w \<and> a \<le> w \<and> w \<le> b \<and> \<not> bad (show_ip4 w) \<and>
                     (\<forall>v. a \<le> v \<and> v < w \<longrightarrow> bad (show_ip4 v)))
    | Diverges \<Rightarrow> False)"
  using assms
proof (induction bad a b rule: scan_range.induct)
  case (1 bad a b)
  consider "b < a" | "a \<le> b" "\<not> bad (show_ip4 a)" | "a \<le> b" "bad (show_ip4 a)"
    by (meson not_less)
  then show ?case
  proof cases
    case 3
    with "1.prems" have a: "a \<noteq> - 1" by auto
    have IH: "case scan_range bad (a + 1) b of
        Exhausted \<Rightarrow> (\<forall>v. a + 1 \<le> v \<and> v \<le> b \<longrightarrow> bad (show_ip4 v))
      | Found x \<Rightarrow> (\<exists>w. x = Addr4 w \<and> a + 1 \<le> w \<and> w \<le> b \<and> \<not> bad (show_ip4 w) \<and>
                       (\<forall>v. a + 1 \<le> v \<and> v < w \<longrightarrow> bad (show_ip4 v)))
      | Diverges \<Rightarrow> False"
      using 1 3 a by (simp add: leD)
    show ?thesis
      unfolding scan_range_skip [where bad = bad, OF 3 a]
      using IH 3 ip4_le_next [OF a] by (auto split: scan.splits)
  qed (auto simp: scan_range_past scan_range_here)
qed

lemma next_free_ranges_spec:
  assumes "\<not> wraps rs"
  shows "(case next_free_ranges bad rs of
      Exhausted \<Rightarrow> (\<forall>r \<in> set rs. \<forall>v. is4 (r_start r) \<and> is4 (r_end r) \<and> in_range v r \<longrightarrow> bad (show_ip4 v))
    | Found x \<Rightarrow> (\<exists>w. x = Addr4 w \<and> (\<exists>r \<in> set rs. in_range w r) \<and> \<not> bad (show_ip4 w))
    | Diverges \<Rightarrow> False)"
  using assms
proof (induction rs)
  case (Cons r rs)
  then have IH: "case next_free_ranges bad rs of
      Exhausted \<Rightarrow> (\<forall>r \<in> set rs. \<forall>v. is4 (r_start r) \<and> is4 (r_end r) \<and> in_range v r \<longrightarrow> bad (show_ip4 v))
    | Found x \<Rightarrow> (\<exists>w. x = Addr4 w \<and> (\<exists>r \<in> set rs. in_range w r) \<and> \<not> bad (show_ip4 w))
    | Diverges \<Rightarrow> False"
    by (auto simp: wraps_def)
  show ?case
  proof (cases "is4 (r_start r) \<and> is4 (r_end r)")
    case False
    with IH show ?thesis
      by (cases "r_start r"; cases "r_end r") (auto split: scan.splits)
  next
    case True
    then obtain a b where ab: "r_start r = Addr4 a" "r_end r = Addr4 b"
      by (cases "r_start r"; cases "r_end r") auto
    with Cons.prems have "b \<noteq> - 1" by (auto simp: wraps_def)
    from scan_range_spec [OF this, where bad = bad and a = a] IH ab show ?thesis
      by (cases "scan_range bad a b") (auto simp: in_range_def split: scan.splits)
  qed
qed simp

lemma next_free_not_bad:
  "next_free_ranges bad rs = Found x \<Longrightarrow> \<not> bad (show_addr4 x)"
proof (induction rs)
  case (Cons r rs)
  have scan: "scan_range bad a b = Found x \<Longrightarrow> \<not> bad (show_addr4 x)" for a b
    by (induction bad a b rule: scan_range.induct)
      (subst (asm) (2) scan_range.simps, auto split: if_splits)
  from Cons show ?case
    by (auto split: addr.splits scan.splits dest: scan)
qed simp

subsection \<open>The invariant of the table\<close>

definition ip_text :: "string \<Rightarrow> bool" where
  "ip_text s \<longleftrightarrow> s = ''invalid IP'' \<or> (\<exists>w. s = show_ip4 w)"

definition lease_inv :: "lease list \<Rightarrow> bool" where
  "lease_inv t \<longleftrightarrow> keyed l_mac t \<and> keyed l_ip t \<and>
     (\<forall>r \<in> set t. normalize_mac (l_mac r) = l_mac r \<and> ip_text (l_ip r))"

definition live :: "time \<Rightarrow> lease \<Rightarrow> bool" where
  "live now r \<longleftrightarrow> l_state r \<in> {Offered, Active} \<and> unix now \<le> unix (l_expires r)"

lemma taken_set_live: "s \<in> set (taken_set now t) \<longleftrightarrow> (\<exists>r \<in> set t. live now r \<and> l_ip r = s)"
  by (auto simp: taken_set_def live_def)

lemma lease_inv_del [intro]: "lease_inv t \<Longrightarrow> lease_inv (del_where p t)"
  by (auto simp: lease_inv_def)

lemma lease_inv_upd:
  assumes "lease_inv t" "\<And>r. l_mac (f r) = l_mac r \<and> l_ip (f r) = l_ip r"
  shows "lease_inv (upd_where p f t)"
  using assms by (auto simp: lease_inv_def set_upd_where intro!: keyed_upd split: if_splits)

lemma ip_text_show_addr4 [simp]: "ip_text (show_addr4 a)"
  by (cases a) (auto simp: ip_text_def)

lemma lease_inv_ins:
  assumes "lease_inv t" "\<And>q. q \<in> set t \<Longrightarrow> l_mac q \<noteq> l_mac r \<and> l_ip q \<noteq> l_ip r"
    "normalize_mac (l_mac r) = l_mac r" "l_ip r = show_addr4 a"
  shows "lease_inv (ins_row r t)"
  using assms by (auto simp: lease_inv_def intro!: keyed_ins)

text \<open>The outcomes of the second half of \<open>Allocate\<close> for a client with no row.\<close>

lemma allocate_fresh_cases:
  assumes "allocate_fresh fl now mac inp t = Some (res, t')" "\<forall>q \<in> set t. l_mac q \<noteq> mac"
  obtains (kept) e where "res = Inl e" "t' = t"
    | (evicted) e a where "res = Inl e" "t' = del_where (\<lambda>r. l_ip r = show_addr4 a) t"
        "next_free_ranges (\<lambda>s. excluded (ai_exclude inp) s \<or> s \<in> set (taken_set now t)) (ai_ranges inp)
          = Found a"
    | (stored) a row l where "res = Inr l"
        "t' = ins_row row (del_where (\<lambda>r. l_ip r = show_addr4 a) t)"
        "next_free_ranges (\<lambda>s. excluded (ai_exclude inp) s \<or> s \<in> set (taken_set now t)) (ai_ranges inp)
          = Found a"
        "row = \<lparr>l_mac = mac, l_ip = show_addr4 a, l_hostname = ai_hostname inp, l_state = Offered,
                l_expires = whole (now + offer_dur), l_created = whole now, l_updated = whole now\<rparr>"
        "l = row\<lparr>l_expires := now + offer_dur, l_created := now, l_updated := now\<rparr>"
  using assms
  unfolding allocate_fresh_def Let_def sql_upsert_lease_def
  by (auto split: option.splits scan.splits if_splits)

text \<open>The outcomes of \<open>Allocate\<close>: refused early, the sticky row, or a fresh choice.\<close>

lemma allocate_cases:
  assumes "allocate fl now inp t = Some (res, t')"
  obtains (early) e where "res = Inl e" "t' = t"
    | (sticky) row where "row \<in> set t" "l_mac row = normalize_mac (ai_mac inp)"
        "ip_in_ranges (l_ip row) (ai_ranges inp)" "l_ip row \<notin> set (ai_exclude inp)"
        "res = Inr (row\<lparr>l_state := Offered, l_expires := now + offer_dur, l_updated := now,
                        l_hostname := ai_hostname inp\<rparr>)"
        "t' = upd_where (\<lambda>r. l_mac r = normalize_mac (ai_mac inp))
                (\<lambda>r. r\<lparr>l_state := Offered, l_expires := whole (now + offer_dur),
                       l_updated := whole now, l_hostname := ai_hostname inp\<rparr>) t"
    | (fresh) "allocate_fresh fl now (normalize_mac (ai_mac inp)) inp
         (del_where (\<lambda>r. l_mac r = normalize_mac (ai_mac inp)) t) = Some (res, t')"
proof -
  let ?mine = "\<lambda>r. l_mac r = normalize_mac (ai_mac inp)"
  have bad_input: thesis if "ai_mac inp = [] \<or> ai_ranges inp = [] \<or> check_ranges 0 (ai_ranges inp) \<noteq> None"
    using assms that early unfolding allocate_def by (auto split: if_splits)
  have read_fault: thesis if "fl 0 \<noteq> None"
    using assms that early unfolding allocate_def Let_def by (auto split: if_splits option.splits)
  have body: "(case sel_row ?mine t of
      None \<Rightarrow> allocate_fresh fl now (normalize_mac (ai_mac inp)) inp t
    | Some existing \<Rightarrow>
       (if ip_in_ranges (l_ip existing) (ai_ranges inp) \<and> \<not> excluded (ai_exclude inp) (l_ip existing)
        then (case fl 1 of
                Some msg \<Rightarrow> Some (Inl (LeaseDb ''refresh sticky lease'' msg), t)
              | None \<Rightarrow>
                Some (Inr (existing\<lparr>l_state := Offered, l_expires := now + offer_dur, l_updated := now,
                                    l_hostname := ai_hostname inp\<rparr>),
                      upd_where ?mine (\<lambda>r. r\<lparr>l_state := Offered, l_expires := whole (now + offer_dur),
                        l_updated := whole now, l_hostname := ai_hostname inp\<rparr>) t))
        else (case fl 1 of
                Some msg \<Rightarrow> Some (Inl (LeaseDb ''drop stale sticky'' msg), t)
              | None \<Rightarrow> allocate_fresh fl now (normalize_mac (ai_mac inp)) inp (del_where ?mine t))))
    = Some (res, t')"
    if "\<not> (ai_mac inp = [] \<or> ai_ranges inp = [] \<or> check_ranges 0 (ai_ranges inp) \<noteq> None)" "fl 0 = None"
    using assms that unfolding allocate_def Let_def by simp
  show thesis
  proof (cases "sel_row ?mine t")
    case None
    then have "del_where ?mine t = t" by (simp add: sel_row_None del_where_def)
    with None body bad_input read_fault fresh show thesis by fastforce
  next
    case (Some row)
    from sel_row_Some [OF this] have row: "row \<in> set t" "?mine row" by auto
    show thesis
    proof (cases "fl 1")
      case None
      with Some row body bad_input read_fault sticky fresh show thesis
        by (fastforce simp: excluded_def split: if_splits)
    next
      case (Some msg)
      with \<open>sel_row ?mine t = Some row\<close> body bad_input read_fault early show thesis
        by (fastforce split: if_splits)
    qed
  qed
qed

lemma no_mac_after_drop:
  "\<forall>q \<in> set (del_where (\<lambda>r. l_mac r = mac) t). l_mac q \<noteq> mac"
  by simp

lemma allocate_fresh_inv:
  assumes "allocate_fresh fl now (normalize_mac m) inp t = Some (res, t')" "lease_inv t"
    "\<forall>q \<in> set t. l_mac q \<noteq> normalize_mac m"
  shows "lease_inv t'"
  using assms(1,3)
proof (cases rule: allocate_fresh_cases)
  case (stored a row l)
  have "lease_inv (del_where (\<lambda>r. l_ip r = show_addr4 a) t)"
    using assms(2) by blast
  then show ?thesis
    unfolding stored(2) by (rule lease_inv_ins [where a = a]) (use stored(4) assms(3) in auto)
qed (use assms(2) in auto)

lemma allocate_inv:
  assumes "allocate fl now inp t = Some (res, t')" and "lease_inv t"
  shows "lease_inv t'"
  using assms(1)
proof (cases rule: allocate_cases)
  case (sticky row)
  then show ?thesis
    using assms(2) by (auto intro!: lease_inv_upd)
next
  case fresh
  then show ?thesis
    by (rule allocate_fresh_inv) (use assms(2) in auto)
qed (use assms(2) in auto)

text \<open>
  every run of \<open>Allocate\<close>, whatever the client, the pool, the clock and the driver failures,
  leaves a lease table with one row per MAC and one row per address.
\<close>

theorem allocate_keeps_table:
  assumes "allocate fl now inp t = Some (res, t')" and "lease_inv t"
  shows "lease_inv t'"
  using assms by (rule allocate_inv)

lemma live_kept_by_evict:
  assumes "next_free_ranges (\<lambda>s. excluded ex s \<or> s \<in> set (taken_set now t)) rs = Found a"
    "r \<in> set t" "live now r"
  shows "l_ip r \<noteq> show_addr4 a"
  using next_free_not_bad [OF assms(1)] assms(2,3) by (auto simp: taken_set_live)

lemma allocate_fresh_keeps_live:
  assumes "allocate_fresh fl now mac inp t = Some (res, t')" "r \<in> set t" "live now r"
    "\<forall>q \<in> set t. l_mac q \<noteq> mac"
  shows "r \<in> set t'"
  using assms(1,4)
proof (cases rule: allocate_fresh_cases)
  case (evicted e a)
  with live_kept_by_evict [OF evicted(3) assms(2,3)] assms(2) show ?thesis by simp
next
  case (stored a row l)
  with live_kept_by_evict [OF stored(3) assms(2,3)] assms(2) show ?thesis by simp
qed (use assms(2) in auto)

lemma allocate_live:
  assumes "allocate fl now inp t = Some (res, t')"
    and "r \<in> set t" and "live now r" and "l_mac r \<noteq> normalize_mac (ai_mac inp)"
  shows "r \<in> set t'"
  using assms(1)
proof (cases rule: allocate_cases)
  case (sticky row)
  with assms(2,4) show ?thesis by (force simp: set_upd_where)
next
  case fresh
  then show ?thesis
    by (rule allocate_fresh_keeps_live) (use assms in auto)
qed (use assms(2) in auto)

text \<open>
  C1: \<open>Allocate\<close> never takes a lease away from another client: a row of another MAC that is
  offered or active and has not expired is in the table afterwards, unchanged, on every path,
  the ones where the driver fails half way included.
\<close>

theorem allocate_keeps_live_leases:
  assumes "allocate fl now inp t = Some (res, t')"
    and "r \<in> set t" and "live now r" and "l_mac r \<noteq> normalize_mac (ai_mac inp)"
  shows "r \<in> set t'"
  using assms by (rule allocate_live)

lemma ip_in_ranges_text:
  assumes "ip_text s" "ip_in_ranges s rs" "check_ranges i rs = None"
  shows "\<exists>w. s = show_ip4 w \<and> (\<exists>r \<in> set rs. in_range w r)"
proof -
  have "parse_addr ''invalid IP'' = None" by code_simp
  with assms obtain w where "s = show_ip4 w"
    by (auto simp: ip_text_def ip_in_ranges_def)
  with assms(2) show ?thesis
    by (auto simp: ip_in_ranges_def list_ex_iff in_range_def)
qed

lemma allocate_ranges_ok:
  "allocate fl now inp t = Some (Inr l, t') \<Longrightarrow>
   ai_mac inp \<noteq> [] \<and> ai_ranges inp \<noteq> [] \<and> check_ranges 0 (ai_ranges inp) = None"
  by (auto simp: allocate_def split: if_splits option.splits)

lemma fresh_in_pool:
  assumes "allocate_fresh fl now mac inp t = Some (Inr l, t')" "\<forall>q \<in> set t. l_mac q \<noteq> mac"
    "\<not> wraps (ai_ranges inp)"
  shows "\<exists>w row. l_ip l = show_ip4 w \<and> (\<exists>r \<in> set (ai_ranges inp). in_range w r) \<and>
    l_ip l \<notin> set (ai_exclude inp) \<and> row \<in> set t' \<and> l_mac row = mac \<and> l_mac l = l_mac row \<and>
    l_ip row = l_ip l \<and> l_state row = Offered"
  using assms(1,2)
proof (cases rule: allocate_fresh_cases)
  case (stored a row l')
  with next_free_ranges_spec [OF assms(3),
      of "\<lambda>s. excluded (ai_exclude inp) s \<or> s \<in> set (taken_set now t)"]
  obtain w where "a = Addr4 w" "\<exists>r \<in> set (ai_ranges inp). in_range w r" "\<not> excluded (ai_exclude inp) (show_ip4 w)"
    by auto
  with stored show ?thesis
    by (intro exI [of _ w] exI [of _ row]) (simp add: excluded_def)
qed auto

lemma allocate_in_pool:
  assumes "allocate fl now inp t = Some (Inr l, t')" and "lease_inv t" and "\<not> wraps (ai_ranges inp)"
  shows "\<exists>w row. l_ip l = show_ip4 w \<and> (\<exists>r \<in> set (ai_ranges inp). in_range w r) \<and>
    l_ip l \<notin> set (ai_exclude inp) \<and> row \<in> set t' \<and> l_mac row = normalize_mac (ai_mac inp) \<and>
    l_mac l = l_mac row \<and> l_ip row = l_ip l \<and> l_state row = Offered"
  using assms(1)
proof (cases rule: allocate_cases)
  case (sticky row)
  from assms(2) sticky(1) have "ip_text (l_ip row)" by (simp add: lease_inv_def)
  from ip_in_ranges_text [OF this sticky(3)] allocate_ranges_ok [OF assms(1)]
  obtain w where "l_ip row = show_ip4 w" "\<exists>r \<in> set (ai_ranges inp). in_range w r" by blast
  with sticky show ?thesis
    by (auto simp: set_upd_where intro!: exI [of _ w] bexI [of _ row])
next
  case fresh
  from fresh_in_pool [OF this no_mac_after_drop assms(3)] show ?thesis .
qed auto

text \<open>
  when \<open>Allocate\<close> succeeds, the address is an IPv4 address of one of the ranges and is not
  excluded, and the client's row now offers it. The hypothesis leaves out a range that ends at
  255.255.255.255.
\<close>

theorem allocate_offers_pool_address:
  assumes "allocate fl now inp t = Some (Inr l, t')" and "lease_inv t" and "\<not> wraps (ai_ranges inp)"
  shows "\<exists>w row. l_ip l = show_ip4 w \<and> (\<exists>r \<in> set (ai_ranges inp). in_range w r) \<and>
    l_ip l \<notin> set (ai_exclude inp) \<and> row \<in> set t' \<and> l_mac row = normalize_mac (ai_mac inp) \<and>
    l_mac l = l_mac row \<and> l_ip row = l_ip l \<and> l_state row = Offered"
  using assms by (rule allocate_in_pool)

text \<open>
  an address is sticky. If the client's row holds an address of the pool that is not excluded,
  then \<open>Allocate\<close> offers the same address again, whatever the state or the age of the row, and
  whatever other clients hold.
\<close>

theorem allocate_is_sticky:
  assumes "lease_inv t" and "row \<in> set t" and "l_mac row = normalize_mac (ai_mac inp)"
    and "ai_mac inp \<noteq> []" and "check_ranges 0 (ai_ranges inp) = None"
    and "ip_in_ranges (l_ip row) (ai_ranges inp)" and "l_ip row \<notin> set (ai_exclude inp)"
  shows "\<exists>l t'. allocate no_faults now inp t = Some (Inr l, t') \<and> l_ip l = l_ip row"
proof -
  have "keyed l_mac t" using assms(1) by (simp add: lease_inv_def)
  from keyed_sel [OF this assms(2)] assms(3)
  have "sel_row (\<lambda>r. l_mac r = normalize_mac (ai_mac inp)) t = Some row" by simp
  moreover have "ai_ranges inp \<noteq> []"
    using assms(6) by (auto simp: ip_in_ranges_def split: option.splits)
  ultimately show ?thesis
    using assms(4-7) by (simp add: allocate_def excluded_def Let_def)
qed

lemma allocate_fresh_returns:
  assumes "\<not> wraps (ai_ranges inp)"
  shows "allocate_fresh fl now mac inp t \<noteq> None"
  using next_free_ranges_spec [OF assms,
      of "\<lambda>s. excluded (ai_exclude inp) s \<or> s \<in> set (taken_set now t)"]
  by (auto simp: allocate_fresh_def Let_def split: option.splits scan.splits)

lemma allocate_total:
  assumes "\<not> wraps (ai_ranges inp)"
  shows "\<exists>res t'. allocate fl now inp t = Some (res, t')"
proof -
  have "allocate fl now inp t \<noteq> None"
    using allocate_fresh_returns [OF assms]
    by (auto simp: allocate_def Let_def split: option.splits)
  then show ?thesis by auto
qed

text \<open>
  C3: \<open>Allocate\<close> returns, on every table, input and failure plan, as long as no range of the pool
  ends at 255.255.255.255.
\<close>

theorem allocate_returns:
  assumes "\<not> wraps (ai_ranges inp)"
  shows "\<exists>res t'. allocate fl now inp t = Some (res, t')"
  using assms by (rule allocate_total)

lemma check_ranges_is4:
  "check_ranges i rs = None \<Longrightarrow> r \<in> set rs \<Longrightarrow> is4 (r_start r) \<and> is4 (r_end r)"
  by (induction i rs rule: check_ranges.induct) (auto split: if_splits)

text \<open>
  a new client is refused with \<open>ErrPoolEmpty\<close> exactly when every address of every range is
  excluded or held by an unexpired offered or active lease: expired and released leases never
  exhaust a pool.
\<close>

theorem pool_exhausted_iff:
  assumes "ai_mac inp \<noteq> []" and "ai_ranges inp \<noteq> []" and "check_ranges 0 (ai_ranges inp) = None"
    and "\<not> wraps (ai_ranges inp)" and "\<forall>r \<in> set t. l_mac r \<noteq> normalize_mac (ai_mac inp)"
  shows "(\<exists>t'. allocate no_faults now inp t = Some (Inl PoolEmpty, t')) \<longleftrightarrow>
    (\<forall>r \<in> set (ai_ranges inp). \<forall>w. in_range w r \<longrightarrow>
       show_ip4 w \<in> set (ai_exclude inp) \<or> (\<exists>q \<in> set t. live now q \<and> l_ip q = show_ip4 w))"
proof -
  let ?bad = "\<lambda>s. excluded (ai_exclude inp) s \<or> s \<in> set (taken_set now t)"
  have none: "sel_row (\<lambda>r. l_mac r = normalize_mac (ai_mac inp)) t = None"
    using assms(5) by (simp add: sel_row_None)
  have "allocate no_faults now inp t = allocate_fresh no_faults now (normalize_mac (ai_mac inp)) inp t"
    using assms(1-3) none by (simp add: allocate_def Let_def)
  moreover have "(\<exists>t'. allocate_fresh no_faults now m inp t = Some (Inl PoolEmpty, t')) \<longleftrightarrow>
      next_free_ranges ?bad (ai_ranges inp) = Exhausted" for m
    by (cases "next_free_ranges ?bad (ai_ranges inp)")
      (auto simp: allocate_fresh_def Let_def split: option.splits)
  ultimately have "(\<exists>t'. allocate no_faults now inp t = Some (Inl PoolEmpty, t')) \<longleftrightarrow>
      next_free_ranges ?bad (ai_ranges inp) = Exhausted"
    by simp
  also have "\<dots> \<longleftrightarrow> (\<forall>r \<in> set (ai_ranges inp). \<forall>w. in_range w r \<longrightarrow> ?bad (show_ip4 w))"
    using next_free_ranges_spec [OF assms(4), of ?bad] check_ranges_is4 [OF assms(3)]
    by (cases "next_free_ranges ?bad (ai_ranges inp)") (simp; blast)+
  finally show ?thesis
    by (simp add: excluded_def taken_set_live)
qed

subsection \<open>Confirm, Release and GC\<close>

lemma confirm_spec:
  assumes "lease_inv t"
  shows "(case confirm fl now mac requested dur t of
      (Inl e, t') \<Rightarrow> t' = t
    | (Inr l, t') \<Rightarrow> (\<exists>row \<in> set t. l_mac row = normalize_mac mac \<and> l_ip l = l_ip row \<and>
        (requested = [] \<or> requested = l_ip row) \<and>
        row\<lparr>l_state := Active, l_expires := whole (now + dur), l_updated := whole now\<rparr> \<in> set t' \<and>
        (\<forall>r. l_mac r \<noteq> normalize_mac mac \<longrightarrow> (r \<in> set t' \<longleftrightarrow> r \<in> set t)) \<and> lease_inv t'))"
proof -
  have inv: "lease_inv (upd_where (\<lambda>r. l_mac r = normalize_mac mac)
      (\<lambda>r. r\<lparr>l_state := Active, l_expires := e, l_updated := u\<rparr>) t)" for e u
    using assms by (rule lease_inv_upd) simp
  show ?thesis
    using inv
    by (auto simp: confirm_def Let_def set_upd_where split: option.splits if_splits
        dest!: sel_row_Some intro!: bexI)
qed

text \<open>
  \<open>Confirm\<close> succeeds only for the address that is recorded for the client (or when the request
  names none), makes that row active until now plus the lease time, and changes no other row. Every
  error leaves the table as it was.
\<close>

theorem confirm_binds_recorded_address:
  assumes "lease_inv t"
  shows "(case confirm fl now mac requested dur t of
      (Inl e, t') \<Rightarrow> t' = t
    | (Inr l, t') \<Rightarrow> (\<exists>row \<in> set t. l_mac row = normalize_mac mac \<and> l_ip l = l_ip row \<and>
        (requested = [] \<or> requested = l_ip row) \<and>
        row\<lparr>l_state := Active, l_expires := whole (now + dur), l_updated := whole now\<rparr> \<in> set t' \<and>
        (\<forall>r. l_mac r \<noteq> normalize_mac mac \<longrightarrow> (r \<in> set t' \<longleftrightarrow> r \<in> set t)) \<and> lease_inv t'))"
  using assms by (rule confirm_spec)

text \<open>
  \<open>Release\<close> frees the address at once: the row stays, keeps its address, and is no longer live.
\<close>

lemma release_frees:
  assumes "release fl now mac t = (None, t')" "r \<in> set t'" "l_mac r = normalize_mac mac"
  shows "\<not> live later r \<and> (\<exists>q \<in> set t. l_mac q = l_mac r \<and> l_ip q = l_ip r)"
proof -
  have "r \<in> (\<lambda>r. r\<lparr>l_state := Released, l_expires := whole now, l_updated := whole now\<rparr>) `
      {q \<in> set t. l_mac q = normalize_mac mac}"
    using assms by (auto simp: release_def Let_def set_upd_where split: option.splits if_splits)
  then obtain q where "q \<in> set t"
    "r = q\<lparr>l_state := Released, l_expires := whole now, l_updated := whole now\<rparr>" by blast
  then show ?thesis by (auto simp: live_def)
qed

lemma release_inv: "lease_inv t \<Longrightarrow> lease_inv (snd (release fl now mac t))"
  by (auto simp: release_def Let_def split: option.splits intro!: lease_inv_upd)

lemma gc_inv: "lease_inv t \<Longrightarrow> lease_inv (snd (gc_leases fl now keep t))"
  by (auto simp: gc_leases_def Let_def split: option.splits)

text \<open>
  \<open>GC\<close> deletes exactly the rows whose deadline is more than the grace period in the past and
  returns their number; with a grace period that is not negative it never deletes a live lease.
\<close>

theorem gc_deletes_only_expired:
  assumes "0 \<le> keep"
  shows "gc_leases no_faults now keep t =
      (Inr (length t - length (snd (gc_leases no_faults now keep t))),
       filter (\<lambda>r. unix (now - keep) \<le> unix (l_expires r)) t) \<and>
    (\<forall>r. r \<in> set t \<and> live now r \<longrightarrow> r \<in> set (snd (gc_leases no_faults now keep t)))"
proof -
  have "unix (now - keep) \<le> unix now"
    using assms by (intro unix_mono) simp
  moreover have "hits p t = length t - length (del_where p t)" for p
    using hits_del_where [of p t] by simp
  ultimately show ?thesis
    by (auto simp: gc_leases_def live_def del_where_def not_less)
qed

lemma list_leases_sorted:
  "list_leases no_faults t = Inr ls \<Longrightarrow> sorted (map l_ip ls) \<and> set ls = set t"
  by (auto simp: list_leases_def)

subsection \<open>A concrete pool\<close>

text \<open>
  A pool of two addresses with the first one excluded, and a table in which the second one is held
  by another client whose lease has run out.
\<close>

definition demo_input :: "string \<Rightarrow> alloc_input" where
  "demo_input mac =
    \<lparr>ai_mac = mac, ai_hostname = ''node'',
     ai_ranges = [\<lparr>r_start = Addr4 (ip4_of 10 0 0 10), r_end = Addr4 (ip4_of 10 0 0 11)\<rparr>],
     ai_exclude = [''10.0.0.10''], ai_lease_dur = 3600 * second\<rparr>"

definition demo_row :: lease where
  "demo_row = \<lparr>l_mac = ''aa'', l_ip = ''10.0.0.11'', l_hostname = [], l_state = Active,
    l_expires = 100 * second, l_created = 0, l_updated = 0\<rparr>"

lemma demo_inv: "lease_inv [demo_row]"
proof -
  have "''10.0.0.11'' = show_ip4 (ip4_of 10 0 0 11)" by code_simp
  moreover have "normalize_mac ''aa'' = ''aa''" by code_simp
  ultimately show ?thesis
    by (auto simp: lease_inv_def keyed_def demo_row_def ip_text_def)
qed

definition demo_after :: lease where
  "demo_after = \<lparr>l_mac = ''bb'', l_ip = ''10.0.0.11'', l_hostname = ''node'', l_state = Offered,
    l_expires = 260 * second, l_created = 200 * second, l_updated = 200 * second\<rparr>"

lemma demo_allocate:
  "allocate no_faults (200 * second) (demo_input ''BB'') [demo_row] = Some (Inr demo_after, [demo_after])"
  by code_simp

lemma demo_not_wraps: "\<not> wraps (ai_ranges (demo_input mac))"
  by (simp add: wraps_def demo_input_def ip4_of_def)

lemma demo_ranges: "check_ranges 0 (ai_ranges (demo_input mac)) = None"
  by (simp add: demo_input_def ip4_of_def)

theorem allocate_keeps_table_witness: "lease_inv [demo_row] \<and> lease_inv [demo_after]"
  using allocate_keeps_table [OF demo_allocate demo_inv] demo_inv by simp

theorem allocate_keeps_live_leases_witness:
  "live (50 * second) demo_row \<and>
   (\<exists>res t'. allocate no_faults (50 * second) (demo_input ''BB'') [demo_row] = Some (res, t') \<and>
      demo_row \<in> set t')"
proof -
  have run: "allocate no_faults (50 * second) (demo_input ''BB'') [demo_row] = Some (Inl PoolEmpty, [demo_row])"
    by code_simp
  have live: "live (50 * second) demo_row" by code_simp
  have other: "l_mac demo_row \<noteq> normalize_mac (ai_mac (demo_input ''BB''))" by code_simp
  show ?thesis
    using allocate_keeps_live_leases [OF run _ live other] run live by auto
qed

theorem allocate_offers_pool_address_witness:
  "lease_inv [demo_row] \<and> (\<exists>w. l_ip demo_after = show_ip4 w)"
  using allocate_offers_pool_address [OF demo_allocate demo_inv demo_not_wraps] demo_inv by blast

theorem allocate_is_sticky_witness:
  "\<exists>l t'. allocate no_faults (900 * second) (demo_input ''AA'') [demo_row] = Some (Inr l, t') \<and>
     l_ip l = ''10.0.0.11''"
proof -
  have "l_mac demo_row = normalize_mac (ai_mac (demo_input ''AA''))"
    "ai_mac (demo_input ''AA'') \<noteq> []"
    "ip_in_ranges (l_ip demo_row) (ai_ranges (demo_input ''AA''))"
    "l_ip demo_row \<notin> set (ai_exclude (demo_input ''AA''))"
    by code_simp+
  from allocate_is_sticky [OF demo_inv _ this(1,2) demo_ranges this(3,4)]
  show ?thesis by (simp add: demo_row_def)
qed

theorem allocate_returns_witness:
  "\<not> wraps (ai_ranges (demo_input ''BB'')) \<and>
   (\<exists>res t'. allocate no_faults 0 (demo_input ''BB'') [] = Some (res, t'))"
  using allocate_returns [OF demo_not_wraps] demo_not_wraps by blast

theorem pool_exhausted_iff_witness:
  "\<exists>t'. allocate no_faults (50 * second) (demo_input ''BB'') [demo_row] = Some (Inl PoolEmpty, t')"
proof -
  have in1: "ai_mac (demo_input ''BB'') \<noteq> []" "ai_ranges (demo_input ''BB'') \<noteq> []"
    and other: "\<forall>r \<in> set [demo_row]. l_mac r \<noteq> normalize_mac (ai_mac (demo_input ''BB''))"
    by code_simp+
  have "allocate no_faults (50 * second) (demo_input ''BB'') [demo_row] = Some (Inl PoolEmpty, [demo_row])"
    by code_simp
  then show ?thesis
    using pool_exhausted_iff [OF in1 demo_ranges demo_not_wraps other] by blast
qed

theorem confirm_binds_recorded_address_witness:
  "lease_inv [demo_row] \<and>
   lease_inv (snd (confirm no_faults 0 ''AA'' ''10.0.0.11'' (3600 * second) [demo_row]))"
proof -
  let ?c = "confirm no_faults 0 ''AA'' ''10.0.0.11'' (3600 * second) [demo_row]"
  obtain l t' where run: "?c = (Inr l, t')"
  proof -
    have "isl (fst ?c) = False" by code_simp
    then show thesis
      using that by (cases ?c; cases "fst ?c") auto
  qed
  show ?thesis
    using confirm_binds_recorded_address [OF demo_inv, where fl = no_faults and now = 0
        and mac = "''AA''" and requested = "''10.0.0.11''" and dur = "3600 * second"] demo_inv run by auto
qed

theorem gc_deletes_only_expired_witness:
  "(0 :: int) \<le> 60 * second \<and>
   snd (gc_leases no_faults (200 * second) (60 * second) [demo_row, demo_after]) = [demo_after]"
proof -
  have nonneg: "(0 :: int) \<le> 60 * second" by (simp add: second_def)
  have "filter (\<lambda>r. unix (200 * second - 60 * second) \<le> unix (l_expires r)) [demo_row, demo_after] = [demo_after]"
    by code_simp
  then show ?thesis
    using gc_deletes_only_expired [OF nonneg, of "200 * second" "[demo_row, demo_after]"] nonneg
    by (metis snd_conv)
qed

subsection \<open>The last address of IPv4\<close>

definition edge_input :: "string \<Rightarrow> alloc_input" where
  "edge_input mac =
    \<lparr>ai_mac = mac, ai_hostname = [], ai_ranges = [\<lparr>r_start = Addr4 (- 1), r_end = Addr4 (- 1)\<rparr>],
     ai_exclude = [], ai_lease_dur = 3600 * second\<rparr>"

definition edge_row :: "string \<Rightarrow> string \<Rightarrow> lease" where
  "edge_row mac ip = \<lparr>l_mac = mac, l_ip = ip, l_hostname = [], l_state = Offered,
    l_expires = 60 * second, l_created = 0, l_updated = 0\<rparr>"

text \<open>
  a pool that ends at 255.255.255.255, which \<open>Allocate\<close> accepts, is not exhausted when its
  addresses are: the next client is offered the text \<open>invalid IP\<close>, and the one after makes
  \<open>Allocate\<close> loop without end, holding the mutex of the store.
\<close>

theorem allocate_runs_past_last_address:
  "allocate no_faults 0 (edge_input ''m1'') [] =
     Some (Inr (edge_row ''m1'' ''255.255.255.255''), [edge_row ''m1'' ''255.255.255.255'']) \<and>
   allocate no_faults 0 (edge_input ''m2'') [edge_row ''m1'' ''255.255.255.255''] =
     Some (Inr (edge_row ''m2'' ''invalid IP''),
           [edge_row ''m1'' ''255.255.255.255'', edge_row ''m2'' ''invalid IP'']) \<and>
   allocate no_faults 0 (edge_input ''m3'')
     [edge_row ''m1'' ''255.255.255.255'', edge_row ''m2'' ''invalid IP''] = None"
  by code_simp

end
