(* ===== verification/Dhcp_Pool.thy ===== *)
theory Dhcp_Pool
  imports Go_Net
begin

text \<open>
  \<open>internal/dhcp/pool.go\<close> and \<open>pools.go\<close>: the address pools of full mode and their selection by
  the relay's gateway address. \<open>new_pool_ranges\<close> and \<open>new_subnet_pools\<close> are the validating
  constructors, \<open>pool_for_request\<close> is the router of relayed packets.

  A \<open>pool\<close> only comes from the constructor, which has checked that every address is IPv4, so the
  netmask, the gateway and the DNS servers are words; the exclude map is the list of its keys.
\<close>

subsection \<open>One pool\<close>

record pool_range =
  pr_start :: string
  pr_end :: string

record pool =
  p_start :: addr
  p_end :: addr
  p_netmask :: ip4
  p_gateway :: ip4
  p_dns :: "ip4 list"
  p_exclude :: "string list"
  p_lease_sec :: "32 word"
  p_ranges :: "addr_range list"
  p_selectors :: "prefix4 list"

datatype pool_error =
    NeedRange
  | BadNetmask string
  | BadGateway string
  | BadDns string
  | BadExclude string
  | BadStart nat string
  | BadEnd nat string
  | StartAfterEnd nat ip4 ip4
  | RangesOverlap nat ip4 ip4 addr addr

definition parse_v4 :: "string \<Rightarrow> ip4 option" where
  "parse_v4 s = (case parse_addr s of Some (Addr4 w) \<Rightarrow> Some w | _ \<Rightarrow> None)"

fun parse_all_v4 :: "(string \<Rightarrow> pool_error) \<Rightarrow> string list \<Rightarrow> (pool_error, ip4 list) result" where
  "parse_all_v4 err [] = Inr []"
| "parse_all_v4 err (s # ss) =
    (case parse_v4 s of
       None \<Rightarrow> Inl (err s)
     | Some w \<Rightarrow> (case parse_all_v4 err ss of Inl e \<Rightarrow> Inl e | Inr ws \<Rightarrow> Inr (w # ws)))"

definition ranges_overlap :: "addr_range \<Rightarrow> addr_range \<Rightarrow> bool" where
  "ranges_overlap a b \<longleftrightarrow> addr_le (r_start a) (r_end b) \<and> addr_le (r_start b) (r_end a)"

text \<open>The loop over the ranges; \<open>parsed\<close> are the ranges accepted so far, in order.\<close>

fun parse_ranges :: "nat \<Rightarrow> addr_range list \<Rightarrow> pool_range list \<Rightarrow> (pool_error, addr_range list) result"
where
  "parse_ranges i parsed [] = Inr parsed"
| "parse_ranges i parsed (r # rs) =
    (case parse_v4 (pr_start r) of
       None \<Rightarrow> Inl (BadStart i (pr_start r))
     | Some a \<Rightarrow>
       (case parse_v4 (pr_end r) of
          None \<Rightarrow> Inl (BadEnd i (pr_end r))
        | Some b \<Rightarrow>
          (if b < a then Inl (StartAfterEnd i a b)
           else let new = \<lparr>r_start = Addr4 a, r_end = Addr4 b\<rparr> in
             case find (\<lambda>prev. ranges_overlap prev new) parsed of
               Some prev \<Rightarrow> Inl (RangesOverlap i a b (r_start prev) (r_end prev))
             | None \<Rightarrow> parse_ranges (Suc i) (parsed @ [new]) rs)))"

definition new_pool_ranges ::
  "pool_range list \<Rightarrow> string \<Rightarrow> string \<Rightarrow> string list \<Rightarrow> 32 word \<Rightarrow> string list \<Rightarrow> (pool_error, pool) result"
where
  "new_pool_ranges ranges netmask gateway dns lease_sec exclude =
    (if ranges = [] then Inl NeedRange
     else case parse_v4 netmask of
       None \<Rightarrow> Inl (BadNetmask netmask)
     | Some m \<Rightarrow>
       (case parse_v4 gateway of
          None \<Rightarrow> Inl (BadGateway gateway)
        | Some g \<Rightarrow>
          (case parse_all_v4 BadDns dns of
             Inl e \<Rightarrow> Inl e
           | Inr ds \<Rightarrow>
             (case parse_all_v4 BadExclude exclude of
                Inl e \<Rightarrow> Inl e
              | Inr es \<Rightarrow>
                (case parse_ranges 0 [] ranges of
                   Inl e \<Rightarrow> Inl e
                 | Inr parsed \<Rightarrow>
                   Inr \<lparr>p_start = r_start (hd parsed), p_end = r_end (hd parsed), p_netmask = m,
                        p_gateway = g, p_dns = ds, p_exclude = map show_ip4 es,
                        p_lease_sec = (if lease_sec = 0 then 24 * 3600 else lease_sec),
                        p_ranges = parsed, p_selectors = []\<rparr>)))))"

definition new_pool ::
  "string \<Rightarrow> string \<Rightarrow> string \<Rightarrow> string \<Rightarrow> string list \<Rightarrow> 32 word \<Rightarrow> string list \<Rightarrow> (pool_error, pool) result"
where
  "new_pool start stop netmask gateway dns lease_sec exclude =
    new_pool_ranges [\<lparr>pr_start = start, pr_end = stop\<rparr>] netmask gateway dns lease_sec exclude"

definition pool_contains :: "pool \<Rightarrow> addr \<Rightarrow> bool" where
  "pool_contains p ip \<longleftrightarrow>
    is4 ip \<and> list_ex (\<lambda>r. addr_le (r_start r) ip \<and> addr_le ip (r_end r)) (p_ranges p)"

definition contains_key :: "pool \<Rightarrow> addr \<Rightarrow> bool" where
  "contains_key p ip =
    (case (p_start p, ip) of
       (Addr4 a, Addr4 w) \<Rightarrow> a AND p_netmask p = w AND p_netmask p
     | _ \<Rightarrow> False)"

definition ranges_compact :: "pool \<Rightarrow> string" where
  "ranges_compact p =
    join_with '','' (map (\<lambda>r. show_addr4 (r_start r) @ ''-'' @ show_addr4 (r_end r)) (p_ranges p))"

subsection \<open>A set of pools\<close>

record subnet_pools =
  sp_local :: pool
  sp_relay :: "pool list"

record pool_input =
  in_selector :: string
  in_pools :: "pool_range list"
  in_start :: string
  in_end :: string
  in_netmask :: string
  in_gateway :: string
  in_dns :: "string list"
  in_lease_sec :: "32 word"
  in_exclude :: "string list"

datatype pools_error =
    PoolInvalid string pool_error
  | MultipleLocal
  | BadSelector string
  | SelectorOverlaps string prefix4
  | SelectorOutside string string
  | NoLocal

definition try_parse_selector :: "string \<Rightarrow> prefix4 option" where
  "try_parse_selector s =
    (case parse_prefix s of
       Some (Prefix4 p) \<Rightarrow> Some (prefix_masked p)
     | Some (Prefix6 _ _) \<Rightarrow> None
     | None \<Rightarrow> (case parse_v4 s of None \<Rightarrow> None | Some w \<Rightarrow> Some (w, 32)))"

text \<open>The loop of \<open>NewSubnetPools\<close>: the local pool, the relay pools and their selectors so far.\<close>

fun add_pools ::
  "pool option \<Rightarrow> pool list \<Rightarrow> prefix4 list \<Rightarrow> pool_input list \<Rightarrow> (pools_error, subnet_pools) result"
where
  "add_pools local relay sels [] =
    (case local of None \<Rightarrow> Inl NoLocal | Some l \<Rightarrow> Inr \<lparr>sp_local = l, sp_relay = relay\<rparr>)"
| "add_pools local relay sels (i # is) =
    (let ranges = (if in_pools i = [] then [\<lparr>pr_start = in_start i, pr_end = in_end i\<rparr>] else in_pools i) in
     case new_pool_ranges ranges (in_netmask i) (in_gateway i) (in_dns i) (in_lease_sec i) (in_exclude i) of
       Inl e \<Rightarrow> Inl (PoolInvalid (in_selector i) e)
     | Inr pool \<Rightarrow>
       (if in_selector i = [] then
          (if local \<noteq> None then Inl MultipleLocal else add_pools (Some pool) relay sels is)
        else case try_parse_selector (in_selector i) of
          None \<Rightarrow> Inl (BadSelector (in_selector i))
        | Some sel \<Rightarrow>
          (case find (\<lambda>prev. prefix_overlaps prev sel) sels of
             Some prev \<Rightarrow> Inl (SelectorOverlaps (in_selector i) prev)
           | None \<Rightarrow>
             (if \<not> contains_key pool (Addr4 (fst sel))
              then Inl (SelectorOutside (in_selector i) (ranges_compact pool))
              else add_pools local (relay @ [pool\<lparr>p_selectors := p_selectors pool @ [sel]\<rparr>])
                     (sels @ [sel]) is))))"

definition new_subnet_pools :: "pool_input list \<Rightarrow> (pools_error, subnet_pools) result" where
  "new_subnet_pools ins = add_pools None [] [] ins"

definition pool_for_request :: "subnet_pools option \<Rightarrow> addr \<Rightarrow> pool option" where
  "pool_for_request sps giaddr =
    (case sps of
       None \<Rightarrow> None
     | Some sp \<Rightarrow>
       (case giaddr of
          Addr4 w \<Rightarrow>
            (if w = 0 then Some (sp_local sp)
             else find (\<lambda>p. list_ex (\<lambda>sel. prefix_contains sel w) (p_selectors p)) (sp_relay sp))
        | _ \<Rightarrow> Some (sp_local sp)))"

subsection \<open>What a constructed pool satisfies\<close>

definition range_ok :: "addr_range \<Rightarrow> bool" where
  "range_ok r \<longleftrightarrow> (\<exists>a b. r_start r = Addr4 a \<and> r_end r = Addr4 b \<and> a \<le> b)"

definition ranges_ok :: "addr_range list \<Rightarrow> bool" where
  "ranges_ok rs \<longleftrightarrow> (\<forall>r \<in> set rs. range_ok r) \<and> sorted_wrt (\<lambda>r s. \<not> ranges_overlap r s) rs"

lemma ranges_ok_snoc:
  assumes "ranges_ok rs" "\<not> b < a"
    "find (\<lambda>prev. ranges_overlap prev \<lparr>r_start = Addr4 a, r_end = Addr4 b\<rparr>) rs = None"
  shows "ranges_ok (rs @ [\<lparr>r_start = Addr4 a, r_end = Addr4 b\<rparr>])"
  using assms by (auto simp: ranges_ok_def range_ok_def sorted_wrt_append find_None_iff)

lemma parse_ranges_ok:
  "parse_ranges i parsed rs = Inr out \<Longrightarrow> ranges_ok parsed \<Longrightarrow>
    ranges_ok out \<and> length out = length parsed + length rs"
proof (induction i parsed rs rule: parse_ranges.induct)
  case (2 i parsed r rs)
  from "2.prems"(1) obtain a b where ab: "parse_v4 (pr_start r) = Some a" "parse_v4 (pr_end r) = Some b"
    "\<not> b < a" and free: "find (\<lambda>prev. ranges_overlap prev \<lparr>r_start = Addr4 a, r_end = Addr4 b\<rparr>) parsed = None"
    and rest: "parse_ranges (Suc i) (parsed @ [\<lparr>r_start = Addr4 a, r_end = Addr4 b\<rparr>]) rs = Inr out"
    by (auto simp: Let_def split: option.splits if_splits)
  note hyp = "2.IH" [OF ab refl free rest ranges_ok_snoc [OF "2.prems"(2) ab(3) free]]
  show ?case
    using hyp by simp
qed simp

definition pool_ok :: "pool \<Rightarrow> bool" where
  "pool_ok p \<longleftrightarrow> p_ranges p \<noteq> [] \<and> ranges_ok (p_ranges p) \<and>
    p_start p = r_start (hd (p_ranges p)) \<and> p_end p = r_end (hd (p_ranges p)) \<and> p_lease_sec p \<noteq> 0"

lemma new_pool_ranges_ok:
  assumes "new_pool_ranges ranges netmask gateway dns lease_sec exclude = Inr p"
  shows "pool_ok p \<and> p_selectors p = []"
proof -
  from assms obtain parsed where parsed: "parse_ranges 0 [] ranges = Inr parsed" "ranges \<noteq> []"
    and p: "p_ranges p = parsed" "p_start p = r_start (hd parsed)" "p_end p = r_end (hd parsed)"
      "p_selectors p = []" "p_lease_sec p = (if lease_sec = 0 then 24 * 3600 else lease_sec)"
    by (auto simp: new_pool_ranges_def split: if_splits option.splits sum.splits)
  have "ranges_ok parsed \<and> parsed \<noteq> []"
    using parse_ranges_ok [OF parsed(1)] parsed(2) by (auto simp: ranges_ok_def)
  with p show ?thesis
    by (simp add: pool_ok_def)
qed

lemma pool_okD:
  assumes "pool_ok p" "pool_contains p a"
  obtains w r where "a = Addr4 w" "r \<in> set (p_ranges p)" "in_range w r" "range_ok r"
  using assms by (cases a) (auto simp: pool_ok_def ranges_ok_def pool_contains_def list_ex_iff in_range_def)

lemma pool_contains_iff: "pool_contains p (Addr4 w) \<longleftrightarrow> (\<exists>r \<in> set (p_ranges p). in_range w r)"
  by (auto simp: pool_contains_def list_ex_iff in_range_def)

subsection \<open>What a constructed set of pools satisfies\<close>

text \<open>
  Exactly one local pool, without selectors; every relay pool has exactly one selector, whose
  network address lies in the pool's network; the selectors do not overlap.
\<close>

definition relay_ok :: "pool \<Rightarrow> bool" where
  "relay_ok p \<longleftrightarrow> pool_ok p \<and> length (p_selectors p) = 1 \<and>
    snd (hd (p_selectors p)) \<le> 32 \<and> contains_key p (Addr4 (fst (hd (p_selectors p))))"

definition relays_ok :: "pool list \<Rightarrow> bool" where
  "relays_ok relay \<longleftrightarrow> (\<forall>p \<in> set relay. relay_ok p) \<and>
    sorted_wrt (\<lambda>p q. \<not> prefix_overlaps (hd (p_selectors p)) (hd (p_selectors q))) relay"

definition pools_ok :: "subnet_pools \<Rightarrow> bool" where
  "pools_ok sp \<longleftrightarrow> pool_ok (sp_local sp) \<and> p_selectors (sp_local sp) = [] \<and> relays_ok (sp_relay sp)"

lemma try_parse_selector_bits: "try_parse_selector s = Some sel \<Longrightarrow> snd sel \<le> 32"
  by (auto simp: try_parse_selector_def prefix_masked_def split: option.splits prefix.splits
      dest: parse_prefix_bits)

lemma pool_ok_selectors [simp]: "pool_ok (p\<lparr>p_selectors := x\<rparr>) = pool_ok p"
  "contains_key (p\<lparr>p_selectors := x\<rparr>) a = contains_key p a"
  by (auto simp: pool_ok_def contains_key_def split: addr.splits)

lemma relays_ok_snoc:
  assumes "relays_ok relay" "pool_ok pool" "p_selectors pool = []" "snd sel \<le> 32"
    "contains_key pool (Addr4 (fst sel))"
    "find (\<lambda>prev. prefix_overlaps prev sel) (map (\<lambda>p. hd (p_selectors p)) relay) = None"
  shows "relays_ok (relay @ [pool\<lparr>p_selectors := p_selectors pool @ [sel]\<rparr>])"
  using assms by (auto simp: relays_ok_def relay_ok_def sorted_wrt_append find_None_iff)

lemma add_pools_ok:
  "add_pools local relay sels ins = Inr sp \<Longrightarrow>
    (\<forall>l. local = Some l \<longrightarrow> pool_ok l \<and> p_selectors l = []) \<Longrightarrow>
    relays_ok relay \<Longrightarrow> sels = map (\<lambda>p. hd (p_selectors p)) relay \<Longrightarrow> pools_ok sp"
proof (induction local relay sels ins rule: add_pools.induct)
  case (1 local relay sels)
  then show ?case by (auto simp: pools_ok_def split: option.splits)
next
  case (2 local relay sels i more)
  define ranges where "ranges = (if in_pools i = [] then [\<lparr>pr_start = in_start i, pr_end = in_end i\<rparr>] else in_pools i)"
  from "2.prems"(1) obtain pool where
    np: "new_pool_ranges ranges (in_netmask i) (in_gateway i) (in_dns i) (in_lease_sec i) (in_exclude i) = Inr pool"
    by (auto simp: ranges_def Let_def split: sum.splits)
  note ok = new_pool_ranges_ok [OF np]
  note IH = "2.IH" [OF ranges_def np]
  show ?case
  proof (cases "in_selector i = []")
    case True
    with "2.prems"(1) np have loc: "local = None" and "add_pools (Some pool) relay sels more = Inr sp"
      by (auto simp: ranges_def Let_def split: if_splits)
    then show ?thesis
      using IH(1) [OF True] ok "2.prems" by simp
  next
    case False
    with "2.prems"(1) np obtain sel where sel: "try_parse_selector (in_selector i) = Some sel"
      and free: "find (\<lambda>prev. prefix_overlaps prev sel) sels = None"
      and key: "contains_key pool (Addr4 (fst sel))"
      and rest: "add_pools local (relay @ [pool\<lparr>p_selectors := p_selectors pool @ [sel]\<rparr>]) (sels @ [sel]) more = Inr sp"
      by (auto simp: ranges_def Let_def split: option.splits if_splits)
    have "relays_ok (relay @ [pool\<lparr>p_selectors := p_selectors pool @ [sel]\<rparr>])"
      using relays_ok_snoc [of relay pool sel] ok free key "2.prems"(3,4) try_parse_selector_bits [OF sel]
      by simp
    then show ?thesis
      using IH(2) [OF False sel free] key rest "2.prems"(2,4) ok by simp
  qed
qed

lemma new_subnet_pools_sound: "new_subnet_pools ins = Inr sp \<Longrightarrow> pools_ok sp"
  using add_pools_ok [of None "[]" "[]" ins sp] by (simp add: new_subnet_pools_def relays_ok_def)

definition pool_serves :: "pool \<Rightarrow> ip4 \<Rightarrow> bool" where
  "pool_serves p w \<longleftrightarrow> list_ex (\<lambda>sel. prefix_contains sel w) (p_selectors p)"

lemma relay_ok_selector: "relay_ok p \<Longrightarrow> \<exists>sel. p_selectors p = [sel] \<and> snd sel \<le> 32"
  unfolding relay_ok_def One_nat_def length_Suc_conv by auto

lemma relays_no_common_address:
  assumes "relays_ok relay" "i < j" "j < length relay" "pool_serves (relay ! i) w"
  shows "\<not> pool_serves (relay ! j) w"
proof -
  have "relay_ok (relay ! i)" "relay_ok (relay ! j)"
    using assms by (auto simp: relays_ok_def)
  then obtain si sj where sel: "p_selectors (relay ! i) = [si]" "snd si \<le> 32"
    "p_selectors (relay ! j) = [sj]" "snd sj \<le> 32"
    by (metis relay_ok_selector)
  have "\<not> prefix_overlaps si sj"
    using assms(1-3) sel by (auto simp: relays_ok_def dest!: sorted_wrt_nth_less)
  then show ?thesis
    using prefix_disjoint [of si sj w] sel assms(4) by (auto simp: pool_serves_def)
qed

lemma find_unique:
  assumes "x \<in> set xs" "P x" "\<And>i j. i < j \<Longrightarrow> j < length xs \<Longrightarrow> P (xs ! i) \<Longrightarrow> \<not> P (xs ! j)"
  shows "find P xs = Some x"
proof -
  obtain k where k: "k < length xs" "xs ! k = x"
    using assms(1) by (auto simp: in_set_conv_nth)
  have "\<forall>i < k. \<not> P (xs ! i)"
    using assms(2,3) k by auto
  then show ?thesis
    using k assms(2) by (auto simp: find_Some_iff)
qed

lemma pool_for_request_relayed:
  "w \<noteq> 0 \<Longrightarrow> pool_for_request (Some sp) (Addr4 w) = find (\<lambda>p. pool_serves p w) (sp_relay sp)"
  by (simp add: pool_for_request_def pool_serves_def)

text \<open>
  A pool set that the constructor accepts is sound: one local pool without selectors; every pool
  has at least one range, each range is an ordered pair of IPv4 addresses, no two ranges of a pool
  overlap and the lease time is not zero; every relay pool has exactly one selector, whose network
  address lies in the pool's network, and no two selectors overlap.
\<close>

theorem new_subnet_pools_ok:
  assumes "new_subnet_pools ins = Inr sp"
  shows "pools_ok sp"
  by (rule new_subnet_pools_sound [OF assms])

definition demo_local :: pool_input where
  "demo_local = \<lparr>in_selector = [], in_pools = [\<lparr>pr_start = ''10.0.0.10'', pr_end = ''10.0.0.20''\<rparr>],
    in_start = [], in_end = [], in_netmask = ''255.255.255.0'', in_gateway = ''10.0.0.1'',
    in_dns = [''8.8.8.8''], in_lease_sec = 3600, in_exclude = [''10.0.0.1'']\<rparr>"

definition demo_relay :: "string \<Rightarrow> pool_input" where
  "demo_relay sel = \<lparr>in_selector = sel, in_pools = [],
    in_start = ''192.168.1.100'', in_end = ''192.168.1.150'', in_netmask = ''255.255.255.0'',
    in_gateway = ''192.168.1.1'', in_dns = [], in_lease_sec = 0, in_exclude = []\<rparr>"

lemma new_subnet_pools_ok_witness:
  "pools_ok (projr (new_subnet_pools [demo_local, demo_relay ''192.168.1.0/24'']))"
proof (rule new_subnet_pools_ok)
  have "\<not> isl (new_subnet_pools [demo_local, demo_relay ''192.168.1.0/24''])"
    by code_simp
  then show "new_subnet_pools [demo_local, demo_relay ''192.168.1.0/24''] =
      Inr (projr (new_subnet_pools [demo_local, demo_relay ''192.168.1.0/24'']))"
    by simp
qed

text \<open>
  C2: Routing of relayed packets is deterministic and never mis-leases: for a gateway address other
  than 0.0.0.0 the router returns a pool exactly when it is a relay pool whose selector contains the
  gateway, whatever its place in the list, so it never returns the local pool; with no such pool it
  returns none and the server stays silent.
\<close>

theorem relay_routing:
  assumes "new_subnet_pools ins = Inr sp" "w \<noteq> 0"
  shows "pool_for_request (Some sp) (Addr4 w) = Some p \<longleftrightarrow> p \<in> set (sp_relay sp) \<and> pool_serves p w"
proof -
  have ok: "relays_ok (sp_relay sp)"
    using new_subnet_pools_sound [OF assms(1)] by (simp add: pools_ok_def)
  have "find (\<lambda>p. pool_serves p w) (sp_relay sp) = Some p" if "p \<in> set (sp_relay sp)" "pool_serves p w"
    using that relays_no_common_address [OF ok] by (intro find_unique) auto
  then show ?thesis
    unfolding pool_for_request_relayed [OF assms(2)] by (auto simp: find_Some_iff)
qed

lemma relay_routing_witness:
  "let sp = projr (new_subnet_pools [demo_local, demo_relay ''192.168.1.0/24'']) in
   pool_for_request (Some sp) (Addr4 (ip4_of 192 168 1 1)) = Some (hd (sp_relay sp)) \<and>
   pool_for_request (Some sp) (Addr4 (ip4_of 192 168 2 1)) = None"
proof -
  let ?ins = "[demo_local, demo_relay ''192.168.1.0/24'']"
  let ?sp = "projr (new_subnet_pools ?ins)"
  have sp: "new_subnet_pools ?ins = Inr ?sp"
  proof -
    have "\<not> isl (new_subnet_pools ?ins)" by code_simp
    then show ?thesis by simp
  qed
  have "sp_relay ?sp \<noteq> [] \<and> pool_serves (hd (sp_relay ?sp)) (ip4_of 192 168 1 1)"
    by code_simp
  moreover have "list_all (\<lambda>p. \<not> pool_serves p (ip4_of 192 168 2 1)) (sp_relay ?sp)"
    by code_simp
  moreover have "ip4_of 192 168 1 1 \<noteq> 0" "ip4_of 192 168 2 1 \<noteq> 0"
    by code_simp+
  ultimately show ?thesis
    using relay_routing [OF sp, of "ip4_of 192 168 1 1" "hd (sp_relay ?sp)"]
      relay_routing [OF sp, of "ip4_of 192 168 2 1"]
    by (cases "pool_for_request (Some ?sp) (Addr4 (ip4_of 192 168 2 1))")
      (auto simp: list_all_iff Let_def)
qed

text \<open>
  A relayed request is routed to a pool of the gateway's own network when the selector is at least
  as long as the netmask, which holds for every selector taken from the subnet catalog.
\<close>

lemma relayed_pool_on_network:
  assumes "pools_ok sp" "w \<noteq> 0" "pool_for_request (Some sp) (Addr4 w) = Some p"
    "p_netmask p = cidr_mask n" "n \<le> snd (hd (p_selectors p))"
  shows "contains_key p (Addr4 w)"
proof -
  have p: "p \<in> set (sp_relay sp)" "pool_serves p w"
    using assms(3) by (auto simp: pool_for_request_relayed [OF assms(2)] find_Some_iff)
  then have ok: "relay_ok p"
    using assms(1) by (simp add: pools_ok_def relays_ok_def)
  then obtain v k where sel: "p_selectors p = [(v, k)]" "k \<le> 32"
    using relay_ok_selector by fastforce
  with p(2) have "prefix_contains (v, k) w"
    by (simp add: pool_serves_def)
  then have "v AND cidr_mask n = w AND cidr_mask n"
    using prefix_contains_netmask [of v k w n] sel assms(5) by simp
  moreover have "contains_key p (Addr4 v)"
    using ok sel by (simp add: relay_ok_def)
  ultimately show ?thesis
    using assms(4) by (auto simp: contains_key_def split: addr.splits)
qed

definition wide_relay :: pool_input where
  "wide_relay = (demo_relay ''192.168.0.0/16'')
    \<lparr>in_start := ''192.168.0.100'', in_end := ''192.168.0.150'', in_gateway := ''192.168.0.1''\<rparr>"

text \<open>
  The check that a selector lies in its pool's network only looks at the selector's network
  address, so a selector shorter than the netmask is accepted and relays of another network are
  leased from this pool: with selector 192.168.0.0/16 and a /24 pool on 192.168.0.0, a request
  relayed by 192.168.7.1 is routed to the pool although the pool's network does not contain the
  relay.
\<close>

theorem wide_selector_routes_foreign_network:
  "case new_subnet_pools [demo_local, wide_relay] of
     Inl e \<Rightarrow> False
   | Inr sp \<Rightarrow>
       (case pool_for_request (Some sp) (Addr4 (ip4_of 192 168 7 1)) of
          None \<Rightarrow> False
        | Some p \<Rightarrow> \<not> contains_key p (Addr4 (ip4_of 192 168 7 1)))"
  by code_simp

end
