(* ===== verification/Dhcp_Server.thy ===== *)
theory Dhcp_Server
  imports Dhcp_Pool Lease_Store
begin

text \<open>
  \<open>internal/dhcp/server.go\<close>, \<open>options.go\<close>, \<open>arch.go\<close> and \<open>bsdp.go\<close>: the packet handlers of the DHCP
  server on port 67 in its two modes and of the PXE boot server on port 4011, with the lease
  adapter of \<open>cmd/controller/main.go\<close>.

  The packet library is not part of the repository. A request is the record of what its accessors
  return; \<open>new_reply\<close> stands for \<open>dhcpv4.NewReplyFromRequest(req, WithMessageType, WithServerIP)\<close>;
  a reply is the fields the handlers assign and the list of \<open>UpdateOption\<close> calls they make, in
  order. The lease store behind the \<open>LeaseStore\<close> interface is a record of operations over an
  abstract state; \<open>None\<close> is an allocation that does not return.
\<close>

subsection \<open>Packets\<close>

datatype msg_type =
  Discover | Offer | Request | Decline | Ack | Nak | Release | Inform | NoType | OtherType "8 word"

record dhcp_req =
  rq_type :: msg_type
  rq_hwaddr :: "8 word list"
  rq_giaddr :: net_ip
  rq_ciaddr :: net_ip
  rq_flags :: "16 word"
  rq_hostname :: string
  rq_class_id :: string
  rq_user_class :: "string list"
  rq_archs :: "16 word list"
  rq_requested_ip :: "8 word list"
  rq_machine_id :: "8 word list"
  rq_broadcast :: bool

datatype dhcp_opt =
    OptServerId net_ip
  | OptMessage string
  | OptClassId string
  | OptMachineId "8 word list"
  | OptSubnetMask net_ip
  | OptRouter net_ip
  | OptDns "net_ip list"
  | OptLeaseTime int
  | OptRenewTime "8 word list"
  | OptRebindTime "8 word list"

record dhcp_msg =
  m_type :: msg_type
  m_yiaddr :: net_ip
  m_siaddr :: net_ip
  m_flags :: "16 word"
  m_file :: string
  m_sname :: string
  m_options :: "dhcp_opt list"

type_synonym reply_lib = "dhcp_req \<Rightarrow> msg_type \<Rightarrow> net_ip \<Rightarrow> (string, dhcp_msg) result"

definition update_option :: "dhcp_opt \<Rightarrow> dhcp_msg \<Rightarrow> dhcp_msg" where
  "update_option opt m = m\<lparr>m_options := m_options m @ [opt]\<rparr>"

text \<open>What a builder returns: no reply, a reply, an error, or a run-time panic.\<close>

datatype outcome = Silent | Send dhcp_msg | BuildError string | Panics

text \<open>\<open>net.HardwareAddr.String\<close>.\<close>

definition hex_digit :: "nat \<Rightarrow> char" where
  "hex_digit n = char_of (if n < 10 then 48 + n else 87 + n)"

definition hw_string :: "8 word list \<Rightarrow> string" where
  "hw_string bs = join_with '':'' (map (\<lambda>b. [hex_digit (unat b div 16), hex_digit (unat b mod 16)]) bs)"

definition ipv4_zero :: net_ip where
  "ipv4_zero = v4_in_v6_prefix @ [0, 0, 0, 0]"

definition ipv4_bcast :: net_ip where
  "ipv4_bcast = v4_in_v6_prefix @ [255, 255, 255, 255]"

subsection \<open>Boot files\<close>

definition bootfile_for_arch :: "16 word \<Rightarrow> string option" where
  "bootfile_for_arch a =
    (if a = 0x0000 then Some ''undionly.kpxe''
     else if a = 0x0006 then Some ''ipxe.efi''
     else if a = 0x0007 \<or> a = 0x0009 then Some ''snponly.efi''
     else if a = 0x000b then Some ''arm64-snponly.efi''
     else None)"

definition select_bootfile :: "dhcp_req \<Rightarrow> string option" where
  "select_bootfile req = (case rq_archs req of [] \<Rightarrow> None | a # _ \<Rightarrow> bootfile_for_arch a)"

definition is_ipxe :: "dhcp_req \<Rightarrow> bool" where
  "is_ipxe req \<longleftrightarrow> list_ex (\<lambda>uc. uc = ''iPXE'') (rq_user_class req)"

definition is_pxe_client :: "dhcp_req \<Rightarrow> bool" where
  "is_pxe_client req \<longleftrightarrow> starts_with ''PXEClient'' (rq_class_id req)"

subsection \<open>Lease options\<close>

text \<open>\<open>toIPv4\<close>: \<open>As4\<close> panics on the zero address and on a proper IPv6 address.\<close>

fun to_ipv4 :: "addr \<Rightarrow> net_ip option" where
  "to_ipv4 (Addr4 w) = Some (ip4_bytes w)"
| "to_ipv4 (Addr6 gs z) =
    (if length gs = 8 \<and> take 6 gs = [0, 0, 0, 0, 0, 65535] then Some (ip6_bytes (drop 6 gs)) else None)"
| "to_ipv4 AddrZero = None"

definition u32be :: "32 word \<Rightarrow> 8 word list" where
  "u32be v = [ucast (drop_bit 24 v), ucast (drop_bit 16 v), ucast (drop_bit 8 v), ucast v]"

definition lease_duration :: "pool \<Rightarrow> int" where
  "lease_duration p = uint (p_lease_sec p) * second"

definition apply_lease_options :: "pool \<Rightarrow> dhcp_msg \<Rightarrow> dhcp_msg" where
  "apply_lease_options p m =
    (let m = update_option (OptSubnetMask (ip4_bytes (p_netmask p))) m;
         m = update_option (OptRouter (ip4_bytes (p_gateway p))) m;
         m = (if p_dns p \<noteq> [] then update_option (OptDns (map ip4_bytes (p_dns p))) m else m);
         m = update_option (OptLeaseTime (lease_duration p)) m;
         m = update_option (OptRenewTime (u32be (p_lease_sec p div 2))) m
     in update_option (OptRebindTime (u32be (p_lease_sec p * 7 div 8))) m)"

subsection \<open>The lease store behind the interface\<close>

record lease_request =
  lr_mac :: string
  lr_hostname :: string
  lr_ranges :: "addr_range list"
  lr_exclude :: "string list"
  lr_dur :: int

record 's lease_ops =
  op_allocate :: "lease_request \<Rightarrow> 's \<Rightarrow> ((string, string) result \<times> 's) option"
  op_confirm :: "string \<Rightarrow> string \<Rightarrow> int \<Rightarrow> 's \<Rightarrow> (string, string) result \<times> 's"
  op_release :: "string \<Rightarrow> 's \<Rightarrow> string option \<times> 's"

text \<open>\<open>leasesAdapter\<close> over the store, for a call with the given fault plan and clock.\<close>

definition adapter_allocate ::
  "faults \<Rightarrow> time \<Rightarrow> lease_request \<Rightarrow> lease list \<Rightarrow> ((string, string) result \<times> lease list) option" where
  "adapter_allocate fl now r t =
    (case allocate fl now
        \<lparr>ai_mac = lr_mac r, ai_hostname = lr_hostname r, ai_ranges = lr_ranges r,
         ai_exclude = lr_exclude r, ai_lease_dur = lr_dur r\<rparr> t of
       None \<Rightarrow> None
     | Some (Inl e, t') \<Rightarrow> Some (Inl (lease_error_text e), t')
     | Some (Inr l, t') \<Rightarrow> Some (Inr (l_ip l), t'))"

definition adapter_confirm ::
  "faults \<Rightarrow> time \<Rightarrow> string \<Rightarrow> string \<Rightarrow> int \<Rightarrow> lease list \<Rightarrow> (string, string) result \<times> lease list" where
  "adapter_confirm fl now mac requested dur t =
    (case confirm fl now mac requested dur t of
       (Inl e, t') \<Rightarrow> (Inl (lease_error_text e), t')
     | (Inr l, t') \<Rightarrow> (Inr (l_ip l), t'))"

definition adapter_release :: "faults \<Rightarrow> time \<Rightarrow> string \<Rightarrow> lease list \<Rightarrow> string option \<times> lease list" where
  "adapter_release fl now mac t =
    (case release fl now mac t of (e, t') \<Rightarrow> (map_option lease_error_text e, t'))"

definition leases_adapter :: "faults \<Rightarrow> time \<Rightarrow> lease list lease_ops" where
  "leases_adapter fl now =
    \<lparr>op_allocate = adapter_allocate fl now, op_confirm = adapter_confirm fl now,
     op_release = adapter_release fl now\<rparr>"

subsection \<open>Full mode\<close>

record server_config =
  sc_server_ip :: string
  sc_http_url :: string
  sc_reply_target :: string

definition maybe_attach_pxe :: "server_config \<Rightarrow> net_ip \<Rightarrow> dhcp_req \<Rightarrow> dhcp_msg \<Rightarrow> dhcp_msg" where
  "maybe_attach_pxe cfg srv_ip req m =
    (if \<not> is_pxe_client req then m
     else let m = update_option (OptClassId ''PXEClient'') m;
              m = (if rq_machine_id req \<noteq> [] then update_option (OptMachineId (rq_machine_id req)) m else m)
          in if is_ipxe req then m\<lparr>m_file := sc_http_url cfg, m_sname := []\<rparr>
             else case select_bootfile req of
               None \<Rightarrow> m
             | Some bf \<Rightarrow> m\<lparr>m_file := bf, m_sname := sc_server_ip cfg, m_siaddr := srv_ip\<rparr>)"

definition build_nak :: "reply_lib \<Rightarrow> dhcp_req \<Rightarrow> net_ip \<Rightarrow> string \<Rightarrow> outcome" where
  "build_nak new_reply req srv_ip reason =
    (case new_reply req Nak srv_ip of
       Inl e \<Rightarrow> BuildError e
     | Inr m \<Rightarrow>
         Send (update_option (OptMessage reason)
           (update_option (OptServerId srv_ip) (m\<lparr>m_yiaddr := ipv4_zero\<rparr>))))"

definition build_offer ::
  "reply_lib \<Rightarrow> server_config \<Rightarrow> net_ip \<Rightarrow> dhcp_req \<Rightarrow> pool \<Rightarrow> 's lease_ops \<Rightarrow> 's \<Rightarrow> (outcome \<times> 's) option"
where
  "build_offer new_reply cfg srv_ip req p ops s =
    (case op_allocate ops
        \<lparr>lr_mac = hw_string (rq_hwaddr req), lr_hostname = rq_hostname req, lr_ranges = p_ranges p,
         lr_exclude = p_exclude p, lr_dur = lease_duration p\<rparr> s of
       None \<Rightarrow> None
     | Some (Inl e, s') \<Rightarrow> Some (BuildError (''allocate lease: '' @ e), s')
     | Some (Inr ip, s') \<Rightarrow>
       (case parse_addr ip of
          None \<Rightarrow> Some (BuildError (''parse allocated '' @ ip), s')
        | Some yi \<Rightarrow>
          (case new_reply req Offer srv_ip of
             Inl e \<Rightarrow> Some (BuildError e, s')
           | Inr m \<Rightarrow>
             (case to_ipv4 yi of
                None \<Rightarrow> Some (Panics, s')
              | Some y \<Rightarrow>
                (let m = m\<lparr>m_yiaddr := y, m_siaddr := srv_ip, m_flags := rq_flags req\<rparr>;
                     m = update_option (OptServerId srv_ip) m;
                     m = apply_lease_options p m
                 in Some (Send (maybe_attach_pxe cfg srv_ip req m), s'))))))"

text \<open>The address a REQUEST asks for: option 50, else the client's own address, else none.\<close>

definition requested_ip :: "dhcp_req \<Rightarrow> ip4 option" where
  "requested_ip req =
    (if length (rq_requested_ip req) = 4 then Some (ip4_of_bytes (rq_requested_ip req))
     else if \<not> ip_unspecified (rq_ciaddr req) then addr_from_to4 (rq_ciaddr req)
     else None)"

definition build_ack ::
  "reply_lib \<Rightarrow> server_config \<Rightarrow> net_ip \<Rightarrow> dhcp_req \<Rightarrow> pool \<Rightarrow> 's lease_ops \<Rightarrow> 's \<Rightarrow> outcome \<times> 's"
where
  "build_ack new_reply cfg srv_ip req p ops s =
    (let requested = (case requested_ip req of None \<Rightarrow> [] | Some w \<Rightarrow> show_ip4 w) in
     if requested \<noteq> [] \<and>
        (case parse_addr requested of None \<Rightarrow> True | Some ra \<Rightarrow> \<not> pool_contains p ra)
     then (build_nak new_reply req srv_ip ''requested IP outside pool'', s)
     else case op_confirm ops (hw_string (rq_hwaddr req)) requested (lease_duration p) s of
       (Inl e, s') \<Rightarrow> (build_nak new_reply req srv_ip e, s')
     | (Inr confirmed, s') \<Rightarrow>
       (case new_reply req Ack srv_ip of
          Inl e \<Rightarrow> (BuildError e, s')
        | Inr m \<Rightarrow>
          (let m = (if requested \<noteq> [] then m\<lparr>m_yiaddr := to4 (parse_ip requested)\<rparr>
                    else if confirmed \<noteq> [] then m\<lparr>m_yiaddr := to4 (parse_ip confirmed)\<rparr>
                    else m);
               m = m\<lparr>m_siaddr := srv_ip, m_flags := rq_flags req\<rparr>;
               m = update_option (OptServerId srv_ip) m;
               m = apply_lease_options p m
           in (Send (maybe_attach_pxe cfg srv_ip req m), s'))))"

definition resolve_pool :: "dhcp_req \<Rightarrow> subnet_pools option \<Rightarrow> pool option" where
  "resolve_pool req pools =
    (case pools of
       None \<Rightarrow> None
     | Some sp \<Rightarrow>
       (if ip_unspecified (rq_giaddr req) then Some (sp_local sp)
        else case addr_from_to4 (rq_giaddr req) of
          None \<Rightarrow> Some (sp_local sp)
        | Some w \<Rightarrow> pool_for_request pools (Addr4 w)))"

text \<open>A nil lease store panics as soon as a message needs it.\<close>

definition build_full_reply_with ::
  "reply_lib \<Rightarrow> server_config \<Rightarrow> net_ip \<Rightarrow> dhcp_req \<Rightarrow> subnet_pools option \<Rightarrow> 's lease_ops option \<Rightarrow> 's \<Rightarrow>
   (outcome \<times> 's) option"
where
  "build_full_reply_with new_reply cfg srv_ip req pools leases s =
    (case resolve_pool req pools of
       None \<Rightarrow> Some (Silent, s)
     | Some p \<Rightarrow>
       (if rq_type req \<in> {Release, Decline, Discover, Request} then
          (case leases of
             None \<Rightarrow> Some (Panics, s)
           | Some ops \<Rightarrow>
             (if rq_type req \<in> {Release, Decline}
              then Some (Silent, snd (op_release ops (hw_string (rq_hwaddr req)) s))
              else if rq_type req = Discover then build_offer new_reply cfg srv_ip req p ops s
              else Some (build_ack new_reply cfg srv_ip req p ops s)))
        else Some (Silent, s)))"

subsection \<open>Proxy mode and the boot server\<close>

text \<open>The message a proxy answers with: an OFFER to any DISCOVER, an ACK only to iPXE's REQUEST.\<close>

definition proxy_reply_type :: "dhcp_req \<Rightarrow> msg_type option" where
  "proxy_reply_type req =
    (case rq_type req of
       Discover \<Rightarrow> Some Offer
     | Request \<Rightarrow> (if is_ipxe req then Some Ack else None)
     | _ \<Rightarrow> None)"

definition echo_machine_id :: "dhcp_req \<Rightarrow> dhcp_msg \<Rightarrow> dhcp_msg" where
  "echo_machine_id req m =
    (if rq_machine_id req \<noteq> [] then update_option (OptMachineId (rq_machine_id req)) m else m)"

definition build_reply :: "reply_lib \<Rightarrow> server_config \<Rightarrow> dhcp_req \<Rightarrow> outcome" where
  "build_reply new_reply cfg req =
    (if \<not> is_pxe_client req then Silent
     else case proxy_reply_type req of
       None \<Rightarrow> Silent
     | Some mt \<Rightarrow>
       (let srv_ip = to4 (parse_ip (sc_server_ip cfg)) in
        if srv_ip = [] then BuildError (''invalid ServerIP '' @ sc_server_ip cfg)
        else case new_reply req mt srv_ip of
          Inl e \<Rightarrow> BuildError e
        | Inr m \<Rightarrow>
          (let m = m\<lparr>m_yiaddr := ipv4_zero, m_siaddr := srv_ip, m_flags := rq_flags req\<rparr>;
               m = update_option (OptServerId srv_ip) m;
               m = update_option (OptClassId ''PXEClient'') m;
               m = echo_machine_id req m
           in if is_ipxe req then Send (m\<lparr>m_file := sc_http_url cfg, m_sname := []\<rparr>)
              else case select_bootfile req of
                None \<Rightarrow> Silent
              | Some _ \<Rightarrow> Send (m\<lparr>m_file := [], m_sname := []\<rparr>))))"

text \<open>\<open>net.IP.String\<close> of a four-byte address.\<close>

definition ip_string4 :: "net_ip \<Rightarrow> string" where
  "ip_string4 ip = show_ip4 (ip4_of_bytes (to4 ip))"

definition build_bsdp_reply :: "reply_lib \<Rightarrow> dhcp_req \<Rightarrow> net_ip \<Rightarrow> outcome" where
  "build_bsdp_reply new_reply req srv_ip =
    (if is_ipxe req then Silent
     else if \<not> is_pxe_client req then Silent
     else case select_bootfile req of
       None \<Rightarrow> Silent
     | Some bf \<Rightarrow>
       (case new_reply req Ack srv_ip of
          Inl e \<Rightarrow> BuildError e
        | Inr m \<Rightarrow>
          (let m = m\<lparr>m_yiaddr := rq_ciaddr req, m_siaddr := srv_ip, m_flags := rq_flags req,
                     m_file := bf, m_sname := ip_string4 srv_ip\<rparr>;
               m = update_option (OptServerId srv_ip) m;
               m = update_option (OptClassId ''PXEClient'') m
           in Send (echo_machine_id req m))))"

subsection \<open>Destinations\<close>

text \<open>A \<open>net.Addr\<close>: nil, a UDP address, or another implementation.\<close>

datatype peer = PeerNil | Udp net_ip nat | PeerOther string

fun is_zero_peer :: "peer \<Rightarrow> bool" where
  "is_zero_peer (Udp ip port) = (ip = [] \<or> ip_unspecified ip)"
| "is_zero_peer _ = False"

definition dest_for :: "dhcp_req \<Rightarrow> peer \<Rightarrow> string \<Rightarrow> peer" where
  "dest_for req pr target =
    (if \<not> ip_unspecified (rq_giaddr req) then
       (if target = ''source'' \<and> pr \<noteq> PeerNil \<and> \<not> is_zero_peer pr then pr
        else Udp (rq_giaddr req) 67)
     else if rq_broadcast req \<or> pr = PeerNil \<or> is_zero_peer pr then Udp ipv4_bcast 68
     else pr)"

subsection \<open>The server\<close>

record 's dhcp_server =
  sv_cfg :: server_config
  sv_srv_ip :: net_ip
  sv_mode :: string
  sv_pools :: "subnet_pools option"
  sv_leases :: "'s lease_ops option"

datatype server_error =
  NeedPools | NeedLeases | BadServerIP string | BadMode string | ListenFailed string

text \<open>
  \<open>New\<close>: the configuration carries the legacy single pool and the pool set; \<open>resolve\<close> is
  \<open>resolveListen\<close> on the listen address, of which only the error matters here.
\<close>

definition new_server ::
  "(string \<Rightarrow> string option) \<Rightarrow> string \<Rightarrow> string \<Rightarrow> pool option \<Rightarrow> subnet_pools option \<Rightarrow> 's lease_ops option \<Rightarrow>
   server_config \<Rightarrow> (server_error, 's dhcp_server) result"
where
  "new_server resolve mode0 listen legacy pools0 leases cfg0 =
    (let mode = (if mode0 = [] then ''proxy'' else mode0);
         cfg = (if sc_reply_target cfg0 = [] then cfg0\<lparr>sc_reply_target := ''giaddr''\<rparr> else cfg0);
         pools = (if mode = ''full'' \<and> pools0 = None
                  then map_option (\<lambda>p. \<lparr>sp_local = p, sp_relay = []\<rparr>) legacy else pools0);
         ip = to4 (parse_ip (sc_server_ip cfg))
     in if mode = ''full'' \<and> pools = None then Inl NeedPools
        else if mode = ''full'' \<and> leases = None then Inl NeedLeases
        else if ip = [] then Inl (BadServerIP (sc_server_ip cfg))
        else case resolve (if listen = [] then '':67'' else listen) of
          Some e \<Rightarrow> Inl (ListenFailed e)
        | None \<Rightarrow> Inr \<lparr>sv_cfg = cfg, sv_srv_ip = ip, sv_mode = mode, sv_pools = pools, sv_leases = leases\<rparr>)"

definition reload ::
  "string \<Rightarrow> subnet_pools option \<Rightarrow> 's lease_ops option \<Rightarrow> 's dhcp_server \<Rightarrow>
   server_error option \<times> 's dhcp_server"
where
  "reload mode0 pools leases sv =
    (let mode = (if mode0 = [] then ''proxy'' else mode0) in
     if mode \<noteq> ''proxy'' \<and> mode \<noteq> ''full'' then (Some (BadMode mode), sv)
     else if mode = ''full'' \<and> pools = None then (Some NeedPools, sv)
     else if mode = ''full'' \<and> leases = None then (Some NeedLeases, sv)
     else (None, sv\<lparr>sv_mode := mode, sv_pools := pools, sv_leases := leases\<rparr>))"

text \<open>
  \<open>handle\<close>: what happens to one packet, and the datagram that leaves. An error of the builder is
  logged and answered with silence; \<open>Panics\<close> is kept apart.
\<close>

datatype handled = NoReply | Wrote dhcp_msg peer | Crashed

definition after_build :: "server_config \<Rightarrow> peer \<Rightarrow> dhcp_req \<Rightarrow> outcome \<Rightarrow> handled" where
  "after_build cfg pr req r =
    (case r of
       Silent \<Rightarrow> NoReply
     | BuildError _ \<Rightarrow> NoReply
     | Panics \<Rightarrow> Crashed
     | Send m \<Rightarrow> Wrote m (dest_for req pr (sc_reply_target cfg)))"

definition handle :: "reply_lib \<Rightarrow> 's dhcp_server \<Rightarrow> peer \<Rightarrow> dhcp_req \<Rightarrow> 's \<Rightarrow> (handled \<times> 's) option" where
  "handle new_reply sv pr req s =
    (if sv_mode sv = ''full'' then
       (case build_full_reply_with new_reply (sv_cfg sv) (sv_srv_ip sv) req (sv_pools sv) (sv_leases sv) s of
          None \<Rightarrow> None
        | Some (r, s') \<Rightarrow> Some (after_build (sv_cfg sv) pr req r, s'))
     else Some (after_build (sv_cfg sv) pr req (build_reply new_reply (sv_cfg sv) req), s))"

definition bsdp_handle :: "reply_lib \<Rightarrow> net_ip \<Rightarrow> peer \<Rightarrow> dhcp_req \<Rightarrow> handled" where
  "bsdp_handle new_reply srv_ip src req =
    (case build_bsdp_reply new_reply req srv_ip of
       Send m \<Rightarrow> Wrote m src
     | Panics \<Rightarrow> Crashed
     | _ \<Rightarrow> NoReply)"

subsection \<open>The contract of the lease store\<close>

text \<open>
  What the packet handlers rely on: an invariant that every operation keeps, an allocation that
  returns and chooses an address of the requested ranges that is not excluded, and a confirmation
  that only ever binds the address the store holds for the client. \<open>held s mac ip\<close> says that the
  store records \<open>ip\<close> for the client.
\<close>

locale lease_service =
  fixes ops :: "'s lease_ops"
    and inv :: "'s \<Rightarrow> bool"
    and held :: "'s \<Rightarrow> string \<Rightarrow> string \<Rightarrow> bool"
  assumes allocate_inv: "inv s \<Longrightarrow> op_allocate ops r s = Some (res, s') \<Longrightarrow> inv s'"
    and allocate_addr: "inv s \<Longrightarrow> op_allocate ops r s = Some (Inr ip, s') \<Longrightarrow> \<not> wraps (lr_ranges r) \<Longrightarrow>
      held s' (lr_mac r) ip \<and>
      (\<exists>w. ip = show_ip4 w \<and> (\<exists>g \<in> set (lr_ranges r). in_range w g) \<and> ip \<notin> set (lr_exclude r))"
    and allocate_total: "\<not> wraps (lr_ranges r) \<Longrightarrow> op_allocate ops r s \<noteq> None"
    and confirm_inv: "inv s \<Longrightarrow> inv (snd (op_confirm ops mac req dur s))"
    and confirm_addr: "inv s \<Longrightarrow> op_confirm ops mac req dur s = (Inr ip, s') \<Longrightarrow>
      held s mac ip \<and> held s' mac ip \<and> ip \<noteq> [] \<and> (req \<noteq> [] \<longrightarrow> ip = req)"
    and confirm_refused: "op_confirm ops mac req dur s = (Inl e, s') \<Longrightarrow> s' = s"
    and release_inv: "inv s \<Longrightarrow> inv (snd (op_release ops mac s))"

text \<open>The documented behaviour of the reply constructor: the reply has the type it was asked for.\<close>

definition reply_lib_ok :: "reply_lib \<Rightarrow> bool" where
  "reply_lib_ok nr \<longleftrightarrow> (\<forall>req mt ip m. nr req mt ip = Inr m \<longrightarrow> m_type m = mt \<and> m_options m = [])"

lemma reply_lib_okD: "reply_lib_ok nr \<Longrightarrow> nr req mt ip = Inr m \<Longrightarrow> m_type m = mt \<and> m_options m = []"
  by (simp add: reply_lib_ok_def)

lemma update_option_fields [simp]:
  "m_type (update_option opt m) = m_type m" "m_yiaddr (update_option opt m) = m_yiaddr m"
  "m_siaddr (update_option opt m) = m_siaddr m" "m_flags (update_option opt m) = m_flags m"
  "m_file (update_option opt m) = m_file m" "m_sname (update_option opt m) = m_sname m"
  "m_options (update_option opt m) = m_options m @ [opt]"
  by (simp_all add: update_option_def)

lemma apply_lease_options_fields [simp]:
  "m_type (apply_lease_options p m) = m_type m" "m_yiaddr (apply_lease_options p m) = m_yiaddr m"
  "m_siaddr (apply_lease_options p m) = m_siaddr m"
  by (simp_all add: apply_lease_options_def Let_def)

lemma maybe_attach_pxe_fields [simp]:
  "m_type (maybe_attach_pxe cfg ip req m) = m_type m"
  "m_yiaddr (maybe_attach_pxe cfg ip req m) = m_yiaddr m"
  by (auto simp: maybe_attach_pxe_def Let_def split: option.splits)

lemma echo_machine_id_fields [simp]:
  "m_type (echo_machine_id req m) = m_type m" "m_yiaddr (echo_machine_id req m) = m_yiaddr m"
  "m_siaddr (echo_machine_id req m) = m_siaddr m"
  by (simp_all add: echo_machine_id_def)

lemma build_nak_sent:
  assumes "reply_lib_ok nr" "build_nak nr req ip reason = Send m"
  shows "m_type m = Nak \<and> m_yiaddr m = ipv4_zero"
  using assms by (auto simp: build_nak_def dest: reply_lib_okD split: sum.splits)

lemma build_nak_no_panic: "build_nak nr req ip reason \<noteq> Panics"
  by (simp add: build_nak_def split: sum.splits)

context lease_service
begin

lemma offer_sent:
  assumes "reply_lib_ok nr" "inv s" "\<not> wraps (p_ranges p)"
    "build_offer nr cfg ip req p ops s = Some (Send m, s')"
  shows "m_type m = Offer \<and> inv s' \<and>
    (\<exists>w. m_yiaddr m = ip4_bytes w \<and> pool_contains p (Addr4 w) \<and> show_ip4 w \<notin> set (p_exclude p) \<and>
       held s' (hw_string (rq_hwaddr req)) (show_ip4 w))"
proof -
  let ?r = "\<lparr>lr_mac = hw_string (rq_hwaddr req), lr_hostname = rq_hostname req, lr_ranges = p_ranges p,
         lr_exclude = p_exclude p, lr_dur = lease_duration p\<rparr>"
  from assms(4) obtain a where a: "op_allocate ops ?r s = Some (Inr a, s')"
    unfolding build_offer_def by (auto simp: Let_def split: option.splits sum.splits)
  from allocate_addr [OF assms(2) a] assms(3) obtain w where w: "a = show_ip4 w"
    "\<exists>g \<in> set (p_ranges p). in_range w g" "a \<notin> set (p_exclude p)"
    "held s' (hw_string (rq_hwaddr req)) a" by auto
  from assms(4) a w(1) obtain b where "nr req Offer ip = Inr b" "m_type m = m_type b" "m_yiaddr m = ip4_bytes w"
    unfolding build_offer_def by (auto simp: Let_def split: option.splits sum.splits)
  then show ?thesis
    using w allocate_inv [OF assms(2) a] reply_lib_okD [OF assms(1)] by (auto simp: pool_contains_iff)
qed

lemma offer_returns:
  assumes "\<not> wraps (p_ranges p)" "inv s"
  shows "\<exists>r s'. build_offer nr cfg ip req p ops s = Some (r, s') \<and> r \<noteq> Panics \<and> inv s'"
proof -
  let ?r = "\<lparr>lr_mac = hw_string (rq_hwaddr req), lr_hostname = rq_hostname req, lr_ranges = p_ranges p,
         lr_exclude = p_exclude p, lr_dur = lease_duration p\<rparr>"
  obtain res s' where a: "op_allocate ops ?r s = Some (res, s')"
    using allocate_total [of ?r s] assms(1) by auto
  note inv' = allocate_inv [OF assms(2) a]
  show ?thesis
  proof (cases res)
    case (Inl e)
    with a inv' show ?thesis by (simp add: build_offer_def)
  next
    case (Inr ip)
    with a allocate_addr [of s ?r ip s'] assms obtain w where "ip = show_ip4 w" by auto
    with Inr a inv' show ?thesis by (auto simp: build_offer_def Let_def split: sum.splits)
  qed
qed

lemma ack_inv: "inv s \<Longrightarrow> inv (snd (build_ack nr cfg ip req p ops s))"
  using confirm_inv [of s]
  by (auto simp: build_ack_def Let_def split: sum.splits prod.splits option.splits) (metis snd_conv)+

lemma ack_no_panic: "fst (build_ack nr cfg ip req p ops s) \<noteq> Panics"
  by (auto simp: build_ack_def Let_def build_nak_no_panic split: sum.splits prod.splits option.splits)

lemma ack_sent:
  assumes "reply_lib_ok nr" "inv s" "build_ack nr cfg ip req p ops s = (Send m, s')"
  shows "m_type m = Nak \<and> m_yiaddr m = ipv4_zero \<and> s' = s \<or>
    m_type m = Ack \<and> (\<exists>a. m_yiaddr m = to4 (parse_ip a) \<and> held s (hw_string (rq_hwaddr req)) a \<and>
      held s' (hw_string (rq_hwaddr req)) a \<and>
      (\<forall>w. requested_ip req = Some w \<longrightarrow> a = show_ip4 w \<and> pool_contains p (Addr4 w)))"
proof -
  define rs where "rs = (case requested_ip req of None \<Rightarrow> [] | Some w \<Rightarrow> show_ip4 w)"
  have rsw: "requested_ip req = Some w \<Longrightarrow> rs = show_ip4 w \<and> rs \<noteq> []" for w
    by (simp add: rs_def)
  show ?thesis
  proof (cases "rs \<noteq> [] \<and> (case parse_addr rs of None \<Rightarrow> True | Some ra \<Rightarrow> \<not> pool_contains p ra)")
    case True
    with assms(3) have "build_nak nr req ip ''requested IP outside pool'' = Send m" "s' = s"
      by (auto simp: build_ack_def rs_def [symmetric] Let_def)
    then show ?thesis using build_nak_sent [OF assms(1)] by blast
  next
    case False
    obtain res s2 where conf: "op_confirm ops (hw_string (rq_hwaddr req)) rs (lease_duration p) s = (res, s2)"
      by fastforce
    show ?thesis
    proof (cases res)
      case (Inl e)
      with False assms(3) conf have "build_nak nr req ip e = Send m" "s' = s2"
        by (auto simp: build_ack_def rs_def [symmetric] Let_def)
      then show ?thesis
        using build_nak_sent [OF assms(1)] confirm_refused [OF conf [unfolded Inl]] by blast
    next
      case (Inr a)
      note c = confirm_addr [OF assms(2) conf [unfolded Inr]]
      from False assms(3) conf Inr obtain b where b: "nr req Ack ip = Inr b" "m_type m = m_type b" "s' = s2"
        "m_yiaddr m = to4 (parse_ip a)"
        using c by (cases "rs = []") (auto simp: build_ack_def rs_def [symmetric] Let_def split: sum.splits)
      have "a = show_ip4 w \<and> pool_contains p (Addr4 w)" if "requested_ip req = Some w" for w
        using rsw [OF that] c False by auto
      then show ?thesis
        using b c reply_lib_okD [OF assms(1) b(1)] by auto
    qed
  qed
qed

lemma full_reply_keeps:
  assumes "inv s" "build_full_reply_with nr cfg ip req pools (Some ops) s = Some (r, s')"
    "\<And>p. resolve_pool req pools = Some p \<Longrightarrow> \<not> wraps (p_ranges p)"
  shows "inv s' \<and> r \<noteq> Panics"
proof (cases "resolve_pool req pools")
  case None
  with assms show ?thesis by (simp add: build_full_reply_with_def)
next
  case (Some p)
  note offer = offer_returns [OF assms(3) [OF Some] assms(1), of nr cfg ip req]
  note ack = ack_inv [OF assms(1), of nr cfg ip req p] ack_no_panic [of nr cfg ip req p s]
  have "build_ack nr cfg ip req p ops s = (r, s') \<Longrightarrow> inv s' \<and> r \<noteq> Panics"
    using ack by simp
  then show ?thesis
    using assms(1,2) Some offer release_inv [OF assms(1)]
    by (fastforce simp: build_full_reply_with_def split: if_splits)
qed

lemma full_reply_returns:
  assumes "inv s" "\<And>p. resolve_pool req pools = Some p \<Longrightarrow> \<not> wraps (p_ranges p)"
  shows "build_full_reply_with nr cfg ip req pools (Some ops) s \<noteq> None"
  using assms offer_returns [OF _ assms(1), of _ nr cfg ip req]
  by (fastforce simp: build_full_reply_with_def split: option.splits if_splits)

lemma full_reply_sent:
  assumes "build_full_reply_with nr cfg ip req pools (Some ops) s = Some (Send m, s')"
  obtains p where "resolve_pool req pools = Some p"
    "rq_type req = Discover \<and> build_offer nr cfg ip req p ops s = Some (Send m, s') \<or>
     rq_type req = Request \<and> build_ack nr cfg ip req p ops s = (Send m, s')"
  using assms by (auto simp: build_full_reply_with_def split: option.splits if_splits)

end

text \<open>
  The isolation of clients: a fact \<open>others mac s\<close> about the records of other clients survives
  every operation of the client \<open>mac\<close>.
\<close>

locale lease_isolation = lease_service ops inv held
  for ops :: "'s lease_ops" and inv :: "'s \<Rightarrow> bool" and held :: "'s \<Rightarrow> string \<Rightarrow> string \<Rightarrow> bool" +
  fixes others :: "string \<Rightarrow> 's \<Rightarrow> bool"
  assumes allocate_others: "others (lr_mac r) s \<Longrightarrow> op_allocate ops r s = Some (res, s') \<Longrightarrow> others (lr_mac r) s'"
    and confirm_others: "others mac s \<Longrightarrow> others mac (snd (op_confirm ops mac req dur s))"
    and release_others: "others mac s \<Longrightarrow> others mac (snd (op_release ops mac s))"
begin

lemma offer_others:
  assumes "others (hw_string (rq_hwaddr req)) s" "build_offer nr cfg ip req p ops s = Some (r, s')"
  shows "others (hw_string (rq_hwaddr req)) s'"
proof -
  let ?r = "\<lparr>lr_mac = hw_string (rq_hwaddr req), lr_hostname = rq_hostname req, lr_ranges = p_ranges p,
         lr_exclude = p_exclude p, lr_dur = lease_duration p\<rparr>"
  from assms(2) obtain res where "op_allocate ops ?r s = Some (res, s')"
    unfolding build_offer_def by (auto simp: Let_def split: option.splits sum.splits)
  from allocate_others [OF _ this] assms(1) show ?thesis by simp
qed

lemma ack_state:
  "snd (build_ack nr cfg ip req p ops s) = s \<or>
   (\<exists>rs. snd (build_ack nr cfg ip req p ops s) =
     snd (op_confirm ops (hw_string (rq_hwaddr req)) rs (lease_duration p) s))"
  unfolding build_ack_def Let_def
  by (auto split: sum.splits prod.splits option.splits) (metis snd_conv)+

lemma full_reply_others:
  assumes "others (hw_string (rq_hwaddr req)) s"
    "build_full_reply_with nr cfg ip req pools (Some ops) s = Some (out, s')"
  shows "others (hw_string (rq_hwaddr req)) s'"
proof (cases "resolve_pool req pools")
  case None
  with assms show ?thesis by (simp add: build_full_reply_with_def)
next
  case (Some p)
  have "others (hw_string (rq_hwaddr req)) (snd (build_ack nr cfg ip req p ops s))"
    using ack_state [of nr cfg ip req p s] assms(1) confirm_others by metis
  with Some assms show ?thesis
    using offer_others [OF assms(1), of nr cfg ip p out s'] release_others [OF assms(1)]
    by (auto simp: build_full_reply_with_def split: if_splits)
qed

end

subsection \<open>The lease table keeps the contract\<close>

definition recorded :: "lease list \<Rightarrow> string \<Rightarrow> string \<Rightarrow> bool" where
  "recorded t mac ip \<longleftrightarrow> (\<exists>r \<in> set t. l_mac r = normalize_mac mac \<and> l_ip r = ip)"

lemma adapter_allocate_Some:
  "adapter_allocate fl now r t = Some (res, t') \<Longrightarrow>
    \<exists>res'. allocate fl now \<lparr>ai_mac = lr_mac r, ai_hostname = lr_hostname r, ai_ranges = lr_ranges r,
         ai_exclude = lr_exclude r, ai_lease_dur = lr_dur r\<rparr> t = Some (res', t') \<and>
      (case res' of Inl e \<Rightarrow> res = Inl (lease_error_text e) | Inr l \<Rightarrow> res = Inr (l_ip l))"
  by (auto simp: adapter_allocate_def split: option.splits sum.splits prod.splits)

lemma ip_text_not_Nil: "ip_text s \<Longrightarrow> s \<noteq> []"
  unfolding ip_text_def by (metis show_ip4_not_Nil list.distinct(1))

interpretation leases: lease_service "leases_adapter fl now" lease_inv recorded
proof (unfold_locales, goal_cases)
  case (1 s r res s')
  then show ?case
    by (auto simp: leases_adapter_def dest!: adapter_allocate_Some dest: allocate_inv)
next
  case (2 s r ip s')
  then obtain l where "allocate fl now \<lparr>ai_mac = lr_mac r, ai_hostname = lr_hostname r, ai_ranges = lr_ranges r,
         ai_exclude = lr_exclude r, ai_lease_dur = lr_dur r\<rparr> s = Some (Inr l, s')" "ip = l_ip l"
    by (auto simp: leases_adapter_def dest!: adapter_allocate_Some split: sum.splits)
  with allocate_in_pool [OF this(1)] 2 show ?case
    by (auto simp: recorded_def)
next
  case (3 r s)
  then show ?case
    using allocate_total [of "\<lparr>ai_mac = lr_mac r, ai_hostname = lr_hostname r, ai_ranges = lr_ranges r,
         ai_exclude = lr_exclude r, ai_lease_dur = lr_dur r\<rparr>" fl now s]
    by (auto simp: leases_adapter_def adapter_allocate_def split: sum.splits)
next
  case (4 s mac req dur)
  then show ?case
    using confirm_spec [OF 4, where fl = fl and now = now and mac = mac and requested = req and dur = dur]
    by (auto simp: leases_adapter_def adapter_confirm_def split: sum.splits prod.splits)
next
  case (5 s mac req dur ip s')
  then obtain l where "confirm fl now mac req dur s = (Inr l, s')" "ip = l_ip l"
    by (auto simp: leases_adapter_def adapter_confirm_def split: sum.splits prod.splits)
  with confirm_spec [OF 5(1), where fl = fl and now = now and mac = mac and requested = req and dur = dur] obtain row where
    row: "row \<in> set s" "l_mac row = normalize_mac mac" "ip = l_ip row" "req = [] \<or> req = l_ip row"
    "row\<lparr>l_state := Active, l_expires := whole (now + dur), l_updated := whole now\<rparr> \<in> set s'"
    by auto
  have "ip_text ip" using row 5(1) by (auto simp: lease_inv_def)
  with row show ?case
    by (auto simp: recorded_def dest: ip_text_not_Nil intro!: bexI [OF _ row(1)] bexI [OF _ row(5)])
next
  case (6 mac req dur s e s')
  then show ?case
    by (auto simp: leases_adapter_def adapter_confirm_def confirm_def Let_def
        split: sum.splits prod.splits option.splits if_splits)
next
  case (7 s mac)
  then show ?case
    using release_inv [OF 7, of fl now mac]
    by (auto simp: leases_adapter_def adapter_release_def split: prod.splits)
qed

text \<open>A live row of another client is such a fact.\<close>

interpretation leases_isolation:
  lease_isolation "leases_adapter fl now" lease_inv recorded
    "\<lambda>mac t. r \<in> set t \<and> live now r \<and> l_mac r \<noteq> normalize_mac mac"
proof (unfold_locales, goal_cases)
  case (1 req s res s')
  then show ?case
    by (auto simp: leases_adapter_def dest!: adapter_allocate_Some dest: allocate_live [where r = r])
next
  case (2 mac s req dur)
  then show ?case
    by (auto simp: leases_adapter_def adapter_confirm_def confirm_def Let_def set_upd_where
        split: sum.splits prod.splits option.splits if_splits)
next
  case (3 mac s)
  then show ?case
    by (auto simp: leases_adapter_def adapter_release_def release_def Let_def set_upd_where
        split: sum.splits prod.splits option.splits if_splits)
qed

subsection \<open>Properties of the server\<close>

text \<open>
  A full-mode server over the lease table. The pool the packet is resolved to must not end at
  255.255.255.255, where the scan of the lease store leaves the pool.
\<close>

definition full_server :: "faults \<Rightarrow> time \<Rightarrow> server_config \<Rightarrow> net_ip \<Rightarrow> subnet_pools \<Rightarrow> lease list dhcp_server" where
  "full_server fl now cfg ip sp =
    \<lparr>sv_cfg = cfg, sv_srv_ip = ip, sv_mode = ''full'', sv_pools = Some sp,
     sv_leases = Some (leases_adapter fl now)\<rparr>"

definition no_wrap :: "subnet_pools \<Rightarrow> bool" where
  "no_wrap sp \<longleftrightarrow> list_all (\<lambda>p. \<not> wraps (p_ranges p)) (sp_local sp # sp_relay sp)"

lemma resolve_pool_in: "resolve_pool req (Some sp) = Some p \<Longrightarrow> p \<in> set (sp_local sp # sp_relay sp)"
  by (auto simp: resolve_pool_def pool_for_request_def find_Some_iff split: if_splits option.splits)

lemma no_wrapD: "no_wrap sp \<Longrightarrow> resolve_pool req (Some sp) = Some p \<Longrightarrow> \<not> wraps (p_ranges p)"
  using resolve_pool_in by (fastforce simp: no_wrap_def list_all_iff)

lemma handle_full:
  "handle nr (full_server fl now cfg ip sp) pr req t =
    map_option (\<lambda>(r, t'). (after_build cfg pr req r, t'))
      (build_full_reply_with nr cfg ip req (Some sp) (Some (leases_adapter fl now)) t)"
  by (simp add: handle_def full_server_def split: option.splits)

lemma after_build_Wrote [simp]:
  "after_build cfg pr req r = Wrote m d \<longleftrightarrow> r = Send m \<and> d = dest_for req pr (sc_reply_target cfg)"
  "after_build cfg pr req r = Crashed \<longleftrightarrow> r = Panics"
  by (auto simp: after_build_def split: outcome.splits)

text \<open>
  C6: The server survives every packet: in full mode, for every request, clock and driver failure,
  handling a packet returns, does not panic and keeps the invariant of the lease table.
\<close>

theorem handle_total:
  assumes "lease_inv t" and "no_wrap sp"
  shows "\<exists>h t'. handle nr (full_server fl now cfg ip sp) pr req t = Some (h, t') \<and> h \<noteq> Crashed \<and> lease_inv t'"
proof -
  have nw: "\<not> wraps (p_ranges p)" if "resolve_pool req (Some sp) = Some p" for p
    using assms(2) that by (rule no_wrapD)
  obtain r t' where b: "build_full_reply_with nr cfg ip req (Some sp) (Some (leases_adapter fl now)) t = Some (r, t')"
    using leases.full_reply_returns [OF assms(1), of req "Some sp", OF nw, where nr = nr and cfg = cfg and ip = ip and fl = fl and now = now]
    by (cases "build_full_reply_with nr cfg ip req (Some sp) (Some (leases_adapter fl now)) t") auto
  from leases.full_reply_keeps [OF assms(1) b nw] b show ?thesis
    by (auto simp: handle_full)
qed

text \<open>
  An OFFER is a promise the server can keep: its address lies in the pool the packet was routed
  to, is not excluded, and is recorded for the client's hardware address in the lease table.
\<close>

theorem offer_from_routed_pool:
  assumes "reply_lib_ok nr" and "lease_inv t" and "no_wrap sp"
    and "handle nr (full_server fl now cfg ip sp) pr req t = Some (Wrote m dest, t')" and "rq_type req = Discover"
  shows "m_type m = Offer \<and> (\<exists>p w. resolve_pool req (Some sp) = Some p \<and> m_yiaddr m = ip4_bytes w \<and>
    pool_contains p (Addr4 w) \<and> show_ip4 w \<notin> set (p_exclude p) \<and>
    recorded t' (hw_string (rq_hwaddr req)) (show_ip4 w))"
proof -
  from assms(4) have b: "build_full_reply_with nr cfg ip req (Some sp) (Some (leases_adapter fl now)) t
      = Some (Send m, t')"
    by (auto simp: handle_full)
  from leases.full_reply_sent [OF b] assms(5) obtain p where p: "resolve_pool req (Some sp) = Some p"
    "build_offer nr cfg ip req p (leases_adapter fl now) t = Some (Send m, t')" by auto
  from leases.offer_sent [OF assms(1,2) no_wrapD [OF assms(3) p(1)] p(2)] p(1) show ?thesis
    by auto
qed

text \<open>
  C5: The answer to a REQUEST is a NAK with no address that changes nothing, or an ACK of exactly
  the address the lease table holds for the client, which is the requested address when the client
  names one, and then lies in the pool the packet was routed to.
\<close>

theorem ack_only_recorded_address:
  assumes "reply_lib_ok nr" and "lease_inv t"
    and "handle nr (full_server fl now cfg ip sp) pr req t = Some (Wrote m dest, t')" and "rq_type req = Request"
  shows "m_type m = Nak \<and> m_yiaddr m = ipv4_zero \<and> t' = t \<or>
    m_type m = Ack \<and> (\<exists>p a. resolve_pool req (Some sp) = Some p \<and> m_yiaddr m = to4 (parse_ip a) \<and>
      recorded t (hw_string (rq_hwaddr req)) a \<and> recorded t' (hw_string (rq_hwaddr req)) a \<and>
      (\<forall>w. requested_ip req = Some w \<longrightarrow> a = show_ip4 w \<and> pool_contains p (Addr4 w)))"
proof -
  from assms(3) have b: "build_full_reply_with nr cfg ip req (Some sp) (Some (leases_adapter fl now)) t
      = Some (Send m, t')"
    by (auto simp: handle_full)
  from leases.full_reply_sent [OF b] assms(4) obtain p where p: "resolve_pool req (Some sp) = Some p"
    "build_ack nr cfg ip req p (leases_adapter fl now) t = (Send m, t')" by auto
  from leases.ack_sent [OF assms(1,2) p(2)] p(1) show ?thesis
    by blast
qed

text \<open>
  A relayed packet from a network without a pool changes nothing and gets no answer, whatever
  its type.
\<close>

theorem unknown_relay_ignored:
  assumes "rq_giaddr req = ip4_bytes w" and "w \<noteq> 0" and "\<forall>p \<in> set (sp_relay sp). \<not> pool_serves p w"
  shows "handle nr (full_server fl now cfg ip sp) pr req t = Some (NoReply, t)"
proof -
  have "pool_for_request (Some sp) (Addr4 w) = None"
    using assms(2,3) by (simp add: pool_for_request_relayed find_None_iff)
  with assms(1,2) have "resolve_pool req (Some sp) = None"
    by (simp add: resolve_pool_def)
  then show ?thesis
    by (simp add: handle_full build_full_reply_with_def after_build_def)
qed

text \<open>
  The proxy never hands out an address: what it writes in any mode other than full carries the
  address 0.0.0.0 and no lease option, goes only to a PXE client, and is an OFFER to a DISCOVER or an
  ACK to a REQUEST of iPXE; before iPXE runs, it carries no boot file. The lease state is untouched.
\<close>

theorem proxy_never_leases:
  assumes "reply_lib_ok nr" and "sv_mode sv \<noteq> ''full''" and "handle nr sv pr req s = Some (Wrote m dest, s')"
  shows "s' = s \<and> m_yiaddr m = ipv4_zero \<and> is_pxe_client req \<and>
    (rq_type req = Discover \<and> m_type m = Offer \<or> rq_type req = Request \<and> m_type m = Ack \<and> is_ipxe req) \<and>
    (if is_ipxe req then m_file m = sc_http_url (sv_cfg sv) else m_file m = [] \<and> select_bootfile req \<noteq> None) \<and>
    set (m_options m) \<subseteq> {OptServerId (m_siaddr m), OptClassId ''PXEClient'', OptMachineId (rq_machine_id req)}"
proof -
  from assms(2,3) have s: "s' = s" and b: "build_reply nr (sv_cfg sv) req = Send m"
    by (auto simp: handle_def)
  from b obtain mt where mt: "proxy_reply_type req = Some mt" "is_pxe_client req"
    unfolding build_reply_def by (auto split: if_splits option.splits)
  with b obtain b0 where b0: "nr req mt (to4 (parse_ip (sc_server_ip (sv_cfg sv)))) = Inr b0"
    unfolding build_reply_def by (auto simp: Let_def split: if_splits sum.splits)
  note lib = reply_lib_okD [OF assms(1) b0]
  have "rq_type req = Discover \<and> mt = Offer \<or> rq_type req = Request \<and> mt = Ack \<and> is_ipxe req"
    using mt(1) by (auto simp: proxy_reply_type_def split: msg_type.splits if_splits)
  with b mt b0 lib s show ?thesis
    unfolding build_reply_def Let_def echo_machine_id_def
    by (auto split: if_splits option.splits)
qed

text \<open>
  The server over time: a list of packets, each with the clock and the driver failures of its
  handling, is served one after the other on the same lease table.
\<close>

record packet =
  pk_faults :: faults
  pk_now :: time
  pk_peer :: peer
  pk_req :: dhcp_req

fun serve_all ::
  "reply_lib \<Rightarrow> server_config \<Rightarrow> net_ip \<Rightarrow> subnet_pools \<Rightarrow> packet list \<Rightarrow> lease list \<Rightarrow> lease list option"
where
  "serve_all nr cfg ip sp [] t = Some t"
| "serve_all nr cfg ip sp (k # ks) t =
    (case handle nr (full_server (pk_faults k) (pk_now k) cfg ip sp) (pk_peer k) (pk_req k) t of
       None \<Rightarrow> None
     | Some (h, t') \<Rightarrow> serve_all nr cfg ip sp ks t')"

lemma handle_others:
  assumes "handle nr (full_server fl now cfg ip sp) pr req t = Some (h, t')" "r \<in> set t" "live now r"
    "l_mac r \<noteq> normalize_mac (hw_string (rq_hwaddr req))"
  shows "r \<in> set t'"
  using assms by (auto simp: handle_full dest: leases_isolation.full_reply_others [rotated, where r = r and now = now])

lemma handle_inv:
  assumes "lease_inv t" "no_wrap sp" "handle nr (full_server fl now cfg ip sp) pr req t = Some (h, t')"
  shows "lease_inv t'"
proof -
  have nw: "\<not> wraps (p_ranges p)" if "resolve_pool req (Some sp) = Some p" for p
    using assms(2) that by (rule no_wrapD)
  from assms(3) obtain r where
    "build_full_reply_with nr cfg ip req (Some sp) (Some (leases_adapter fl now)) t = Some (r, t')"
    by (auto simp: handle_full)
  from leases.full_reply_keeps [OF assms(1) this nw] show ?thesis by simp
qed

lemma serve_all_keeps:
  "serve_all nr cfg ip sp ks t = Some t' \<Longrightarrow> lease_inv t \<Longrightarrow> no_wrap sp \<Longrightarrow> r \<in> set t \<Longrightarrow>
    (\<forall>k \<in> set ks. live (pk_now k) r \<and> l_mac r \<noteq> normalize_mac (hw_string (rq_hwaddr (pk_req k)))) \<Longrightarrow>
    lease_inv t' \<and> r \<in> set t'"
proof (induction ks arbitrary: t)
  case (Cons k ks)
  then obtain h t1 where h: "handle nr (full_server (pk_faults k) (pk_now k) cfg ip sp) (pk_peer k) (pk_req k) t
      = Some (h, t1)" and rest: "serve_all nr cfg ip sp ks t1 = Some t'"
    by (auto split: option.splits)
  have "lease_inv t1" "r \<in> set t1"
    using handle_inv [OF Cons.prems(2,3) h] handle_others [OF h Cons.prems(4)] Cons.prems(5) by auto
  then show ?case
    using Cons.IH [OF rest] Cons.prems(3,5) by simp
qed simp

text \<open>
  C4: A lease is exclusive until it expires: as long as a client's lease is live, no sequence of
  packets of other clients, with any driver failures, changes its row, and no other client's row
  carries its address.
\<close>

theorem lease_exclusive_until_expiry:
  assumes "lease_inv t" and "no_wrap sp" and "r \<in> set t"
    and "\<forall>k \<in> set ks. live (pk_now k) r \<and> l_mac r \<noteq> normalize_mac (hw_string (rq_hwaddr (pk_req k)))"
    and "serve_all nr cfg ip sp ks t = Some t'"
  shows "r \<in> set t' \<and> (\<forall>q \<in> set t'. l_ip q = l_ip r \<longrightarrow> q = r)"
proof -
  have "lease_inv t' \<and> r \<in> set t'"
    using serve_all_keeps [OF assms(5,1,2,3,4)] .
  then show ?thesis
    by (auto simp: lease_inv_def dest: keyed_unique)
qed

definition server_ok :: "'s dhcp_server \<Rightarrow> bool" where
  "server_ok sv \<longleftrightarrow> (sv_mode sv = ''full'' \<longrightarrow> sv_pools sv \<noteq> None \<and> sv_leases sv \<noteq> None)"

text \<open>\<open>Reload\<close> refuses or installs what it was given; either way full mode has its pools and a store.\<close>

lemma reload_keeps_ok: "server_ok sv \<Longrightarrow> server_ok (snd (reload mode pools leases sv))"
  by (simp add: reload_def Let_def server_ok_def)

lemma new_server_ok: "new_server resolve mode listen legacy pools leases cfg = Inr sv \<Longrightarrow> server_ok sv"
  by (auto simp: new_server_def Let_def server_ok_def split: if_splits option.splits)

lemma seven_eighths:
  assumes "0 \<le> (n :: int)"
  shows "n div 2 \<le> n * 7 div 8 \<and> n * 7 div 8 \<le> n"
proof -
  have "n * 4 div 8 = n div 2" by (simp add: div_mult_mult2 [of 4 n 2, simplified])
  moreover have "n * 4 div 8 \<le> n * 7 div 8" "n * 7 div 8 \<le> n * 8 div 8"
    using assms by (auto intro!: zdiv_mono1)
  ultimately show ?thesis by simp
qed

text \<open>
  The renewal timers of a reply are ordered: T1 is half and T2 seven eighths of the lease time,
  for every lease time up to 613566756 seconds, above which the product by seven overflows.
\<close>

theorem lease_timers_ordered:
  assumes "uint (p_lease_sec p) \<le> 613566756"
  shows "\<exists>t1 t2. {OptRenewTime (u32be t1), OptRebindTime (u32be t2), OptLeaseTime (uint (p_lease_sec p) * second)}
      \<subseteq> set (m_options (apply_lease_options p m)) \<and>
    uint t1 = uint (p_lease_sec p) div 2 \<and> uint t2 = uint (p_lease_sec p) * 7 div 8 \<and>
    uint t1 \<le> uint t2 \<and> uint t2 \<le> uint (p_lease_sec p)"
proof -
  let ?L = "p_lease_sec p"
  have "uint (?L * 7) = uint ?L * 7"
    using assms by (simp add: uint_word_ariths take_bit_int_eq_self)
  then have "uint (?L * 7 div 8) = uint ?L * 7 div 8" "uint (?L div 2) = uint ?L div 2"
    by (simp_all add: uint_div)
  moreover have "uint ?L div 2 \<le> uint ?L * 7 div 8 \<and> uint ?L * 7 div 8 \<le> uint ?L"
    by (rule seven_eighths) simp
  ultimately show ?thesis
    by - (rule exI [where x = "?L div 2"], rule exI [where x = "?L * 7 div 8"],
      simp add: apply_lease_options_def lease_duration_def Let_def)
qed

text \<open>
  The boot server on port 4011 answers only first-stage PXE clients of a known architecture,
  with an ACK that confirms the client's own address and names the boot file of its architecture
  and this server; iPXE and other clients get no answer.
\<close>

theorem bsdp_answers_pxe_only:
  assumes "reply_lib_ok nr"
  shows "(\<forall>m. build_bsdp_reply nr req ip = Send m \<longrightarrow>
      m_type m = Ack \<and> m_yiaddr m = rq_ciaddr req \<and> m_siaddr m = ip \<and> Some (m_file m) = select_bootfile req \<and>
      is_pxe_client req \<and> \<not> is_ipxe req) \<and>
    (is_ipxe req \<or> \<not> is_pxe_client req \<or> select_bootfile req = None \<longrightarrow> build_bsdp_reply nr req ip = Silent)"
  using reply_lib_okD [OF assms]
  by (auto simp: build_bsdp_reply_def echo_machine_id_def Let_def split: option.splits sum.splits)

subsection \<open>A concrete server\<close>

definition demo_pools :: subnet_pools where
  "demo_pools = projr (new_subnet_pools [demo_local, demo_relay ''192.168.1.0/24''])"

definition demo_reply :: reply_lib where
  "demo_reply req mt ip = Inr \<lparr>m_type = mt, m_yiaddr = [], m_siaddr = ip, m_flags = 0, m_file = [],
     m_sname = [], m_options = []\<rparr>"

definition demo_cfg :: server_config where
  "demo_cfg = \<lparr>sc_server_ip = ''10.0.0.2'', sc_http_url = ''http://10.0.0.2/boot/ipxe'', sc_reply_target = ''giaddr''\<rparr>"

definition demo_req :: "msg_type \<Rightarrow> 8 word \<Rightarrow> net_ip \<Rightarrow> dhcp_req" where
  "demo_req mt hw gi = \<lparr>rq_type = mt, rq_hwaddr = [2, 0, 0, 0, 0, hw], rq_giaddr = gi, rq_ciaddr = [0, 0, 0, 0],
     rq_flags = 0, rq_hostname = ''node'', rq_class_id = ''PXEClient:Arch:00007'', rq_user_class = [],
     rq_archs = [7], rq_requested_ip = [], rq_machine_id = [1], rq_broadcast = False\<rparr>"

abbreviation demo_ip :: net_ip where
  "demo_ip \<equiv> [10, 0, 0, 2]"

abbreviation demo_server :: "lease list dhcp_server" where
  "demo_server \<equiv> full_server no_faults 0 demo_cfg demo_ip demo_pools"

abbreviation demo_giaddr :: net_ip where
  "demo_giaddr \<equiv> [192, 168, 1, 1]"

lemma demo_reply_ok: "reply_lib_ok demo_reply"
  by (simp add: reply_lib_ok_def demo_reply_def)

lemma demo_no_wrap: "no_wrap demo_pools"
  by code_simp

lemma lease_inv_Nil: "lease_inv []"
  by (simp add: lease_inv_def)

text \<open>The row the client 02:00:00:00:00:01 holds after the OFFER of the demo server.\<close>

definition demo_lease :: lease where
  "demo_lease = \<lparr>l_mac = ''02:00:00:00:00:01'', l_ip = ''192.168.1.100'', l_hostname = ''node'', l_state = Offered,
     l_expires = 60 * second, l_created = 0, l_updated = 0\<rparr>"

lemma demo_offer:
  "\<exists>m d. handle demo_reply demo_server PeerNil (demo_req Discover 1 demo_giaddr) [] = Some (Wrote m d, [demo_lease])"
proof -
  let ?h = "handle demo_reply demo_server PeerNil (demo_req Discover 1 demo_giaddr) []"
  have "case ?h of Some (Wrote m d, t) \<Rightarrow> t = [demo_lease] | _ \<Rightarrow> False"
    by code_simp
  then show ?thesis
    by (auto split: option.splits prod.splits handled.splits)
qed

lemma handle_total_witness:
  "\<exists>h t'. handle demo_reply demo_server PeerNil (demo_req Discover 1 demo_giaddr) [] = Some (h, t') \<and>
    h \<noteq> Crashed \<and> lease_inv t'"
  by (rule handle_total [OF lease_inv_Nil demo_no_wrap])

lemma offer_from_routed_pool_witness:
  "\<exists>m :: dhcp_msg. m_type m = Offer \<and> (\<exists>p w. resolve_pool (demo_req Discover 1 demo_giaddr) (Some demo_pools) = Some p \<and>
    m_yiaddr m = ip4_bytes w \<and> pool_contains p (Addr4 w) \<and> show_ip4 w \<notin> set (p_exclude p) \<and>
    recorded [demo_lease] (hw_string (rq_hwaddr (demo_req Discover 1 demo_giaddr))) (show_ip4 w))"
proof -
  obtain m d where h: "handle demo_reply demo_server PeerNil (demo_req Discover 1 demo_giaddr) []
      = Some (Wrote m d, [demo_lease])"
    using demo_offer by auto
  have "rq_type (demo_req Discover 1 demo_giaddr) = Discover"
    by (simp add: demo_req_def)
  from offer_from_routed_pool [OF demo_reply_ok lease_inv_Nil demo_no_wrap h this] show ?thesis
    by blast
qed

lemma demo_lease_inv: "lease_inv [demo_lease]"
proof -
  have "show_ip4 (ip4_of 192 168 1 100) = ''192.168.1.100''" by code_simp
  then have "ip_text ''192.168.1.100''" unfolding ip_text_def by metis
  moreover have "normalize_mac ''02:00:00:00:00:01'' = ''02:00:00:00:00:01''" by code_simp
  ultimately show ?thesis by (simp add: lease_inv_def demo_lease_def keyed_def)
qed

lemma ack_only_recorded_address_witness:
  "\<exists>(m :: dhcp_msg) p a t'. m_type m = Ack \<and> resolve_pool (demo_req Request 1 demo_giaddr) (Some demo_pools) = Some p \<and>
    m_yiaddr m = to4 (parse_ip a) \<and> recorded [demo_lease] ''02:00:00:00:00:01'' a \<and>
    recorded t' ''02:00:00:00:00:01'' a"
proof -
  let ?req = "demo_req Request 1 demo_giaddr"
  have "case handle demo_reply demo_server PeerNil ?req [demo_lease] of
      Some (Wrote m d, t) \<Rightarrow> m_type m = Ack | _ \<Rightarrow> False"
    by code_simp
  then obtain m d t' where h: "handle demo_reply demo_server PeerNil ?req [demo_lease] = Some (Wrote m d, t')"
    and ack: "m_type m = Ack"
    by (auto split: option.splits prod.splits handled.splits)
  have mac: "hw_string (rq_hwaddr ?req) = ''02:00:00:00:00:01''" by code_simp
  have "rq_type ?req = Request" by (simp add: demo_req_def)
  from ack_only_recorded_address [OF demo_reply_ok demo_lease_inv h this] ack show ?thesis
    unfolding mac by auto
qed

lemma unknown_relay_ignored_witness:
  "handle demo_reply (full_server no_faults 0 demo_cfg demo_ip demo_pools) PeerNil
     (demo_req Discover 1 (ip4_bytes (ip4_of 192 168 2 1))) [] = Some (NoReply, [])"
proof (rule unknown_relay_ignored)
  show "rq_giaddr (demo_req Discover 1 (ip4_bytes (ip4_of 192 168 2 1))) = ip4_bytes (ip4_of 192 168 2 1)"
    by (simp add: demo_req_def)
  show "ip4_of 192 168 2 1 \<noteq> 0" by code_simp
  have "list_all (\<lambda>p. \<not> pool_serves p (ip4_of 192 168 2 1)) (sp_relay demo_pools)" by code_simp
  then show "\<forall>p \<in> set (sp_relay demo_pools). \<not> pool_serves p (ip4_of 192 168 2 1)"
    by (simp add: list_all_iff)
qed

definition demo_proxy :: "lease list dhcp_server" where
  "demo_proxy = \<lparr>sv_cfg = demo_cfg, sv_srv_ip = demo_ip, sv_mode = ''proxy'', sv_pools = None, sv_leases = None\<rparr>"

lemma proxy_never_leases_witness:
  "\<exists>m d. handle demo_reply demo_proxy PeerNil (demo_req Discover 1 [0, 0, 0, 0]) [] = Some (Wrote m d, []) \<and>
    m_yiaddr m = ipv4_zero \<and> m_type m = Offer"
proof -
  let ?req = "demo_req Discover 1 [0, 0, 0, 0]"
  have "case handle demo_reply demo_proxy PeerNil ?req [] of Some (Wrote m d, t) \<Rightarrow> t = [] | _ \<Rightarrow> False"
    by code_simp
  then obtain m d where h: "handle demo_reply demo_proxy PeerNil ?req [] = Some (Wrote m d, [])"
    by (auto split: option.splits prod.splits handled.splits)
  have "sv_mode demo_proxy \<noteq> ''full''" by (simp add: demo_proxy_def)
  from proxy_never_leases [OF demo_reply_ok this h] h show ?thesis
    by (auto simp: demo_req_def)
qed

definition demo_packet :: packet where
  "demo_packet = \<lparr>pk_faults = no_faults, pk_now = 0, pk_peer = PeerNil, pk_req = demo_req Discover 2 demo_giaddr\<rparr>"

lemma lease_exclusive_until_expiry_witness:
  "\<exists>t'. serve_all demo_reply demo_cfg demo_ip demo_pools [demo_packet] [demo_lease] = Some t' \<and>
    demo_lease \<in> set t' \<and> length t' = 2 \<and> (\<forall>q \<in> set t'. l_ip q = l_ip demo_lease \<longrightarrow> q = demo_lease)"
proof -
  have "case serve_all demo_reply demo_cfg demo_ip demo_pools [demo_packet] [demo_lease] of
      Some t \<Rightarrow> length t = 2 | None \<Rightarrow> False"
    by code_simp
  then obtain t' where s: "serve_all demo_reply demo_cfg demo_ip demo_pools [demo_packet] [demo_lease] = Some t'"
    "length t' = 2"
    by (auto split: option.splits)
  have mac: "normalize_mac (hw_string (rq_hwaddr (pk_req demo_packet))) = ''02:00:00:00:00:02''"
    by code_simp
  have "live 0 demo_lease" by (simp add: live_def demo_lease_def unix_def second_def)
  then have "\<forall>k \<in> set [demo_packet]. live (pk_now k) demo_lease \<and>
      l_mac demo_lease \<noteq> normalize_mac (hw_string (rq_hwaddr (pk_req k)))"
    using mac by (simp add: demo_packet_def) (simp add: demo_lease_def)
  from lease_exclusive_until_expiry [OF demo_lease_inv demo_no_wrap _ this s(1)] s show ?thesis
    by auto
qed

lemma lease_timers_ordered_witness:
  "\<exists>t1 t2. uint t1 = 43200 \<and> uint t2 = 75600 \<and> {OptRenewTime (u32be t1), OptRebindTime (u32be t2)}
    \<subseteq> set (m_options (apply_lease_options (hd (sp_relay demo_pools)) (projr (demo_reply (demo_req Discover 1 []) Offer demo_ip))))"
proof -
  have "p_lease_sec (hd (sp_relay demo_pools)) = 86400" by code_simp
  with lease_timers_ordered [of "hd (sp_relay demo_pools)" "projr (demo_reply (demo_req Discover 1 []) Offer demo_ip)"] show ?thesis
    by (simp del: insert_subset) (meson insert_subset)
qed

lemma bsdp_answers_pxe_only_witness:
  "\<exists>m. build_bsdp_reply demo_reply (demo_req Request 1 [0, 0, 0, 0]) demo_ip = Send m \<and> m_type m = Ack \<and>
    Some (m_file m) = select_bootfile (demo_req Request 1 [0, 0, 0, 0])"
proof -
  have "case build_bsdp_reply demo_reply (demo_req Request 1 [0, 0, 0, 0]) demo_ip of Send m \<Rightarrow> True | _ \<Rightarrow> False"
    by code_simp
  then obtain m where "build_bsdp_reply demo_reply (demo_req Request 1 [0, 0, 0, 0]) demo_ip = Send m"
    by (auto split: outcome.splits)
  with bsdp_answers_pxe_only [OF demo_reply_ok] show ?thesis by blast
qed

text \<open>
  Above 613566756 seconds the product of T2 overflows: a pool with a lease time of 613566757
  seconds sends a rebinding time of zero, before the renewal time.
\<close>

theorem rebind_timer_overflows:
  "OptRebindTime [0, 0, 0, 0] \<in> set (m_options (apply_lease_options (p\<lparr>p_lease_sec := 613566757\<rparr>) m))"
proof -
  have "u32be (613566757 * 7 div 8) = [0, 0, 0, 0]" by code_simp
  then show ?thesis by (simp add: apply_lease_options_def Let_def)
qed

text \<open>
  A REQUEST that names no address (no option 50 and no client address, iPXE's second stage) is
  acknowledged with the recorded address of the client even when that address is not in the pool
  the packet was routed to: a client that leased 192.168.1.100 through a relay and then asks on the
  controller's own segment is told to use it with the gateway and the netmask of the local pool.
\<close>

theorem ack_ignores_routed_pool:
  "case handle demo_reply demo_server PeerNil (demo_req Request 1 [0, 0, 0, 0]) [demo_lease] of
     Some (Wrote m d, t') \<Rightarrow> m_type m = Ack \<and> m_yiaddr m = [192, 168, 1, 100] \<and>
       OptRouter [10, 0, 0, 1] \<in> set (m_options m) \<and>
       \<not> pool_contains (sp_local demo_pools) (Addr4 (ip4_of 192 168 1 100))
   | _ \<Rightarrow> False"
  by code_simp

end
