(* ===== verification/Subnet_Store.thy ===== *)
theory Subnet_Store
  imports Go_Net
begin

text \<open>
  \<open>internal/subnets/validate.go\<close> and \<open>store.go\<close>: the subnet catalog. The state is the \<open>subnets\<close>
  table; a row carries the decoded DNS list and range list (the columns hold their JSON encoding).
  The tables of \<open>\p{L}\<close> and \<open>\p{N}\<close> in the name pattern are the parameter \<open>ln\<close>; the random
  identifier is an argument. Each operation takes the driver's fault plan.
\<close>

subsection \<open>Rows and inputs\<close>

record dhcp_range =
  dr_start :: string
  dr_end :: string

record subnet =
  sn_id :: string
  sn_name :: string
  sn_description :: string
  sn_cidr :: string
  sn_gateway :: string
  sn_dns :: "string list"
  sn_vlan :: int
  sn_ranges :: "dhcp_range list"
  sn_created :: time
  sn_updated :: time
  sn_created_by :: string
  sn_updated_by :: string

record subnet_create =
  sc_name :: string
  sc_description :: string
  sc_cidr :: string
  sc_gateway :: string
  sc_dns :: "string list"
  sc_vlan :: int
  sc_ranges :: "dhcp_range list"
  sc_start :: string
  sc_end :: string
  sc_created_by :: string

text \<open>A nil pointer or slice is \<open>None\<close>.\<close>

record subnet_update =
  su_name :: "string option"
  su_description :: "string option"
  su_cidr :: "string option"
  su_gateway :: "string option"
  su_dns :: "string list option"
  su_vlan :: "int option"
  su_ranges :: "dhcp_range list option"
  su_start :: "string option"
  su_end :: "string option"
  su_updated_by :: string

datatype subnet_error =
    SubnetName string
  | SubnetDescription nat
  | CidrSyntax string
  | CidrNotV4 string
  | CidrBits string
  | GatewaySyntax string
  | GatewayNotV4 string
  | GatewayOutside string
  | GatewayIsNetwork string
  | GatewayIsBroadcast string
  | DnsSyntax nat string
  | DnsNotV4 nat string
  | VlanRange int
  | PoolHalf
  | PoolIncomplete nat
  | PoolStart nat string
  | PoolEnd nat string
  | PoolNotHost nat
  | PoolIsBroadcast nat
  | PoolOrder nat
  | PoolOverlap nat
  | CreatedByRequired
  | RandomFailed string
  | DuplicateName string
  | NameUsed string
  | SubnetBadId string
  | SubnetNotFound
  | SubnetDb string string

subsection \<open>Validation\<close>

definition show_prefix4 :: "prefix4 \<Rightarrow> string" where
  "show_prefix4 p = show_ip4 (fst p) @ ''/'' @ digits_nat (snd p)"

definition validate_cidr :: "string \<Rightarrow> (subnet_error, string \<times> prefix4) result" where
  "validate_cidr s0 =
    (let s = trim_space s0 in
     case parse_prefix s of
       None \<Rightarrow> Inl (CidrSyntax s)
     | Some (Prefix6 _ _) \<Rightarrow> Inl (CidrNotV4 s)
     | Some (Prefix4 p) \<Rightarrow>
       (if snd p < 1 \<or> 32 < snd p then Inl (CidrBits s)
        else let canon = prefix_masked p in Inr (show_prefix4 canon, canon)))"

text \<open>The host bits set, for a prefix that has a broadcast address.\<close>

definition broadcast_of :: "prefix4 \<Rightarrow> addr" where
  "broadcast_of p = (if 31 \<le> snd p then AddrZero else Addr4 (fst p OR mask (32 - snd p)))"

definition is_broadcast_of :: "prefix4 \<Rightarrow> ip4 \<Rightarrow> bool" where
  "is_broadcast_of p w \<longleftrightarrow> broadcast_of p \<noteq> AddrZero \<and> Addr4 w = broadcast_of p"

definition validate_gateway :: "string \<Rightarrow> prefix4 \<Rightarrow> (subnet_error, string) result" where
  "validate_gateway s0 p =
    (let s = trim_space s0 in
     case parse_addr s of
       None \<Rightarrow> Inl (GatewaySyntax s)
     | Some (Addr4 w) \<Rightarrow>
       (if \<not> prefix_contains p w then Inl (GatewayOutside s)
        else if w = fst p then Inl (GatewayIsNetwork s)
        else if is_broadcast_of p w then Inl (GatewayIsBroadcast s)
        else Inr (show_ip4 w))
     | Some _ \<Rightarrow> Inl (GatewayNotV4 s))"

fun validate_dns :: "nat \<Rightarrow> string list \<Rightarrow> string list \<Rightarrow> (subnet_error, string list) result" where
  "validate_dns i out [] = Inr out"
| "validate_dns i out (raw # rs) =
    (let s = trim_space raw in
     if s = [] then validate_dns (Suc i) out rs
     else case parse_addr s of
       None \<Rightarrow> Inl (DnsSyntax i s)
     | Some (Addr4 w) \<Rightarrow>
         (if show_ip4 w \<in> set out then validate_dns (Suc i) out rs
          else validate_dns (Suc i) (out @ [show_ip4 w]) rs)
     | Some _ \<Rightarrow> Inl (DnsNotV4 i s))"

definition validate_vlan :: "int \<Rightarrow> subnet_error option" where
  "validate_vlan v =
    (if v = 0 then None else if v < 1 \<or> 4094 < v then Some (VlanRange v) else None)"

text \<open>One bound of a range must be a host address of the network.\<close>

definition check_bound :: "nat \<Rightarrow> prefix4 \<Rightarrow> ip4 \<Rightarrow> subnet_error option" where
  "check_bound i p w =
    (if \<not> prefix_contains p w \<or> w = fst p then Some (PoolNotHost i)
     else if is_broadcast_of p w then Some (PoolIsBroadcast i)
     else None)"

text \<open>A later range is compared with the canonical text of the ranges before it.\<close>

definition clashes :: "ip4 \<Rightarrow> ip4 \<Rightarrow> dhcp_range \<Rightarrow> bool" where
  "clashes a b prev =
    (let ps = (case parse_addr (dr_start prev) of None \<Rightarrow> AddrZero | Some x \<Rightarrow> x);
         pe = (case parse_addr (dr_end prev) of None \<Rightarrow> AddrZero | Some x \<Rightarrow> x)
     in addr_le (Addr4 a) pe \<and> addr_le ps (Addr4 b))"

fun normalize_each :: "nat \<Rightarrow> prefix4 \<Rightarrow> dhcp_range list \<Rightarrow> dhcp_range list \<Rightarrow> (subnet_error, dhcp_range list) result"
where
  "normalize_each i p out [] = Inr out"
| "normalize_each i p out (r # rs) =
    (let s = trim_space (dr_start r); e = trim_space (dr_end r) in
     if s = [] \<or> e = [] then Inl (PoolIncomplete i)
     else case parse_addr s of
       Some (Addr4 a) \<Rightarrow>
         (case parse_addr e of
            Some (Addr4 b) \<Rightarrow>
              (case check_bound i p a of
                 Some err \<Rightarrow> Inl err
               | None \<Rightarrow>
                 (case check_bound i p b of
                    Some err \<Rightarrow> Inl err
                  | None \<Rightarrow>
                    (if b < a then Inl (PoolOrder i)
                     else if list_ex (clashes a b) out then Inl (PoolOverlap i)
                     else normalize_each (Suc i) p (out @ [\<lparr>dr_start = show_ip4 a, dr_end = show_ip4 b\<rparr>]) rs)))
          | _ \<Rightarrow> Inl (PoolEnd i e))
     | _ \<Rightarrow> Inl (PoolStart i s))"

definition normalize_ranges ::
  "dhcp_range list \<Rightarrow> string \<Rightarrow> string \<Rightarrow> prefix4 \<Rightarrow> (subnet_error, dhcp_range list) result" where
  "normalize_ranges ranges ls0 le0 p =
    (let ls = trim_space ls0; le = trim_space le0 in
     if ranges = [] then
       (if ls = [] \<and> le = [] then Inr []
        else if ls = [] \<or> le = [] then Inl PoolHalf
        else normalize_each 0 p [] [\<lparr>dr_start = ls, dr_end = le\<rparr>])
     else normalize_each 0 p [] ranges)"

datatype host_error =
    HostCidr subnet_error
  | HostSyntax string
  | HostNotV4 string
  | HostOutside string
  | HostIsNetwork string
  | HostIsBroadcast string
  | HostIsGateway string

definition host_in_subnet :: "string \<Rightarrow> string \<Rightarrow> string \<Rightarrow> host_error option" where
  "host_in_subnet ip cidr gateway =
    (case validate_cidr cidr of
       Inl e \<Rightarrow> Some (HostCidr e)
     | Inr (_, p) \<Rightarrow>
       (case parse_addr (trim_space ip) of
          None \<Rightarrow> Some (HostSyntax ip)
        | Some (Addr4 w) \<Rightarrow>
          (if \<not> prefix_contains p w then Some (HostOutside ip)
           else if w = fst p then Some (HostIsNetwork ip)
           else if is_broadcast_of p w then Some (HostIsBroadcast ip)
           else if gateway \<noteq> [] \<and> parse_addr (trim_space gateway) = Some (Addr4 w) then Some (HostIsGateway ip)
           else None)
        | Some _ \<Rightarrow> Some (HostNotV4 ip)))"

text \<open>\<open>[\p{L}\p{N}][\p{L}\p{N}._-]{0,63}\<close> on the runes of the text.\<close>

definition subnet_name_match :: "(nat \<Rightarrow> bool) \<Rightarrow> string \<Rightarrow> bool" where
  "subnet_name_match ln s =
    (case runes s of
       [] \<Rightarrow> False
     | c # cs \<Rightarrow> ln c \<and> length cs \<le> 63 \<and>
         list_all (\<lambda>c. ln c \<or> c = 46 \<or> c = 95 \<or> c = 45) cs)"

subsection \<open>Statements\<close>

definition max_description :: nat where
  "max_description = 1024"

text \<open>\<open>INSERT\<close>: refused by \<open>PRIMARY KEY(id)\<close> or \<open>UNIQUE(name)\<close> with the same driver text.\<close>

definition sql_insert_subnet :: "subnet \<Rightarrow> subnet list \<Rightarrow> subnet list option" where
  "sql_insert_subnet r t =
    (if \<exists>q \<in> set t. sn_id q = sn_id r \<or> sn_name q = sn_name r then None else Some (ins_row r t))"

text \<open>\<open>UPDATE ... WHERE id = ?\<close>: refused when the new name is another row's.\<close>

definition sql_update_subnet :: "string \<Rightarrow> subnet \<Rightarrow> subnet list \<Rightarrow> subnet list option" where
  "sql_update_subnet i r t =
    (if (\<exists>q \<in> set t. sn_id q = i) \<and> (\<exists>q \<in> set t. sn_id q \<noteq> i \<and> sn_name q = sn_name r) then None
     else Some (upd_where (\<lambda>q. sn_id q = i)
       (\<lambda>q. q\<lparr>sn_name := sn_name r, sn_description := sn_description r, sn_cidr := sn_cidr r,
              sn_gateway := sn_gateway r, sn_dns := sn_dns r, sn_vlan := sn_vlan r,
              sn_ranges := sn_ranges r, sn_updated := sn_updated r, sn_updated_by := sn_updated_by r\<rparr>) t))"

subsection \<open>Operations\<close>

definition subnet_fields ::
  "subnet_create \<Rightarrow> (subnet_error, string \<times> string \<times> string list \<times> dhcp_range list) result" where
  "subnet_fields inp =
    (case validate_cidr (sc_cidr inp) of
       Inl e \<Rightarrow> Inl e
     | Inr (cidr, p) \<Rightarrow>
       (case validate_gateway (sc_gateway inp) p of
          Inl e \<Rightarrow> Inl e
        | Inr gw \<Rightarrow>
          (case validate_dns 0 [] (sc_dns inp) of
             Inl e \<Rightarrow> Inl e
           | Inr dns \<Rightarrow>
             (case validate_vlan (sc_vlan inp) of
                Some e \<Rightarrow> Inl e
              | None \<Rightarrow>
                (case normalize_ranges (sc_ranges inp) (sc_start inp) (sc_end inp) p of
                   Inl e \<Rightarrow> Inl e
                 | Inr rs \<Rightarrow> Inr (cidr, gw, dns, rs))))))"

definition create_subnet ::
  "(nat \<Rightarrow> bool) \<Rightarrow> faults \<Rightarrow> time \<Rightarrow> (string, string) result \<Rightarrow> subnet_create \<Rightarrow> subnet list \<Rightarrow>
   (subnet_error, subnet) result \<times> subnet list"
where
  "create_subnet ln fl now rid inp t =
    (let name = trim_space (sc_name inp); descr = trim_space (sc_description inp) in
     if \<not> subnet_name_match ln name then (Inl (SubnetName name), t)
     else if max_description < length descr then (Inl (SubnetDescription (length descr)), t)
     else case subnet_fields inp of
       Inl e \<Rightarrow> (Inl e, t)
     | Inr (cidr, gw, dns, rs) \<Rightarrow>
       (if sc_created_by inp = [] then (Inl CreatedByRequired, t)
        else case rid of
          Inl e \<Rightarrow> (Inl (RandomFailed e), t)
        | Inr i \<Rightarrow>
          (let row = \<lparr>sn_id = i, sn_name = name, sn_description = descr, sn_cidr = cidr, sn_gateway = gw,
                      sn_dns = dns, sn_vlan = sc_vlan inp, sn_ranges = rs,
                      sn_created = from_unix (unix now), sn_updated = from_unix (unix now),
                      sn_created_by = sc_created_by inp, sn_updated_by = sc_created_by inp\<rparr>
           in case fl 0 of
                Some msg \<Rightarrow>
                  (Inl (if contains_sub ''UNIQUE constraint failed'' msg then DuplicateName name
                        else SubnetDb ''insert subnet'' msg), t)
              | None \<Rightarrow>
                (case sql_insert_subnet row t of
                   None \<Rightarrow> (Inl (DuplicateName name), t)
                 | Some t' \<Rightarrow> (Inr row, t')))))"

definition get_subnet :: "faults \<Rightarrow> string \<Rightarrow> subnet list \<Rightarrow> (subnet_error, subnet) result" where
  "get_subnet fl i0 t =
    (let i = lower_trim i0 in
     if \<not> hex32_match i then Inl (SubnetBadId i)
     else case fl 0 of
       Some msg \<Rightarrow> Inl (SubnetDb ''scan subnet'' msg)
     | None \<Rightarrow> (case sel_row (\<lambda>r. sn_id r = i) t of None \<Rightarrow> Inl SubnetNotFound | Some r \<Rightarrow> Inr r))"

definition get_subnet_by_name :: "faults \<Rightarrow> string \<Rightarrow> subnet list \<Rightarrow> (subnet_error, subnet) result" where
  "get_subnet_by_name fl name t =
    (case fl 0 of
       Some msg \<Rightarrow> Inl (SubnetDb ''scan subnet'' msg)
     | None \<Rightarrow>
       (case sel_row (\<lambda>r. sn_name r = trim_space name) t of None \<Rightarrow> Inl SubnetNotFound | Some r \<Rightarrow> Inr r))"

text \<open>\<open>ORDER BY created_at DESC, id DESC\<close>.\<close>

definition newest_first :: "subnet list \<Rightarrow> subnet list" where
  "newest_first t = rev (sort_key sn_created (sort_key sn_id t))"

definition list_subnets :: "faults \<Rightarrow> subnet list \<Rightarrow> (subnet_error, subnet list) result" where
  "list_subnets fl t =
    (case fl 0 of Some msg \<Rightarrow> Inl (SubnetDb ''list subnets'' msg) | None \<Rightarrow> Inr (newest_first t))"

text \<open>The name change of \<open>Update\<close>: the new name, after the check that no other row has it.\<close>

definition new_name ::
  "(nat \<Rightarrow> bool) \<Rightarrow> faults \<Rightarrow> string \<Rightarrow> string option \<Rightarrow> subnet \<Rightarrow> subnet list \<Rightarrow> (subnet_error, string) result"
where
  "new_name ln fl i raw cur t =
    (case raw of
       None \<Rightarrow> Inr (sn_name cur)
     | Some raw \<Rightarrow>
       (let name = trim_space raw in
        if \<not> subnet_name_match ln name then Inl (SubnetName name)
        else if name = sn_name cur then Inr name
        else case fl 1 of
          Some msg \<Rightarrow> Inl (SubnetDb ''name check'' msg)
        | None \<Rightarrow>
          (case sel_row (\<lambda>r. sn_name r = name) t of
             Some r \<Rightarrow> if sn_id r \<noteq> i then Inl (NameUsed name) else Inr name
           | None \<Rightarrow> Inr name)))"

text \<open>The ranges \<open>Update\<close> validates: the new list, or the legacy pair over the current first range.\<close>

definition edited_ranges :: "subnet_update \<Rightarrow> subnet \<Rightarrow> dhcp_range list" where
  "edited_ranges u cur =
    (case su_ranges u of
       Some rs \<Rightarrow> rs
     | None \<Rightarrow>
       (if su_start u = None \<and> su_end u = None then sn_ranges cur
        else
          (let first = (case sn_ranges cur of [] \<Rightarrow> \<lparr>dr_start = [], dr_end = []\<rparr> | r # _ \<Rightarrow> r);
               ls = (case su_start u of None \<Rightarrow> dr_start first | Some s \<Rightarrow> trim_space s);
               le = (case su_end u of None \<Rightarrow> dr_end first | Some s \<Rightarrow> trim_space s)
           in if ls \<noteq> [] \<and> le \<noteq> [] then [\<lparr>dr_start = ls, dr_end = le\<rparr>] else [])))"

definition edited_subnet :: "subnet_update \<Rightarrow> subnet \<Rightarrow> (subnet_error, subnet) result" where
  "edited_subnet u cur =
    (let descr = (case su_description u of None \<Rightarrow> sn_description cur | Some d \<Rightarrow> trim_space d) in
     if su_description u \<noteq> None \<and> max_description < length descr then Inl (SubnetDescription (length descr))
     else case validate_cidr (case su_cidr u of None \<Rightarrow> sn_cidr cur | Some c \<Rightarrow> c) of
       Inl e \<Rightarrow> Inl e
     | Inr (cidr, p) \<Rightarrow>
       (case validate_gateway (case su_gateway u of None \<Rightarrow> sn_gateway cur | Some g \<Rightarrow> g) p of
          Inl e \<Rightarrow> Inl e
        | Inr gw \<Rightarrow>
          (case (case su_dns u of None \<Rightarrow> Inr (sn_dns cur) | Some d \<Rightarrow> validate_dns 0 [] d) of
             Inl e \<Rightarrow> Inl e
           | Inr dns \<Rightarrow>
             (case (case su_vlan u of None \<Rightarrow> None | Some v \<Rightarrow> validate_vlan v) of
                Some e \<Rightarrow> Inl e
              | None \<Rightarrow>
                (case normalize_ranges (edited_ranges u cur) [] [] p of
                   Inl e \<Rightarrow> Inl e
                 | Inr rs \<Rightarrow>
                   Inr (cur\<lparr>sn_description := descr, sn_cidr := cidr, sn_gateway := gw, sn_dns := dns,
                            sn_vlan := (case su_vlan u of None \<Rightarrow> sn_vlan cur | Some v \<Rightarrow> v),
                            sn_ranges := rs\<rparr>))))))"

definition update_subnet ::
  "(nat \<Rightarrow> bool) \<Rightarrow> faults \<Rightarrow> time \<Rightarrow> string \<Rightarrow> subnet_update \<Rightarrow> subnet list \<Rightarrow>
   (subnet_error, subnet) result \<times> subnet list"
where
  "update_subnet ln fl now i u t =
    (case get_subnet fl i t of
       Inl e \<Rightarrow> (Inl e, t)
     | Inr cur \<Rightarrow>
       (case new_name ln fl i (su_name u) cur t of
          Inl e \<Rightarrow> (Inl e, t)
        | Inr name \<Rightarrow>
          (case edited_subnet u (cur\<lparr>sn_name := name\<rparr>) of
             Inl e \<Rightarrow> (Inl e, t)
           | Inr cur' \<Rightarrow>
             (let row = cur'\<lparr>sn_updated := from_unix (unix now),
                     sn_updated_by := (if su_updated_by u = [] then sn_updated_by cur else su_updated_by u)\<rparr>
              in case fl 2 of
                   Some msg \<Rightarrow> (Inl (SubnetDb ''update subnet'' msg), t)
                 | None \<Rightarrow>
                   (case sql_update_subnet i row t of
                      None \<Rightarrow> (Inl (SubnetDb ''update subnet'' ''UNIQUE constraint failed: subnets.name''), t)
                    | Some t' \<Rightarrow> (Inr row, t'))))))"

definition delete_subnet :: "faults \<Rightarrow> string \<Rightarrow> subnet list \<Rightarrow> subnet_error option \<times> subnet list" where
  "delete_subnet fl i0 t =
    (let i = lower_trim i0; mine = (\<lambda>r. sn_id r = i) in
     if \<not> hex32_match i then (Some (SubnetBadId i), t)
     else case fl 0 of
       Some msg \<Rightarrow> (Some (SubnetDb ''delete subnet'' msg), t)
     | None \<Rightarrow> (if hits mine t = 0 then (Some SubnetNotFound, t) else (None, del_where mine t)))"

subsection \<open>What the validators guarantee\<close>

definition host_addr :: "prefix4 \<Rightarrow> ip4 \<Rightarrow> bool" where
  "host_addr p w \<longleftrightarrow> prefix_contains p w \<and> w \<noteq> fst p \<and> \<not> is_broadcast_of p w"

text \<open>A canonical range of host addresses of the network.\<close>

definition host_range :: "prefix4 \<Rightarrow> dhcp_range \<Rightarrow> bool" where
  "host_range p r \<longleftrightarrow> (\<exists>a b. r = \<lparr>dr_start = show_ip4 a, dr_end = show_ip4 b\<rparr> \<and> a \<le> b \<and>
    host_addr p a \<and> host_addr p b)"

definition disjoint_ranges :: "dhcp_range \<Rightarrow> dhcp_range \<Rightarrow> bool" where
  "disjoint_ranges r s \<longleftrightarrow> (\<forall>a b c d. r = \<lparr>dr_start = show_ip4 a, dr_end = show_ip4 b\<rparr> \<and>
    s = \<lparr>dr_start = show_ip4 c, dr_end = show_ip4 d\<rparr> \<longrightarrow> b < c \<or> d < a)"

definition network_ok :: "prefix4 \<Rightarrow> bool" where
  "network_ok p \<longleftrightarrow> prefix_masked p = p \<and> 1 \<le> snd p \<and> snd p \<le> 32"

definition ranges_valid :: "prefix4 \<Rightarrow> dhcp_range list \<Rightarrow> bool" where
  "ranges_valid p rs \<longleftrightarrow> (\<forall>r \<in> set rs. host_range p r) \<and> sorted_wrt disjoint_ranges rs"

definition dns_valid :: "string list \<Rightarrow> bool" where
  "dns_valid ds \<longleftrightarrow> distinct ds \<and> (\<forall>d \<in> set ds. \<exists>w. d = show_ip4 w)"

definition subnet_valid :: "prefix4 \<Rightarrow> subnet \<Rightarrow> bool" where
  "subnet_valid p r \<longleftrightarrow> network_ok p \<and> sn_cidr r = show_prefix4 p \<and>
    (\<exists>g. sn_gateway r = show_ip4 g \<and> host_addr p g) \<and> dns_valid (sn_dns r) \<and>
    validate_vlan (sn_vlan r) = None \<and> ranges_valid p (sn_ranges r) \<and>
    length (sn_description r) \<le> max_description"

definition subnet_sound :: "subnet \<Rightarrow> bool" where
  "subnet_sound r \<longleftrightarrow> (\<exists>p. subnet_valid p r)"

definition subnets_inv :: "(nat \<Rightarrow> bool) \<Rightarrow> subnet list \<Rightarrow> bool" where
  "subnets_inv ln t \<longleftrightarrow> keyed sn_id t \<and> keyed sn_name t \<and>
    (\<forall>r \<in> set t. subnet_name_match ln (sn_name r) \<and> subnet_sound r)"

lemma prefix_masked_idem: "snd p \<le> 32 \<Longrightarrow> prefix_masked (prefix_masked p) = prefix_masked p"
  by (simp add: prefix_masked_def prefix_bits_masked)

lemma validate_cidr_ok:
  "validate_cidr s = Inr (c, p) \<Longrightarrow> network_ok p \<and> c = show_prefix4 p"
  by (auto simp: validate_cidr_def Let_def network_ok_def prefix_masked_idem
      split: option.splits prefix.splits if_splits)
    (auto simp: prefix_masked_def)

lemma validate_gateway_ok: "validate_gateway s p = Inr g \<Longrightarrow> \<exists>w. g = show_ip4 w \<and> host_addr p w"
  by (auto simp: validate_gateway_def Let_def host_addr_def split: option.splits addr.splits if_splits)

lemma validate_dns_ok: "validate_dns i out ds = Inr out' \<Longrightarrow> dns_valid out \<Longrightarrow> dns_valid out'"
proof (induction i out ds rule: validate_dns.induct)
  case (2 i out raw rs)
  then show ?case
    by (auto simp: Let_def dns_valid_def split: if_splits option.splits addr.splits)
qed simp

lemma check_bound_ok: "check_bound i p w = None \<longleftrightarrow> host_addr p w"
  by (auto simp: check_bound_def host_addr_def)

lemma clashes_canonical:
  "clashes a b \<lparr>dr_start = show_ip4 c, dr_end = show_ip4 d\<rparr> \<longleftrightarrow> a \<le> d \<and> c \<le> b"
  by (simp add: clashes_def)

lemma normalize_each_ok: "normalize_each i p out rs = Inr out' \<Longrightarrow> ranges_valid p out \<Longrightarrow> ranges_valid p out'"
proof (induction i p out rs rule: normalize_each.induct)
  case (2 i p out r rs)
  from "2.prems"(1) obtain a b where ab: "trim_space (dr_start r) \<noteq> []" "trim_space (dr_end r) \<noteq> []"
    "parse_addr (trim_space (dr_start r)) = Some (Addr4 a)" "parse_addr (trim_space (dr_end r)) = Some (Addr4 b)"
    "check_bound i p a = None" "check_bound i p b = None" "\<not> b < a" "\<not> list_ex (clashes a b) out"
    and rest: "normalize_each (Suc i) p (out @ [\<lparr>dr_start = show_ip4 a, dr_end = show_ip4 b\<rparr>]) rs = Inr out'"
    by (auto simp: Let_def split: if_splits option.splits addr.splits)
  have "ranges_valid p (out @ [\<lparr>dr_start = show_ip4 a, dr_end = show_ip4 b\<rparr>])"
  proof -
    have "disjoint_ranges q \<lparr>dr_start = show_ip4 a, dr_end = show_ip4 b\<rparr>" if "q \<in> set out" for q
      using that ab(8) by (auto simp: disjoint_ranges_def list_ex_iff clashes_canonical not_le)
    moreover have "host_range p \<lparr>dr_start = show_ip4 a, dr_end = show_ip4 b\<rparr>"
      using ab(5-7) by (auto simp: host_range_def check_bound_ok not_less)
    ultimately show ?thesis
      using "2.prems"(2) by (auto simp: ranges_valid_def sorted_wrt_append)
  qed
  with "2.IH" ab rest show ?case
    by simp
qed simp

lemma ranges_valid_Nil [simp]: "ranges_valid p []"
  by (simp add: ranges_valid_def)

lemma normalize_ranges_ok: "normalize_ranges rs ls le p = Inr out \<Longrightarrow> ranges_valid p out"
  using normalize_each_ok [where out = "[]" and i = 0]
  by (fastforce simp: normalize_ranges_def Let_def simp del: normalize_each.simps split: if_splits)

lemma subnet_fields_ok:
  assumes "subnet_fields inp = Inr (cidr, gw, dns, rs)"
  shows "\<exists>p. network_ok p \<and> cidr = show_prefix4 p \<and> (\<exists>g. gw = show_ip4 g \<and> host_addr p g) \<and> dns_valid dns \<and>
    validate_vlan (sc_vlan inp) = None \<and> ranges_valid p rs"
proof -
  from assms obtain p where "validate_cidr (sc_cidr inp) = Inr (cidr, p)"
    "validate_gateway (sc_gateway inp) p = Inr gw" "validate_dns 0 [] (sc_dns inp) = Inr dns"
    "validate_vlan (sc_vlan inp) = None" "normalize_ranges (sc_ranges inp) (sc_start inp) (sc_end inp) p = Inr rs"
    by (auto simp: subnet_fields_def split: sum.splits option.splits)
  then show ?thesis
    using validate_cidr_ok validate_gateway_ok validate_dns_ok [of 0 "[]"] normalize_ranges_ok
    by (intro exI [of _ p]) (auto simp: dns_valid_def)
qed

lemma edited_subnet_ok:
  assumes "edited_subnet u cur = Inr r" "subnet_sound cur"
  shows "subnet_sound r" "sn_id r = sn_id cur" "sn_name r = sn_name cur"
proof -
  from assms(1) obtain cidr p gw dns rs where
    f: "validate_cidr (case su_cidr u of None \<Rightarrow> sn_cidr cur | Some c \<Rightarrow> c) = Inr (cidr, p)"
    "validate_gateway (case su_gateway u of None \<Rightarrow> sn_gateway cur | Some g \<Rightarrow> g) p = Inr gw"
    "(case su_dns u of None \<Rightarrow> Inr (sn_dns cur) | Some d \<Rightarrow> validate_dns 0 [] d) = Inr dns"
    "(case su_vlan u of None \<Rightarrow> None | Some v \<Rightarrow> validate_vlan v) = None"
    "normalize_ranges (edited_ranges u cur) [] [] p = Inr rs"
    "\<not> (su_description u \<noteq> None \<and> max_description <
       length (case su_description u of None \<Rightarrow> sn_description cur | Some d \<Rightarrow> trim_space d))"
    and r: "r = cur\<lparr>sn_description := (case su_description u of None \<Rightarrow> sn_description cur | Some d \<Rightarrow> trim_space d),
        sn_cidr := cidr, sn_gateway := gw, sn_dns := dns,
        sn_vlan := (case su_vlan u of None \<Rightarrow> sn_vlan cur | Some v \<Rightarrow> v), sn_ranges := rs\<rparr>"
    unfolding edited_subnet_def Let_def by (auto split: sum.splits option.splits if_splits)
  have "dns_valid dns"
    using f(3) assms(2) validate_dns_ok [of 0 "[]" _ dns]
    by (auto simp: subnet_sound_def subnet_valid_def dns_valid_def split: option.splits)
  moreover have "length (sn_description r) \<le> max_description"
    using f(6) assms(2) by (auto simp: r subnet_sound_def subnet_valid_def split: option.splits)
  moreover have "validate_vlan (sn_vlan r) = None"
    using f(4) assms(2) by (auto simp: r subnet_sound_def subnet_valid_def split: option.splits)
  ultimately have "subnet_valid p r"
    using validate_cidr_ok [OF f(1)] validate_gateway_ok [OF f(2)] normalize_ranges_ok [OF f(5)]
    by (auto simp: subnet_valid_def r)
  then show "subnet_sound r"
    unfolding subnet_sound_def by (rule exI)
  show "sn_id r = sn_id cur" "sn_name r = sn_name cur"
    by (simp_all add: r)
qed

lemma get_subnet_Inr: "get_subnet fl i t = Inr r \<Longrightarrow> r \<in> set t \<and> sn_id r = lower_trim i"
  by (auto simp: get_subnet_def Let_def dest: sel_row_Some split: if_splits option.splits)

lemma new_name_ok:
  "new_name ln fl i raw cur t = Inr name \<Longrightarrow> subnet_name_match ln (sn_name cur) \<Longrightarrow> subnet_name_match ln name"
  by (auto simp: new_name_def Let_def split: option.splits if_splits)

lemma create_inv:
  assumes "subnets_inv ln t"
  shows "subnets_inv ln (snd (create_subnet ln fl now rid inp t))"
proof (cases "create_subnet ln fl now rid inp t")
  case (Pair res t')
  have "subnets_inv ln t'"
  proof (cases "t' = t")
    case False
    with Pair obtain cidr gw dns rs i where
      f: "subnet_fields inp = Inr (cidr, gw, dns, rs)" and
      name: "subnet_name_match ln (trim_space (sc_name inp))"
        "length (trim_space (sc_description inp)) \<le> max_description" and
      ins: "sql_insert_subnet \<lparr>sn_id = i, sn_name = trim_space (sc_name inp),
          sn_description = trim_space (sc_description inp), sn_cidr = cidr, sn_gateway = gw,
          sn_dns = dns, sn_vlan = sc_vlan inp, sn_ranges = rs,
          sn_created = from_unix (unix now), sn_updated = from_unix (unix now),
          sn_created_by = sc_created_by inp, sn_updated_by = sc_created_by inp\<rparr> t = Some t'"
      unfolding create_subnet_def Let_def
      by (auto split: if_splits sum.splits option.splits)
    have "subnet_sound \<lparr>sn_id = i, sn_name = trim_space (sc_name inp),
          sn_description = trim_space (sc_description inp), sn_cidr = cidr, sn_gateway = gw,
          sn_dns = dns, sn_vlan = sc_vlan inp, sn_ranges = rs,
          sn_created = from_unix (unix now), sn_updated = from_unix (unix now),
          sn_created_by = sc_created_by inp, sn_updated_by = sc_created_by inp\<rparr>"
    proof -
      obtain p where "network_ok p \<and> cidr = show_prefix4 p \<and> (\<exists>g. gw = show_ip4 g \<and> host_addr p g) \<and>
          dns_valid dns \<and> validate_vlan (sc_vlan inp) = None \<and> ranges_valid p rs"
        using subnet_fields_ok [OF f] by (elim exE)
      with name(2) show ?thesis
        unfolding subnet_sound_def subnet_valid_def by (intro exI [of _ p]) simp
    qed
    with ins name(1) assms show ?thesis
      by (auto simp: sql_insert_subnet_def subnets_inv_def split: if_splits intro!: keyed_ins)
  qed (use assms in simp)
  with Pair show ?thesis by simp
qed

lemma keyed_rename:
  assumes "keyed sn_id t" "keyed sn_name t" "\<And>q. sn_name (f q) = nm" 
    "\<And>q. q \<in> set t \<Longrightarrow> sn_id q \<noteq> i \<Longrightarrow> (\<exists>q \<in> set t. sn_id q = i) \<Longrightarrow> sn_name q \<noteq> nm"
  shows "keyed sn_name (upd_where (\<lambda>q. sn_id q = i) f t)"
  using assms
proof (induction t)
  case (Cons q t)
  show ?case
  proof (cases "sn_id q = i")
    case True
    then have "\<forall>r \<in> set t. sn_id r \<noteq> i"
      using Cons.prems(1) by (auto simp: keyed_def) (metis imageI)
    then have "upd_where (\<lambda>q. sn_id q = i) f t = t" "nm \<notin> sn_name ` set t"
      using Cons.prems(4) True by (auto intro!: upd_where_none)
    then show ?thesis
      using Cons.prems(2,3) True by (simp add: upd_where_def keyed_def)
  next
    case False
    have "keyed sn_name (upd_where (\<lambda>q. sn_id q = i) f t)"
      using Cons.prems by (intro Cons.IH) (auto simp: keyed_def)
    moreover have "sn_name q \<notin> sn_name ` set (upd_where (\<lambda>q. sn_id q = i) f t)"
    proof -
      have "sn_name q \<noteq> nm" if "x \<in> set t" "sn_id x = i" for x
        using Cons.prems(4) [of q] False that by auto
      then show ?thesis
        using Cons.prems(2,3) by (auto simp: set_upd_where keyed_def) blast
    qed
    moreover have "upd_where (\<lambda>q. sn_id q = i) f (q # t) = q # upd_where (\<lambda>q. sn_id q = i) f t"
      using False by (simp add: upd_where_def)
    ultimately show ?thesis
      by (simp add: keyed_def)
  qed
qed (simp add: upd_where_def)

lemma sql_update_inv:
  assumes "subnets_inv ln t" "sql_update_subnet i r t = Some t'" "subnet_sound r" "subnet_name_match ln (sn_name r)"
  shows "subnets_inv ln t'"
proof -
  let ?f = "\<lambda>q. q\<lparr>sn_name := sn_name r, sn_description := sn_description r, sn_cidr := sn_cidr r,
              sn_gateway := sn_gateway r, sn_dns := sn_dns r, sn_vlan := sn_vlan r,
              sn_ranges := sn_ranges r, sn_updated := sn_updated r, sn_updated_by := sn_updated_by r\<rparr>"
  have t': "t' = upd_where (\<lambda>q. sn_id q = i) ?f t"
    and free: "(\<exists>q \<in> set t. sn_id q = i) \<longrightarrow> (\<forall>q \<in> set t. sn_id q \<noteq> i \<longrightarrow> sn_name q \<noteq> sn_name r)"
    using assms(2) by (auto simp: sql_update_subnet_def split: if_splits)
  have ids: "keyed sn_id t'"
    unfolding t' using assms(1) by (intro keyed_upd) (auto simp: subnets_inv_def)
  have "keyed sn_name t'"
    using assms(1) free unfolding t' subnets_inv_def by (intro keyed_rename) auto
  moreover have "subnet_sound (?f q)" for q
    using assms(3) by (simp add: subnet_sound_def subnet_valid_def)
  ultimately show ?thesis
    using assms(1,4) ids unfolding t' subnets_inv_def
    by (auto simp: set_upd_where)
qed

lemma update_inv:
  assumes "subnets_inv ln t"
  shows "subnets_inv ln (snd (update_subnet ln fl now i u t))"
proof (cases "update_subnet ln fl now i u t")
  case (Pair res t')
  have "subnets_inv ln t'"
  proof (cases "t' = t")
    case False
    with Pair obtain cur name cur' r where get: "get_subnet fl i t = Inr cur"
      and nm: "new_name ln fl i (su_name u) cur t = Inr name"
      and ed: "edited_subnet u (cur\<lparr>sn_name := name\<rparr>) = Inr cur'"
      and r: "r = cur'\<lparr>sn_updated := from_unix (unix now),
           sn_updated_by := (if su_updated_by u = [] then sn_updated_by cur else su_updated_by u)\<rparr>"
      and upd: "sql_update_subnet i r t = Some t'"
      unfolding update_subnet_def Let_def by (auto split: sum.splits option.splits)
    have cur: "subnet_sound cur" "subnet_name_match ln (sn_name cur)"
      using get_subnet_Inr [OF get] assms by (auto simp: subnets_inv_def)
    then have "subnet_sound (cur\<lparr>sn_name := name\<rparr>)"
      by (simp add: subnet_sound_def subnet_valid_def)
    from edited_subnet_ok [OF ed this] have "subnet_sound r" "sn_name r = name"
      by (simp_all add: r subnet_sound_def subnet_valid_def)
    with sql_update_inv [OF assms upd] new_name_ok [OF nm cur(2)] show ?thesis by simp
  qed (use assms in simp)
  with Pair show ?thesis by simp
qed

lemma delete_inv: "subnets_inv ln t \<Longrightarrow> subnets_inv ln (snd (delete_subnet fl i t))"
  by (auto simp: subnets_inv_def delete_subnet_def Let_def split: option.splits)

text \<open>
  C8: The subnet catalog stays canonical: whatever is created, edited or deleted, with any driver
  failures, identifiers and names stay unique and every row is a masked network of 1 to 32 bits with
  a gateway that is a host address of it, distinct IPv4 name servers, a legal VLAN tag and pool
  ranges that are ordered pairs of host addresses, pairwise disjoint.
\<close>

theorem subnet_catalog_canonical:
  assumes "subnets_inv ln t"
  shows "subnets_inv ln (snd (create_subnet ln fl now rid inp t)) \<and>
    subnets_inv ln (snd (update_subnet ln fl now i u t)) \<and>
    subnets_inv ln (snd (delete_subnet fl i t))"
  using create_inv [OF assms] update_inv [OF assms] delete_inv [OF assms] by simp

subsection \<open>A concrete catalog\<close>

definition ascii_ln :: "nat \<Rightarrow> bool" where
  "ascii_ln c \<longleftrightarrow> 48 \<le> c \<and> c \<le> 57 \<or> 65 \<le> c \<and> c \<le> 90 \<or> 97 \<le> c \<and> c \<le> 122"

definition demo_subnet :: "string \<Rightarrow> string \<Rightarrow> string \<Rightarrow> string \<Rightarrow> string \<Rightarrow> subnet_create" where
  "demo_subnet name cidr gw a b = \<lparr>sc_name = name, sc_description = [], sc_cidr = cidr, sc_gateway = gw,
     sc_dns = [''8.8.8.8''], sc_vlan = 0, sc_ranges = [\<lparr>dr_start = a, dr_end = b\<rparr>], sc_start = [],
     sc_end = [], sc_created_by = ''admin''\<rparr>"

lemma subnet_catalog_canonical_witness:
  "subnets_inv ascii_ln (snd (create_subnet ascii_ln no_faults 0 (Inr (replicate 32 CHR ''a''))
     (demo_subnet ''lab'' '' 192.168.1.77/24'' ''192.168.1.1'' ''192.168.1.100'' ''192.168.1.150'') [])) \<and>
   map sn_cidr (snd (create_subnet ascii_ln no_faults 0 (Inr (replicate 32 CHR ''a''))
     (demo_subnet ''lab'' '' 192.168.1.77/24'' ''192.168.1.1'' ''192.168.1.100'' ''192.168.1.150'') [])) =
     [''192.168.1.0/24'']"
proof
  have "subnets_inv ascii_ln []" by (simp add: subnets_inv_def)
  then show "subnets_inv ascii_ln (snd (create_subnet ascii_ln no_faults 0 (Inr (replicate 32 CHR ''a''))
     (demo_subnet ''lab'' '' 192.168.1.77/24'' ''192.168.1.1'' ''192.168.1.100'' ''192.168.1.150'') []))"
    by (rule subnet_catalog_canonical [THEN conjunct1])
qed code_simp

text \<open>
  \<open>Update\<close> looks the row up under the trimmed, lower-case identifier and writes it under the
  identifier as given: with an upper-case identifier it reports the edited subnet and leaves the
  table as it was.
\<close>

theorem update_upper_case_id_lost:
  "let t = snd (create_subnet ascii_ln no_faults 0 (Inr (replicate 32 CHR ''a''))
      (demo_subnet ''lab'' ''192.168.1.0/24'' ''192.168.1.1'' ''192.168.1.100'' ''192.168.1.150'') []);
     u = \<lparr>su_name = None, su_description = None, su_cidr = None, su_gateway = Some ''192.168.1.2'', su_dns = None,
         su_vlan = None, su_ranges = None, su_start = None, su_end = None, su_updated_by = ''admin''\<rparr>
   in case update_subnet ascii_ln no_faults 0 (replicate 32 CHR ''A'') u t of
        (Inr r, t') \<Rightarrow> sn_gateway r = ''192.168.1.2'' \<and> map sn_gateway t' = [''192.168.1.1'']
      | _ \<Rightarrow> False"
  by code_simp

end
