(* ===== verification/Dhcp_Settings.thy ===== *)
theory Dhcp_Settings
  imports Dhcp_Server Subnet_Store
begin

text \<open>
  The wiring of the DHCP server: \<open>internal/settings/api.go\<close> validates what an operator saves, and
  \<open>cmd/controller/main.go\<close> assembles the pool set from the settings and the subnet catalog, at boot,
  after a settings change and after a catalog change.
\<close>

subsection \<open>From the catalog to the pools\<close>

definition netmask_of :: "string \<Rightarrow> string" where
  "netmask_of cidr =
    (case parse_prefix cidr of Some (Prefix4 p) \<Rightarrow> show_ip4 (cidr_mask (snd p)) | _ \<Rightarrow> [])"

definition relay_input :: "32 word \<Rightarrow> subnet \<Rightarrow> pool_input" where
  "relay_input lease_sec sn =
    \<lparr>in_selector = sn_cidr sn,
     in_pools = map (\<lambda>r. \<lparr>pr_start = dr_start r, pr_end = dr_end r\<rparr>) (sn_ranges sn),
     in_start = [], in_end = [], in_netmask = netmask_of (sn_cidr sn), in_gateway = sn_gateway sn,
     in_dns = sn_dns sn, in_lease_sec = lease_sec, in_exclude = []\<rparr>"

definition subnets_to_pools :: "pool_input \<Rightarrow> subnet list \<Rightarrow> (pools_error, subnet_pools) result" where
  "subnets_to_pools local subs =
    new_subnet_pools (local # map (relay_input (in_lease_sec local)) (filter (\<lambda>sn. sn_ranges sn \<noteq> []) subs))"

record dhcp_settings =
  ds_mode :: string
  ds_interface :: string
  ds_start :: string
  ds_end :: string
  ds_netmask :: string
  ds_gateway :: string
  ds_dns :: "string list"
  ds_lease_hours :: int
  ds_exclude :: "string list"

text \<open>\<open>uint32(hours) * 3600\<close>.\<close>

definition lease_seconds :: "int \<Rightarrow> 32 word" where
  "lease_seconds hours = word_of_int hours * 3600"

datatype reload_error =
    LocalPool pool_error
  | ListSubnets subnet_error
  | PoolSet pools_error
  | ServerRefused server_error

text \<open>\<open>buildPools\<close>: without a catalog store only the local pool.\<close>

definition build_pools ::
  "faults \<Rightarrow> subnet list option \<Rightarrow> pool_input \<Rightarrow> (reload_error, subnet_pools) result" where
  "build_pools fl catalog local =
    (case catalog of
       None \<Rightarrow> (case new_subnet_pools [local] of Inl e \<Rightarrow> Inl (PoolSet e) | Inr sp \<Rightarrow> Inr sp)
     | Some t \<Rightarrow>
       (case list_subnets fl t of
          Inl e \<Rightarrow> Inl (ListSubnets e)
        | Inr subs \<Rightarrow> (case subnets_to_pools local subs of Inl e \<Rightarrow> Inl (PoolSet e) | Inr sp \<Rightarrow> Inr sp)))"

definition swap_policy ::
  "string \<Rightarrow> subnet_pools option \<Rightarrow> 's lease_ops option \<Rightarrow> 's dhcp_server \<Rightarrow> reload_error option \<times> 's dhcp_server"
where
  "swap_policy mode pools leases sv =
    (case reload mode pools leases sv of (e, sv') \<Rightarrow> (map_option ServerRefused e, sv'))"

text \<open>\<open>ReloadDHCP\<close>, called with the settings an operator saved.\<close>

definition reload_dhcp ::
  "faults \<Rightarrow> subnet list option \<Rightarrow> 's lease_ops \<Rightarrow> dhcp_settings \<Rightarrow> 's dhcp_server \<Rightarrow>
   reload_error option \<times> 's dhcp_server"
where
  "reload_dhcp fl catalog leases s sv =
    (if ds_mode s = ''proxy'' then swap_policy ''proxy'' None None sv
     else case new_pool (ds_start s) (ds_end s) (ds_netmask s) (ds_gateway s) (ds_dns s)
                (lease_seconds (ds_lease_hours s)) (ds_exclude s) of
       Inl e \<Rightarrow> (Some (LocalPool e), sv)
     | Inr local \<Rightarrow>
       (let input = \<lparr>in_selector = [],
              in_pools = [\<lparr>pr_start = show_addr4 (p_start local), pr_end = show_addr4 (p_end local)\<rparr>],
              in_start = [], in_end = [], in_netmask = show_ip4 (p_netmask local),
              in_gateway = show_ip4 (p_gateway local), in_dns = [], in_lease_sec = p_lease_sec local,
              in_exclude = ds_exclude s\<rparr>
        in case build_pools fl catalog input of
             Inl e \<Rightarrow> (Some e, sv)
           | Inr sp \<Rightarrow> swap_policy ''full'' (Some sp) (Some leases) sv))"

text \<open>
  \<open>reloadFromSubnets\<close>, called after a catalog change. \<open>effective\<close> is what \<open>EffectiveDHCP\<close> returns, or
  \<open>None\<close> when it fails.
\<close>

definition local_pool_fn :: "dhcp_settings option \<Rightarrow> pool_input option" where
  "local_pool_fn effective =
    (case effective of
       None \<Rightarrow> None
     | Some s \<Rightarrow>
       (if ds_mode s \<noteq> ''full'' then None
        else Some \<lparr>in_selector = [], in_pools = [\<lparr>pr_start = ds_start s, pr_end = ds_end s\<rparr>],
               in_start = [], in_end = [], in_netmask = ds_netmask s, in_gateway = ds_gateway s,
               in_dns = ds_dns s, in_lease_sec = lease_seconds (ds_lease_hours s),
               in_exclude = ds_exclude s\<rparr>))"

definition reload_from_subnets ::
  "faults \<Rightarrow> subnet list option \<Rightarrow> 's lease_ops \<Rightarrow> dhcp_settings option \<Rightarrow> 's dhcp_server \<Rightarrow>
   reload_error option \<times> 's dhcp_server"
where
  "reload_from_subnets fl catalog leases effective sv =
    (if sv_mode sv \<noteq> ''full'' then (None, sv)
     else case local_pool_fn effective of
       None \<Rightarrow> (None, sv)
     | Some local \<Rightarrow>
       (if in_pools local = [] \<and> in_start local = [] then (None, sv)
        else case build_pools fl catalog local of
          Inl e \<Rightarrow> (Some e, sv)
        | Inr sp \<Rightarrow> swap_policy ''full'' (Some sp) (Some leases) sv))"

text \<open>
  The boot path of \<open>run\<close> in full mode: the pool of the configuration, the pool set, and the first
  reload. \<open>Inl\<close> is a controller that does not start.
\<close>

definition boot_pools ::
  "dhcp_settings \<Rightarrow> subnet list \<Rightarrow> (reload_error, subnet_pools) result" where
  "boot_pools cfg catalog =
    (case new_pool (ds_start cfg) (ds_end cfg) (ds_netmask cfg) (ds_gateway cfg) (ds_dns cfg)
            (lease_seconds (ds_lease_hours cfg)) (ds_exclude cfg) of
       Inl e \<Rightarrow> Inl (LocalPool e)
     | Inr local \<Rightarrow>
       (let input = \<lparr>in_selector = [],
              in_pools = [\<lparr>pr_start = show_addr4 (p_start local), pr_end = show_addr4 (p_end local)\<rparr>],
              in_start = [], in_end = [], in_netmask = show_ip4 (p_netmask local),
              in_gateway = show_ip4 (p_gateway local), in_dns = [], in_lease_sec = p_lease_sec local,
              in_exclude = []\<rparr>
        in case subnets_to_pools input (newest_first catalog) of
             Inl e \<Rightarrow> Inl (PoolSet e)
           | Inr sp \<Rightarrow> Inr sp))"

subsection \<open>Validation of saved settings\<close>

text \<open>\<open>net.IPMask.Size\<close> of a four-byte mask: the number of its bits, if they are ones then zeros.\<close>

definition mask_ones :: "ip4 \<Rightarrow> nat option" where
  "mask_ones m =
    (let n = length (filter (\<lambda>v. 0 < v) (map (\<lambda>k. unat m div 2 ^ k mod 2) [0..<32]))
     in if cidr_mask n = m then Some n else None)"

definition parse_ipv4_mask :: "string \<Rightarrow> (ip4 \<times> nat) option" where
  "parse_ipv4_mask s =
    (case parse_to4 s of
       None \<Rightarrow> None
     | Some m \<Rightarrow> (case mask_ones m of None \<Rightarrow> None | Some n \<Rightarrow> Some (m, n)))"

datatype settings_error =
    BadModeText string
  | BadMask string
  | BadGatewayText string
  | BadStartText string
  | BadEndText string
  | StartAfterEndText
  | PoolOutside
  | BadDnsText string
  | BadExcludeText string

text \<open>The merged exclude set; Go's map iteration gives its elements in any order.\<close>

definition validate_dhcp_settings ::
  "string \<Rightarrow> dhcp_settings \<Rightarrow> (settings_error, dhcp_settings) result" where
  "validate_dhcp_settings server_ip s =
    (let mode = lower_trim (ds_mode s) in
     if mode \<noteq> ''proxy'' \<and> mode \<noteq> ''full'' then Inl (BadModeText (ds_mode s))
     else if mode = ''proxy'' then
       Inr (s\<lparr>ds_mode := mode, ds_start := [], ds_end := [], ds_netmask := [], ds_gateway := [],
              ds_dns := [], ds_lease_hours := 0, ds_exclude := []\<rparr>)
     else case parse_ipv4_mask (ds_netmask s) of
       None \<Rightarrow> Inl (BadMask (ds_netmask s))
     | Some (m, ones) \<Rightarrow>
       (case parse_v4 (ds_gateway s) of
          None \<Rightarrow> Inl (BadGatewayText (ds_gateway s))
        | Some gw \<Rightarrow>
          (case parse_v4 (ds_start s) of
             None \<Rightarrow> Inl (BadStartText (ds_start s))
           | Some a \<Rightarrow>
             (case parse_v4 (ds_end s) of
                None \<Rightarrow> Inl (BadEndText (ds_end s))
              | Some b \<Rightarrow>
                (if b < a then Inl StartAfterEndText
                 else let p = prefix_masked (gw, ones) in
                   if \<not> prefix_contains p a \<or> \<not> prefix_contains p b then Inl PoolOutside
                   else case find (\<lambda>d. parse_v4 d = None) (ds_dns s) of
                     Some d \<Rightarrow> Inl (BadDnsText d)
                   | None \<Rightarrow>
                     (case find (\<lambda>e. parse_v4 e = None) (ds_exclude s) of
                        Some e \<Rightarrow> Inl (BadExcludeText e)
                      | None \<Rightarrow>
                        Inr (s\<lparr>ds_mode := mode,
                               ds_dns := (if ds_dns s = [] then [''8.8.8.8'', ''1.1.1.1''] else ds_dns s),
                               ds_lease_hours := (if ds_lease_hours s \<le> 0 then 24 else ds_lease_hours s),
                               ds_exclude := remdups (server_ip # ds_gateway s #
                                 map (\<lambda>e. case parse_v4 e of Some w \<Rightarrow> show_ip4 w | None \<Rightarrow> e) (ds_exclude s))\<rparr>)))))))"

subsection \<open>Printing and parsing prefixes\<close>

lemma show_ip4_chars: "c \<in> set (show_ip4 w) \<Longrightarrow> is_digit c \<or> c = CHR ''.''"
  using digits_nat_props by (auto simp: show_ip4_def octets_def)

lemma no_slash: "CHR ''/'' \<notin> set (show_ip4 w)" "CHR ''/'' \<notin> set (digits_nat n)"
  using show_ip4_chars [of "CHR ''/''" w] digits_nat_props [of n] by (auto simp: is_digit_def)

lemma cut_last_slash_join:
  assumes "CHR ''/'' \<notin> set b"
  shows "cut_last_slash (a @ ''/'' @ b) = Some (a, b)"
proof -
  have "takeWhile (\<lambda>c. c \<noteq> CHR ''/'') (rev b @ CHR ''/'' # rev a) = rev b"
    using assms by (subst takeWhile_append2) auto
  then show ?thesis
    by (simp add: cut_last_slash_def Let_def)
qed

lemma parse_show_prefix [simp]: "snd p \<le> 32 \<Longrightarrow> parse_prefix (show_prefix4 p) = Some (Prefix4 p)"
  by (simp only: show_prefix4_def parse_prefix_def cut_last_slash_join [OF no_slash(2)])
    (simp add: parse_dec_digits)

lemma parse_v4_show [simp]: "parse_v4 (show_ip4 w) = Some w"
  by (simp add: parse_v4_def)

subsection \<open>Relay pools come from the catalog\<close>

lemma parse_ranges_from:
  "parse_ranges i parsed rs = Inr out \<Longrightarrow> q \<in> set out \<Longrightarrow>
    q \<in> set parsed \<or> (\<exists>r \<in> set rs. \<exists>a b. parse_v4 (pr_start r) = Some a \<and> parse_v4 (pr_end r) = Some b \<and>
      q = \<lparr>r_start = Addr4 a, r_end = Addr4 b\<rparr>)"
proof (induction i parsed rs rule: parse_ranges.induct)
  case (2 i parsed r rs)
  from "2.prems"(1) obtain a b where ab: "parse_v4 (pr_start r) = Some a" "parse_v4 (pr_end r) = Some b"
    "\<not> b < a" and free: "find (\<lambda>prev. ranges_overlap prev \<lparr>r_start = Addr4 a, r_end = Addr4 b\<rparr>) parsed = None"
    and rest: "parse_ranges (Suc i) (parsed @ [\<lparr>r_start = Addr4 a, r_end = Addr4 b\<rparr>]) rs = Inr out"
    by (auto simp: Let_def split: option.splits if_splits)
  note hyp = "2.IH" [OF ab refl free rest "2.prems"(2)]
  show ?case
    using hyp ab(1,2) by auto
qed simp

definition input_pool :: "pool_input \<Rightarrow> (pool_error, pool) result" where
  "input_pool i = new_pool_ranges (if in_pools i = [] then [\<lparr>pr_start = in_start i, pr_end = in_end i\<rparr>] else in_pools i)
     (in_netmask i) (in_gateway i) (in_dns i) (in_lease_sec i) (in_exclude i)"

definition relay_of :: "pool_input \<Rightarrow> pool option" where
  "relay_of i = (case (input_pool i, try_parse_selector (in_selector i)) of
     (Inr pool, Some sel) \<Rightarrow> Some (pool\<lparr>p_selectors := [sel]\<rparr>) | _ \<Rightarrow> None)"

lemma add_pools_from:
  "add_pools local relay sels ins = Inr sp \<Longrightarrow>
    (\<forall>p \<in> set (sp_relay sp). p \<in> set relay \<or> (\<exists>i \<in> set ins. in_selector i \<noteq> [] \<and> relay_of i = Some p)) \<and>
    (local = Some (sp_local sp) \<or> (\<exists>i \<in> set ins. in_selector i = [] \<and> input_pool i = Inr (sp_local sp)))"
proof (induction local relay sels ins rule: add_pools.induct)
  case (1 local relay sels)
  then show ?case by (auto split: option.splits)
next
  case (2 local relay sels i more)
  define ranges where "ranges = (if in_pools i = [] then [\<lparr>pr_start = in_start i, pr_end = in_end i\<rparr>] else in_pools i)"
  from "2.prems" obtain pool where
    np: "new_pool_ranges ranges (in_netmask i) (in_gateway i) (in_dns i) (in_lease_sec i) (in_exclude i) = Inr pool"
    by (auto simp: ranges_def Let_def split: sum.splits)
  then have ip: "input_pool i = Inr pool" by (simp add: input_pool_def ranges_def)
  have ns: "p_selectors pool = []"
    using new_pool_ranges_ok [OF np] by simp
  note IH = "2.IH" [OF ranges_def np]
  show ?case
  proof (cases "in_selector i = []")
    case True
    with "2.prems" np have loc: "local = None" and rest: "add_pools (Some pool) relay sels more = Inr sp"
      by (auto simp: ranges_def Let_def split: if_splits)
    then show ?thesis
      using IH(1) [OF True] ip True by auto
  next
    case False
    with "2.prems" np obtain sel where sel: "try_parse_selector (in_selector i) = Some sel"
      and free: "find (\<lambda>prev. prefix_overlaps prev sel) sels = None"
      and key: "contains_key pool (Addr4 (fst sel))"
      and rest: "add_pools local (relay @ [pool\<lparr>p_selectors := p_selectors pool @ [sel]\<rparr>]) (sels @ [sel]) more = Inr sp"
      by (auto simp: ranges_def Let_def split: option.splits if_splits)
    have "\<not> \<not> contains_key pool (Addr4 (fst sel))" using key by simp
    note hyp = IH(2) [OF False sel free this rest]
    show ?thesis
      using hyp ip sel False ns by (auto simp: relay_of_def)
  qed
qed

lemma relay_pool_from_catalog:
  assumes "subnets_to_pools local subs = Inr sp" "in_selector local = []" "p \<in> set (sp_relay sp)"
  obtains sn where "sn \<in> set subs" "sn_ranges sn \<noteq> []" "relay_of (relay_input (in_lease_sec local) sn) = Some p"
  using add_pools_from [OF assms(1) [unfolded subnets_to_pools_def new_subnet_pools_def]] assms(2,3)
  by (fastforce simp: relay_input_def)

lemma input_pool_fields:
  assumes "input_pool i = Inr pool"
  shows "parse_v4 (in_netmask i) = Some (p_netmask pool)" "parse_v4 (in_gateway i) = Some (p_gateway pool)"
    "parse_all_v4 BadDns (in_dns i) = Inr (p_dns pool)"
    "\<exists>es. parse_all_v4 BadExclude (in_exclude i) = Inr es \<and> p_exclude pool = map show_ip4 es"
    "parse_ranges 0 [] (if in_pools i = [] then [\<lparr>pr_start = in_start i, pr_end = in_end i\<rparr>] else in_pools i)
       = Inr (p_ranges pool)"
  using assms by (auto simp: input_pool_def new_pool_ranges_def split: if_splits option.splits sum.splits)

text \<open>The relay pool of a canonical subnet: its network, gateway and name servers, and its ranges.\<close>

lemma parse_all_v4_show: "\<forall>d \<in> set ds. \<exists>w. d = show_ip4 w \<Longrightarrow> parse_all_v4 err ds = Inr ws \<Longrightarrow> map show_ip4 ws = ds"
  by (induction ds arbitrary: ws) (auto split: option.splits sum.splits)

lemma relay_of_subnet:
  assumes "relay_of (relay_input lease sn) = Some p" "subnet_valid n sn" "sn_ranges sn \<noteq> []"
  shows "p_selectors p = [n]" "p_netmask p = cidr_mask (snd n)" "show_ip4 (p_gateway p) = sn_gateway sn"
    "map show_ip4 (p_dns p) = sn_dns sn" "p_exclude p = []"
    "pool_contains p (Addr4 w) \<Longrightarrow> prefix_contains n w"
proof -
  have n: "snd n \<le> 32" "prefix_masked n = n" "sn_cidr sn = show_prefix4 n"
    using assms(2) by (auto simp: subnet_valid_def network_ok_def)
  then have sel: "try_parse_selector (sn_cidr sn) = Some n"
    by (simp add: try_parse_selector_def)
  from assms(1) sel obtain pool where pool: "input_pool (relay_input lease sn) = Inr pool"
    and p: "p = pool\<lparr>p_selectors := [n]\<rparr>"
    by (auto simp: relay_of_def relay_input_def split: sum.splits)
  note f = input_pool_fields [OF pool]
  show "p_selectors p = [n]" by (simp add: p)
  have "netmask_of (sn_cidr sn) = show_ip4 (cidr_mask (snd n))"
    using n by (simp add: netmask_of_def)
  with f(1) show "p_netmask p = cidr_mask (snd n)"
    by (simp add: p relay_input_def)
  from assms(2) obtain g where "sn_gateway sn = show_ip4 g"
    by (auto simp: subnet_valid_def)
  with f(2) show "show_ip4 (p_gateway p) = sn_gateway sn"
    by (simp add: p relay_input_def)
  show "map show_ip4 (p_dns p) = sn_dns sn"
    using parse_all_v4_show [of "sn_dns sn" BadDns "p_dns pool"] f(3) assms(2)
    by (simp add: p relay_input_def subnet_valid_def dns_valid_def)
  show "p_exclude p = []"
    using f(4) by (simp add: p relay_input_def)
  assume "pool_contains p (Addr4 w)"
  then obtain r where r: "r \<in> set (p_ranges pool)" "in_range w r"
    by (auto simp: p pool_contains_iff)
  from parse_ranges_from [OF f(5) r(1)] assms(3) obtain d where d: "d \<in> set (sn_ranges sn)"
    "\<exists>a b. parse_v4 (dr_start d) = Some a \<and> parse_v4 (dr_end d) = Some b \<and> r = \<lparr>r_start = Addr4 a, r_end = Addr4 b\<rparr>"
    by (auto simp: relay_input_def split: if_splits)
  from d(1) assms(2) have "host_range n d"
    by (simp add: subnet_valid_def ranges_valid_def)
  then obtain a b where h: "d = \<lparr>dr_start = show_ip4 a, dr_end = show_ip4 b\<rparr>"
    "prefix_contains n a" "prefix_contains n b"
    by (auto simp: host_range_def host_addr_def)
  with d(2) r(2) have "a \<le> w" "w \<le> b"
    by (auto simp: in_range_def)
  from prefix_convex [OF h(2,3) this] show "prefix_contains n w" .
qed

text \<open>
  C7: A relayed client is served from its own subnet: when the pool set is built from a canonical
  catalog, the pool a gateway address is routed to belongs to a subnet of the catalog whose network
  contains the gateway address, every address of the pool lies in that network, and the pool carries
  the subnet's netmask, router and name servers.
\<close>

theorem relayed_client_gets_its_subnet:
  assumes "subnets_inv ln catalog" and "subnets_to_pools local (newest_first catalog) = Inr sp"
    and "in_selector local = []" and "w \<noteq> 0" and "pool_for_request (Some sp) (Addr4 w) = Some p"
  shows "\<exists>sn \<in> set catalog. \<exists>n. sn_cidr sn = show_prefix4 n \<and> prefix_contains n w \<and>
    (\<forall>v. pool_contains p (Addr4 v) \<longrightarrow> prefix_contains n v) \<and> p_netmask p = cidr_mask (snd n) \<and>
    show_ip4 (p_gateway p) = sn_gateway sn \<and> map show_ip4 (p_dns p) = sn_dns sn"
proof -
  have p: "p \<in> set (sp_relay sp)" "pool_serves p w"
    using assms(5) by (auto simp: pool_for_request_relayed [OF assms(4)] find_Some_iff)
  from relay_pool_from_catalog [OF assms(2,3) p(1)] obtain sn where sn: "sn \<in> set (newest_first catalog)"
    "sn_ranges sn \<noteq> []" "relay_of (relay_input (in_lease_sec local) sn) = Some p" .
  have cat: "sn \<in> set catalog"
    using sn(1) by (simp add: newest_first_def)
  with assms(1) obtain n where n: "subnet_valid n sn"
    by (auto simp: subnets_inv_def subnet_sound_def)
  note f = relay_of_subnet [OF sn(3) n sn(2)]
  have "prefix_contains n w"
    using p(2) f(1) by (simp add: pool_serves_def)
  with f cat n show ?thesis
    by (intro bexI [OF _ cat] exI [of _ n]) (auto simp: subnet_valid_def)
qed

lemma parse_v4_to4: "parse_v4 s = Some w \<Longrightarrow> parse_to4 s = Some w"
  by (auto simp: parse_v4_def parse_to4_def parse_ip_def addr_from_to4_def split: option.splits addr.splits)

lemma parse_all_v4_total:
  "\<forall>d \<in> set ds. parse_v4 d \<noteq> None \<Longrightarrow> \<exists>ws. parse_all_v4 err ds = Inr ws \<and> map Some ws = map parse_v4 ds"
  by (induction ds) auto

text \<open>
  What the settings page accepts in full mode can be served, when the netmask is a plain IPv4
  literal (and not an IPv4-mapped IPv6 one): the pool constructor accepts the saved values, the pool has a name server, lies in the network of the gateway, and never hands out
  the gateway or the controller's own address.
\<close>

theorem validated_settings_build_a_pool:
  assumes "validate_dhcp_settings server_ip s = Inr s'" and "ds_mode s' = ''full''"
    and "parse_v4 server_ip = Some sip" and "parse_v4 (ds_netmask s) \<noteq> None"
  shows "\<exists>p gw n. new_pool (ds_start s') (ds_end s') (ds_netmask s') (ds_gateway s') (ds_dns s')
      (lease_seconds (ds_lease_hours s')) (ds_exclude s') = Inr p \<and> p_dns p \<noteq> [] \<and>
    parse_v4 (ds_gateway s') = Some gw \<and> p_netmask p = cidr_mask n \<and>
    show_ip4 gw \<in> set (p_exclude p) \<and> show_ip4 sip \<in> set (p_exclude p) \<and>
    (\<forall>w. pool_contains p (Addr4 w) \<longrightarrow> prefix_contains (prefix_masked (gw, n)) w)"
proof -
  from assms(1,2) obtain m n gw a b where v: "parse_ipv4_mask (ds_netmask s) = Some (m, n)"
    "parse_v4 (ds_gateway s) = Some gw" "parse_v4 (ds_start s) = Some a" "parse_v4 (ds_end s) = Some b"
    "\<not> b < a" "prefix_contains (prefix_masked (gw, n)) a" "prefix_contains (prefix_masked (gw, n)) b"
    "find (\<lambda>d. parse_v4 d = None) (ds_dns s) = None" "find (\<lambda>e. parse_v4 e = None) (ds_exclude s) = None"
    and s': "s' = s\<lparr>ds_mode := lower_trim (ds_mode s),
        ds_dns := (if ds_dns s = [] then [''8.8.8.8'', ''1.1.1.1''] else ds_dns s),
        ds_lease_hours := (if ds_lease_hours s \<le> 0 then 24 else ds_lease_hours s),
        ds_exclude := remdups (server_ip # ds_gateway s #
          map (\<lambda>e. case parse_v4 e of Some w \<Rightarrow> show_ip4 w | None \<Rightarrow> e) (ds_exclude s))\<rparr>"
    unfolding validate_dhcp_settings_def Let_def by (auto split: if_splits option.splits)
  have dns: "\<forall>d \<in> set (ds_dns s'). parse_v4 d \<noteq> None"
  proof -
    have "parse_v4 ''8.8.8.8'' \<noteq> None" "parse_v4 ''1.1.1.1'' \<noteq> None" by code_simp+
    with v(8) show ?thesis by (auto simp: s' find_None_iff)
  qed
  have ex: "\<forall>e \<in> set (ds_exclude s'). parse_v4 e \<noteq> None"
    using v(2,9) assms(3) by (auto simp: s' find_None_iff split: option.splits)
  obtain ds where ds: "parse_all_v4 BadDns (ds_dns s') = Inr ds" "map Some ds = map parse_v4 (ds_dns s')"
    using parse_all_v4_total [OF dns] by blast
  obtain es where es: "parse_all_v4 BadExclude (ds_exclude s') = Inr es" "map Some es = map parse_v4 (ds_exclude s')"
    using parse_all_v4_total [OF ex] by blast
  have mn: "cidr_mask n = m" and "parse_to4 (ds_netmask s) = Some m"
    using v(1) by (auto simp: parse_ipv4_mask_def mask_ones_def Let_def split: option.splits if_splits)
  then have mask: "parse_v4 (ds_netmask s) = Some m"
    using assms(4) parse_v4_to4 [of "ds_netmask s"] by auto
  define p where "p = \<lparr>p_start = Addr4 a, p_end = Addr4 b, p_netmask = m, p_gateway = gw, p_dns = ds,
    p_exclude = map show_ip4 es,
    p_lease_sec = (if lease_seconds (ds_lease_hours s') = 0 then 24 * 3600 else lease_seconds (ds_lease_hours s')),
    p_ranges = [\<lparr>r_start = Addr4 a, r_end = Addr4 b\<rparr>], p_selectors = []\<rparr>"
  have "new_pool (ds_start s') (ds_end s') (ds_netmask s') (ds_gateway s') (ds_dns s')
      (lease_seconds (ds_lease_hours s')) (ds_exclude s') = Inr p"
    using v mask ds(1) es(1) unfolding new_pool_def new_pool_ranges_def p_def
    by (simp add: s' Let_def)
  moreover have "ds \<noteq> []"
    using arg_cong [OF ds(2), of length] by (auto simp: s' split: if_splits)
  moreover have "gw \<in> set es" "sip \<in> set es"
  proof -
    have "Some ` set es = parse_v4 ` set (ds_exclude s')"
      using es(2) by (metis list.set_map)
    moreover have "Some gw \<in> parse_v4 ` set (ds_exclude s')" "Some sip \<in> parse_v4 ` set (ds_exclude s')"
    proof -
      have "server_ip \<in> set (ds_exclude s')" "ds_gateway s \<in> set (ds_exclude s')"
        by (simp_all add: s')
      then show "Some gw \<in> parse_v4 ` set (ds_exclude s')" "Some sip \<in> parse_v4 ` set (ds_exclude s')"
        using v(2) assms(3) by (metis imageI)+
    qed
    ultimately show "gw \<in> set es" "sip \<in> set es" by auto
  qed
  moreover have "prefix_contains (prefix_masked (gw, n)) w" if "pool_contains p (Addr4 w)" for w
    using that prefix_convex [OF v(6,7)] by (simp add: p_def pool_contains_iff in_range_def)
  ultimately show ?thesis
    using v(2) mn by (intro exI [of _ p] exI [of _ gw] exI [of _ n]) (simp add: p_def s')
qed

subsection \<open>A concrete controller\<close>

definition demo_settings :: dhcp_settings where
  "demo_settings = \<lparr>ds_mode = ''full'', ds_interface = ''eth0'', ds_start = ''10.0.0.1'', ds_end = ''10.0.0.20'',
     ds_netmask = ''255.255.255.0'', ds_gateway = ''10.0.0.1'', ds_dns = [''10.0.0.3''],
     ds_lease_hours = 0, ds_exclude = []\<rparr>"

text \<open>What the settings page saves for these values.\<close>

definition saved_settings :: dhcp_settings where
  "saved_settings = demo_settings\<lparr>ds_lease_hours := 24, ds_exclude := [''10.0.0.2'', ''10.0.0.1'']\<rparr>"

lemma saved_settings_Inr: "validate_dhcp_settings ''10.0.0.2'' demo_settings = Inr saved_settings"
  by code_simp

lemma validated_settings_build_a_pool_witness:
  "\<exists>p. new_pool ''10.0.0.1'' ''10.0.0.20'' ''255.255.255.0'' ''10.0.0.1'' [''10.0.0.3''] (lease_seconds 24)
     (ds_exclude saved_settings) = Inr p \<and> show_ip4 (ip4_of 10 0 0 1) \<in> set (p_exclude p)"
proof -
  have f: "ds_mode saved_settings = ''full''" "parse_v4 ''10.0.0.2'' = Some (ip4_of 10 0 0 2)"
    "parse_v4 (ds_netmask demo_settings) \<noteq> None" "parse_v4 ''10.0.0.1'' = Some (ip4_of 10 0 0 1)"
    "ds_start saved_settings = ''10.0.0.1''" "ds_end saved_settings = ''10.0.0.20''"
    "ds_netmask saved_settings = ''255.255.255.0''" "ds_gateway saved_settings = ''10.0.0.1''"
    "ds_dns saved_settings = [''10.0.0.3'']" "ds_lease_hours saved_settings = 24"
    by code_simp+
  from validated_settings_build_a_pool [OF saved_settings_Inr f(1,2,3)] f(4-) show ?thesis
    by auto
qed

definition catalog_row :: "char \<Rightarrow> string \<Rightarrow> string \<Rightarrow> string \<Rightarrow> string \<Rightarrow> string \<Rightarrow> subnet" where
  "catalog_row c name cidr gw a b = \<lparr>sn_id = replicate 32 c, sn_name = name, sn_description = [],
     sn_cidr = cidr, sn_gateway = gw, sn_dns = [''8.8.8.8''], sn_vlan = 0,
     sn_ranges = [\<lparr>dr_start = a, dr_end = b\<rparr>], sn_created = 0, sn_updated = 0,
     sn_created_by = ''admin'', sn_updated_by = ''admin''\<rparr>"

definition demo_row :: subnet where
  "demo_row = catalog_row CHR ''a'' ''lab'' ''192.168.1.0/24'' ''192.168.1.1'' ''192.168.1.100'' ''192.168.1.150''"

definition wide_row :: subnet where
  "wide_row = catalog_row CHR ''b'' ''wide'' ''192.168.0.0/16'' ''192.168.9.1'' ''192.168.9.10'' ''192.168.9.20''"

definition create_as :: "char \<Rightarrow> subnet_create \<Rightarrow> subnet list \<Rightarrow> (subnet_error, subnet) result \<times> subnet list" where
  "create_as c = create_subnet ascii_ln no_faults 0 (Inr (replicate 32 c))"

lemma demo_row_created:
  "create_as CHR ''a'' (demo_subnet ''lab'' ''192.168.1.0/24'' ''192.168.1.1'' ''192.168.1.100'' ''192.168.1.150'') [] =
    (Inr demo_row, [demo_row])"
  by code_simp

abbreviation demo_catalog :: "subnet list" where
  "demo_catalog \<equiv> [demo_row]"

lemma demo_catalog_inv: "subnets_inv ascii_ln demo_catalog"
  using demo_row_created
  by (metis create_as_def create_inv snd_conv subnets_inv_def keyed_Nil empty_iff list.set(1))

lemma relayed_client_gets_its_subnet_witness:
  "\<exists>sn \<in> set demo_catalog. \<exists>n. sn_cidr sn = show_prefix4 n \<and> prefix_contains n (ip4_of 192 168 1 1)"
proof -
  let ?r = "subnets_to_pools demo_local (newest_first demo_catalog)"
  have "\<not> isl ?r" by code_simp
  then have sp: "?r = Inr (projr ?r)" by simp
  have "pool_for_request (Some (projr ?r)) (Addr4 (ip4_of 192 168 1 1)) \<noteq> None" by code_simp
  then obtain p where p: "pool_for_request (Some (projr ?r)) (Addr4 (ip4_of 192 168 1 1)) = Some p" by auto
  have "in_selector demo_local = []" "ip4_of 192 168 1 1 \<noteq> 0" by code_simp+
  from relayed_client_gets_its_subnet [OF demo_catalog_inv sp this p] show ?thesis by blast
qed

text \<open>
  The boot path drops the exclusions and the name servers of the local pool: with settings whose
  range starts at the gateway, the controller that starts with them leases the gateway's own address
  to the first client, and sends no name server.
\<close>

theorem boot_forgets_exclusions_and_dns:
  "case boot_pools saved_settings demo_catalog of
     Inl e \<Rightarrow> False
   | Inr sp \<Rightarrow>
       (case allocate no_faults 0 \<lparr>ai_mac = ''02:00:00:00:00:01'', ai_hostname = [], ai_ranges = p_ranges (sp_local sp),
              ai_exclude = p_exclude (sp_local sp), ai_lease_dur = lease_duration (sp_local sp)\<rparr> [] of
          Some (Inr l, t) \<Rightarrow> l_ip l = ds_gateway saved_settings \<and> l_ip l \<in> set (ds_exclude saved_settings) \<and>
            ds_dns saved_settings = [''10.0.0.3''] \<and> p_dns (sp_local sp) = []
        | _ \<Rightarrow> False)"
  by code_simp

text \<open>
  Saving settings keeps the exclusions but drops the name servers: after the hot reload the local
  pool has none, although the saved settings name one.
\<close>

theorem reload_forgets_dns:
  "case reload_dhcp no_faults (Some demo_catalog) (leases_adapter no_faults 0) saved_settings demo_proxy of
     (None, sv) \<Rightarrow> sv_mode sv = ''full'' \<and>
       (case sv_pools sv of
          Some sp \<Rightarrow> p_dns (sp_local sp) = [] \<and> ds_dns saved_settings = [''10.0.0.3''] \<and>
            p_exclude (sp_local sp) = ds_exclude saved_settings
        | None \<Rightarrow> False)
   | _ \<Rightarrow> False"
  by code_simp

text \<open>
  The catalog accepts two subnets whose networks overlap, and with such a catalog the controller
  refuses to start in full mode.
\<close>

theorem overlapping_subnets_block_boot:
  "create_as CHR ''b'' (demo_subnet ''wide'' ''192.168.0.0/16'' ''192.168.9.1'' ''192.168.9.10'' ''192.168.9.20'')
      demo_catalog = (Inr wide_row, [demo_row, wide_row]) \<and>
    \<not> isl (boot_pools saved_settings [demo_row]) \<and> isl (boot_pools saved_settings [demo_row, wide_row])"
proof (intro conjI)
  show "create_as CHR ''b'' (demo_subnet ''wide'' ''192.168.0.0/16'' ''192.168.9.1'' ''192.168.9.10'' ''192.168.9.20'')
      demo_catalog = (Inr wide_row, [demo_row, wide_row])"
    by code_simp
  show "\<not> isl (boot_pools saved_settings [demo_row])"
    by code_simp
  show "isl (boot_pools saved_settings [demo_row, wide_row])"
    by code_simp
qed

text \<open>
  The settings page accepts an IPv4-mapped IPv6 literal as a netmask, which the pool constructor
  refuses: the saved settings keep the controller from starting.
\<close>

theorem mapped_netmask_blocks_boot:
  "case validate_dhcp_settings ''10.0.0.2'' (demo_settings\<lparr>ds_netmask := ''::ffff:255.255.255.0''\<rparr>) of
     Inr s \<Rightarrow> boot_pools s [] = Inl (LocalPool (BadNetmask ''::ffff:255.255.255.0''))
   | Inl e \<Rightarrow> False"
  by code_simp

end
