(* ===== verification/Auth.thy ===== *)
theory Auth
  imports Go_Text
begin

text \<open>
  Login and access control: \<open>internal/authapi\<close> (the throttle and the login handler),
  \<open>internal/sessions\<close> (the session table), \<open>internal/util/verify.go\<close> and the authentication
  middleware of \<open>internal/httpd/auth.go\<close>.

  The external program \<open>mkpasswd\<close> is the parameter \<open>mk\<close>: salt and password to its output, or the
  error of running it. The clock is one reading per request; the random session identifier is an
  argument. A request body that does not decode is \<open>None\<close>.
\<close>

subsection \<open>The throttle\<close>

record ip_window =
  w_fails :: nat
  w_at :: time

type_synonym windows = "string \<Rightarrow> ip_window option"

record throttle =
  th_by_ip :: windows
  th_limit :: nat
  th_window :: int

definition new_login_throttle :: "nat \<Rightarrow> int \<Rightarrow> throttle" where
  "new_login_throttle limit window = \<lparr>th_by_ip = (\<lambda>_. None), th_limit = limit, th_window = window\<rparr>"

definition blocked :: "time \<Rightarrow> string \<Rightarrow> throttle \<Rightarrow> bool \<times> throttle" where
  "blocked now ip th =
    (case th_by_ip th ip of
       None \<Rightarrow> (False, th)
     | Some w \<Rightarrow>
       (if th_window th \<le> now - w_at w then (False, th\<lparr>th_by_ip := (th_by_ip th)(ip := None)\<rparr>)
        else (th_limit th \<le> w_fails w, th)))"

definition note_failure :: "time \<Rightarrow> string \<Rightarrow> throttle \<Rightarrow> throttle" where
  "note_failure now ip th =
    (let fresh = th\<lparr>th_by_ip := (th_by_ip th)(ip \<mapsto> \<lparr>w_fails = 1, w_at = now\<rparr>)\<rparr> in
     case th_by_ip th ip of
       None \<Rightarrow> fresh
     | Some w \<Rightarrow>
       (if th_window th \<le> now - w_at w then fresh
        else th\<lparr>th_by_ip := (th_by_ip th)(ip \<mapsto> w\<lparr>w_fails := Suc (w_fails w)\<rparr>)\<rparr>))"

definition note_success :: "string \<Rightarrow> throttle \<Rightarrow> throttle" where
  "note_success ip th = th\<lparr>th_by_ip := (th_by_ip th)(ip := None)\<rparr>"

subsection \<open>The session table\<close>

record session =
  s_id :: string
  s_username :: string
  s_created :: int
  s_last_seen :: int
  s_expires :: int

datatype session_error =
    UsernameRequired
  | UsernameTooLong
  | UsernameControl
  | TtlNotPositive
  | IntervalNegative
  | SessionRandom string
  | SessionNotFound
  | SessionExpired
  | SessionDb string string

definition is_valid_session_id :: "string \<Rightarrow> bool" where
  "is_valid_session_id s \<longleftrightarrow> hex_run 64 s"

definition validate_username :: "string \<Rightarrow> (session_error, string) result" where
  "validate_username raw =
    (let u = trim_space raw in
     if u = [] then Inl UsernameRequired
     else if 64 < length u then Inl UsernameTooLong
     else if list_ex (\<lambda>c. byte c < 32 \<or> byte c = 127) u then Inl UsernameControl
     else Inr u)"

text \<open>The primary key refuses a second row with the same identifier.\<close>

definition create_session ::
  "faults \<Rightarrow> time \<Rightarrow> (string, string) result \<Rightarrow> string \<Rightarrow> int \<Rightarrow> session list \<Rightarrow>
   (session_error, session) result \<times> session list"
where
  "create_session fl now rid username ttl t =
    (case validate_username username of
       Inl e \<Rightarrow> (Inl e, t)
     | Inr u \<Rightarrow>
       (if ttl \<le> 0 then (Inl TtlNotPositive, t)
        else case rid of
          Inl e \<Rightarrow> (Inl (SessionRandom e), t)
        | Inr i \<Rightarrow>
          (let row = \<lparr>s_id = i, s_username = u, s_created = unix now, s_last_seen = unix now,
                      s_expires = unix (now + ttl)\<rparr>
           in case fl 0 of
                Some msg \<Rightarrow> (Inl (SessionDb ''insert session'' msg), t)
              | None \<Rightarrow>
                (if sel_row (\<lambda>r. s_id r = i) t \<noteq> None
                 then (Inl (SessionDb ''insert session'' ''UNIQUE constraint failed: sessions.id''), t)
                 else (Inr row, ins_row row t)))))"

definition get_session :: "faults \<Rightarrow> time \<Rightarrow> string \<Rightarrow> session list \<Rightarrow> (session_error, session) result" where
  "get_session fl now i t =
    (if \<not> is_valid_session_id i then Inl SessionNotFound
     else case fl 0 of
       Some msg \<Rightarrow> Inl (SessionDb ''get session'' msg)
     | None \<Rightarrow>
       (case sel_row (\<lambda>r. s_id r = i) t of
          None \<Rightarrow> Inl SessionNotFound
        | Some r \<Rightarrow> if from_unix (s_expires r) \<le> now then Inl SessionExpired else Inr r))"

text \<open>\<open>None\<close> is the zero time of a renewal that was not due.\<close>

definition touch_session ::
  "faults \<Rightarrow> time \<Rightarrow> string \<Rightarrow> int \<Rightarrow> int \<Rightarrow> session list \<Rightarrow> (session_error, int option) result \<times> session list"
where
  "touch_session fl now i min_interval ttl t =
    (if \<not> is_valid_session_id i then (Inl SessionNotFound, t)
     else if ttl \<le> 0 then (Inl TtlNotPositive, t)
     else if min_interval < 0 then (Inl IntervalNegative, t)
     else case fl 0 of
       Some msg \<Rightarrow> (Inl (SessionDb ''touch session lookup'' msg), t)
     | None \<Rightarrow>
       (case sel_row (\<lambda>r. s_id r = i) t of
          None \<Rightarrow> (Inl SessionNotFound, t)
        | Some r \<Rightarrow>
          (if now - from_unix (s_last_seen r) < min_interval then (Inr None, t)
           else case fl 1 of
             Some msg \<Rightarrow> (Inl (SessionDb ''touch session'' msg), t)
           | None \<Rightarrow>
             (Inr (Some (unix (now + ttl))),
              upd_where (\<lambda>r. s_id r = i)
                (\<lambda>r. r\<lparr>s_last_seen := unix now, s_expires := unix (now + ttl)\<rparr>) t))))"

definition delete_session :: "faults \<Rightarrow> string \<Rightarrow> session list \<Rightarrow> session_error option \<times> session list" where
  "delete_session fl i t =
    (if \<not> is_valid_session_id i then (None, t)
     else case fl 0 of
       Some msg \<Rightarrow> (Some (SessionDb ''delete session'' msg), t)
     | None \<Rightarrow> (None, del_where (\<lambda>r. s_id r = i) t))"

definition delete_expired :: "faults \<Rightarrow> time \<Rightarrow> session list \<Rightarrow> (session_error, nat) result \<times> session list" where
  "delete_expired fl now t =
    (let old = (\<lambda>r. s_expires r < unix now) in
     case fl 0 of
       Some msg \<Rightarrow> (Inl (SessionDb ''delete expired sessions'' msg), t)
     | None \<Rightarrow> (Inr (hits old t), del_where old t))"

subsection \<open>Passwords and accounts\<close>

record operator =
  u_name :: string
  u_hash :: string
  u_role :: string

record credentials =
  c_admin_user :: string
  c_admin_pass :: string
  c_users :: "operator list"

type_synonym mkpasswd = "string \<Rightarrow> string \<Rightarrow> (string, string) result"

text \<open>\<open>VerifyCryptSHA512\<close>: the salt runs from the prefix to the last dollar sign.\<close>

definition last_dollar :: "string \<Rightarrow> nat option" where
  "last_dollar s = (case filter (\<lambda>k. s ! k = CHR ''$'') [0..<length s] of [] \<Rightarrow> None | ks \<Rightarrow> Some (List.last ks))"

definition verify_crypt :: "mkpasswd \<Rightarrow> string \<Rightarrow> string \<Rightarrow> (string, bool) result" where
  "verify_crypt mk password hash =
    (if \<not> starts_with ''$6$'' hash then Inl ''verify: unsupported hash prefix''
     else case last_dollar hash of
       None \<Rightarrow> Inl ''verify: malformed hash''
     | Some k \<Rightarrow>
       (if k < 3 then Inl ''verify: malformed hash''
        else case mk (drop 3 (take k hash)) password of
          Inl e \<Rightarrow> Inl (''mkpasswd: '' @ e)
        | Inr out \<Rightarrow> Inr (trim_space out = hash)))"

definition verifies :: "mkpasswd \<Rightarrow> string \<Rightarrow> operator \<Rightarrow> bool" where
  "verifies mk password u \<longleftrightarrow> verify_crypt mk password (u_hash u) = Inr True"

subsection \<open>Login\<close>

record login_request =
  lg_username :: string
  lg_password :: string

text \<open>The account the credentials authenticate: the static pair first, then the named accounts.\<close>

definition authenticate :: "mkpasswd \<Rightarrow> credentials \<Rightarrow> string \<Rightarrow> string \<Rightarrow> string option" where
  "authenticate mk cr username password =
    (if c_admin_pass cr \<noteq> [] \<and> username \<noteq> [] \<and> password \<noteq> [] \<and>
        username = c_admin_user cr \<and> password = c_admin_pass cr
     then Some (c_admin_user cr)
     else case find (\<lambda>u. username = u_name u) (c_users cr) of
       None \<Rightarrow> None
     | Some u \<Rightarrow> if verifies mk password u \<and> u_name u \<noteq> [] then Some (u_name u) else None)"

datatype login_result =
    AuthDisabled
  | TooManyAttempts
  | InvalidCredentials
  | SessionCreateFailed session_error
  | LoggedIn session

definition login ::
  "mkpasswd \<Rightarrow> credentials \<Rightarrow> int \<Rightarrow> faults \<Rightarrow> time \<Rightarrow> (string, string) result \<Rightarrow> string \<Rightarrow>
   login_request option \<Rightarrow> throttle \<Rightarrow> session list \<Rightarrow> login_result \<times> throttle \<times> session list"
where
  "login mk cr ttl fl now rid ip body th t =
    (if c_admin_pass cr = [] \<and> c_users cr = [] then (AuthDisabled, th, t)
     else case blocked now ip th of
       (True, th1) \<Rightarrow> (TooManyAttempts, th1, t)
     | (False, th1) \<Rightarrow>
       (case body of
          None \<Rightarrow> (InvalidCredentials, th1, t)
        | Some inp \<Rightarrow>
          (case authenticate mk cr (trim_space (lg_username inp)) (lg_password inp) of
             None \<Rightarrow> (InvalidCredentials, note_failure now ip th1, t)
           | Some user \<Rightarrow>
             (case create_session fl now rid user ttl t of
                (Inl e, t1) \<Rightarrow> (SessionCreateFailed e, note_success ip th1, t1)
              | (Inr s, t1) \<Rightarrow> (LoggedIn s, note_success ip th1, t1)))))"

definition logout :: "faults \<Rightarrow> string option \<Rightarrow> session list \<Rightarrow> session list" where
  "logout fl cookie t =
    (case cookie of
       None \<Rightarrow> t
     | Some v \<Rightarrow> if v = [] then t else snd (delete_session fl v t))"

subsection \<open>Access control\<close>

record http_request =
  hr_path :: string
  hr_cookie :: "string option"
  hr_basic :: "(string \<times> string) option"
  hr_fetch_dest :: string
  hr_accept :: string

record identity =
  id_user :: string
  id_role :: string

text \<open>The request reaches the handler with the attached identity, or is turned away.\<close>

datatype access = Served "identity option" | LoginRedirect string | Denied

definition open_paths :: "string list" where
  "open_paths = [''/api/v1/report'', ''/api/v1/auth/login'', ''/api/v1/auth/logout'', ''/healthz'', ''/'', ''/ui/login'']"

definition open_prefixes :: "string list" where
  "open_prefixes = [''/api/v1/heartbeat/'', ''/api/v1/agent/'', ''/boot/'', ''/ui/assets/'']"

definition needs_auth :: "string \<Rightarrow> bool" where
  "needs_auth path =
    (if path \<in> set open_paths then False
     else if list_ex (\<lambda>p. starts_with p path) open_prefixes then False
     else starts_with ''/api/'' path \<or> path = ''/api'' \<or> path = ''/ui'' \<or> starts_with ''/ui/'' path)"

definition is_html_request :: "http_request \<Rightarrow> bool" where
  "is_html_request r \<longleftrightarrow> hr_fetch_dest r = ''document'' \<or> contains_sub ''text/html'' (hr_accept r)"

definition session_touch_interval :: int where
  "session_touch_interval = 3600 * second"

definition session_ttl :: int where
  "session_ttl = 7 * 24 * 3600 * second"

text \<open>The role of a session's user: the configured one, and admin when no account has the name.\<close>

definition session_role :: "operator list \<Rightarrow> string \<Rightarrow> string" where
  "session_role users name = (case find (\<lambda>u. u_name u = name) users of None \<Rightarrow> ''admin'' | Some u \<Rightarrow> u_role u)"

definition basic_identity :: "mkpasswd \<Rightarrow> credentials \<Rightarrow> string \<Rightarrow> string \<Rightarrow> identity option" where
  "basic_identity mk cr u p =
    (if c_admin_pass cr \<noteq> [] \<and> u = c_admin_user cr \<and> p = c_admin_pass cr
     then Some \<lparr>id_user = c_admin_user cr, id_role = ''admin''\<rparr>
     else case find (\<lambda>ou. u = u_name ou) (c_users cr) of
       None \<Rightarrow> None
     | Some ou \<Rightarrow> if verifies mk p ou then Some \<lparr>id_user = u_name ou, id_role = u_role ou\<rparr> else None)"

definition reject :: "http_request \<Rightarrow> access" where
  "reject r =
    (if is_html_request r \<and> starts_with ''/ui'' (hr_path r) then LoginRedirect (hr_path r) else Denied)"

text \<open>The lookup runs under the plan \<open>fl\<close>, the best-effort renewal under \<open>fl'\<close>.\<close>

definition session_or_basic_auth ::
  "mkpasswd \<Rightarrow> credentials \<Rightarrow> bool \<Rightarrow> faults \<Rightarrow> faults \<Rightarrow> time \<Rightarrow> http_request \<Rightarrow> session list \<Rightarrow>
   access \<times> session list"
where
  "session_or_basic_auth mk cr has_store fl fl' now r t =
    (let by_basic = (case hr_basic r of
           None \<Rightarrow> (reject r, t)
         | Some (u, p) \<Rightarrow>
             (case basic_identity mk cr u p of None \<Rightarrow> (reject r, t) | Some i \<Rightarrow> (Served (Some i), t)))
     in if c_admin_pass cr = [] \<and> c_users cr = [] then (Served None, t)
        else if \<not> needs_auth (hr_path r) then (Served None, t)
        else case hr_cookie r of
          None \<Rightarrow> by_basic
        | Some v \<Rightarrow>
          (if v = [] \<or> \<not> has_store then by_basic
           else case get_session fl now v t of
             Inl e \<Rightarrow> by_basic
           | Inr s \<Rightarrow>
             (Served (Some \<lparr>id_user = s_username s, id_role = session_role (c_users cr) (s_username s)\<rparr>),
              snd (touch_session fl' now (s_id s) session_touch_interval session_ttl t))))"

text \<open>\<open>IsAdmin\<close> on the role attached to the request; no role counts as admin.\<close>

definition is_admin :: "identity option \<Rightarrow> bool" where
  "is_admin i = (case i of None \<Rightarrow> True | Some i \<Rightarrow> id_role i = [] \<or> id_role i = ''admin'')"

subsection \<open>The session table keeps its key\<close>

definition sessions_inv :: "session list \<Rightarrow> bool" where
  "sessions_inv t \<longleftrightarrow> keyed s_id t \<and> (\<forall>s \<in> set t. s_username s \<noteq> [] \<and> length (s_username s) \<le> 64)"

lemma validate_username_ok: "validate_username raw = Inr u \<Longrightarrow> u = trim_space raw \<and> u \<noteq> [] \<and> length u \<le> 64"
  by (auto simp: validate_username_def Let_def split: if_splits)

lemma create_session_cases:
  assumes "create_session fl now rid username ttl t = (res, t')"
  obtains (refused) e where "res = Inl e" "t' = t"
    | (made) i u where "rid = Inr i" "0 < ttl" "\<forall>s \<in> set t. s_id s \<noteq> i" "validate_username username = Inr u"
        "res = Inr \<lparr>s_id = i, s_username = u, s_created = unix now, s_last_seen = unix now,
           s_expires = unix (now + ttl)\<rparr>" "t' = ins_row (projr res) t"
proof (cases "validate_username username")
  case (Inl e)
  with assms refused show thesis by (auto simp: create_session_def)
next
  case (Inr u)
  show thesis
  proof (cases "ttl \<le> 0 \<or> isl rid \<or> fl 0 \<noteq> None \<or> sel_row (\<lambda>r. s_id r = projr rid) t \<noteq> None")
    case True
    with assms Inr refused show thesis
      by (auto simp: create_session_def Let_def split: sum.splits option.splits if_splits)
  next
    case False
    then obtain i where "rid = Inr i" by (cases rid) auto
    with assms Inr False made [of i u] show thesis
      by (auto simp: create_session_def Let_def sel_row_None)
  qed
qed

lemma create_session_inv:
  assumes "sessions_inv t"
  shows "sessions_inv (snd (create_session fl now rid username ttl t))"
proof (cases "create_session fl now rid username ttl t")
  case (Pair res t')
  then have "sessions_inv t'"
  proof (cases rule: create_session_cases)
    case (made i u)
    with assms validate_username_ok [OF made(4)] show ?thesis
      by (auto simp: sessions_inv_def intro!: keyed_ins)
  qed (use assms in simp)
  with Pair show ?thesis by simp
qed

lemma touch_session_inv: "sessions_inv t \<Longrightarrow> sessions_inv (snd (touch_session fl now i m ttl t))"
  by (auto simp: touch_session_def sessions_inv_def set_upd_where intro!: keyed_upd split: option.splits)

lemma delete_session_inv: "sessions_inv t \<Longrightarrow> sessions_inv (snd (delete_session fl i t))"
  by (auto simp: delete_session_def sessions_inv_def split: option.splits)

lemma delete_expired_inv: "sessions_inv t \<Longrightarrow> sessions_inv (snd (delete_expired fl now t))"
  by (auto simp: delete_expired_def sessions_inv_def Let_def split: option.splits)

lemma get_session_Inr:
  "get_session fl now i t = Inr s \<Longrightarrow> s \<in> set t \<and> s_id s = i \<and> now < from_unix (s_expires s) \<and> is_valid_session_id i"
  by (auto simp: get_session_def dest: sel_row_Some split: if_splits option.splits)

text \<open>
  C12: Logging in takes the right credentials: a login that opens a session comes from an address
  that is not blocked, with the static pair or with the password of the first account of that name,
  and the session it stores is new, belongs to that account and expires after the given time. Every
  other outcome leaves the session table as it was.
\<close>

theorem login_needs_credentials:
  assumes "sessions_inv t" and "login mk cr ttl fl now rid ip body th t = (res, th', t')"
  shows "sessions_inv t' \<and> (case res of
      LoggedIn s \<Rightarrow> (\<exists>inp user. body = Some inp \<and> \<not> fst (blocked now ip th) \<and>
          validate_username user = Inr (s_username s) \<and>
          (user = c_admin_user cr \<and> lg_password inp = c_admin_pass cr \<and> lg_password inp \<noteq> [] \<or>
           (\<exists>u \<in> set (c_users cr). u_name u = user \<and> verifies mk (lg_password inp) u)) \<and>
          user = trim_space (lg_username inp)) \<and>
        rid = Inr (s_id s) \<and> (\<forall>q \<in> set t. s_id q \<noteq> s_id s) \<and> t' = ins_row s t \<and> s_expires s = unix (now + ttl)
    | _ \<Rightarrow> t' = t)"
proof (cases "c_admin_pass cr = [] \<and> c_users cr = []")
  case True
  with assms show ?thesis by (simp add: login_def)
next
  case enabled: False
  obtain bl th1 where bl: "blocked now ip th = (bl, th1)" by fastforce
  show ?thesis
  proof (cases "bl \<or> body = None \<or>
      authenticate mk cr (trim_space (lg_username (the body))) (lg_password (the body)) = None")
    case True
    have "(res = TooManyAttempts \<or> res = InvalidCredentials) \<and> t' = t"
    proof (cases bl)
      case True
      with assms(2) enabled bl show ?thesis by (auto simp: login_def)
    next
      case False
      with assms(2) enabled bl True show ?thesis by (auto simp: login_def split: option.splits)
    qed
    with assms(1) show ?thesis by auto
  next
    case False
    then obtain inp user where inp: "body = Some inp"
      "authenticate mk cr (trim_space (lg_username inp)) (lg_password inp) = Some user" by auto
    obtain r t1 where cs: "create_session fl now rid user ttl t = (r, t1)" by fastforce
    have out: "t' = t1" "res = (case r of Inl e \<Rightarrow> SessionCreateFailed e | Inr s \<Rightarrow> LoggedIn s)"
      using assms(2) enabled bl False inp cs by (auto simp: login_def split: sum.splits)
    have inv: "sessions_inv t'"
      using create_session_inv [OF assms(1), of fl now rid user ttl] cs out by simp
    have user: "user = trim_space (lg_username inp)"
      "user = c_admin_user cr \<and> lg_password inp = c_admin_pass cr \<and> lg_password inp \<noteq> [] \<or>
       (\<exists>u \<in> set (c_users cr). u_name u = user \<and> verifies mk (lg_password inp) u)"
      using inp(2) by (auto simp: authenticate_def find_Some_iff split: if_splits option.splits)
    from cs show ?thesis
    proof (cases rule: create_session_cases)
      case (made i u)
      with out inv user inp bl False show ?thesis by auto
    qed (use inv out in auto)
  qed
qed

subsection \<open>Guessing passwords\<close>

text \<open>Login requests of any addresses, one after the other, and the answers that one of them gets.\<close>

record attempt =
  at_now :: time
  at_body :: login_request
  at_faults :: faults
  at_random :: "(string, string) result"

fun try_logins ::
  "mkpasswd \<Rightarrow> credentials \<Rightarrow> int \<Rightarrow> (string \<times> attempt) list \<Rightarrow> throttle \<Rightarrow> session list \<Rightarrow> (string \<times> login_result) list"
where
  "try_logins mk cr ttl [] th t = []"
| "try_logins mk cr ttl (c # cs) th t =
    (case login mk cr ttl (at_faults (snd c)) (at_now (snd c)) (at_random (snd c)) (fst c) (Some (at_body (snd c))) th t of
       (r, th', t') \<Rightarrow> (fst c, r) # try_logins mk cr ttl cs th' t')"

definition of_address :: "string \<Rightarrow> (string \<times> 'a) list \<Rightarrow> 'a list" where
  "of_address ip xs = map snd (filter (\<lambda>x. fst x = ip) xs)"

lemma of_address_simps [simp]:
  "of_address ip [] = []" "of_address ip (x # xs) = (if fst x = ip then snd x # of_address ip xs else of_address ip xs)"
  by (simp_all add: of_address_def)

definition wrong_guess :: "mkpasswd \<Rightarrow> credentials \<Rightarrow> attempt \<Rightarrow> bool" where
  "wrong_guess mk cr a \<longleftrightarrow>
    authenticate mk cr (trim_space (lg_username (at_body a))) (lg_password (at_body a)) = None"

lemma login_wrong_guess:
  assumes "\<not> (c_admin_pass cr = [] \<and> c_users cr = [])" "wrong_guess mk cr a"
    "th_by_ip th ip = Some \<lparr>w_fails = k, w_at = w\<rparr>" "at_now a - w < th_window th" "k < th_limit th"
  shows "login mk cr ttl (at_faults a) (at_now a) (at_random a) ip (Some (at_body a)) th t =
    (InvalidCredentials, th\<lparr>th_by_ip := (th_by_ip th)(ip \<mapsto> \<lparr>w_fails = Suc k, w_at = w\<rparr>)\<rparr>, t)"
  using assms by (auto simp: login_def blocked_def note_failure_def wrong_guess_def)

text \<open>A blocked address is turned away whatever it sends.\<close>

lemma login_blocked:
  assumes "\<not> (c_admin_pass cr = [] \<and> c_users cr = [])"
    "th_by_ip th ip = Some \<lparr>w_fails = k, w_at = w\<rparr>" "now - w < th_window th" "th_limit th \<le> k"
  shows "login mk cr ttl fl now rid ip body th t = (TooManyAttempts, th, t)"
  using assms by (auto simp: login_def blocked_def)

text \<open>A call touches the counter of its own address only.\<close>

lemma login_throttle:
  assumes "login mk cr ttl fl now rid ip body th t = (r, th', t')"
  shows "th_limit th' = th_limit th" "th_window th' = th_window th" "x \<noteq> ip \<Longrightarrow> th_by_ip th' x = th_by_ip th x"
  using assms
  by (auto simp: login_def blocked_def note_failure_def note_success_def Let_def
      split: if_splits option.splits sum.splits prod.splits bool.splits)

lemma answers_in_window:
  assumes "\<not> (c_admin_pass cr = [] \<and> c_users cr = [])"
  shows "th_by_ip th ip = Some \<lparr>w_fails = k, w_at = w\<rparr> \<Longrightarrow>
    (\<forall>a \<in> set (take (th_limit th - k) (of_address ip cs)). wrong_guess mk cr a) \<Longrightarrow>
    (\<forall>a \<in> set (of_address ip cs). at_now a - w < th_window th) \<Longrightarrow>
    of_address ip (try_logins mk cr ttl cs th t) =
      replicate (min (length (of_address ip cs)) (th_limit th - k)) InvalidCredentials @
      replicate (length (of_address ip cs) - (th_limit th - k)) TooManyAttempts"
proof (induction cs arbitrary: th t k)
  case (Cons c cs)
  let ?a = "snd c"
  obtain r th' t' where l: "login mk cr ttl (at_faults ?a) (at_now ?a) (at_random ?a) (fst c) (Some (at_body ?a)) th t = (r, th', t')"
    by (metis prod.collapse)
  note th' = login_throttle [OF l]
  show ?case
  proof (cases "fst c = ip")
    case False
    with Cons.prems th'(3) [of ip] have "th_by_ip th' ip = Some \<lparr>w_fails = k, w_at = w\<rparr>" by simp
    from Cons.IH [OF this] Cons.prems False l th'(1,2) show ?thesis by simp
  next
    case own: True
    then have now: "at_now ?a - w < th_window th" using Cons.prems(3) by simp
    show ?thesis
    proof (cases "th_limit th \<le> k")
      case True
      from l [unfolded own login_blocked [OF assms Cons.prems(1) now True]] have "r = TooManyAttempts" "th' = th" by simp_all
      with Cons.IH [of th k t'] Cons.prems own l True show ?thesis by simp
    next
      case False
      then obtain d where d: "th_limit th - k = Suc d" "th_limit th - Suc k = d" by (cases "th_limit th - k") auto
      with Cons.prems(2) own have "wrong_guess mk cr ?a" by simp
      from l [unfolded own login_wrong_guess [OF assms this Cons.prems(1) now False [unfolded not_le], of ttl t]]
      have r: "r = InvalidCredentials" "th' = th\<lparr>th_by_ip := (th_by_ip th)(ip \<mapsto> \<lparr>w_fails = Suc k, w_at = w\<rparr>)\<rparr>"
        by simp_all
      with Cons.IH [of th' "Suc k" t'] Cons.prems own l d show ?thesis by simp
    qed
  qed
qed simp


subsection \<open>Sessions end\<close>

text \<open>A request that carries only a session cookie, for a path that needs an identity.\<close>

definition cookie_request :: "string \<Rightarrow> http_request \<Rightarrow> bool" where
  "cookie_request v r \<longleftrightarrow> hr_cookie r = Some v \<and> hr_basic r = None \<and> needs_auth (hr_path r)"

lemma get_error_rejects:
  assumes "\<not> (c_admin_pass cr = [] \<and> c_users cr = [])" "cookie_request v r" "get_session fl now v t = Inl e"
  shows "fst (session_or_basic_auth mk cr has fl fl' now r t) = reject r"
  using assms by (auto simp: session_or_basic_auth_def cookie_request_def Let_def)

text \<open>
  A session that was ended opens nothing: once the database has deleted the session at logout,
  and from the second its lifetime is over, a request that carries its cookie is turned away, as
  long as no new session has the same identifier.
\<close>

theorem ended_session_opens_nothing:
  assumes "\<not> (c_admin_pass cr = [] \<and> c_users cr = [])" and "sessions_inv t" and "fl 0 = None"
    and "cookie_request v r" and "is_valid_session_id v"
  shows "fst (session_or_basic_auth mk cr has fl1 fl2 now r (logout fl (Some v) t)) = reject r \<and>
    (\<forall>s \<in> set t. s_id s = v \<and> from_unix (s_expires s) \<le> now \<longrightarrow>
       fst (session_or_basic_auth mk cr has fl1 fl2 now r t) = reject r)"
proof
  have "v \<noteq> []"
    using assms(5) by (auto simp: is_valid_session_id_def hex_run_def)
  then have "\<exists>e. get_session fl1 now v (logout fl (Some v) t) = Inl e"
    using assms(3,5) by (auto simp: logout_def delete_session_def get_session_def dest!: sel_row_Some split: option.splits)
  then show "fst (session_or_basic_auth mk cr has fl1 fl2 now r (logout fl (Some v) t)) = reject r"
    using get_error_rejects [OF assms(1,4)] by blast
  show "\<forall>s \<in> set t. s_id s = v \<and> from_unix (s_expires s) \<le> now \<longrightarrow>
       fst (session_or_basic_auth mk cr has fl1 fl2 now r t) = reject r"
  proof (intro ballI impI)
    fix s assume s: "s \<in> set t" "s_id s = v \<and> from_unix (s_expires s) \<le> now"
    then have "sel_row (\<lambda>r. s_id r = v) t = Some s"
      using keyed_sel [of s_id t s] assms(2) by (simp add: sessions_inv_def)
    then have "\<exists>e. get_session fl1 now v t = Inl e"
      using s(2) by (auto simp: get_session_def split: option.splits)
    then show "fst (session_or_basic_auth mk cr has fl1 fl2 now r t) = reject r"
      using get_error_rejects [OF assms(1,4)] by blast
  qed
qed

text \<open>
  Access control is fail-closed and grants only what was proved: with credentials configured, a
  request for a path under \<open>/api/\<close> or \<open>/ui/\<close> that is not on the open list reaches its handler only
  with an identity, which is that of a live session of the table, or of the static pair, or of the
  account whose password it presented, with that account's role.
\<close>

theorem access_needs_identity:
  assumes "\<not> (c_admin_pass cr = [] \<and> c_users cr = [])" and "needs_auth (hr_path r)"
    and "session_or_basic_auth mk cr has fl fl' now r t = (Served i, t')"
  shows "\<exists>x. i = Some x \<and>
    ((\<exists>s \<in> set t. hr_cookie r = Some (s_id s) \<and> now < from_unix (s_expires s) \<and> id_user x = s_username s \<and>
        id_role x = session_role (c_users cr) (s_username s)) \<or>
     (\<exists>p. hr_basic r = Some (c_admin_user cr, p) \<and> p = c_admin_pass cr \<and> p \<noteq> [] \<and> id_role x = ''admin'') \<or>
     (\<exists>p u. hr_basic r = Some (u_name u, p) \<and> u \<in> set (c_users cr) \<and> verifies mk p u \<and>
        id_user x = u_name u \<and> id_role x = u_role u))"
proof -
  have basic: "hr_basic r = Some (u, p) \<Longrightarrow> basic_identity mk cr u p = Some x \<Longrightarrow>
      (u = c_admin_user cr \<and> p = c_admin_pass cr \<and> p \<noteq> [] \<and> id_role x = ''admin'') \<or>
      (\<exists>ou \<in> set (c_users cr). u = u_name ou \<and> verifies mk p ou \<and> id_user x = u_name ou \<and> id_role x = u_role ou)"
    for u p x
    by (auto simp: basic_identity_def find_Some_iff split: if_splits option.splits)
  have via_basic: ?thesis if via: "(case hr_basic r of None \<Rightarrow> (reject r, t)
      | Some (u, p) \<Rightarrow> (case basic_identity mk cr u p of None \<Rightarrow> (reject r, t) | Some i \<Rightarrow> (Served (Some i), t)))
      = (Served i, t')"
  proof -
    obtain u p where up: "hr_basic r = Some (u, p)"
      using via by (cases "hr_basic r") (auto simp: reject_def split: if_splits)
    with via obtain x where x: "basic_identity mk cr u p = Some x" "i = Some x"
      by (cases "basic_identity mk cr u p") (auto simp: reject_def split: if_splits)
    with basic [OF up x(1)] up show ?thesis by auto
  qed
  show ?thesis
  proof (cases "\<exists>v s. hr_cookie r = Some v \<and> v \<noteq> [] \<and> has \<and> get_session fl now v t = Inr s")
    case True
    then obtain v s where v: "hr_cookie r = Some v" "v \<noteq> []" "has" "get_session fl now v t = Inr s" by blast
    with assms have "i = Some \<lparr>id_user = s_username s, id_role = session_role (c_users cr) (s_username s)\<rparr>"
      by (auto simp: session_or_basic_auth_def Let_def)
    with get_session_Inr [OF v(4)] v(1) show ?thesis by auto
  next
    case False
    then have "session_or_basic_auth mk cr has fl fl' now r t = (case hr_basic r of None \<Rightarrow> (reject r, t)
      | Some (u, p) \<Rightarrow> (case basic_identity mk cr u p of None \<Rightarrow> (reject r, t) | Some i \<Rightarrow> (Served (Some i), t)))"
      using assms(1,2) by (auto simp: session_or_basic_auth_def Let_def split: option.splits sum.splits)
    with assms(3) via_basic show ?thesis by simp
  qed
qed

subsection \<open>A concrete deployment\<close>

definition demo_mk :: mkpasswd where
  "demo_mk salt password = Inr (''$6$'' @ salt @ ''$'' @ password)"

definition demo_users :: "operator list" where
  "demo_users = [\<lparr>u_name = ''eve'', u_hash = ''$6$ab$pw'', u_role = ''operator''\<rparr>]"

definition demo_creds :: credentials where
  "demo_creds = \<lparr>c_admin_user = ''admin'', c_admin_pass = ''secret'', c_users = demo_users\<rparr>"

definition demo_sid :: string where
  "demo_sid = replicate 64 CHR ''a''"

definition demo_session :: session where
  "demo_session = \<lparr>s_id = demo_sid, s_username = ''eve'', s_created = 0, s_last_seen = 0, s_expires = 100\<rparr>"

definition demo_login :: "string \<Rightarrow> login_request" where
  "demo_login pw = \<lparr>lg_username = '' eve'', lg_password = pw\<rparr>"

definition demo_http :: http_request where
  "demo_http = \<lparr>hr_path = ''/api/v1/jobs'', hr_cookie = Some demo_sid, hr_basic = None, hr_fetch_dest = [],
     hr_accept = ''application/json''\<rparr>"

lemma demo_sessions_inv: "sessions_inv [demo_session]" "sessions_inv []"
  by (simp_all add: sessions_inv_def keyed_def demo_session_def)

lemma demo_creds_on: "\<not> (c_admin_pass demo_creds = [] \<and> c_users demo_creds = [])"
  by (simp add: demo_creds_def)

lemma login_needs_credentials_witness:
  "\<exists>s th'. login demo_mk demo_creds (100 * second) no_faults 0 (Inr demo_sid) ''10.0.0.9'' (Some (demo_login ''pw''))
      (new_login_throttle 10 300) [] = (LoggedIn s, th', [s]) \<and> verifies demo_mk ''pw'' (hd demo_users) \<and>
    s_username s = ''eve'' \<and> sessions_inv [s]"
proof -
  let ?l = "login demo_mk demo_creds (100 * second) no_faults 0 (Inr demo_sid) ''10.0.0.9'' (Some (demo_login ''pw''))
      (new_login_throttle 10 300) []"
  have "case fst ?l of LoggedIn s \<Rightarrow> s_username s = ''eve'' | _ \<Rightarrow> False" by code_simp
  then obtain s th' t' where l: "?l = (LoggedIn s, th', t')" and eve: "s_username s = ''eve''"
    by (cases ?l) (auto split: login_result.splits)
  have "verifies demo_mk ''pw'' (hd demo_users)" by code_simp
  with l eve login_needs_credentials [OF demo_sessions_inv(2) l] show ?thesis
    by (auto simp: ins_row_def)
qed

definition demo_attempt :: "time \<Rightarrow> string \<Rightarrow> attempt" where
  "demo_attempt now pw = \<lparr>at_now = now, at_body = demo_login pw, at_faults = no_faults, at_random = Inr demo_sid\<rparr>"

definition demo_calls :: "(string \<times> attempt) list" where
  "demo_calls = [(''10.0.0.9'', demo_attempt 0 ''bad''), (''10.0.0.8'', demo_attempt 1 ''pw''),
     (''10.0.0.9'', demo_attempt 2 ''bad''), (''10.0.0.9'', demo_attempt 3 ''pw'')]"


lemma ended_session_opens_nothing_witness:
  "fst (session_or_basic_auth demo_mk demo_creds True no_faults no_faults 0 demo_http
     (logout no_faults (Some demo_sid) [demo_session])) = Denied"
proof -
  have f: "no_faults 0 = None" "cookie_request demo_sid demo_http" "is_valid_session_id demo_sid"
    by (simp, code_simp, code_simp)
  have "reject demo_http = Denied" by code_simp
  with ended_session_opens_nothing [where fl = no_faults, OF demo_creds_on demo_sessions_inv(1) f] show ?thesis by simp
qed

lemma access_needs_identity_witness:
  "\<exists>x t'. session_or_basic_auth demo_mk demo_creds True no_faults no_faults 0 demo_http [demo_session] =
      (Served (Some x), t') \<and> id_user x = ''eve''"
proof -
  let ?r = "session_or_basic_auth demo_mk demo_creds True no_faults no_faults 0 demo_http [demo_session]"
  have "case fst ?r of Served i \<Rightarrow> True | _ \<Rightarrow> False" by code_simp
  then obtain i t' where r: "?r = (Served i, t')" by (cases ?r) (auto split: access.splits)
  have "needs_auth (hr_path demo_http)" by code_simp
  from access_needs_identity [OF demo_creds_on this r] r show ?thesis
    by (auto simp: demo_http_def demo_session_def)
qed

text \<open>
  A session outlives its account with more rights than it had: when the operator account of a
  live session is removed from the configuration, the next request with that cookie is served with
  the role admin, where it had the role operator.
\<close>

theorem removed_operator_becomes_admin:
  "(case session_or_basic_auth demo_mk demo_creds True no_faults no_faults 0 demo_http [demo_session] of
      (Served i, t) \<Rightarrow> i = Some \<lparr>id_user = ''eve'', id_role = ''operator''\<rparr> \<and> \<not> is_admin i | _ \<Rightarrow> False) \<and>
   (case session_or_basic_auth demo_mk (demo_creds\<lparr>c_users := []\<rparr>) True no_faults no_faults 0 demo_http [demo_session] of
      (Served i, t) \<Rightarrow> i = Some \<lparr>id_user = ''eve'', id_role = ''admin''\<rparr> \<and> is_admin i | _ \<Rightarrow> False)"
  by (intro conjI; code_simp)

end
