(* ===== verification/Job_Store.thy ===== *)
theory Job_Store
  imports Go_Text
begin

text \<open>
  \<open>internal/jobs/validate.go\<close>, \<open>schema.go\<close> and \<open>store.go\<close>: the catalog of install jobs and their
  log streams. The state \<open>jobs_db\<close> holds the tables \<open>jobs\<close> and \<open>job_logs\<close> and, of the tables they
  reference, what this package reads. A row of \<open>jobs\<close> is the \<open>Job\<close> struct; its times are the
  integer columns (Unix seconds), and the nullable columns are options or, where \<open>scanJob\<close> maps
  \<open>NULL\<close> to the empty text, texts. The database runs with foreign keys enforced, so the
  statements check them; an identifier drawn at random is an argument.
\<close>

subsection \<open>Rows\<close>

datatype job_status = Pending | Running | Succeeded | Failed | Cancelled

record job =
  jb_id :: string
  jb_machine :: string
  jb_type :: string
  jb_image :: string
  jb_profile :: string
  jb_status :: job_status
  jb_stage :: string
  jb_error :: string
  jb_created :: int
  jb_started :: "int option"
  jb_finished :: "int option"
  jb_created_by :: string
  jb_retry :: "string option"

record job_log =
  jl_id :: int
  jl_job :: string
  jl_ts :: int
  jl_level :: string
  jl_message :: string

record machine =
  mc_uuid :: string
  mc_last_seen :: int
  mc_latest_report :: "int option"

text \<open>\<open>db_log_seq\<close> is the largest \<open>AUTOINCREMENT\<close> value \<open>job_logs\<close> ever used.\<close>

record jobs_db =
  db_machines :: "machine list"
  db_images :: "string list"
  db_profiles :: "string list"
  db_jobs :: "job list"
  db_logs :: "job_log list"
  db_log_seq :: int

record job_create =
  jc_machine :: string
  jc_type :: string
  jc_image :: string
  jc_profile :: string
  jc_created_by :: string
  jc_retry :: string

record job_filter =
  jf_machine :: string
  jf_status :: string
  jf_limit :: int

datatype job_error =
    BadMachineUuid string
  | BadId string string
  | BadType string
  | StageTooLong nat
  | BadLevel string
  | BadStatus string
  | CreatedByMissing
  | JobNotFound
  | InFlight
  | MachineUnknown string
  | ImageUnknown string
  | ProfileUnknown string
  | InvalidTransition job_status
  | JobRandom string
  | JobDb string string
  | JobDriver string

subsection \<open>Validation\<close>

definition max_stage_len :: nat where
  "max_stage_len = 64"

definition max_error_len :: nat where
  "max_error_len = 4096"

definition max_log_message_len :: nat where
  "max_log_message_len = 4096"

definition validate_machine_uuid :: "string \<Rightarrow> (job_error, string) result" where
  "validate_machine_uuid u0 =
    (let u = lower_trim u0 in if \<not> smbios_uuid_match u then Inl (BadMachineUuid u) else Inr u)"

definition validate_id :: "string \<Rightarrow> string \<Rightarrow> (job_error, string) result" where
  "validate_id field i0 =
    (let i = lower_trim i0 in if \<not> hex32_match i then Inl (BadId field i) else Inr i)"

definition validate_job_id :: "string \<Rightarrow> (job_error, string) result" where
  "validate_job_id i = validate_id ''job_id'' i"

definition valid_job_types :: "string list" where
  "valid_job_types = [''install'', ''reinstall'']"

definition validate_type :: "string \<Rightarrow> (job_error, string) result" where
  "validate_type t0 =
    (let t = lower_trim t0 in if t \<notin> set valid_job_types then Inl (BadType t) else Inr t)"

definition validate_stage :: "string \<Rightarrow> (job_error, string) result" where
  "validate_stage s0 =
    (let s = trim_space s0 in if max_stage_len < length s then Inl (StageTooLong (length s)) else Inr s)"

definition validate_error :: "string \<Rightarrow> string" where
  "validate_error s0 =
    (let s = trim_space s0 in if max_error_len < length s then take max_error_len s else s)"

definition valid_log_levels :: "string list" where
  "valid_log_levels = [''debug'', ''info'', ''warn'', ''error'']"

definition validate_log_level :: "string \<Rightarrow> (job_error, string) result" where
  "validate_log_level s0 =
    (let s = lower_trim s0 in if s \<notin> set valid_log_levels then Inl (BadLevel s) else Inr s)"

definition validate_log_message :: "string \<Rightarrow> string" where
  "validate_log_message s = (if max_log_message_len < length s then take max_log_message_len s else s)"

fun status_text :: "job_status \<Rightarrow> string" where
  "status_text Pending = ''pending''"
| "status_text Running = ''running''"
| "status_text Succeeded = ''succeeded''"
| "status_text Failed = ''failed''"
| "status_text Cancelled = ''cancelled''"

definition valid_job_statuses :: "job_status list" where
  "valid_job_statuses = [Pending, Running, Succeeded, Failed, Cancelled]"

definition status_of :: "string \<Rightarrow> job_status option" where
  "status_of s = find (\<lambda>st. status_text st = s) valid_job_statuses"

fun terminal :: "job_status \<Rightarrow> bool" where
  "terminal Pending = False"
| "terminal Running = False"
| "terminal _ = True"

definition in_flight :: "job \<Rightarrow> bool" where
  "in_flight r \<longleftrightarrow> jb_status r \<in> {Pending, Running}"

lemma in_flight_terminal: "in_flight r \<longleftrightarrow> \<not> terminal (jb_status r)"
  by (cases "jb_status r") (simp_all add: in_flight_def)

subsection \<open>Statements\<close>

definition has_machine :: "jobs_db \<Rightarrow> string \<Rightarrow> bool" where
  "has_machine db u \<longleftrightarrow> u \<in> mc_uuid ` set (db_machines db)"

definition job_ids :: "job list \<Rightarrow> string set" where
  "job_ids js = jb_id ` set js"

definition retry_ok :: "job list \<Rightarrow> job \<Rightarrow> bool" where
  "retry_ok js r \<longleftrightarrow> (case jb_retry r of None \<Rightarrow> True | Some i \<Rightarrow> i \<in> job_ids js)"

text \<open>
  \<open>INSERT INTO jobs\<close>. The indexes are checked newest first, the partial unique index of in-flight
  jobs before the primary key, the foreign keys at the end of the statement.
\<close>

definition sql_insert_job :: "job \<Rightarrow> jobs_db \<Rightarrow> (string, jobs_db) result" where
  "sql_insert_job r db =
    (if in_flight r \<and> (\<exists>q \<in> set (db_jobs db). in_flight q \<and> jb_machine q = jb_machine r)
     then Inl ''constraint failed: UNIQUE constraint failed: jobs.machine_uuid (2067)''
     else if jb_id r \<in> job_ids (db_jobs db)
     then Inl ''constraint failed: UNIQUE constraint failed: jobs.id (1555)''
     else if \<not> (has_machine db (jb_machine r) \<and> jb_image r \<in> set (db_images db)
                \<and> jb_profile r \<in> set (db_profiles db) \<and> retry_ok (ins_row r (db_jobs db)) r)
     then Inl ''constraint failed: FOREIGN KEY constraint failed (787)''
     else Inr (db\<lparr>db_jobs := ins_row r (db_jobs db)\<rparr>))"

text \<open>
  \<open>DELETE FROM jobs WHERE p\<close>: the log lines go by \<open>ON DELETE CASCADE\<close>; \<open>retry_of_job_id\<close> has no
  action, so a row that stays and refers to a deleted one refuses the statement.
\<close>

definition sql_delete_jobs :: "(job \<Rightarrow> bool) \<Rightarrow> jobs_db \<Rightarrow> (string, jobs_db) result" where
  "sql_delete_jobs p db =
    (let keep = del_where p (db_jobs db) in
     if \<not> list_all (retry_ok keep) keep
     then Inl ''constraint failed: FOREIGN KEY constraint failed (787)''
     else Inr (db\<lparr>db_jobs := keep,
       db_logs := del_where (\<lambda>l. \<exists>q \<in> set (db_jobs db). p q \<and> jb_id q = jl_job l) (db_logs db)\<rparr>))"

definition sql_insert_log :: "string \<Rightarrow> int \<Rightarrow> string \<Rightarrow> string \<Rightarrow> jobs_db \<Rightarrow> (string, jobs_db) result" where
  "sql_insert_log i ts level msg db =
    (if i \<notin> job_ids (db_jobs db) then Inl ''constraint failed: FOREIGN KEY constraint failed (787)''
     else Inr (db\<lparr>db_log_seq := db_log_seq db + 1,
       db_logs := ins_row \<lparr>jl_id = db_log_seq db + 1, jl_job = i, jl_ts = ts, jl_level = level,
                          jl_message = msg\<rparr> (db_logs db)\<rparr>))"

text \<open>A statement under the fault plan: the driver's failure, or the statement's own outcome.\<close>

definition try_sql :: "string option \<Rightarrow> (string, 'a) result \<Rightarrow> (string, 'a) result" where
  "try_sql f r = (case f of Some msg \<Rightarrow> Inl msg | None \<Rightarrow> r)"

lemma try_sql_simps [simp]: "try_sql None r = r" "try_sql (Some m) r = Inl m"
  by (simp_all add: try_sql_def)

definition is_in_flight_conflict :: "string \<Rightarrow> bool" where
  "is_in_flight_conflict s \<longleftrightarrow>
    contains_sub ''UNIQUE constraint failed'' s \<and> contains_sub ''jobs.machine_uuid'' s"

subsection \<open>Operations\<close>

definition check_machine_exists :: "string option \<Rightarrow> jobs_db \<Rightarrow> string \<Rightarrow> job_error option" where
  "check_machine_exists f db u =
    (case f of Some msg \<Rightarrow> Some (JobDb ''check machine'' msg)
     | None \<Rightarrow> if has_machine db u then None else Some (MachineUnknown u))"

definition check_image_exists :: "string option \<Rightarrow> jobs_db \<Rightarrow> string \<Rightarrow> job_error option" where
  "check_image_exists f db i =
    (case f of Some msg \<Rightarrow> Some (JobDb ''check image'' msg)
     | None \<Rightarrow> if i \<in> set (db_images db) then None else Some (ImageUnknown i))"

definition check_profile_exists :: "string option \<Rightarrow> jobs_db \<Rightarrow> string \<Rightarrow> job_error option" where
  "check_profile_exists f db i =
    (case f of Some msg \<Rightarrow> Some (JobDb ''check profile'' msg)
     | None \<Rightarrow> if i \<in> set (db_profiles db) then None else Some (ProfileUnknown i))"

definition check_job_exists :: "string option \<Rightarrow> jobs_db \<Rightarrow> string \<Rightarrow> job_error option" where
  "check_job_exists f db i =
    (case f of Some msg \<Rightarrow> Some (JobDb ''check job'' msg)
     | None \<Rightarrow> if i \<in> job_ids (db_jobs db) then None else Some JobNotFound)"

text \<open>The inputs of \<open>Create\<close> in the order the code checks them.\<close>

definition create_fields ::
  "job_create \<Rightarrow> (job_error, string \<times> string \<times> string \<times> string \<times> string option) result" where
  "create_fields inp =
    (case validate_machine_uuid (jc_machine inp) of
       Inl e \<Rightarrow> Inl e
     | Inr muuid \<Rightarrow>
       (case validate_id ''image_id'' (jc_image inp) of
          Inl e \<Rightarrow> Inl e
        | Inr img \<Rightarrow>
          (case validate_id ''profile_id'' (jc_profile inp) of
             Inl e \<Rightarrow> Inl e
           | Inr prof \<Rightarrow>
             (case validate_type (jc_type inp) of
                Inl e \<Rightarrow> Inl e
              | Inr ty \<Rightarrow>
                (if jc_created_by inp = [] then Inl CreatedByMissing
                 else if jc_retry inp = [] then Inr (muuid, img, prof, ty, None)
                 else case validate_job_id (jc_retry inp) of
                   Inl e \<Rightarrow> Inl e
                 | Inr i \<Rightarrow> Inr (muuid, img, prof, ty, Some i))))))"

definition create_checks ::
  "faults \<Rightarrow> jobs_db \<Rightarrow> string \<Rightarrow> string \<Rightarrow> string \<Rightarrow> string option \<Rightarrow> job_error option" where
  "create_checks fl db muuid img prof retry =
    (case check_machine_exists (fl 0) db muuid of
       Some e \<Rightarrow> Some e
     | None \<Rightarrow>
       (case check_image_exists (fl 1) db img of
          Some e \<Rightarrow> Some e
        | None \<Rightarrow>
          (case check_profile_exists (fl 2) db prof of
             Some e \<Rightarrow> Some e
           | None \<Rightarrow>
             (case retry of None \<Rightarrow> None | Some i \<Rightarrow> check_job_exists (fl 3) db i))))"

definition create_job ::
  "faults \<Rightarrow> time \<Rightarrow> (string, string) result \<Rightarrow> job_create \<Rightarrow> jobs_db \<Rightarrow> (job_error, job) result \<times> jobs_db"
where
  "create_job fl now rid inp db =
    (case create_fields inp of
       Inl e \<Rightarrow> (Inl e, db)
     | Inr (muuid, img, prof, ty, retry) \<Rightarrow>
       (case create_checks fl db muuid img prof retry of
          Some e \<Rightarrow> (Inl e, db)
        | None \<Rightarrow>
          (case rid of
             Inl msg \<Rightarrow> (Inl (JobRandom msg), db)
           | Inr i \<Rightarrow>
             (let r = \<lparr>jb_id = i, jb_machine = muuid, jb_type = ty, jb_image = img,
                       jb_profile = prof, jb_status = Pending, jb_stage = [], jb_error = [],
                       jb_created = unix now, jb_started = None, jb_finished = None,
                       jb_created_by = jc_created_by inp, jb_retry = retry\<rparr>
              in case try_sql (fl 4) (sql_insert_job r db) of
                   Inl msg \<Rightarrow>
                     (Inl (if is_in_flight_conflict msg then InFlight else JobDb ''create job'' msg), db)
                 | Inr db' \<Rightarrow> (Inr r, db')))))"

definition fetch_job :: "string option \<Rightarrow> (job \<Rightarrow> bool) \<Rightarrow> jobs_db \<Rightarrow> (job_error, job) result" where
  "fetch_job f p db =
    (case f of Some msg \<Rightarrow> Inl (JobDriver msg)
     | None \<Rightarrow> (case sel_row p (db_jobs db) of None \<Rightarrow> Inl JobNotFound | Some r \<Rightarrow> Inr r))"

definition get_job_at :: "string option \<Rightarrow> string \<Rightarrow> jobs_db \<Rightarrow> (job_error, job) result" where
  "get_job_at f i0 db =
    (case validate_job_id i0 of
       Inl e \<Rightarrow> Inl e
     | Inr i \<Rightarrow> fetch_job f (\<lambda>r. jb_id r = i) db)"

definition get_job :: "faults \<Rightarrow> string \<Rightarrow> jobs_db \<Rightarrow> (job_error, job) result" where
  "get_job fl i db = get_job_at (fl 0) i db"

text \<open>\<open>ORDER BY created_at DESC, id DESC LIMIT ?\<close>.\<close>

definition list_jobs :: "faults \<Rightarrow> job_filter \<Rightarrow> jobs_db \<Rightarrow> (job_error, job list) result" where
  "list_jobs fl f db =
    (case (if jf_machine f = [] then Inr None
           else case validate_machine_uuid (jf_machine f) of Inl e \<Rightarrow> Inl e | Inr u \<Rightarrow> Inr (Some u)) of
       Inl e \<Rightarrow> Inl e
     | Inr mu \<Rightarrow>
       (case (if jf_status f = [] then Inr None
              else case status_of (jf_status f) of None \<Rightarrow> Inl (BadStatus (jf_status f)) | Some st \<Rightarrow> Inr (Some st)) of
          Inl e \<Rightarrow> Inl e
        | Inr st \<Rightarrow>
          (case fl 0 of
             Some msg \<Rightarrow> Inl (JobDb ''list jobs'' msg)
           | None \<Rightarrow>
             (let p = (\<lambda>r. (case mu of None \<Rightarrow> True | Some u \<Rightarrow> jb_machine r = u)
                         \<and> (case st of None \<Rightarrow> True | Some s \<Rightarrow> jb_status r = s));
                  limit = (if jf_limit f \<le> 0 then 100 else jf_limit f)
              in Inr (take (nat limit)
                   (rev (sort_key jb_created (sort_key jb_id (filter p (db_jobs db))))))))))"

definition current_for_machine :: "faults \<Rightarrow> string \<Rightarrow> jobs_db \<Rightarrow> (job_error, job) result" where
  "current_for_machine fl u0 db =
    (case validate_machine_uuid u0 of
       Inl e \<Rightarrow> Inl e
     | Inr u \<Rightarrow> fetch_job (fl 0) (\<lambda>r. jb_machine r = u \<and> in_flight r) db)"

definition classify_missed_update :: "string option \<Rightarrow> string \<Rightarrow> jobs_db \<Rightarrow> job_error" where
  "classify_missed_update f i db =
    (case f of Some msg \<Rightarrow> JobDb ''classify update'' msg
     | None \<Rightarrow>
       (case sel_row (\<lambda>r. jb_id r = i) (db_jobs db) of
          None \<Rightarrow> JobNotFound
        | Some r \<Rightarrow> InvalidTransition (jb_status r)))"

text \<open>The guarded \<open>UPDATE jobs SET f WHERE id = i AND status IN from\<close> that every transition is.\<close>

definition guarded_update ::
  "faults \<Rightarrow> string \<Rightarrow> string \<Rightarrow> job_status list \<Rightarrow> (job \<Rightarrow> job) \<Rightarrow> jobs_db \<Rightarrow> job_error option \<times> jobs_db"
where
  "guarded_update fl op i from f db =
    (case fl 0 of
       Some msg \<Rightarrow> (Some (JobDb op msg), db)
     | None \<Rightarrow>
       (let p = (\<lambda>r. jb_id r = i \<and> jb_status r \<in> set from) in
        if hits p (db_jobs db) = 0 then (Some (classify_missed_update (fl 1) i db), db)
        else (None, db\<lparr>db_jobs := upd_where p f (db_jobs db)\<rparr>)))"

definition claim_job :: "faults \<Rightarrow> time \<Rightarrow> string \<Rightarrow> jobs_db \<Rightarrow> (job_error, job) result \<times> jobs_db" where
  "claim_job fl now i0 db =
    (case validate_job_id i0 of
       Inl e \<Rightarrow> (Inl e, db)
     | Inr i \<Rightarrow>
       (case guarded_update fl ''claim job'' i [Pending]
               (\<lambda>r. r\<lparr>jb_status := Running, jb_started := Some (unix now)\<rparr>) db of
          (Some e, db') \<Rightarrow> (Inl e, db')
        | (None, db') \<Rightarrow> (get_job_at (fl 1) i db', db')))"

definition update_stage :: "faults \<Rightarrow> string \<Rightarrow> string \<Rightarrow> jobs_db \<Rightarrow> job_error option \<times> jobs_db" where
  "update_stage fl i0 s0 db =
    (case validate_job_id i0 of
       Inl e \<Rightarrow> (Some e, db)
     | Inr i \<Rightarrow>
       (case validate_stage s0 of
          Inl e \<Rightarrow> (Some e, db)
        | Inr s \<Rightarrow> guarded_update fl ''update stage'' i [Running] (\<lambda>r. r\<lparr>jb_stage := s\<rparr>) db))"

definition terminate_job ::
  "faults \<Rightarrow> time \<Rightarrow> string \<Rightarrow> job_status \<Rightarrow> string \<Rightarrow> job_status list \<Rightarrow> jobs_db \<Rightarrow> job_error option \<times> jobs_db"
where
  "terminate_job fl now i0 target msg from db =
    (case validate_job_id i0 of
       Inl e \<Rightarrow> (Some e, db)
     | Inr i \<Rightarrow>
       guarded_update fl ''terminate job'' i from
         (\<lambda>r. r\<lparr>jb_status := target, jb_error := msg, jb_finished := Some (unix now)\<rparr>) db)"

definition succeed_job :: "faults \<Rightarrow> time \<Rightarrow> string \<Rightarrow> jobs_db \<Rightarrow> job_error option \<times> jobs_db" where
  "succeed_job fl now i db = terminate_job fl now i Succeeded [] [Running] db"

definition fail_job :: "faults \<Rightarrow> time \<Rightarrow> string \<Rightarrow> string \<Rightarrow> jobs_db \<Rightarrow> job_error option \<times> jobs_db" where
  "fail_job fl now i msg db =
    terminate_job fl now i Failed (validate_error msg) [Pending, Running] db"

definition cancel_job :: "faults \<Rightarrow> time \<Rightarrow> string \<Rightarrow> jobs_db \<Rightarrow> job_error option \<times> jobs_db" where
  "cancel_job fl now i db = terminate_job fl now i Cancelled [] [Pending, Running] db"

text \<open>
  The deletions run in a transaction: statement 0 is its begin, and a failure of any statement
  or of the commit leaves the database as it was.
\<close>

definition delete_logs_where :: "(string \<Rightarrow> bool) \<Rightarrow> jobs_db \<Rightarrow> jobs_db" where
  "delete_logs_where p db = db\<lparr>db_logs := del_where (\<lambda>l. p (jl_job l)) (db_logs db)\<rparr>"

definition delete_all_terminal :: "faults \<Rightarrow> jobs_db \<Rightarrow> (job_error, nat) result \<times> jobs_db" where
  "delete_all_terminal fl db =
    (case fl 0 of
       Some msg \<Rightarrow> (Inl (JobDb ''begin'' msg), db)
     | None \<Rightarrow>
       (case fl 1 of
          Some msg \<Rightarrow> (Inl (JobDb ''delete logs'' msg), db)
        | None \<Rightarrow>
          (let old = (\<lambda>r. terminal (jb_status r));
               db1 = delete_logs_where (\<lambda>i. \<exists>r \<in> set (db_jobs db). old r \<and> jb_id r = i) db
           in case try_sql (fl 2) (sql_delete_jobs old db1) of
                Inl msg \<Rightarrow> (Inl (JobDb ''delete jobs'' msg), db)
              | Inr db2 \<Rightarrow>
                (case fl 3 of
                   Some msg \<Rightarrow> (Inl (JobDb ''commit'' msg), db)
                 | None \<Rightarrow> (Inr (hits old (db_jobs db)), db2)))))"

definition delete_job :: "faults \<Rightarrow> string \<Rightarrow> jobs_db \<Rightarrow> job_error option \<times> jobs_db" where
  "delete_job fl i0 db =
    (case validate_job_id i0 of
       Inl e \<Rightarrow> (Some e, db)
     | Inr i \<Rightarrow>
       (case fl 0 of
          Some msg \<Rightarrow> (Some (JobDb ''begin'' msg), db)
        | None \<Rightarrow>
          (case fl 1 of
             Some msg \<Rightarrow> (Some (JobDb ''lookup'' msg), db)
           | None \<Rightarrow>
             (case sel_row (\<lambda>r. jb_id r = i) (db_jobs db) of
                None \<Rightarrow> (Some JobNotFound, db)
              | Some r \<Rightarrow>
                (if \<not> terminal (jb_status r) then (Some (InvalidTransition (jb_status r)), db)
                 else case fl 2 of
                   Some msg \<Rightarrow> (Some (JobDb ''delete logs'' msg), db)
                 | None \<Rightarrow>
                   (case try_sql (fl 3) (sql_delete_jobs (\<lambda>r. jb_id r = i) (delete_logs_where (\<lambda>j. j = i) db)) of
                      Inl msg \<Rightarrow> (Some (JobDb ''delete job'' msg), db)
                    | Inr db' \<Rightarrow>
                      (case fl 4 of Some msg \<Rightarrow> (Some (JobDriver msg), db) | None \<Rightarrow> (None, db'))))))))"

definition delete_by_image :: "faults \<Rightarrow> string \<Rightarrow> jobs_db \<Rightarrow> (job_error, nat) result \<times> jobs_db" where
  "delete_by_image fl i db =
    (case try_sql (fl 0) (sql_delete_jobs (\<lambda>r. jb_image r = i) db) of
       Inl msg \<Rightarrow> (Inl (JobDb ''delete jobs by image'' msg), db)
     | Inr db' \<Rightarrow> (Inr (hits (\<lambda>r. jb_image r = i) (db_jobs db)), db'))"

definition delete_by_profile :: "faults \<Rightarrow> string \<Rightarrow> jobs_db \<Rightarrow> (job_error, nat) result \<times> jobs_db" where
  "delete_by_profile fl i db =
    (case try_sql (fl 0) (sql_delete_jobs (\<lambda>r. jb_profile r = i) db) of
       Inl msg \<Rightarrow> (Inl (JobDb ''delete jobs by profile'' msg), db)
     | Inr db' \<Rightarrow> (Inr (hits (\<lambda>r. jb_profile r = i) (db_jobs db)), db'))"

definition append_log ::
  "faults \<Rightarrow> time \<Rightarrow> string \<Rightarrow> string \<Rightarrow> string \<Rightarrow> jobs_db \<Rightarrow> job_error option \<times> jobs_db"
where
  "append_log fl now i0 level0 msg0 db =
    (case validate_job_id i0 of
       Inl e \<Rightarrow> (Some e, db)
     | Inr i \<Rightarrow>
       (case validate_log_level level0 of
          Inl e \<Rightarrow> (Some e, db)
        | Inr level \<Rightarrow>
          (case try_sql (fl 0) (sql_insert_log i (unix now) level (validate_log_message msg0) db) of
             Inr db' \<Rightarrow> (None, db')
           | Inl msg \<Rightarrow>
             (case check_job_exists (fl 1) db i of
                Some e \<Rightarrow> (Some e, db)
              | None \<Rightarrow> (Some (JobDb ''append log'' msg), db)))))"

definition job_logs :: "faults \<Rightarrow> string \<Rightarrow> int \<Rightarrow> int \<Rightarrow> jobs_db \<Rightarrow> (job_error, job_log list) result" where
  "job_logs fl i0 since limit0 db =
    (case validate_job_id i0 of
       Inl e \<Rightarrow> Inl e
     | Inr i \<Rightarrow>
       (let limit = (if limit0 \<le> 0 then 200 else limit0) in
        case fl 0 of
          Some msg \<Rightarrow> Inl (JobDb ''query logs'' msg)
        | None \<Rightarrow>
          Inr (take (nat limit)
            (sort_key jl_id (filter (\<lambda>l. jl_job l = i \<and> since < jl_id l) (db_logs db))))))"

definition ref_count_by_image :: "faults \<Rightarrow> string \<Rightarrow> jobs_db \<Rightarrow> (job_error, nat) result" where
  "ref_count_by_image fl i db =
    (case fl 0 of Some msg \<Rightarrow> Inl (JobDb ''count jobs for image'' msg)
     | None \<Rightarrow> Inr (hits (\<lambda>r. jb_image r = i \<and> in_flight r) (db_jobs db)))"

definition ref_count_by_profile :: "faults \<Rightarrow> string \<Rightarrow> jobs_db \<Rightarrow> (job_error, nat) result" where
  "ref_count_by_profile fl i db =
    (case fl 0 of Some msg \<Rightarrow> Inl (JobDb ''count jobs for profile'' msg)
     | None \<Rightarrow> Inr (hits (\<lambda>r. jb_profile r = i \<and> in_flight r) (db_jobs db)))"

subsection \<open>Validators are canonical\<close>

lemma validate_machine_uuid_ok: "validate_machine_uuid u0 = Inr u \<Longrightarrow> smbios_uuid_match u"
  by (auto simp: validate_machine_uuid_def Let_def split: if_splits)

lemma validate_id_ok: "validate_id f i0 = Inr i \<Longrightarrow> hex32_match i"
  by (auto simp: validate_id_def Let_def split: if_splits)

lemma validate_id_hex [simp]: "hex32_match i \<Longrightarrow> validate_id f i = Inr i"
  by (simp add: validate_id_def Let_def hex32_canonical)

lemma validate_job_id_hex [simp]: "hex32_match i \<Longrightarrow> validate_job_id i = Inr i"
  by (simp add: validate_job_id_def)

lemma validate_job_id_ok: "validate_job_id i0 = Inr i \<Longrightarrow> hex32_match i"
  by (auto simp: validate_job_id_def dest: validate_id_ok)

lemma validate_machine_uuid_canonical [simp]: "smbios_uuid_match u \<Longrightarrow> validate_machine_uuid u = Inr u"
  by (simp add: validate_machine_uuid_def Let_def smbios_uuid_canonical)

lemma fixed_words_canonical:
  "list_all (\<lambda>s. lower_trim s = s) valid_job_types" "list_all (\<lambda>s. lower_trim s = s) valid_log_levels"
  by code_simp+

interpretation machine_uuids: canonical_validator validate_machine_uuid
  by unfold_locales (auto dest: validate_machine_uuid_ok)

interpretation record_ids: canonical_validator "validate_id f"
  by unfold_locales (auto dest: validate_id_ok)

interpretation job_types: canonical_validator validate_type
  using fixed_words_canonical(1)
  by unfold_locales (auto simp: validate_type_def Let_def list_all_iff split: if_splits)

interpretation log_levels: canonical_validator validate_log_level
  using fixed_words_canonical(2)
  by unfold_locales (auto simp: validate_log_level_def Let_def list_all_iff split: if_splits)

interpretation stages: canonical_validator validate_stage
  by unfold_locales (auto simp: validate_stage_def Let_def trim_space_idem split: if_splits)

lemma length_validate_error: "length (validate_error s) \<le> max_error_len"
  by (auto simp: validate_error_def Let_def)

lemma length_validate_log_message: "length (validate_log_message s) \<le> max_log_message_len"
  by (auto simp: validate_log_message_def)

subsection \<open>The invariant of the tables\<close>

definition job_times_ok :: "job \<Rightarrow> bool" where
  "job_times_ok r \<longleftrightarrow>
    (case jb_status r of
       Pending \<Rightarrow> jb_started r = None \<and> jb_finished r = None \<and> jb_error r = []
     | Running \<Rightarrow> jb_started r \<noteq> None \<and> jb_finished r = None \<and> jb_error r = []
     | Succeeded \<Rightarrow> jb_started r \<noteq> None \<and> jb_finished r \<noteq> None \<and> jb_error r = []
     | Failed \<Rightarrow> jb_finished r \<noteq> None \<and> length (jb_error r) \<le> max_error_len
     | Cancelled \<Rightarrow> jb_finished r \<noteq> None \<and> jb_error r = [])"

definition job_row_ok :: "job \<Rightarrow> bool" where
  "job_row_ok r \<longleftrightarrow>
    hex32_match (jb_id r) \<and> smbios_uuid_match (jb_machine r) \<and> jb_type r \<in> set valid_job_types
    \<and> hex32_match (jb_image r) \<and> hex32_match (jb_profile r) \<and> jb_created_by r \<noteq> []
    \<and> length (jb_stage r) \<le> max_stage_len \<and> job_times_ok r"

definition job_refs_ok :: "jobs_db \<Rightarrow> job \<Rightarrow> bool" where
  "job_refs_ok db r \<longleftrightarrow>
    has_machine db (jb_machine r) \<and> jb_image r \<in> set (db_images db)
    \<and> jb_profile r \<in> set (db_profiles db) \<and> retry_ok (db_jobs db) r"

definition log_row_ok :: "jobs_db \<Rightarrow> job_log \<Rightarrow> bool" where
  "log_row_ok db l \<longleftrightarrow>
    jl_id l \<le> db_log_seq db \<and> jl_job l \<in> job_ids (db_jobs db) \<and> jl_level l \<in> set valid_log_levels
    \<and> length (jl_message l) \<le> max_log_message_len"

definition logs_ok :: "jobs_db \<Rightarrow> bool" where
  "logs_ok db \<longleftrightarrow> sorted_wrt (<) (map jl_id (db_logs db)) \<and> (\<forall>l \<in> set (db_logs db). log_row_ok db l)"

definition one_in_flight :: "job list \<Rightarrow> bool" where
  "one_in_flight js \<longleftrightarrow> keyed jb_machine (filter in_flight js)"

definition jobs_ok :: "jobs_db \<Rightarrow> bool" where
  "jobs_ok db \<longleftrightarrow>
    keyed jb_id (db_jobs db) \<and> one_in_flight (db_jobs db)
    \<and> (\<forall>r \<in> set (db_jobs db). job_row_ok r \<and> job_refs_ok db r) \<and> logs_ok db"

text \<open>The life cycle of one row: what a statement may do to it while it stays in the table.\<close>

fun status_edge :: "job_status \<Rightarrow> job_status \<Rightarrow> bool" where
  "status_edge Pending Running = True"
| "status_edge Pending Failed = True"
| "status_edge Pending Cancelled = True"
| "status_edge Running Succeeded = True"
| "status_edge Running Failed = True"
| "status_edge Running Cancelled = True"
| "status_edge _ _ = False"

definition same_job :: "job \<Rightarrow> job \<Rightarrow> bool" where
  "same_job r r' \<longleftrightarrow>
    jb_id r' = jb_id r \<and> jb_machine r' = jb_machine r \<and> jb_type r' = jb_type r
    \<and> jb_image r' = jb_image r \<and> jb_profile r' = jb_profile r \<and> jb_created r' = jb_created r
    \<and> jb_created_by r' = jb_created_by r \<and> jb_retry r' = jb_retry r"

definition job_moves :: "job \<Rightarrow> job \<Rightarrow> bool" where
  "job_moves r r' \<longleftrightarrow>
    r' = r \<or> jb_status r = Running \<and> (\<exists>s. r' = r\<lparr>jb_stage := s\<rparr>)
    \<or> same_job r r' \<and> status_edge (jb_status r) (jb_status r')"

lemma status_edge_live: "status_edge s t \<Longrightarrow> \<not> terminal s"
  by (cases s) auto

lemma job_moves_refl [simp]: "job_moves r r"
  by (simp add: job_moves_def)

lemma job_moves_same: "job_moves r r' \<Longrightarrow> same_job r r'"
  by (auto simp: job_moves_def same_job_def)

lemma job_moves_terminal: "job_moves r r' \<Longrightarrow> terminal (jb_status r) \<Longrightarrow> r' = r"
  by (auto simp: job_moves_def dest: status_edge_live)

lemma job_moves_in_flight: "job_moves r r' \<Longrightarrow> in_flight r' \<Longrightarrow> in_flight r"
  by (auto simp: job_moves_def in_flight_terminal dest: status_edge_live)

subsection \<open>What a statement does\<close>

text \<open>
  The effects an operation can have: it keeps every row in place, or it deletes. Every operation
  of the store is one of them, so a property of the whole store is proved over the effects only.
\<close>

inductive row_effect :: "jobs_db \<Rightarrow> jobs_db \<Rightarrow> bool" where
  none: "row_effect db db"
| insert: "sql_insert_job r db = Inr db' \<Longrightarrow> job_row_ok r \<Longrightarrow> jb_status r = Pending \<Longrightarrow> row_effect db db'"
| update: "db' = db\<lparr>db_jobs := upd_where p f (db_jobs db)\<rparr> \<Longrightarrow>
    (\<And>r. p r \<Longrightarrow> job_moves r (f r)) \<Longrightarrow>
    (\<And>r. p r \<Longrightarrow> job_row_ok r \<Longrightarrow> job_row_ok (f r)) \<Longrightarrow> row_effect db db'"
| log: "sql_insert_log i ts level msg db = Inr db' \<Longrightarrow> level \<in> set valid_log_levels \<Longrightarrow>
    length msg \<le> max_log_message_len \<Longrightarrow> row_effect db db'"

inductive jobs_effect :: "jobs_db \<Rightarrow> jobs_db \<Rightarrow> bool" where
  keep: "row_effect db db' \<Longrightarrow> jobs_effect db db'"
| delete: "sql_delete_jobs p (delete_logs_where q db) = Inr db' \<Longrightarrow> jobs_effect db db'"

lemma jobs_effect_none [simp, intro]: "jobs_effect db db"
  by (simp add: jobs_effect.keep row_effect.none)

lemma sql_insert_job_cases:
  assumes "sql_insert_job r db = Inr db'"
  obtains "db' = db\<lparr>db_jobs := ins_row r (db_jobs db)\<rparr>"
    and "in_flight r \<Longrightarrow> \<forall>q \<in> set (db_jobs db). in_flight q \<longrightarrow> jb_machine q \<noteq> jb_machine r"
    and "jb_id r \<notin> job_ids (db_jobs db)"
    and "has_machine db (jb_machine r)" "jb_image r \<in> set (db_images db)"
    and "jb_profile r \<in> set (db_profiles db)" "retry_ok (ins_row r (db_jobs db)) r"
  using assms by (auto simp: sql_insert_job_def split: if_splits)

lemma sql_delete_jobs_cases:
  assumes "sql_delete_jobs p db = Inr db'"
  obtains "db' = db\<lparr>db_jobs := del_where p (db_jobs db),
       db_logs := del_where (\<lambda>l. \<exists>q \<in> set (db_jobs db). p q \<and> jb_id q = jl_job l) (db_logs db)\<rparr>"
    and "\<forall>r \<in> set (del_where p (db_jobs db)). retry_ok (del_where p (db_jobs db)) r"
  using assms by (auto simp: sql_delete_jobs_def Let_def list_all_iff split: if_splits)

lemma sql_insert_log_cases:
  assumes "sql_insert_log i ts level msg db = Inr db'"
  obtains "i \<in> job_ids (db_jobs db)"
    and "db' = db\<lparr>db_log_seq := db_log_seq db + 1,
       db_logs := ins_row \<lparr>jl_id = db_log_seq db + 1, jl_job = i, jl_ts = ts, jl_level = level,
                          jl_message = msg\<rparr> (db_logs db)\<rparr>"
  using assms by (auto simp: sql_insert_log_def split: if_splits)

lemma guarded_update_cases:
  assumes "guarded_update fl op i from f db = (e, db')"
  obtains (refused) err where "e = Some err" "db' = db"
  | (applied) "e = None" "db' = db\<lparr>db_jobs := upd_where (\<lambda>r. jb_id r = i \<and> jb_status r \<in> set from) f (db_jobs db)\<rparr>"
      "\<exists>r \<in> set (db_jobs db). jb_id r = i \<and> jb_status r \<in> set from"
  using assms by (auto simp: guarded_update_def Let_def hits_zero split: option.splits if_splits)

lemma guarded_update_effect:
  assumes "guarded_update fl op i from f db = (e, db')"
    and "\<And>r. jb_status r \<in> set from \<Longrightarrow> job_moves r (f r)"
    and "\<And>r. jb_status r \<in> set from \<Longrightarrow> job_row_ok r \<Longrightarrow> job_row_ok (f r)"
  shows "row_effect db db'"
  using assms(1)
proof (cases rule: guarded_update_cases)
  case refused
  then show ?thesis by (simp add: row_effect.none)
next
  case applied
  show ?thesis
    by (rule row_effect.update [OF applied(2)]) (use assms(2,3) in auto)
qed

lemma create_fields_ok:
  assumes "create_fields inp = Inr (u, img, prof, ty, retry)"
  shows "smbios_uuid_match u \<and> hex32_match img \<and> hex32_match prof \<and> ty \<in> set valid_job_types
    \<and> jc_created_by inp \<noteq> []"
  using assms
  by (auto simp: create_fields_def validate_type_def Let_def
      split: sum.splits if_splits dest: validate_machine_uuid_ok validate_id_ok)

lemma create_job_cases:
  assumes "create_job fl now rid inp db = (out, db')"
  obtains (refused) e where "out = Inl e" "db' = db"
  | (created) u img prof ty retry i r where
      "create_fields inp = Inr (u, img, prof, ty, retry)" "rid = Inr i"
      "r = \<lparr>jb_id = i, jb_machine = u, jb_type = ty, jb_image = img, jb_profile = prof,
            jb_status = Pending, jb_stage = [], jb_error = [], jb_created = unix now,
            jb_started = None, jb_finished = None, jb_created_by = jc_created_by inp, jb_retry = retry\<rparr>"
      "out = Inr r" "sql_insert_job r db = Inr db'"
proof (cases "\<exists>e. out = Inl e")
  case True
  with assms have "db' = db"
    by (auto simp: create_job_def try_sql_def Let_def split: sum.splits option.splits prod.splits)
  with True refused show thesis by blast
next
  case False
  with assms show thesis
    by (auto simp: create_job_def try_sql_def Let_def split: sum.splits option.splits prod.splits
        intro!: created)
qed

lemma create_job_effect:
  assumes "create_job fl now rid inp db = (out, db')" and "\<And>i. rid = Inr i \<Longrightarrow> hex32_match i"
  shows "row_effect db db'"
  using assms(1)
proof (cases rule: create_job_cases)
  case refused
  then show ?thesis by (simp add: row_effect.none)
next
  case (created u img prof ty retry i r)
  have "job_row_ok r"
    using create_fields_ok [OF created(1)] assms(2) [OF created(2)]
    by (simp add: created(3) job_row_ok_def job_times_ok_def max_stage_len_def)
  then show ?thesis
    by (rule row_effect.insert [OF created(5)]) (simp add: created(3))
qed

lemma claim_job_effect: "claim_job fl now i db = (out, db') \<Longrightarrow> row_effect db db'"
  by (auto simp: claim_job_def row_effect.none job_moves_def same_job_def job_row_ok_def
      job_times_ok_def split: sum.splits prod.splits option.splits elim!: guarded_update_effect)

lemma validate_stage_length: "validate_stage s0 = Inr s \<Longrightarrow> length s \<le> max_stage_len"
  by (auto simp: validate_stage_def Let_def split: if_splits)

lemma update_stage_effect: "update_stage fl i s db = (out, db') \<Longrightarrow> row_effect db db'"
  by (auto simp: update_stage_def row_effect.none job_moves_def job_row_ok_def
      job_times_ok_def validate_stage_length split: sum.splits elim!: guarded_update_effect)

lemma terminate_job_effect:
  assumes t: "terminate_job fl now i target msg from db = (out, db')"
    and e: "\<And>s. s \<in> set from \<Longrightarrow> status_edge s target"
    and m: "target = Failed \<and> length msg \<le> max_error_len \<or> target = Cancelled \<and> msg = []
      \<or> target = Succeeded \<and> msg = [] \<and> set from = {Running}"
  shows "row_effect db db'"
proof (cases "validate_job_id i")
  case Inl
  with t show ?thesis by (auto simp: terminate_job_def intro: row_effect.none)
next
  case (Inr j)
  define f where "f r = r\<lparr>jb_status := target, jb_error := msg, jb_finished := Some (unix now)\<rparr>" for r :: job
  have g: "guarded_update fl ''terminate job'' j from f db = (out, db')"
    using t Inr by (simp add: terminate_job_def f_def [abs_def])
  show ?thesis
  proof (rule guarded_update_effect [OF g])
    fix r :: job assume s: "jb_status r \<in> set from"
    show "job_moves r (f r)"
      using e [OF s] by (simp add: job_moves_def same_job_def f_def)
    assume "job_row_ok r"
    then show "job_row_ok (f r)"
      using m s by (elim disjE) (auto simp: job_row_ok_def job_times_ok_def f_def)
  qed
qed

lemma succeed_job_effect: "succeed_job fl now i db = (out, db') \<Longrightarrow> row_effect db db'"
  unfolding succeed_job_def by (erule terminate_job_effect) auto

lemma fail_job_effect: "fail_job fl now i msg db = (out, db') \<Longrightarrow> row_effect db db'"
  unfolding fail_job_def by (erule terminate_job_effect) (auto intro: length_validate_error)

lemma cancel_job_effect: "cancel_job fl now i db = (out, db') \<Longrightarrow> row_effect db db'"
  unfolding cancel_job_def by (erule terminate_job_effect) auto

lemma delete_nothing: "delete_logs_where (\<lambda>i. False) db = db"
  by (simp add: delete_logs_where_def del_where_def)

lemma delete_all_terminal_effect: "delete_all_terminal fl db = (out, db') \<Longrightarrow> jobs_effect db db'"
  by (auto simp: delete_all_terminal_def try_sql_def Let_def
      split: option.splits sum.splits intro: jobs_effect_none jobs_effect.delete)

lemma delete_job_effect: "delete_job fl i db = (out, db') \<Longrightarrow> jobs_effect db db'"
  by (auto simp: delete_job_def try_sql_def
      split: option.splits sum.splits if_splits intro: jobs_effect_none jobs_effect.delete)

lemma sql_delete_jobs_effect:
  assumes "sql_delete_jobs p db = Inr db'"
  shows "jobs_effect db db'"
  by (rule jobs_effect.delete [where q = "\<lambda>i. False" and p = p]) (simp add: delete_nothing assms)

lemma delete_by_image_effect: "delete_by_image fl i db = (out, db') \<Longrightarrow> jobs_effect db db'"
  by (auto simp: delete_by_image_def try_sql_def
      split: option.splits sum.splits intro: jobs_effect_none sql_delete_jobs_effect)

lemma delete_by_profile_effect: "delete_by_profile fl i db = (out, db') \<Longrightarrow> jobs_effect db db'"
  by (auto simp: delete_by_profile_def try_sql_def
      split: option.splits sum.splits intro: jobs_effect_none sql_delete_jobs_effect)

lemma validate_log_level_ok: "validate_log_level s0 = Inr s \<Longrightarrow> s \<in> set valid_log_levels"
  by (auto simp: validate_log_level_def Let_def split: if_splits)

lemma append_log_effect: "append_log fl now i level msg db = (out, db') \<Longrightarrow> row_effect db db'"
  by (auto simp: append_log_def try_sql_def length_validate_log_message
      split: sum.splits option.splits intro: row_effect.none row_effect.log dest: validate_log_level_ok)

lemmas row_operation_effects =
  create_job_effect claim_job_effect update_stage_effect succeed_job_effect fail_job_effect
  cancel_job_effect append_log_effect

lemmas deletion_effects =
  delete_all_terminal_effect delete_job_effect delete_by_image_effect delete_by_profile_effect

subsection \<open>The invariant is kept\<close>

lemma ids_upd_where:
  "(\<And>r. p r \<Longrightarrow> jb_id (f r) = jb_id r) \<Longrightarrow> job_ids (upd_where p f js) = job_ids js"
  by (metis (no_types, lifting) job_ids_def list.set_map map_upd_where)

lemma job_ids_ins [simp]: "job_ids (ins_row r js) = insert (jb_id r) (job_ids js)"
  by (simp add: job_ids_def)

lemma retry_ok_mono: "retry_ok js r \<Longrightarrow> job_ids js \<subseteq> job_ids js' \<Longrightarrow> retry_ok js' r"
  by (auto simp: retry_ok_def split: option.splits)

lemma retry_ok_ins: "retry_ok js q \<Longrightarrow> retry_ok (ins_row r js) q"
  by (erule retry_ok_mono) auto

lemma one_in_flight_ins:
  "one_in_flight js \<Longrightarrow> (in_flight r \<Longrightarrow> \<forall>q \<in> set js. in_flight q \<longrightarrow> jb_machine q \<noteq> jb_machine r) \<Longrightarrow>
   one_in_flight (ins_row r js)"
  by (auto simp: one_in_flight_def ins_row_def keyed_def)

lemma one_in_flight_del: "one_in_flight js \<Longrightarrow> one_in_flight (del_where p js)"
proof -
  have "filter in_flight (del_where p js) = del_where p (filter in_flight js)"
    by (simp add: del_where_def conj_commute)
  then show "one_in_flight js \<Longrightarrow> one_in_flight (del_where p js)"
    by (auto simp: one_in_flight_def)
qed

lemma one_in_flight_upd:
  assumes "one_in_flight js" and moves: "\<And>r. p r \<Longrightarrow> job_moves r (f r)"
  shows "one_in_flight (upd_where p f js)"
  using assms(1)
proof (induction js)
  case (Cons r js)
  let ?r = "if p r then f r else r"
  have mv: "job_moves r ?r" using moves by simp
  have "jb_machine ` {q \<in> set (upd_where p f js). in_flight q} \<subseteq> jb_machine ` {q \<in> set js. in_flight q}"
  proof (clarsimp simp: set_upd_where)
    fix q assume "q \<in> f ` {q \<in> set js. p q} \<or> q \<in> set js \<and> \<not> p q" "in_flight q"
    then consider q0 where "q0 \<in> set js" "p q0" "q = f q0" | "q \<in> set js" by blast
    then show "jb_machine q \<in> jb_machine ` {q \<in> set js. in_flight q}"
    proof cases
      case 1
      with moves [of q0] \<open>in_flight q\<close> have "in_flight q0" "jb_machine q = jb_machine q0"
        by (auto dest: job_moves_in_flight job_moves_same simp: same_job_def)
      with 1 show ?thesis by auto
    next
      case 2
      with \<open>in_flight q\<close> show ?thesis by auto
    qed
  qed
  moreover have "in_flight ?r \<Longrightarrow> in_flight r" "jb_machine ?r = jb_machine r"
    using mv by (auto dest: job_moves_in_flight job_moves_same simp: same_job_def)
  ultimately show ?case
    using Cons by (auto simp: one_in_flight_def keyed_def upd_where_def split: if_splits)
qed (simp add: one_in_flight_def upd_where_def)

lemma jobs_okD:
  assumes "jobs_ok db"
  shows "keyed jb_id (db_jobs db)" "one_in_flight (db_jobs db)" "logs_ok db"
    "r \<in> set (db_jobs db) \<Longrightarrow> job_row_ok r" "r \<in> set (db_jobs db) \<Longrightarrow> job_refs_ok db r"
  using assms by (auto simp: jobs_ok_def)

lemma jobs_ok_insert:
  assumes ok: "jobs_ok db" and ins: "sql_insert_job r db = Inr db'" and row: "job_row_ok r"
  shows "jobs_ok db'"
  using ins
proof (rule sql_insert_job_cases)
  assume db': "db' = db\<lparr>db_jobs := ins_row r (db_jobs db)\<rparr>"
    and free: "in_flight r \<Longrightarrow> \<forall>q \<in> set (db_jobs db). in_flight q \<longrightarrow> jb_machine q \<noteq> jb_machine r"
    and new: "jb_id r \<notin> job_ids (db_jobs db)"
    and refs: "has_machine db (jb_machine r)" "jb_image r \<in> set (db_images db)"
      "jb_profile r \<in> set (db_profiles db)" "retry_ok (ins_row r (db_jobs db)) r"
  have "keyed jb_id (db_jobs db')"
    using jobs_okD(1) [OF ok] new unfolding db' by simp (rule keyed_ins, auto simp: job_ids_def image_iff)
  moreover have "one_in_flight (db_jobs db')"
    using jobs_okD(2) [OF ok] free by (simp add: db' one_in_flight_ins)
  moreover have "job_row_ok q \<and> job_refs_ok db' q" if "q \<in> set (db_jobs db')" for q
    using that jobs_okD(4,5) [OF ok, of q] row refs
    by (auto simp: db' job_refs_ok_def has_machine_def intro: retry_ok_ins)
  moreover have "logs_ok db'"
    using jobs_okD(3) [OF ok] by (auto simp: db' logs_ok_def log_row_ok_def)
  ultimately show "jobs_ok db'" by (simp add: jobs_ok_def)
qed

lemma jobs_ok_update:
  assumes ok: "jobs_ok db" and moves: "\<And>r. p r \<Longrightarrow> job_moves r (f r)"
    and rows: "\<And>r. p r \<Longrightarrow> job_row_ok r \<Longrightarrow> job_row_ok (f r)"
  shows "jobs_ok (db\<lparr>db_jobs := upd_where p f (db_jobs db)\<rparr>)" (is "jobs_ok ?db'")
proof -
  have same: "p r \<Longrightarrow> same_job r (f r)" for r
    using moves by (simp add: job_moves_same)
  have ids: "job_ids (db_jobs ?db') = job_ids (db_jobs db)"
    using same by (simp add: ids_upd_where same_job_def)
  have "keyed jb_id (db_jobs ?db')"
    using jobs_okD(1) [OF ok] same by (auto simp: same_job_def intro!: keyed_upd)
  moreover have "one_in_flight (db_jobs ?db')"
    using jobs_okD(2) [OF ok] moves by (simp add: one_in_flight_upd)
  moreover have "job_row_ok q \<and> job_refs_ok ?db' q" if q: "q \<in> set (db_jobs ?db')" for q
  proof -
    obtain r where r: "r \<in> set (db_jobs db)" "q = (if p r then f r else r)"
      using q by (auto simp: set_upd_where)
    then have "same_job r q" using same by (auto simp: same_job_def)
    then have "job_refs_ok ?db' q \<longleftrightarrow> job_refs_ok db r"
      using ids by (auto simp: job_refs_ok_def same_job_def has_machine_def retry_ok_def split: option.splits)
    then show ?thesis using jobs_okD(4,5) [OF ok r(1)] rows r(2) by simp
  qed
  moreover have "logs_ok ?db'"
    using jobs_okD(3) [OF ok] ids by (simp add: logs_ok_def log_row_ok_def)
  ultimately show ?thesis by (simp add: jobs_ok_def)
qed

lemma sorted_ids_filter: "sorted_wrt (<) (map f xs) \<Longrightarrow> sorted_wrt (<) (map f (filter p xs))"
  by (induction xs) auto

lemma delete_logs_ok: "jobs_ok db \<Longrightarrow> jobs_ok (delete_logs_where p db)"
  by (auto simp: jobs_ok_def delete_logs_where_def logs_ok_def log_row_ok_def job_refs_ok_def
      has_machine_def del_where_def intro: sorted_ids_filter)

lemma jobs_ok_delete:
  assumes ok: "jobs_ok db" and del: "sql_delete_jobs p db = Inr db'"
  shows "jobs_ok db'"
  using del
proof (rule sql_delete_jobs_cases)
  assume db': "db' = db\<lparr>db_jobs := del_where p (db_jobs db),
       db_logs := del_where (\<lambda>l. \<exists>q \<in> set (db_jobs db). p q \<and> jb_id q = jl_job l) (db_logs db)\<rparr>"
    and fk: "\<forall>r \<in> set (del_where p (db_jobs db)). retry_ok (del_where p (db_jobs db)) r"
  have "log_row_ok db' l" if "l \<in> set (db_logs db')" for l
    using that jobs_okD(3) [OF ok] by (force simp: db' logs_ok_def log_row_ok_def job_ids_def)
  then have "logs_ok db'"
    using jobs_okD(3) [OF ok] by (simp add: db' logs_ok_def del_where_def sorted_ids_filter)
  moreover have "job_row_ok q \<and> job_refs_ok db' q" if "q \<in> set (db_jobs db')" for q
    using that jobs_okD(4,5) [OF ok, of q] fk by (auto simp: db' job_refs_ok_def has_machine_def)
  ultimately show "jobs_ok db'"
    using jobs_okD(1,2) [OF ok] by (simp add: jobs_ok_def db' keyed_del one_in_flight_del)
qed

lemma jobs_ok_log:
  assumes ok: "jobs_ok db" and ins: "sql_insert_log i ts level msg db = Inr db'"
    and lv: "level \<in> set valid_log_levels" "length msg \<le> max_log_message_len"
  shows "jobs_ok db'"
  using ins
proof (rule sql_insert_log_cases)
  let ?l = "\<lparr>jl_id = db_log_seq db + 1, jl_job = i, jl_ts = ts, jl_level = level, jl_message = msg\<rparr>"
  assume i: "i \<in> job_ids (db_jobs db)"
    and db': "db' = db\<lparr>db_log_seq := db_log_seq db + 1, db_logs := ins_row ?l (db_logs db)\<rparr>"
  have old: "\<forall>l \<in> set (db_logs db). log_row_ok db l" "sorted_wrt (<) (map jl_id (db_logs db))"
    using jobs_okD(3) [OF ok] by (simp_all add: logs_ok_def)
  have "sorted_wrt (<) (map jl_id (db_logs db'))"
    using old by (fastforce simp: db' ins_row_def sorted_wrt_append log_row_ok_def)
  moreover have "\<forall>l \<in> set (db_logs db'). log_row_ok db' l"
    using old i lv by (fastforce simp: db' log_row_ok_def)
  ultimately have "logs_ok db'" by (simp add: logs_ok_def)
  then show "jobs_ok db'"
    using ok by (simp add: jobs_ok_def db' job_refs_ok_def has_machine_def)
qed

lemma row_effect_ok: "row_effect db db' \<Longrightarrow> jobs_ok db \<Longrightarrow> jobs_ok db'"
  by (induction rule: row_effect.induct) (auto intro: jobs_ok_insert jobs_ok_update jobs_ok_log)

lemma jobs_effect_ok: "jobs_effect db db' \<Longrightarrow> jobs_ok db \<Longrightarrow> jobs_ok db'"
  by (induction rule: jobs_effect.induct) (auto intro: row_effect_ok jobs_ok_delete delete_logs_ok)

text \<open>What an effect does to one row.\<close>

lemma row_effect_row:
  assumes "row_effect db db'" and "r \<in> set (db_jobs db)"
  shows "\<exists>r' \<in> set (db_jobs db'). job_moves r r'"
  using assms
proof (cases rule: row_effect.cases)
  case (update p f)
  then have "(if p r then f r else r) \<in> set (db_jobs db')"
    using assms(2) by (auto simp: set_upd_where)
  moreover have "job_moves r (if p r then f r else r)"
    using update(2) [of r] by simp
  ultimately show ?thesis by blast
qed (auto elim!: sql_insert_job_cases sql_insert_log_cases intro!: bexI [where x = r])

subsection \<open>Steps of the store\<close>

text \<open>
  \<open>jobs_step\<close> is one call of the job API, under any fault plan and at any time; \<open>catalog_step\<close> is
  the clean-up that a deleted image or profile makes.
\<close>

inductive jobs_step :: "jobs_db \<Rightarrow> jobs_db \<Rightarrow> bool" where
  create: "create_job fl now rid inp db = (out, db') \<Longrightarrow> (\<And>i. rid = Inr i \<Longrightarrow> hex32_match i) \<Longrightarrow> jobs_step db db'"
| claim: "claim_job fl now i db = (out, db') \<Longrightarrow> jobs_step db db'"
| stage: "update_stage fl i s db = (res, db') \<Longrightarrow> jobs_step db db'"
| succeed: "succeed_job fl now i db = (res, db') \<Longrightarrow> jobs_step db db'"
| fail: "fail_job fl now i msg db = (res, db') \<Longrightarrow> jobs_step db db'"
| cancel: "cancel_job fl now i db = (res, db') \<Longrightarrow> jobs_step db db'"
| delete: "delete_job fl i db = (res, db') \<Longrightarrow> jobs_step db db'"
| delete_all: "delete_all_terminal fl db = (cnt, db') \<Longrightarrow> jobs_step db db'"
| log: "append_log fl now i level msg db = (res, db') \<Longrightarrow> jobs_step db db'"

inductive catalog_step :: "jobs_db \<Rightarrow> jobs_db \<Rightarrow> bool" where
  image: "delete_by_image fl i db = (cnt, db') \<Longrightarrow> catalog_step db db'"
| profile: "delete_by_profile fl i db = (cnt, db') \<Longrightarrow> catalog_step db db'"

lemma jobs_step_effect: "jobs_step db db' \<Longrightarrow> jobs_effect db db'"
  by (induction rule: jobs_step.induct) (auto intro: row_operation_effects deletion_effects jobs_effect.keep)

lemma catalog_step_effect: "catalog_step db db' \<Longrightarrow> jobs_effect db db'"
  by (induction rule: catalog_step.induct) (auto intro: row_operation_effects deletion_effects jobs_effect.keep)

definition store_step :: "jobs_db \<Rightarrow> jobs_db \<Rightarrow> bool" where
  "store_step db db' \<longleftrightarrow> jobs_step db db' \<or> catalog_step db db'"

interpretation job_steps: transition_system store_step jobs_ok
  by unfold_locales (auto simp: store_step_def intro: jobs_effect_ok jobs_step_effect catalog_step_effect)

interpretation job_effects: transition_system jobs_effect jobs_ok
  by unfold_locales (rule jobs_effect_ok)

lemma one_in_flight_unique:
  "one_in_flight js \<Longrightarrow> q \<in> set js \<Longrightarrow> r \<in> set js \<Longrightarrow> in_flight q \<Longrightarrow> in_flight r \<Longrightarrow>
   jb_machine q = jb_machine r \<Longrightarrow> q = r"
  by (auto simp: one_in_flight_def intro: keyed_unique [of jb_machine "filter in_flight js"])

lemma guarded_update_ids:
  assumes "guarded_update fl op i from f db = (res, db')" and "\<And>r. jb_id (f r) = jb_id r"
  shows "job_ids (db_jobs db') = job_ids (db_jobs db)"
  using assms by (cases rule: guarded_update_cases [OF assms(1)]) (simp_all add: ids_upd_where)

lemma deletion_cases:
  assumes "sql_delete_jobs p (delete_logs_where q db) = Inr db'" "r \<in> set (db_jobs db)"
  shows "r \<in> set (db_jobs db') \<longleftrightarrow> \<not> p r"
  using assms by (elim sql_delete_jobs_cases) (simp add: delete_logs_where_def)

text \<open>Only a finished job leaves the table by a call of the job API.\<close>

lemma delete_job_cases:
  assumes "delete_job fl i0 db = (res, db')"
  obtains (refused) e where "res = Some e" "db' = db"
  | (deleted) i r where "res = None" "validate_job_id i0 = Inr i" "r \<in> set (db_jobs db)" "jb_id r = i"
      "terminal (jb_status r)"
      "sql_delete_jobs (\<lambda>r. jb_id r = i) (delete_logs_where (\<lambda>j. j = i) db) = Inr db'"
  using assms
  by (auto simp: delete_job_def try_sql_def split: sum.splits option.splits if_splits dest!: sel_row_Some)

lemma jobs_step_row:
  assumes ok: "jobs_ok db" and step: "jobs_step db db'" and r: "r \<in> set (db_jobs db)"
  shows "(\<exists>r' \<in> set (db_jobs db'). job_moves r r') \<or> terminal (jb_status r)"
  using step
proof cases
  case (delete fl i0 res)
  from delete show ?thesis
  proof (cases rule: delete_job_cases)
    case refused
    with r show ?thesis using job_moves_refl by blast
  next
    case (deleted i q)
    then show ?thesis
      using r deletion_cases [OF deleted(6) r] keyed_unique [OF jobs_okD(1) [OF ok] deleted(3) r]
        job_moves_refl [of r] by metis
  qed
next
  case (delete_all fl cnt)
  show ?thesis
  proof (cases "terminal (jb_status r)")
    case False
    have "r \<in> set (db_jobs db')"
      using delete_all r False
      by (auto simp: delete_all_terminal_def try_sql_def Let_def split: sum.splits option.splits
          dest: deletion_cases)
    then show ?thesis using job_moves_refl by blast
  qed simp
qed (use r in \<open>blast dest: row_operation_effects row_effect_row\<close>)+

subsection \<open>The transitions as functions of one row\<close>

text \<open>
  What the store promises of a transition, over the one row with the identifier: the row is missing,
  or it is in a state the transition does not leave, or it alone is replaced.
\<close>

definition transition_spec ::
  "string \<Rightarrow> job_status list \<Rightarrow> (job \<Rightarrow> job) \<Rightarrow> jobs_db \<Rightarrow> job_error option \<times> jobs_db" where
  "transition_spec i from f db =
    (case find (\<lambda>r. jb_id r = i) (db_jobs db) of
       None \<Rightarrow> (Some JobNotFound, db)
     | Some r \<Rightarrow>
       (if jb_status r \<in> set from
        then (None, db\<lparr>db_jobs := map (\<lambda>q. if q = r then f r else q) (db_jobs db)\<rparr>)
        else (Some (InvalidTransition (jb_status r)), db)))"

lemma guarded_update_spec:
  assumes ok: "jobs_ok db"
  shows "guarded_update no_faults op i from f db = transition_spec i from f db"
proof (cases "sel_row (\<lambda>r. jb_id r = i) (db_jobs db)")
  case None
  then have "hits (\<lambda>r. jb_id r = i \<and> jb_status r \<in> set from) (db_jobs db) = 0"
    by (auto simp: hits_zero sel_row_None)
  with None show ?thesis
    by (simp add: guarded_update_def transition_spec_def classify_missed_update_def sel_row_def)
next
  case (Some r)
  let ?p = "\<lambda>q. jb_id q = i \<and> jb_status q \<in> set from"
  have r: "r \<in> set (db_jobs db)" "jb_id r = i" using sel_row_Some [OF Some] by auto
  have only: "q \<in> set (db_jobs db) \<Longrightarrow> jb_id q = i \<longleftrightarrow> q = r" for q
    using r keyed_unique [OF jobs_okD(1) [OF ok]] by blast
  show ?thesis
  proof (cases "jb_status r \<in> set from")
    case True
    then have "hits ?p (db_jobs db) \<noteq> 0" using r by (auto simp: hits_zero)
    moreover have "upd_where ?p f (db_jobs db) = map (\<lambda>q. if q = r then f r else q) (db_jobs db)"
      using True r only by (auto simp: upd_where_def)
    ultimately show ?thesis
      using True Some by (simp add: guarded_update_def transition_spec_def sel_row_def)
  next
    case False
    then have "hits ?p (db_jobs db) = 0" using only by (auto simp: hits_zero)
    with False Some show ?thesis
      by (simp add: guarded_update_def transition_spec_def classify_missed_update_def sel_row_def)
  qed
qed

subsection \<open>The log stream of a job\<close>

definition log_stream :: "string \<Rightarrow> jobs_db \<Rightarrow> job_log list" where
  "log_stream i db = filter (\<lambda>l. jl_job l = i) (db_logs db)"

definition lines_after :: "int \<Rightarrow> job_log list \<Rightarrow> job_log list" where
  "lines_after since ls = filter (\<lambda>l. since < jl_id l) ls"

lemma sorted_wrt_sort_id: "sorted_wrt (<) (map f xs) \<Longrightarrow> sort_key f xs = (xs :: 'a list)"
  for f :: "'a \<Rightarrow> int"
  by (rule sort_key_id_if_sorted) (metis strict_sorted_iff strict_sorted_imp_sorted)

lemma job_logs_page:
  assumes ok: "jobs_ok db" and page: "job_logs fl i0 since limit db = Inr page"
    and i: "validate_job_id i0 = Inr i"
  shows "page = take (nat (if limit \<le> 0 then 200 else limit)) (lines_after since (log_stream i db))"
proof -
  have "sorted_wrt (<) (map jl_id (lines_after since (log_stream i db)))"
    using jobs_okD(3) [OF ok]
    by (auto simp: logs_ok_def lines_after_def log_stream_def intro: sorted_ids_filter)
  moreover have "filter (\<lambda>l. jl_job l = i \<and> since < jl_id l) (db_logs db) = lines_after since (log_stream i db)"
    by (simp add: lines_after_def log_stream_def conj_commute)
  ultimately show ?thesis
    using page i by (auto simp: job_logs_def Let_def sorted_wrt_sort_id split: option.splits)
qed

lemma filter_after_prefix:
  assumes "sorted_wrt (<) (map jl_id ls)" "ls = p @ q" "p \<noteq> []"
  shows "filter (\<lambda>l. jl_id (last p) < jl_id l) ls = q"
proof -
  obtain p' x where p: "p = p' @ [x]" using assms(3) by (cases p rule: rev_cases) auto
  have "filter (\<lambda>l. jl_id x < jl_id l) q = q"
    using assms by (auto simp: p sorted_wrt_append filter_id_conv)
  moreover have "filter (\<lambda>l. jl_id x < jl_id l) p = []"
    using assms by (auto simp: p sorted_wrt_append filter_empty_conv)
  ultimately show ?thesis using assms(2) p by simp
qed

lemma lines_after_page:
  assumes ok: "jobs_ok db" and n: "0 < n"
    and page: "page = take n (lines_after since (log_stream i db))"
  shows "lines_after since (log_stream i db)
    = page @ lines_after (if page = [] then since else jl_id (last page)) (log_stream i db)"
proof (cases "page = []")
  case True
  with n page show ?thesis by auto
next
  case False
  let ?ls = "lines_after since (log_stream i db)"
  have s: "sorted_wrt (<) (map jl_id ?ls)"
    using jobs_okD(3) [OF ok]
    by (auto simp: logs_ok_def lines_after_def log_stream_def intro: sorted_ids_filter)
  have "last page \<in> set ?ls" using False page by (metis in_set_takeD last_in_set)
  then have "since < jl_id (last page)" by (simp add: lines_after_def)
  then have "lines_after (jl_id (last page)) (log_stream i db) = filter (\<lambda>l. jl_id (last page) < jl_id l) ?ls"
    by (auto simp: lines_after_def intro!: filter_cong)
  also have "\<dots> = drop n ?ls"
    using filter_after_prefix [OF s, of page "drop n ?ls"] False page by simp
  finally show ?thesis using False page by simp
qed

lemma append_log_stream:
  assumes ok: "jobs_ok db" and app: "append_log fl now i0 level msg db = (None, db')"
    and i: "validate_job_id i0 = Inr i"
  shows "\<exists>l. log_stream i db' = log_stream i db @ [l] \<and> jl_message l = validate_log_message msg
    \<and> (\<forall>k \<in> set (log_stream i db). jl_id k < jl_id l)"
proof -
  have "\<forall>k \<in> set (db_logs db). jl_id k \<le> db_log_seq db"
    using jobs_okD(3) [OF ok] by (simp add: logs_ok_def log_row_ok_def)
  then show ?thesis
    using app i
    by (auto simp: append_log_def try_sql_def log_stream_def ins_row_def
        split: sum.splits option.splits elim!: sql_insert_log_cases)
qed

subsection \<open>A database for the witnesses\<close>

definition sample_machine :: "nat \<Rightarrow> string" where
  "sample_machine n = ''00000000-0000-0000-0000-00000000000'' @ digits_nat n"

definition sample_id :: "char \<Rightarrow> string" where
  "sample_id c = replicate 32 c"

definition sample_job :: job where
  "sample_job = \<lparr>jb_id = sample_id CHR ''1'', jb_machine = sample_machine 1, jb_type = ''install'',
     jb_image = sample_id CHR ''a'', jb_profile = sample_id CHR ''b'', jb_status = Pending, jb_stage = [],
     jb_error = [], jb_created = 100, jb_started = None, jb_finished = None,
     jb_created_by = ''admin'', jb_retry = None\<rparr>"

definition sample_failed :: job where
  "sample_failed = sample_job\<lparr>jb_id := sample_id CHR ''2'', jb_status := Failed, jb_error := ''disk'',
     jb_finished := Some 90\<rparr>"

definition sample_db :: jobs_db where
  "sample_db = \<lparr>db_machines = [\<lparr>mc_uuid = sample_machine 1, mc_last_seen = 100, mc_latest_report = None\<rparr>,
       \<lparr>mc_uuid = sample_machine 2, mc_last_seen = 100, mc_latest_report = None\<rparr>],
     db_images = [sample_id CHR ''a''], db_profiles = [sample_id CHR ''b''],
     db_jobs = [sample_job, sample_failed],
     db_logs = [\<lparr>jl_id = 7, jl_job = sample_id CHR ''1'', jl_ts = 101, jl_level = ''info'', jl_message = ''hi''\<rparr>],
     db_log_seq = 9\<rparr>"

definition sample_create :: "nat \<Rightarrow> string \<Rightarrow> job_create" where
  "sample_create n retry = \<lparr>jc_machine = sample_machine n, jc_type = ''install'', jc_image = sample_id CHR ''a'',
     jc_profile = sample_id CHR ''b'', jc_created_by = ''admin'', jc_retry = retry\<rparr>"

lemma sample_db_ok: "jobs_ok sample_db"
  by code_simp

lemma sample_claimed: "claim_job no_faults 5000000000 (sample_id CHR ''1'') sample_db =
   (Inr (sample_job\<lparr>jb_status := Running, jb_started := Some 5\<rparr>),
    sample_db\<lparr>db_jobs := [sample_job\<lparr>jb_status := Running, jb_started := Some 5\<rparr>, sample_failed]\<rparr>)"
  by code_simp

lemma sample_hex: "hex32_match (sample_id CHR ''1'')"
  by code_simp

lemma sample_page: "job_logs no_faults (sample_id CHR ''1'') 0 0 sample_db = Inr (db_logs sample_db)"
  by code_simp

lemma conflict_text:
  "is_in_flight_conflict ''constraint failed: UNIQUE constraint failed: jobs.machine_uuid (2067)''"
  by code_simp

subsection \<open>Properties\<close>

text \<open>
  C9: No sequence of calls, whatever fails on the way, breaks the tables: every row stays valid,
  every reference resolves, the log numbering stays increasing, and a machine never has two jobs
  that are pending or running, the mutual exclusion of installations.
\<close>

theorem one_install_per_machine:
  assumes "jobs_ok db" and "store_step\<^sup>*\<^sup>* db db'"
  shows "jobs_ok db' \<and>
    (\<forall>q r. q \<in> set (db_jobs db') \<and> r \<in> set (db_jobs db') \<and> in_flight q \<and> in_flight r
       \<and> jb_machine q = jb_machine r \<longrightarrow> q = r)"
  using job_steps.reach_inv [OF assms(2,1)] one_in_flight_unique by (blast dest: jobs_okD(2))

lemma one_install_per_machine_witness:
  "jobs_ok (sample_db\<lparr>db_jobs := [sample_job\<lparr>jb_status := Running, jb_started := Some 5\<rparr>, sample_failed]\<rparr>)"
proof -
  have "store_step sample_db
      (sample_db\<lparr>db_jobs := [sample_job\<lparr>jb_status := Running, jb_started := Some 5\<rparr>, sample_failed]\<rparr>)"
    unfolding store_step_def using sample_claimed by (blast intro: jobs_step.claim)
  then show ?thesis using one_install_per_machine [OF sample_db_ok] by blast
qed

lemma catalog_step_row:
  assumes "catalog_step db db'" and "r \<in> set (db_jobs db)"
  shows "r \<in> set (db_jobs db') \<or> jb_id r \<notin> job_ids (db_jobs db') \<or> \<not> jobs_ok db"
proof (cases "jobs_ok db")
  case True
  from assms(1) have "set (db_jobs db') \<subseteq> set (db_jobs db)"
    by (cases rule: catalog_step.cases)
      (auto simp: delete_by_image_def delete_by_profile_def try_sql_def split: option.splits sum.splits
        elim!: sql_delete_jobs_cases)
  then show ?thesis
    using keyed_unique [OF jobs_okD(1) [OF True] assms(2)] assms(2) unfolding job_ids_def by blast
qed simp

text \<open>A catalog deletion takes the jobs of its image or profile, whatever their state, and no others.\<close>

definition deletes_with_catalog :: "job \<Rightarrow> jobs_db \<Rightarrow> jobs_db \<Rightarrow> bool" where
  "deletes_with_catalog r db db' \<longleftrightarrow>
    (\<exists>fl n. delete_by_image fl (jb_image r) db = (Inr n, db')) \<or> (\<exists>fl n. delete_by_profile fl (jb_profile r) db = (Inr n, db'))"

lemma catalog_step_gone:
  assumes "catalog_step db db'" "r \<in> set (db_jobs db)" "r \<notin> set (db_jobs db')"
  shows "deletes_with_catalog r db db'"
  using assms(1)
proof cases
  case (image fl i cnt)
  then have "jb_image r = i \<and> (\<exists>n. cnt = Inr n)"
    using assms(2,3)
    by (auto simp: delete_by_image_def try_sql_def split: option.splits sum.splits elim!: sql_delete_jobs_cases)
  then show ?thesis using image unfolding deletes_with_catalog_def by blast
next
  case (profile fl i cnt)
  then have "jb_profile r = i \<and> (\<exists>n. cnt = Inr n)"
    using assms(2,3)
    by (auto simp: delete_by_profile_def try_sql_def split: option.splits sum.splits elim!: sql_delete_jobs_cases)
  then show ?thesis using profile unfolding deletes_with_catalog_def by blast
qed

lemma jobs_step_life:
  assumes "jobs_ok db" and "jobs_step db db'" and "r \<in> set (db_jobs db)"
  shows "if terminal (jb_status r) then r \<in> set (db_jobs db') \<or> jb_id r \<notin> job_ids (db_jobs db')
    else \<exists>r' \<in> set (db_jobs db'). same_job r r' \<and>
        (jb_status r' = jb_status r \<or> status_edge (jb_status r) (jb_status r'))"
proof (cases "terminal (jb_status r)")
  case True
  have "jobs_effect db db'" using assms(2) by (rule jobs_step_effect)
  then show ?thesis
  proof cases
    case keep
    then obtain r' where "r' \<in> set (db_jobs db')" "job_moves r r'"
      using row_effect_row assms(3) by blast
    moreover have "r' = r" using calculation(2) True by (rule job_moves_terminal)
    ultimately show ?thesis using True by simp
  next
    case (delete p q)
    have sub: "set (db_jobs db') \<subseteq> set (db_jobs db)"
      using delete by (elim sql_delete_jobs_cases) (auto simp: delete_logs_where_def)
    have "r \<in> set (db_jobs db')" if "jb_id r \<in> job_ids (db_jobs db')"
      using that sub keyed_unique [OF jobs_okD(1) [OF assms(1)] assms(3)] unfolding job_ids_def by blast
    then show ?thesis using True by auto
  qed
next
  case False
  then obtain r' where r': "r' \<in> set (db_jobs db')" "job_moves r r'"
    using jobs_step_row [OF assms] by blast
  then have "jb_status r' = jb_status r \<or> status_edge (jb_status r) (jb_status r')"
    by (auto simp: job_moves_def)
  moreover have "same_job r r'" using r'(2) by (rule job_moves_same)
  ultimately show ?thesis using False r'(1) by auto
qed

text \<open>
  C10: A job follows the life cycle: in one call of the job store a row only moves along pending,
  running, succeeded, failed or cancelled, keeping what it installs and where, and a finished job is
  never changed again. A row leaves the table when it is finished, by a call of the job API, or with
  the image or the profile that it names; then its identifier is gone. (The jobs of a machine also go
  when the machine is deleted; that call is in the inventory.)
\<close>

theorem job_life_cycle:
  assumes "jobs_ok db" and "store_step db db'" and "r \<in> set (db_jobs db)"
  shows "(\<exists>r' \<in> set (db_jobs db'). same_job r r' \<and>
        (if terminal (jb_status r) then r' = r
         else jb_status r' = jb_status r \<or> status_edge (jb_status r) (jb_status r')))
    \<or> jb_id r \<notin> job_ids (db_jobs db') \<and>
        (jobs_step db db' \<and> terminal (jb_status r) \<or> deletes_with_catalog r db db')"
proof -
  have same: "same_job r r" by (simp add: same_job_def)
  from assms(2) consider "jobs_step db db'" | "catalog_step db db'" by (auto simp: store_step_def)
  then show ?thesis
  proof cases
    case 1
    from jobs_step_life [OF assms(1) 1 assms(3)] show ?thesis
      using same 1 by (cases "terminal (jb_status r)") auto
  next
    case 2
    show ?thesis
    proof (cases "r \<in> set (db_jobs db')")
      case True
      then show ?thesis using same by auto
    next
      case False
      then show ?thesis
        using catalog_step_row [OF 2 assms(3)] catalog_step_gone [OF 2 assms(3) False] assms(1) by blast
    qed
  qed
qed

lemma job_life_cycle_witness:
  "\<exists>r' \<in> {sample_job\<lparr>jb_status := Running, jb_started := Some 5\<rparr>, sample_failed}.
      same_job sample_job r' \<and> (jb_status r' = Pending \<or> status_edge Pending (jb_status r'))"
proof -
  let ?db = "sample_db\<lparr>db_jobs := [sample_job\<lparr>jb_status := Running, jb_started := Some 5\<rparr>, sample_failed]\<rparr>"
  have "store_step sample_db ?db"
    unfolding store_step_def using sample_claimed by (blast intro: jobs_step.claim)
  moreover have "sample_job \<in> set (db_jobs sample_db)" "\<not> terminal (jb_status sample_job)" "jb_status sample_job = Pending"
    "jb_id sample_job \<in> job_ids (db_jobs ?db)"
    by (simp_all add: sample_db_def sample_job_def job_ids_def)
  ultimately show ?thesis using job_life_cycle [OF sample_db_ok, of ?db sample_job] by auto
qed

text \<open>
  Creating a job with well-formed fields on a working database succeeds exactly when machine,
  image, profile and retried job exist and the machine has no pending or running job; otherwise the
  first missing one, or the conflict, is reported and nothing is written.
\<close>

theorem create_job_outcome:
  assumes "create_fields inp = Inr (u, img, prof, ty, retry)" and "i \<notin> job_ids (db_jobs db)"
  shows "create_job no_faults now (Inr i) inp db =
    (let r = \<lparr>jb_id = i, jb_machine = u, jb_type = ty, jb_image = img, jb_profile = prof,
              jb_status = Pending, jb_stage = [], jb_error = [], jb_created = unix now,
              jb_started = None, jb_finished = None, jb_created_by = jc_created_by inp, jb_retry = retry\<rparr>
     in if \<not> has_machine db u then (Inl (MachineUnknown u), db)
        else if img \<notin> set (db_images db) then (Inl (ImageUnknown img), db)
        else if prof \<notin> set (db_profiles db) then (Inl (ProfileUnknown prof), db)
        else if case retry of None \<Rightarrow> False | Some k \<Rightarrow> k \<notin> job_ids (db_jobs db) then (Inl JobNotFound, db)
        else if \<exists>q \<in> set (db_jobs db). in_flight q \<and> jb_machine q = u then (Inl InFlight, db)
        else (Inr r, db\<lparr>db_jobs := db_jobs db @ [r]\<rparr>))"
  using assms conflict_text
  by (cases retry)
    (auto simp: job_ids_def create_job_def create_checks_def check_machine_exists_def check_image_exists_def
      check_profile_exists_def check_job_exists_def sql_insert_job_def in_flight_def retry_ok_def
      ins_row_def Let_def)

lemma create_job_outcome_witness:
  "create_job no_faults 0 (Inr (sample_id CHR ''3'')) (sample_create 1 []) sample_db = (Inl InFlight, sample_db)"
  by (subst create_job_outcome [where u = "sample_machine 1" and img = "sample_id CHR ''a''"
        and prof = "sample_id CHR ''b''" and ty = "''install''" and retry = None]) code_simp+

text \<open>
  C11: On a working database claiming, finishing and cancelling a job are functions of the one row
  with the identifier: an unknown job is reported as missing, a job in another state as an invalid
  transition with that state, and otherwise this row alone moves. A claim starts a pending job only,
  success finishes a running one only; failure and cancellation also take a pending job.
\<close>

theorem transitions_refine_life_cycle:
  assumes "jobs_ok db" and "validate_job_id i0 = Inr i"
  shows "succeed_job no_faults now i0 db = transition_spec i [Running]
      (\<lambda>r. r\<lparr>jb_status := Succeeded, jb_error := [], jb_finished := Some (unix now)\<rparr>) db
    \<and> fail_job no_faults now i0 msg db = transition_spec i [Pending, Running]
      (\<lambda>r. r\<lparr>jb_status := Failed, jb_error := validate_error msg, jb_finished := Some (unix now)\<rparr>) db
    \<and> cancel_job no_faults now i0 db = transition_spec i [Pending, Running]
      (\<lambda>r. r\<lparr>jb_status := Cancelled, jb_error := [], jb_finished := Some (unix now)\<rparr>) db
    \<and> snd (claim_job no_faults now i0 db) = snd (transition_spec i [Pending]
      (\<lambda>r. r\<lparr>jb_status := Running, jb_started := Some (unix now)\<rparr>) db)"
  using guarded_update_spec [OF assms(1)] assms(2)
  by (simp add: succeed_job_def fail_job_def cancel_job_def terminate_job_def claim_job_def
      split: prod.splits option.splits)

lemma transitions_refine_life_cycle_witness:
  "fst (succeed_job no_faults 0 (sample_id CHR ''1'') sample_db) = Some (InvalidTransition Pending)"
proof -
  have "succeed_job no_faults 0 (sample_id CHR ''1'') sample_db
    = transition_spec (sample_id CHR ''1'') [Running]
        (\<lambda>r. r\<lparr>jb_status := Succeeded, jb_error := [], jb_finished := Some (unix 0)\<rparr>) sample_db"
    using transitions_refine_life_cycle [OF sample_db_ok, of "sample_id CHR ''1''" "sample_id CHR ''1''" 0]
    by (simp add: validate_job_id_hex [of "sample_id CHR ''1''"] sample_hex)
  then show ?thesis
    by (simp add: transition_spec_def sample_db_def sample_job_def)
qed

text \<open>
  A reader that asks for the lines after the last one it saw misses none and sees none twice:
  a page is the next lines of the job's stream, the rest of the stream is what the next call
  reads, and a line appended in between comes after everything read so far.
\<close>

theorem log_tail_misses_nothing:
  assumes "jobs_ok db" and "validate_job_id i0 = Inr i" and "job_logs fl i0 since limit db = Inr page"
    and "append_log fl' now i0 level msg db = (None, db')"
  shows "lines_after since (log_stream i db)
      = page @ lines_after (if page = [] then since else jl_id (last page)) (log_stream i db)
    \<and> (page = [] \<longleftrightarrow> lines_after since (log_stream i db) = [])
    \<and> (\<exists>l. log_stream i db' = log_stream i db @ [l] \<and> jl_message l = validate_log_message msg
         \<and> (\<forall>k \<in> set (log_stream i db). jl_id k < jl_id l))"
  using lines_after_page [OF assms(1) _ job_logs_page [OF assms(1,3,2)]]
    job_logs_page [OF assms(1,3,2)] append_log_stream [OF assms(1,4,2)]
  by auto

lemma log_tail_misses_nothing_witness:
  "\<exists>l. log_stream (sample_id CHR ''1'') (snd (append_log no_faults 0 (sample_id CHR ''1'') ''info'' ''x'' sample_db))
     = log_stream (sample_id CHR ''1'') sample_db @ [l] \<and> jl_message l = ''x''"
proof -
  have "append_log no_faults 0 (sample_id CHR ''1'') ''info'' ''x'' sample_db =
      (None, snd (append_log no_faults 0 (sample_id CHR ''1'') ''info'' ''x'' sample_db))"
    by code_simp
  from log_tail_misses_nothing [OF sample_db_ok validate_job_id_hex [OF sample_hex] _ this,
      of no_faults 0 0, OF refl [THEN trans [OF sample_page]]]
  show ?thesis by (auto simp: validate_log_message_def max_log_message_len_def)
qed

text \<open>
  A finished job that was retried cannot be deleted: \<open>retry_of_job_id\<close> has no delete action, so
  the statement violates the foreign key of the retry and the call fails as a server error.
\<close>

theorem retried_job_cannot_be_deleted:
  assumes "jobs_ok db" and "r \<in> set (db_jobs db)" and "terminal (jb_status r)"
    and "q \<in> set (db_jobs db)" and "jb_retry q = Some (jb_id r)" and "jb_id q \<noteq> jb_id r"
  shows "delete_job no_faults (jb_id r) db =
    (Some (JobDb ''delete job'' ''constraint failed: FOREIGN KEY constraint failed (787)''), db)"
proof -
  have "sel_row (\<lambda>q. jb_id q = jb_id r) (db_jobs db) = Some r"
    using keyed_sel [OF jobs_okD(1) [OF assms(1)] assms(2)] by simp
  moreover have "hex32_match (jb_id r)"
    using jobs_okD(4) [OF assms(1,2)] by (simp add: job_row_ok_def)
  moreover have "\<not> list_all (retry_ok (del_where (\<lambda>q. jb_id q = jb_id r) (db_jobs db)))
      (del_where (\<lambda>q. jb_id q = jb_id r) (db_jobs db))"
  proof
    assume "list_all (retry_ok (del_where (\<lambda>q. jb_id q = jb_id r) (db_jobs db)))
      (del_where (\<lambda>q. jb_id q = jb_id r) (db_jobs db))"
    then have "retry_ok (del_where (\<lambda>q. jb_id q = jb_id r) (db_jobs db)) q"
      using assms(4,6) by (simp add: list_all_iff)
    then show False using assms(5) by (auto simp: retry_ok_def job_ids_def)
  qed
  ultimately show ?thesis
    using assms(3) by (simp add: delete_job_def sql_delete_jobs_def delete_logs_where_def)
qed

end
