(* ===== verification/Profile_Rules.thy ===== *)
theory Profile_Rules
  imports Go_Net
begin

text \<open>
  \<open>internal/profiles/validate.go\<close>: what an install profile, and the per-machine overrides of one,
  may hold. A JSON field arrives as \<open>raw_json\<close>: absent or empty, not decodable into the struct, or
  the decoded struct. A validator returns the canonical form that is stored.
\<close>

subsection \<open>Data\<close>

datatype 'a raw_json = RawEmpty | RawBad string | RawOk 'a

record target_disk =
  td_mode :: string
  td_value :: string

record bond_config =
  bo_mode :: string
  bo_slaves :: "string list"
  bo_miimon :: int
  bo_lacp_rate :: string
  bo_xmit_policy :: string
  bo_primary :: string

record network_config =
  nc_method :: string
  nc_prefix_len :: int
  nc_gateway :: string
  nc_dns :: "string list"
  nc_nic_selector :: string
  nc_vlan :: int
  nc_bond :: "bond_config option"

datatype profile_error =
    OsFamilyUnknown string
  | ProfileSubnetId string
  | FieldRequired string
  | FieldJson string string
  | DiskMode string
  | DiskValueForbidden
  | DiskValueRequired string
  | NetPrefixLen int
  | NetGateway string
  | NetDns nat string
  | NetMethod string
  | NetVlan int
  | NicSelector string
  | NicMac string
  | IfEmpty
  | IfInvalid string
  | BondMode string
  | BondFew nat
  | BondMany nat
  | BondSlave nat profile_error
  | BondDuplicate nat string
  | BondMiimon int
  | BondLacpForbidden
  | BondXmitForbidden
  | BondPrimary profile_error
  | BondPrimaryNotSlave string
  | BondPrimaryForbidden
  | BondLacp string
  | BondXmit string
  | HostTemplateRequired
  | HostTemplateLength nat
  | HostTemplateChars string
  | HostTemplateLabel string
  | ChrootDnsMany nat
  | ChrootDnsBad string

definition max_hostname_len :: nat where
  "max_hostname_len = 253"

definition valid_disk_modes :: "string list" where
  "valid_disk_modes = [''smallest'', ''by-path'', ''by-wwn'', ''by-model'']"

definition valid_os_families :: "string list" where
  "valid_os_families =
    [''any'', ''ubuntu'', ''debian'', ''rhel'', ''rhel7'', ''kylin'', ''openeuler'', ''opensuse'']"

definition valid_bond_modes :: "string list" where
  "valid_bond_modes = [''active-backup'', ''802.3ad'']"

definition valid_lacp_rates :: "string list" where
  "valid_lacp_rates = [''slow'', ''fast'']"

definition valid_xmit_policies :: "string list" where
  "valid_xmit_policies = [''layer2'', ''layer2+3'', ''layer3+4'']"

subsection \<open>Families and identifiers\<close>

definition validate_os_family :: "string \<Rightarrow> profile_error option" where
  "validate_os_family s0 =
    (let s = lower_trim s0 in
     if s = [] then None else if s \<notin> set valid_os_families then Some (OsFamilyUnknown s) else None)"

definition canonical_os_family :: "string \<Rightarrow> string" where
  "canonical_os_family s0 = (let s = lower_trim s0 in if s = [] then ''any'' else s)"

definition validate_profile_subnet :: "string \<Rightarrow> (profile_error, string) result" where
  "validate_profile_subnet s0 =
    (let s = trim_space s0 in
     if s = [] then Inr [] else if \<not> hex32_match s then Inl (ProfileSubnetId s) else Inr s)"

subsection \<open>Network interfaces\<close>

text \<open>\<open>net.ParseMAC\<close> accepts 6, 8 or 20 octets, in pairs split by colons or hyphens or in fours by dots.\<close>

definition hex_group :: "nat \<Rightarrow> string \<Rightarrow> bool" where
  "hex_group n s \<longleftrightarrow> length s = n \<and> list_all is_hex s"

definition parses_mac :: "string \<Rightarrow> bool" where
  "parses_mac s \<longleftrightarrow>
    14 \<le> length s \<and>
    (if s ! 2 \<in> {CHR '':'', CHR ''-''}
     then (let ps = split_on (s ! 2) s in length ps \<in> {6, 8, 20} \<and> list_all (hex_group 2) ps)
     else if s ! 4 = CHR ''.''
     then (let ps = split_on CHR ''.'' s in length ps \<in> {3, 4, 10} \<and> list_all (hex_group 4) ps)
     else False)"

definition mac_match :: "string \<Rightarrow> bool" where
  "mac_match s \<longleftrightarrow> (let ps = split_on CHR '':'' s in length ps = 6 \<and> list_all (hex_group 2) ps)"

definition if_breaking :: "char list" where
  "if_breaking = [CHR '' '', CHR ''/'', CHR 0x09, CHR 0x0A]"

definition validate_if_name :: "string \<Rightarrow> profile_error option" where
  "validate_if_name s =
    (if s = [] then Some IfEmpty
     else if parses_mac s then None
     else if 15 < length s \<or> list_ex (\<lambda>c. c \<in> set if_breaking) s then Some (IfInvalid s)
     else None)"

definition validate_nic_selector :: "string \<Rightarrow> profile_error option" where
  "validate_nic_selector sel =
    (if sel = ''auto'' then None
     else if starts_with ''by-mac:'' sel then
       (if \<not> mac_match (drop 7 sel) then Some (NicMac sel) else None)
     else if starts_with ''by-name:'' sel then validate_if_name (drop 8 sel)
     else Some (NicSelector sel))"

subsection \<open>Target disk and bond\<close>

definition validate_target_disk :: "target_disk raw_json \<Rightarrow> (profile_error, target_disk) result" where
  "validate_target_disk raw =
    (case raw of
       RawEmpty \<Rightarrow> Inl (FieldRequired ''target_disk'')
     | RawBad msg \<Rightarrow> Inl (FieldJson ''target_disk'' msg)
     | RawOk td0 \<Rightarrow>
       (let td = \<lparr>td_mode = lower_trim (td_mode td0), td_value = trim_space (td_value td0)\<rparr> in
        if td_mode td \<notin> set valid_disk_modes then Inl (DiskMode (td_mode td))
        else if td_mode td = ''smallest'' then
          (if td_value td \<noteq> [] then Inl DiskValueForbidden else Inr td)
        else if td_value td = [] then Inl (DiskValueRequired (td_mode td))
        else Inr td))"

text \<open>The slaves in order: \<open>seen\<close> holds the canonical names so far.\<close>

fun bond_slaves :: "nat \<Rightarrow> string list \<Rightarrow> string list \<Rightarrow> (profile_error, string list) result" where
  "bond_slaves i seen [] = Inr seen"
| "bond_slaves i seen (s0 # ss) =
    (let s = trim_space s0 in
     case validate_if_name s of
       Some e \<Rightarrow> Inl (BondSlave i e)
     | None \<Rightarrow> (if s \<in> set seen then Inl (BondDuplicate i s) else bond_slaves (Suc i) (seen @ [s]) ss))"

definition bond_primary :: "string \<Rightarrow> string list \<Rightarrow> (profile_error, string) result" where
  "bond_primary p0 seen =
    (if p0 = [] then Inr []
     else (let p = trim_space p0 in
       case validate_if_name p of
         Some e \<Rightarrow> Inl (BondPrimary e)
       | None \<Rightarrow>
         (let q = (if parses_mac p then to_lower p else p) in
          if q \<notin> set seen then Inl (BondPrimaryNotSlave q) else Inr q)))"

definition bond_mode_fields :: "bond_config \<Rightarrow> (profile_error, bond_config) result" where
  "bond_mode_fields b =
    (if bo_mode b = ''active-backup'' then
       (if bo_lacp_rate b \<noteq> [] then Inl BondLacpForbidden
        else if bo_xmit_policy b \<noteq> [] then Inl BondXmitForbidden
        else case bond_primary (bo_primary b) (bo_slaves b) of
          Inl e \<Rightarrow> Inl e
        | Inr p \<Rightarrow> Inr (b\<lparr>bo_primary := p\<rparr>))
     else
       (if bo_primary b \<noteq> [] then Inl BondPrimaryForbidden
        else
          (let l0 = lower_trim (bo_lacp_rate b); l = (if l0 = [] then ''fast'' else l0);
               x0 = lower_trim (bo_xmit_policy b); x = (if x0 = [] then ''layer3+4'' else x0)
           in if l \<notin> set valid_lacp_rates then Inl (BondLacp l)
              else if x \<notin> set valid_xmit_policies then Inl (BondXmit x)
              else Inr (b\<lparr>bo_lacp_rate := l, bo_xmit_policy := x\<rparr>))))"

definition validate_bond :: "bond_config \<Rightarrow> (profile_error, bond_config) result" where
  "validate_bond b =
    (let mode = lower_trim (bo_mode b); n = length (bo_slaves b) in
     if mode \<notin> set valid_bond_modes then Inl (BondMode mode)
     else if n < 2 then Inl (BondFew n)
     else if 8 < n then Inl (BondMany n)
     else case bond_slaves 0 [] (bo_slaves b) of
       Inl e \<Rightarrow> Inl e
     | Inr ss \<Rightarrow>
       (let mi = (if bo_miimon b = 0 then 100 else bo_miimon b) in
        if mi < 50 \<or> 10000 < mi then Inl (BondMiimon mi)
        else bond_mode_fields (b\<lparr>bo_mode := mode, bo_slaves := ss, bo_miimon := mi\<rparr>)))"

definition validate_bond_json :: "bond_config raw_json \<Rightarrow> (profile_error, bond_config) result" where
  "validate_bond_json raw =
    (case raw of
       RawEmpty \<Rightarrow> Inl (FieldRequired ''bond'')
     | RawBad msg \<Rightarrow> Inl (FieldJson ''bond'' msg)
     | RawOk b \<Rightarrow> validate_bond b)"

subsection \<open>The network template\<close>

fun net_dns :: "nat \<Rightarrow> string list \<Rightarrow> (profile_error, string list) result" where
  "net_dns i [] = Inr []"
| "net_dns i (d # ds) =
    (case parse_to4 (trim_space d) of
       None \<Rightarrow> Inl (NetDns i d)
     | Some w \<Rightarrow> (case net_dns (Suc i) ds of Inl e \<Rightarrow> Inl e | Inr rest \<Rightarrow> Inr (show_ip4 w # rest)))"

text \<open>The switch on the method: the static fields are dropped, deferred or checked.\<close>

definition net_method :: "bool \<Rightarrow> network_config \<Rightarrow> (profile_error, network_config) result" where
  "net_method has_subnet nc =
    (let bare = nc\<lparr>nc_prefix_len := 0, nc_gateway := [], nc_dns := []\<rparr> in
     if nc_method nc = ''static'' then
       (if has_subnet then Inr bare
        else if nc_prefix_len nc = 0 \<and> nc_gateway nc = [] \<and> nc_dns nc = [] then Inr nc
        else if nc_prefix_len nc < 1 \<or> 32 < nc_prefix_len nc then Inl (NetPrefixLen (nc_prefix_len nc))
        else if parse_to4 (nc_gateway nc) = None then Inl (NetGateway (nc_gateway nc))
        else case net_dns 0 (nc_dns nc) of
          Inl e \<Rightarrow> Inl e
        | Inr ds \<Rightarrow> Inr (nc\<lparr>nc_dns := ds\<rparr>))
     else if nc_method nc = ''dhcp'' then Inr bare
     else Inl (NetMethod (nc_method nc)))"

definition net_links :: "bool \<Rightarrow> network_config \<Rightarrow> (profile_error, network_config) result" where
  "net_links has_subnet nc0 =
    (let sel0 = trim_space (nc_nic_selector nc0); sel = (if sel0 = [] then ''auto'' else sel0) in
     case validate_nic_selector sel of
       Some e \<Rightarrow> Inl e
     | None \<Rightarrow>
       (let nc = nc0\<lparr>nc_nic_selector := sel, nc_vlan := (if has_subnet then 0 else nc_vlan nc0)\<rparr> in
        if nc_vlan nc \<noteq> 0 \<and> (nc_vlan nc < 1 \<or> 4094 < nc_vlan nc) then Inl (NetVlan (nc_vlan nc))
        else case nc_bond nc of
          None \<Rightarrow> Inr nc
        | Some b \<Rightarrow>
          (case validate_bond b of
             Inl e \<Rightarrow> Inl e
           | Inr b' \<Rightarrow> Inr (nc\<lparr>nc_bond := Some b', nc_nic_selector := ''auto''\<rparr>))))"

definition validate_network :: "bool \<Rightarrow> network_config raw_json \<Rightarrow> (profile_error, network_config) result" where
  "validate_network has_subnet raw =
    (case raw of
       RawEmpty \<Rightarrow> Inl (FieldRequired ''network'')
     | RawBad msg \<Rightarrow> Inl (FieldJson ''network'' msg)
     | RawOk nc \<Rightarrow>
       (let m0 = lower_trim (nc_method nc); m = (if m0 = [] then ''dhcp'' else m0) in
        case net_method has_subnet (nc\<lparr>nc_method := m\<rparr>) of
          Inl e \<Rightarrow> Inl e
        | Inr nc' \<Rightarrow> net_links has_subnet nc'))"

subsection \<open>Host names and resolvers\<close>

text \<open>\<open>^F(M*L)?$\<close> for three classes of bytes.\<close>

definition framed :: "(char \<Rightarrow> bool) \<Rightarrow> (char \<Rightarrow> bool) \<Rightarrow> (char \<Rightarrow> bool) \<Rightarrow> string \<Rightarrow> bool" where
  "framed f m l s \<longleftrightarrow>
    (case s of [] \<Rightarrow> False | c # cs \<Rightarrow> f c \<and> (cs = [] \<or> list_all m (butlast cs) \<and> l (List.last cs)))"

definition hostname_template_match :: "string \<Rightarrow> bool" where
  "hostname_template_match s \<longleftrightarrow>
    framed (\<lambda>c. is_alnum c \<or> c = CHR ''{'')
      (\<lambda>c. is_alnum c \<or> c \<in> {CHR ''.'', CHR ''_'', CHR ''{'', CHR ''}'', CHR ''-''})
      (\<lambda>c. is_alnum c \<or> c = CHR ''}'') s"

definition validate_hostname_template :: "string \<Rightarrow> profile_error option" where
  "validate_hostname_template t0 =
    (let t = trim_space t0 in
     if t = [] then Some HostTemplateRequired
     else if max_hostname_len < length t then Some (HostTemplateLength (length t))
     else if \<not> hostname_template_match t then Some (HostTemplateChars t)
     else map_option HostTemplateLabel
       (find (\<lambda>l. 63 < length l \<and> \<not> list_ex (\<lambda>c. c \<in> {CHR ''{'', CHR ''}''}) l) (split_on CHR ''.'' t)))"

text \<open>\<open>strings.FieldsFunc\<close>: the maximal runs of bytes that are no separators.\<close>

function fields_on :: "char list \<Rightarrow> string \<Rightarrow> string list" where
  "fields_on seps s =
    (let s' = dropWhile (\<lambda>c. c \<in> set seps) s in
     if s' = [] then []
     else takeWhile (\<lambda>c. c \<notin> set seps) s' # fields_on seps (dropWhile (\<lambda>c. c \<notin> set seps) s'))"
  by pat_completeness auto
termination
proof (relation "measure (\<lambda>(seps, s). length s)", goal_cases)
  case (2 seps s s')
  then obtain c cs where s': "s' = c # cs" by (meson neq_Nil_conv)
  with 2 have "c \<notin> set seps" by (metis dropWhile_eq_Cons_conv)
  with s' have "length (dropWhile (\<lambda>c. c \<notin> set seps) s') < length s'"
    by (simp add: le_imp_less_Suc length_dropWhile_le)
  with 2 show ?case by (simp add: order_less_le_trans length_dropWhile_le)
qed simp

declare fields_on.simps [simp del]

definition dns_separators :: "char list" where
  "dns_separators = [CHR '','', CHR '' '', CHR 0x09, CHR 0x0A, CHR 0x0D]"

definition max_chroot_dns :: nat where
  "max_chroot_dns = 8"

definition validate_chroot_dns :: "string \<Rightarrow> (profile_error, string) result" where
  "validate_chroot_dns s0 =
    (let s = trim_space s0; parts = fields_on dns_separators s in
     if s = [] \<or> parts = [] then Inr []
     else if max_chroot_dns < length parts then Inl (ChrootDnsMany (length parts))
     else case find (\<lambda>p. parse_ip (trim_space p) = []) parts of
       Some p \<Rightarrow> Inl (ChrootDnsBad p)
     | None \<Rightarrow> Inr (join_with '','' parts))"

definition parse_chroot_dns :: "string \<Rightarrow> string list" where
  "parse_chroot_dns s0 =
    (let s = trim_space s0 in
     if s = [] then [] else filter (\<lambda>p. p \<noteq> []) (map trim_space (split_on CHR '','' s)))"

definition join_chroot_dns :: "string list \<Rightarrow> string" where
  "join_chroot_dns dns = join_with '','' dns"

subsection \<open>Canonical forms\<close>

lemma fixed_profile_words:
  "list_all (\<lambda>s. lower_trim s = s) valid_bond_modes" "list_all (\<lambda>s. lower_trim s = s) valid_lacp_rates"
  "list_all (\<lambda>s. lower_trim s = s) valid_xmit_policies" "list_all (\<lambda>s. lower_trim s = s) valid_disk_modes"
  "lower_trim ''static'' = ''static''" "lower_trim ''dhcp'' = ''dhcp''" "trim_space ''auto'' = ''auto''"
  by code_simp+

lemma words_fixed:
  "m \<in> set valid_bond_modes \<Longrightarrow> lower_trim m = m" "l \<in> set valid_lacp_rates \<Longrightarrow> lower_trim l = l"
  "x \<in> set valid_xmit_policies \<Longrightarrow> lower_trim x = x" "d \<in> set valid_disk_modes \<Longrightarrow> lower_trim d = d"
  using fixed_profile_words by (auto simp: list_all_iff)

lemma words_not_empty:
  "[] \<notin> set valid_lacp_rates" "[] \<notin> set valid_xmit_policies" "[] \<notin> set valid_disk_modes"
  by (simp_all add: valid_lacp_rates_def valid_xmit_policies_def valid_disk_modes_def)

lemma hex_groups_ascii:
  "list_all (hex_group n) (split_on d s) \<Longrightarrow> byte d < 128 \<Longrightarrow> c \<in> set s \<Longrightarrow> byte c < 128"
proof -
  assume g: "list_all (hex_group n) (split_on d s)" and d: "byte d < 128" and c: "c \<in> set s"
  from c have "c = d \<or> (\<exists>p \<in> set (split_on d s). c \<in> set p)"
    using set_split_on [of s d] by auto
  moreover have "byte x < 128" if "is_hex x" for x
    using that by (auto simp: is_hex_def is_lower_hex_def is_digit_def)
  ultimately show ?thesis
    using g d by (auto simp: list_all_iff hex_group_def)
qed

lemma parses_mac_ascii:
  assumes "parses_mac s" "c \<in> set s"
  shows "byte c < 128"
proof -
  obtain d n where "list_all (hex_group n) (split_on d s)" "byte d < 128"
    using assms(1) that [of 2 "s ! 2"] that [of 4 "CHR ''.''"]
    by (auto simp: parses_mac_def Let_def split: if_splits)
  then show ?thesis using assms(2) by (rule hex_groups_ascii)
qed

lemma to_lower_mac_idem: "parses_mac s \<Longrightarrow> to_lower (to_lower s) = to_lower s"
proof -
  assume m: "parses_mac s"
  then have l: "to_lower s = map lower_byte s"
    by (intro to_lower_ascii parses_mac_ascii)
  show ?thesis
    unfolding l using parses_mac_ascii [OF m]
    by (intro to_lower_id) (fastforce simp: byte_lower_byte is_upper_def split: if_splits)
qed

lemma bond_slaves_result:
  "bond_slaves i seen xs = Inr ss \<Longrightarrow> distinct seen \<Longrightarrow>
   \<exists>ys. ss = seen @ ys \<and> length ys = length xs \<and> distinct ss
     \<and> (\<forall>y \<in> set ys. trim_space y = y \<and> validate_if_name y = None)"
proof (induction i seen xs rule: bond_slaves.induct)
  case (2 i seen s0 xs)
  let ?s = "trim_space s0"
  from 2 have s: "validate_if_name ?s = None" "?s \<notin> set seen" "bond_slaves (Suc i) (seen @ [?s]) xs = Inr ss"
    by (auto simp: Let_def split: option.splits if_splits)
  with 2 obtain ys where "ss = (seen @ [?s]) @ ys" "length ys = length xs" "distinct ss"
    "\<forall>y \<in> set ys. trim_space y = y \<and> validate_if_name y = None"
    by (auto simp: Let_def)
  with s show ?case
    by (intro exI [of _ "?s # ys"]) (simp add: trim_space_idem)
qed simp

lemma bond_slaves_fixed:
  "(\<And>y. y \<in> set ys \<Longrightarrow> trim_space y = y \<and> validate_if_name y = None) \<Longrightarrow> distinct (seen @ ys) \<Longrightarrow>
   bond_slaves i seen ys = Inr (seen @ ys)"
  by (induction i seen ys rule: bond_slaves.induct) (auto simp: Let_def)

definition bond_canonical :: "bond_config \<Rightarrow> bool" where
  "bond_canonical b \<longleftrightarrow>
    bo_mode b \<in> set valid_bond_modes \<and> 2 \<le> length (bo_slaves b) \<and> length (bo_slaves b) \<le> 8
    \<and> distinct (bo_slaves b)
    \<and> (\<forall>s \<in> set (bo_slaves b). trim_space s = s \<and> validate_if_name s = None)
    \<and> 50 \<le> bo_miimon b \<and> bo_miimon b \<le> 10000
    \<and> (if bo_mode b = ''active-backup''
       then bo_lacp_rate b = [] \<and> bo_xmit_policy b = []
         \<and> (bo_primary b = [] \<or> bo_primary b \<in> set (bo_slaves b)
              \<and> (parses_mac (bo_primary b) \<longrightarrow> to_lower (bo_primary b) = bo_primary b))
       else bo_primary b = [] \<and> bo_lacp_rate b \<in> set valid_lacp_rates
         \<and> bo_xmit_policy b \<in> set valid_xmit_policies)"

lemma bond_primary_ok:
  assumes "bond_primary p0 seen = Inr p"
  shows "p = [] \<or> p \<in> set seen \<and> (parses_mac p \<longrightarrow> to_lower p = p)"
  using assms to_lower_mac_idem
  by (auto simp: bond_primary_def Let_def split: if_splits option.splits)

lemma validate_bond_canonical:
  assumes "validate_bond b = Inr b'"
  shows "bond_canonical b'"
proof -
  obtain ss where n: "2 \<le> length (bo_slaves b)" "length (bo_slaves b) \<le> 8"
    and ss: "bond_slaves 0 [] (bo_slaves b) = Inr ss"
    and m: "lower_trim (bo_mode b) \<in> set valid_bond_modes"
    using assms by (auto simp: validate_bond_def Let_def split: if_splits sum.splits)
  define mi where "mi = (if bo_miimon b = 0 then 100 else bo_miimon b)"
  have mi: "50 \<le> mi" "mi \<le> 10000"
    and b': "bond_mode_fields (b\<lparr>bo_mode := lower_trim (bo_mode b), bo_slaves := ss, bo_miimon := mi\<rparr>) = Inr b'"
    using assms n ss m by (auto simp: mi_def validate_bond_def Let_def not_less split: if_splits)
  from bond_slaves_result [OF ss]
  have len: "length ss = length (bo_slaves b)" and d: "distinct ss"
    and v: "\<forall>s \<in> set ss. trim_space s = s \<and> validate_if_name s = None"
    by auto
  show ?thesis
  proof (cases "lower_trim (bo_mode b) = ''active-backup''")
    case True
    then obtain p where "bond_primary (bo_primary b) ss = Inr p" "bo_lacp_rate b = []" "bo_xmit_policy b = []"
      "b' = b\<lparr>bo_mode := lower_trim (bo_mode b), bo_slaves := ss, bo_miimon := mi, bo_primary := p\<rparr>"
      using b' by (auto simp: bond_mode_fields_def split: if_splits sum.splits)
    with True m n mi len d v show ?thesis
      using bond_primary_ok [of "bo_primary b" ss p] by (auto simp: bond_canonical_def)
  next
    case False
    with b' m n mi len d v show ?thesis
      by (auto simp: bond_mode_fields_def Let_def bond_canonical_def split: if_splits)
  qed
qed

lemma bond_canonical_fixed:
  assumes "bond_canonical b"
  shows "validate_bond b = Inr b"
proof -
  have ss: "bond_slaves 0 [] (bo_slaves b) = Inr (bo_slaves b)"
    using assms bond_slaves_fixed [of "bo_slaves b" "[]" 0] by (auto simp: bond_canonical_def)
  have m: "lower_trim (bo_mode b) = bo_mode b"
    using assms words_fixed by (simp add: bond_canonical_def)
  have "bond_primary (bo_primary b) (bo_slaves b) = Inr (bo_primary b)" if "bo_mode b = ''active-backup''"
    using assms that by (auto simp: bond_primary_def bond_canonical_def Let_def)
  then have "bond_mode_fields b = Inr b"
    using assms words_fixed words_not_empty
    by (auto simp: bond_mode_fields_def bond_canonical_def Let_def split: if_splits)
  then show ?thesis
    using assms ss m by (simp add: validate_bond_def bond_canonical_def Let_def)
qed

lemma net_dns_canonical: "net_dns i ds = Inr es \<Longrightarrow> net_dns j es = Inr es"
  by (induction i ds arbitrary: es j rule: net_dns.induct) (auto split: option.splits sum.splits)

lemma net_dns_Nil: "net_dns i ds = Inr [] \<longleftrightarrow> ds = []"
  by (cases ds) (auto split: option.splits sum.splits)

lemma net_method_method: "net_method h nc = Inr nc' \<Longrightarrow> nc_method nc' = nc_method nc \<and> nc_method nc \<in> {''static'', ''dhcp''}"
  by (auto simp: net_method_def Let_def split: if_splits sum.splits)

lemma net_method_fixed:
  assumes "net_method h nc = Inr nc'"
  shows "net_method h nc' = Inr nc'"
proof (cases "\<exists>ds. net_dns 0 (nc_dns nc) = Inr ds \<and> nc' = nc\<lparr>nc_dns := ds\<rparr> \<and> ds \<noteq> []")
  case True
  then obtain ds where ds: "net_dns 0 (nc_dns nc) = Inr ds" "nc' = nc\<lparr>nc_dns := ds\<rparr>" "ds \<noteq> []"
    by blast
  have "net_dns 0 ds = Inr ds" using ds(1) by (rule net_dns_canonical)
  with assms ds show ?thesis
    by (cases nc) (auto simp: net_method_def Let_def split: if_splits sum.splits)
next
  case False
  with assms show ?thesis
    by (cases nc) (auto simp: net_method_def Let_def net_dns_Nil split: if_splits sum.splits)
qed

text \<open>The link fields are not looked at by the method switch, nor the other way round.\<close>

lemma net_method_links:
  "net_method h nc = Inr nc \<Longrightarrow>
   net_method h (nc\<lparr>nc_nic_selector := x, nc_vlan := v, nc_bond := b\<rparr>)
     = Inr (nc\<lparr>nc_nic_selector := x, nc_vlan := v, nc_bond := b\<rparr>)"
  by (cases nc) (auto simp: net_method_def Let_def split: if_splits sum.splits)

lemma net_links_result:
  assumes "net_links h nc = Inr nc'"
  obtains sel v b where "nc' = nc\<lparr>nc_nic_selector := sel, nc_vlan := v, nc_bond := b\<rparr>"
    "trim_space sel = sel" "sel \<noteq> []" "validate_nic_selector sel = None"
    "h \<Longrightarrow> v = 0" "v = 0 \<or> 1 \<le> v \<and> v \<le> 4094"
    "b = None \<or> (\<exists>c. b = Some c \<and> bond_canonical c \<and> sel = ''auto'')"
proof -
  define sel where "sel = (if trim_space (nc_nic_selector nc) = [] then ''auto'' else trim_space (nc_nic_selector nc))"
  define v where "v = (if h then 0 else nc_vlan nc)"
  have sel: "trim_space sel = sel" "sel \<noteq> []"
    using fixed_profile_words(7) by (auto simp: sel_def trim_space_idem)
  from assms have ok: "validate_nic_selector sel = None"
    by (auto simp: net_links_def Let_def sel_def split: option.splits if_splits)
  from assms have v: "v = 0 \<or> 1 \<le> v \<and> v \<le> 4094"
    by (auto simp: net_links_def Let_def v_def not_less split: option.splits if_splits)
  have auto: "trim_space ''auto'' = ''auto''" "validate_nic_selector ''auto'' = None"
    using fixed_profile_words(7) by (simp_all add: validate_nic_selector_def)
  show thesis
  proof (cases "nc_bond nc")
    case None
    with assms ok v have "nc' = nc\<lparr>nc_nic_selector := sel, nc_vlan := v, nc_bond := None\<rparr>"
      by (cases nc) (auto simp: net_links_def Let_def sel_def v_def split: option.splits if_splits)
    then show thesis by (rule that) (use sel ok v in \<open>auto simp: v_def\<close>)
  next
    case (Some c)
    then obtain d where d: "validate_bond c = Inr d"
      and nc': "nc' = nc\<lparr>nc_nic_selector := ''auto'', nc_vlan := v, nc_bond := Some d\<rparr>"
      using assms by (cases nc) (auto simp: net_links_def Let_def sel_def v_def split: option.splits if_splits sum.splits)
    from nc' show thesis
      by (rule that) (use auto v d in \<open>auto simp: v_def intro: validate_bond_canonical\<close>)
  qed
qed

lemma net_links_fixed:
  assumes "net_links h nc = Inr nc'"
  shows "net_links h nc' = Inr nc'"
  using assms
proof (rule net_links_result)
  fix sel v b
  assume nc': "nc' = nc\<lparr>nc_nic_selector := sel, nc_vlan := v, nc_bond := b\<rparr>"
    and sel: "trim_space sel = sel" "sel \<noteq> []" "validate_nic_selector sel = None"
    and v: "h \<Longrightarrow> v = 0" "v = 0 \<or> 1 \<le> v \<and> v \<le> 4094"
    and b: "b = None \<or> (\<exists>c. b = Some c \<and> bond_canonical c \<and> sel = ''auto'')"
  have vlan: "(if h then 0 else v) = v" using v by auto
  show ?thesis
    using b
  proof
    assume "b = None"
    then show ?thesis using sel v vlan by (auto simp: net_links_def Let_def nc')
  next
    assume "\<exists>c. b = Some c \<and> bond_canonical c \<and> sel = ''auto''"
    then obtain c where "b = Some c" "bond_canonical c" "sel = ''auto''" by blast
    then show ?thesis using sel v vlan by (auto simp: net_links_def Let_def nc' bond_canonical_fixed)
  qed
qed

lemma validate_network_fixed:
  assumes "validate_network h raw = Inr nc"
  shows "validate_network h (RawOk nc) = Inr nc"
proof -
  obtain nc0 m nc1 where m: "net_method h (nc0\<lparr>nc_method := m\<rparr>) = Inr nc1" and l: "net_links h nc1 = Inr nc"
    using assms by (auto simp: validate_network_def Let_def split: raw_json.splits sum.splits)
  from l show ?thesis
  proof (rule net_links_result)
    fix sel v b
    assume nc: "nc = nc1\<lparr>nc_nic_selector := sel, nc_vlan := v, nc_bond := b\<rparr>"
    have "nc_method nc \<in> {''static'', ''dhcp''}"
      using net_method_method [OF m] by (simp add: nc)
    then have meth: "lower_trim (nc_method nc) = nc_method nc" "nc_method nc \<noteq> []"
      using fixed_profile_words by auto
    have "net_method h nc = Inr nc"
      unfolding nc by (rule net_method_links [OF net_method_fixed [OF m]])
    then show ?thesis
      using net_links_fixed [OF l] meth by (simp add: validate_network_def Let_def)
  qed
qed

lemma validate_target_disk_fixed: "validate_target_disk raw = Inr td \<Longrightarrow> validate_target_disk (RawOk td) = Inr td"
  using words_fixed(4)
  by (auto simp: validate_target_disk_def Let_def trim_space_idem split: raw_json.splits if_splits)

subsection \<open>Reading and writing the resolver list\<close>

text \<open>A text with no space sequence at either end, which is what trimming returns.\<close>

definition trimmed :: "string \<Rightarrow> bool" where
  "trimmed s \<longleftrightarrow> (s = [] \<or> lead_seq space_seqs s = 0) \<and> (s = [] \<or> lead_seq (map rev space_seqs) (rev s) = 0)"

lemma space_seqs_no_comma: "list_all (\<lambda>w. w \<noteq> [] \<and> CHR '','' \<notin> set w) space_seqs"
  by code_simp

lemma space_seqs_rev_no_comma: "list_all (\<lambda>w. w \<noteq> [] \<and> CHR '','' \<notin> set w) (map rev space_seqs)"
  by code_simp

lemma strip_with_shorter: "s \<noteq> [] \<Longrightarrow> lead_seq ws s \<noteq> 0 \<Longrightarrow> strip_with ws s \<noteq> s"
proof
  assume a: "s \<noteq> []" "lead_seq ws s \<noteq> 0" and e: "strip_with ws s = s"
  then have "strip_with ws (drop (lead_seq ws s) s) = s"
    by (metis strip_with_step)
  then have "length s \<le> length (drop (lead_seq ws s) s)"
    by (metis length_strip_with)
  moreover have "length (drop (lead_seq ws s) s) < length s"
    using a by (cases s) simp_all
  ultimately show False by simp
qed

lemma drop_full: "length (drop n s) = length s \<Longrightarrow> drop n s = s"
  by (cases n; cases s) auto

lemma trimmed_iff: "trimmed s \<longleftrightarrow> trim_space s = s"
proof
  assume t: "trimmed s"
  then have "trim_left s = s" by (simp add: trimmed_def trim_left_def strip_with_stop)
  moreover have "strip_with (map rev space_seqs) (rev s) = rev s"
    using t by (auto simp: trimmed_def intro: strip_with_stop)
  ultimately show "trim_space s = s" by (simp add: trim_space_def trim_right_def)
next
  assume e: "trim_space s = s"
  have l: "length (trim_right t) \<le> length t" for t
    using length_strip_with [of "map rev space_seqs" "rev t"] by (simp only: trim_right_def length_rev)
  have "length (trim_left s) \<le> length s"
    unfolding trim_left_def by (rule length_strip_with)
  then have "length (trim_left s) = length s"
    using e l [of "trim_left s"] by (simp add: trim_space_def)
  then have left: "trim_left s = s"
    using strip_with_suffix [of space_seqs s] unfolding trim_left_def by (metis drop_full)
  then have "strip_with (map rev space_seqs) (rev s) = rev s"
    using e by (simp add: trim_space_def trim_right_def rev_swap)
  with left show "trimmed s"
    using strip_with_shorter [of s space_seqs] strip_with_shorter [of "rev s" "map rev space_seqs"]
    by (auto simp: trimmed_def trim_left_def)
qed

lemma starts_with_past:
  "starts_with w (d @ c # r) \<Longrightarrow> c \<notin> set w \<Longrightarrow> starts_with w d"
  by (induction w arbitrary: d) (auto simp: starts_with_Cons append_eq_Cons_conv)

lemma lead_seq_past:
  assumes "lead_seq ws d = 0" "list_all (\<lambda>w. w \<noteq> [] \<and> c \<notin> set w) ws"
  shows "lead_seq ws (d @ c # r) = 0"
proof (rule lead_seq_zero)
  fix w assume w: "w \<in> set ws"
  with assms have "\<not> starts_with w d"
    using lead_seq_0 [of ws d w] by (auto simp: list_all_iff)
  then show "\<not> starts_with w (d @ c # r)"
    using w assms(2) starts_with_past by (auto simp: list_all_iff)
qed

lemma join_first: "ds \<noteq> [] \<Longrightarrow> \<exists>r. join_with d (x # ds) = x @ d @ r"
  by (cases ds) auto

lemma join_last: "ds \<noteq> [] \<Longrightarrow> \<exists>r. join_with d (ds @ [x]) = r @ d @ x"
proof (induction ds)
  case (Cons a ds)
  then show ?case by (cases ds) auto
qed simp

lemma trimmed_join:
  assumes "\<And>d. d \<in> set ds \<Longrightarrow> trimmed d \<and> d \<noteq> []"
  shows "trimmed (join_with '','' ds)"
proof (cases "length ds \<le> 1")
  case True
  then show ?thesis
    using assms by (cases ds) (auto simp: trimmed_def)
next
  case False
  then obtain x xs where x: "ds = x # xs" "xs \<noteq> []" by (cases ds) auto
  from False obtain ys y where y: "ds = ys @ [y]" "ys \<noteq> []" by (cases ds rule: rev_cases) auto
  obtain r r' where f: "join_with '','' ds = x @ '','' @ r" and l: "join_with '','' ds = r' @ '','' @ y"
    using join_first [OF x(2)] join_last [OF y(2)] x(1) y(1) by metis
  have "x \<in> set ds" "y \<in> set ds"
    by (simp add: x(1)) (subst y(1), simp)
  then have ends: "lead_seq space_seqs x = 0" "lead_seq (map rev space_seqs) (rev y) = 0"
    using assms by (auto simp: trimmed_def)
  have "lead_seq space_seqs (join_with '','' ds) = 0"
    unfolding f using lead_seq_past [OF ends(1) space_seqs_no_comma] by simp
  moreover have "lead_seq (map rev space_seqs) (rev (join_with '','' ds)) = 0"
    unfolding l using lead_seq_past [OF ends(2) space_seqs_rev_no_comma] by simp
  ultimately show ?thesis by (simp add: trimmed_def)
qed

lemma set_trimmed_part: "p \<in> set (split_on c s) \<Longrightarrow> c \<notin> set p"
proof (induction s arbitrary: p)
  case (Cons a s)
  then show ?case by (cases "split_on c s") (auto split: if_splits)
qed simp

lemma chroot_dns_part:
  assumes "d \<in> set (parse_chroot_dns s)"
  shows "trimmed d \<and> d \<noteq> [] \<and> CHR '','' \<notin> set d"
proof -
  obtain p where "p \<in> set (split_on CHR '','' (trim_space s))" "d = trim_space p" "d \<noteq> []"
    using assms by (auto simp: parse_chroot_dns_def Let_def split: if_splits)
  then show ?thesis
    using set_trimmed_part set_trim_space [of p] by (auto simp: trimmed_iff trim_space_idem)
qed

subsection \<open>Properties\<close>

definition network_wellformed :: "bool \<Rightarrow> network_config \<Rightarrow> bool" where
  "network_wellformed has_subnet nc \<longleftrightarrow>
    nc_method nc \<in> {''static'', ''dhcp''}
    \<and> (nc_method nc = ''dhcp'' \<or> has_subnet \<longrightarrow> nc_prefix_len nc = 0 \<and> nc_gateway nc = [] \<and> nc_dns nc = [])
    \<and> (nc_prefix_len nc = 0 \<and> nc_gateway nc = [] \<and> nc_dns nc = []
       \<or> 1 \<le> nc_prefix_len nc \<and> nc_prefix_len nc \<le> 32 \<and> parse_to4 (nc_gateway nc) \<noteq> None
         \<and> (\<forall>d \<in> set (nc_dns nc). \<exists>w. d = show_ip4 w))
    \<and> validate_nic_selector (nc_nic_selector nc) = None
    \<and> 0 \<le> nc_vlan nc \<and> nc_vlan nc \<le> 4094 \<and> (has_subnet \<longrightarrow> nc_vlan nc = 0)
    \<and> (case nc_bond nc of None \<Rightarrow> True | Some b \<Rightarrow> bond_canonical b \<and> nc_nic_selector nc = ''auto'')"

lemma net_dns_literals: "net_dns i ds = Inr es \<Longrightarrow> \<forall>e \<in> set es. \<exists>w. e = show_ip4 w"
  by (induction i ds arbitrary: es rule: net_dns.induct) (auto split: option.splits sum.splits)

lemma net_method_wellformed:
  assumes "net_method h nc = Inr nc'"
  shows "(nc_method nc' = ''dhcp'' \<or> h \<longrightarrow> nc_prefix_len nc' = 0 \<and> nc_gateway nc' = [] \<and> nc_dns nc' = [])
    \<and> (nc_prefix_len nc' = 0 \<and> nc_gateway nc' = [] \<and> nc_dns nc' = []
       \<or> 1 \<le> nc_prefix_len nc' \<and> nc_prefix_len nc' \<le> 32 \<and> parse_to4 (nc_gateway nc') \<noteq> None
         \<and> (\<forall>d \<in> set (nc_dns nc'). \<exists>w. d = show_ip4 w))"
  using assms net_dns_literals
  by (auto simp: net_method_def Let_def split: if_splits sum.splits)

lemma validate_network_wellformed:
  assumes "validate_network h raw = Inr nc"
  shows "network_wellformed h nc"
proof -
  obtain nc0 m nc1 where m: "net_method h (nc0\<lparr>nc_method := m\<rparr>) = Inr nc1" and l: "net_links h nc1 = Inr nc"
    using assms by (auto simp: validate_network_def Let_def split: raw_json.splits sum.splits)
  note meth = net_method_method [OF m] net_method_wellformed [OF m]
  from l show ?thesis
  proof (rule net_links_result)
    fix sel v b
    assume nc: "nc = nc1\<lparr>nc_nic_selector := sel, nc_vlan := v, nc_bond := b\<rparr>"
      and link: "validate_nic_selector sel = None" "h \<Longrightarrow> v = 0" "v = 0 \<or> 1 \<le> v \<and> v \<le> 4094"
        "b = None \<or> (\<exists>c. b = Some c \<and> bond_canonical c \<and> sel = ''auto'')"
    show ?thesis
      using meth link by (auto simp: network_wellformed_def nc)
  qed
qed

text \<open>
  C18: What the profile validator accepts has one canonical form: the stored template is well-formed
  (static fields only where they apply and as IPv4 literals, tag and selector in range, a bond of
  two to eight distinct interfaces with the primary among them and no selector), and validating the
  stored template again returns it unchanged.
\<close>

theorem network_template_canonical:
  assumes "validate_network has_subnet raw = Inr nc"
  shows "network_wellformed has_subnet nc \<and> validate_network has_subnet (RawOk nc) = Inr nc"
  using assms by (simp add: validate_network_wellformed validate_network_fixed)

definition sample_bond :: bond_config where
  "sample_bond = \<lparr>bo_mode = '' Active-Backup'', bo_slaves = [''eno1 '', ''24:6E:96:4F:F8:F0''], bo_miimon = 0,
     bo_lacp_rate = [], bo_xmit_policy = [], bo_primary = ''eno1''\<rparr>"

definition sample_network :: network_config where
  "sample_network = \<lparr>nc_method = ''STATIC'', nc_prefix_len = 24, nc_gateway = ''10.0.0.1'', nc_dns = ['' 8.8.8.8''],
     nc_nic_selector = ''by-name:eno1'', nc_vlan = 7, nc_bond = Some sample_bond\<rparr>"

definition sample_network_stored :: network_config where
  "sample_network_stored = \<lparr>nc_method = ''static'', nc_prefix_len = 24, nc_gateway = ''10.0.0.1'', nc_dns = [''8.8.8.8''],
     nc_nic_selector = ''auto'', nc_vlan = 7,
     nc_bond = Some (sample_bond\<lparr>bo_mode := ''active-backup'', bo_slaves := [''eno1'', ''24:6E:96:4F:F8:F0''], bo_miimon := 100\<rparr>)\<rparr>"

lemma sample_network_accepted: "validate_network False (RawOk sample_network) = Inr sample_network_stored"
  by code_simp

lemma network_template_canonical_witness:
  "network_wellformed False sample_network_stored
    \<and> validate_network False (RawOk sample_network_stored) = Inr sample_network_stored"
  by (rule network_template_canonical [OF sample_network_accepted])

text \<open>
  The resolver list survives the database column: a list read from a column, whatever text is in
  it, is read back unchanged after it was written.
\<close>

theorem chroot_dns_roundtrip:
  "parse_chroot_dns (join_chroot_dns (parse_chroot_dns s)) = parse_chroot_dns s"
proof (cases "parse_chroot_dns s")
  case Nil
  then show ?thesis by (simp add: join_chroot_dns_def) (simp add: parse_chroot_dns_def)
next
  case (Cons d ds)
  let ?ds = "parse_chroot_dns s"
  have part: "p \<in> set ?ds \<Longrightarrow> trimmed p \<and> p \<noteq> [] \<and> CHR '','' \<notin> set p" for p
    by (rule chroot_dns_part)
  then have t: "trim_space (join_with '','' ?ds) = join_with '','' ?ds"
    using trimmed_join [of ?ds] by (simp add: trimmed_iff)
  have "split_on CHR '','' (join_with '','' ?ds) = ?ds"
    using part Cons by (intro split_join) auto
  moreover have "map trim_space ?ds = ?ds" "filter (\<lambda>p. p \<noteq> []) ?ds = ?ds"
    using part by (auto simp: trimmed_iff intro: map_idI filter_True)
  moreover have "join_with '','' ?ds \<noteq> []"
    using part [of d] Cons by (cases ds) auto
  ultimately show ?thesis
    using t by (simp add: join_chroot_dns_def parse_chroot_dns_def [of "join_with '','' ?ds"])
qed

text \<open>
  The comments promise lower-cased MAC addresses in a bond, but only the primary is lowered: a bond
  whose primary is one of its slaves is refused when the slave is written in upper case, and one
  interface passes as two slaves in two spellings.
\<close>

definition upper_mac :: string where
  "upper_mac = ''24:6E:96:4F:F8:F0''"

definition upper_bond :: bond_config where
  "upper_bond = \<lparr>bo_mode = ''active-backup'', bo_slaves = [upper_mac, ''eno1''], bo_miimon = 100,
     bo_lacp_rate = [], bo_xmit_policy = [], bo_primary = upper_mac\<rparr>"

theorem upper_case_primary_refused:
  "validate_bond upper_bond = Inl (BondPrimaryNotSlave ''24:6e:96:4f:f8:f0'')
   \<and> (\<exists>b. validate_bond (upper_bond\<lparr>bo_slaves := [upper_mac, ''24:6e:96:4f:f8:f0''], bo_primary := []\<rparr>) = Inr b)"
proof
  show "validate_bond upper_bond = Inl (BondPrimaryNotSlave ''24:6e:96:4f:f8:f0'')"
    by code_simp
  have "validate_bond (upper_bond\<lparr>bo_slaves := [upper_mac, ''24:6e:96:4f:f8:f0''], bo_primary := []\<rparr>)
    = Inr (upper_bond\<lparr>bo_slaves := [upper_mac, ''24:6e:96:4f:f8:f0''], bo_primary := []\<rparr>)"
    by code_simp
  then show "\<exists>b. validate_bond (upper_bond\<lparr>bo_slaves := [upper_mac, ''24:6e:96:4f:f8:f0''], bo_primary := []\<rparr>) = Inr b"
    by blast
qed

end
