(* ===== verification/Static_Ip.thy ===== *)
theory Static_Ip
  imports Lease_Store
begin

text \<open>
  The automatic choice of a static address in \<open>internal/bindings/store.go\<close>
  (\<open>allocateIPFromSubnet\<close>, \<open>reservedIPs\<close>). The tables it reads are the argument \<open>site\<close>: the
  pairs of machine and static address of the bindings, the leases and the settings; the interface
  addresses of the controller are part of it. The liveness prober is a parameter: the answer to the
  \<open>k\<close>-th batch of a run, the addresses that replied or the error.

  The subnet catalog holds IPv4 networks only (\<open>validate_cidr\<close>), so \<open>parse_cidr4\<close> refuses an IPv6
  network. A missing table is the driver's failure with the text \<open>no such table\<close>.
\<close>

subsection \<open>Networks\<close>

text \<open>\<open>net.ParseCIDR\<close>: the network of an IPv4 prefix. Leading zeros in the length are accepted.\<close>

definition parse_cidr4 :: "string \<Rightarrow> prefix4 option" where
  "parse_cidr4 s =
    (let a = takeWhile (\<lambda>c. c \<noteq> CHR ''/'') s; b = drop (Suc (length a)) s in
     if CHR ''/'' \<notin> set s then None
     else case parse_addr a of
       Some (Addr4 w) \<Rightarrow>
         (if b \<noteq> [] \<and> list_all is_digit b \<and> val_digits b \<le> 32 then Some (prefix_masked (w, val_digits b))
          else None)
     | _ \<Rightarrow> None)"

definition host_bits :: "nat \<Rightarrow> ip4" where
  "host_bits n = mask (32 - n)"

text \<open>\<open>isBroadcast\<close>: every host bit of the address is set.\<close>

definition is_bcast :: "prefix4 \<Rightarrow> ip4 \<Rightarrow> bool" where
  "is_bcast p w \<longleftrightarrow> w OR host_bits (snd p) = w"

definition next_ip :: "ip4 \<Rightarrow> ip4" where
  "next_ip w = w + 1"

lemma is_bcast_last [simp]: "is_bcast p (- 1)"
  by (simp add: is_bcast_def)

subsection \<open>What is taken\<close>

record alloc_site =
  as_addresses :: "(string \<times> string) list"
  as_own_ips :: "string list"
  as_leases :: "lease list"
  as_settings :: "(string \<times> string) list"

datatype alloc_error =
    AllocCidr string
  | AllocDb string string
  | AllocRow string
  | NoFreeAddress string
  | AllProbedLive string
  | TooManyLive string nat

text \<open>
  The loop over the dynamic pool from \<open>w\<close> on. \<open>None\<close> is the loop that never ends: past the last
  address it starts over at 0.0.0.0, which only the network of all addresses contains.
\<close>

function pool_span :: "prefix4 \<Rightarrow> ip4 \<Rightarrow> ip4 \<Rightarrow> string list option" where
  "pool_span p e w =
    (if \<not> prefix_contains p w \<or> e < w then Some []
     else if w = - 1 then (if prefix_contains p 0 then None else Some [show_ip4 w])
     else map_option ((#) (show_ip4 w)) (pool_span p e (next_ip w)))"
  by pat_completeness auto
termination
  by (relation "measure (\<lambda>(p, e, w). 4294967296 - unat w)") (auto simp: next_ip_def ip4_next_closer)

declare pool_span.simps [simp del]

definition setting_of :: "string \<Rightarrow> (string \<times> string) list \<Rightarrow> string" where
  "setting_of k kv = (case map_of kv k of None \<Rightarrow> [] | Some v \<Rightarrow> v)"

definition pool_reserved :: "prefix4 \<Rightarrow> (string \<times> string) list \<Rightarrow> string list option" where
  "pool_reserved p kv =
    (if setting_of ''dhcp.mode'' kv \<noteq> ''full'' then Some []
     else case (parse_to4 (setting_of ''dhcp.pool.start'' kv), parse_to4 (setting_of ''dhcp.pool.end'' kv)) of
       (Some s, Some e) \<Rightarrow> if prefix_contains p s then pool_span p e s else Some []
     | _ \<Rightarrow> Some [])"

definition missing_table :: "string \<Rightarrow> bool" where
  "missing_table msg \<longleftrightarrow> contains_sub ''no such table'' msg"

definition other_addresses :: "string \<Rightarrow> (string \<times> string) list \<Rightarrow> string list" where
  "other_addresses muuid bs = map snd (filter (\<lambda>(m, a). a \<noteq> [] \<and> m \<noteq> muuid) bs)"

definition live_leases :: "time \<Rightarrow> lease list \<Rightarrow> string list" where
  "live_leases now ls = map l_ip (filter (\<lambda>l. unix now < unix (l_expires l)) ls)"

text \<open>The settings query, the last one of \<open>reservedIPs\<close>.\<close>

definition reserve_pool ::
  "faults \<Rightarrow> alloc_site \<Rightarrow> prefix4 \<Rightarrow> string list \<Rightarrow> (alloc_error, string list) result option" where
  "reserve_pool fl site p used =
    (case fl 3 of
       Some msg \<Rightarrow> if \<not> missing_table msg then Some (Inl (AllocDb ''query settings'' msg)) else Some (Inr used)
     | None \<Rightarrow> map_option (\<lambda>span. Inr (used @ span)) (pool_reserved p (as_settings site)))"

text \<open>\<open>reservedIPs\<close>, statements 1 to 3; \<open>None\<close> is the pool loop that never ends.\<close>

definition reserved_ips ::
  "faults \<Rightarrow> time \<Rightarrow> alloc_site \<Rightarrow> string \<Rightarrow> prefix4 \<Rightarrow> string \<Rightarrow> (alloc_error, string list) result option"
where
  "reserved_ips fl now site muuid p gateway =
    (case fl 1 of
       Some msg \<Rightarrow> Some (Inl (AllocDb ''query existing IPs'' msg))
     | None \<Rightarrow>
       (let used = (if gateway \<noteq> [] then [gateway] else []) @ other_addresses muuid (as_addresses site)
              @ as_own_ips site in
        case fl 2 of
          Some msg \<Rightarrow>
            (if \<not> missing_table msg then Some (Inl (AllocDb ''query leases'' msg))
             else reserve_pool fl site p used)
        | None \<Rightarrow> reserve_pool fl site p (used @ live_leases now (as_leases site))))"

subsection \<open>The scan and the probe\<close>

definition max_alloc_candidates :: nat where
  "max_alloc_candidates = 512"

definition probe_batch_size :: nat where
  "probe_batch_size = 16"

definition max_probe_candidates :: nat where
  "max_probe_candidates = 128"

text \<open>The first \<open>k\<close> free addresses from \<open>w\<close> on, below the broadcast address.\<close>

function candidates :: "prefix4 \<Rightarrow> string list \<Rightarrow> nat \<Rightarrow> ip4 \<Rightarrow> ip4 list" where
  "candidates p used k w =
    (if k = 0 \<or> \<not> prefix_contains p w \<or> is_bcast p w then []
     else if show_ip4 w \<in> set used then candidates p used k (next_ip w)
     else w # candidates p used (k - 1) (next_ip w))"
  by pat_completeness auto
termination
proof (relation "measure (\<lambda>(p, used, k, w). 4294967296 - unat w)", goal_cases)
  case (2 p used k w)
  then have "w \<noteq> - 1" by auto
  then show ?case by (simp add: next_ip_def ip4_next_closer)
next
  case (3 p used k w)
  then have "w \<noteq> - 1" by auto
  then show ?case by (simp add: next_ip_def ip4_next_closer)
qed simp

declare candidates.simps [simp del]

type_synonym prober = "nat \<Rightarrow> ip4 list \<Rightarrow> (string, string list) result"

function probe_loop :: "prober \<Rightarrow> string \<Rightarrow> nat \<Rightarrow> nat \<Rightarrow> ip4 list \<Rightarrow> (alloc_error, ip4) result" where
  "probe_loop pr cidr j probed cs =
    (if cs = [] \<or> max_probe_candidates \<le> probed then
       (if max_probe_candidates \<le> probed then Inl (TooManyLive cidr probed) else Inl (AllProbedLive cidr))
     else
       (let batch = take (min probe_batch_size (max_probe_candidates - probed)) cs in
        case pr j batch of
          Inl e \<Rightarrow> Inr (hd batch)
        | Inr alive \<Rightarrow>
          (case find (\<lambda>c. show_ip4 c \<notin> set alive) batch of
             Some c \<Rightarrow> Inr c
           | None \<Rightarrow> probe_loop pr cidr (Suc j) (probed + length batch) (drop probe_batch_size cs))))"
  by pat_completeness auto
termination
  by (relation "measure (\<lambda>(pr, cidr, j, probed, cs). length cs)") (auto simp: probe_batch_size_def)

declare probe_loop.simps [simp del]

definition sticky_address :: "prefix4 \<Rightarrow> string \<Rightarrow> bool" where
  "sticky_address p own \<longleftrightarrow>
    (case parse_to4 own of
       None \<Rightarrow> False
     | Some w \<Rightarrow> prefix_contains p w \<and> w \<noteq> fst p \<and> \<not> is_bcast p w)"

definition pick_address :: "prober option \<Rightarrow> string \<Rightarrow> prefix4 \<Rightarrow> string list \<Rightarrow> (alloc_error, string) result" where
  "pick_address pr cidr p used =
    (let cs = candidates p used max_alloc_candidates (next_ip (fst p)) in
     if cs = [] then Inl (NoFreeAddress cidr)
     else case pr of
       None \<Rightarrow> Inr (show_ip4 (hd cs))
     | Some f \<Rightarrow> (case probe_loop f cidr 0 0 cs of Inl e \<Rightarrow> Inl e | Inr c \<Rightarrow> Inr (show_ip4 c)))"

text \<open>Statement 0 reads the machine's own address; \<open>None\<close> is the call that never returns.\<close>

definition allocate_ip ::
  "faults \<Rightarrow> time \<Rightarrow> prober option \<Rightarrow> alloc_site \<Rightarrow> string \<Rightarrow> string \<Rightarrow> string \<Rightarrow>
   (alloc_error, string) result option"
where
  "allocate_ip fl now pr site muuid cidr gateway =
    (case parse_cidr4 cidr of
       None \<Rightarrow> Some (Inl (AllocCidr cidr))
     | Some p \<Rightarrow>
       (case fl 0 of
          Some msg \<Rightarrow> Some (Inl (AllocDb ''load existing static_address for sticky allocation'' msg))
        | None \<Rightarrow>
          (let own = (case map_of (as_addresses site) muuid of None \<Rightarrow> [] | Some a \<Rightarrow> a) in
           if own \<noteq> [] \<and> sticky_address p own then Some (Inr own)
           else
             (case reserved_ips fl now site muuid p gateway of
                None \<Rightarrow> None
              | Some (Inl e) \<Rightarrow> Some (Inl e)
              | Some (Inr used) \<Rightarrow> Some (pick_address pr cidr p used)))))"

subsection \<open>What the scan returns\<close>

lemma candidates_free:
  "c \<in> set (candidates p used k w) \<Longrightarrow>
   prefix_contains p c \<and> \<not> is_bcast p c \<and> show_ip4 c \<notin> set used \<and> w \<le> c"
proof (induction p used k w rule: candidates.induct)
  case (1 p used k w)
  let ?stop = "k = 0 \<or> \<not> prefix_contains p w \<or> is_bcast p w"
  have go: "\<not> ?stop" using "1.prems" by (subst (asm) candidates.simps) (auto split: if_splits)
  then have w: "w \<noteq> - 1" by auto
  have up: "next_ip w \<le> c \<Longrightarrow> w \<le> c"
    using ip4_le_next [OF w] by (simp add: next_ip_def)
  from go "1.prems" consider
      "show_ip4 w \<in> set used" "c \<in> set (candidates p used k (next_ip w))"
    | "show_ip4 w \<notin> set used" "c = w"
    | "show_ip4 w \<notin> set used" "c \<in> set (candidates p used (k - 1) (next_ip w))"
    by (subst (asm) candidates.simps) (auto split: if_splits)
  then show ?case
  proof cases
    case 1
    then show ?thesis using "1.IH"(1) go up by blast
  next
    case 2
    then show ?thesis using go by simp
  next
    case 3
    then show ?thesis using "1.IH"(2) go up by blast
  qed
qed

lemma find_in: "find q xs = Some c \<Longrightarrow> c \<in> set xs \<and> q c"
  by (metis find_Some_iff nth_mem)

lemma probe_loop_member: "probe_loop pr cidr j probed cs = Inr c \<Longrightarrow> c \<in> set cs"
proof (induction pr cidr j probed cs rule: probe_loop.induct)
  case (1 pr cidr j probed cs)
  let ?batch = "take (min probe_batch_size (max_probe_candidates - probed)) cs"
  have go: "cs \<noteq> []" "\<not> max_probe_candidates \<le> probed"
    using "1.prems" by (auto simp: probe_loop.simps [of pr cidr j probed cs] split: if_splits)
  have ne: "?batch \<noteq> []"
    using go by (auto simp: probe_batch_size_def)
  have sub: "set ?batch \<subseteq> set cs" by (rule set_take_subset)
  from go "1.prems" consider e where "pr j ?batch = Inl e" "c = hd ?batch"
    | alive where "pr j ?batch = Inr alive" "find (\<lambda>c. show_ip4 c \<notin> set alive) ?batch = Some c"
    | alive where "pr j ?batch = Inr alive" "find (\<lambda>c. show_ip4 c \<notin> set alive) ?batch = None"
        "probe_loop pr cidr (Suc j) (probed + length ?batch) (drop probe_batch_size cs) = Inr c"
    by (auto simp: probe_loop.simps [of pr cidr j probed cs] Let_def split: sum.splits option.splits)
  then show ?case
  proof cases
    case 1
    then show ?thesis using ne sub by (metis hd_in_set subsetD)
  next
    case 2
    then show ?thesis using sub find_in by (metis subsetD)
  next
    case 3
    then have "c \<in> set (drop probe_batch_size cs)"
      using "1.IH" go by (metis (no_types, lifting))
    then show ?thesis by (rule in_set_dropD)
  qed
qed

subsection \<open>What the pool reserves\<close>

lemma pool_span_covers:
  "pool_span p e u = Some l \<Longrightarrow> prefix_contains p w \<Longrightarrow> u \<le> w \<Longrightarrow> w \<le> e \<Longrightarrow> prefix_contains p u \<Longrightarrow>
   show_ip4 w \<in> set l"
proof (induction p e u arbitrary: l rule: pool_span.induct)
  case (1 p e u)
  have ue: "\<not> e < u" using "1.prems" by auto
  show ?case
  proof (cases "u = w")
    case True
    then show ?thesis
      using "1.prems"(1,5) ue pool_span.simps [of p e w] by (auto split: if_splits)
  next
    case False
    then have u: "u \<noteq> - 1" using "1.prems"(3) by auto
    with False "1.prems"(3) have le: "next_ip u \<le> w"
      using ip4_le_next [OF u, of w] by (auto simp: next_ip_def)
    have "u \<le> next_ip u" using ip4_le_next [OF u, of "next_ip u"] by (simp add: next_ip_def)
    then have c: "prefix_contains p (next_ip u)"
      using prefix_convex "1.prems"(2,5) le by blast
    obtain l' where "pool_span p e (next_ip u) = Some l'" "l = show_ip4 u # l'"
      using "1.prems"(1,5) ue u by (auto simp: pool_span.simps [of p e u] split: if_splits)
    then show ?thesis
      using "1.IH" u ue le c "1.prems"(2,4,5) by auto
  qed
qed

lemma pool_span_returns:
  assumes "0 < snd p"
  shows "\<exists>l. pool_span p e u = Some l"
proof -
  have "\<not> (prefix_contains p (- 1) \<and> prefix_contains p 0)"
  proof
    assume "prefix_contains p (- 1) \<and> prefix_contains p 0"
    then have "prefix_bits (snd p) (- 1) = prefix_bits (snd p) 0"
      unfolding prefix_contains_def by (elim conjE) (erule trans [OF sym])
    then have "drop_bit (32 - snd p) (- 1 :: ip4) = 0"
      by (simp add: prefix_bits_def)
    then have "\<not> bit (drop_bit (32 - snd p) (- 1 :: ip4)) 0" by simp
    then show False using assms by (simp add: bit_drop_bit_eq bit_mask_iff)
  qed
  then show ?thesis
    by (induction p e u rule: pool_span.induct) (subst pool_span.simps, auto)
qed

lemma reserved_ips_cover:
  assumes "reserved_ips no_faults now site muuid p gateway = Some (Inr used)"
  shows "(gateway \<noteq> [] \<longrightarrow> gateway \<in> set used)
    \<and> set (other_addresses muuid (as_addresses site)) \<subseteq> set used \<and> set (as_own_ips site) \<subseteq> set used
    \<and> set (live_leases now (as_leases site)) \<subseteq> set used
    \<and> (\<exists>span. pool_reserved p (as_settings site) = Some span \<and> set span \<subseteq> set used)"
  using assms by (auto simp: reserved_ips_def reserve_pool_def Let_def)

lemma pool_reserved_covers:
  assumes "pool_reserved p kv = Some span" and "setting_of ''dhcp.mode'' kv = ''full''"
    and "parse_to4 (setting_of ''dhcp.pool.start'' kv) = Some s" "parse_to4 (setting_of ''dhcp.pool.end'' kv) = Some e"
    and "prefix_contains p s" "prefix_contains p w" "s \<le> w" "w \<le> e"
  shows "show_ip4 w \<in> set span"
  using assms pool_span_covers by (auto simp: pool_reserved_def)

subsection \<open>Properties\<close>

definition own_address :: "alloc_site \<Rightarrow> string \<Rightarrow> string" where
  "own_address site muuid = (case map_of (as_addresses site) muuid of None \<Rightarrow> [] | Some a \<Rightarrow> a)"

lemma pick_address_chosen:
  "pick_address pr cidr p used = Inr a \<Longrightarrow>
   \<exists>w \<in> set (candidates p used max_alloc_candidates (next_ip (fst p))). a = show_ip4 w"
  by (auto simp: pick_address_def Let_def split: if_splits option.splits sum.splits
      dest: probe_loop_member intro: hd_in_set)

lemma allocate_ip_fresh:
  assumes "parse_cidr4 cidr = Some p" and "\<not> sticky_address p (own_address site muuid)"
    and "allocate_ip no_faults now pr site muuid cidr gateway = Some (Inr a)"
  obtains used w where "reserved_ips no_faults now site muuid p gateway = Some (Inr used)" "a = show_ip4 w"
    "w \<in> set (candidates p used max_alloc_candidates (next_ip (fst p)))"
proof -
  obtain used where u: "reserved_ips no_faults now site muuid p gateway = Some (Inr used)"
    and a: "pick_address pr cidr p used = Inr a"
    using assms
    by (auto simp: allocate_ip_def Let_def own_address_def [symmetric] split: if_splits sum.splits option.splits)
  from pick_address_chosen [OF a] obtain w
    where "a = show_ip4 w" "w \<in> set (candidates p used max_alloc_candidates (next_ip (fst p)))" by blast
  with u show thesis by (rule that)
qed

text \<open>Any result is the address the machine has, or the text of a chosen one.\<close>

lemma allocate_ip_result:
  "allocate_ip fl now pr site muuid cidr gateway = Some (Inr a) \<Longrightarrow> a = own_address site muuid \<or> (\<exists>w. a = show_ip4 w)"
  by (auto simp: allocate_ip_def own_address_def pick_address_def Let_def
      split: option.splits sum.splits if_splits)

text \<open>Whatever the driver does, a chosen address is no other machine's.\<close>

lemma pick_address_free:
  assumes "pick_address pr cidr p used = Inr a"
  shows "a \<notin> set used \<and> a \<noteq> []"
proof -
  obtain w where "w \<in> set (candidates p used max_alloc_candidates (next_ip (fst p)))" "a = show_ip4 w"
    using pick_address_chosen [OF assms] by blast
  then show ?thesis using candidates_free by auto
qed

lemma allocated_unclaimed:
  assumes "allocate_ip fl now pr site muuid cidr gateway = Some (Inr a)"
  shows "a = own_address site muuid \<or> (\<forall>m. m \<noteq> muuid \<longrightarrow> (m, a) \<notin> set (as_addresses site))"
proof -
  from assms obtain p where step:
    "(if own_address site muuid \<noteq> [] \<and> sticky_address p (own_address site muuid) then Some (Inr (own_address site muuid))
      else (case reserved_ips fl now site muuid p gateway of
              None \<Rightarrow> None
            | Some (Inl e) \<Rightarrow> Some (Inl e)
            | Some (Inr used) \<Rightarrow> Some (pick_address pr cidr p used))) = Some (Inr a)"
    by (simp add: allocate_ip_def Let_def own_address_def [symmetric] split: option.splits)
  show ?thesis
  proof (cases "a = own_address site muuid")
    case False
    with step obtain used where used: "reserved_ips fl now site muuid p gateway = Some (Inr used)"
      and a: "pick_address pr cidr p used = Inr a"
      by (simp split: if_splits option.splits sum.splits)
    have "set (other_addresses muuid (as_addresses site)) \<subseteq> set used"
      using used by (auto simp: reserved_ips_def reserve_pool_def Let_def split: option.splits if_splits)
    then have "a \<notin> set (other_addresses muuid (as_addresses site))" "a \<noteq> []"
      using pick_address_free [OF a] by auto
    then show ?thesis by (force simp: other_addresses_def)
  qed simp
qed

lemma fresh_address_free:
  assumes "parse_cidr4 cidr = Some p" and "\<not> sticky_address p (own_address site muuid)"
    and "allocate_ip no_faults now pr site muuid cidr gateway = Some (Inr a)"
  shows "\<exists>w. a = show_ip4 w \<and> prefix_contains p w \<and> w \<noteq> fst p \<and> \<not> is_bcast p w \<and> a \<noteq> gateway
    \<and> (\<forall>m. m \<noteq> muuid \<longrightarrow> (m, a) \<notin> set (as_addresses site)) \<and> a \<notin> set (as_own_ips site)
    \<and> (\<forall>l \<in> set (as_leases site). l_ip l = a \<longrightarrow> unix (l_expires l) \<le> unix now)
    \<and> (setting_of ''dhcp.mode'' (as_settings site) = ''full'' \<longrightarrow>
        (\<forall>s e. parse_to4 (setting_of ''dhcp.pool.start'' (as_settings site)) = Some s
           \<and> parse_to4 (setting_of ''dhcp.pool.end'' (as_settings site)) = Some e
           \<and> prefix_contains p s \<longrightarrow> \<not> (s \<le> w \<and> w \<le> e)))"
  using assms
proof (rule allocate_ip_fresh)
  fix used w
  assume u: "reserved_ips no_faults now site muuid p gateway = Some (Inr used)" and a: "a = show_ip4 w"
    and c: "w \<in> set (candidates p used max_alloc_candidates (next_ip (fst p)))"
  note free = candidates_free [OF c] and cover = reserved_ips_cover [OF u]
  have taken: "a \<notin> set (other_addresses muuid (as_addresses site))" "a \<notin> set (live_leases now (as_leases site))"
    "a \<notin> set (as_own_ips site)" "a \<noteq> gateway" "a \<noteq> []"
    using free cover a by auto
  have "w \<noteq> fst p"
  proof
    assume w: "w = fst p"
    then have "w \<noteq> - 1" using free by auto
    then show False
      using free w ip4_le_next [of w w] unat_ip4_next [of w] by (simp add: next_ip_def word_le_nat_alt)
  qed
  moreover have "\<not> (s \<le> w \<and> w \<le> e)"
    if "setting_of ''dhcp.mode'' (as_settings site) = ''full''"
      "parse_to4 (setting_of ''dhcp.pool.start'' (as_settings site)) = Some s"
      "parse_to4 (setting_of ''dhcp.pool.end'' (as_settings site)) = Some e" "prefix_contains p s" for s e
    using that cover free pool_reserved_covers by blast
  moreover have "(m, a) \<notin> set (as_addresses site)" if "m \<noteq> muuid" for m
    using taken that by (force simp: other_addresses_def)
  moreover have "unix (l_expires l) \<le> unix now" if "l \<in> set (as_leases site)" "l_ip l = a" for l
    using taken that by (force simp: live_leases_def)
  ultimately show ?thesis
    using a free taken by blast
qed

text \<open>
  An automatically chosen static address is free and usable: a host address of the subnet that is
  not the gateway, not another machine's address, not the controller's own, not under a lease in
  force, and not in the dynamic pool when the pool starts inside the subnet; a machine that has no
  address of this subnet yet gets such an address or an error.
\<close>

theorem static_address_is_free:
  assumes "parse_cidr4 cidr = Some p" and "\<not> sticky_address p (own_address site muuid)"
    and "allocate_ip no_faults now pr site muuid cidr gateway = Some (Inr a)"
  shows "\<exists>w. a = show_ip4 w \<and> prefix_contains p w \<and> w \<noteq> fst p \<and> \<not> is_bcast p w \<and> a \<noteq> gateway
    \<and> (\<forall>m. m \<noteq> muuid \<longrightarrow> (m, a) \<notin> set (as_addresses site)) \<and> a \<notin> set (as_own_ips site)
    \<and> (\<forall>l \<in> set (as_leases site). l_ip l = a \<longrightarrow> unix (l_expires l) \<le> unix now)
    \<and> (setting_of ''dhcp.mode'' (as_settings site) = ''full'' \<longrightarrow>
        (\<forall>s e. parse_to4 (setting_of ''dhcp.pool.start'' (as_settings site)) = Some s
           \<and> parse_to4 (setting_of ''dhcp.pool.end'' (as_settings site)) = Some e
           \<and> prefix_contains p s \<longrightarrow> \<not> (s \<le> w \<and> w \<le> e)))"
  using assms by (rule fresh_address_free)

text \<open>
  Choosing an address always returns: for a subnet of the catalog, whose prefix has at least one
  bit, the loops over the pool and over the subnet end.
\<close>

theorem static_allocation_returns:
  assumes "parse_cidr4 cidr = Some p" and "0 < snd p"
  shows "\<exists>r. allocate_ip fl now pr site muuid cidr gateway = Some r"
proof -
  have "\<exists>span. pool_reserved p (as_settings site) = Some span"
    using pool_span_returns [OF assms(2)] by (auto simp: pool_reserved_def split: option.splits)
  then have "\<exists>r. reserve_pool fl site p used = Some r" for used
    by (auto simp: reserve_pool_def split: option.splits)
  then have "\<exists>r. reserved_ips fl now site muuid p gateway = Some r"
    by (simp add: reserved_ips_def Let_def split: option.splits)
  then show ?thesis
    using assms(1) by (auto simp: allocate_ip_def Let_def split: option.splits sum.splits)
qed

subsection \<open>Witnesses and counterexamples\<close>

definition sample_site :: "string \<Rightarrow> string \<Rightarrow> alloc_site" where
  "sample_site pool_start pool_end =
    \<lparr>as_addresses = [(''m1'', ''10.0.1.2''), (''m3'', ''10.0.1.1'')], as_own_ips = [''10.0.1.3''], as_leases = [],
     as_settings = [(''dhcp.mode'', ''full''), (''dhcp.pool.start'', pool_start), (''dhcp.pool.end'', pool_end)]\<rparr>"

lemma sample_allocation:
  "allocate_ip no_faults 0 None (sample_site ''10.0.1.4'' ''10.0.1.5'') ''m2'' ''10.0.1.0/29'' ''10.0.1.1''
    = Some (Inr ''10.0.1.6'')"
  by code_simp

lemma sample_cidr: "parse_cidr4 ''10.0.1.0/29'' = Some (ip4_of 10 0 1 0, 29)"
  by code_simp

lemma sample_not_sticky: "\<not> sticky_address (ip4_of 10 0 1 0, 29) (own_address (sample_site ''10.0.1.4'' ''10.0.1.5'') ''m2'')"
  by code_simp

lemma static_address_is_free_witness:
  "''10.0.1.6'' \<notin> set (as_own_ips (sample_site ''10.0.1.4'' ''10.0.1.5''))"
  using static_address_is_free [OF sample_cidr sample_not_sticky sample_allocation] by blast

lemma static_allocation_returns_witness:
  "\<exists>r. allocate_ip no_faults 0 None (sample_site ''1.1.1.1'' ''1.1.1.2'') ''m2'' ''10.0.1.0/29'' [] = Some r"
  by (rule static_allocation_returns [OF sample_cidr]) simp

text \<open>
  The two gaps of the reservation: an address the machine already has is kept without looking at
  the other bindings or at the gateway, and a pool that overlaps the subnet but starts below it is
  not reserved.
\<close>

theorem sticky_address_unchecked:
  assumes "parse_cidr4 cidr = Some p" and "sticky_address p (own_address site muuid)"
  shows "allocate_ip no_faults now pr site muuid cidr gateway = Some (Inr (own_address site muuid))"
proof -
  have "parse_to4 [] = None" by code_simp
  then have "own_address site muuid \<noteq> []" using assms(2) by (auto simp: sticky_address_def)
  then show ?thesis
    using assms by (simp add: allocate_ip_def own_address_def Let_def)
qed

theorem gateway_kept_as_host_address:
  "allocate_ip no_faults 0 None (sample_site ''10.0.1.4'' ''10.0.1.5'') ''m3'' ''10.0.1.0/29'' ''10.0.1.1''
    = Some (Inr ''10.0.1.1'')"
  by code_simp

theorem overlapping_pool_not_reserved:
  "allocate_ip no_faults 0 None (sample_site ''10.0.0.200'' ''10.0.1.5'') ''m2'' ''10.0.1.0/29'' ''10.0.1.1''
    = Some (Inr ''10.0.1.4'')"
  by code_simp

end
