(* ===== verification/Binding_Store.thy ===== *)
theory Binding_Store
  imports Profile_Rules Subnet_Store Static_Ip
begin

text \<open>
  \<open>internal/bindings\<close>: the install assignment of each machine. The state is the \<open>bindings\<close> table;
  the other tables it reads are the argument \<open>catalog\<close>. A nullable text column is empty when it is
  \<open>NULL\<close>, which the store treats alike; the JSON columns hold their decoded values. \<open>Upsert\<close> runs
  under the allocation lock, so it is one step; a statement is named by its number in the longest
  run. The cipher is a parameter: \<open>None\<close> when the store has none, else plaintext to ciphertext.
\<close>

subsection \<open>Rows and inputs\<close>

record binding =
  bd_machine :: string
  bd_image :: string
  bd_profile :: string
  bd_desired :: string
  bd_address :: string
  bd_hostname :: string
  bd_password :: string
  bd_target_disk :: "target_disk option"
  bd_bond :: "bond_config option"
  bd_subnet :: string
  bd_vlan :: int
  bd_nic :: string
  bd_agent :: "bool option"
  bd_keys :: "string list"
  bd_updated :: int
  bd_updated_by :: string

text \<open>A raw JSON override: absent, one of the spellings of \<open>clear\<close>, or a value.\<close>

datatype 'a override = KeepRaw | ClearRaw | SetRaw "'a raw_json"

record upsert_input =
  ui_machine :: string
  ui_image :: string
  ui_profile :: string
  ui_desired :: string
  ui_address :: string
  ui_hostname :: "string option"
  ui_password :: "string option"
  ui_target_disk :: "target_disk override"
  ui_bond :: "bond_config override"
  ui_subnet :: "string option"
  ui_vlan :: "int option"
  ui_nic :: "string option"
  ui_agent :: "bool option"
  ui_keys :: "string list option"
  ui_updated_by :: string

record image_row =
  im_id :: string
  im_family :: "string option"
  im_arch :: "string option"

record profile_row =
  pf_id :: string
  pf_method :: "string option"
  pf_os_family :: "string option"

text \<open>A machine with the processor architecture of its latest report.\<close>

record catalog =
  ct_machines :: "(string \<times> string option) list"
  ct_images :: "image_row list"
  ct_profiles :: "profile_row list"
  ct_subnets :: "subnet list"
  ct_keys :: "string list"
  ct_leases :: "lease list"
  ct_settings :: "(string \<times> string) list"
  ct_own_ips :: "string list"

datatype bind_error =
    BindMachineUuid string
  | BindId string string
  | BindDesired string
  | BindUpdatedBy
  | BindMachineUnknown string
  | BindImageUnknown string
  | BindProfileUnknown string
  | BindSubnetUnknown string
  | BindKeyUnknown string
  | BindMethodNull
  | BindMethod string string
  | BindFamilyMismatch string string
  | BindArchMismatch string string
  | BindAddress string
  | BindAddressOnDhcp
  | BindHostLength nat
  | BindHostChars string
  | BindHostLabel string
  | BindKeyId nat string
  | BindTooManyKeys
  | BindSubnetId string
  | BindAllocate alloc_error
  | BindHost host_error
  | BindStaticNeedsAddress
  | BindVlan int
  | BindNic profile_error
  | BindNoCipher
  | BindPasswordShort
  | BindPasswordLong
  | BindEncrypt string
  | BindOverride profile_error
  | BindNotFound
  | BindDb string string

subsection \<open>Validation\<close>

definition bind_machine_uuid :: "string \<Rightarrow> (bind_error, string) result" where
  "bind_machine_uuid u0 =
    (let u = lower_trim u0 in if \<not> smbios_uuid_match u then Inl (BindMachineUuid u) else Inr u)"

definition bind_id :: "string \<Rightarrow> string \<Rightarrow> (bind_error, string) result" where
  "bind_id field i0 = (let i = lower_trim i0 in if \<not> hex32_match i then Inl (BindId field i) else Inr i)"

definition valid_desired_states :: "string list" where
  "valid_desired_states = [''none'', ''install'', ''reinstall'']"

definition validate_desired_state :: "string \<Rightarrow> (bind_error, string) result" where
  "validate_desired_state s0 =
    (let s = lower_trim s0 in if s \<notin> set valid_desired_states then Inl (BindDesired s) else Inr s)"

definition validate_static_address :: "string \<Rightarrow> string \<Rightarrow> (bind_error, string) result" where
  "validate_static_address addr0 meth =
    (let addr = trim_space addr0 in
     if meth = ''static'' then
       (if addr = [] then Inr []
        else case parse_to4 addr of None \<Rightarrow> Inl (BindAddress addr) | Some w \<Rightarrow> Inr (show_ip4 w))
     else if meth = ''dhcp'' then (if addr \<noteq> [] then Inl BindAddressOnDhcp else Inr [])
     else Inl (BindMethod [] meth))"

definition hostname_match :: "string \<Rightarrow> bool" where
  "hostname_match s \<longleftrightarrow>
    framed is_alnum (\<lambda>c. is_alnum c \<or> c = CHR ''.'' \<or> c = CHR ''-'') is_alnum s"

definition validate_hostname :: "string \<Rightarrow> (bind_error, string) result" where
  "validate_hostname h0 =
    (let h = trim_space h0 in
     if h = [] then Inr []
     else if max_hostname_len < length h then Inl (BindHostLength (length h))
     else if \<not> hostname_match h then Inl (BindHostChars h)
     else case find (\<lambda>l. l = [] \<or> 63 < length l) (split_on CHR ''.'' h) of
       Some l \<Rightarrow> Inl (BindHostLabel l)
     | None \<Rightarrow> Inr h)"

definition validate_password :: "string \<Rightarrow> bind_error option" where
  "validate_password p =
    (if length p < 8 then Some BindPasswordShort else if 128 < length p then Some BindPasswordLong else None)"

definition validate_vlan_override :: "int \<Rightarrow> (bind_error, int) result" where
  "validate_vlan_override v =
    (if v = 0 then Inr 0 else if v < 1 \<or> 4094 < v then Inl (BindVlan v) else Inr v)"

definition bind_subnet_id :: "string \<Rightarrow> (bind_error, string) result" where
  "bind_subnet_id i0 =
    (let i = lower_trim i0 in
     if i = [] then Inr [] else if \<not> hex32_match i then Inl (BindSubnetId i) else Inr i)"

definition validate_nic_override :: "string \<Rightarrow> (bind_error, string) result" where
  "validate_nic_override s0 =
    (let s = lower_trim s0 in
     if s = [] then Inr []
     else case validate_nic_selector s of Some e \<Rightarrow> Inl (BindNic e) | None \<Rightarrow> Inr s)"

definition max_keys :: nat where
  "max_keys = 32"

fun validate_key_ids :: "nat \<Rightarrow> string list \<Rightarrow> string list \<Rightarrow> (bind_error, string list) result" where
  "validate_key_ids i out [] = (if max_keys < length out then Inl BindTooManyKeys else Inr out)"
| "validate_key_ids i out (raw # rest) =
    (let k = lower_trim raw in
     if k = [] then validate_key_ids (Suc i) out rest
     else if \<not> hex32_match k then Inl (BindKeyId i raw)
     else if k \<in> set out then validate_key_ids (Suc i) out rest
     else validate_key_ids (Suc i) (out @ [k]) rest)"

subsection \<open>Compatibility\<close>

definition cross_family :: "(string \<times> string) list" where
  "cross_family = [(''kylin'', ''ubuntu''), (''kylin'', ''rhel''), (''openeuler'', ''rhel'')]"

definition family_compatible :: "string \<Rightarrow> string \<Rightarrow> bind_error option" where
  "family_compatible profile_fam image_fam =
    (let p0 = lower_trim profile_fam; p = (if p0 = [] then ''any'' else p0); i = lower_trim image_fam in
     if p = ''any'' \<or> i = [] \<or> p = i \<or> (p, i) \<in> set cross_family \<or> (i, p) \<in> set cross_family then None
     else Some (BindFamilyMismatch p i))"

definition normal_arch :: "string \<Rightarrow> string" where
  "normal_arch a =
    (if a \<in> {''x86_64'', ''amd64''} then ''amd64'' else if a \<in> {''aarch64'', ''arm64''} then ''arm64'' else a)"

definition arch_compatible ::
  "string option \<Rightarrow> (string \<times> string option) list \<Rightarrow> string \<Rightarrow> string \<Rightarrow> bind_error option" where
  "arch_compatible f machines muuid image_arch =
    (if image_arch = [] then None
     else case f of
       Some msg \<Rightarrow> Some (BindDb ''fetch machine arch'' msg)
     | None \<Rightarrow>
       (case map_of machines muuid of
          None \<Rightarrow> Some (BindDb ''fetch machine arch'' ''sql: no rows in result set'')
        | Some a \<Rightarrow>
          (let m0 = lower_trim (case a of None \<Rightarrow> [] | Some x \<Rightarrow> x); m = normal_arch m0 in
           if m0 = [] then None
           else if m \<noteq> image_arch then Some (BindArchMismatch image_arch m) else None)))"

subsection \<open>Catalog queries\<close>

definition db_try :: "string option \<Rightarrow> string \<Rightarrow> (bind_error, 'a) result \<Rightarrow> (bind_error, 'a) result" where
  "db_try f op r = (case f of Some msg \<Rightarrow> Inl (BindDb op msg) | None \<Rightarrow> r)"

lemma db_try_Inr [simp]: "db_try f op r = Inr x \<longleftrightarrow> f = None \<and> r = Inr x"
  by (simp add: db_try_def split: option.splits)

lemma db_try_None [simp]: "db_try None op r = r"
  by (simp add: db_try_def)

definition bind_check_machine :: "string option \<Rightarrow> catalog \<Rightarrow> string \<Rightarrow> (bind_error, unit) result" where
  "bind_check_machine f ct u =
    db_try f ''check machine'' (refuse_if (u \<notin> fst ` set (ct_machines ct)) (BindMachineUnknown u))"

definition image_of :: "catalog \<Rightarrow> string \<Rightarrow> image_row option" where
  "image_of ct i = find (\<lambda>r. im_id r = i) (ct_images ct)"

definition profile_of :: "catalog \<Rightarrow> string \<Rightarrow> profile_row option" where
  "profile_of ct i = find (\<lambda>r. pf_id r = i) (ct_profiles ct)"

definition subnet_of :: "catalog \<Rightarrow> string \<Rightarrow> subnet option" where
  "subnet_of ct i = find (\<lambda>r. sn_id r = i) (ct_subnets ct)"

definition bind_check_image :: "string option \<Rightarrow> catalog \<Rightarrow> string \<Rightarrow> (bind_error, unit) result" where
  "bind_check_image f ct i = db_try f ''check image'' (refuse_if (image_of ct i = None) (BindImageUnknown i))"

definition fetch_method :: "string option \<Rightarrow> catalog \<Rightarrow> string \<Rightarrow> (bind_error, string) result" where
  "fetch_method f ct i =
    db_try f ''fetch profile network method''
      (case profile_of ct i of
         None \<Rightarrow> Inl (BindProfileUnknown i)
       | Some r \<Rightarrow>
         (case pf_method r of
            None \<Rightarrow> Inl BindMethodNull
          | Some m0 \<Rightarrow>
            (let m = to_lower m0 in if m \<notin> {''static'', ''dhcp''} then Inl (BindMethod i m) else Inr m)))"

definition fetch_os_family :: "string option \<Rightarrow> catalog \<Rightarrow> string \<Rightarrow> (bind_error, string) result" where
  "fetch_os_family f ct i =
    db_try f ''fetch profile os_family''
      (case profile_of ct i of
         None \<Rightarrow> Inl (BindProfileUnknown i)
       | Some r \<Rightarrow>
         (let s = lower_trim (case pf_os_family r of None \<Rightarrow> ''any'' | Some x \<Rightarrow> x)
          in Inr (if s = [] then ''any'' else s)))"

definition fetch_image_family :: "string option \<Rightarrow> catalog \<Rightarrow> string \<Rightarrow> (bind_error, string) result" where
  "fetch_image_family f ct i =
    db_try f ''fetch image family''
      (case image_of ct i of
         None \<Rightarrow> Inl (BindImageUnknown i)
       | Some r \<Rightarrow> Inr (lower_trim (case im_family r of None \<Rightarrow> [] | Some x \<Rightarrow> x)))"

definition fetch_image_arch :: "string option \<Rightarrow> catalog \<Rightarrow> string \<Rightarrow> (bind_error, string) result" where
  "fetch_image_arch f ct i =
    db_try f ''fetch image arch''
      (case image_of ct i of
         None \<Rightarrow> Inl (BindImageUnknown i)
       | Some r \<Rightarrow> Inr (lower_trim (case im_arch r of None \<Rightarrow> [] | Some x \<Rightarrow> x)))"

definition check_subnet_exists :: "string option \<Rightarrow> catalog \<Rightarrow> string \<Rightarrow> (bind_error, unit) result" where
  "check_subnet_exists f ct i = db_try f ''check subnet'' (refuse_if (subnet_of ct i = None) (BindSubnetUnknown i))"

definition fetch_subnet_cidr_gateway ::
  "string option \<Rightarrow> catalog \<Rightarrow> string \<Rightarrow> (bind_error, string \<times> string) result" where
  "fetch_subnet_cidr_gateway f ct i =
    db_try f ''fetch subnet cidr/gateway''
      (case subnet_of ct i of None \<Rightarrow> Inl (BindSubnetUnknown i) | Some r \<Rightarrow> Inr (sn_cidr r, sn_gateway r))"

text \<open>The \<open>k\<close>-th key is checked by statement \<open>20 + k\<close>.\<close>

fun check_keys :: "faults \<Rightarrow> nat \<Rightarrow> catalog \<Rightarrow> string list \<Rightarrow> (bind_error, unit) result" where
  "check_keys fl k ct [] = Inr ()"
| "check_keys fl k ct (i # is') =
    and_then (db_try (fl (20 + k)) ''check ssh key'' (refuse_if (i \<notin> set (ct_keys ct)) (BindKeyUnknown i)))
      (\<lambda>_. check_keys fl (Suc k) ct is')"

subsection \<open>Upsert\<close>

record checked_input =
  ck_machine :: string
  ck_image :: string
  ck_profile :: string
  ck_desired :: string
  ck_method :: string
  ck_address :: string
  ck_hostname :: "string option"
  ck_keys :: "string list option"

definition opt_then :: "'a option \<Rightarrow> ('a \<Rightarrow> ('e, 'b) result) \<Rightarrow> ('e, 'b option) result" where
  "opt_then c f = (case c of None \<Rightarrow> Inr None | Some x \<Rightarrow> and_then (f x) (\<lambda>y. Inr (Some y)))"

text \<open>Everything before the lock: identifiers, references, compatibility, shapes. Statements 0 to 6.\<close>

definition check_input :: "faults \<Rightarrow> catalog \<Rightarrow> upsert_input \<Rightarrow> (bind_error, checked_input) result" where
  "check_input fl ct inp =
    and_then (bind_machine_uuid (ui_machine inp)) (\<lambda>m.
    and_then (bind_id ''image_id'' (ui_image inp)) (\<lambda>img.
    and_then (bind_id ''profile_id'' (ui_profile inp)) (\<lambda>prof.
    and_then (validate_desired_state (ui_desired inp)) (\<lambda>desired.
    and_then (refuse_if (ui_updated_by inp = []) BindUpdatedBy) (\<lambda>_.
    and_then (bind_check_machine (fl 0) ct m) (\<lambda>_.
    and_then (bind_check_image (fl 1) ct img) (\<lambda>_.
    and_then (fetch_method (fl 2) ct prof) (\<lambda>meth.
    and_then (fetch_os_family (fl 3) ct prof) (\<lambda>pfam.
    and_then (fetch_image_family (fl 4) ct img) (\<lambda>ifam.
    and_then (check_err (family_compatible pfam ifam)) (\<lambda>_.
    and_then (fetch_image_arch (fl 5) ct img) (\<lambda>arch.
    and_then (check_err (arch_compatible (fl 6) (ct_machines ct) m arch)) (\<lambda>_.
    and_then (validate_static_address (ui_address inp) meth) (\<lambda>addr.
    and_then (opt_then (ui_hostname inp) validate_hostname) (\<lambda>host.
    and_then (opt_then (ui_keys inp) (validate_key_ids 0 [])) (\<lambda>keys.
      Inr \<lparr>ck_machine = m, ck_image = img, ck_profile = prof, ck_desired = desired, ck_method = meth,
           ck_address = addr, ck_hostname = host, ck_keys = keys\<rparr>))))))))))))))))"

text \<open>A field of the row that is there already, or its empty value.\<close>

definition kept :: "binding option \<Rightarrow> (binding \<Rightarrow> 'a) \<Rightarrow> 'a \<Rightarrow> 'a" where
  "kept ex f d = (case ex of None \<Rightarrow> d | Some b \<Rightarrow> f b)"

definition resolve_keys ::
  "faults \<Rightarrow> catalog \<Rightarrow> checked_input \<Rightarrow> binding option \<Rightarrow> (bind_error, string list) result" where
  "resolve_keys fl ct ck ex =
    (case ck_keys ck of
       None \<Rightarrow> Inr (kept ex bd_keys [])
     | Some ks \<Rightarrow> and_then (check_keys fl 0 ct ks) (\<lambda>_. Inr ks))"

definition resolve_subnet ::
  "faults \<Rightarrow> catalog \<Rightarrow> upsert_input \<Rightarrow> binding option \<Rightarrow> (bind_error, string) result" where
  "resolve_subnet fl ct inp ex =
    (case ui_subnet inp of
       None \<Rightarrow> Inr (kept ex bd_subnet [])
     | Some raw \<Rightarrow>
       and_then (bind_subnet_id raw) (\<lambda>i.
         if i = [] then Inr [] else and_then (check_subnet_exists (fl 8) ct i) (\<lambda>_. Inr i)))"

definition alloc_site_of :: "catalog \<Rightarrow> binding list \<Rightarrow> alloc_site" where
  "alloc_site_of ct t =
    \<lparr>as_addresses = map (\<lambda>b. (bd_machine b, bd_address b)) t, as_own_ips = ct_own_ips ct,
     as_leases = ct_leases ct, as_settings = ct_settings ct\<rparr>"

text \<open>The address: allocated, checked against the subnet, or as given. The allocation is statements 10 to 13.\<close>

definition resolve_address ::
  "prober option \<Rightarrow> faults \<Rightarrow> time \<Rightarrow> catalog \<Rightarrow> checked_input \<Rightarrow> string \<Rightarrow> binding list \<Rightarrow>
   (bind_error, string) result option"
where
  "resolve_address pr fl now ct ck sid t =
    (if sid \<noteq> [] \<and> ck_method ck = ''static'' then
       (case fetch_subnet_cidr_gateway (fl 9) ct sid of
          Inl e \<Rightarrow> Some (Inl e)
        | Inr (cidr, gw) \<Rightarrow>
          (if ck_address ck = [] then
             (case allocate_ip (\<lambda>k. fl (10 + k)) now pr (alloc_site_of ct t) (ck_machine ck) cidr gw of
                None \<Rightarrow> None
              | Some (Inl e) \<Rightarrow> Some (Inl (BindAllocate e))
              | Some (Inr a) \<Rightarrow> Some (Inr a))
           else case host_in_subnet (ck_address ck) cidr gw of
             Some e \<Rightarrow> Some (Inl (BindHost e))
           | None \<Rightarrow> Some (Inr (ck_address ck))))
     else Some (Inr (ck_address ck)))"

definition resolve_password ::
  "(string \<Rightarrow> (string, string) result) option \<Rightarrow> upsert_input \<Rightarrow> binding option \<Rightarrow> (bind_error, string) result"
where
  "resolve_password enc inp ex =
    (case ui_password inp of
       None \<Rightarrow> Inr (kept ex bd_password [])
     | Some p \<Rightarrow>
       (if p = [] then Inr []
        else case enc of
          None \<Rightarrow> Inl BindNoCipher
        | Some f \<Rightarrow>
          and_then (check_err (validate_password p)) (\<lambda>_.
            case f p of Inl e \<Rightarrow> Inl (BindEncrypt e) | Inr c \<Rightarrow> Inr c)))"

definition resolve_override ::
  "('a raw_json \<Rightarrow> (profile_error, 'a) result) \<Rightarrow> 'a override \<Rightarrow> 'a option \<Rightarrow> (bind_error, 'a option) result" where
  "resolve_override validate raw old =
    (case raw of
       KeepRaw \<Rightarrow> Inr old
     | ClearRaw \<Rightarrow> Inr None
     | SetRaw r \<Rightarrow> (case validate r of Inl e \<Rightarrow> Inl (BindOverride e) | Inr x \<Rightarrow> Inr (Some x)))"

text \<open>The guard and the overrides after the address, statement 14, down to the row that is written.\<close>

definition resolve_row ::
  "(string \<Rightarrow> (string, string) result) option \<Rightarrow> faults \<Rightarrow> time \<Rightarrow> upsert_input \<Rightarrow> checked_input \<Rightarrow>
   binding option \<Rightarrow> string list \<Rightarrow> string \<Rightarrow> string \<Rightarrow> (bind_error, binding) result"
where
  "resolve_row enc fl now inp ck ex keys sid addr =
    and_then (refuse_if (ck_method ck = ''static'' \<and> addr = []) BindStaticNeedsAddress) (\<lambda>_.
    and_then (case ui_vlan inp of None \<Rightarrow> Inr (kept ex bd_vlan 0) | Some v \<Rightarrow> validate_vlan_override v) (\<lambda>vlan.
    and_then (case ui_nic inp of None \<Rightarrow> Inr (kept ex bd_nic []) | Some s \<Rightarrow> validate_nic_override s) (\<lambda>nic.
    and_then (if ui_password inp = None \<or> ui_target_disk inp = KeepRaw \<or> ui_bond inp = KeepRaw
              then db_try (fl 14) ''load existing password/target_disk/bond overrides'' (Inr ()) else Inr ()) (\<lambda>_.
    and_then (resolve_password enc inp ex) (\<lambda>pw.
    and_then (resolve_override validate_target_disk (ui_target_disk inp) (kept ex bd_target_disk None)) (\<lambda>td.
    and_then (resolve_override validate_bond_json (ui_bond inp) (kept ex bd_bond None)) (\<lambda>bond.
      Inr \<lparr>bd_machine = ck_machine ck, bd_image = ck_image ck, bd_profile = ck_profile ck,
           bd_desired = ck_desired ck, bd_address = addr,
           bd_hostname = (case ck_hostname ck of None \<Rightarrow> kept ex bd_hostname [] | Some h \<Rightarrow> h),
           bd_password = pw, bd_target_disk = td, bd_bond = bond, bd_subnet = sid, bd_vlan = vlan, bd_nic = nic,
           bd_agent = (case ui_agent inp of None \<Rightarrow> kept ex bd_agent None | Some a \<Rightarrow> Some a),
           bd_keys = keys, bd_updated = unix now, bd_updated_by = ui_updated_by inp\<rparr>)))))))"

text \<open>\<open>INSERT ... ON CONFLICT(machine_uuid) DO UPDATE\<close> of every other column.\<close>

definition sql_upsert_binding :: "binding \<Rightarrow> binding list \<Rightarrow> binding list" where
  "sql_upsert_binding b t =
    (if \<exists>q \<in> set t. bd_machine q = bd_machine b then upd_where (\<lambda>q. bd_machine q = bd_machine b) (\<lambda>_. b) t
     else ins_row b t)"

definition fetch_binding :: "string option \<Rightarrow> string \<Rightarrow> binding list \<Rightarrow> (bind_error, binding) result" where
  "fetch_binding f m t =
    db_try f ''get binding''
      (case sel_row (\<lambda>b. bd_machine b = m) t of None \<Rightarrow> Inl BindNotFound | Some b \<Rightarrow> Inr b)"

definition get_binding :: "faults \<Rightarrow> string \<Rightarrow> binding list \<Rightarrow> (bind_error, binding) result" where
  "get_binding fl m0 t = and_then (bind_machine_uuid m0) (\<lambda>m. fetch_binding (fl 0) m t)"

definition needs_existing :: "upsert_input \<Rightarrow> bool" where
  "needs_existing inp \<longleftrightarrow>
    ui_subnet inp = None \<or> ui_vlan inp = None \<or> ui_nic inp = None \<or> ui_hostname inp = None
    \<or> ui_agent inp = None \<or> ui_keys inp = None"

definition upsert_binding ::
  "(string \<Rightarrow> (string, string) result) option \<Rightarrow> prober option \<Rightarrow> faults \<Rightarrow> time \<Rightarrow> catalog \<Rightarrow> upsert_input \<Rightarrow>
   binding list \<Rightarrow> ((bind_error, binding) result \<times> binding list) option"
where
  "upsert_binding enc pr fl now ct inp t =
    (case check_input fl ct inp of
       Inl e \<Rightarrow> Some (Inl e, t)
     | Inr ck \<Rightarrow>
       (let ex = sel_row (\<lambda>b. bd_machine b = ck_machine ck) t in
        case and_then (if needs_existing inp
                       then db_try (fl 7) ''load existing subnet/vlan/nic/hostname/agent/ssh-key overrides'' (Inr ())
                       else Inr ()) (\<lambda>_.
             and_then (resolve_keys fl ct ck ex) (\<lambda>keys.
             and_then (resolve_subnet fl ct inp ex) (\<lambda>sid. Inr (keys, sid)))) of
          Inl e \<Rightarrow> Some (Inl e, t)
        | Inr (keys, sid) \<Rightarrow>
          (case resolve_address pr fl now ct ck sid t of
             None \<Rightarrow> None
           | Some (Inl e) \<Rightarrow> Some (Inl e, t)
           | Some (Inr addr) \<Rightarrow>
             (case resolve_row enc fl now inp ck ex keys sid addr of
                Inl e \<Rightarrow> Some (Inl e, t)
              | Inr b \<Rightarrow>
                (case fl 15 of
                   Some msg \<Rightarrow> Some (Inl (BindDb ''upsert binding'' msg), t)
                 | None \<Rightarrow>
                   (let t' = sql_upsert_binding b t
                    in Some (fetch_binding (fl 16) (bd_machine b) t', t')))))))"

subsection \<open>The other operations\<close>

definition list_bindings :: "faults \<Rightarrow> binding list \<Rightarrow> (bind_error, binding list) result" where
  "list_bindings fl t = db_try (fl 0) ''list bindings'' (Inr (sort_key bd_machine t))"

definition get_password ::
  "(string \<Rightarrow> (string, string) result) option \<Rightarrow> faults \<Rightarrow> string \<Rightarrow> binding list \<Rightarrow> (bind_error, string) result"
where
  "get_password dec fl m0 t =
    and_then (bind_machine_uuid m0) (\<lambda>m.
      case dec of
        None \<Rightarrow> Inl BindNoCipher
      | Some d \<Rightarrow>
        db_try (fl 0) ''get binding password''
          (case sel_row (\<lambda>b. bd_machine b = m) t of
             None \<Rightarrow> Inl BindNotFound
           | Some b \<Rightarrow>
             (if bd_password b = [] then Inl BindNotFound
              else case d (bd_password b) of Inl e \<Rightarrow> Inl (BindEncrypt e) | Inr p \<Rightarrow> Inr p)))"

definition delete_binding :: "faults \<Rightarrow> string \<Rightarrow> binding list \<Rightarrow> bind_error option \<times> binding list" where
  "delete_binding fl m0 t =
    (case bind_machine_uuid m0 of
       Inl e \<Rightarrow> (Some e, t)
     | Inr m \<Rightarrow>
       (case fl 0 of
          Some msg \<Rightarrow> (Some (BindDb ''delete binding'' msg), t)
        | None \<Rightarrow>
          (if hits (\<lambda>b. bd_machine b = m) t = 0 then (Some BindNotFound, t)
           else (None, del_where (\<lambda>b. bd_machine b = m) t))))"

definition delete_bindings_by_image :: "faults \<Rightarrow> string \<Rightarrow> binding list \<Rightarrow> (bind_error, nat) result \<times> binding list" where
  "delete_bindings_by_image fl i t =
    (case fl 0 of
       Some msg \<Rightarrow> (Inl (BindDb ''delete bindings by image'' msg), t)
     | None \<Rightarrow> (Inr (hits (\<lambda>b. bd_image b = i) t), del_where (\<lambda>b. bd_image b = i) t))"

definition delete_bindings_by_profile :: "faults \<Rightarrow> string \<Rightarrow> binding list \<Rightarrow> (bind_error, nat) result \<times> binding list" where
  "delete_bindings_by_profile fl i t =
    (case fl 0 of
       Some msg \<Rightarrow> (Inl (BindDb ''delete bindings by profile'' msg), t)
     | None \<Rightarrow> (Inr (hits (\<lambda>b. bd_profile b = i) t), del_where (\<lambda>b. bd_profile b = i) t))"

definition binding_refs_image :: "faults \<Rightarrow> string \<Rightarrow> binding list \<Rightarrow> (bind_error, nat) result" where
  "binding_refs_image fl i t = db_try (fl 0) ''count bindings for image'' (Inr (hits (\<lambda>b. bd_image b = i) t))"

definition binding_refs_profile :: "faults \<Rightarrow> string \<Rightarrow> binding list \<Rightarrow> (bind_error, nat) result" where
  "binding_refs_profile fl i t = db_try (fl 0) ''count bindings for profile'' (Inr (hits (\<lambda>b. bd_profile b = i) t))"

definition binding_refs_subnet :: "faults \<Rightarrow> string \<Rightarrow> binding list \<Rightarrow> (bind_error, nat) result" where
  "binding_refs_subnet fl i t = db_try (fl 0) ''count bindings for subnet'' (Inr (hits (\<lambda>b. bd_subnet b = i) t))"

definition binding_refs_key :: "faults \<Rightarrow> string \<Rightarrow> binding list \<Rightarrow> (bind_error, nat) result" where
  "binding_refs_key fl i t = db_try (fl 0) ''count bindings for ssh key'' (Inr (hits (\<lambda>b. i \<in> set (bd_keys b)) t))"

definition clear_desired_state :: "faults \<Rightarrow> time \<Rightarrow> string \<Rightarrow> string \<Rightarrow> binding list \<Rightarrow> bind_error option \<times> binding list" where
  "clear_desired_state fl now m0 actor t =
    (case bind_machine_uuid m0 of
       Inl e \<Rightarrow> (Some e, t)
     | Inr m \<Rightarrow>
       (if actor = [] then (Some BindUpdatedBy, t)
        else case fl 0 of
          Some msg \<Rightarrow> (Some (BindDb ''clear desired_state'' msg), t)
        | None \<Rightarrow>
          (None, upd_where (\<lambda>b. bd_machine b = m \<and> bd_desired b \<noteq> ''none'')
             (\<lambda>b. b\<lparr>bd_desired := ''none'', bd_updated := unix now, bd_updated_by := actor\<rparr>) t)))"

subsection \<open>The table invariant\<close>

definition keys_ok :: "string list \<Rightarrow> bool" where
  "keys_ok ks \<longleftrightarrow> distinct ks \<and> length ks \<le> max_keys \<and> list_all hex32_match ks"

definition hostname_ok :: "string \<Rightarrow> bool" where
  "hostname_ok h \<longleftrightarrow> h = [] \<or> length h \<le> max_hostname_len \<and> hostname_match h
    \<and> list_all (\<lambda>l. l \<noteq> [] \<and> length l \<le> 63) (split_on CHR ''.'' h)"

definition address_ok :: "string \<Rightarrow> bool" where
  "address_ok a \<longleftrightarrow> a = [] \<or> (case parse_ip4 a of None \<Rightarrow> False | Some w \<Rightarrow> a = show_ip4 w)"

definition binding_ok :: "binding \<Rightarrow> bool" where
  "binding_ok b \<longleftrightarrow>
    smbios_uuid_match (bd_machine b) \<and> hex32_match (bd_image b) \<and> hex32_match (bd_profile b)
    \<and> bd_desired b \<in> set valid_desired_states \<and> address_ok (bd_address b) \<and> hostname_ok (bd_hostname b)
    \<and> (bd_subnet b = [] \<or> hex32_match (bd_subnet b)) \<and> 0 \<le> bd_vlan b \<and> bd_vlan b \<le> 4094
    \<and> (bd_nic b = [] \<or> validate_nic_selector (bd_nic b) = None) \<and> keys_ok (bd_keys b)
    \<and> (case bd_bond b of None \<Rightarrow> True | Some c \<Rightarrow> bond_canonical c)
    \<and> (case bd_target_disk b of None \<Rightarrow> True | Some d \<Rightarrow> validate_target_disk (RawOk d) = Inr d)
    \<and> bd_updated_by b \<noteq> []"

definition bindings_ok :: "binding list \<Rightarrow> bool" where
  "bindings_ok t \<longleftrightarrow> keyed bd_machine t \<and> (\<forall>b \<in> set t. binding_ok b)"

lemma address_ok_show [simp]: "address_ok (show_ip4 w)"
  by (simp add: address_ok_def)

lemma address_ok_Nil [simp]: "address_ok []"
  by (simp add: address_ok_def)

lemma bind_machine_uuid_ok: "bind_machine_uuid u0 = Inr u \<Longrightarrow> smbios_uuid_match u"
  by (auto simp: bind_machine_uuid_def Let_def split: if_splits)

lemma bind_id_ok: "bind_id f i0 = Inr i \<Longrightarrow> hex32_match i"
  by (auto simp: bind_id_def Let_def split: if_splits)

lemma desired_ok: "validate_desired_state s0 = Inr s \<Longrightarrow> s \<in> set valid_desired_states"
  by (auto simp: validate_desired_state_def Let_def split: if_splits)

lemma static_address_ok: "validate_static_address a0 m = Inr a \<Longrightarrow> address_ok a"
  by (auto simp: validate_static_address_def Let_def split: if_splits option.splits)

lemma validate_hostname_ok: "validate_hostname h0 = Inr h \<Longrightarrow> hostname_ok h"
  by (auto simp: validate_hostname_def hostname_ok_def Let_def find_None_iff list_all_iff
      split: if_splits option.splits)

lemma validate_key_ids_ok:
  "validate_key_ids i out raws = Inr ks \<Longrightarrow> distinct out \<Longrightarrow> list_all hex32_match out \<Longrightarrow> keys_ok ks"
  by (induction i out raws rule: validate_key_ids.induct) (auto simp: keys_ok_def Let_def split: if_splits)

lemma opt_then_Inr: "opt_then c f = Inr r \<longleftrightarrow> (case c of None \<Rightarrow> r = None | Some x \<Rightarrow> \<exists>y. f x = Inr y \<and> r = Some y)"
  by (auto simp: opt_then_def and_then_Inr split: option.splits)

definition checked_ok :: "checked_input \<Rightarrow> bool" where
  "checked_ok ck \<longleftrightarrow>
    smbios_uuid_match (ck_machine ck) \<and> hex32_match (ck_image ck) \<and> hex32_match (ck_profile ck)
    \<and> ck_desired ck \<in> set valid_desired_states \<and> address_ok (ck_address ck)
    \<and> (case ck_hostname ck of None \<Rightarrow> True | Some h \<Rightarrow> hostname_ok h)
    \<and> (case ck_keys ck of None \<Rightarrow> True | Some ks \<Rightarrow> keys_ok ks)"

lemma check_input_ok:
  assumes "check_input fl ct inp = Inr ck"
  shows "checked_ok ck" "ui_updated_by inp \<noteq> []"
    "validate_static_address (ui_address inp) (ck_method ck) = Inr (ck_address ck)"
    "opt_then (ui_hostname inp) validate_hostname = Inr (ck_hostname ck)"
    "opt_then (ui_keys inp) (validate_key_ids 0 []) = Inr (ck_keys ck)"
    "bind_machine_uuid (ui_machine inp) = Inr (ck_machine ck)"
proof -
  from assms show u: "ui_updated_by inp \<noteq> []"
    and a: "validate_static_address (ui_address inp) (ck_method ck) = Inr (ck_address ck)"
    and h: "opt_then (ui_hostname inp) validate_hostname = Inr (ck_hostname ck)"
    and k: "opt_then (ui_keys inp) (validate_key_ids 0 []) = Inr (ck_keys ck)"
    and m: "bind_machine_uuid (ui_machine inp) = Inr (ck_machine ck)"
    unfolding check_input_def and_then_Inr by auto
  have "hex32_match (ck_image ck)" "hex32_match (ck_profile ck)" "ck_desired ck \<in> set valid_desired_states"
    using assms bind_id_ok desired_ok unfolding check_input_def and_then_Inr by auto
  moreover have "case ck_hostname ck of None \<Rightarrow> True | Some h \<Rightarrow> hostname_ok h"
    using h by (auto simp: opt_then_Inr split: option.splits intro: validate_hostname_ok)
  moreover have "case ck_keys ck of None \<Rightarrow> True | Some ks \<Rightarrow> keys_ok ks"
    using k by (auto simp: opt_then_Inr split: option.splits intro: validate_key_ids_ok)
  ultimately show "checked_ok ck"
    using bind_machine_uuid_ok [OF m] static_address_ok [OF a] by (simp add: checked_ok_def)
qed

lemma resolve_keys_ok:
  "resolve_keys fl ct ck ex = Inr ks \<Longrightarrow> checked_ok ck \<Longrightarrow> (\<And>b. ex = Some b \<Longrightarrow> binding_ok b) \<Longrightarrow> keys_ok ks"
  by (cases ex; cases "ck_keys ck")
    (auto simp: resolve_keys_def checked_ok_def kept_def and_then_Inr binding_ok_def keys_ok_def)

lemma resolve_subnet_ok:
  "resolve_subnet fl ct inp ex = Inr s \<Longrightarrow> (\<And>b. ex = Some b \<Longrightarrow> binding_ok b) \<Longrightarrow> s = [] \<or> hex32_match s"
  by (cases ex)
    (auto simp: resolve_subnet_def kept_def and_then_Inr binding_ok_def bind_subnet_id_def Let_def
      split: option.splits if_splits)

lemma resolve_override_ok:
  assumes "resolve_override v raw old = Inr r" "\<And>x. old = Some x \<Longrightarrow> P x" "\<And>q x. v q = Inr x \<Longrightarrow> P x"
  shows "case r of None \<Rightarrow> True | Some x \<Rightarrow> P x"
  using assms by (auto simp: resolve_override_def split: override.splits sum.splits option.splits)

lemma validate_bond_json_canonical: "validate_bond_json raw = Inr b \<Longrightarrow> bond_canonical b"
  by (auto simp: validate_bond_json_def split: raw_json.splits intro: validate_bond_canonical)

lemma resolve_row_fields:
  assumes "resolve_row enc fl now inp ck ex keys sid addr = Inr b"
  shows "bd_machine b = ck_machine ck" "bd_image b = ck_image ck" "bd_profile b = ck_profile ck"
    "bd_desired b = ck_desired ck" "bd_address b = addr" "bd_subnet b = sid" "bd_keys b = keys"
    "bd_hostname b = (case ck_hostname ck of None \<Rightarrow> kept ex bd_hostname [] | Some h \<Rightarrow> h)"
    "bd_agent b = (case ui_agent inp of None \<Rightarrow> kept ex bd_agent None | Some a \<Rightarrow> Some a)"
    "bd_updated b = unix now" "bd_updated_by b = ui_updated_by inp"
    "ck_method ck = ''static'' \<Longrightarrow> addr \<noteq> []"
    "(case ui_vlan inp of None \<Rightarrow> Inr (kept ex bd_vlan 0) | Some v \<Rightarrow> validate_vlan_override v) = Inr (bd_vlan b)"
    "(case ui_nic inp of None \<Rightarrow> Inr (kept ex bd_nic []) | Some s \<Rightarrow> validate_nic_override s) = Inr (bd_nic b)"
    "resolve_password enc inp ex = Inr (bd_password b)"
    "resolve_override validate_target_disk (ui_target_disk inp) (kept ex bd_target_disk None) = Inr (bd_target_disk b)"
    "resolve_override validate_bond_json (ui_bond inp) (kept ex bd_bond None) = Inr (bd_bond b)"
  using assms unfolding resolve_row_def and_then_Inr by auto

lemma resolve_row_ok:
  assumes row: "resolve_row enc fl now inp ck ex keys sid addr = Inr b" and ck: "checked_ok ck" "ui_updated_by inp \<noteq> []"
    and ex: "\<And>q. ex = Some q \<Longrightarrow> binding_ok q" and new: "keys_ok keys" "sid = [] \<or> hex32_match sid" "address_ok addr"
  shows "binding_ok b"
proof -
  note f = resolve_row_fields [OF row]
  have "hostname_ok (bd_hostname b)"
    using f(8) ck(1) ex
    by (cases ex) (auto simp: checked_ok_def kept_def binding_ok_def hostname_ok_def split: option.splits)
  moreover have "0 \<le> bd_vlan b \<and> bd_vlan b \<le> 4094"
    using f(13) ex
    by (cases ex) (auto simp: kept_def binding_ok_def validate_vlan_override_def split: option.splits if_splits)
  moreover have "bd_nic b = [] \<or> validate_nic_selector (bd_nic b) = None"
    using f(14) ex
    by (cases ex) (auto simp: kept_def binding_ok_def validate_nic_override_def Let_def split: option.splits if_splits)
  moreover have "case bd_target_disk b of None \<Rightarrow> True | Some d \<Rightarrow> validate_target_disk (RawOk d) = Inr d"
    using f(16) by (rule resolve_override_ok)
      (use ex in \<open>auto simp: kept_def binding_ok_def split: option.splits intro: validate_target_disk_fixed\<close>)
  moreover have "case bd_bond b of None \<Rightarrow> True | Some c \<Rightarrow> bond_canonical c"
    using f(17) by (rule resolve_override_ok)
      (use ex in \<open>auto simp: kept_def binding_ok_def split: option.splits intro: validate_bond_json_canonical\<close>)
  ultimately show ?thesis
    using f(1-7,11) ck new by (simp add: binding_ok_def checked_ok_def)
qed

subsection \<open>What a call does to the table\<close>

lemma address_of_existing:
  "sel_row (\<lambda>b. bd_machine b = m) t = Some b \<Longrightarrow> own_address (alloc_site_of ct t) m = bd_address b"
  by (induction t) (auto simp: own_address_def alloc_site_of_def sel_row_def)

lemma address_of_missing:
  "sel_row (\<lambda>b. bd_machine b = m) t = None \<Longrightarrow> own_address (alloc_site_of ct t) m = []"
  by (induction t) (auto simp: own_address_def alloc_site_of_def sel_row_def split: if_splits)

lemma own_address_cases:
  obtains "own_address (alloc_site_of ct t) m = []"
  | b where "b \<in> set t" "bd_machine b = m" "own_address (alloc_site_of ct t) m = bd_address b"
  using address_of_existing address_of_missing sel_row_Some
  by (metis (mono_tags, lifting) option.exhaust)

lemma resolve_address_cases:
  assumes "resolve_address pr fl now ct ck sid t = Some (Inr a)"
  obtains (given) "a = ck_address ck"
  | (allocated) cidr gw where
      "allocate_ip (\<lambda>k. fl (10 + k)) now pr (alloc_site_of ct t) (ck_machine ck) cidr gw = Some (Inr a)"
  using assms by (auto simp: resolve_address_def split: if_splits sum.splits option.splits)

lemma resolve_address_ok:
  assumes r: "resolve_address pr fl now ct ck sid t = Some (Inr a)" and ok: "\<forall>b \<in> set t. binding_ok b" and ck: "checked_ok ck"
  shows "address_ok a"
proof -
  have own: "address_ok (own_address (alloc_site_of ct t) m)" for m
    using ok by (cases rule: own_address_cases [of ct t m]) (auto simp: binding_ok_def)
  from r show ?thesis
  proof (cases rule: resolve_address_cases)
    case given
    then show ?thesis using ck by (simp add: checked_ok_def)
  next
    case (allocated cidr gw)
    from allocate_ip_result [OF this] show ?thesis using own by auto
  qed
qed

text \<open>The row a successful \<open>Upsert\<close> writes, and the stages it went through.\<close>

definition upsert_row ::
  "(string \<Rightarrow> (string, string) result) option \<Rightarrow> prober option \<Rightarrow> faults \<Rightarrow> time \<Rightarrow> catalog \<Rightarrow> upsert_input \<Rightarrow>
   binding list \<Rightarrow> checked_input \<Rightarrow> binding \<Rightarrow> bool"
where
  "upsert_row enc pr fl now ct inp t ck b \<longleftrightarrow>
    check_input fl ct inp = Inr ck
    \<and> (let ex = sel_row (\<lambda>b. bd_machine b = ck_machine ck) t in
       resolve_keys fl ct ck ex = Inr (bd_keys b) \<and> resolve_subnet fl ct inp ex = Inr (bd_subnet b)
       \<and> resolve_address pr fl now ct ck (bd_subnet b) t = Some (Inr (bd_address b))
       \<and> resolve_row enc fl now inp ck ex (bd_keys b) (bd_subnet b) (bd_address b) = Inr b)"

lemma upsert_binding_cases:
  assumes "upsert_binding enc pr fl now ct inp t = Some (res, t')"
  obtains (refused) e where "res = Inl e" "t' = t"
  | (written) ck b where "upsert_row enc pr fl now ct inp t ck b" "t' = sql_upsert_binding b t"
      "res = fetch_binding (fl 16) (bd_machine b) t'"
proof (cases "check_input fl ct inp")
  case (Inl e)
  then show thesis using assms by (intro refused [of e]) (auto simp: upsert_binding_def)
next
  case ck: (Inr ck)
  let ?ex = "sel_row (\<lambda>b. bd_machine b = ck_machine ck) t"
  note step = assms [unfolded upsert_binding_def, simplified ck sum.case Let_def]
  show thesis
  proof (cases "resolve_keys fl ct ck ?ex")
    case (Inl e)
    then show thesis using step refused by (auto simp: db_try_def split: if_splits option.splits)
  next
    case keys: (Inr keys)
    show thesis
    proof (cases "resolve_subnet fl ct inp ?ex")
      case (Inl e)
      then show thesis using step keys refused by (auto simp: db_try_def split: if_splits option.splits)
    next
      case sid: (Inr sid)
      show thesis
      proof (cases "needs_existing inp \<and> fl 7 \<noteq> None")
        case True
        then show thesis using step refused by (auto simp: db_try_def)
      next
        case False
        then have step: "(case resolve_address pr fl now ct ck sid t of
             None \<Rightarrow> None
           | Some (Inl e) \<Rightarrow> Some (Inl e, t)
           | Some (Inr addr) \<Rightarrow>
             (case resolve_row enc fl now inp ck ?ex keys sid addr of
                Inl e \<Rightarrow> Some (Inl e, t)
              | Inr b \<Rightarrow>
                (case fl 15 of
                   Some msg \<Rightarrow> Some (Inl (BindDb ''upsert binding'' msg), t)
                 | None \<Rightarrow> Some (fetch_binding (fl 16) (bd_machine b) (sql_upsert_binding b t), sql_upsert_binding b t))))
           = Some (res, t')"
          using step keys sid by (auto simp: db_try_def split: if_splits)
        then show thesis
        proof (cases "resolve_address pr fl now ct ck sid t")
          case (Some a)
          show thesis
          proof (cases a)
            case (Inl e)
            then show thesis using step Some by (intro refused [of e]) auto
          next
            case (Inr addr)
            note step = step [unfolded Some Inr option.case sum.case]
            show thesis
            proof (cases "resolve_row enc fl now inp ck ?ex keys sid addr")
              case (Inl e)
              then show thesis using step by (intro refused [of e]) auto
            next
              case row: (Inr b)
              show thesis
              proof (cases "fl 15")
                case None
                have "upsert_row enc pr fl now ct inp t ck b"
                  using ck keys sid Some Inr row resolve_row_fields(5-7) [OF row] by (simp add: upsert_row_def)
                then show thesis using step row None by (intro written) auto
              next
                case db: (Some msg)
                then show thesis using step row by (intro refused) auto
              qed
            qed
          qed
        qed simp
      qed
    qed
  qed
qed

lemma upsert_row_machine: "upsert_row enc pr fl now ct inp t ck b \<Longrightarrow> bd_machine b = ck_machine ck"
  using resolve_row_fields(1) by (auto simp: upsert_row_def Let_def)

lemma upsert_row_ok:
  assumes row: "upsert_row enc pr fl now ct inp t ck b" and ok: "\<forall>b \<in> set t. binding_ok b"
  shows "binding_ok b"
proof -
  let ?ex = "sel_row (\<lambda>b. bd_machine b = ck_machine ck) t"
  have ex: "?ex = Some q \<Longrightarrow> binding_ok q" for q using ok by (auto dest: sel_row_Some)
  from row have "check_input fl ct inp = Inr ck" "resolve_keys fl ct ck ?ex = Inr (bd_keys b)"
    "resolve_subnet fl ct inp ?ex = Inr (bd_subnet b)"
    "resolve_address pr fl now ct ck (bd_subnet b) t = Some (Inr (bd_address b))"
    and b: "resolve_row enc fl now inp ck ?ex (bd_keys b) (bd_subnet b) (bd_address b) = Inr b"
    unfolding upsert_row_def Let_def by blast+
  note parts = this
  note ck = check_input_ok(1,2) [OF parts(1)]
  show ?thesis
    by (rule resolve_row_ok [OF b ck ex resolve_keys_ok [OF parts(2) ck(1) ex] resolve_subnet_ok [OF parts(3) ex]
          resolve_address_ok [OF parts(4) ok ck(1)]])
qed

subsection \<open>Steps of the store\<close>

text \<open>
  A step is one call, under any fault plan, clock, prober, cipher and catalog; \<open>allowed\<close> restricts
  the requests that are made.
\<close>

inductive binding_step :: "(upsert_input \<Rightarrow> binding list \<Rightarrow> bool) \<Rightarrow> binding list \<Rightarrow> binding list \<Rightarrow> bool"
  for allowed where
  upsert: "upsert_binding enc pr fl now ct inp t = Some (res, t') \<Longrightarrow> allowed inp t \<Longrightarrow> binding_step allowed t t'"
| delete: "delete_binding fl m t = (err, t') \<Longrightarrow> binding_step allowed t t'"
| by_image: "delete_bindings_by_image fl i t = (cnt, t') \<Longrightarrow> binding_step allowed t t'"
| by_profile: "delete_bindings_by_profile fl i t = (cnt, t') \<Longrightarrow> binding_step allowed t t'"
| clear: "clear_desired_state fl now m actor t = (err, t') \<Longrightarrow> binding_step allowed t t'"

text \<open>The three kinds of change behind the calls.\<close>

lemma set_sql_upsert:
  "set (sql_upsert_binding b t) = insert b {q \<in> set t. bd_machine q \<noteq> bd_machine b}"
  by (auto simp: sql_upsert_binding_def set_upd_where)

lemma keyed_sql_upsert: "keyed bd_machine t \<Longrightarrow> keyed bd_machine (sql_upsert_binding b t)"
  by (auto simp: sql_upsert_binding_def intro!: keyed_upd keyed_ins)

definition disarm :: "string \<Rightarrow> string \<Rightarrow> time \<Rightarrow> binding list \<Rightarrow> binding list" where
  "disarm m actor now t =
    upd_where (\<lambda>b. bd_machine b = m \<and> bd_desired b \<noteq> ''none'')
      (\<lambda>b. b\<lparr>bd_desired := ''none'', bd_updated := unix now, bd_updated_by := actor\<rparr>) t"

lemma clear_desired_state_cases:
  assumes "clear_desired_state fl now m0 actor t = (err, t')"
  obtains (refused) e where "err = Some e" "t' = t"
  | (disarmed) m where "err = None" "bind_machine_uuid m0 = Inr m" "actor \<noteq> []" "t' = disarm m actor now t"
  using assms by (auto simp: clear_desired_state_def disarm_def split: sum.splits option.splits if_splits)

lemma binding_step_cases:
  assumes "binding_step allowed t t'"
  obtains (written) enc pr fl now ct inp ck b where "upsert_row enc pr fl now ct inp t ck b" "allowed inp t"
      "t' = sql_upsert_binding b t"
  | (removed) p where "t' = del_where p t"
  | (disarmed) m actor now where "actor \<noteq> []" "t' = disarm m actor now t"
proof -
  have same: "t = del_where (\<lambda>_. False) t" by (simp add: del_where_def)
  from assms show thesis
  proof cases
    case (upsert enc pr fl now ct inp res)
    from upsert(1) show thesis
      by (cases rule: upsert_binding_cases) (use same removed upsert(2) written in metis)+
  next
    case (delete fl m err)
    then show thesis
      using same removed by (auto simp: delete_binding_def split: sum.splits option.splits if_splits)
  next
    case (clear fl now m actor err)
    then show thesis
      by (cases rule: clear_desired_state_cases) (use same removed disarmed in metis)+
  qed (use same removed in \<open>auto simp: delete_bindings_by_image_def delete_bindings_by_profile_def
        split: option.splits\<close>)
qed

lemma binding_ok_disarm: "binding_ok b \<Longrightarrow> actor \<noteq> [] \<Longrightarrow>
   binding_ok (b\<lparr>bd_desired := ''none'', bd_updated := u, bd_updated_by := actor\<rparr>)"
  by (simp add: binding_ok_def valid_desired_states_def)

lemma binding_step_ok:
  assumes "binding_step allowed t t'" and ok: "bindings_ok t"
  shows "bindings_ok t'"
  using assms(1)
proof (cases rule: binding_step_cases)
  case written
  then show ?thesis
    using ok upsert_row_ok [OF written(1)] by (auto simp: bindings_ok_def set_sql_upsert intro: keyed_sql_upsert)
next
  case removed
  then show ?thesis using ok by (auto simp: bindings_ok_def)
next
  case (disarmed m actor now)
  then show ?thesis
    using ok by (auto simp: bindings_ok_def disarm_def set_upd_where intro!: keyed_upd binding_ok_disarm)
qed

interpretation binding_steps: transition_system "binding_step allowed" bindings_ok
  by unfold_locales (rule binding_step_ok)

lemma bindings_ok_Nil [simp]: "bindings_ok []"
  by (simp add: bindings_ok_def)

subsection \<open>Distinct addresses\<close>

definition distinct_addresses :: "binding list \<Rightarrow> bool" where
  "distinct_addresses t \<longleftrightarrow>
    (\<forall>b \<in> set t. \<forall>q \<in> set t. bd_address b \<noteq> [] \<and> bd_address b = bd_address q \<longrightarrow> bd_machine b = bd_machine q)"

lemma distinct_addressesD:
  "distinct_addresses t \<Longrightarrow> b \<in> set t \<Longrightarrow> q \<in> set t \<Longrightarrow> bd_address b = bd_address q \<Longrightarrow> bd_address b \<noteq> [] \<Longrightarrow>
   bd_machine b = bd_machine q"
  unfolding distinct_addresses_def by blast

text \<open>A typed-in address that another machine already has.\<close>

definition typed_address_free :: "upsert_input \<Rightarrow> binding list \<Rightarrow> bool" where
  "typed_address_free inp t \<longleftrightarrow>
    list_all (\<lambda>b. bd_machine b = lower_trim (ui_machine inp)
      \<or> validate_static_address (ui_address inp) ''static'' \<noteq> Inr (bd_address b) \<or> bd_address b = []) t"

lemma bind_machine_uuid_canonical: "bind_machine_uuid u0 = Inr u \<Longrightarrow> u = lower_trim u0"
  by (simp add: bind_machine_uuid_def Let_def split: if_splits)

lemma resolve_address_unclaimed:
  assumes r: "resolve_address pr fl now ct ck sid t = Some (Inr a)" "a \<noteq> []"
    and q: "q \<in> set t" "bd_machine q \<noteq> ck_machine ck" "bd_address q = a"
    and free: "ck_address ck = a \<Longrightarrow> False" and d: "distinct_addresses t"
  shows False
proof -
  from r(1) free obtain cidr gw where
    "allocate_ip (\<lambda>k. fl (10 + k)) now pr (alloc_site_of ct t) (ck_machine ck) cidr gw = Some (Inr a)"
    by (cases rule: resolve_address_cases) blast+
  from allocated_unclaimed [OF this] have "a = own_address (alloc_site_of ct t) (ck_machine ck)
      \<or> (bd_machine q, a) \<notin> set (as_addresses (alloc_site_of ct t))"
    using q(2) by blast
  moreover have "(bd_machine q, a) \<in> set (as_addresses (alloc_site_of ct t))"
    using q(1,3) by (auto simp: alloc_site_of_def)
  ultimately have own: "a = own_address (alloc_site_of ct t) (ck_machine ck)" by blast
  show False
  proof (cases rule: own_address_cases [of ct t "ck_machine ck"])
    case 1
    then show ?thesis using own r(2) by simp
  next
    case (2 b)
    then show ?thesis using distinct_addressesD [OF d 2(1) q(1)] own q r(2) by simp
  qed
qed

lemma typed_address_no_clash:
  assumes "typed_address_free inp t" "check_input fl ct inp = Inr ck"
    and "q \<in> set t" "bd_machine q \<noteq> ck_machine ck" "bd_address q \<noteq> []"
  shows "ck_address ck \<noteq> bd_address q"
proof
  assume a: "ck_address ck = bd_address q"
  have v: "validate_static_address (ui_address inp) (ck_method ck) = Inr (bd_address q)"
    using check_input_ok(3) [OF assms(2)] a by simp
  then have "ck_method ck = ''static''"
    using assms(5) by (auto simp: validate_static_address_def Let_def split: if_splits)
  moreover have "ck_machine ck = lower_trim (ui_machine inp)"
    using check_input_ok(6) [OF assms(2)] by (rule bind_machine_uuid_canonical)
  ultimately show False
    using assms(1,3,4,5) v by (auto simp: typed_address_free_def list_all_iff)
qed

lemma upsert_keeps_distinct:
  assumes row: "upsert_row enc pr fl now ct inp t ck b" and free: "typed_address_free inp t" and d: "distinct_addresses t"
  shows "distinct_addresses (sql_upsert_binding b t)"
proof -
  have ck: "check_input fl ct inp = Inr ck"
    and r: "resolve_address pr fl now ct ck (bd_subnet b) t = Some (Inr (bd_address b))"
    using row by (simp_all add: upsert_row_def Let_def)
  have m: "bd_machine b = ck_machine ck" by (rule upsert_row_machine [OF row])
  have new: "bd_address b \<noteq> bd_address q" if q: "q \<in> set t" "bd_machine q \<noteq> bd_machine b" "bd_address b \<noteq> []" for q
  proof
    assume same: "bd_address b = bd_address q"
    have "ck_address ck \<noteq> bd_address q"
      by (rule typed_address_no_clash [OF free ck q(1)]) (use q m same in auto)
    then show False
      using resolve_address_unclaimed [OF r q(3,1) _ _ _ d] q(2) m same by auto
  qed
  show ?thesis
    unfolding distinct_addresses_def set_sql_upsert
    using d new unfolding distinct_addresses_def by (metis (no_types, lifting) insertE mem_Collect_eq)
qed

lemma distinct_addresses_Nil: "distinct_addresses []"
  by (simp add: distinct_addresses_def)

lemma distinct_addresses_step:
  assumes "binding_step typed_address_free t t'" "distinct_addresses t"
  shows "distinct_addresses t'"
  using assms(1)
proof (cases rule: binding_step_cases)
  case written
  then show ?thesis using upsert_keeps_distinct [OF written(1,2) assms(2)] by simp
next
  case (removed p)
  then show ?thesis using assms(2) unfolding distinct_addresses_def by auto
next
  case (disarmed m actor now)
  have row: "\<exists>r \<in> set t. bd_machine r = bd_machine q \<and> bd_address r = bd_address q" if "q \<in> set t'" for q
    using that disarmed(2) by (auto simp: disarm_def set_upd_where)
  show ?thesis
    unfolding distinct_addresses_def using row distinct_addressesD [OF assms(2)] by metis
qed

subsection \<open>Properties\<close>

text \<open>The overrides a request leaves out are those of the row that was there.\<close>

definition kept_overrides :: "upsert_input \<Rightarrow> binding \<Rightarrow> binding \<Rightarrow> bool" where
  "kept_overrides inp old b \<longleftrightarrow>
    (ui_subnet inp = None \<longrightarrow> bd_subnet b = bd_subnet old)
    \<and> (ui_vlan inp = None \<longrightarrow> bd_vlan b = bd_vlan old)
    \<and> (ui_nic inp = None \<longrightarrow> bd_nic b = bd_nic old)
    \<and> (ui_hostname inp = None \<longrightarrow> bd_hostname b = bd_hostname old)
    \<and> (ui_agent inp = None \<longrightarrow> bd_agent b = bd_agent old)
    \<and> (ui_keys inp = None \<longrightarrow> bd_keys b = bd_keys old)
    \<and> (ui_password inp = None \<longrightarrow> bd_password b = bd_password old)
    \<and> (ui_target_disk inp = KeepRaw \<longrightarrow> bd_target_disk b = bd_target_disk old)
    \<and> (ui_bond inp = KeepRaw \<longrightarrow> bd_bond b = bd_bond old)"

text \<open>
  C15: The table of assignments stays well formed: whatever requests are made and wherever the
  database fails, a machine has one assignment, and every stored identifier, address, host name,
  VLAN, interface selector, bond, target disk and key list has the canonical form its validator
  accepts.
\<close>

theorem assignments_stay_valid:
  assumes "(binding_step allowed)\<^sup>*\<^sup>* [] t"
  shows "keyed bd_machine t \<and> (\<forall>b \<in> set t. binding_ok b)"
  using binding_steps.reach_inv [OF assms] by (simp add: bindings_ok_def)

text \<open>
  C14: No two machines get one static address: as long as no administrator types in an address
  another machine has, the non-empty addresses of the assignments are pairwise distinct, whether
  they were typed in, allocated or kept.
\<close>

theorem addresses_stay_distinct:
  assumes "(binding_step typed_address_free)\<^sup>*\<^sup>* [] t"
    and "b \<in> set t" "q \<in> set t" "bd_address b \<noteq> []" "bd_address b = bd_address q"
  shows "b = q"
proof -
  have "distinct_addresses t"
    using assms(1) bindings_ok_Nil distinct_addresses_Nil
    by (rule binding_steps.reach_property [where P = distinct_addresses]) (rule distinct_addresses_step)
  then have "bd_machine b = bd_machine q" using assms(2-5) by (intro distinct_addressesD)
  moreover have "keyed bd_machine t"
    using binding_steps.reach_inv [OF assms(1)] by (simp add: bindings_ok_def)
  ultimately show ?thesis using assms(2,3) keyed_unique by metis
qed

text \<open>
  C16: An assignment request changes the machine's own row only: a refusal changes nothing, a success
  returns the stored row, and each override the request leaves out (subnet, VLAN, interface, host
  name, agent, keys, password, target disk, bond) is the one the row had.
\<close>

theorem assignment_changes_what_it_names:
  assumes "upsert_binding enc pr fl now ct inp t = Some (res, t')" and "keyed bd_machine t" and "fl 16 = None"
  shows "case res of Inl e \<Rightarrow> t' = t
    | Inr b \<Rightarrow> b \<in> set t' \<and> bd_machine b = lower_trim (ui_machine inp) \<and> bd_updated b = unix now
        \<and> (\<forall>q. bd_machine q \<noteq> bd_machine b \<longrightarrow> (q \<in> set t' \<longleftrightarrow> q \<in> set t))
        \<and> (\<forall>old \<in> set t. bd_machine old = bd_machine b \<longrightarrow> kept_overrides inp old b)"
  using assms(1)
proof (cases rule: upsert_binding_cases)
  case refused
  then show ?thesis by simp
next
  case (written ck b)
  let ?ex = "sel_row (\<lambda>b. bd_machine b = ck_machine ck) t"
  have ck: "check_input fl ct inp = Inr ck" and k: "resolve_keys fl ct ck ?ex = Inr (bd_keys b)"
    and s: "resolve_subnet fl ct inp ?ex = Inr (bd_subnet b)"
    and row: "resolve_row enc fl now inp ck ?ex (bd_keys b) (bd_subnet b) (bd_address b) = Inr b"
    using written(1) by (simp_all add: upsert_row_def Let_def)
  note f = resolve_row_fields [OF row]
  have stored: "sel_row (\<lambda>q. bd_machine q = bd_machine b) t' = Some b"
    using keyed_sel [of bd_machine t' b] keyed_sql_upsert [OF assms(2)] written(2) by (auto simp: set_sql_upsert)
  have host: "ui_hostname inp = None \<Longrightarrow> ck_hostname ck = None" and keys: "ui_keys inp = None \<Longrightarrow> ck_keys ck = None"
    using check_input_ok(4,5) [OF ck] by (auto simp: opt_then_Inr)
  have old: "?ex = Some old" if "old \<in> set t" "bd_machine old = bd_machine b" for old
    using keyed_sel [OF assms(2) that(1)] that(2) f(1) by simp
  have "bd_machine b = lower_trim (ui_machine inp)"
    using bind_machine_uuid_canonical [OF check_input_ok(6) [OF ck]] f(1) by simp
  moreover have "bd_updated b = unix now" by (rule f(10))
  moreover have "bd_machine q \<noteq> bd_machine b \<longrightarrow> (q \<in> set t' \<longleftrightarrow> q \<in> set t)" for q
    using written(2) by (auto simp: set_sql_upsert)
  moreover have "b \<in> set t'" using written(2) by (simp add: set_sql_upsert)
  moreover have "kept_overrides inp old b" if "old \<in> set t" "bd_machine old = bd_machine b" for old
    using old [OF that] f(8,9,13-17) k s host keys
    by (auto simp: kept_overrides_def kept_def resolve_password_def resolve_override_def resolve_keys_def resolve_subnet_def)
  ultimately show ?thesis
    using written(3) stored assms(3) by (simp add: fetch_binding_def)
qed

subsection \<open>Witnesses and counterexamples\<close>

definition hex_id :: "char \<Rightarrow> string" where
  "hex_id c = replicate 32 c"

definition machine_id :: "char \<Rightarrow> string" where
  "machine_id c = replicate 8 c @ ''-'' @ replicate 4 c @ ''-'' @ replicate 4 c @ ''-'' @ replicate 4 c @ ''-''
     @ replicate 12 c"

definition sample_catalog :: catalog where
  "sample_catalog =
    \<lparr>ct_machines = [(machine_id CHR ''1'', None), (machine_id CHR ''2'', Some ''x86_64'')],
     ct_images = [\<lparr>im_id = hex_id CHR ''a'', im_family = Some ''ubuntu'', im_arch = Some ''amd64''\<rparr>],
     ct_profiles = [\<lparr>pf_id = hex_id CHR ''b'', pf_method = Some ''static'', pf_os_family = None\<rparr>],
     ct_subnets = [\<lparr>sn_id = hex_id CHR ''c'', sn_name = ''lab'', sn_description = [], sn_cidr = ''10.0.1.0/29'',
                    sn_gateway = ''10.0.1.1'', sn_dns = [], sn_vlan = 0, sn_ranges = [], sn_created = 0,
                    sn_updated = 0, sn_created_by = ''root'', sn_updated_by = ''root''\<rparr>],
     ct_keys = [], ct_leases = [], ct_settings = [], ct_own_ips = [''10.0.1.2'']\<rparr>"

definition sample_request :: "char \<Rightarrow> string \<Rightarrow> upsert_input" where
  "sample_request c addr =
    \<lparr>ui_machine = machine_id c, ui_image = hex_id CHR ''a'', ui_profile = hex_id CHR ''b'', ui_desired = ''install'',
     ui_address = addr, ui_hostname = Some ''node'', ui_password = None, ui_target_disk = KeepRaw, ui_bond = KeepRaw,
     ui_subnet = Some (hex_id CHR ''c''), ui_vlan = None, ui_nic = None, ui_agent = Some False, ui_keys = None,
     ui_updated_by = ''root''\<rparr>"

definition sample_binding :: "char \<Rightarrow> string \<Rightarrow> binding" where
  "sample_binding c addr =
    \<lparr>bd_machine = machine_id c, bd_image = hex_id CHR ''a'', bd_profile = hex_id CHR ''b'', bd_desired = ''install'',
     bd_address = addr, bd_hostname = ''node'', bd_password = [], bd_target_disk = None, bd_bond = None,
     bd_subnet = hex_id CHR ''c'', bd_vlan = 0, bd_nic = [], bd_agent = Some False, bd_keys = [], bd_updated = 0,
     bd_updated_by = ''root''\<rparr>"

lemma sample_first:
  "upsert_binding None None no_faults 0 sample_catalog (sample_request CHR ''1'' []) []
    = Some (Inr (sample_binding CHR ''1'' ''10.0.1.3''), [sample_binding CHR ''1'' ''10.0.1.3''])"
  by code_simp

lemma sample_second:
  "upsert_binding None None no_faults 0 sample_catalog (sample_request CHR ''2'' []) [sample_binding CHR ''1'' ''10.0.1.3'']
    = Some (Inr (sample_binding CHR ''2'' ''10.0.1.4''),
        [sample_binding CHR ''1'' ''10.0.1.3'', sample_binding CHR ''2'' ''10.0.1.4''])"
  by code_simp

definition sample_table :: "binding list" where
  "sample_table = [sample_binding CHR ''1'' ''10.0.1.3'', sample_binding CHR ''2'' ''10.0.1.4'']"

lemma sample_reach: "(binding_step typed_address_free)\<^sup>*\<^sup>* [] sample_table"
proof -
  have "typed_address_free (sample_request CHR ''1'' []) []"
    "typed_address_free (sample_request CHR ''2'' []) [sample_binding CHR ''1'' ''10.0.1.3'']"
    by code_simp+
  then show ?thesis
    unfolding sample_table_def
    using binding_step.upsert [OF sample_first, of typed_address_free]
      binding_step.upsert [OF sample_second, of typed_address_free]
    by (meson converse_rtranclp_into_rtranclp r_into_rtranclp)
qed

lemma assignments_stay_valid_witness: "keyed bd_machine sample_table \<and> binding_ok (sample_binding CHR ''2'' ''10.0.1.4'')"
  using assignments_stay_valid [OF sample_reach] by (simp add: sample_table_def)

lemma addresses_stay_distinct_witness:
  "hd sample_table = sample_binding CHR ''1'' ''10.0.1.3''"
  using addresses_stay_distinct [OF sample_reach, of "sample_binding CHR ''1'' ''10.0.1.3''" "hd sample_table"]
  by (simp add: sample_table_def sample_binding_def)

lemma assignment_changes_what_it_names_witness:
  "sample_binding CHR ''1'' ''10.0.1.3'' \<in> set sample_table"
proof -
  have "keyed bd_machine [sample_binding CHR ''1'' ''10.0.1.3'']" by (simp add: keyed_def)
  from assignment_changes_what_it_names [OF sample_second this] show ?thesis
    by (simp add: sample_table_def)
qed

text \<open>The address a request types in is checked against the subnet, not against the other machines.\<close>

theorem typed_address_given_twice:
  "upsert_binding None None no_faults 0 sample_catalog (sample_request CHR ''2'' ''10.0.1.3'')
      [sample_binding CHR ''1'' ''10.0.1.3'']
    = Some (Inr (sample_binding CHR ''2'' ''10.0.1.3''),
        [sample_binding CHR ''1'' ''10.0.1.3'', sample_binding CHR ''2'' ''10.0.1.3''])"
  by code_simp

end
