(* ===== verification/Orchestrator.thy ===== *)
theory Orchestrator
  imports Job_Store Binding_Store
begin

text \<open>
  \<open>internal/jobs/orchestrator.go\<close>: the reconciliation loop. The state holds the job tables, the
  assignments, the report bodies and the commands sent to the management controllers so far. The
  other side of the interfaces is the argument \<open>env\<close>: the credentials of a machine, the answer to a
  command, the clock, the identifiers drawn and the failures of the driver, per call of the loop.
  A call is named by its machine (or by its job, when a finished job is wrapped up) and its place in
  the code. A query that iterates while its rows are processed reads a snapshot; the scan for install
  requests has no \<open>ORDER BY\<close> and is taken in table order.
\<close>

subsection \<open>State and environment\<close>

record bmc_cred =
  cr_ip :: string
  cr_port :: int
  cr_username :: string
  cr_password :: string
  cr_interface :: string

datatype bmc_command = BootForPXE | FinalizeBootDisk

datatype orch_call =
    CallCreate
  | CallLive
  | CallClaim
  | CallStage
  | CallFail
  | CallClear
  | CallLog nat

record orch_env =
  oe_creds :: "(string \<Rightarrow> (string, bmc_cred) result) option"
  oe_ipmi :: "(bmc_command \<Rightarrow> bmc_cred \<Rightarrow> string option) option"
  oe_bindings :: bool
  oe_clock :: "string \<Rightarrow> orch_call \<Rightarrow> time"
  oe_new_id :: "string \<Rightarrow> (string, string) result"
  oe_faults :: "string \<Rightarrow> orch_call \<Rightarrow> faults"
  oe_scan :: faults

record orch_config =
  oc_tick :: int
  oc_actor :: string
  oc_freshness :: int

record orch_state =
  or_jobs :: jobs_db
  or_bindings :: "binding list"
  or_reports :: "(int \<times> string) list"
  or_commands :: "(string \<times> bmc_command \<times> bmc_cred) list"

definition new_orchestrator :: "orch_config \<Rightarrow> orch_config" where
  "new_orchestrator cfg =
    cfg\<lparr>oc_tick := (if oc_tick cfg \<le> 0 then 5 * second else oc_tick cfg),
        oc_actor := (if oc_actor cfg = [] then ''orchestrator'' else oc_actor cfg),
        oc_freshness := (if oc_freshness cfg \<le> 0 then 90 * second else oc_freshness cfg)\<rparr>"

text \<open>\<open>sanitize\<close>: every occurrence of the secret becomes three asterisks.\<close>

definition sanitize :: "string \<Rightarrow> string \<Rightarrow> string" where
  "sanitize msg secret = (if secret = [] then msg else replace_all secret ''***'' msg)"

subsection \<open>Calls of the stores\<close>

definition orch_log :: "orch_env \<Rightarrow> string \<Rightarrow> nat \<Rightarrow> string \<Rightarrow> string \<Rightarrow> string \<Rightarrow> orch_state \<Rightarrow> orch_state" where
  "orch_log env k n i level msg st =
    st\<lparr>or_jobs := snd (append_log (oe_faults env k (CallLog n)) (oe_clock env k (CallLog n)) i level msg (or_jobs st))\<rparr>"

definition orch_claim :: "orch_env \<Rightarrow> string \<Rightarrow> string \<Rightarrow> orch_state \<Rightarrow> orch_state" where
  "orch_claim env k i st =
    st\<lparr>or_jobs := snd (claim_job (oe_faults env k CallClaim) (oe_clock env k CallClaim) i (or_jobs st))\<rparr>"

definition orch_stage :: "orch_env \<Rightarrow> string \<Rightarrow> string \<Rightarrow> string \<Rightarrow> orch_state \<Rightarrow> orch_state" where
  "orch_stage env k i s st =
    st\<lparr>or_jobs := snd (update_stage (oe_faults env k CallStage) i s (or_jobs st))\<rparr>"

definition orch_fail :: "orch_env \<Rightarrow> string \<Rightarrow> string \<Rightarrow> string \<Rightarrow> orch_state \<Rightarrow> orch_state" where
  "orch_fail env k i msg st =
    st\<lparr>or_jobs := snd (fail_job (oe_faults env k CallFail) (oe_clock env k CallFail) i msg (or_jobs st))\<rparr>"

subsection \<open>Starting a job\<close>

definition machine_in_live :: "orch_env \<Rightarrow> orch_config \<Rightarrow> string \<Rightarrow> orch_state \<Rightarrow> bool" where
  "machine_in_live env cfg m st =
    (case (oe_faults env m CallLive 0, sel_row (\<lambda>r. mc_uuid r = m) (db_machines (or_jobs st))) of
       (None, Some r) \<Rightarrow>
         (let body = (case mc_latest_report r of
                None \<Rightarrow> []
              | Some k \<Rightarrow> (case map_of (or_reports st) k of None \<Rightarrow> [] | Some b \<Rightarrow> b)) in
          \<not> oc_freshness cfg < oe_clock env m CallLive - from_unix (mc_last_seen r)
          \<and> contains_sub (CHR 0x22 # ''kernel_cmdline'' @ [CHR 0x22]) body \<and> contains_sub ''boot=live'' body)
     | _ \<Rightarrow> False)"

text \<open>What follows the creation of the job with identifier \<open>i\<close>.\<close>

definition boot_machine ::
  "orch_env \<Rightarrow> string \<Rightarrow> string \<Rightarrow> bmc_cred \<Rightarrow> (bmc_command \<Rightarrow> bmc_cred \<Rightarrow> string option) \<Rightarrow> orch_state \<Rightarrow> orch_state"
where
  "boot_machine env m i cred ipmi st =
    (let st1 = orch_log env m 0 i ''info'' ''issuing IPMI bootdev=pxe + power cycle'' st;
         st2 = st1\<lparr>or_commands := or_commands st1 @ [(m, BootForPXE, cred)]\<rparr>
     in case ipmi BootForPXE cred of
       Some e \<Rightarrow>
         orch_fail env m i (''ipmi reboot failed: '' @ e)
           (orch_log env m 1 i ''error'' (''ipmi reboot failed: '' @ sanitize e (cr_password cred)) st2)
     | None \<Rightarrow>
         orch_log env m 1 i ''info'' ''PXE boot initiated; waiting for agent''
           (orch_stage env m i ''pxe_booting'' (orch_claim env m i st2)))"

definition dispatch_job :: "orch_env \<Rightarrow> orch_config \<Rightarrow> string \<Rightarrow> string \<Rightarrow> orch_state \<Rightarrow> orch_state" where
  "dispatch_job env cfg m i st =
    (if machine_in_live env cfg m st then
       orch_log env m 0 i ''info'' ''machine already in live system; dispatching job to local agent (no reboot)''
         (orch_stage env m i ''waiting_agent'' (orch_claim env m i st))
     else case (oe_creds env, oe_ipmi env) of
       (Some creds, Some ipmi) \<Rightarrow>
         (case creds m of
            Inl e \<Rightarrow>
              orch_fail env m i (''BMC credentials missing: '' @ e)
                (orch_log env m 0 i ''error'' (''BMC credentials missing: '' @ e) st)
          | Inr cred \<Rightarrow> boot_machine env m i cred ipmi st)
     | _ \<Rightarrow> orch_log env m 0 i ''info'' ''job created; awaiting agent (no IPMI configured)'' st)"

definition start_job_for_binding :: "orch_env \<Rightarrow> orch_config \<Rightarrow> binding \<Rightarrow> orch_state \<Rightarrow> orch_state" where
  "start_job_for_binding env cfg b st =
    (let m = bd_machine b in
     case create_job (oe_faults env m CallCreate) (oe_clock env m CallCreate) (oe_new_id env m)
            \<lparr>jc_machine = m, jc_type = bd_desired b, jc_image = bd_image b, jc_profile = bd_profile b,
             jc_created_by = oc_actor cfg, jc_retry = []\<rparr> (or_jobs st) of
       (Inl e, db) \<Rightarrow> st\<lparr>or_jobs := db\<rparr>
     | (Inr j, db) \<Rightarrow> dispatch_job env cfg m (jb_id j) (st\<lparr>or_jobs := db\<rparr>))"

definition armed_states :: "string list" where
  "armed_states = [''install'', ''reinstall'']"

text \<open>A job that answers the current revision of the assignment, or will.\<close>

definition blocks_install :: "binding \<Rightarrow> job \<Rightarrow> bool" where
  "blocks_install b j \<longleftrightarrow>
    jb_machine j = bd_machine b
    \<and> (in_flight j \<or> terminal (jb_status j)
         \<and> (bd_updated b \<le> jb_created j
            \<or> (case jb_finished j of None \<Rightarrow> False | Some f \<Rightarrow> bd_updated b \<le> f)))"

definition install_requests :: "orch_state \<Rightarrow> binding list" where
  "install_requests st =
    filter (\<lambda>b. bd_desired b \<in> set armed_states \<and> \<not> list_ex (blocks_install b) (db_jobs (or_jobs st)))
      (or_bindings st)"

definition handle_install_requests :: "orch_env \<Rightarrow> orch_config \<Rightarrow> orch_state \<Rightarrow> orch_state" where
  "handle_install_requests env cfg st =
    (case oe_scan env 0 of
       Some msg \<Rightarrow> st
     | None \<Rightarrow> fold (start_job_for_binding env cfg) (install_requests st) st)"

subsection \<open>Wrapping up\<close>

definition finalize_machine ::
  "orch_env \<Rightarrow> orch_config \<Rightarrow> (string \<Rightarrow> (string, bmc_cred) result) \<Rightarrow>
   (bmc_command \<Rightarrow> bmc_cred \<Rightarrow> string option) \<Rightarrow> string \<times> string \<Rightarrow> orch_state \<Rightarrow> orch_state"
where
  "finalize_machine env cfg creds ipmi im st =
    (let i = fst im; m = snd im in
     case creds m of
       Inl e \<Rightarrow> st
     | Inr cred \<Rightarrow>
       (let st1 = st\<lparr>or_commands := or_commands st @ [(m, FinalizeBootDisk, cred)]\<rparr> in
        case ipmi FinalizeBootDisk cred of
          Some e \<Rightarrow>
            orch_log env i 0 i ''warn'' (''post-install bootdev=disk failed: '' @ sanitize e (cr_password cred)) st1
        | None \<Rightarrow>
          (case clear_desired_state (oe_faults env i CallClear) (oe_clock env i CallClear) m (oc_actor cfg)
                  (or_bindings st1) of
             (Some e, t) \<Rightarrow> st1\<lparr>or_bindings := t\<rparr>
           | (None, t) \<Rightarrow>
             orch_log env i 0 i ''info'' ''post-install bootdev=disk + power cycle issued; binding cleared''
               (st1\<lparr>or_bindings := t\<rparr>))))"

text \<open>The join of the succeeded jobs with the assignments they answer, latest first.\<close>

definition wraps_up :: "job \<Rightarrow> binding \<Rightarrow> bool" where
  "wraps_up j b \<longleftrightarrow>
    bd_machine b = jb_machine j \<and> jb_status j = Succeeded \<and> bd_desired b \<in> set armed_states
    \<and> (case jb_finished j of None \<Rightarrow> False | Some f \<Rightarrow> bd_updated b \<le> f)"

definition finished_installs :: "orch_state \<Rightarrow> (string \<times> string) list" where
  "finished_installs st =
    map (\<lambda>j. (jb_id j, jb_machine j))
      (sort_key (\<lambda>j. case jb_finished j of None \<Rightarrow> 0 | Some f \<Rightarrow> - f)
        (concat (map (\<lambda>j. map (\<lambda>b. j) (filter (wraps_up j) (or_bindings st))) (db_jobs (or_jobs st)))))"

definition handle_succeeded_jobs :: "orch_env \<Rightarrow> orch_config \<Rightarrow> orch_state \<Rightarrow> orch_state" where
  "handle_succeeded_jobs env cfg st =
    (case (oe_creds env, oe_ipmi env) of
       (Some creds, Some ipmi) \<Rightarrow>
         (if \<not> oe_bindings env then st
          else case oe_scan env 1 of
            Some msg \<Rightarrow> st
          | None \<Rightarrow> fold (finalize_machine env cfg creds ipmi) (finished_installs st) st)
     | _ \<Rightarrow> st)"

definition tick :: "orch_env \<Rightarrow> orch_config \<Rightarrow> orch_state \<Rightarrow> orch_state" where
  "tick env cfg st = handle_succeeded_jobs env cfg (handle_install_requests env cfg st)"

subsection \<open>One job at a time\<close>

definition catalogs_same :: "jobs_db \<Rightarrow> jobs_db \<Rightarrow> bool" where
  "catalogs_same db db' \<longleftrightarrow>
    db_machines db' = db_machines db \<and> db_images db' = db_images db \<and> db_profiles db' = db_profiles db"

definition others_kept :: "string \<Rightarrow> jobs_db \<Rightarrow> jobs_db \<Rightarrow> bool" where
  "others_kept m db db' \<longleftrightarrow>
    (\<forall>r. jb_machine r \<noteq> m \<longrightarrow> (r \<in> set (db_jobs db') \<longleftrightarrow> r \<in> set (db_jobs db)))"

definition owned :: "string \<Rightarrow> string \<Rightarrow> jobs_db \<Rightarrow> bool" where
  "owned i m db \<longleftrightarrow> (\<forall>r \<in> set (db_jobs db). jb_id r = i \<longrightarrow> jb_machine r = m)"

text \<open>What a call for the job \<open>i\<close> of the machine \<open>m\<close> leaves alone.\<close>

definition acts_on :: "string \<Rightarrow> string \<Rightarrow> jobs_db \<Rightarrow> jobs_db \<Rightarrow> bool" where
  "acts_on m i db db' \<longleftrightarrow>
    (owned i m db \<longrightarrow> owned i m db' \<and> others_kept m db db') \<and> catalogs_same db db'
    \<and> job_ids (db_jobs db') = job_ids (db_jobs db) \<and> jobs_step\<^sup>*\<^sup>* db db'"

lemma acts_on_trans: "acts_on m i db db' \<Longrightarrow> acts_on m i db' db'' \<Longrightarrow> acts_on m i db db''"
  by (auto simp: acts_on_def catalogs_same_def others_kept_def)

lemma acts_on_update:
  assumes g: "guarded_update fl op i from f db = (e, db')"
    and f: "\<And>r. jb_id (f r) = jb_id r" "\<And>r. jb_machine (f r) = jb_machine r" and step: "jobs_step db db'"
  shows "acts_on m i db db'"
proof -
  have "job_ids (db_jobs db') = job_ids (db_jobs db)" by (rule guarded_update_ids [OF g f(1)])
  moreover have "owned i m db \<longrightarrow> owned i m db' \<and> others_kept m db db'"
    using g by (cases rule: guarded_update_cases) (auto simp: owned_def others_kept_def set_upd_where f)
  moreover have "catalogs_same db db'"
    using g by (cases rule: guarded_update_cases) (auto simp: catalogs_same_def)
  ultimately show ?thesis using step by (auto simp: acts_on_def)
qed

lemma acts_on_claim:
  assumes "hex32_match i"
  shows "acts_on m i db (snd (claim_job fl now i db))"
proof -
  obtain out db' where c: "claim_job fl now i db = (out, db')" by force
  obtain e db'' where g: "guarded_update fl ''claim job'' i [Pending]
      (\<lambda>r. r\<lparr>jb_status := Running, jb_started := Some (unix now)\<rparr>) db = (e, db'')" by force
  with c assms have "db'' = db'" by (auto simp: claim_job_def split: option.splits)
  from acts_on_update [OF g [unfolded this] _ _ jobs_step.claim [OF c], of m] show ?thesis by (simp add: c)
qed

lemma acts_on_stage:
  assumes "hex32_match i"
  shows "acts_on m i db (snd (update_stage fl i s db))"
proof (cases "validate_stage s")
  case (Inl e)
  then show ?thesis using assms by (simp add: update_stage_def acts_on_def catalogs_same_def others_kept_def)
next
  case (Inr t)
  obtain e db' where u: "update_stage fl i s db = (e, db')" by force
  then have "guarded_update fl ''update stage'' i [Running] (\<lambda>r. r\<lparr>jb_stage := t\<rparr>) db = (e, db')"
    using assms Inr by (simp add: update_stage_def)
  from acts_on_update [OF this _ _ jobs_step.stage [OF u], of m] show ?thesis by (simp add: u)
qed

lemma acts_on_fail:
  assumes "hex32_match i"
  shows "acts_on m i db (snd (fail_job fl now i msg db))"
proof -
  obtain e db' where u: "fail_job fl now i msg db = (e, db')" by force
  then have "guarded_update fl ''terminate job'' i [Pending, Running]
      (\<lambda>r. r\<lparr>jb_status := Failed, jb_error := validate_error msg, jb_finished := Some (unix now)\<rparr>) db = (e, db')"
    using assms by (simp add: fail_job_def terminate_job_def)
  from acts_on_update [OF this _ _ jobs_step.fail [OF u], of m] show ?thesis by (simp add: u)
qed

lemma append_log_rows: "db_jobs (snd (append_log fl now i level msg db)) = db_jobs db"
  by (auto simp: append_log_def try_sql_def split: sum.splits option.splits elim!: sql_insert_log_cases)

lemma acts_on_log: "acts_on m i db (snd (append_log fl now j level msg db))"
proof -
  obtain e db' where u: "append_log fl now j level msg db = (e, db')" by force
  have "catalogs_same db db'"
    using u by (auto simp: append_log_def try_sql_def catalogs_same_def
        split: sum.splits option.splits elim!: sql_insert_log_cases)
  then show ?thesis
    using append_log_rows [of fl now j level msg db] jobs_step.log [OF u] u
    by (auto simp: acts_on_def owned_def others_kept_def)
qed

text \<open>The same for the state of the loop: nothing but the job tables and the commands changes.\<close>

definition works_for :: "string \<Rightarrow> string \<Rightarrow> orch_state \<Rightarrow> orch_state \<Rightarrow> bool" where
  "works_for m i st st' \<longleftrightarrow>
    acts_on m i (or_jobs st) (or_jobs st') \<and> or_bindings st' = or_bindings st \<and> or_reports st' = or_reports st
    \<and> (\<exists>cs. or_commands st' = or_commands st @ cs \<and> list_all (\<lambda>c. fst c = m) cs)"

lemma works_for_refl [simp]: "works_for m i st st"
  by (simp add: works_for_def acts_on_def catalogs_same_def others_kept_def)

lemma works_for_trans: "works_for m i st st' \<Longrightarrow> works_for m i st' st'' \<Longrightarrow> works_for m i st st''"
  by (auto simp: works_for_def elim: acts_on_trans)

lemma acts_on_refl [simp]: "acts_on m i db db"
  by (simp add: acts_on_def catalogs_same_def others_kept_def)

lemma works_for_calls:
  "works_for m i st st' \<Longrightarrow> works_for m i st (orch_log env k n j level msg st')"
  "works_for m i st st' \<Longrightarrow> hex32_match i \<Longrightarrow> works_for m i st (orch_claim env k i st')"
  "works_for m i st st' \<Longrightarrow> hex32_match i \<Longrightarrow> works_for m i st (orch_stage env k i s st')"
  "works_for m i st st' \<Longrightarrow> hex32_match i \<Longrightarrow> works_for m i st (orch_fail env k i msg st')"
  "works_for m i st st' \<Longrightarrow> works_for m i st (st'\<lparr>or_commands := or_commands st' @ [(m, c)]\<rparr>)"
  by (erule works_for_trans,
      simp add: works_for_def orch_log_def orch_claim_def orch_stage_def orch_fail_def acts_on_log acts_on_claim
        acts_on_stage acts_on_fail)+

lemma works_for_dispatch: "hex32_match i \<Longrightarrow> works_for m i st (dispatch_job env cfg m i st)"
  unfolding dispatch_job_def boot_machine_def Let_def
  by (auto split: option.splits sum.splits intro!: works_for_calls)

subsection \<open>Jobs of other machines\<close>

definition ids_drawn :: "orch_env \<Rightarrow> bool" where
  "ids_drawn env \<longleftrightarrow> (\<forall>m i. oe_new_id env m = Inr i \<longrightarrow> hex32_match i)"

text \<open>Work during which the machine \<open>m\<close> is left alone.\<close>

definition quiet :: "string \<Rightarrow> orch_state \<Rightarrow> orch_state \<Rightarrow> bool" where
  "quiet m st st' \<longleftrightarrow>
    catalogs_same (or_jobs st) (or_jobs st') \<and> jobs_step\<^sup>*\<^sup>* (or_jobs st) (or_jobs st')
    \<and> (\<forall>r. jb_machine r = m \<longrightarrow> (r \<in> set (db_jobs (or_jobs st')) \<longleftrightarrow> r \<in> set (db_jobs (or_jobs st))))
    \<and> or_bindings st' = or_bindings st \<and> or_reports st' = or_reports st
    \<and> (\<exists>cs. or_commands st' = or_commands st @ cs \<and> list_all (\<lambda>c. fst c \<noteq> m) cs)"

lemma quiet_refl [simp]: "quiet m st st"
  by (simp add: quiet_def catalogs_same_def)

lemma quiet_trans: "quiet m st st' \<Longrightarrow> quiet m st' st'' \<Longrightarrow> quiet m st st''"
  by (auto simp: quiet_def catalogs_same_def)

lemma jobs_steps_ok: "jobs_step\<^sup>*\<^sup>* db db' \<Longrightarrow> jobs_ok db \<Longrightarrow> jobs_ok db'"
  by (induction rule: rtranclp_induct) (auto intro: jobs_effect_ok jobs_step_effect)

text \<open>What \<open>startJobForBinding\<close> creates before it goes on.\<close>

lemma start_job_cases:
  assumes ids: "ids_drawn env" and m: "smbios_uuid_match (bd_machine b)"
  obtains (refused) "start_job_for_binding env cfg b st = st"
  | (created) i r db where "oe_new_id env (bd_machine b) = Inr i" "hex32_match i" "i \<notin> job_ids (db_jobs (or_jobs st))"
      "jb_id r = i" "jb_machine r = bd_machine b" "jb_status r = Pending"
      "db = or_jobs st\<lparr>db_jobs := ins_row r (db_jobs (or_jobs st))\<rparr>" "jobs_step (or_jobs st) db"
      "start_job_for_binding env cfg b st = dispatch_job env cfg (bd_machine b) i (st\<lparr>or_jobs := db\<rparr>)"
proof -
  let ?inp = "\<lparr>jc_machine = bd_machine b, jc_type = bd_desired b, jc_image = bd_image b, jc_profile = bd_profile b,
     jc_created_by = oc_actor cfg, jc_retry = []\<rparr>"
  obtain out db where c: "create_job (oe_faults env (bd_machine b) CallCreate) (oe_clock env (bd_machine b) CallCreate)
      (oe_new_id env (bd_machine b)) ?inp (or_jobs st) = (out, db)" by force
  have hex: "oe_new_id env (bd_machine b) = Inr i \<Longrightarrow> hex32_match i" for i
    using ids by (simp add: ids_drawn_def)
  from c show thesis
  proof (cases rule: create_job_cases)
    case (refused e)
    then show thesis using c that(1) by (simp add: start_job_for_binding_def Let_def)
  next
    case (created u img prof ty retry i r)
    have u: "u = bd_machine b"
      using created(1) m by (simp add: create_fields_def split: sum.splits if_splits)
    have "jb_id r \<notin> job_ids (db_jobs (or_jobs st))"
      and ins: "db = or_jobs st\<lparr>db_jobs := ins_row r (db_jobs (or_jobs st))\<rparr>"
      by (rule sql_insert_job_cases [OF created(5)], assumption)+
    then have new: "i \<notin> job_ids (db_jobs (or_jobs st))" by (simp add: created(3))
    show thesis
    proof (rule that(2) [OF created(2) hex [OF created(2)] new])
      show "jobs_step (or_jobs st) db" by (rule jobs_step.create [OF c]) (rule hex)
      show "start_job_for_binding env cfg b st = dispatch_job env cfg (bd_machine b) i (st\<lparr>or_jobs := db\<rparr>)"
        using c created(3,4) by (simp add: start_job_for_binding_def Let_def)
    qed (simp_all add: created(3) u ins)
  qed
qed

lemma start_job_other:
  assumes "ids_drawn env" "smbios_uuid_match (bd_machine b)" and other: "bd_machine b \<noteq> m"
  shows "quiet m st (start_job_for_binding env cfg b st)
    \<and> job_ids (db_jobs (or_jobs (start_job_for_binding env cfg b st)))
        \<subseteq> job_ids (db_jobs (or_jobs st)) \<union> {i. oe_new_id env (bd_machine b) = Inr i}"
proof (cases rule: start_job_cases [OF assms(1,2), of cfg st])
  case 1
  then show ?thesis by simp
next
  case created: (2 i r db)
  let ?st = "dispatch_job env cfg (bd_machine b) i (st\<lparr>or_jobs := db\<rparr>)"
  have own: "owned i (bd_machine b) db"
    using created(3-5,7) by (auto simp: owned_def job_ids_def image_iff)
  have w: "works_for (bd_machine b) i (st\<lparr>or_jobs := db\<rparr>) ?st" by (rule works_for_dispatch [OF created(2)])
  have kept: "others_kept (bd_machine b) db (or_jobs ?st)" "catalogs_same db (or_jobs ?st)"
    "jobs_step\<^sup>*\<^sup>* db (or_jobs ?st)" "job_ids (db_jobs (or_jobs ?st)) = job_ids (db_jobs db)"
    using w own by (auto simp: works_for_def acts_on_def)
  have "catalogs_same (or_jobs st) (or_jobs ?st)"
    using kept(2) created(7) by (simp add: catalogs_same_def)
  moreover have "jobs_step\<^sup>*\<^sup>* (or_jobs st) (or_jobs ?st)"
    using created(8) kept(3) by (rule converse_rtranclp_into_rtranclp)
  moreover have "r' \<in> set (db_jobs (or_jobs ?st)) \<longleftrightarrow> r' \<in> set (db_jobs (or_jobs st))" if "jb_machine r' = m" for r'
    using kept(1) that other created(5,7) by (auto simp: others_kept_def)
  moreover have "\<exists>cs. or_commands ?st = or_commands st @ cs \<and> list_all (\<lambda>c. fst c \<noteq> m) cs"
    using w other by (auto simp: works_for_def list_all_iff)
  ultimately have "quiet m st ?st"
    using w by (simp add: quiet_def works_for_def)
  then show ?thesis
    using kept(4) created(1,4,7,9) by auto
qed

lemma start_jobs_other:
  assumes "ids_drawn env" and "\<forall>b \<in> set bs. smbios_uuid_match (bd_machine b) \<and> bd_machine b \<noteq> m"
  shows "quiet m st (fold (start_job_for_binding env cfg) bs st)
    \<and> job_ids (db_jobs (or_jobs (fold (start_job_for_binding env cfg) bs st)))
        \<subseteq> job_ids (db_jobs (or_jobs st)) \<union> {i. \<exists>b \<in> set bs. oe_new_id env (bd_machine b) = Inr i}"
  using assms(2)
proof (induction bs arbitrary: st)
  case (Cons b bs)
  let ?st = "start_job_for_binding env cfg b st"
  have "quiet m st ?st" "job_ids (db_jobs (or_jobs ?st)) \<subseteq> job_ids (db_jobs (or_jobs st)) \<union> {i. oe_new_id env (bd_machine b) = Inr i}"
    using start_job_other [OF assms(1), of b m st cfg] Cons.prems by auto
  moreover have "quiet m ?st (fold (start_job_for_binding env cfg) bs ?st)"
    "job_ids (db_jobs (or_jobs (fold (start_job_for_binding env cfg) bs ?st)))
        \<subseteq> job_ids (db_jobs (or_jobs ?st)) \<union> {i. \<exists>b \<in> set bs. oe_new_id env (bd_machine b) = Inr i}"
    using Cons.IH [of ?st] Cons.prems by auto
  ultimately show ?case
    by (auto intro: quiet_trans)
qed simp

text \<open>A machine whose assignment asks for nothing, or was already answered.\<close>

definition settled :: "string \<Rightarrow> orch_state \<Rightarrow> bool" where
  "settled m st \<longleftrightarrow>
    (\<forall>b \<in> set (or_bindings st). bd_machine b = m \<longrightarrow>
       bd_desired b \<notin> set armed_states \<or> (\<exists>j \<in> set (db_jobs (or_jobs st)). blocks_install b j))"

lemma install_requests_machines:
  "bindings_ok (or_bindings st) \<Longrightarrow> b \<in> set (install_requests st) \<Longrightarrow> smbios_uuid_match (bd_machine b)"
  by (auto simp: install_requests_def bindings_ok_def binding_ok_def)

lemma settled_not_requested: "settled m st \<Longrightarrow> b \<in> set (install_requests st) \<Longrightarrow> bd_machine b \<noteq> m"
  by (auto simp: settled_def install_requests_def list_ex_iff)

lemma install_requests_quiet:
  assumes "ids_drawn env" "bindings_ok (or_bindings st)" "settled m st"
  shows "quiet m st (handle_install_requests env cfg st)"
  using start_jobs_other [OF assms(1), of "install_requests st" m st cfg]
    install_requests_machines [OF assms(2)] settled_not_requested [OF assms(3)]
  by (auto simp: handle_install_requests_def split: option.splits)

subsection \<open>Wrapping up changes assignments only\<close>

definition any_request :: "upsert_input \<Rightarrow> binding list \<Rightarrow> bool" where
  "any_request inp t \<longleftrightarrow> True"

text \<open>The machine is not to be installed.\<close>

definition unarmed :: "string \<Rightarrow> binding list \<Rightarrow> bool" where
  "unarmed m t \<longleftrightarrow> (\<forall>b \<in> set t. bd_machine b = m \<longrightarrow> bd_desired b = ''none'')"

definition finalizes :: "orch_state \<Rightarrow> orch_state \<Rightarrow> bool" where
  "finalizes st st' \<longleftrightarrow>
    db_jobs (or_jobs st') = db_jobs (or_jobs st) \<and> jobs_step\<^sup>*\<^sup>* (or_jobs st) (or_jobs st')
    \<and> (binding_step any_request)\<^sup>*\<^sup>* (or_bindings st) (or_bindings st')
    \<and> map bd_machine (or_bindings st') = map bd_machine (or_bindings st)
    \<and> (\<forall>m. unarmed m (or_bindings st) \<longrightarrow> unarmed m (or_bindings st'))
    \<and> (\<exists>cs. or_commands st' = or_commands st @ cs \<and> list_all (\<lambda>c. fst (snd c) = FinalizeBootDisk) cs)"

lemma finalizes_refl [simp]: "finalizes st st"
  by (simp add: finalizes_def)

lemma finalizes_trans: "finalizes st st' \<Longrightarrow> finalizes st' st'' \<Longrightarrow> finalizes st st''"
  unfolding finalizes_def
proof (elim conjE exE, intro conjI, goal_cases)
  case (6 cs cs')
  then show ?case by (intro exI [of _ "cs @ cs'"]) simp
qed (simp, blast intro: rtranclp_trans, blast intro: rtranclp_trans, simp, blast)

lemma finalizes_log: "finalizes st st' \<Longrightarrow> finalizes st (orch_log env k n i level msg st')"
proof (erule finalizes_trans)
  obtain e db' where u: "append_log (oe_faults env k (CallLog n)) (oe_clock env k (CallLog n)) i level msg (or_jobs st')
      = (e, db')" by force
  then show "finalizes st' (orch_log env k n i level msg st')"
    using append_log_rows [of "oe_faults env k (CallLog n)" "oe_clock env k (CallLog n)" i level msg "or_jobs st'"]
      jobs_step.log [OF u]
    by (auto simp: finalizes_def orch_log_def)
qed

lemma finalizes_command:
  "finalizes st (st\<lparr>or_commands := or_commands st @ [(m, FinalizeBootDisk, cred)]\<rparr>)"
  by (simp add: finalizes_def)

lemma finalizes_clear:
  assumes "clear_desired_state fl now m actor (or_bindings st) = (err, t)"
  shows "finalizes st (st\<lparr>or_bindings := t\<rparr>)"
proof -
  have "binding_step any_request (or_bindings st) t"
    using assms by (rule binding_step.clear)
  moreover have "map bd_machine t = map bd_machine (or_bindings st)"
    using assms by (cases rule: clear_desired_state_cases) (auto simp: disarm_def map_upd_where)
  moreover have "unarmed k t" if "unarmed k (or_bindings st)" for k
    using assms that by (cases rule: clear_desired_state_cases) (auto simp: unarmed_def disarm_def set_upd_where)
  ultimately show ?thesis by (auto simp: finalizes_def)
qed

lemma finalize_machine_wraps: "finalizes st (finalize_machine env cfg creds ipmi im st)"
proof (cases "creds (snd im)")
  case (Inr cred)
  let ?st = "st\<lparr>or_commands := or_commands st @ [(snd im, FinalizeBootDisk, cred)]\<rparr>"
  obtain err t where c: "clear_desired_state (oe_faults env (fst im) CallClear) (oe_clock env (fst im) CallClear) (snd im)
      (oc_actor cfg) (or_bindings ?st) = (err, t)" by force
  have "finalizes st (?st\<lparr>or_bindings := t\<rparr>)"
    by (rule finalizes_trans [OF finalizes_command finalizes_clear [OF c]])
  then show ?thesis
    using Inr c by (auto simp: finalize_machine_def Let_def finalizes_command finalizes_log split: option.splits)
qed (simp add: finalize_machine_def Let_def)

lemma finalize_machines_wrap: "finalizes st (fold (finalize_machine env cfg creds ipmi) ims st)"
  by (induction ims arbitrary: st) (auto intro: finalizes_trans finalize_machine_wraps)

lemma handle_succeeded_wraps: "finalizes st (handle_succeeded_jobs env cfg st)"
  by (simp add: handle_succeeded_jobs_def finalize_machines_wrap split: option.splits)

subsection \<open>The requested machine\<close>

definition running :: "string \<Rightarrow> string \<Rightarrow> orch_state \<Rightarrow> bool" where
  "running i m st \<longleftrightarrow>
    (\<exists>r \<in> set (db_jobs (or_jobs st)). jb_id r = i \<and> jb_machine r = m \<and> jb_status r = Running)"

text \<open>The driver does not fail in the calls made for the machine.\<close>

definition reliable :: "orch_env \<Rightarrow> string \<Rightarrow> bool" where
  "reliable env m \<longleftrightarrow> (\<forall>c. oe_faults env m c = no_faults)"

lemma upd_where_hit: "r \<in> set t \<Longrightarrow> p r \<Longrightarrow> f r \<in> set (upd_where p f t)"
  by (auto simp: set_upd_where)

lemma machine_in_live_cong:
  assumes "db_machines (or_jobs st') = db_machines (or_jobs st)" "or_reports st' = or_reports st"
  shows "machine_in_live env cfg m st' = machine_in_live env cfg m st"
  unfolding machine_in_live_def assms ..

lemma running_log [simp]: "running i m (orch_log env k n j level msg st) \<longleftrightarrow> running i m st"
  by (simp add: running_def orch_log_def append_log_rows)

lemma running_stage:
  assumes "running i m st" "hex32_match i"
  shows "running i m (orch_stage env k i s st)"
proof (cases "validate_stage s")
  case (Inl e)
  then show ?thesis using assms by (simp add: running_def orch_stage_def update_stage_def)
next
  case (Inr t)
  obtain e db' where g: "guarded_update (oe_faults env k CallStage) ''update stage'' i [Running] (\<lambda>r. r\<lparr>jb_stage := t\<rparr>)
      (or_jobs st) = (e, db')" by force
  then have st': "or_jobs (orch_stage env k i s st) = db'"
    using assms(2) Inr by (simp add: orch_stage_def update_stage_def)
  obtain r where r: "r \<in> set (db_jobs (or_jobs st))" "jb_id r = i" "jb_machine r = m" "jb_status r = Running"
    using assms(1) by (auto simp: running_def)
  from g show ?thesis
    by (cases rule: guarded_update_cases)
      (use r st' in \<open>auto simp: running_def intro!: bexI [OF _ upd_where_hit [OF r(1)]]\<close>)
qed

lemma running_claim:
  assumes r: "r \<in> set (db_jobs (or_jobs st))" "jb_id r = i" "jb_machine r = m" "jb_status r = Pending"
    and "hex32_match i" "reliable env k"
  shows "running i m (orch_claim env k i st)"
proof -
  have "hits (\<lambda>q. jb_id q = i \<and> jb_status q = Pending) (db_jobs (or_jobs st)) \<noteq> 0"
    using r by (auto simp: hits_zero)
  then have "db_jobs (or_jobs (orch_claim env k i st)) =
      upd_where (\<lambda>q. jb_id q = i \<and> jb_status q = Pending)
        (\<lambda>r. r\<lparr>jb_status := Running, jb_started := Some (unix (oe_clock env k CallClaim))\<rparr>) (db_jobs (or_jobs st))"
    using assms(5,6) by (simp add: orch_claim_def claim_job_def guarded_update_def reliable_def Let_def)
  then show ?thesis
    using r by (auto simp: running_def intro!: bexI [OF _ upd_where_hit [OF r(1)]])
qed

lemma commands_of_calls [simp]:
  "or_commands (orch_log env k n j level msg st) = or_commands st"
  "or_commands (orch_claim env k i st) = or_commands st"
  "or_commands (orch_stage env k i s st) = or_commands st"
  by (simp_all add: orch_log_def orch_claim_def orch_stage_def)

lemma jobs_of_log [simp]: "db_jobs (or_jobs (orch_log env k n j level msg st)) = db_jobs (or_jobs st)"
  by (simp add: orch_log_def append_log_rows)

text \<open>The management controller of the machine can be reached and obeys.\<close>

definition bmc_reachable :: "orch_env \<Rightarrow> bmc_command \<Rightarrow> string \<Rightarrow> bmc_cred \<Rightarrow> bool" where
  "bmc_reachable env c m cred \<longleftrightarrow>
    (case (oe_creds env, oe_ipmi env) of
       (Some creds, Some ipmi) \<Rightarrow> creds m = Inr cred \<and> ipmi c cred = None
     | _ \<Rightarrow> False)"

lemma dispatch_runs:
  assumes r: "r \<in> set (db_jobs (or_jobs st))" "jb_id r = i" "jb_machine r = m" "jb_status r = Pending"
    and e: "hex32_match i" "reliable env m"
    and reach: "machine_in_live env cfg m st \<or> bmc_reachable env BootForPXE m cred"
  shows "running i m (dispatch_job env cfg m i st)
    \<and> (\<not> machine_in_live env cfg m st \<longrightarrow> (m, BootForPXE, cred) \<in> set (or_commands (dispatch_job env cfg m i st)))"
proof (cases "machine_in_live env cfg m st")
  case True
  then show ?thesis
    using running_stage [OF running_claim [OF r e] e(1)] by (simp add: dispatch_job_def)
next
  case False
  then obtain creds ipmi where "oe_creds env = Some creds" "oe_ipmi env = Some ipmi" "creds m = Inr cred"
    "ipmi BootForPXE cred = None"
    using reach by (auto simp: bmc_reachable_def split: option.splits)
  moreover have "running i m (orch_stage env m i s (orch_claim env m i st'))"
    if "db_jobs (or_jobs st') = db_jobs (or_jobs st)" for s st'
    by (rule running_stage [OF running_claim [OF _ r(2,3,4) e] e(1)]) (simp add: that r(1))
  ultimately show ?thesis
    using False by (simp add: dispatch_job_def boot_machine_def Let_def)
qed

text \<open>What a job for the assignment needs in the job tables.\<close>

definition startable :: "orch_env \<Rightarrow> binding \<Rightarrow> jobs_db \<Rightarrow> bool" where
  "startable env b db \<longleftrightarrow>
    has_machine db (bd_machine b) \<and> bd_image b \<in> set (db_images db) \<and> bd_profile b \<in> set (db_profiles db)
    \<and> (\<forall>r \<in> set (db_jobs db). in_flight r \<longrightarrow> jb_machine r \<noteq> bd_machine b)
    \<and> (\<exists>i. oe_new_id env (bd_machine b) = Inr i \<and> i \<notin> job_ids (db_jobs db))"

lemma armed_job_type: "s \<in> set armed_states \<Longrightarrow> validate_type s = Inr s"
proof -
  have "list_all (\<lambda>s. validate_type s = Inr s) armed_states" by code_simp
  then show "s \<in> set armed_states \<Longrightarrow> validate_type s = Inr s" by (simp add: list_all_iff)
qed

lemma start_job_runs:
  assumes b: "binding_ok b" "bd_desired b \<in> set armed_states" and e: "ids_drawn env" "reliable env (bd_machine b)"
    and s: "startable env b (or_jobs st)" and actor: "oc_actor cfg \<noteq> []"
    and reach: "machine_in_live env cfg (bd_machine b) st \<or> bmc_reachable env BootForPXE (bd_machine b) cred"
  shows "\<exists>i. running i (bd_machine b) (start_job_for_binding env cfg b st)
    \<and> (\<not> machine_in_live env cfg (bd_machine b) st \<longrightarrow>
        (bd_machine b, BootForPXE, cred) \<in> set (or_commands (start_job_for_binding env cfg b st)))"
proof -
  let ?m = "bd_machine b"
  obtain i where i: "oe_new_id env ?m = Inr i" "i \<notin> job_ids (db_jobs (or_jobs st))"
    using s by (auto simp: startable_def)
  have hex: "hex32_match i" using e(1) i by (simp add: ids_drawn_def)
  have ids: "validate_id f (bd_image b) = Inr (bd_image b)" "validate_id f (bd_profile b) = Inr (bd_profile b)"
    "validate_machine_uuid ?m = Inr ?m" for f
    using b(1) by (auto simp: binding_ok_def)
  define r where "r = \<lparr>jb_id = i, jb_machine = ?m, jb_type = bd_desired b, jb_image = bd_image b,
    jb_profile = bd_profile b, jb_status = Pending, jb_stage = [], jb_error = [],
    jb_created = unix (oe_clock env ?m CallCreate), jb_started = None, jb_finished = None,
    jb_created_by = oc_actor cfg, jb_retry = None\<rparr>"
  let ?st = "st\<lparr>or_jobs := or_jobs st\<lparr>db_jobs := ins_row r (db_jobs (or_jobs st))\<rparr>\<rparr>"
  have "\<not> (\<exists>q \<in> set (db_jobs (or_jobs st)). in_flight q \<and> jb_machine q = ?m)"
    using s by (auto simp: startable_def)
  then have "sql_insert_job r (or_jobs st) = Inr (or_jobs ?st)"
    using s i by (simp add: sql_insert_job_def r_def startable_def retry_ok_def)
  then have start: "start_job_for_binding env cfg b st = dispatch_job env cfg ?m i ?st"
    using s i e(2) actor ids armed_job_type [OF b(2)]
    by (simp add: start_job_for_binding_def create_job_def create_fields_def create_checks_def reliable_def
        check_machine_exists_def check_image_exists_def check_profile_exists_def startable_def Let_def r_def [symmetric])
      (simp add: r_def)
  have live: "machine_in_live env cfg ?m ?st = machine_in_live env cfg ?m st"
    by (rule machine_in_live_cong) simp_all
  have r: "r \<in> set (db_jobs (or_jobs ?st))" "jb_id r = i" "jb_machine r = ?m" "jb_status r = Pending"
    by (simp_all add: r_def)
  show ?thesis
    using dispatch_runs [OF r hex e(2), of cfg cred] reach unfolding live start by blast
qed

subsection \<open>Properties\<close>

lemma quiet_startable:
  assumes q: "quiet (bd_machine b) st st'" and s: "startable env b (or_jobs st)"
    and new: "\<And>i. oe_new_id env (bd_machine b) = Inr i \<Longrightarrow> i \<notin> job_ids (db_jobs (or_jobs st'))"
  shows "startable env b (or_jobs st')"
  using assms by (auto simp: startable_def quiet_def catalogs_same_def has_machine_def)

lemma quiet_live: "quiet k st st' \<Longrightarrow> machine_in_live env cfg m st' = machine_in_live env cfg m st"
  by (rule machine_in_live_cong) (simp_all add: quiet_def catalogs_same_def)

lemma quiet_running: "quiet m st st' \<Longrightarrow> running i m st \<Longrightarrow> running i m st'"
  by (auto simp: quiet_def running_def)

lemma quiet_commands: "quiet m st st' \<Longrightarrow> set (or_commands st) \<subseteq> set (or_commands st')"
  by (auto simp: quiet_def)

lemma finalizes_running: "finalizes st st' \<Longrightarrow> running i m st \<Longrightarrow> running i m st'"
  by (simp add: finalizes_def running_def)

lemma finalizes_commands: "finalizes st st' \<Longrightarrow> set (or_commands st) \<subseteq> set (or_commands st')"
  by (auto simp: finalizes_def)

definition distinct_draws :: "orch_env \<Rightarrow> bool" where
  "distinct_draws env \<longleftrightarrow> (\<forall>m m' i. oe_new_id env m = Inr i \<longrightarrow> oe_new_id env m' = Inr i \<longrightarrow> m = m')"

lemma requested_machine_runs:
  assumes env: "ids_drawn env" "distinct_draws env" "reliable env (bd_machine b)" "oe_scan env 0 = None"
    and ok: "bindings_ok (or_bindings st)" and b: "b \<in> set (install_requests st)"
    and s: "startable env b (or_jobs st)" and actor: "oc_actor cfg \<noteq> []"
    and reach: "machine_in_live env cfg (bd_machine b) st \<or> bmc_reachable env BootForPXE (bd_machine b) cred"
  shows "\<exists>i. running i (bd_machine b) (tick env cfg st)
    \<and> (\<not> machine_in_live env cfg (bd_machine b) st \<longrightarrow>
        (bd_machine b, BootForPXE, cred) \<in> set (or_commands (tick env cfg st)))"
proof -
  let ?m = "bd_machine b" and ?start = "start_job_for_binding env cfg"
  obtain xs ys where split: "install_requests st = xs @ b # ys" using b by (auto simp: in_set_conv_decomp)
  have "keyed bd_machine (install_requests st)"
    using ok by (simp add: install_requests_def bindings_ok_def keyed_def distinct_map_filter)
  then have others: "\<forall>q \<in> set xs. smbios_uuid_match (bd_machine q) \<and> bd_machine q \<noteq> ?m"
    "\<forall>q \<in> set ys. smbios_uuid_match (bd_machine q) \<and> bd_machine q \<noteq> ?m"
    using install_requests_machines [OF ok] by (auto simp: split keyed_def image_iff)
  let ?s1 = "fold ?start xs st"
  let ?s2 = "?start b ?s1"
  let ?s3 = "fold ?start ys ?s2"
  have q1: "quiet ?m st ?s1" and ids1: "job_ids (db_jobs (or_jobs ?s1))
      \<subseteq> job_ids (db_jobs (or_jobs st)) \<union> {i. \<exists>q \<in> set xs. oe_new_id env (bd_machine q) = Inr i}"
    using start_jobs_other [OF env(1) others(1), of st cfg] by blast+
  have b': "binding_ok b" "bd_desired b \<in> set armed_states" using b ok by (auto simp: install_requests_def bindings_ok_def)
  have "i \<notin> job_ids (db_jobs (or_jobs ?s1))" if i: "oe_new_id env ?m = Inr i" for i
  proof
    assume "i \<in> job_ids (db_jobs (or_jobs ?s1))"
    then have "i \<in> job_ids (db_jobs (or_jobs st)) \<or> (\<exists>q \<in> set xs. oe_new_id env (bd_machine q) = Inr i)"
      using ids1 by blast
    then show False
      using s i env(2) others(1) by (auto simp: startable_def distinct_draws_def)
  qed
  then have "startable env b (or_jobs ?s1)" by (rule quiet_startable [OF q1 s])
  from start_job_runs [OF b' env(1,3) this actor] reach obtain i where run: "running i ?m ?s2"
    and cmd: "\<not> machine_in_live env cfg ?m st \<longrightarrow> (?m, BootForPXE, cred) \<in> set (or_commands ?s2)"
    unfolding quiet_live [OF q1] by blast
  have q3: "quiet ?m ?s2 ?s3" using start_jobs_other [OF env(1) others(2)] by blast
  have tick: "tick env cfg st = handle_succeeded_jobs env cfg ?s3"
    using env(4) by (simp add: tick_def handle_install_requests_def split)
  have w: "finalizes ?s3 (handle_succeeded_jobs env cfg ?s3)" by (rule handle_succeeded_wraps)
  have "running i ?m (tick env cfg st)"
    unfolding tick by (rule finalizes_running [OF w quiet_running [OF q3 run]])
  moreover have "set (or_commands ?s2) \<subseteq> set (or_commands (tick env cfg st))"
    unfolding tick by (rule subset_trans [OF quiet_commands [OF q3] finalizes_commands [OF w]])
  ultimately show ?thesis using cmd by blast
qed

lemma actor_set [simp]: "oc_actor (new_orchestrator cfg) \<noteq> []"
  by (simp add: new_orchestrator_def)

text \<open>
  C19: A machine whose assignment asks for an installation gets one: within one pass, if the database
  answers and the machine is either in the live system already or its management controller
  obeys, the machine has a running job, and in the second case the command to boot from the network
  was sent, whatever happens to the other machines in the same pass.
\<close>

theorem requested_installation_starts:
  assumes "ids_drawn env" "distinct_draws env" "reliable env (bd_machine b)" "oe_scan env 0 = None"
    and "bindings_ok (or_bindings st)" "b \<in> set (install_requests st)" "startable env b (or_jobs st)"
    and "machine_in_live env (new_orchestrator cfg) (bd_machine b) st \<or> bmc_reachable env BootForPXE (bd_machine b) cred"
  shows "(\<exists>r \<in> set (db_jobs (or_jobs (tick env (new_orchestrator cfg) st))).
        jb_machine r = bd_machine b \<and> jb_status r = Running)
    \<and> (machine_in_live env (new_orchestrator cfg) (bd_machine b) st
        \<or> (bd_machine b, BootForPXE, cred) \<in> set (or_commands (tick env (new_orchestrator cfg) st)))"
  using requested_machine_runs [OF assms(1-7) actor_set assms(8)] by (auto simp: running_def)

lemma finalize_machine_commands:
  "\<exists>cs. or_commands (finalize_machine env cfg creds ipmi im st) = or_commands st @ cs
    \<and> list_all (\<lambda>c. fst c = snd im \<and> fst (snd c) = FinalizeBootDisk) cs"
  by (auto simp: finalize_machine_def orch_log_def Let_def split: sum.splits option.splits prod.splits)

lemma finalize_machines_commands:
  "\<exists>cs. or_commands (fold (finalize_machine env cfg creds ipmi) ims st) = or_commands st @ cs
    \<and> list_all (\<lambda>c. fst c \<in> snd ` set ims \<and> fst (snd c) = FinalizeBootDisk) cs"
proof (induction ims arbitrary: st)
  case (Cons im ims)
  obtain cs where "or_commands (finalize_machine env cfg creds ipmi im st) = or_commands st @ cs"
    "list_all (\<lambda>c. fst c = snd im \<and> fst (snd c) = FinalizeBootDisk) cs"
    using finalize_machine_commands by blast
  moreover obtain cs' where "or_commands (fold (finalize_machine env cfg creds ipmi) (im # ims) st)
      = or_commands (finalize_machine env cfg creds ipmi im st) @ cs'"
    "list_all (\<lambda>c. fst c \<in> snd ` set ims \<and> fst (snd c) = FinalizeBootDisk) cs'"
    using Cons.IH by fastforce
  ultimately show ?case by (intro exI [of _ "cs @ cs'"]) (auto simp: list_all_iff)
qed simp

lemma succeeded_commands:
  "\<exists>cs. or_commands (handle_succeeded_jobs env cfg st) = or_commands st @ cs
    \<and> list_all (\<lambda>c. fst c \<in> snd ` set (finished_installs st) \<and> fst (snd c) = FinalizeBootDisk) cs"
  using finalize_machines_commands
  by (auto simp: handle_succeeded_jobs_def split: option.splits)

lemma settled_machine_untouched:
  assumes "ids_drawn env" "bindings_ok (or_bindings st)" "settled m st"
  shows "(\<forall>r. jb_machine r = m \<longrightarrow>
           (r \<in> set (db_jobs (or_jobs (tick env cfg st))) \<longleftrightarrow> r \<in> set (db_jobs (or_jobs st))))
    \<and> (\<exists>cs. or_commands (tick env cfg st) = or_commands st @ cs
         \<and> (\<forall>act cred. (m, act, cred) \<in> set cs \<longrightarrow> act = FinalizeBootDisk
              \<and> (\<exists>j \<in> set (db_jobs (or_jobs st)). \<exists>b \<in> set (or_bindings st). bd_machine b = m \<and> wraps_up j b)))"
proof -
  let ?s = "handle_install_requests env cfg st"
  have q: "quiet m st ?s" by (rule install_requests_quiet [OF assms])
  have w: "finalizes ?s (tick env cfg st)" unfolding tick_def by (rule handle_succeeded_wraps)
  obtain cs where cs: "or_commands (tick env cfg st) = or_commands ?s @ cs"
    "list_all (\<lambda>c. fst c \<in> snd ` set (finished_installs ?s) \<and> fst (snd c) = FinalizeBootDisk) cs"
    using succeeded_commands unfolding tick_def by blast
  obtain cs' where cs': "or_commands ?s = or_commands st @ cs'" "list_all (\<lambda>c. fst c \<noteq> m) cs'"
    using q by (auto simp: quiet_def)
  have "act = FinalizeBootDisk \<and> (\<exists>j \<in> set (db_jobs (or_jobs st)). \<exists>b \<in> set (or_bindings st). bd_machine b = m \<and> wraps_up j b)"
    if "(m, act, cred) \<in> set (cs' @ cs)" for act cred
  proof -
    from that cs'(2) have "(m, act, cred) \<in> set cs" by (auto simp: list_all_iff)
    with cs(2) have "m \<in> snd ` set (finished_installs ?s)" "act = FinalizeBootDisk" by (force simp: list_all_iff)+
    then obtain j b where "j \<in> set (db_jobs (or_jobs ?s))" "b \<in> set (or_bindings ?s)" "wraps_up j b" "jb_machine j = m"
      by (auto simp: finished_installs_def)
    moreover from this have "bd_machine b = m" by (simp add: wraps_up_def)
    ultimately show ?thesis using q \<open>act = FinalizeBootDisk\<close> by (auto simp: quiet_def)
  qed
  moreover have "db_jobs (or_jobs (tick env cfg st)) = db_jobs (or_jobs ?s)" using w by (simp add: finalizes_def)
  ultimately show ?thesis
    using q cs(1) cs'(1) by (intro conjI exI [of _ "cs' @ cs"]) (auto simp: quiet_def)
qed

text \<open>
  C20: No automatic retry: a machine that asks for no installation, or whose current assignment was
  already answered by a job, pending, running or finished in any way, gets no new job, keeps the
  jobs it has as they are, and is not told to boot from the network. The only command it can get in a
  pass is the one to boot from its disk, for a job of the assignment that succeeded.
\<close>

theorem no_automatic_retry:
  assumes "ids_drawn env" "bindings_ok (or_bindings st)" "settled m st"
  shows "(\<forall>r. jb_machine r = m \<longrightarrow>
           (r \<in> set (db_jobs (or_jobs (tick env cfg st))) \<longleftrightarrow> r \<in> set (db_jobs (or_jobs st))))
    \<and> (\<exists>cs. or_commands (tick env cfg st) = or_commands st @ cs
         \<and> (\<forall>act cred. (m, act, cred) \<in> set cs \<longrightarrow> act = FinalizeBootDisk
              \<and> (\<exists>j \<in> set (db_jobs (or_jobs st)). \<exists>b \<in> set (or_bindings st). bd_machine b = m \<and> wraps_up j b)))"
  using assms by (rule settled_machine_untouched)

lemma unarmed_disarm: "unarmed m (disarm m actor now t)"
  unfolding unarmed_def
proof (intro ballI impI)
  fix b assume b: "b \<in> set (disarm m actor now t)" "bd_machine b = m"
  obtain q where q: "b = (if bd_machine q = m \<and> bd_desired q \<noteq> ''none''
      then q\<lparr>bd_desired := ''none'', bd_updated := unix now, bd_updated_by := actor\<rparr> else q)"
    using b(1) unfolding disarm_def upd_where_def set_map by (rule imageE)
  show "bd_desired b = ''none''"
  proof (cases "bd_machine q = m \<and> bd_desired q \<noteq> ''none''")
    case True
    then show ?thesis by (simp add: q)
  next
    case False
    have "b = q" unfolding q by (rule if_not_P [OF False])
    then show ?thesis using b(2) False by blast
  qed
qed

lemma finalize_machine_disarms:
  assumes "bmc_reachable env FinalizeBootDisk m cred" "oe_creds env = Some creds" "oe_ipmi env = Some ipmi"
    and "smbios_uuid_match m" "oc_actor cfg \<noteq> []" "oe_faults env i CallClear 0 = None"
  shows "unarmed m (or_bindings (finalize_machine env cfg creds ipmi (i, m) st))
    \<and> (m, FinalizeBootDisk, cred) \<in> set (or_commands (finalize_machine env cfg creds ipmi (i, m) st))"
proof -
  have "creds m = Inr cred" "ipmi FinalizeBootDisk cred = None"
    using assms(1-3) by (simp_all add: bmc_reachable_def)
  moreover have "bind_machine_uuid m = Inr m"
    using assms(4) by (simp add: bind_machine_uuid_def Let_def smbios_uuid_canonical)
  ultimately have "finalize_machine env cfg creds ipmi (i, m) st =
      orch_log env i 0 i ''info'' ''post-install bootdev=disk + power cycle issued; binding cleared''
        (st\<lparr>or_commands := or_commands st @ [(m, FinalizeBootDisk, cred)],
            or_bindings := disarm m (oc_actor cfg) (oe_clock env i CallClear) (or_bindings st)\<rparr>)"
    using assms(5,6)
    unfolding finalize_machine_def Let_def fst_conv snd_conv clear_desired_state_def disarm_def [symmetric] by simp
  then show ?thesis by (simp add: orch_log_def unarmed_disarm)
qed

lemma finished_install_listed:
  assumes "j \<in> set (db_jobs (or_jobs st))" "b \<in> set (or_bindings st)" "wraps_up j b"
  shows "(jb_id j, bd_machine b) \<in> set (finished_installs st)"
proof -
  have "(jb_id j, jb_machine j) \<in> set (finished_installs st)"
    using assms by (force simp: finished_installs_def)
  then show ?thesis using assms(3) by (simp add: wraps_up_def)
qed

lemma finished_install_wrapped_up:
  assumes env: "ids_drawn env" "oe_scan env 1 = None" "oe_bindings env" "bmc_reachable env FinalizeBootDisk (bd_machine b) cred"
    and ok: "bindings_ok (or_bindings st)" and actor: "oc_actor cfg \<noteq> []"
    and j: "j \<in> set (db_jobs (or_jobs st))" "wraps_up j b" "b \<in> set (or_bindings st)"
    and fault: "oe_faults env (jb_id j) CallClear 0 = None"
  shows "unarmed (bd_machine b) (or_bindings (tick env cfg st))
    \<and> (bd_machine b, FinalizeBootDisk, cred) \<in> set (or_commands (tick env cfg st))"
proof -
  let ?m = "bd_machine b" and ?s = "handle_install_requests env cfg st"
  have m: "smbios_uuid_match ?m" using ok j(3) by (auto simp: bindings_ok_def binding_ok_def)
  have only: "q = b" if "q \<in> set (or_bindings st)" "bd_machine q = ?m" for q
    using ok that j(3) by (auto simp: bindings_ok_def intro: keyed_unique)
  have "settled ?m st"
    unfolding settled_def
    using only j(1,2) by (fastforce simp: wraps_up_def blocks_install_def split: option.splits)
  from install_requests_quiet [OF env(1) ok this, of cfg]
  have "j \<in> set (db_jobs (or_jobs ?s))" "b \<in> set (or_bindings ?s)"
    using j by (auto simp: quiet_def wraps_up_def)
  from finished_install_listed [OF this j(2)] obtain xs ys
    where split: "finished_installs ?s = xs @ (jb_id j, ?m) # ys" by (auto simp: in_set_conv_decomp)
  obtain creds ipmi where e: "oe_creds env = Some creds" "oe_ipmi env = Some ipmi"
    using env(4) by (auto simp: bmc_reachable_def split: option.splits)
  let ?f = "finalize_machine env cfg creds ipmi"
  let ?s2 = "?f (jb_id j, ?m) (fold ?f xs ?s)"
  have "tick env cfg st = fold ?f ys ?s2"
    using e env(2,3) by (simp add: tick_def handle_succeeded_jobs_def split)
  moreover have "finalizes ?s2 (fold ?f ys ?s2)" by (rule finalize_machines_wrap)
  moreover have "unarmed ?m (or_bindings ?s2)" "(?m, FinalizeBootDisk, cred) \<in> set (or_commands ?s2)"
    using finalize_machine_disarms [OF env(4) e m actor fault] by blast+
  ultimately show ?thesis
    using finalizes_commands by (auto simp: finalizes_def)
qed

text \<open>
  C21: A finished installation is wrapped up: within one pass after the job of the current assignment
  succeeded, the machine is told to boot from its disk and the assignment asks for nothing any
  more, if the management controller obeys and the database stores the change.
\<close>

theorem finished_installation_is_cleared:
  assumes "ids_drawn env" "oe_scan env 1 = None" "oe_bindings env" "bmc_reachable env FinalizeBootDisk (bd_machine b) cred"
    and "bindings_ok (or_bindings st)"
    and "j \<in> set (db_jobs (or_jobs st))" "wraps_up j b" "b \<in> set (or_bindings st)"
    and "oe_faults env (jb_id j) CallClear 0 = None"
  shows "(\<forall>q \<in> set (or_bindings (tick env (new_orchestrator cfg) st)). bd_machine q = bd_machine b \<longrightarrow> bd_desired q = ''none'')
    \<and> (bd_machine b, FinalizeBootDisk, cred) \<in> set (or_commands (tick env (new_orchestrator cfg) st))"
  using finished_install_wrapped_up [OF assms(1-5) actor_set assms(6-9)] by (simp add: unarmed_def)

lemma tick_steps:
  assumes "ids_drawn env" "bindings_ok (or_bindings st)"
  shows "jobs_step\<^sup>*\<^sup>* (or_jobs st) (or_jobs (tick env cfg st))"
    and "(binding_step any_request)\<^sup>*\<^sup>* (or_bindings st) (or_bindings (tick env cfg st))"
proof -
  let ?s = "handle_install_requests env cfg st"
  have "\<not> smbios_uuid_match []" by code_simp
  then have "\<forall>b \<in> set (install_requests st). smbios_uuid_match (bd_machine b) \<and> bd_machine b \<noteq> []"
    using install_requests_machines [OF assms(2)] by metis
  then have q: "quiet [] st ?s"
    using start_jobs_other [OF assms(1)] by (auto simp: handle_install_requests_def split: option.splits)
  have w: "finalizes ?s (tick env cfg st)" unfolding tick_def by (rule handle_succeeded_wraps)
  show "jobs_step\<^sup>*\<^sup>* (or_jobs st) (or_jobs (tick env cfg st))"
    using q w by (auto simp: quiet_def finalizes_def intro: rtranclp_trans)
  show "(binding_step any_request)\<^sup>*\<^sup>* (or_bindings st) (or_bindings (tick env cfg st))"
    using q w by (simp add: quiet_def finalizes_def)
qed

subsection \<open>Witnesses and counterexamples\<close>

definition sample_cred :: bmc_cred where
  "sample_cred = \<lparr>cr_ip = ''10.0.0.9'', cr_port = 623, cr_username = ''root'', cr_password = ''calvin'', cr_interface = []\<rparr>"

definition sample_env :: orch_env where
  "sample_env =
    \<lparr>oe_creds = Some (\<lambda>m. Inr sample_cred), oe_ipmi = Some (\<lambda>c cred. None), oe_bindings = True,
     oe_clock = (\<lambda>k c. 30 * second), oe_new_id = (\<lambda>m. if m = machine_id CHR ''1'' then Inr (hex_id CHR ''d'') else Inl []),
     oe_faults = (\<lambda>k c. no_faults), oe_scan = no_faults\<rparr>"

definition sample_config :: orch_config where
  "sample_config = \<lparr>oc_tick = 0, oc_actor = [], oc_freshness = 0\<rparr>"

definition sample_orch_job :: "job_status \<Rightarrow> int option \<Rightarrow> job" where
  "sample_orch_job s f =
    \<lparr>jb_id = hex_id CHR ''e'', jb_machine = machine_id CHR ''1'', jb_type = ''install'', jb_image = hex_id CHR ''a'',
     jb_profile = hex_id CHR ''b'', jb_status = s, jb_stage = [], jb_error = [], jb_created = 0,
     jb_started = map_option (\<lambda>x. 0) f, jb_finished = f, jb_created_by = ''orchestrator'', jb_retry = None\<rparr>"

definition sample_state :: "job list \<Rightarrow> orch_state" where
  "sample_state js =
    \<lparr>or_jobs = \<lparr>db_machines = [\<lparr>mc_uuid = machine_id CHR ''1'', mc_last_seen = 0, mc_latest_report = None\<rparr>],
               db_images = [hex_id CHR ''a''], db_profiles = [hex_id CHR ''b''], db_jobs = js, db_logs = [], db_log_seq = 0\<rparr>,
     or_bindings = [sample_binding CHR ''1'' ''10.0.1.3'' \<lparr>bd_updated := 10\<rparr>], or_reports = [], or_commands = []\<rparr>"

definition sample_armed :: binding where
  "sample_armed = sample_binding CHR ''1'' ''10.0.1.3'' \<lparr>bd_updated := 10\<rparr>"

lemma sample_bindings: "or_bindings (sample_state js) = [sample_armed]"
  by (simp add: sample_state_def sample_armed_def)

lemma sample_armed_ok: "bindings_ok [sample_armed]" "binding_ok sample_armed"
  by code_simp+

lemma sample_draws: "ids_drawn sample_env" "distinct_draws sample_env"
proof -
  have "hex32_match (hex_id CHR ''d'')" by code_simp
  then show "ids_drawn sample_env" "distinct_draws sample_env"
    by (auto simp: ids_drawn_def distinct_draws_def sample_env_def split: if_splits)
qed

lemma sample_startable: "startable sample_env sample_armed (or_jobs (sample_state []))"
proof -
  have "oe_new_id sample_env (bd_machine sample_armed) = Inr (hex_id CHR ''d'')" by code_simp
  moreover have "bd_machine sample_armed = machine_id CHR ''1''" "bd_image sample_armed = hex_id CHR ''a''"
    "bd_profile sample_armed = hex_id CHR ''b''"
    by (simp_all add: sample_armed_def sample_binding_def)
  ultimately show ?thesis
    by (simp add: startable_def sample_state_def has_machine_def job_ids_def)
qed

lemma sample_reachable: "bmc_reachable sample_env c m sample_cred"
  by (simp add: bmc_reachable_def sample_env_def)

lemma requested_installation_starts_witness:
  "\<exists>r \<in> set (db_jobs (or_jobs (tick sample_env (new_orchestrator sample_config) (sample_state [])))).
     jb_machine r = bd_machine sample_armed \<and> jb_status r = Running"
proof -
  have "reliable sample_env (bd_machine sample_armed)" "oe_scan sample_env 0 = None"
    by (simp_all add: reliable_def sample_env_def)
  moreover have "sample_armed \<in> set (install_requests (sample_state []))" by code_simp
  moreover have "bindings_ok (or_bindings (sample_state []))" by (simp add: sample_bindings sample_armed_ok)
  ultimately show ?thesis
    using requested_installation_starts [OF sample_draws _ _ _ _ sample_startable disjI2 [OF sample_reachable], of sample_config]
    by blast
qed

lemma sample_settled: "settled (machine_id CHR ''1'') (sample_state [sample_orch_job Failed (Some 12)])"
proof -
  have "blocks_install sample_armed (sample_orch_job Failed (Some 12))" by code_simp
  then show ?thesis by (simp add: settled_def sample_state_def sample_armed_def [symmetric])
qed

lemma no_automatic_retry_witness:
  "sample_orch_job Failed (Some 12)
    \<in> set (db_jobs (or_jobs (tick sample_env sample_config (sample_state [sample_orch_job Failed (Some 12)]))))"
proof -
  let ?s = "sample_state [sample_orch_job Failed (Some 12)]"
  have "bindings_ok (or_bindings ?s)" by (simp add: sample_bindings sample_armed_ok)
  moreover have "sample_orch_job Failed (Some 12) \<in> set (db_jobs (or_jobs ?s))"
    "jb_machine (sample_orch_job Failed (Some 12)) = machine_id CHR ''1''"
    by (simp_all add: sample_state_def sample_orch_job_def)
  ultimately show ?thesis
    using no_automatic_retry [OF sample_draws(1) _ sample_settled, of sample_config] by blast
qed

lemma finished_installation_is_cleared_witness:
  "(machine_id CHR ''1'', FinalizeBootDisk, sample_cred)
    \<in> set (or_commands (tick sample_env (new_orchestrator sample_config) (sample_state [sample_orch_job Succeeded (Some 12)])))"
proof -
  let ?s = "sample_state [sample_orch_job Succeeded (Some 12)]"
  have "wraps_up (sample_orch_job Succeeded (Some 12)) sample_armed" by code_simp
  moreover have "bindings_ok (or_bindings ?s)" "sample_armed \<in> set (or_bindings ?s)"
    by (simp_all add: sample_bindings sample_armed_ok)
  moreover have "sample_orch_job Succeeded (Some 12) \<in> set (db_jobs (or_jobs ?s))" by (simp add: sample_state_def)
  moreover have "oe_scan sample_env 1 = None" "oe_bindings sample_env" "oe_faults sample_env k CallClear 0 = None" for k
    by (simp_all add: sample_env_def)
  moreover have "bd_machine sample_armed = machine_id CHR ''1''" by (simp add: sample_armed_def sample_binding_def)
  ultimately show ?thesis
    using finished_installation_is_cleared [OF sample_draws(1) _ _ sample_reachable,
        where b = sample_armed and st = ?s and cfg = sample_config] by metis
qed

text \<open>
  Two ways a request is lost. A request made while a job runs is taken for answered when the job
  ends: here the assignment was renewed at 10, the job created at 0 succeeds at 12. And a pending job
  whose creator stopped before driving it is not driven by a later pass, and blocks its machine until
  someone cancels it or boots the machine into the live system.
\<close>

theorem request_during_run_is_dropped:
  "or_bindings (tick sample_env (new_orchestrator sample_config) (sample_state [sample_orch_job Succeeded (Some 12)]))
     = [sample_armed\<lparr>bd_desired := ''none'', bd_updated := 30, bd_updated_by := ''orchestrator''\<rparr>]
   \<and> map jb_id (db_jobs (or_jobs (tick sample_env (new_orchestrator sample_config)
        (sample_state [sample_orch_job Succeeded (Some 12)])))) = [hex_id CHR ''e'']"
  by code_simp

theorem orphaned_job_blocks_machine:
  "tick sample_env (new_orchestrator sample_config) (sample_state [sample_orch_job Pending None])
    = sample_state [sample_orch_job Pending None]"
  by code_simp

end
