(* ===== verification/Profile_Store.thy ===== *)
theory Profile_Store
  imports Profile_Rules Job_Store Binding_Store
begin

text \<open>
  \<open>internal/profiles/store.go\<close>: the catalog of install profiles, with the component names of
  \<open>internal/components\<close>, and the delete handler of \<open>internal/profiles/api.go\<close>, which removes what
  refers to the profile from the other tables first. The state is the \<open>profiles\<close> table. The JSON
  columns hold their decoded values; \<open>chroot_dns\<close> is the joined text in a row and the list in the
  \<open>Profile\<close> struct, the type argument of the record.
\<close>

subsection \<open>Rows and inputs\<close>

record 'd profile =
  pr_id :: string
  pr_name :: string
  pr_description :: string
  pr_hostname :: string
  pr_hash :: string
  pr_disk :: target_disk
  pr_network :: network_config
  pr_family :: string
  pr_subnet :: string
  pr_renderer :: string
  pr_bootloader :: string
  pr_dns :: 'd
  pr_agent :: bool
  pr_created :: int
  pr_updated :: int
  pr_created_by :: string

record profile_create =
  pc_name :: string
  pc_description :: string
  pc_hostname :: string
  pc_hash :: string
  pc_disk :: "target_disk raw_json"
  pc_network :: "network_config raw_json"
  pc_family :: string
  pc_subnet :: string
  pc_renderer :: string
  pc_bootloader :: string
  pc_dns :: string
  pc_agent :: bool
  pc_created_by :: string

record profile_update =
  pu_description :: "string option"
  pu_hostname :: "string option"
  pu_hash :: "string option"
  pu_disk :: "target_disk raw_json"
  pu_network :: "network_config raw_json"
  pu_family :: "string option"
  pu_subnet :: "string option"
  pu_renderer :: "string option"
  pu_bootloader :: "string option"
  pu_dns :: "string option"
  pu_agent :: "bool option"

datatype store_error =
    ProfileName string
  | ProfileDescription nat
  | ProfileField profile_error
  | ProfileHash
  | UnknownRenderer string
  | UnknownBootloader string
  | ProfileCreatedBy
  | ProfileRandom string
  | ProfileDuplicate string
  | ProfileNotFound
  | ProfileDb string string

subsection \<open>Validation\<close>

definition max_description_len :: nat where
  "max_description_len = 1024"

definition profile_name_match :: "string \<Rightarrow> bool" where
  "profile_name_match s \<longleftrightarrow>
    (case s of
       [] \<Rightarrow> False
     | c # cs \<Rightarrow>
       is_alnum c \<and> length cs \<le> 63 \<and> list_all (\<lambda>d. is_alnum d \<or> d \<in> {CHR ''.'', CHR ''_'', CHR ''-''}) cs)"

definition crypt_char :: "char \<Rightarrow> bool" where
  "crypt_char c \<longleftrightarrow> is_alnum c \<or> c \<in> {CHR ''.'', CHR ''/''}"

definition crypt_fields :: "string \<Rightarrow> string \<Rightarrow> bool" where
  "crypt_fields salt hash \<longleftrightarrow>
    1 \<le> length salt \<and> length salt \<le> 16 \<and> list_all crypt_char salt \<and> length hash = 86 \<and> list_all crypt_char hash"

definition sha512crypt_match :: "string \<Rightarrow> bool" where
  "sha512crypt_match s \<longleftrightarrow>
    (case split_on CHR ''$'' s of
       [a, b, salt, hash] \<Rightarrow> a = [] \<and> b = ''6'' \<and> crypt_fields salt hash
     | [a, b, r, salt, hash] \<Rightarrow>
         a = [] \<and> b = ''6'' \<and> starts_with ''rounds='' r \<and> drop 7 r \<noteq> [] \<and> list_all is_digit (drop 7 r)
         \<and> crypt_fields salt hash
     | _ \<Rightarrow> False)"

definition all_renderer_ids :: "string list" where
  "all_renderer_ids = [''netplan'', ''network-manager'', ''sysconfig'', ''eni'', ''wicked'']"

definition all_bootloader_ids :: "string list" where
  "all_bootloader_ids = [''grub-host-debian'', ''grub-chroot-rhel'', ''grub-host-fallback'']"

definition validate_network_renderer :: "string \<Rightarrow> (store_error, unit) result" where
  "validate_network_renderer s0 =
    (let s = trim_space s0 in refuse_if (s \<noteq> [] \<and> s \<notin> set all_renderer_ids) (UnknownRenderer s))"

definition validate_bootloader :: "string \<Rightarrow> (store_error, unit) result" where
  "validate_bootloader s0 =
    (let s = trim_space s0 in refuse_if (s \<noteq> [] \<and> s \<notin> set all_bootloader_ids) (UnknownBootloader s))"

text \<open>An error of the field validators, as the store returns it.\<close>

definition field :: "(profile_error, 'a) result \<Rightarrow> (store_error, 'a) result" where
  "field r = (case r of Inl e \<Rightarrow> Inl (ProfileField e) | Inr x \<Rightarrow> Inr x)"

lemma field_Inr [simp]: "field r = Inr x \<longleftrightarrow> r = Inr x"
  by (simp add: field_def split: sum.splits)

subsection \<open>Statements\<close>

definition scan_profile :: "string profile \<Rightarrow> string list profile" where
  "scan_profile r =
    \<lparr>pr_id = pr_id r, pr_name = pr_name r, pr_description = pr_description r, pr_hostname = pr_hostname r,
     pr_hash = pr_hash r, pr_disk = pr_disk r, pr_network = pr_network r,
     pr_family = canonical_os_family (pr_family r), pr_subnet = pr_subnet r, pr_renderer = pr_renderer r,
     pr_bootloader = pr_bootloader r, pr_dns = parse_chroot_dns (pr_dns r), pr_agent = pr_agent r,
     pr_created = pr_created r, pr_updated = pr_updated r, pr_created_by = pr_created_by r\<rparr>"

definition sql_insert_profile :: "string profile \<Rightarrow> string profile list \<Rightarrow> (string, string profile list) result" where
  "sql_insert_profile r t =
    (if \<exists>q \<in> set t. pr_name q = pr_name r then Inl ''constraint failed: UNIQUE constraint failed: profiles.name (2067)''
     else if \<exists>q \<in> set t. pr_id q = pr_id r then Inl ''constraint failed: UNIQUE constraint failed: profiles.id (1555)''
     else Inr (ins_row r t))"

definition is_unique_violation :: "string \<Rightarrow> bool" where
  "is_unique_violation msg \<longleftrightarrow> contains_sub ''UNIQUE constraint failed'' msg"

subsection \<open>Operations\<close>

text \<open>The row \<open>Create\<close> inserts, but for its identifier and times.\<close>

definition create_profile_fields ::
  "string \<Rightarrow> profile_create \<Rightarrow> (store_error, string \<Rightarrow> int \<Rightarrow> string profile) result" where
  "create_profile_fields default_hash inp =
    (let name = trim_space (pc_name inp); host = trim_space (pc_hostname inp); h0 = trim_space (pc_hash inp);
         desc = trim_space (pc_description inp); h = (if h0 = [] then default_hash else h0) in
     and_then (refuse_if (\<not> profile_name_match name) (ProfileName name)) (\<lambda>_.
     and_then (refuse_if (max_description_len < length desc) (ProfileDescription (length desc))) (\<lambda>_.
     and_then (field (check_err (validate_hostname_template host))) (\<lambda>_.
     and_then (refuse_if (\<not> sha512crypt_match h) ProfileHash) (\<lambda>_.
     and_then (field (validate_target_disk (pc_disk inp))) (\<lambda>td.
     and_then (field (check_err (validate_os_family (pc_family inp)))) (\<lambda>_.
     and_then (field (validate_profile_subnet (pc_subnet inp))) (\<lambda>sid.
     and_then (validate_network_renderer (pc_renderer inp)) (\<lambda>_.
     and_then (validate_bootloader (pc_bootloader inp)) (\<lambda>_.
     and_then (field (validate_network (sid \<noteq> []) (pc_network inp))) (\<lambda>nc.
     and_then (field (validate_chroot_dns (pc_dns inp))) (\<lambda>dns.
     and_then (refuse_if (pc_created_by inp = []) ProfileCreatedBy) (\<lambda>_.
       Inr (\<lambda>i now. \<lparr>pr_id = i, pr_name = name, pr_description = desc, pr_hostname = host, pr_hash = h,
         pr_disk = td, pr_network = nc, pr_family = canonical_os_family (pc_family inp), pr_subnet = sid,
         pr_renderer = pc_renderer inp, pr_bootloader = pc_bootloader inp, pr_dns = dns,
         pr_agent = pc_agent inp, pr_created = now, pr_updated = now, pr_created_by = pc_created_by inp\<rparr>))))))))))))))"

definition create_profile ::
  "faults \<Rightarrow> time \<Rightarrow> (string, string) result \<Rightarrow> string \<Rightarrow> profile_create \<Rightarrow> string profile list \<Rightarrow>
   (store_error, string list profile) result \<times> string profile list"
where
  "create_profile fl now rid default_hash inp t =
    (case create_profile_fields default_hash inp of
       Inl e \<Rightarrow> (Inl e, t)
     | Inr mk \<Rightarrow>
       (case rid of
          Inl msg \<Rightarrow> (Inl (ProfileRandom msg), t)
        | Inr i \<Rightarrow>
          (let r = mk i (unix now) in
           case try_sql (fl 0) (sql_insert_profile r t) of
             Inl msg \<Rightarrow> (Inl (if is_unique_violation msg then ProfileDuplicate (pr_name r) else ProfileDb ''insert profile'' msg), t)
           | Inr t' \<Rightarrow> (Inr (scan_profile r), t'))))"

definition get_profile :: "faults \<Rightarrow> string \<Rightarrow> string profile list \<Rightarrow> (store_error, string list profile) result" where
  "get_profile fl i t =
    (case fl 0 of
       Some msg \<Rightarrow> Inl (ProfileDb ''get profile'' msg)
     | None \<Rightarrow> (case sel_row (\<lambda>r. pr_id r = i) t of None \<Rightarrow> Inl ProfileNotFound | Some r \<Rightarrow> Inr (scan_profile r)))"

definition list_profiles :: "faults \<Rightarrow> string profile list \<Rightarrow> (store_error, string list profile list) result" where
  "list_profiles fl t =
    (case fl 0 of
       Some msg \<Rightarrow> Inl (ProfileDb ''list profiles'' msg)
     | None \<Rightarrow> Inr (map scan_profile (rev (sort_key pr_created (sort_key pr_id t)))))"

text \<open>A field of the update: absent, or checked and set.\<close>

definition set_field ::
  "'a option \<Rightarrow> ('a \<Rightarrow> (store_error, 'b) result) \<Rightarrow> ('b \<Rightarrow> 'p \<Rightarrow> 'p) \<Rightarrow> 'p \<Rightarrow> (store_error, 'p) result" where
  "set_field v check put p = (case v of None \<Rightarrow> Inr p | Some x \<Rightarrow> and_then (check x) (\<lambda>y. Inr (put y p)))"

definition checked :: "bool \<Rightarrow> 'e \<Rightarrow> 'a \<Rightarrow> ('e, 'a) result" where
  "checked bad e x = (if bad then Inl e else Inr x)"

definition raw_given :: "'a raw_json \<Rightarrow> 'a raw_json option" where
  "raw_given r = (case r of RawEmpty \<Rightarrow> None | _ \<Rightarrow> Some r)"

definition edit_network :: "profile_update \<Rightarrow> string list profile \<Rightarrow> (store_error, string list profile) result" where
  "edit_network inp p =
    (case raw_given (pu_network inp) of
       Some raw \<Rightarrow> and_then (field (validate_network (pr_subnet p \<noteq> []) raw)) (\<lambda>nc. Inr (p\<lparr>pr_network := nc\<rparr>))
     | None \<Rightarrow>
       (if pu_subnet inp \<noteq> None \<and> pr_subnet p \<noteq> []
        then Inr (p\<lparr>pr_network := (pr_network p)\<lparr>nc_prefix_len := 0, nc_gateway := [], nc_dns := [], nc_vlan := 0\<rparr>\<rparr>)
        else Inr p))"

definition edit_profile :: "profile_update \<Rightarrow> string list profile \<Rightarrow> (store_error, string list profile) result" where
  "edit_profile inp p0 =
    and_then (set_field (pu_description inp)
      (\<lambda>s. let d = trim_space s in checked (max_description_len < length d) (ProfileDescription (length d)) d)
      (\<lambda>d p. p\<lparr>pr_description := d\<rparr>) p0) (\<lambda>p1.
    and_then (set_field (pu_hostname inp)
      (\<lambda>s. let h = trim_space s in and_then (field (check_err (validate_hostname_template h))) (\<lambda>_. Inr h))
      (\<lambda>h p. p\<lparr>pr_hostname := h\<rparr>) p1) (\<lambda>p2.
    and_then (set_field (pu_hash inp)
      (\<lambda>s. let h = trim_space s in checked (\<not> sha512crypt_match h) ProfileHash h) (\<lambda>h p. p\<lparr>pr_hash := h\<rparr>) p2) (\<lambda>p3.
    and_then (set_field (raw_given (pu_disk inp)) (\<lambda>raw. field (validate_target_disk raw))
      (\<lambda>td p. p\<lparr>pr_disk := td\<rparr>) p3) (\<lambda>p4.
    and_then (set_field (pu_subnet inp) (\<lambda>s. field (validate_profile_subnet s)) (\<lambda>s p. p\<lparr>pr_subnet := s\<rparr>) p4) (\<lambda>p5.
    and_then (edit_network inp p5) (\<lambda>p6.
    and_then (set_field (pu_family inp)
      (\<lambda>s. and_then (field (check_err (validate_os_family s))) (\<lambda>_. Inr (canonical_os_family s)))
      (\<lambda>s p. p\<lparr>pr_family := s\<rparr>) p6) (\<lambda>p7.
    and_then (set_field (pu_renderer inp)
      (\<lambda>s. let v = trim_space s in and_then (validate_network_renderer v) (\<lambda>_. Inr v)) (\<lambda>v p. p\<lparr>pr_renderer := v\<rparr>) p7) (\<lambda>p8.
    and_then (set_field (pu_bootloader inp)
      (\<lambda>s. let v = trim_space s in and_then (validate_bootloader v) (\<lambda>_. Inr v)) (\<lambda>v p. p\<lparr>pr_bootloader := v\<rparr>) p8) (\<lambda>p9.
    and_then (set_field (pu_dns inp) (\<lambda>s. field (validate_chroot_dns s)) (\<lambda>v p. p\<lparr>pr_dns := parse_chroot_dns v\<rparr>) p9) (\<lambda>p10.
      set_field (pu_agent inp) Inr (\<lambda>b p. p\<lparr>pr_agent := b\<rparr>) p10))))))))))"

definition sql_update_profile :: "string list profile \<Rightarrow> int \<Rightarrow> string \<Rightarrow> string profile list \<Rightarrow> string profile list" where
  "sql_update_profile p now i t =
    upd_where (\<lambda>r. pr_id r = i)
      (\<lambda>r. r\<lparr>pr_description := pr_description p, pr_hostname := pr_hostname p, pr_hash := pr_hash p,
             pr_disk := pr_disk p, pr_network := pr_network p, pr_family := pr_family p, pr_subnet := pr_subnet p,
             pr_renderer := pr_renderer p, pr_bootloader := pr_bootloader p, pr_dns := join_chroot_dns (pr_dns p),
             pr_agent := pr_agent p, pr_updated := now\<rparr>) t"

definition update_profile ::
  "faults \<Rightarrow> time \<Rightarrow> string \<Rightarrow> profile_update \<Rightarrow> string profile list \<Rightarrow>
   (store_error, string list profile) result \<times> string profile list"
where
  "update_profile fl now i inp t =
    (case and_then (get_profile fl i t) (edit_profile inp) of
       Inl e \<Rightarrow> (Inl e, t)
     | Inr p \<Rightarrow>
       (case fl 1 of
          Some msg \<Rightarrow> (Inl (ProfileDb ''update profile'' msg), t)
        | None \<Rightarrow> (Inr (p\<lparr>pr_updated := unix now\<rparr>), sql_update_profile p (unix now) i t)))"

text \<open>Rows of other tables that refer to the profile refuse its deletion.\<close>

definition delete_profile ::
  "faults \<Rightarrow> (string \<Rightarrow> bool) \<Rightarrow> string \<Rightarrow> string profile list \<Rightarrow> store_error option \<times> string profile list" where
  "delete_profile fl referenced i t =
    (case try_sql (fl 0)
            (if hits (\<lambda>r. pr_id r = i) t \<noteq> 0 \<and> referenced i
             then Inl ''constraint failed: FOREIGN KEY constraint failed (787)'' else Inr (del_where (\<lambda>r. pr_id r = i) t)) of
       Inl msg \<Rightarrow> (Some (ProfileDb ''delete profile'' msg), t)
     | Inr t' \<Rightarrow> (if hits (\<lambda>r. pr_id r = i) t = 0 then (Some ProfileNotFound, t') else (None, t')))"

subsection \<open>The delete handler\<close>

text \<open>The tables the handler works on. \<open>db_profiles\<close> of the job tables are the keys of \<open>profiles\<close>.\<close>

record profile_world =
  pw_profiles :: "string profile list"
  pw_bindings :: "binding list"
  pw_jobs :: jobs_db

definition profile_referenced :: "profile_world \<Rightarrow> string \<Rightarrow> bool" where
  "profile_referenced w i \<longleftrightarrow>
    list_ex (\<lambda>b. bd_profile b = i) (pw_bindings w) \<or> list_ex (\<lambda>r. jb_profile r = i) (db_jobs (pw_jobs w))"

definition set_profiles :: "string profile list \<Rightarrow> profile_world \<Rightarrow> profile_world" where
  "set_profiles t w = w\<lparr>pw_profiles := t, pw_jobs := (pw_jobs w)\<lparr>db_profiles := map pr_id t\<rparr>\<rparr>"

text \<open>
  The status of the answer. The three statements are separate transactions, with the fault plans of
  the bindings store, the job store and the profile store.
\<close>

definition api_delete_profile ::
  "faults \<Rightarrow> faults \<Rightarrow> faults \<Rightarrow> bool \<Rightarrow> bool \<Rightarrow> string \<Rightarrow> profile_world \<Rightarrow> nat \<times> profile_world"
where
  "api_delete_profile fb fj fp has_bindings has_jobs raw w =
    (let i = lower_trim raw in
     if \<not> hex32_match i then (400, w)
     else case (if has_bindings then delete_bindings_by_profile fb i (pw_bindings w) else (Inr 0, pw_bindings w)) of
       (Inl e, bs) \<Rightarrow> (500, w\<lparr>pw_bindings := bs\<rparr>)
     | (Inr n, bs) \<Rightarrow>
       (case (if has_jobs then delete_by_profile fj i (pw_jobs w) else (Inr 0, pw_jobs w)) of
          (Inl e, db) \<Rightarrow> (500, w\<lparr>pw_bindings := bs, pw_jobs := db\<rparr>)
        | (Inr k, db) \<Rightarrow>
          (let w1 = w\<lparr>pw_bindings := bs, pw_jobs := db\<rparr> in
           case delete_profile fp (profile_referenced w1) i (pw_profiles w1) of
             (None, t) \<Rightarrow> (204, set_profiles t w1)
           | (Some ProfileNotFound, t) \<Rightarrow> (404, set_profiles t w1)
           | (Some e, t) \<Rightarrow> (500, set_profiles t w1))))"

subsection \<open>The catalog stays canonical\<close>

definition profile_shape :: "'d profile \<Rightarrow> bool" where
  "profile_shape p \<longleftrightarrow>
    hex32_match (pr_id p) \<and> profile_name_match (pr_name p) \<and> length (pr_description p) \<le> max_description_len
    \<and> validate_hostname_template (pr_hostname p) = None \<and> sha512crypt_match (pr_hash p)
    \<and> validate_target_disk (RawOk (pr_disk p)) = Inr (pr_disk p)
    \<and> pr_family p \<in> set valid_os_families \<and> (pr_subnet p = [] \<or> hex32_match (pr_subnet p))
    \<and> validate_network_renderer (pr_renderer p) = Inr () \<and> validate_bootloader (pr_bootloader p) = Inr ()
    \<and> pr_created_by p \<noteq> []"

definition profile_ok :: "'d profile \<Rightarrow> bool" where
  "profile_ok p \<longleftrightarrow> profile_shape p \<and> network_wellformed (pr_subnet p \<noteq> []) (pr_network p)"

definition profiles_ok :: "string profile list \<Rightarrow> bool" where
  "profiles_ok t \<longleftrightarrow> keyed pr_id t \<and> keyed pr_name t \<and> (\<forall>r \<in> set t. profile_ok r)"

lemma valid_families_fixed: "list_all (\<lambda>s. lower_trim s = s \<and> s \<noteq> []) valid_os_families" "''any'' \<in> set valid_os_families"
  by code_simp+

lemma canonical_family_valid: "validate_os_family s = None \<Longrightarrow> canonical_os_family s \<in> set valid_os_families"
  using valid_families_fixed(2)
  by (auto simp: validate_os_family_def canonical_os_family_def Let_def split: if_splits)

lemma canonical_family_fixed: "s \<in> set valid_os_families \<Longrightarrow> canonical_os_family s = s"
  using valid_families_fixed(1) by (auto simp: canonical_os_family_def Let_def list_all_iff)

lemma profile_subnet_ok: "validate_profile_subnet s = Inr i \<Longrightarrow> i = [] \<or> hex32_match i"
  by (auto simp: validate_profile_subnet_def Let_def split: if_splits)

lemma scan_profile_ok: "profile_ok r \<Longrightarrow> profile_ok (scan_profile r)"
  by (simp add: profile_ok_def profile_shape_def scan_profile_def canonical_family_fixed)

lemma create_profile_fields_ok:
  assumes "create_profile_fields h inp = Inr mk" "hex32_match i"
  shows "profile_ok (mk i now)" "pr_id (mk i now) = i"
  using assms unfolding create_profile_fields_def Let_def and_then_Inr
  by (auto simp: profile_ok_def profile_shape_def canonical_family_valid
      dest: validate_target_disk_fixed profile_subnet_ok validate_network_wellformed)

lemma set_field_cases:
  assumes "set_field v check put p = Inr p'"
  obtains "p' = p" "v = None" | x y where "v = Some x" "check x = Inr y" "p' = put y p"
  using assms by (auto simp: set_field_def and_then_Inr split: option.splits)

lemma set_field_keeps:
  "set_field v check put p = Inr p' \<Longrightarrow> Q p \<Longrightarrow> (\<And>x y. check x = Inr y \<Longrightarrow> Q p \<Longrightarrow> Q (put y p)) \<Longrightarrow> Q p'"
  by (erule set_field_cases) auto

lemma checked_Inr [simp]: "checked bad e x = Inr y \<longleftrightarrow> \<not> bad \<and> y = x"
  by (auto simp: checked_def)

lemma wellformed_without_subnet: "network_wellformed h nc \<Longrightarrow> network_wellformed False nc"
  by (auto simp: network_wellformed_def)

lemma wellformed_stripped:
  "network_wellformed h nc \<Longrightarrow>
   network_wellformed True (nc\<lparr>nc_prefix_len := 0, nc_gateway := [], nc_dns := [], nc_vlan := 0\<rparr>)"
  by (cases "nc_bond nc") (auto simp: network_wellformed_def)

lemma edit_network_ok:
  assumes e: "edit_network inp p = Inr p'" and n: "network_wellformed h (pr_network p)"
    and same: "pu_subnet inp = None \<Longrightarrow> h = (pr_subnet p \<noteq> [])"
  shows "network_wellformed (pr_subnet p' \<noteq> []) (pr_network p') \<and> pr_subnet p' = pr_subnet p
    \<and> (profile_shape p \<longrightarrow> profile_shape p') \<and> pr_id p' = pr_id p \<and> pr_name p' = pr_name p"
  using e n same wellformed_without_subnet [OF n] wellformed_stripped [OF n]
  by (cases "pr_subnet p = []")
    (auto simp: edit_network_def and_then_Inr profile_shape_def split: option.splits if_splits
      dest: validate_network_wellformed)

text \<open>The fields before and after the network, which the edit checks one by one.\<close>

definition edited_from :: "'d profile \<Rightarrow> 'e profile \<Rightarrow> bool" where
  "edited_from p q \<longleftrightarrow> profile_shape q \<and> pr_id q = pr_id p \<and> pr_name q = pr_name p"

definition plainly_from :: "'d profile \<Rightarrow> 'e profile \<Rightarrow> bool" where
  "plainly_from p q \<longleftrightarrow> edited_from p q \<and> pr_subnet q = pr_subnet p \<and> pr_network q = pr_network p"

definition finally_from :: "'d profile \<Rightarrow> 'e profile \<Rightarrow> bool" where
  "finally_from p q \<longleftrightarrow> edited_from p q \<and> network_wellformed (pr_subnet q \<noteq> []) (pr_network q)"

lemma edit_profile_ok:
  assumes e: "edit_profile inp p0 = Inr p" and ok: "profile_ok p0"
  shows "profile_ok p \<and> pr_id p = pr_id p0 \<and> pr_name p = pr_name p0"
proof -
  from e obtain p1 p2 p3 p4 p5 p6 p7 p8 p9 p10 where
    f1: "set_field (pu_description inp)
        (\<lambda>s. let d = trim_space s in checked (max_description_len < length d) (ProfileDescription (length d)) d)
        (\<lambda>d p. p\<lparr>pr_description := d\<rparr>) p0 = Inr p1"
    and f2: "set_field (pu_hostname inp)
        (\<lambda>s. let h = trim_space s in and_then (field (check_err (validate_hostname_template h))) (\<lambda>_. Inr h))
        (\<lambda>h p. p\<lparr>pr_hostname := h\<rparr>) p1 = Inr p2"
    and f3: "set_field (pu_hash inp)
        (\<lambda>s. let h = trim_space s in checked (\<not> sha512crypt_match h) ProfileHash h) (\<lambda>h p. p\<lparr>pr_hash := h\<rparr>) p2 = Inr p3"
    and f4: "set_field (raw_given (pu_disk inp)) (\<lambda>raw. field (validate_target_disk raw)) (\<lambda>td p. p\<lparr>pr_disk := td\<rparr>) p3 = Inr p4"
    and subnet: "set_field (pu_subnet inp) (\<lambda>s. field (validate_profile_subnet s)) (\<lambda>s p. p\<lparr>pr_subnet := s\<rparr>) p4 = Inr p5"
    and net: "edit_network inp p5 = Inr p6"
    and f7: "set_field (pu_family inp)
        (\<lambda>s. and_then (field (check_err (validate_os_family s))) (\<lambda>_. Inr (canonical_os_family s)))
        (\<lambda>s p. p\<lparr>pr_family := s\<rparr>) p6 = Inr p7"
    and f8: "set_field (pu_renderer inp)
        (\<lambda>s. let v = trim_space s in and_then (validate_network_renderer v) (\<lambda>_. Inr v)) (\<lambda>v p. p\<lparr>pr_renderer := v\<rparr>) p7 = Inr p8"
    and f9: "set_field (pu_bootloader inp)
        (\<lambda>s. let v = trim_space s in and_then (validate_bootloader v) (\<lambda>_. Inr v)) (\<lambda>v p. p\<lparr>pr_bootloader := v\<rparr>) p8 = Inr p9"
    and f10: "set_field (pu_dns inp) (\<lambda>s. field (validate_chroot_dns s)) (\<lambda>v p. p\<lparr>pr_dns := parse_chroot_dns v\<rparr>) p9 = Inr p10"
    and f11: "set_field (pu_agent inp) Inr (\<lambda>b p. p\<lparr>pr_agent := b\<rparr>) p10 = Inr p"
    unfolding edit_profile_def and_then_Inr by (elim exE conjE) (rule that)
  have "plainly_from p0 p0"
    using ok by (simp add: plainly_from_def edited_from_def profile_ok_def)
  then have "plainly_from p0 p1"
    by (rule set_field_keeps [OF f1]) (auto simp: plainly_from_def edited_from_def profile_shape_def Let_def)
  then have "plainly_from p0 p2"
    by (rule set_field_keeps [OF f2]) (auto simp: plainly_from_def edited_from_def profile_shape_def Let_def and_then_Inr)
  then have "plainly_from p0 p3"
    by (rule set_field_keeps [OF f3]) (auto simp: plainly_from_def edited_from_def profile_shape_def Let_def)
  then have p4: "plainly_from p0 p4"
    by (rule set_field_keeps [OF f4])
      (auto simp: plainly_from_def edited_from_def profile_shape_def dest: validate_target_disk_fixed)
  have p5: "edited_from p0 p5 \<and> pr_network p5 = pr_network p0
      \<and> (pu_subnet inp = None \<longrightarrow> pr_subnet p5 = pr_subnet p0)"
    using subnet by (rule set_field_cases)
      (use p4 in \<open>auto simp: plainly_from_def edited_from_def profile_shape_def dest: profile_subnet_ok\<close>)
  have "network_wellformed (pr_subnet p6 \<noteq> []) (pr_network p6) \<and> edited_from p0 p6"
    using edit_network_ok [OF net, of "pr_subnet p0 \<noteq> []"] p5 ok by (auto simp: edited_from_def profile_ok_def)
  then have "finally_from p0 p6" by (simp add: finally_from_def)
  then have "finally_from p0 p7"
    by (rule set_field_keeps [OF f7])
      (auto simp: finally_from_def edited_from_def profile_shape_def and_then_Inr canonical_family_valid)
  then have "finally_from p0 p8"
    by (rule set_field_keeps [OF f8]) (auto simp: finally_from_def edited_from_def profile_shape_def Let_def and_then_Inr)
  then have "finally_from p0 p9"
    by (rule set_field_keeps [OF f9]) (auto simp: finally_from_def edited_from_def profile_shape_def Let_def and_then_Inr)
  then have "finally_from p0 p10"
    by (rule set_field_keeps [OF f10]) (auto simp: finally_from_def edited_from_def profile_shape_def)
  then have "finally_from p0 p"
    by (rule set_field_keeps [OF f11]) (auto simp: finally_from_def edited_from_def profile_shape_def)
  then show ?thesis by (simp add: finally_from_def edited_from_def profile_ok_def)
qed

lemma sql_update_profile_ok:
  assumes t: "profiles_ok t" and p: "profile_ok p"
  shows "profiles_ok (sql_update_profile p now i t)"
proof -
  let ?f = "\<lambda>r :: string profile. r\<lparr>pr_description := pr_description p, pr_hostname := pr_hostname p, pr_hash := pr_hash p,
     pr_disk := pr_disk p, pr_network := pr_network p, pr_family := pr_family p, pr_subnet := pr_subnet p,
     pr_renderer := pr_renderer p, pr_bootloader := pr_bootloader p, pr_dns := join_chroot_dns (pr_dns p),
     pr_agent := pr_agent p, pr_updated := now\<rparr>"
  have "profile_ok r \<Longrightarrow> profile_ok (?f r)" for r
    using p by (simp add: profile_ok_def profile_shape_def)
  then have "\<forall>r \<in> set (sql_update_profile p now i t). profile_ok r"
    using t unfolding sql_update_profile_def profiles_ok_def set_upd_where by auto
  then show ?thesis
    using t by (simp add: profiles_ok_def sql_update_profile_def keyed_upd)
qed

lemma update_profile_ok:
  assumes u: "update_profile fl now i inp t = (res, t')" and t: "profiles_ok t"
  shows "profiles_ok t'"
proof (cases "and_then (get_profile fl i t) (edit_profile inp)")
  case (Inl e)
  then show ?thesis using u t by (simp add: update_profile_def)
next
  case (Inr p)
  then obtain q where q: "get_profile fl i t = Inr q" "edit_profile inp q = Inr p" by (auto simp: and_then_Inr)
  from q(1) obtain r where "r \<in> set t" "q = scan_profile r"
    by (auto simp: get_profile_def split: option.splits dest: sel_row_Some)
  then have "profile_ok q" using t by (auto simp: profiles_ok_def intro: scan_profile_ok)
  then have "profile_ok p" using edit_profile_ok [OF q(2)] by blast
  then show ?thesis
    using u t Inr by (auto simp: update_profile_def sql_update_profile_ok split: option.splits)
qed

lemma create_profile_ok:
  assumes c: "create_profile fl now rid h inp t = (res, t')" and t: "profiles_ok t"
    and rid: "\<And>i. rid = Inr i \<Longrightarrow> hex32_match i"
  shows "profiles_ok t'"
proof (cases "t' = t")
  case False
  with c obtain mk i where f: "create_profile_fields h inp = Inr mk" "rid = Inr i"
    and ins: "sql_insert_profile (mk i (unix now)) t = Inr t'"
    by (auto simp: create_profile_def try_sql_def Let_def split: sum.splits option.splits)
  have "profile_ok (mk i (unix now))" using create_profile_fields_ok [OF f(1) rid [OF f(2)]] by blast
  then show ?thesis
    using ins t by (auto simp: sql_insert_profile_def profiles_ok_def intro!: keyed_ins split: if_splits)
qed (use t in simp)

lemma delete_profile_ok:
  "delete_profile fl referenced i t = (res, t') \<Longrightarrow> profiles_ok t \<Longrightarrow> profiles_ok t'"
  by (auto simp: delete_profile_def try_sql_def profiles_ok_def split: option.splits if_splits sum.splits)

inductive profile_step :: "string profile list \<Rightarrow> string profile list \<Rightarrow> bool" where
  create: "create_profile fl now rid h inp t = (out, t') \<Longrightarrow> (\<And>i. rid = Inr i \<Longrightarrow> hex32_match i) \<Longrightarrow> profile_step t t'"
| update: "update_profile fl now i inp t = (out, t') \<Longrightarrow> profile_step t t'"
| delete: "delete_profile fl referenced i t = (err, t') \<Longrightarrow> profile_step t t'"

interpretation profile_steps: transition_system profile_step profiles_ok
proof
  fix t t' assume "profile_step t t'" "profiles_ok t"
  then show "profiles_ok t'"
    by (cases rule: profile_step.cases) (auto intro: create_profile_ok update_profile_ok delete_profile_ok)
qed

subsection \<open>Properties\<close>

text \<open>
  The profile catalog stays canonical: whatever is created, edited and deleted, wherever the
  database fails, identifiers and names stay unique and every stored profile satisfies its rules; in
  particular its network template has the form the presence of a subnet demands, also when an edit
  sets or clears the subnet without sending a network.
\<close>

theorem profile_catalog_canonical:
  assumes "profile_step\<^sup>*\<^sup>* [] t"
  shows "keyed pr_id t \<and> keyed pr_name t \<and> (\<forall>p \<in> set t. profile_ok p)"
  using profile_steps.reach_inv [OF assms] by (simp add: profiles_ok_def)

definition references_ok :: "profile_world \<Rightarrow> bool" where
  "references_ok w \<longleftrightarrow>
    (\<forall>b \<in> set (pw_bindings w). bd_profile b \<in> pr_id ` set (pw_profiles w))
    \<and> (\<forall>j \<in> set (db_jobs (pw_jobs w)). jb_profile j \<in> pr_id ` set (pw_profiles w))"

lemma delete_profile_cases:
  assumes "delete_profile fl referenced i t = (err, t')"
  obtains "t' = t" "err \<noteq> None" | "err = None" "\<not> referenced i" "t' = del_where (\<lambda>r. pr_id r = i) t"
proof (cases "hits (\<lambda>r. pr_id r = i) t = 0")
  case True
  then have "del_where (\<lambda>r. pr_id r = i) t = t"
    by (auto simp: hits_def del_where_def filter_id_conv filter_empty_conv)
  with True assms show thesis
    by (intro that(1)) (auto simp: delete_profile_def try_sql_def split: option.splits)
next
  case False
  with assms that show thesis
    by (auto simp: delete_profile_def try_sql_def split: option.splits if_splits)
qed

lemma delete_bindings_subset: "delete_bindings_by_profile fl i t = (res, t') \<Longrightarrow> set t' \<subseteq> set t"
  by (auto simp: delete_bindings_by_profile_def split: option.splits)

lemma delete_jobs_subset: "delete_by_profile fl i db = (res, db') \<Longrightarrow> set (db_jobs db') \<subseteq> set (db_jobs db)"
  by (auto simp: delete_by_profile_def try_sql_def split: option.splits sum.splits elim!: sql_delete_jobs_cases)

lemma api_delete_profile_cases:
  assumes "api_delete_profile fb fj fp hb hj raw w = (code, w')"
  obtains (kept) "code \<noteq> 204" "pw_profiles w' = pw_profiles w" "set (pw_bindings w') \<subseteq> set (pw_bindings w)"
      "set (db_jobs (pw_jobs w')) \<subseteq> set (db_jobs (pw_jobs w))"
  | (deleted) bs db where "code = 204" "set bs \<subseteq> set (pw_bindings w)" "set (db_jobs db) \<subseteq> set (db_jobs (pw_jobs w))"
      "\<not> profile_referenced (w\<lparr>pw_bindings := bs, pw_jobs := db\<rparr>) (lower_trim raw)"
      "w' = set_profiles (del_where (\<lambda>r. pr_id r = lower_trim raw) (pw_profiles w)) (w\<lparr>pw_bindings := bs, pw_jobs := db\<rparr>)"
proof -
  let ?i = "lower_trim raw"
  obtain rb bs where b: "(if hb then delete_bindings_by_profile fb ?i (pw_bindings w) else (Inr 0, pw_bindings w)) = (rb, bs)"
    by force
  obtain rj db where j: "(if hj then delete_by_profile fj ?i (pw_jobs w) else (Inr 0, pw_jobs w)) = (rj, db)" by force
  let ?w = "w\<lparr>pw_bindings := bs, pw_jobs := db\<rparr>"
  obtain err t where p: "delete_profile fp (profile_referenced ?w) ?i (pw_profiles ?w) = (err, t)" by force
  have sub: "set bs \<subseteq> set (pw_bindings w)" "set (db_jobs db) \<subseteq> set (db_jobs (pw_jobs w))"
    using b j by (auto split: if_splits dest: delete_bindings_subset delete_jobs_subset)
  note run = assms [unfolded api_delete_profile_def Let_def b j, simplified]
  show thesis
  proof (cases "hex32_match ?i \<and> (\<exists>n. rb = Inr n) \<and> (\<exists>k. rj = Inr k)")
    case False
    show thesis
      by (rule kept) (use False run sub in \<open>auto split: if_splits sum.splits\<close>)
  next
    case True
    then have run: "(case delete_profile fp (profile_referenced ?w) ?i (pw_profiles ?w) of
         (None, t) \<Rightarrow> (204, set_profiles t ?w)
       | (Some ProfileNotFound, t) \<Rightarrow> (404, set_profiles t ?w)
       | (Some e, t) \<Rightarrow> (500, set_profiles t ?w)) = (code, w')"
      using run by auto
    from p show thesis
    proof (cases rule: delete_profile_cases)
      case 1
      show thesis
        by (rule kept) (use 1 run p sub in \<open>auto simp: set_profiles_def split: option.splits store_error.splits\<close>)
    next
      case 2
      show thesis
        by (rule deleted [OF _ sub]) (use 2 run p in auto)
    qed
  qed
qed

text \<open>
  C17: Deleting a profile leaves nothing that refers to it: assignments and jobs always refer to
  profiles that exist, also when a step of the deletion fails half way; when the handler reports
  success the profile is gone and so is everything that named it, and otherwise the catalog is
  unchanged.
\<close>

theorem profile_deletion_keeps_references:
  assumes "references_ok w" and "api_delete_profile fb fj fp hb hj raw w = (code, w')"
  shows "references_ok w'
    \<and> (if code = 204
       then lower_trim raw \<notin> pr_id ` set (pw_profiles w')
         \<and> (\<forall>b \<in> set (pw_bindings w'). bd_profile b \<noteq> lower_trim raw)
         \<and> (\<forall>j \<in> set (db_jobs (pw_jobs w')). jb_profile j \<noteq> lower_trim raw)
       else pw_profiles w' = pw_profiles w)"
  using assms(2)
proof (cases rule: api_delete_profile_cases)
  case kept
  then show ?thesis using assms(1) by (auto simp: references_ok_def)
next
  case (deleted bs db)
  have "bd_profile b \<noteq> lower_trim raw" if "b \<in> set bs" for b
    using deleted(4) that by (auto simp: profile_referenced_def list_ex_iff)
  moreover have "jb_profile j \<noteq> lower_trim raw" if "j \<in> set (db_jobs db)" for j
    using deleted(4) that by (auto simp: profile_referenced_def list_ex_iff)
  moreover have "pr_id ` set (pw_profiles w') = pr_id ` set (pw_profiles w) - {lower_trim raw}"
    by (auto simp: deleted(5) set_profiles_def)
  moreover have "pw_bindings w' = bs" "db_jobs (pw_jobs w') = db_jobs db"
    by (simp_all add: deleted(5) set_profiles_def)
  ultimately show ?thesis
    using assms(1) deleted(1-3) unfolding references_ok_def by auto
qed

subsection \<open>Witnesses and counterexamples\<close>

definition sample_hash :: string where
  "sample_hash = ''$6$salt$'' @ replicate 86 (CHR ''x'')"

definition sample_profile_create :: "string \<Rightarrow> profile_create" where
  "sample_profile_create renderer =
    \<lparr>pc_name = ''base'', pc_description = [], pc_hostname = ''node-{serial}'', pc_hash = sample_hash,
     pc_disk = RawOk \<lparr>td_mode = ''smallest'', td_value = []\<rparr>, pc_network = RawOk sample_network, pc_family = ''Ubuntu'',
     pc_subnet = [], pc_renderer = renderer, pc_bootloader = [], pc_dns = [], pc_agent = False, pc_created_by = ''root''\<rparr>"

definition sample_profile :: "string \<Rightarrow> string profile" where
  "sample_profile renderer =
    \<lparr>pr_id = hex_id CHR ''b'', pr_name = ''base'', pr_description = [], pr_hostname = ''node-{serial}'',
     pr_hash = sample_hash, pr_disk = \<lparr>td_mode = ''smallest'', td_value = []\<rparr>, pr_network = sample_network_stored,
     pr_family = ''ubuntu'', pr_subnet = [], pr_renderer = renderer, pr_bootloader = [], pr_dns = [], pr_agent = False,
     pr_created = 0, pr_updated = 0, pr_created_by = ''root''\<rparr>"

lemma sample_profile_created:
  "snd (create_profile no_faults 0 (Inr (hex_id CHR ''b'')) [] (sample_profile_create ''eni'') []) = [sample_profile ''eni'']"
  by code_simp

lemma profile_catalog_canonical_witness: "profile_ok (sample_profile ''eni'')"
proof -
  have "create_profile no_faults 0 (Inr (hex_id CHR ''b'')) [] (sample_profile_create ''eni'') []
      = (fst (create_profile no_faults 0 (Inr (hex_id CHR ''b'')) [] (sample_profile_create ''eni'') []), [sample_profile ''eni''])"
    by (simp add: sample_profile_created [symmetric])
  moreover have "hex32_match (hex_id CHR ''b'')" by code_simp
  ultimately have "profile_step [] [sample_profile ''eni'']" by (intro profile_step.create) auto
  from profile_catalog_canonical [OF r_into_rtranclp [of profile_step, OF this]] show ?thesis by simp
qed

definition sample_world :: "job list \<Rightarrow> profile_world" where
  "sample_world js =
    \<lparr>pw_profiles = [sample_profile []], pw_bindings = [sample_binding CHR ''1'' ''10.0.1.3''],
     pw_jobs = \<lparr>db_machines = [], db_images = [], db_profiles = [hex_id CHR ''b''], db_jobs = js, db_logs = [], db_log_seq = 0\<rparr>\<rparr>"

definition job_of_profile :: "char \<Rightarrow> char \<Rightarrow> job_status \<Rightarrow> string option \<Rightarrow> job" where
  "job_of_profile i p s retry =
    \<lparr>jb_id = hex_id i, jb_machine = machine_id CHR ''1'', jb_type = ''install'', jb_image = hex_id CHR ''a'',
     jb_profile = hex_id p, jb_status = s, jb_stage = [], jb_error = [], jb_created = 0, jb_started = Some 0,
     jb_finished = None, jb_created_by = ''orchestrator'', jb_retry = retry\<rparr>"

lemma sample_deletion:
  "api_delete_profile no_faults no_faults no_faults True True (hex_id CHR ''B'') (sample_world [job_of_profile CHR ''d'' CHR ''b'' Running None])
    = (204, \<lparr>pw_profiles = [], pw_bindings = [],
             pw_jobs = \<lparr>db_machines = [], db_images = [], db_profiles = [], db_jobs = [], db_logs = [], db_log_seq = 0\<rparr>\<rparr>)"
  by code_simp

lemma profile_deletion_keeps_references_witness:
  "references_ok (snd (api_delete_profile no_faults no_faults no_faults True True (hex_id CHR ''B'')
      (sample_world [job_of_profile CHR ''d'' CHR ''b'' Running None])))"
proof -
  have "references_ok (sample_world [job_of_profile CHR ''d'' CHR ''b'' Running None])" by code_simp
  from profile_deletion_keeps_references [OF this sample_deletion] show ?thesis by (simp add: sample_deletion)
qed

text \<open>
  The deletion takes a running job with it (\<open>sample_deletion\<close>). It is not atomic: here the jobs cannot
  be deleted, because a job of another profile retries one of them, and the assignments are gone all
  the same. And a renderer name is accepted with spaces around it and stored with them.
\<close>

theorem failed_deletion_drops_assignments:
  "let r = api_delete_profile no_faults no_faults no_faults True True (hex_id CHR ''b'')
        (sample_world [job_of_profile CHR ''d'' CHR ''b'' Failed None, job_of_profile CHR ''e'' CHR ''c'' Pending (Some (hex_id CHR ''d''))])
   in fst r = 500 \<and> pw_bindings (snd r) = [] \<and> length (pw_profiles (snd r)) = 1"
  by code_simp

theorem renderer_stored_with_spaces:
  "snd (create_profile no_faults 0 (Inr (hex_id CHR ''b'')) [] (sample_profile_create '' eni'') []) = [sample_profile '' eni'']"
  by code_simp

end
