(* ===== verification/Agent_Api.thy ===== *)
theory Agent_Api
  imports Orchestrator Profile_Store
begin

text \<open>
  The HTTP handlers on top of the job store: \<open>internal/jobs/agent_api.go\<close> (the calls of the agent in
  the live system, with the installation blueprint of \<open>installspec.go\<close>) and \<open>internal/jobs/api.go\<close>
  (the operator's calls). An answer is a status and a body. The handlers pick the status by searching
  the text of an error, so the texts are modelled; \<open>quote\<close> is the \<open>%q\<close> verb of the formatter.
  In a handler the statements of \<open>verifyOwnership\<close> come first in the fault plan.
\<close>

subsection \<open>Error texts\<close>

definition job_error_text :: "(string \<Rightarrow> string) \<Rightarrow> job_error \<Rightarrow> string" where
  "job_error_text quote e =
    (case e of
       BadMachineUuid u \<Rightarrow> ''machine_uuid '' @ quote u @ '': must be canonical lowercase SMBIOS UUID''
     | BadId f i \<Rightarrow> f @ '' '' @ quote i @ '': must be 32 lowercase hex chars''
     | BadType t \<Rightarrow> ''type '' @ quote t @ '': must be install or reinstall''
     | StageTooLong n \<Rightarrow> ''stage length '' @ digits_nat n @ '' exceeds '' @ digits_nat max_stage_len
     | BadLevel s \<Rightarrow> ''level '' @ quote s @ '': must be debug/info/warn/error''
     | BadStatus s \<Rightarrow> ''status '' @ quote s @ '': invalid''
     | CreatedByMissing \<Rightarrow> ''jobs: created_by is required''
     | JobNotFound \<Rightarrow> ''jobs: not found''
     | InFlight \<Rightarrow> ''jobs: machine already has a pending or running job''
     | MachineUnknown u \<Rightarrow> ''jobs: machine_uuid not in inventory: '' @ u
     | ImageUnknown i \<Rightarrow> ''jobs: image_id not in catalog: '' @ i
     | ProfileUnknown i \<Rightarrow> ''jobs: profile_id not in catalog: '' @ i
     | InvalidTransition s \<Rightarrow> ''jobs: invalid state transition: status='' @ status_text s
     | JobRandom msg \<Rightarrow> ''read random: '' @ msg
     | JobDb op msg \<Rightarrow> op @ '': '' @ msg
     | JobDriver msg \<Rightarrow> msg)"

datatype 'a body = Empty | ErrorText string | Json 'a

type_synonym 'a answer = "nat \<times> 'a body"

text \<open>The statuses a failed call of the store maps to: the two sentinels, the texts, then 500.\<close>

definition job_failure :: "(string \<Rightarrow> string) \<Rightarrow> string list \<Rightarrow> string \<Rightarrow> job_error \<Rightarrow> 'a answer" where
  "job_failure quote bad_texts internal e =
    (case e of
       InvalidTransition s \<Rightarrow> (409, ErrorText (job_error_text quote e))
     | JobNotFound \<Rightarrow> (404, ErrorText ''job not found'')
     | _ \<Rightarrow>
       (if list_ex (\<lambda>w. contains_sub w (job_error_text quote e)) bad_texts
        then (400, ErrorText (job_error_text quote e))
        else (500, ErrorText internal)))"

subsection \<open>The agent's calls\<close>

record agent_body =
  ab_machine :: string
  ab_stage :: string
  ab_level :: string
  ab_message :: string
  ab_error :: string

text \<open>\<open>strings.EqualFold\<close> against a stored identifier, which is ASCII and has no letter with a foreign fold.\<close>

definition equal_fold :: "string \<Rightarrow> string \<Rightarrow> bool" where
  "equal_fold s t \<longleftrightarrow> map lower_byte s = map lower_byte t"

definition verify_ownership ::
  "(string \<Rightarrow> string) \<Rightarrow> faults \<Rightarrow> string \<Rightarrow> string \<Rightarrow> jobs_db \<Rightarrow> ('a answer, job) result"
where
  "verify_ownership quote fl i muuid db =
    (if muuid = [] then Inl (400, ErrorText ''machine_uuid is required'')
     else case get_job fl i db of
       Inl JobNotFound \<Rightarrow> Inl (404, ErrorText ''job not found'')
     | Inl e \<Rightarrow>
         Inl (if contains_sub ''job_id'' (job_error_text quote e) then (400, ErrorText (job_error_text quote e))
              else (500, ErrorText ''fetch failed''))
     | Inr j \<Rightarrow>
         (if \<not> equal_fold (jb_machine j) muuid then Inl (403, ErrorText ''machine_uuid does not match job owner'')
          else Inr j))"

text \<open>
  What the five state-changing handlers share: the path value, the decoded body (\<open>Inl\<close> is the
  decoder's error), ownership, then the call.
\<close>

definition owned_call ::
  "(string \<Rightarrow> string) \<Rightarrow> faults \<Rightarrow> string \<Rightarrow> (string, agent_body) result \<Rightarrow>
   (string \<Rightarrow> agent_body \<Rightarrow> jobs_db \<Rightarrow> 'a answer \<times> jobs_db) \<Rightarrow> jobs_db \<Rightarrow> 'a answer \<times> jobs_db"
where
  "owned_call quote fl path dec call db =
    (case dec of
       Inl msg \<Rightarrow> ((400, ErrorText (''invalid json: '' @ msg)), db)
     | Inr b \<Rightarrow>
       (case verify_ownership quote fl (lower_trim path) (lower_trim (ab_machine b)) db of
          Inl a \<Rightarrow> (a, db)
        | Inr j \<Rightarrow> call (lower_trim path) b db))"

text \<open>Statement 0 of the fault plan is the ownership check, the call has the plan from 1 on.\<close>

definition later :: "faults \<Rightarrow> faults" where
  "later fl k = fl (Suc k)"

definition claim_answer :: "(string \<Rightarrow> string) \<Rightarrow> (job_error, job) result \<times> jobs_db \<Rightarrow> job answer \<times> jobs_db" where
  "claim_answer quote r =
    (case r of
       (Inl e, db) \<Rightarrow> (job_failure quote [] ''claim failed'' e, db)
     | (Inr j, db) \<Rightarrow> ((200, Json j), db))"

definition agent_claim ::
  "(string \<Rightarrow> string) \<Rightarrow> faults \<Rightarrow> time \<Rightarrow> string \<Rightarrow> (string, agent_body) result \<Rightarrow> jobs_db \<Rightarrow> job answer \<times> jobs_db"
where
  "agent_claim quote fl now path dec =
    owned_call quote fl path dec (\<lambda>i b db. claim_answer quote (claim_job (later fl) now i db))"

text \<open>\<open>StatusNoContent\<close>, or the failure.\<close>

definition no_content ::
  "(string \<Rightarrow> string) \<Rightarrow> string list \<Rightarrow> string \<Rightarrow> job_error option \<times> jobs_db \<Rightarrow> job answer \<times> jobs_db"
where
  "no_content quote bad internal r =
    (case r of
       (Some e, db) \<Rightarrow> (job_failure quote bad internal e, db)
     | (None, db) \<Rightarrow> ((204, Empty), db))"

definition agent_stage ::
  "(string \<Rightarrow> string) \<Rightarrow> faults \<Rightarrow> string \<Rightarrow> (string, agent_body) result \<Rightarrow> jobs_db \<Rightarrow> job answer \<times> jobs_db"
where
  "agent_stage quote fl path dec =
    owned_call quote fl path dec (\<lambda>i b db.
      no_content quote [''stage'', ''job_id''] ''stage update failed'' (update_stage (later fl) i (ab_stage b) db))"

text \<open>\<open>AppendLog\<close> never reports an invalid transition.\<close>

definition agent_log ::
  "(string \<Rightarrow> string) \<Rightarrow> faults \<Rightarrow> time \<Rightarrow> string \<Rightarrow> (string, agent_body) result \<Rightarrow> jobs_db \<Rightarrow> job answer \<times> jobs_db"
where
  "agent_log quote fl now path dec =
    owned_call quote fl path dec (\<lambda>i b db.
      no_content quote [''level'', ''job_id''] ''log failed'' (append_log (later fl) now i (ab_level b) (ab_message b) db))"

definition agent_succeed ::
  "(string \<Rightarrow> string) \<Rightarrow> faults \<Rightarrow> time \<Rightarrow> string \<Rightarrow> (string, agent_body) result \<Rightarrow> jobs_db \<Rightarrow> job answer \<times> jobs_db"
where
  "agent_succeed quote fl now path dec =
    owned_call quote fl path dec (\<lambda>i b db. no_content quote [] ''succeed failed'' (succeed_job (later fl) now i db))"

definition agent_fail ::
  "(string \<Rightarrow> string) \<Rightarrow> faults \<Rightarrow> time \<Rightarrow> string \<Rightarrow> (string, agent_body) result \<Rightarrow> jobs_db \<Rightarrow> job answer \<times> jobs_db"
where
  "agent_fail quote fl now path dec =
    owned_call quote fl path dec (\<lambda>i b db. no_content quote [] ''fail failed'' (fail_job (later fl) now i (ab_error b) db))"

definition agent_current :: "(string \<Rightarrow> string) \<Rightarrow> faults \<Rightarrow> string \<Rightarrow> jobs_db \<Rightarrow> job answer" where
  "agent_current quote fl param db =
    (let muuid = lower_trim param in
     if muuid = [] then (400, ErrorText ''machine_uuid query param required'')
     else case current_for_machine fl muuid db of
       Inl JobNotFound \<Rightarrow> (404, ErrorText ''no in-flight job'')
     | Inl e \<Rightarrow>
         (if contains_sub ''machine_uuid'' (job_error_text quote e) then (400, ErrorText (job_error_text quote e))
          else (500, ErrorText ''fetch failed''))
     | Inr j \<Rightarrow> (200, Json j))"

subsection \<open>The operator's calls\<close>

text \<open>\<open>strconv.Atoi\<close> and \<open>strconv.ParseInt(s, 10, 64)\<close>.\<close>

definition atoi :: "string \<Rightarrow> int option" where
  "atoi s =
    (let neg = (s \<noteq> [] \<and> hd s = CHR ''-''); signed = (s \<noteq> [] \<and> hd s \<in> {CHR ''-'', CHR ''+''});
         ds = (if signed then tl s else s); v = int (val_digits ds); n = (if neg then - v else v) in
     if ds = [] \<or> \<not> list_all is_digit ds \<or> n < - (2 ^ 63) \<or> 2 ^ 63 \<le> n then None else Some n)"

text \<open>A numeric query parameter: the default when it is empty, refused when it is no number or negative.\<close>

definition number_param :: "string \<Rightarrow> int \<Rightarrow> int option" where
  "number_param s d = (if s = [] then Some d else case atoi s of None \<Rightarrow> None | Some n \<Rightarrow> if n < 0 then None else Some n)"

definition api_list_jobs ::
  "(string \<Rightarrow> string) \<Rightarrow> faults \<Rightarrow> string \<Rightarrow> string \<Rightarrow> string \<Rightarrow> jobs_db \<Rightarrow> job list answer"
where
  "api_list_jobs quote fl machine status limit db =
    (case number_param limit 0 of
       None \<Rightarrow> (400, ErrorText ''invalid limit'')
     | Some n \<Rightarrow>
       (case list_jobs fl \<lparr>jf_machine = lower_trim machine, jf_status = trim_space status, jf_limit = n\<rparr> db of
          Inl e \<Rightarrow>
            (if contains_sub ''invalid'' (job_error_text quote e) \<or> contains_sub ''machine_uuid'' (job_error_text quote e)
             then (400, ErrorText (job_error_text quote e)) else (500, ErrorText ''list failed''))
        | Inr js \<Rightarrow> (200, Json js)))"

definition api_get_job :: "(string \<Rightarrow> string) \<Rightarrow> faults \<Rightarrow> string \<Rightarrow> jobs_db \<Rightarrow> job answer" where
  "api_get_job quote fl path db =
    (case get_job fl (lower_trim path) db of
       Inl e \<Rightarrow> job_failure quote [''job_id''] ''fetch failed'' e
     | Inr j \<Rightarrow> (200, Json j))"

definition api_job_logs ::
  "(string \<Rightarrow> string) \<Rightarrow> faults \<Rightarrow> string \<Rightarrow> string \<Rightarrow> string \<Rightarrow> jobs_db \<Rightarrow> job_log list answer"
where
  "api_job_logs quote fl path since limit db =
    (case number_param since 0 of
       None \<Rightarrow> (400, ErrorText ''invalid since_id'')
     | Some n \<Rightarrow>
       (case number_param limit 200 of
          None \<Rightarrow> (400, ErrorText ''invalid limit'')
        | Some l \<Rightarrow>
          (case job_logs fl (lower_trim path) n l db of
             Inl e \<Rightarrow>
               (if contains_sub ''job_id'' (job_error_text quote e) then (400, ErrorText (job_error_text quote e))
                else (500, ErrorText ''logs failed''))
           | Inr ls \<Rightarrow> (200, Json ls))))"

definition api_cancel_job ::
  "(string \<Rightarrow> string) \<Rightarrow> faults \<Rightarrow> time \<Rightarrow> string \<Rightarrow> string \<Rightarrow> jobs_db \<Rightarrow> job answer \<times> jobs_db"
where
  "api_cancel_job quote fl now actor path db =
    (case cancel_job fl now (lower_trim path) db of
       (Some e, db') \<Rightarrow> (job_failure quote [''job_id''] ''cancel failed'' e, db')
     | (None, db') \<Rightarrow>
         ((204, Empty), snd (append_log (\<lambda>k. fl (2 + k)) now (lower_trim path) ''info'' (''cancelled by '' @ actor) db')))"

definition api_delete_job :: "(string \<Rightarrow> string) \<Rightarrow> faults \<Rightarrow> string \<Rightarrow> jobs_db \<Rightarrow> job answer \<times> jobs_db" where
  "api_delete_job quote fl path db =
    (case delete_job fl (lower_trim path) db of
       (Some (InvalidTransition st), db') \<Rightarrow>
         ((409, ErrorText (job_error_text quote (InvalidTransition st) @ '' (cancel first)'')), db')
     | r \<Rightarrow> no_content quote [''job_id''] ''delete failed'' r)"

definition api_purge_jobs :: "faults \<Rightarrow> jobs_db \<Rightarrow> nat answer \<times> jobs_db" where
  "api_purge_jobs fl db =
    (case delete_all_terminal fl db of
       (Inl e, db') \<Rightarrow> ((500, ErrorText ''purge failed''), db')
     | (Inr n, db') \<Rightarrow> ((200, Json n), db'))"

subsection \<open>The blueprint\<close>

record image_info =
  ii_id :: string
  ii_sha256 :: string
  ii_format :: string
  ii_arch :: string

text \<open>In \<open>is_binding\<close> the column \<open>bd_password\<close> stands for the flag \<open>HasPassword\<close>.\<close>

record install_spec =
  is_job :: string
  is_machine :: string
  is_image :: string
  is_blob_url :: string
  is_sha256 :: string
  is_format :: string
  is_arch :: string
  is_profile :: "string list profile"
  is_binding :: binding
  is_renderer :: string
  is_bootloader :: string
  is_keys :: "string list"

text \<open>The fetcher interfaces: \<open>None\<close> is one that is not wired.\<close>

record spec_sources =
  ss_binding :: "(string \<Rightarrow> (string, binding) result) option"
  ss_password :: "string \<Rightarrow> (string, string) result"
  ss_profile :: "(string \<Rightarrow> (string, string list profile) result) option"
  ss_image :: "(string \<Rightarrow> (string, image_info) result) option"
  ss_subnet :: "(string \<Rightarrow> (string, subnet) result) option"
  ss_key :: "(string \<Rightarrow> (string, string) result) option"
  ss_crypt :: "string \<Rightarrow> (string, string) result"

definition overlay_disk :: "binding \<Rightarrow> 'd profile \<Rightarrow> 'd profile" where
  "overlay_disk b p = (case bd_target_disk b of None \<Rightarrow> p | Some d \<Rightarrow> p\<lparr>pr_disk := d\<rparr>)"

definition overlay_links :: "binding \<Rightarrow> 'd profile \<Rightarrow> 'd profile" where
  "overlay_links b p =
    (case bd_bond b of
       Some c \<Rightarrow> p\<lparr>pr_network := (pr_network p)\<lparr>nc_bond := Some c, nc_nic_selector := ''auto''\<rparr>\<rparr>
     | None \<Rightarrow>
       (if bd_nic b \<noteq> [] then p\<lparr>pr_network := (pr_network p)\<lparr>nc_nic_selector := bd_nic b\<rparr>\<rparr> else p))"

definition overlay_agent :: "binding \<Rightarrow> 'd profile \<Rightarrow> 'd profile" where
  "overlay_agent b p = (case bd_agent b of None \<Rightarrow> p | Some a \<Rightarrow> p\<lparr>pr_agent := a\<rparr>)"

definition prefix_len_from_cidr :: "string \<Rightarrow> nat option" where
  "prefix_len_from_cidr cidr =
    (case parse_prefix (trim_space cidr) of
       None \<Rightarrow> None
     | Some (Prefix4 p) \<Rightarrow> Some (snd p)
     | Some (Prefix6 a n) \<Rightarrow> Some n)"

definition subnet_vlan :: "binding \<Rightarrow> subnet \<Rightarrow> int" where
  "subnet_vlan b sn = (if 0 < bd_vlan b then bd_vlan b else if 0 < sn_vlan sn then sn_vlan sn else 0)"

definition overlay_subnet :: "binding \<Rightarrow> subnet \<Rightarrow> 'd profile \<Rightarrow> 'd profile option" where
  "overlay_subnet b sn p =
    map_option (\<lambda>q. q\<lparr>pr_network := (pr_network q)\<lparr>nc_vlan := subnet_vlan b sn\<rparr>\<rparr>)
      (if nc_method (pr_network p) \<noteq> ''dhcp'' then
         map_option (\<lambda>n. p\<lparr>pr_network := (pr_network p)\<lparr>nc_method := ''static'', nc_prefix_len := int n,
             nc_gateway := sn_gateway sn, nc_dns := sn_dns sn\<rparr>\<rparr>) (prefix_len_from_cidr (sn_cidr sn))
       else Some p)"

definition spec_subnet :: "spec_sources \<Rightarrow> binding \<Rightarrow> 'd profile \<Rightarrow> (install_spec answer, 'd profile) result" where
  "spec_subnet src b p =
    (case ss_subnet src of
       None \<Rightarrow> Inr p
     | Some get \<Rightarrow>
       (if bd_subnet b = [] then Inr p
        else case get (bd_subnet b) of
          Inl e \<Rightarrow> Inl (500, ErrorText ''load subnet failed'')
        | Inr sn \<Rightarrow>
          (case overlay_subnet b sn p of None \<Rightarrow> Inl (500, ErrorText ''subnet cidr invalid'') | Some q \<Rightarrow> Inr q)))"

fun resolve_key_lines :: "(string \<Rightarrow> (string, string) result) \<Rightarrow> string list \<Rightarrow> string list option" where
  "resolve_key_lines get [] = Some []"
| "resolve_key_lines get (k # ks) =
    (case get k of Inl e \<Rightarrow> None | Inr line \<Rightarrow> map_option ((#) line) (resolve_key_lines get ks))"

definition spec_keys :: "spec_sources \<Rightarrow> binding \<Rightarrow> (install_spec answer, string list) result" where
  "spec_keys src b =
    (if bd_keys b = [] then Inr []
     else case ss_key src of
       None \<Rightarrow> Inl (503, ErrorText ''ssh key fetcher not configured'')
     | Some get \<Rightarrow>
       (case resolve_key_lines get (bd_keys b) of
          None \<Rightarrow> Inl (500, ErrorText ''load ssh key failed'')
        | Some ls \<Rightarrow> Inr ls))"

definition spec_password :: "spec_sources \<Rightarrow> string \<Rightarrow> binding \<Rightarrow> 'd profile \<Rightarrow> (install_spec answer, 'd profile) result" where
  "spec_password src muuid b p =
    (if bd_password b = [] then Inr p
     else case ss_password src muuid of
       Inl e \<Rightarrow> Inl (500, ErrorText ''load binding password failed'')
     | Inr plain \<Rightarrow>
       (case ss_crypt src plain of
          Inl e \<Rightarrow> Inl (500, ErrorText ''crypt binding password failed'')
        | Inr h \<Rightarrow> Inr (p\<lparr>pr_hash := h\<rparr>)))"

text \<open>A fetch whose failure answers 500 with a fixed text.\<close>

definition fetched :: "string \<Rightarrow> (string, 'a) result \<Rightarrow> (install_spec answer, 'a) result" where
  "fetched what r = (case r of Inl e \<Rightarrow> Inl (500, ErrorText what) | Inr x \<Rightarrow> Inr x)"

definition build_spec ::
  "spec_sources \<Rightarrow> (string \<Rightarrow> (string, binding) result) \<Rightarrow> (string \<Rightarrow> (string, string list profile) result) \<Rightarrow>
   (string \<Rightarrow> (string, image_info) result) \<Rightarrow> job \<Rightarrow> (install_spec answer, install_spec) result"
where
  "build_spec src get_b get_p get_i j =
    and_then (fetched ''load binding failed'' (get_b (jb_machine j))) (\<lambda>b.
    and_then (fetched ''load profile failed'' (get_p (jb_profile j))) (\<lambda>p0.
    and_then (fetched ''load image failed'' (get_i (jb_image j))) (\<lambda>im.
    and_then (spec_subnet src b (overlay_agent b (overlay_links b (overlay_disk b p0)))) (\<lambda>p1.
    and_then (spec_keys src b) (\<lambda>ks.
    and_then (spec_password src (jb_machine j) b p1) (\<lambda>p.
      Inr \<lparr>is_job = jb_id j, is_machine = jb_machine j, is_image = ii_id im,
           is_blob_url = ''/api/v1/agent/images/'' @ ii_id im @ ''/blob'', is_sha256 = ii_sha256 im,
           is_format = ii_format im, is_arch = ii_arch im, is_profile = p, is_binding = b,
           is_renderer = pr_renderer p, is_bootloader = pr_bootloader p, is_keys = ks\<rparr>))))))"

definition agent_spec ::
  "(string \<Rightarrow> string) \<Rightarrow> faults \<Rightarrow> spec_sources \<Rightarrow> string \<Rightarrow> string \<Rightarrow> jobs_db \<Rightarrow> install_spec answer"
where
  "agent_spec quote fl src path param db =
    (case (ss_binding src, ss_profile src, ss_image src) of
       (Some get_b, Some get_p, Some get_i) \<Rightarrow>
         (case and_then (verify_ownership quote fl (lower_trim path) (lower_trim param) db)
                 (build_spec src get_b get_p get_i) of
            Inl a \<Rightarrow> a
          | Inr spec \<Rightarrow> (200, Json spec))
     | _ \<Rightarrow> (503, ErrorText ''spec endpoint not configured''))"

subsection \<open>Whose jobs a call touches\<close>

lemma acts_on_succeed:
  assumes "hex32_match i"
  shows "acts_on m i db (snd (succeed_job fl now i db))"
proof -
  obtain e db' where u: "succeed_job fl now i db = (e, db')" by force
  then have "guarded_update fl ''terminate job'' i [Running]
      (\<lambda>r. r\<lparr>jb_status := Succeeded, jb_error := [], jb_finished := Some (unix now)\<rparr>) db = (e, db')"
    using assms by (simp add: succeed_job_def terminate_job_def)
  from acts_on_update [OF this _ _ jobs_step.succeed [OF u], of m] show ?thesis by (simp add: u)
qed

lemma verify_ownership_Inr:
  assumes "verify_ownership quote fl i m db = Inr j"
  shows "j \<in> set (db_jobs db)" "validate_job_id i = Inr (jb_id j)" "equal_fold (jb_machine j) m"
  using assms
  by (auto simp: verify_ownership_def get_job_def get_job_at_def fetch_job_def validate_job_id_def validate_id_def Let_def
      split: if_splits sum.splits option.splits job_error.splits dest: sel_row_Some)

text \<open>Lines of the log of another job stay as they are.\<close>

definition lines_kept :: "string \<Rightarrow> jobs_db \<Rightarrow> jobs_db \<Rightarrow> bool" where
  "lines_kept i db db' \<longleftrightarrow> (\<forall>l. jl_job l \<noteq> i \<longrightarrow> (l \<in> set (db_logs db') \<longleftrightarrow> l \<in> set (db_logs db)))"

lemma guarded_update_logs: "guarded_update fl op i from f db = (e, db') \<Longrightarrow> db_logs db' = db_logs db"
  by (elim guarded_update_cases) simp_all

lemma transition_logs:
  "db_logs (snd (claim_job fl now i db)) = db_logs db"
  "db_logs (snd (update_stage fl i s db)) = db_logs db"
  "db_logs (snd (terminate_job fl now i st msg from db)) = db_logs db"
  by (auto simp: claim_job_def update_stage_def terminate_job_def split: sum.splits prod.splits option.splits
      dest: guarded_update_logs intro: guarded_update_logs [OF prod.collapse [symmetric]])

lemma append_log_lines: "hex32_match i \<Longrightarrow> lines_kept i db (snd (append_log fl now i level msg db))"
  by (auto simp: append_log_def try_sql_def lines_kept_def split: sum.splits option.splits elim!: sql_insert_log_cases)

text \<open>One call of the agent that names the machine \<open>m\<close>, as the handler reads it.\<close>

inductive agent_step :: "string \<Rightarrow> jobs_db \<Rightarrow> jobs_db \<Rightarrow> bool" for m where
  claim: "agent_claim quote fl now path (Inr b) db = (a, db') \<Longrightarrow> lower_trim (ab_machine b) = m \<Longrightarrow> agent_step m db db'"
| stage: "agent_stage quote fl path (Inr b) db = (a, db') \<Longrightarrow> lower_trim (ab_machine b) = m \<Longrightarrow> agent_step m db db'"
| log: "agent_log quote fl now path (Inr b) db = (a, db') \<Longrightarrow> lower_trim (ab_machine b) = m \<Longrightarrow> agent_step m db db'"
| succeed: "agent_succeed quote fl now path (Inr b) db = (a, db') \<Longrightarrow> lower_trim (ab_machine b) = m \<Longrightarrow> agent_step m db db'"
| fail: "agent_fail quote fl now path (Inr b) db = (a, db') \<Longrightarrow> lower_trim (ab_machine b) = m \<Longrightarrow> agent_step m db db'"

definition one_job_of :: "string \<Rightarrow> jobs_db \<Rightarrow> jobs_db \<Rightarrow> bool" where
  "one_job_of m db db' \<longleftrightarrow>
    (\<exists>j \<in> set (db_jobs db). equal_fold (jb_machine j) m \<and> acts_on (jb_machine j) (jb_id j) db db' \<and> lines_kept (jb_id j) db db')"

text \<open>The store canonicalises the identifier itself, so a call on it is a call on the job's identifier.\<close>

lemma calls_canonical:
  assumes "validate_job_id i0 = Inr i"
  shows "claim_job fl now i0 db = claim_job fl now i db" "update_stage fl i0 s db = update_stage fl i s db"
    "append_log fl now i0 lv msg db = append_log fl now i lv msg db" "succeed_job fl now i0 db = succeed_job fl now i db"
    "fail_job fl now i0 msg db = fail_job fl now i msg db"
  using assms validate_job_id_ok [OF assms]
  by (simp_all add: claim_job_def update_stage_def append_log_def succeed_job_def fail_job_def terminate_job_def)

lemma owned_call_step:
  fixes call :: "string \<Rightarrow> agent_body \<Rightarrow> jobs_db \<Rightarrow> 'x answer \<times> jobs_db"
  assumes c: "owned_call quote fl path (Inr b) call db = (a, db')" and m: "lower_trim (ab_machine b) = m"
    and act: "\<And>i i0 k. validate_job_id i0 = Inr i \<Longrightarrow> hex32_match i \<Longrightarrow>
      acts_on k i db (snd (call i0 b db)) \<and> lines_kept i db (snd (call i0 b db))"
  shows "db' = db \<or> one_job_of m db db'"
proof (cases "verify_ownership quote fl (lower_trim path) m db :: ('x answer, job) result")
  case (Inl e)
  then show ?thesis using c m by (simp add: owned_call_def)
next
  case (Inr j)
  note own = verify_ownership_Inr [OF Inr]
  have "db' = snd (call (lower_trim path) b db)"
    using c m Inr by (simp add: owned_call_def)
  then show ?thesis
    using act [OF own(2) validate_job_id_ok [OF own(2)]] own(1,3) by (auto simp: one_job_of_def)
qed

lemma claim_answer_db [simp]: "snd (claim_answer quote r) = snd r"
  by (simp add: claim_answer_def split: prod.splits sum.splits)

lemma no_content_db [simp]: "snd (no_content quote bad internal r) = snd r"
  by (simp add: no_content_def split: prod.splits option.splits)

lemma lines_kept_same: "db_logs db' = db_logs db \<Longrightarrow> lines_kept i db db'"
  by (simp add: lines_kept_def)

lemma call_effects:
  assumes "hex32_match i"
  shows "acts_on k i db (snd (claim_job fl now i db)) \<and> lines_kept i db (snd (claim_job fl now i db))"
    "acts_on k i db (snd (update_stage fl i s db)) \<and> lines_kept i db (snd (update_stage fl i s db))"
    "acts_on k i db (snd (append_log fl now i lv msg db)) \<and> lines_kept i db (snd (append_log fl now i lv msg db))"
    "acts_on k i db (snd (succeed_job fl now i db)) \<and> lines_kept i db (snd (succeed_job fl now i db))"
    "acts_on k i db (snd (fail_job fl now i msg db)) \<and> lines_kept i db (snd (fail_job fl now i msg db))"
  using transition_logs(3) [of fl now i _ _ _ db] assms
  by (simp_all add: acts_on_claim acts_on_stage acts_on_log acts_on_succeed acts_on_fail append_log_lines
      lines_kept_same transition_logs(1,2))
    (simp_all add: lines_kept_def succeed_job_def fail_job_def)

lemma agent_step_job: "agent_step m db db' \<Longrightarrow> db' = db \<or> one_job_of m db db'"
proof (induction rule: agent_step.induct)
  case (claim quote fl now path b db a db')
  show ?case
    by (rule owned_call_step [OF claim(1) [unfolded agent_claim_def] claim(2)])
      (simp only: claim_answer_db calls_canonical(1) call_effects(1))
next
  case (stage quote fl path b db a db')
  show ?case
    by (rule owned_call_step [OF stage(1) [unfolded agent_stage_def] stage(2)])
      (simp only: no_content_db calls_canonical(2) call_effects(2))
next
  case (log quote fl now path b db a db')
  show ?case
    by (rule owned_call_step [OF log(1) [unfolded agent_log_def] log(2)])
      (simp only: no_content_db calls_canonical(3) call_effects(3))
next
  case (succeed quote fl now path b db a db')
  show ?case
    by (rule owned_call_step [OF succeed(1) [unfolded agent_succeed_def] succeed(2)])
      (simp only: no_content_db calls_canonical(4) call_effects(4))
next
  case (fail quote fl now path b db a db')
  show ?case
    by (rule owned_call_step [OF fail(1) [unfolded agent_fail_def] fail(2)])
      (simp only: no_content_db calls_canonical(5) call_effects(5))
qed

lemma one_job_of_others:
  assumes "one_job_of m db db'" and ok: "jobs_ok db"
  shows "jobs_ok db'"
    and "\<not> equal_fold (jb_machine r) m \<Longrightarrow> r \<in> set (db_jobs db') \<longleftrightarrow> r \<in> set (db_jobs db)"
    and "\<not> equal_fold (jb_machine r) m \<Longrightarrow> r \<in> set (db_jobs db) \<Longrightarrow> jl_job l = jb_id r \<Longrightarrow>
      l \<in> set (db_logs db') \<longleftrightarrow> l \<in> set (db_logs db)"
proof -
  obtain j where j: "j \<in> set (db_jobs db)" "equal_fold (jb_machine j) m"
    and act: "acts_on (jb_machine j) (jb_id j) db db'" "lines_kept (jb_id j) db db'"
    using assms(1) by (auto simp: one_job_of_def)
  have only: "q = j" if "q \<in> set (db_jobs db)" "jb_id q = jb_id j" for q
    using keyed_unique [OF jobs_okD(1) [OF ok] that(1) j(1) that(2)] .
  then have "owned (jb_id j) (jb_machine j) db" by (auto simp: owned_def)
  then have kept: "others_kept (jb_machine j) db db'" using act(1) by (simp add: acts_on_def)
  show "jobs_ok db'" using act(1) ok jobs_steps_ok by (auto simp: acts_on_def)
  show "r \<in> set (db_jobs db') \<longleftrightarrow> r \<in> set (db_jobs db)" if "\<not> equal_fold (jb_machine r) m"
    using kept that j(2) unfolding others_kept_def by metis
  show "l \<in> set (db_logs db') \<longleftrightarrow> l \<in> set (db_logs db)"
    if "\<not> equal_fold (jb_machine r) m" "r \<in> set (db_jobs db)" "jl_job l = jb_id r"
    using act(2) that j(2) only unfolding lines_kept_def by metis
qed

lemma agent_step_ok: "agent_step m db db' \<Longrightarrow> jobs_ok db \<Longrightarrow> jobs_ok db'"
  using agent_step_job one_job_of_others(1) by blast

interpretation agent_steps: transition_system "agent_step m" jobs_ok
  by unfold_locales (rule agent_step_ok)

subsection \<open>Properties\<close>

text \<open>The jobs of the machines that \<open>m\<close> does not name, and their log lines.\<close>

definition foreign_untouched :: "string \<Rightarrow> jobs_db \<Rightarrow> jobs_db \<Rightarrow> bool" where
  "foreign_untouched m db db' \<longleftrightarrow>
    (\<forall>r. \<not> equal_fold (jb_machine r) m \<longrightarrow>
      (r \<in> set (db_jobs db') \<longleftrightarrow> r \<in> set (db_jobs db))
      \<and> (r \<in> set (db_jobs db) \<longrightarrow> (\<forall>l. jl_job l = jb_id r \<longrightarrow> (l \<in> set (db_logs db') \<longleftrightarrow> l \<in> set (db_logs db)))))"

lemma agent_step_foreign: "agent_step m db db' \<Longrightarrow> jobs_ok db \<Longrightarrow> foreign_untouched m db db'"
  using agent_step_job one_job_of_others(2,3) unfolding foreign_untouched_def by blast

lemma foreign_untouched_trans:
  "foreign_untouched m db db' \<Longrightarrow> foreign_untouched m db' db'' \<Longrightarrow> foreign_untouched m db db''"
  unfolding foreign_untouched_def by blast

text \<open>
  C22: An agent drives its own machine's jobs only: no sequence of calls that name the machine
  \<open>m\<close>, with any job identifiers and bodies and whatever the database does, changes a job of
  another machine or a line of its log.
\<close>

theorem agent_drives_own_jobs:
  assumes "jobs_ok db" and "(agent_step m)\<^sup>*\<^sup>* db db'" and "\<not> equal_fold (jb_machine r) m"
  shows "(r \<in> set (db_jobs db') \<longleftrightarrow> r \<in> set (db_jobs db))
    \<and> (r \<in> set (db_jobs db) \<longrightarrow> (\<forall>l. jl_job l = jb_id r \<longrightarrow> (l \<in> set (db_logs db') \<longleftrightarrow> l \<in> set (db_logs db))))"
proof -
  have "foreign_untouched m db db'"
    using assms(2,1)
    by (rule agent_steps.reach_property)
      (auto simp: foreign_untouched_def [of m db db] intro: foreign_untouched_trans agent_step_foreign)
  then show ?thesis using assms(3) by (simp add: foreign_untouched_def)
qed

text \<open>
  What the network of a subnet does to the configuration of a machine: a DHCP configuration keeps its
  own numbers, any other becomes static with those of the subnet.
\<close>

definition addressed_by :: "binding \<Rightarrow> subnet \<Rightarrow> network_config \<Rightarrow> network_config \<Rightarrow> bool" where
  "addressed_by b sn nc0 nc \<longleftrightarrow>
    (if nc_method nc0 = ''dhcp'' then nc = nc0\<lparr>nc_vlan := subnet_vlan b sn\<rparr>
     else \<exists>n. prefix_len_from_cidr (sn_cidr sn) = Some n
       \<and> nc = nc0\<lparr>nc_method := ''static'', nc_prefix_len := int n, nc_gateway := sn_gateway sn, nc_dns := sn_dns sn,
                 nc_vlan := subnet_vlan b sn\<rparr>)"

lemma spec_subnet_fields:
  assumes "spec_subnet src b p = Inr q"
  shows "ss_subnet src = None \<or> bd_subnet b = [] \<Longrightarrow> q = p"
    "\<not> (ss_subnet src = None \<or> bd_subnet b = []) \<Longrightarrow>
      \<exists>sn nc. the (ss_subnet src) (bd_subnet b) = Inr sn \<and> addressed_by b sn (pr_network p) nc \<and> q = p\<lparr>pr_network := nc\<rparr>"
  using assms
  by (auto simp: spec_subnet_def overlay_subnet_def addressed_by_def split: option.splits if_splits sum.splits)

lemma spec_password_fields:
  assumes "spec_password src m b p = Inr q"
  shows "if bd_password b = [] then q = p
    else \<exists>plain h. ss_password src m = Inr plain \<and> ss_crypt src plain = Inr h \<and> q = p\<lparr>pr_hash := h\<rparr>"
  using assms by (auto simp: spec_password_def split: sum.splits if_splits)

lemma resolve_key_lines_ok:
  "resolve_key_lines get ks = Some ls \<Longrightarrow> map get ks = map Inr ls"
  by (induction ks arbitrary: ls) (auto split: sum.splits)

lemma spec_keys_ok:
  "spec_keys src b = Inr ls \<Longrightarrow> bd_keys b = [] \<and> ls = [] \<or> (\<exists>get. ss_key src = Some get \<and> map get (bd_keys b) = map Inr ls)"
  by (auto simp: spec_keys_def dest: resolve_key_lines_ok split: if_splits option.splits)

lemma fetched_Inr [simp]: "fetched what r = Inr x \<longleftrightarrow> r = Inr x"
  by (cases r) (auto simp: fetched_def)

lemma agent_spec_parts:
  assumes "agent_spec quote fl src path m db = (200, Json spec)"
  obtains get_b get_p get_i j where
    "ss_binding src = Some get_b" "ss_profile src = Some get_p" "ss_image src = Some get_i"
    "verify_ownership quote fl (lower_trim path) (lower_trim m) db = (Inr j :: (install_spec answer, job) result)"
    "build_spec src get_b get_p get_i j = Inr spec"
proof -
  have no: "verify_ownership quote fl i mm db \<noteq> Inl (200, Json s)" for i mm and s :: install_spec
    by (auto simp: verify_ownership_def split: if_splits sum.splits job_error.splits)
  have no2: "build_spec src get_b get_p get_i j \<noteq> Inl (200, Json s)" for get_b get_p get_i j and s :: install_spec
    by (auto simp: build_spec_def and_then_def fetched_def spec_subnet_def spec_keys_def spec_password_def
        split: sum.splits option.splits if_splits)
  show thesis
    using assms no no2 that
    by (auto simp: agent_spec_def and_then_def split: option.splits sum.splits)
qed

text \<open>
  The network of the profile with the interface a machine installs over: a bond of the assignment, else
  its interface, else the profile's.
\<close>

definition linked_by :: "binding \<Rightarrow> network_config \<Rightarrow> network_config" where
  "linked_by b nc = nc
    \<lparr>nc_bond := (case bd_bond b of None \<Rightarrow> nc_bond nc | Some c \<Rightarrow> Some c),
     nc_nic_selector := (if bd_bond b \<noteq> None then ''auto'' else if bd_nic b \<noteq> [] then bd_nic b else nc_nic_selector nc)\<rparr>"

text \<open>The profile of a blueprint before the subnet and the password of the assignment.\<close>

definition assigned_by :: "binding \<Rightarrow> 'd profile \<Rightarrow> 'd profile" where
  "assigned_by b p = p
    \<lparr>pr_disk := (case bd_target_disk b of None \<Rightarrow> pr_disk p | Some d \<Rightarrow> d),
     pr_network := linked_by b (pr_network p),
     pr_agent := (case bd_agent b of None \<Rightarrow> pr_agent p | Some x \<Rightarrow> x)\<rparr>"

lemma assigned_by_overlays: "overlay_agent b (overlay_links b (overlay_disk b p)) = assigned_by b p"
  by (simp add: assigned_by_def linked_by_def overlay_agent_def overlay_links_def overlay_disk_def split: option.splits)

lemma build_spec_parts:
  assumes "build_spec src get_b get_p get_i j = Inr spec"
  obtains b p0 p1 im where "get_b (jb_machine j) = Inr b" "get_p (jb_profile j) = Inr p0" "get_i (jb_image j) = Inr im"
    "spec_subnet src b (assigned_by b p0) = Inr p1"
    "spec_keys src b = Inr (is_keys spec)" "spec_password src (jb_machine j) b p1 = Inr (is_profile spec)"
    "is_job spec = jb_id j" "is_machine spec = jb_machine j" "is_binding spec = b" "is_image spec = ii_id im"
    "is_sha256 spec = ii_sha256 im"
  using assms by (auto simp: build_spec_def and_then_Inr assigned_by_overlays)

text \<open>
  C23: The blueprint follows the assignment: when the agent gets one, it is for a job of its own
  machine, with the image of the job and its checksum, and its profile is the profile of the job with
  these changes and no others. The disk, implant, bond and interface choices of the assignment replace
  those of the profile. Where a subnet is assigned, a profile that is not DHCP becomes static with that
  subnet's prefix, gateway and resolvers, a DHCP profile keeps its own, and the tag is the
  assignment's, else the subnet's. The hash is the profile's unless the assignment has a password. The
  keys are the selected ones, in their order.
\<close>

theorem blueprint_follows_assignment:
  assumes "agent_spec quote fl src path m db = (200, Json spec)"
  shows "\<exists>j \<in> set (db_jobs db). \<exists>p0 im nc h. let b = is_binding spec; q = assigned_by b p0 in
    equal_fold (jb_machine j) (lower_trim m) \<and> is_job spec = jb_id j \<and> is_machine spec = jb_machine j
    \<and> the (ss_binding src) (jb_machine j) = Inr b \<and> the (ss_profile src) (jb_profile j) = Inr p0
    \<and> the (ss_image src) (jb_image j) = Inr im \<and> is_image spec = ii_id im \<and> is_sha256 spec = ii_sha256 im
    \<and> is_profile spec = q\<lparr>pr_network := nc, pr_hash := h\<rparr>
    \<and> (if ss_subnet src = None \<or> bd_subnet b = [] then nc = linked_by b (pr_network p0)
       else \<exists>sn. the (ss_subnet src) (bd_subnet b) = Inr sn \<and> addressed_by b sn (linked_by b (pr_network p0)) nc)
    \<and> (if bd_password b = [] then h = pr_hash p0
       else \<exists>plain. ss_password src (jb_machine j) = Inr plain \<and> ss_crypt src plain = Inr h)
    \<and> (bd_keys b = [] \<and> is_keys spec = [] \<or> map (the (ss_key src)) (bd_keys b) = map Inr (is_keys spec))"
proof -
  obtain get_b get_p get_i j where src: "ss_binding src = Some get_b" "ss_profile src = Some get_p" "ss_image src = Some get_i"
    and own: "verify_ownership quote fl (lower_trim path) (lower_trim m) db = (Inr j :: (install_spec answer, job) result)"
    and build: "build_spec src get_b get_p get_i j = Inr spec"
    by (rule agent_spec_parts [OF assms])
  obtain b p0 p1 im where parts: "get_b (jb_machine j) = Inr b" "get_p (jb_profile j) = Inr p0" "get_i (jb_image j) = Inr im"
    and sub: "spec_subnet src b (assigned_by b p0) = Inr p1"
    and keys: "spec_keys src b = Inr (is_keys spec)" and pw: "spec_password src (jb_machine j) b p1 = Inr (is_profile spec)"
    and ids: "is_job spec = jb_id j" "is_machine spec = jb_machine j" "is_binding spec = b" "is_image spec = ii_id im"
      "is_sha256 spec = ii_sha256 im"
    by (rule build_spec_parts [OF build])
  have net: "pr_network (assigned_by b p0) = linked_by b (pr_network p0)" "pr_hash (assigned_by b p0) = pr_hash p0"
    by (simp_all add: assigned_by_def)
  obtain nc where p1: "p1 = (assigned_by b p0)\<lparr>pr_network := nc\<rparr>"
    and nc: "if ss_subnet src = None \<or> bd_subnet b = [] then nc = linked_by b (pr_network p0)
       else \<exists>sn. the (ss_subnet src) (bd_subnet b) = Inr sn \<and> addressed_by b sn (linked_by b (pr_network p0)) nc"
  proof (cases "ss_subnet src = None \<or> bd_subnet b = []")
    case True
    then have "p1 = (assigned_by b p0)\<lparr>pr_network := pr_network (assigned_by b p0)\<rparr>"
      using spec_subnet_fields(1) [OF sub] by simp
    then show ?thesis using that [of "linked_by b (pr_network p0)"] True net by simp
  next
    case False
    then show ?thesis using spec_subnet_fields(2) [OF sub False] that net by auto
  qed
  obtain h where p: "is_profile spec = p1\<lparr>pr_hash := h\<rparr>"
    and h: "if bd_password b = [] then h = pr_hash p0
       else \<exists>plain. ss_password src (jb_machine j) = Inr plain \<and> ss_crypt src plain = Inr h"
  proof (cases "bd_password b = []")
    case True
    then have "is_profile spec = p1\<lparr>pr_hash := pr_hash p1\<rparr>" using spec_password_fields [OF pw] by simp
    then show ?thesis using that [of "pr_hash p1"] True net by (simp add: p1)
  next
    case False
    then show ?thesis using spec_password_fields [OF pw] that by auto
  qed
  have "bd_keys b = [] \<and> is_keys spec = [] \<or> map (the (ss_key src)) (bd_keys b) = map Inr (is_keys spec)"
    using spec_keys_ok [OF keys] by auto
  moreover have "is_profile spec = (assigned_by b p0)\<lparr>pr_network := nc, pr_hash := h\<rparr>"
    by (simp add: p p1)
  ultimately show ?thesis
    using verify_ownership_Inr(1,3) [OF own] nc h parts ids src unfolding Let_def
    by (intro bexI [of _ j] exI [of _ p0] exI [of _ im] exI [of _ nc] exI [of _ h])
      (simp_all del: split_paired_Ex)
qed

subsection \<open>Witnesses and counterexamples\<close>

definition agent_row :: "string \<Rightarrow> job" where
  "agent_row m =
    \<lparr>jb_id = hex_id CHR ''e'', jb_machine = m, jb_type = ''install'', jb_image = hex_id CHR ''a'',
     jb_profile = hex_id CHR ''b'', jb_status = Running, jb_stage = [], jb_error = [], jb_created = 0,
     jb_started = Some 0, jb_finished = None, jb_created_by = ''orchestrator'', jb_retry = None\<rparr>"

definition agent_db :: "job list \<Rightarrow> jobs_db" where
  "agent_db js =
    \<lparr>db_machines = [\<lparr>mc_uuid = machine_id CHR ''1'', mc_last_seen = 0, mc_latest_report = None\<rparr>],
     db_images = [hex_id CHR ''a''], db_profiles = [hex_id CHR ''b''], db_jobs = js, db_logs = [], db_log_seq = 0\<rparr>"

definition agent_says :: "string \<Rightarrow> agent_body" where
  "agent_says m = \<lparr>ab_machine = m, ab_stage = ''disk'', ab_level = [], ab_message = [], ab_error = []\<rparr>"

lemma sample_foreign_call:
  "agent_succeed (\<lambda>s. s) no_faults 0 (hex_id CHR ''E'') (Inr (agent_says (machine_id CHR ''2''))) (agent_db [agent_row (machine_id CHR ''1'')])
    = ((403, ErrorText ''machine_uuid does not match job owner''), agent_db [agent_row (machine_id CHR ''1'')])"
  by code_simp

lemma agent_drives_own_jobs_witness:
  "agent_row (machine_id CHR ''1'') \<in> set (db_jobs (agent_db [agent_row (machine_id CHR ''1'')]))"
proof -
  let ?db = "agent_db [agent_row (machine_id CHR ''1'')]"
  have "lower_trim (ab_machine (agent_says (machine_id CHR ''2''))) = machine_id CHR ''2''"
    "jobs_ok ?db" "\<not> equal_fold (jb_machine (agent_row (machine_id CHR ''1''))) (machine_id CHR ''2'')"
    by code_simp+
  with agent_drives_own_jobs [OF _ r_into_rtranclp [of "agent_step (machine_id CHR ''2'')", OF agent_step.succeed [OF sample_foreign_call]]]
  show ?thesis by (simp add: agent_db_def)
qed

definition sample_sources :: spec_sources where
  "sample_sources =
    \<lparr>ss_binding = Some (\<lambda>m. Inr (sample_binding CHR ''1'' ''10.0.1.3'' \<lparr>bd_nic := ''eth1'', bd_password := ''set''\<rparr>)),
     ss_password = (\<lambda>m. Inr ''secret''), ss_profile = Some (\<lambda>i. Inr (scan_profile (sample_profile []))),
     ss_image = Some (\<lambda>i. Inr \<lparr>ii_id = i, ii_sha256 = ''aa'', ii_format = ''qcow2'', ii_arch = ''amd64''\<rparr>),
     ss_subnet = Some (\<lambda>i. Inr (hd (ct_subnets sample_catalog))), ss_key = None, ss_crypt = (\<lambda>p. Inr (''$6$'' @ p))\<rparr>"

lemma sample_spec_answer:
  "\<exists>spec. agent_spec (\<lambda>s. s) no_faults sample_sources (hex_id CHR ''e'') (machine_id CHR ''1'')
      (agent_db [agent_row (machine_id CHR ''1'')]) = (200, Json spec) \<and> pr_hash (is_profile spec) = ''$6$secret''
      \<and> nc_prefix_len (pr_network (is_profile spec)) = 29 \<and> nc_nic_selector (pr_network (is_profile spec)) = ''eth1''"
proof -
  have "case agent_spec (\<lambda>s. s) no_faults sample_sources (hex_id CHR ''e'') (machine_id CHR ''1'')
      (agent_db [agent_row (machine_id CHR ''1'')]) of
        (n, Json spec) \<Rightarrow> n = 200 \<and> pr_hash (is_profile spec) = ''$6$secret''
          \<and> nc_prefix_len (pr_network (is_profile spec)) = 29 \<and> nc_nic_selector (pr_network (is_profile spec)) = ''eth1''
      | _ \<Rightarrow> False"
    by code_simp
  then show ?thesis by (auto split: prod.splits body.splits)
qed

lemma blueprint_follows_assignment_witness:
  "\<exists>spec. is_machine spec = machine_id CHR ''1''
    \<and> agent_spec (\<lambda>s. s) no_faults sample_sources (hex_id CHR ''e'') (machine_id CHR ''1'')
        (agent_db [agent_row (machine_id CHR ''1'')]) = (200, Json spec)"
proof -
  obtain spec where "agent_spec (\<lambda>s. s) no_faults sample_sources (hex_id CHR ''e'') (machine_id CHR ''1'')
      (agent_db [agent_row (machine_id CHR ''1'')]) = (200, Json spec)"
    using sample_spec_answer by blast
  with blueprint_follows_assignment [OF this] show ?thesis
    by (auto simp: Let_def agent_db_def agent_row_def intro!: exI [of _ spec])
qed

text \<open>
  A failure of the database while a stage is stored is answered as the caller's mistake: the text of
  the error begins with the operation, which contains the word the handler looks for.
\<close>

theorem stage_failure_blames_caller:
  "fst (agent_stage (\<lambda>s. s) (\<lambda>k. if k = 1 then Some ''disk I/O error'' else None) (hex_id CHR ''e'')
      (Inr (agent_says (machine_id CHR ''1''))) (agent_db [agent_row (machine_id CHR ''1'')]))
    = (400, ErrorText ''update stage: disk I/O error'')"
  by code_simp

end
