(* ===== verification/Image_Store.thy ===== *)
theory Image_Store
  imports Job_Store Binding_Store
begin

text \<open>
  \<open>internal/images\<close>: the catalog of disk images. \<open>store.go\<close> keeps the tables \<open>images\<close> and
  \<open>upload_sessions\<close>, \<open>uploads.go\<close> the files: chunks of a session under a directory of its own, the
  assembled file next to them, and the finished images in the catalog directory under a name derived
  from the upload. The state holds the two tables, the files by their path and the session
  directories. A file is its list of bytes.

  SHA-256 is the parameter \<open>digest\<close>, a function to 256 bits. The metadata extractor (\<open>qemu-img\<close>) is
  a parameter too. Besides the statements, the fault plan of a call covers the system calls. The
  \<open>.partial\<close> file of a chunk is renamed or dropped within the call and never read, and is left out.
\<close>

subsection \<open>Paths and file names\<close>

text \<open>
  \<open>filepath.Ext\<close> and \<open>filepath.Base\<close>. \<open>chunk_path\<close> and its siblings stand for the joined paths: a
  session identifier is 32 hexadecimal digits and a chunk number is printed in full.
\<close>

datatype image_path = ChunkFile string int | StageFile string | CatalogFile string

definition path_ext :: "string \<Rightarrow> string" where
  "path_ext s =
    (let ext = rev (takeWhile (\<lambda>c. c \<noteq> CHR ''.'' \<and> c \<noteq> CHR ''/'') (rev s));
         rest = drop (length ext) (rev s) in
     if rest \<noteq> [] \<and> hd rest = CHR ''.'' then CHR ''.'' # ext else [])"

definition path_base :: "string \<Rightarrow> string" where
  "path_base s =
    (if s = [] then ''.''
     else let t = dropWhile (\<lambda>c. c = CHR ''/'') (rev s) in
       if t = [] then ''/'' else rev (takeWhile (\<lambda>c. c \<noteq> CHR ''/'') t))"

definition trim_suffix :: "string \<Rightarrow> string \<Rightarrow> string" where
  "trim_suffix suf s = (if starts_with (rev suf) (rev s) then take (length s - length suf) s else s)"

definition infer_format_from_name :: "string \<Rightarrow> string" where
  "infer_format_from_name name = (if path_ext name \<in> {''.raw'', ''.img''} then ''raw'' else ''qcow2'')"

definition unsafe_chars :: "char list" where
  "unsafe_chars =
    [CHR 0x00, CHR ''/'', CHR 0x5C, CHR '':'', CHR ''*'', CHR ''?'', CHR 0x22, CHR ''<'', CHR ''>'', CHR ''|'',
     CHR '' '', CHR 0x09, CHR 0x0A, CHR '';'', CHR ''&'', CHR ''$'', CHR 0x27, CHR 0x60]"

text \<open>The loop over the runes: an invalid byte becomes the encoded U+FFFD.\<close>

function safe_runes :: "string \<Rightarrow> string" where
  "safe_runes s =
    (if s = [] then []
     else let (r, w) = decode_rune s in
       (if byte (hd s) < 128 then [if hd s \<in> set unsafe_chars then CHR ''_'' else hd s]
        else if w = 1 then [CHR 0xEF, CHR 0xBF, CHR 0xBD] else take w s) @ safe_runes (drop (max 1 w) s))"
  by pat_completeness auto
termination
  by (relation "measure length") auto

declare safe_runes.simps [simp del]

definition sanitize_filename :: "string \<Rightarrow> string" where
  "sanitize_filename name =
    (let out = safe_runes (path_base (trim_space name)) in
     if out \<in> {[], ''.'', ''..''} then ''image''
     else if 180 < length out then drop (length out - 180) out else out)"

definition suffixed_name :: "string \<Rightarrow> string \<Rightarrow> string \<Rightarrow> string" where
  "suffixed_name base ext sha = trim_suffix ext base @ ''-'' @ take 8 sha @ ext"

text \<open>The name before the catalog is asked, and its extension.\<close>

definition derived_name :: "string \<Rightarrow> string \<Rightarrow> string \<times> string" where
  "derived_name upload format =
    (let b0 = sanitize_filename upload; e0 = path_ext b0;
         (b1, e1) = (if e0 = [] then (b0 @ ''.'' @ format, ''.'' @ format) else (b0, e0)) in
     if e1 \<in> {''.qcow2'', ''.raw'', ''.img''} then (b1, e1)
     else (trim_suffix e1 b1 @ ''.'' @ format, ''.'' @ format))"

subsection \<open>Digests\<close>

definition sha256_match :: "string \<Rightarrow> bool" where
  "sha256_match s \<longleftrightarrow> hex_run 64 s"

definition hex_digit :: "nat \<Rightarrow> char" where
  "hex_digit n = (if n < 10 then char_of (48 + n) else char_of (87 + n))"

text \<open>\<open>hex.EncodeToString(h.Sum(nil))\<close>.\<close>

definition digest_hex :: "256 word \<Rightarrow> string" where
  "digest_hex d = map (\<lambda>i. hex_digit (unat (drop_bit (4 * i) d) mod 16)) (rev [0..<64])"

lemma digest_hex_match [simp]: "sha256_match (digest_hex d)"
proof -
  have "is_lower_hex (hex_digit n)" if "n < 16" for n
    using that by (auto simp: hex_digit_def is_lower_hex_def is_digit_def byte_char_of_small)
  then show ?thesis
    by (simp add: sha256_match_def hex_run_def digest_hex_def list_all_iff)
qed

subsection \<open>Tables, files and errors\<close>

record stored_image =
  ir_id :: string
  ir_name :: string
  ir_version :: string
  ir_family :: string
  ir_arch :: string
  ir_format :: string
  ir_size :: int
  ir_virtual :: int
  ir_sha :: string
  ir_filename :: string
  ir_uploaded :: int
  ir_by :: string
  ir_last_used :: "int option"
  ir_notes :: string
  ir_meta :: string

record upload_session =
  us_id :: string
  us_name :: string
  us_version :: string
  us_family :: string
  us_arch :: string
  us_notes :: string
  us_sha :: string
  us_total :: int
  us_chunk :: int
  us_num :: int
  us_done :: int
  us_state :: string
  us_by :: string
  us_started :: int

record create_upload_input =
  cu_name :: string
  cu_version :: string
  cu_family :: string
  cu_arch :: string
  cu_notes :: string
  cu_sha :: string
  cu_total :: int
  cu_chunk :: int
  cu_by :: string

record finalize_input =
  fi_name :: string
  fi_version :: string
  fi_family :: string
  fi_arch :: string
  fi_notes :: string
  fi_format :: string
  fi_size :: int
  fi_virtual :: int
  fi_sha :: string
  fi_by :: string
  fi_meta :: string
  fi_session :: string

datatype image_error =
    ImgNameMissing
  | ImgTotalSize
  | ImgTotalLimit int
  | ImgShaFormat
  | ImgChunkLimit int
  | ImgByMissing
  | ImgDuplicate string
  | ImgTooMany nat
  | ImgRandom string
  | ImgDb string string
  | ImgIo string string
  | ImgNotFound
  | ImgBusy
  | ImgChunkRange int int
  | ImgChunkLength int int int
  | ImgShaMismatch string string
  | ImgChunkMissing int
  | ImgSizeMismatch int int

record image_store =
  ig_images :: "stored_image list"
  ig_sessions :: "upload_session list"
  ig_files :: "image_path \<Rightarrow> string option"
  ig_dirs :: "string list"

definition max_image_size :: int where "max_image_size = 10 * 1024 * 1024 * 1024"
definition default_chunk_size :: int where "default_chunk_size = 10 * 1024 * 1024"
definition max_chunk_size :: int where "max_chunk_size = 64 * 1024 * 1024"
definition max_upload_sessions :: nat where "max_upload_sessions = 32"

definition state_uploading :: string where "state_uploading = ''uploading''"
definition state_finalizing :: string where "state_finalizing = ''finalizing''"

definition set_file :: "image_path \<Rightarrow> string option \<Rightarrow> image_store \<Rightarrow> image_store" where
  "set_file p c st = st\<lparr>ig_files := (ig_files st)(p := c)\<rparr>"

text \<open>\<open>os.MkdirAll\<close> and \<open>os.RemoveAll\<close> on a session directory; a failed removal changes nothing.\<close>

definition make_dir :: "string \<Rightarrow> image_store \<Rightarrow> image_store" where
  "make_dir i st = st\<lparr>ig_dirs := (if i \<in> set (ig_dirs st) then ig_dirs st else ig_dirs st @ [i])\<rparr>"

definition in_dir :: "string \<Rightarrow> image_path \<Rightarrow> bool" where
  "in_dir i p \<longleftrightarrow> (case p of ChunkFile j n \<Rightarrow> j = i | StageFile j \<Rightarrow> j = i | CatalogFile f \<Rightarrow> False)"

definition remove_dir :: "string option \<Rightarrow> string \<Rightarrow> image_store \<Rightarrow> image_store" where
  "remove_dir f i st =
    (case f of
       Some msg \<Rightarrow> st
     | None \<Rightarrow> st\<lparr>ig_files := (\<lambda>p. if in_dir i p then None else ig_files st p), ig_dirs := filter (\<lambda>j. j \<noteq> i) (ig_dirs st)\<rparr>)"

definition remove_file :: "string option \<Rightarrow> image_path \<Rightarrow> image_store \<Rightarrow> image_store" where
  "remove_file f p st = (case f of Some msg \<Rightarrow> st | None \<Rightarrow> set_file p None st)"

subsection \<open>Upload sessions\<close>

definition check_upload_input :: "create_upload_input \<Rightarrow> (image_error, int) result" where
  "check_upload_input inp =
    and_then (refuse_if (cu_name inp = []) ImgNameMissing) (\<lambda>_.
    and_then (refuse_if (cu_total inp \<le> 0) ImgTotalSize) (\<lambda>_.
    and_then (refuse_if (max_image_size < cu_total inp) (ImgTotalLimit (cu_total inp))) (\<lambda>_.
    and_then (refuse_if (cu_sha inp \<noteq> [] \<and> \<not> sha256_match (cu_sha inp)) ImgShaFormat) (\<lambda>_.
    let c = (if cu_chunk inp \<le> 0 then default_chunk_size else cu_chunk inp) in
    and_then (refuse_if (max_chunk_size < c) (ImgChunkLimit c)) (\<lambda>_.
    and_then (refuse_if (cu_by inp = []) ImgByMissing) (\<lambda>_. Inr c))))))"

definition sql_insert_session :: "upload_session \<Rightarrow> upload_session list \<Rightarrow> (string, upload_session list) result" where
  "sql_insert_session r t =
    (if \<exists>q \<in> set t. us_id q = us_id r then Inl ''constraint failed: UNIQUE constraint failed: upload_sessions.id (1555)''
     else Inr (ins_row r t))"

definition create_upload ::
  "faults \<Rightarrow> time \<Rightarrow> (string, string) result \<Rightarrow> create_upload_input \<Rightarrow> image_store \<Rightarrow>
   (image_error, upload_session) result \<times> image_store"
where
  "create_upload fl now rid inp st =
    (case check_upload_input inp of
       Inl e \<Rightarrow> (Inl e, st)
     | Inr c \<Rightarrow>
       (case (if cu_sha inp = [] then Inr None
              else case fl 0 of
                Some msg \<Rightarrow> Inl (ImgDb ''dedupe check'' msg)
              | None \<Rightarrow> Inr (sel_row (\<lambda>r. ir_sha r = cu_sha inp) (ig_images st))) of
          Inl e \<Rightarrow> (Inl e, st)
        | Inr (Some r) \<Rightarrow> (Inl (ImgDuplicate (ir_id r)), st)
        | Inr None \<Rightarrow>
          (case fl 1 of
             Some msg \<Rightarrow> (Inl (ImgDb ''count sessions'' msg), st)
           | None \<Rightarrow>
             (if max_upload_sessions \<le> length (ig_sessions st) then (Inl (ImgTooMany (length (ig_sessions st))), st)
              else case rid of
                Inl msg \<Rightarrow> (Inl (ImgRandom msg), st)
              | Inr i \<Rightarrow>
                (let r = \<lparr>us_id = i, us_name = cu_name inp, us_version = cu_version inp, us_family = cu_family inp,
                       us_arch = cu_arch inp, us_notes = cu_notes inp, us_sha = cu_sha inp, us_total = cu_total inp,
                       us_chunk = c, us_num = (cu_total inp + c - 1) div c, us_done = 0, us_state = state_uploading,
                       us_by = cu_by inp, us_started = unix now\<rparr> in
                 case try_sql (fl 2) (sql_insert_session r (ig_sessions st)) of
                   Inl msg \<Rightarrow> (Inl (ImgDb ''insert upload session'' msg), st)
                 | Inr t \<Rightarrow> (Inr r, st\<lparr>ig_sessions := t\<rparr>))))))"

definition get_upload :: "string option \<Rightarrow> string \<Rightarrow> image_store \<Rightarrow> (image_error, upload_session) result" where
  "get_upload f i st =
    (case f of
       Some msg \<Rightarrow> Inl (ImgDb ''get upload'' msg)
     | None \<Rightarrow> (case sel_row (\<lambda>r. us_id r = i) (ig_sessions st) of None \<Rightarrow> Inl ImgNotFound | Some r \<Rightarrow> Inr r))"

definition bump_uploaded_chunks :: "string option \<Rightarrow> string \<Rightarrow> int \<Rightarrow> image_store \<Rightarrow> image_store" where
  "bump_uploaded_chunks f i n st =
    (case f of
       Some msg \<Rightarrow> st
     | None \<Rightarrow> st\<lparr>ig_sessions := upd_where (\<lambda>r. us_id r = i \<and> us_done r < n) (\<lambda>r. r\<lparr>us_done := n\<rparr>) (ig_sessions st)\<rparr>)"

definition delete_upload :: "string option \<Rightarrow> string \<Rightarrow> image_store \<Rightarrow> image_error option \<times> image_store" where
  "delete_upload f i st =
    (case f of
       Some msg \<Rightarrow> (Some (ImgDb ''delete upload'' msg), st)
     | None \<Rightarrow>
       (if hits (\<lambda>r. us_id r = i) (ig_sessions st) = 0 then (Some ImgNotFound, st)
        else (None, st\<lparr>ig_sessions := del_where (\<lambda>r. us_id r = i) (ig_sessions st)\<rparr>)))"

definition abort_upload :: "faults \<Rightarrow> string \<Rightarrow> image_store \<Rightarrow> image_error option \<times> image_store" where
  "abort_upload fl i st =
    (case delete_upload (fl 0) i st of
       (Some e, st') \<Rightarrow> (Some e, st')
     | (None, st') \<Rightarrow> (None, remove_dir (fl 1) i st'))"

definition list_stale_uploads :: "string option \<Rightarrow> time \<Rightarrow> image_store \<Rightarrow> (image_error, upload_session list) result" where
  "list_stale_uploads f cutoff st =
    (case f of
       Some msg \<Rightarrow> Inl (ImgDb ''list stale uploads'' msg)
     | None \<Rightarrow> Inr (filter (\<lambda>r. us_started r < unix cutoff) (ig_sessions st)))"

subsection \<open>Chunks\<close>

definition expected_len :: "upload_session \<Rightarrow> int \<Rightarrow> int" where
  "expected_len sess n = (if n = us_num sess then us_total sess - us_chunk sess * (us_num sess - 1) else us_chunk sess)"

text \<open>
  \<open>WriteChunk\<close> reads the session first and acts on what it read: between \<open>write_chunk_begin\<close> and
  \<open>write_chunk_end\<close> other requests run.
\<close>

definition write_chunk_begin :: "string option \<Rightarrow> string \<Rightarrow> int \<Rightarrow> string \<Rightarrow> image_store \<Rightarrow> (image_error, upload_session) result" where
  "write_chunk_begin f i n sha st =
    and_then (get_upload f i st) (\<lambda>sess.
    and_then (refuse_if (us_state sess = state_finalizing) ImgBusy) (\<lambda>_.
    and_then (refuse_if (n < 1 \<or> us_num sess < n) (ImgChunkRange n (us_num sess))) (\<lambda>_.
    and_then (refuse_if (sha \<noteq> [] \<and> \<not> sha256_match sha) ImgShaFormat) (\<lambda>_. Inr sess))))"

definition write_chunk_end ::
  "(string \<Rightarrow> 256 word) \<Rightarrow> faults \<Rightarrow> upload_session \<Rightarrow> int \<Rightarrow> string \<Rightarrow> string \<Rightarrow> image_store \<Rightarrow>
   (image_error, int) result \<times> image_store"
where
  "write_chunk_end digest fl sess n body sha st =
    (case fl 1 of
       Some msg \<Rightarrow> (Inl (ImgIo ''mkdir upload dir'' msg), st)
     | None \<Rightarrow>
       (let st1 = make_dir (us_id sess) st; len = expected_len sess n; data = take (nat (len + 1)) body in
        case fl 2 of
          Some msg \<Rightarrow> (Inl (ImgIo ''open chunk tmp'' msg), st1)
        | None \<Rightarrow>
          (case fl 3 of
             Some msg \<Rightarrow> (Inl (ImgIo ''write chunk'' msg), st1)
           | None \<Rightarrow>
             (if int (length data) \<noteq> len then (Inl (ImgChunkLength n (int (length data)) len), st1)
              else if sha \<noteq> [] \<and> digest_hex (digest data) \<noteq> sha
              then (Inl (ImgShaMismatch sha (digest_hex (digest data))), st1)
              else case fl 4 of
                Some msg \<Rightarrow> (Inl (ImgIo ''rename chunk'' msg), st1)
              | None \<Rightarrow>
                (let st2 = set_file (ChunkFile (us_id sess) n) (Some data) st1 in
                 (Inr len, if us_done sess < n then bump_uploaded_chunks (fl 5) (us_id sess) n st2 else st2))))))"

definition write_chunk ::
  "(string \<Rightarrow> 256 word) \<Rightarrow> faults \<Rightarrow> string \<Rightarrow> int \<Rightarrow> string \<Rightarrow> string \<Rightarrow> image_store \<Rightarrow>
   (image_error, int) result \<times> image_store"
where
  "write_chunk digest fl i n body sha st =
    (case write_chunk_begin (fl 0) i n sha st of
       Inl e \<Rightarrow> (Inl e, st)
     | Inr sess \<Rightarrow> write_chunk_end digest fl sess n body sha st)"

subsection \<open>The catalog row\<close>

text \<open>The name check runs in the transaction of the insertion.\<close>

definition unique_filename ::
  "string option \<Rightarrow> string \<Rightarrow> string \<Rightarrow> string \<Rightarrow> stored_image list \<Rightarrow> (image_error, string) result"
where
  "unique_filename f upload format sha t =
    (let (base, ext) = derived_name upload format in
     if base = ext then Inr (take 12 sha @ ext)
     else case f of
       Some msg \<Rightarrow> Inl (ImgDb ''filename check'' msg)
     | None \<Rightarrow>
       (case sel_row (\<lambda>r. ir_filename r = base) t of
          None \<Rightarrow> Inr base
        | Some r \<Rightarrow> Inr (if ir_sha r = sha then base else suffixed_name base ext sha)))"

definition sql_insert_image :: "stored_image \<Rightarrow> stored_image list \<Rightarrow> (string, stored_image list) result" where
  "sql_insert_image r t =
    (if \<exists>q \<in> set t. ir_id q = ir_id r then Inl ''constraint failed: UNIQUE constraint failed: images.id (1555)''
     else if \<exists>q \<in> set t. ir_sha q = ir_sha r then Inl ''constraint failed: UNIQUE constraint failed: images.sha256 (2067)''
     else if ir_filename r \<noteq> [] \<and> (\<exists>q \<in> set t. ir_filename q = ir_filename r)
     then Inl ''constraint failed: UNIQUE constraint failed: images.filename (2067)''
     else Inr (ins_row r t))"

definition is_filename_conflict :: "string \<Rightarrow> bool" where
  "is_filename_conflict msg \<longleftrightarrow> contains_sub ''UNIQUE constraint failed'' msg \<and> contains_sub ''images.filename'' msg"

text \<open>\<open>insertImageTx\<close>, once more with the suffixed name when the name is taken.\<close>

definition insert_image ::
  "string option \<Rightarrow> string option \<Rightarrow> stored_image \<Rightarrow> stored_image list \<Rightarrow> (image_error, stored_image \<times> stored_image list) result"
where
  "insert_image f1 f2 r t =
    (case try_sql f1 (sql_insert_image r t) of
       Inr t' \<Rightarrow> Inr (r, t')
     | Inl msg \<Rightarrow>
       (if \<not> is_filename_conflict msg then Inl (ImgDb ''insert image'' msg)
        else let r2 = r\<lparr>ir_filename := suffixed_name (ir_filename r) (path_ext (ir_filename r)) (ir_sha r)\<rparr> in
          case try_sql f2 (sql_insert_image r2 t) of
            Inl msg2 \<Rightarrow> Inl (ImgDb ''insert image'' msg2)
          | Inr t' \<Rightarrow> Inr (r2, t')))"

text \<open>\<open>FinalizeImage\<close>: the statements of one transaction, so a failure leaves the tables alone.\<close>

definition finalize_image ::
  "faults \<Rightarrow> time \<Rightarrow> (string, string) result \<Rightarrow> finalize_input \<Rightarrow> image_store \<Rightarrow>
   (image_error, stored_image) result \<times> image_store"
where
  "finalize_image fl now rid fi st =
    (case and_then (refuse_if (\<not> sha256_match (fi_sha fi)) ImgShaFormat) (\<lambda>_.
          and_then (case rid of Inl msg \<Rightarrow> Inl (ImgRandom msg) | Inr i \<Rightarrow> Inr i) (\<lambda>i.
          and_then (check_err (map_option (ImgDb ''begin tx'') (fl 4))) (\<lambda>_.
          and_then (check_err (map_option (ImgDb ''dedupe check'') (fl 5))) (\<lambda>_.
          and_then (case sel_row (\<lambda>r. ir_sha r = fi_sha fi) (ig_images st) of
                      Some r \<Rightarrow> Inl (ImgDuplicate (ir_id r)) | None \<Rightarrow> Inr ()) (\<lambda>_.
          and_then (unique_filename (fl 6) (fi_name fi) (fi_format fi) (fi_sha fi) (ig_images st)) (\<lambda>name.
          and_then (insert_image (fl 7) (fl 8)
              \<lparr>ir_id = i, ir_name = fi_name fi, ir_version = fi_version fi, ir_family = fi_family fi, ir_arch = fi_arch fi,
               ir_format = fi_format fi, ir_size = fi_size fi, ir_virtual = fi_virtual fi, ir_sha = fi_sha fi,
               ir_filename = name, ir_uploaded = unix now, ir_by = fi_by fi, ir_last_used = None,
               ir_notes = fi_notes fi, ir_meta = fi_meta fi\<rparr> (ig_images st)) (\<lambda>rt.
          and_then (check_err (if fi_session fi = [] then None else map_option (ImgDb ''delete session'') (fl 9))) (\<lambda>_.
          and_then (check_err (map_option (ImgDb ''commit'') (fl 10))) (\<lambda>_. Inr rt))))))))) of
       Inl e \<Rightarrow> (Inl e, st)
     | Inr (r, t) \<Rightarrow>
       (Inr r, st\<lparr>ig_images := t,
                  ig_sessions := (if fi_session fi = [] then ig_sessions st
                                  else del_where (\<lambda>u. us_id u = fi_session fi) (ig_sessions st))\<rparr>))"

subsection \<open>Finalizing an upload\<close>

definition claim_finalize :: "string option \<Rightarrow> string \<Rightarrow> image_store \<Rightarrow> image_error option \<times> image_store" where
  "claim_finalize f i st =
    (case f of
       Some msg \<Rightarrow> (Some (ImgDb ''claim finalize'' msg), st)
     | None \<Rightarrow>
       (let free = (\<lambda>r. us_id r = i \<and> us_state r = state_uploading) in
        if hits free (ig_sessions st) = 0 then (Some ImgBusy, st)
        else (None, st\<lparr>ig_sessions := upd_where free (\<lambda>r. r\<lparr>us_state := state_finalizing\<rparr>) (ig_sessions st)\<rparr>)))"

definition release_finalize :: "string option \<Rightarrow> string \<Rightarrow> image_store \<Rightarrow> image_store" where
  "release_finalize f i st =
    (case f of
       Some msg \<Rightarrow> st
     | None \<Rightarrow> st\<lparr>ig_sessions := upd_where (\<lambda>r. us_id r = i \<and> us_state r = state_finalizing)
                                  (\<lambda>r. r\<lparr>us_state := state_uploading\<rparr>) (ig_sessions st)\<rparr>)"

text \<open>
  What a finalizing request meets: the faults of its statements and file operations, of the check and
  of the reading of each chunk, the extractor on the assembled bytes (\<open>None\<close>: not wired), the random
  identifier and the clock.
\<close>

record finalize_env =
  fe_faults :: faults
  fe_stat :: "int \<Rightarrow> string option"
  fe_read :: "int \<Rightarrow> string option"
  fe_extract :: "(string \<Rightarrow> (string, string \<times> int \<times> string) result) option"
  fe_id :: "(string, string) result"
  fe_now :: time

text \<open>
  Where a finalizing request stands. Each step is one of its statements or system calls, so that
  other requests can run in between: the chunks are present, the first ones are copied and hashed,
  the assembled file is verified, the row is stored, the file is in place. A failure still has to
  give the claim back.
\<close>

datatype fin_pc =
    FinChecking upload_session
  | FinCopying upload_session int string
  | FinStaged upload_session finalize_input
  | FinStored upload_session stored_image
  | FinMoved upload_session stored_image
  | FinFailed upload_session image_error
  | FinDone stored_image
  | FinError image_error

definition finalize_begin :: "faults \<Rightarrow> string \<Rightarrow> image_store \<Rightarrow> fin_pc \<times> image_store" where
  "finalize_begin fl i st =
    (case get_upload (fl 0) i st of
       Inl e \<Rightarrow> (FinError e, st)
     | Inr sess \<Rightarrow>
       (case claim_finalize (fl 1) i st of
          (Some e, st') \<Rightarrow> (FinError e, st')
        | (None, st') \<Rightarrow> (FinChecking sess, st')))"

fun first_missing :: "(int \<Rightarrow> string option) \<Rightarrow> string \<Rightarrow> image_store \<Rightarrow> int list \<Rightarrow> image_error option" where
  "first_missing stat i st [] = None"
| "first_missing stat i st (n # ns) =
    (case stat n of
       Some msg \<Rightarrow> Some (ImgIo ''stat chunk'' msg)
     | None \<Rightarrow> (if ig_files st (ChunkFile i n) = None then Some (ImgChunkMissing n) else first_missing stat i st ns))"

text \<open>Format, virtual size and metadata; the extractor's errors are only logged.\<close>

definition extract_metadata ::
  "(string \<Rightarrow> (string, string \<times> int \<times> string) result) option \<Rightarrow> string \<Rightarrow> string option \<Rightarrow> string \<times> int \<times> string" where
  "extract_metadata ex name staged =
    (let guess = infer_format_from_name name in
     case ex of
       None \<Rightarrow> (guess, 0, [])
     | Some f \<Rightarrow>
       (case staged of
          None \<Rightarrow> (guess, 0, [])
        | Some bytes \<Rightarrow>
          (case f bytes of
             Inl e \<Rightarrow> (guess, 0, [])
           | Inr (fmt, vs, md) \<Rightarrow> (if fmt \<noteq> [] then fmt else guess, vs, md))))"

definition finalize_args :: "upload_session \<Rightarrow> string \<times> int \<times> string \<Rightarrow> int \<Rightarrow> string \<Rightarrow> finalize_input" where
  "finalize_args sess meta len sha =
    \<lparr>fi_name = us_name sess, fi_version = us_version sess, fi_family = us_family sess, fi_arch = us_arch sess,
     fi_notes = us_notes sess, fi_format = fst meta, fi_size = len, fi_virtual = fst (snd meta), fi_sha = sha,
     fi_by = us_by sess, fi_meta = snd (snd meta), fi_session = us_id sess\<rparr>"

text \<open>Writing on through the open handle: without a name the bytes are lost.\<close>

definition write_stage :: "string \<Rightarrow> string \<Rightarrow> image_store \<Rightarrow> image_store" where
  "write_stage i acc st = (if ig_files st (StageFile i) = None then st else set_file (StageFile i) (Some acc) st)"

definition drop_stage :: "faults \<Rightarrow> upload_session \<Rightarrow> image_error \<Rightarrow> image_store \<Rightarrow> fin_pc \<times> image_store" where
  "drop_stage fl sess e st = (FinFailed sess e, remove_file (fl 15) (StageFile (us_id sess)) st)"

definition delete_row :: "string option \<Rightarrow> string \<Rightarrow> image_store \<Rightarrow> image_store" where
  "delete_row f i st =
    (case f of Some msg \<Rightarrow> st | None \<Rightarrow> st\<lparr>ig_images := del_where (\<lambda>r. ir_id r = i) (ig_images st)\<rparr>)"

definition finalize_step :: "(string \<Rightarrow> 256 word) \<Rightarrow> finalize_env \<Rightarrow> fin_pc \<Rightarrow> image_store \<Rightarrow> fin_pc \<times> image_store" where
  "finalize_step digest env pc st =
    (let fl = fe_faults env in
     case pc of
       FinChecking sess \<Rightarrow>
         (case first_missing (fe_stat env) (us_id sess) st [1..us_num sess] of
            Some e \<Rightarrow> (FinFailed sess e, st)
          | None \<Rightarrow>
            (case fl 2 of
               Some msg \<Rightarrow> (FinFailed sess (ImgIo ''create assembled'' msg), st)
             | None \<Rightarrow> (FinCopying sess 1 [], set_file (StageFile (us_id sess)) (Some []) st)))
     | FinCopying sess i acc \<Rightarrow>
         (if i \<le> us_num sess then
            (case (fe_read env i, ig_files st (ChunkFile (us_id sess) i)) of
               (None, Some bytes) \<Rightarrow> (FinCopying sess (i + 1) (acc @ bytes), write_stage (us_id sess) (acc @ bytes) st)
             | (Some msg, _) \<Rightarrow> drop_stage fl sess (ImgIo ''copy chunk'' msg) st
             | (None, None) \<Rightarrow> drop_stage fl sess (ImgIo ''open chunk'' ''no such file or directory'') st)
          else case fl 3 of
            Some msg \<Rightarrow> drop_stage fl sess (ImgIo ''close'' msg) st
          | None \<Rightarrow>
            (let len = int (length acc); got = digest_hex (digest acc) in
             if len \<noteq> us_total sess then drop_stage fl sess (ImgSizeMismatch len (us_total sess)) st
             else if us_sha sess \<noteq> [] \<and> got \<noteq> us_sha sess then drop_stage fl sess (ImgShaMismatch (us_sha sess) got) st
             else (FinStaged sess (finalize_args sess
                     (extract_metadata (fe_extract env) (us_name sess) (ig_files st (StageFile (us_id sess)))) len got), st)))
     | FinStaged sess fi \<Rightarrow>
         (case finalize_image fl (fe_now env) (fe_id env) fi st of
            (Inl e, st') \<Rightarrow> drop_stage fl sess e st'
          | (Inr r, st') \<Rightarrow> (FinStored sess r, st'))
     | FinStored sess r \<Rightarrow>
         (case (fl 11, ig_files st (StageFile (us_id sess))) of
            (None, Some bytes) \<Rightarrow>
              (FinMoved sess r, set_file (CatalogFile (ir_filename r)) (Some bytes) (set_file (StageFile (us_id sess)) None st))
          | (Some msg, _) \<Rightarrow> drop_stage fl sess (ImgIo ''rename to final'' msg) (delete_row (fl 12) (ir_id r) st)
          | (None, None) \<Rightarrow>
              drop_stage fl sess (ImgIo ''rename to final'' ''no such file or directory'') (delete_row (fl 12) (ir_id r) st))
     | FinMoved sess r \<Rightarrow> (FinDone r, remove_dir (fl 13) (us_id sess) st)
     | FinFailed sess e \<Rightarrow> (FinError e, release_finalize (fl 14) (us_id sess) st)
     | FinDone r \<Rightarrow> (pc, st)
     | FinError e \<Rightarrow> (pc, st))"

definition fin_over :: "fin_pc \<Rightarrow> bool" where
  "fin_over pc \<longleftrightarrow> (case pc of FinDone r \<Rightarrow> True | FinError e \<Rightarrow> True | _ \<Rightarrow> False)"

definition fin_left :: "fin_pc \<Rightarrow> nat" where
  "fin_left pc =
    (case pc of
       FinChecking sess \<Rightarrow> nat (us_num sess) + 7 | FinCopying sess i acc \<Rightarrow> nat (us_num sess + 1 - i) + 6
     | FinStaged sess fi \<Rightarrow> 4 | FinStored sess r \<Rightarrow> 3 | FinMoved sess r \<Rightarrow> 1 | FinFailed sess e \<Rightarrow> 1 | _ \<Rightarrow> 0)"

lemma finalize_step_left: "\<not> fin_over pc \<Longrightarrow> fin_left (fst (finalize_step digest env pc st)) < fin_left pc"
  by (auto simp: finalize_step_def fin_over_def fin_left_def drop_stage_def Let_def
      split: fin_pc.splits option.splits sum.splits prod.splits)

text \<open>A request that runs alone takes its steps one after the other.\<close>

function finalize_run :: "(string \<Rightarrow> 256 word) \<Rightarrow> finalize_env \<Rightarrow> fin_pc \<Rightarrow> image_store \<Rightarrow> fin_pc \<times> image_store" where
  "finalize_run digest env pc st =
    (if fin_over pc then (pc, st)
     else finalize_run digest env (fst (finalize_step digest env pc st)) (snd (finalize_step digest env pc st)))"
  by pat_completeness auto
termination
  by (relation "measure (\<lambda>(digest, env, pc, st). fin_left pc)") (auto simp: split_beta finalize_step_left)

declare finalize_run.simps [simp del]

definition finalize_upload ::
  "(string \<Rightarrow> 256 word) \<Rightarrow> finalize_env \<Rightarrow> string \<Rightarrow> image_store \<Rightarrow> (image_error, stored_image) result \<times> image_store"
where
  "finalize_upload digest env i st =
    (let (pc, st1) = finalize_begin (fe_faults env) i st; (res, st2) = finalize_run digest env pc st1 in
     (case res of FinDone r \<Rightarrow> Inr r | FinError e \<Rightarrow> Inl e | _ \<Rightarrow> Inl ImgBusy, st2))"

subsection \<open>Reading and deleting images\<close>

definition get_image :: "string option \<Rightarrow> string \<Rightarrow> image_store \<Rightarrow> (image_error, stored_image) result" where
  "get_image f i st =
    (case f of
       Some msg \<Rightarrow> Inl (ImgDb ''get image'' msg)
     | None \<Rightarrow> (case sel_row (\<lambda>r. ir_id r = i) (ig_images st) of None \<Rightarrow> Inl ImgNotFound | Some r \<Rightarrow> Inr r))"

text \<open>Newest first. The identifiers are ordered as texts.\<close>

definition list_images :: "string option \<Rightarrow> image_store \<Rightarrow> (image_error, stored_image list) result" where
  "list_images f st =
    (case f of
       Some msg \<Rightarrow> Inl (ImgDb ''query images'' msg)
     | None \<Rightarrow> Inr (rev (sort_key ir_uploaded (sort_key ir_id (ig_images st)))))"

definition legacy_name :: "string \<Rightarrow> string \<Rightarrow> string" where
  "legacy_name sha format = sha @ ''.'' @ format"

definition final_path :: "string option \<Rightarrow> string \<Rightarrow> string \<Rightarrow> string \<Rightarrow> image_store \<Rightarrow> image_path" where
  "final_path f filename format sha st =
    (if filename \<noteq> [] \<and> f = None \<and> ig_files st (CatalogFile filename) \<noteq> None then CatalogFile filename
     else CatalogFile (legacy_name sha format))"

text \<open>
  \<open>DeleteImageFile\<close> and, inside it, \<open>DeleteImage\<close>: the row is read, deleted (rows of other tables that
  refer to the image refuse this), the path is looked up, and the file of the former naming and the
  one at the path are removed. Nothing holds a lock meanwhile, so this is a sequence of steps.
\<close>

definition delete_image ::
  "string option \<Rightarrow> bool \<Rightarrow> stored_image \<Rightarrow> image_store \<Rightarrow> (image_error, stored_image) result \<times> image_store" where
  "delete_image f referenced r st =
    (case try_sql f (if referenced then Inl ''constraint failed: FOREIGN KEY constraint failed (787)'' else Inr ()) of
       Inl msg \<Rightarrow> (Inl (ImgDb ''delete image'' msg), st)
     | Inr u \<Rightarrow> (Inr r, st\<lparr>ig_images := del_where (\<lambda>q. ir_id q = ir_id r) (ig_images st)\<rparr>))"

datatype del_pc =
    DelStart string
  | DelFound stored_image
  | DelGone stored_image
  | DelNamed stored_image image_path
  | DelLegacy stored_image image_path
  | DelDone stored_image
  | DelError image_error

definition delete_step ::
  "faults \<Rightarrow> (string \<Rightarrow> bool) \<Rightarrow> del_pc \<Rightarrow> image_store \<Rightarrow> del_pc \<times> image_store" where
  "delete_step fl referenced d st =
    (case d of
       DelStart i \<Rightarrow> ((case get_image (fl 0) i st of Inl e \<Rightarrow> DelError e | Inr r \<Rightarrow> DelFound r), st)
     | DelFound r \<Rightarrow>
       (case delete_image (fl 1) (referenced (ir_id r)) r st of (Inl e, st') \<Rightarrow> (DelError e, st') | (Inr q, st') \<Rightarrow> (DelGone q, st'))
     | DelGone r \<Rightarrow> (DelNamed r (final_path (fl 2) (ir_filename r) (ir_format r) (ir_sha r) st), st)
     | DelNamed r p \<Rightarrow> (DelLegacy r p, remove_file (fl 3) (CatalogFile (legacy_name (ir_sha r) (ir_format r))) st)
     | DelLegacy r p \<Rightarrow> (DelDone r, remove_file (fl 4) p st)
     | _ \<Rightarrow> (d, st))"

text \<open>A deletion that runs alone is over after five steps.\<close>

definition delete_image_file ::
  "faults \<Rightarrow> (string \<Rightarrow> bool) \<Rightarrow> string \<Rightarrow> image_store \<Rightarrow> (image_error, stored_image) result \<times> image_store" where
  "delete_image_file fl referenced i st =
    (let (d, st') = ((\<lambda>(d, s). delete_step fl referenced d s) ^^ 5) (DelStart i, st) in
     (case d of DelDone r \<Rightarrow> Inr r | DelError e \<Rightarrow> Inl e | _ \<Rightarrow> Inl ImgBusy, st'))"

subsection \<open>Startup\<close>

text \<open>
  \<open>GCStaleUploads\<close>: the faults of the listing and the directory listing, those of each session's
  deletion and look-up, and the modification time of each directory, \<open>None\<close> where it cannot be read.
\<close>

record gc_env =
  ge_list :: "string option"
  ge_abort :: "string \<Rightarrow> faults"
  ge_readdir :: "string option"
  ge_lookup :: "string \<Rightarrow> string option"
  ge_mtime :: "string \<Rightarrow> time option"
  ge_remove :: "string \<Rightarrow> string option"

definition gc_orphan :: "gc_env \<Rightarrow> time \<Rightarrow> string \<Rightarrow> image_store \<Rightarrow> image_store" where
  "gc_orphan env cutoff i st =
    (if \<not> hex32_match i then st
     else case get_upload (ge_lookup env i) i st of
       Inr u \<Rightarrow> st
     | Inl e \<Rightarrow>
       (case ge_mtime env i of
          None \<Rightarrow> st
        | Some t \<Rightarrow> (if cutoff < t then st else remove_dir (ge_remove env i) i st)))"

definition gc_stale_uploads :: "gc_env \<Rightarrow> time \<Rightarrow> image_store \<Rightarrow> (image_error, nat) result \<times> image_store" where
  "gc_stale_uploads env cutoff st =
    (case list_stale_uploads (ge_list env) cutoff st of
       Inl e \<Rightarrow> (Inl e, st)
     | Inr stale \<Rightarrow>
       (let st1 = fold (\<lambda>u s. snd (abort_upload (ge_abort env (us_id u)) (us_id u) s)) stale st in
        case ge_readdir env of
          Some msg \<Rightarrow> (Inl (ImgIo ''read tmp dir'' msg), st1)
        | None \<Rightarrow> (Inr (length stale), fold (gc_orphan env cutoff) (sort (ig_dirs st1)) st1)))"

text \<open>
  One row of \<open>RewriteLegacyNames\<close>, with the faults of: 0 the begin, 1 the name check, 2 the update,
  3 the second try, 4 the commit, 5 and 6 the two look-ups of a file, 7 the renaming, 8 the last
  update. The second try runs after the transaction was rolled back, so the commit that follows it
  fails and the file is not moved.
\<close>

definition set_filename :: "string \<Rightarrow> bool \<Rightarrow> string \<Rightarrow> stored_image list \<Rightarrow> (string, stored_image list) result" where
  "set_filename i only_empty name t =
    (let p = (\<lambda>r. ir_id r = i \<and> (only_empty \<longrightarrow> ir_filename r = [])) in
     if name \<noteq> [] \<and> hits p t \<noteq> 0 \<and> (\<exists>q \<in> set t. ir_filename q = name \<and> ir_id q \<noteq> i)
     then Inl ''constraint failed: UNIQUE constraint failed: images.filename (2067)''
     else Inr (upd_where p (\<lambda>r. r\<lparr>ir_filename := name\<rparr>) t))"

definition legacy_claim :: "faults \<Rightarrow> stored_image \<Rightarrow> stored_image list \<Rightarrow> string option \<times> stored_image list" where
  "legacy_claim fl r t =
    (if fl 0 \<noteq> None then (None, t)
     else case unique_filename (fl 1) (ir_name r) (ir_format r) (ir_sha r) t of
       Inl e \<Rightarrow> (None, t)
     | Inr want \<Rightarrow>
       (case try_sql (fl 2) (set_filename (ir_id r) True want t) of
          Inr t' \<Rightarrow> (if fl 4 = None then (Some want, t') else (None, t))
        | Inl msg \<Rightarrow>
          (if \<not> contains_sub ''UNIQUE constraint failed'' msg then (None, t)
           else case try_sql (fl 3) (set_filename (ir_id r) True (suffixed_name want (path_ext want) (ir_sha r)) t) of
             Inl msg2 \<Rightarrow> (None, t)
           | Inr t' \<Rightarrow> (None, t'))))"

definition legacy_move :: "faults \<Rightarrow> stored_image \<Rightarrow> string \<Rightarrow> image_store \<Rightarrow> image_store" where
  "legacy_move fl r want0 st =
    (let taken = fl 5 = None \<and> ig_files st (CatalogFile want0) \<noteq> None;
         want = (if taken then suffixed_name want0 (path_ext want0) (ir_sha r) else want0);
         legacy = CatalogFile (legacy_name (ir_sha r) (ir_format r));
         finish = (\<lambda>s. case try_sql (fl 8) (set_filename (ir_id r) False want (ig_images s)) of
                     Inl msg \<Rightarrow> s | Inr t \<Rightarrow> s\<lparr>ig_images := t\<rparr>) in
     if fl 6 = None \<and> ig_files st legacy \<noteq> None then
       (if fl 7 \<noteq> None then st
        else finish (set_file (CatalogFile want) (ig_files st legacy) (set_file legacy None st)))
     else finish st)"

definition rewrite_legacy_name :: "(string \<Rightarrow> faults) \<Rightarrow> stored_image \<Rightarrow> image_store \<Rightarrow> image_store" where
  "rewrite_legacy_name fl r st =
    (if ir_filename r \<noteq> [] then st
     else case legacy_claim (fl (ir_id r)) r (ig_images st) of
       (None, t) \<Rightarrow> st\<lparr>ig_images := t\<rparr>
     | (Some want, t) \<Rightarrow> legacy_move (fl (ir_id r)) r want (st\<lparr>ig_images := t\<rparr>))"

definition rewrite_legacy_names :: "string option \<Rightarrow> (string \<Rightarrow> faults) \<Rightarrow> image_store \<Rightarrow> image_store" where
  "rewrite_legacy_names f fl st =
    (case f of Some msg \<Rightarrow> st | None \<Rightarrow> fold (rewrite_legacy_name fl) (ig_images st) st)"

subsection \<open>File names stay inside the catalog directory\<close>

definition plain_name :: "string \<Rightarrow> bool" where
  "plain_name s \<longleftrightarrow> s \<notin> {[], ''.'', ''..''} \<and> CHR ''/'' \<notin> set s \<and> CHR 0x00 \<notin> set s"

lemma decode_rune_high:
  assumes "decode_rune s = (r, w)" "\<not> byte (hd s) < 128" "w \<noteq> 1" "c \<in> set (take w s)"
  shows "128 \<le> byte c"
proof (cases s)
  case (Cons d ds)
  then obtain n lo hi where l: "utf8_lead (byte d) = Some (n, lo, hi)" "w = Suc n" "list_all (is_cont 0x80 0xBF) (take n ds)"
    using assms(1-3) by (auto simp: decode_rune_def split: option.splits prod.splits if_splits)
  then show ?thesis
    using assms(2,4) Cons by (auto simp: list_all_iff is_cont_def)
qed (use assms(4) in simp)

lemma safe_runes_char: "c \<in> set (safe_runes s) \<Longrightarrow> c = CHR ''_'' \<or> c \<notin> set unsafe_chars"
proof (induction s rule: safe_runes.induct)
  case (1 s)
  have high: "d \<notin> set unsafe_chars" if "128 \<le> byte d" for d
    using that by (auto simp: unsafe_chars_def)
  show ?case
  proof (cases "s = []")
    case True
    then show ?thesis using 1(2) by (subst (asm) safe_runes.simps) simp
  next
    case False
    obtain r w where d: "decode_rune s = (r, w)" by force
    define rest where "rest = safe_runes (drop (max 1 w) s)"
    have "safe_runes s = (if byte (hd s) < 128 then [if hd s \<in> set unsafe_chars then CHR ''_'' else hd s]
        else if w = 1 then [CHR 0xEF, CHR 0xBF, CHR 0xBD] else take w s) @ rest"
      by (subst safe_runes.simps) (simp add: False d rest_def)
    with 1(2) have "c \<in> set rest \<or> c \<in> {CHR ''_'', CHR 0xEF, CHR 0xBF, CHR 0xBD} \<or> c \<notin> set unsafe_chars
        \<or> (\<not> byte (hd s) < 128 \<and> w \<noteq> 1 \<and> c \<in> set (take w s))"
      by (auto split: if_splits)
    moreover have "{CHR 0xEF, CHR 0xBF, CHR 0xBD} \<inter> set unsafe_chars = {}" by (simp add: unsafe_chars_def)
    ultimately show ?thesis
      using 1(1) [OF False d [symmetric] refl] decode_rune_high [OF d, of c] high [of c] rest_def by blast
  qed
qed

definition safe_char :: "char \<Rightarrow> bool" where
  "safe_char c \<longleftrightarrow> c \<noteq> CHR ''/'' \<and> c \<noteq> CHR 0x00"

lemma safe_filename:
  "sanitize_filename s \<notin> {[], ''.'', ''..''}" "c \<in> set (sanitize_filename s) \<Longrightarrow> safe_char c"
proof -
  define out where "out = safe_runes (path_base (trim_space s))"
  have out: "safe_char d" if "d \<in> set out" for d
    using safe_runes_char [OF that [unfolded out_def]] by (auto simp: safe_char_def unsafe_chars_def)
  have f: "sanitize_filename s = (if out \<in> {[], ''.'', ''..''} then ''image''
     else if 180 < length out then drop (length out - 180) out else out)"
    by (simp add: sanitize_filename_def out_def Let_def)
  have "drop (length out - 180) out \<notin> {[], ''.'', ''..''}" if "180 < length out"
    using that by (auto dest: arg_cong [of _ _ length])
  then show "sanitize_filename s \<notin> {[], ''.'', ''..''}"
    unfolding f by simp
  show "safe_char c" if "c \<in> set (sanitize_filename s)"
    using that out unfolding f by (auto simp: safe_char_def split: if_splits dest: in_set_dropD)
qed

lemma path_ext_chars: "c \<in> set (path_ext s) \<Longrightarrow> c \<in> set s"
proof -
  assume c: "c \<in> set (path_ext s)"
  define ext where "ext = rev (takeWhile (\<lambda>c. c \<noteq> CHR ''.'' \<and> c \<noteq> CHR ''/'') (rev s))"
  define rest where "rest = drop (length ext) (rev s)"
  have e: "path_ext s = (if rest \<noteq> [] \<and> hd rest = CHR ''.'' then CHR ''.'' # ext else [])"
    by (simp add: path_ext_def Let_def ext_def rest_def)
  have "d \<in> set s" if "d \<in> set ext" for d
    using that set_takeWhileD [of d _ "rev s"] by (simp add: ext_def)
  moreover have "hd rest \<in> set s" if "rest \<noteq> []"
    using that unfolding rest_def by (metis hd_in_set in_set_dropD set_rev)
  ultimately show ?thesis
    using c unfolding e by (auto split: if_splits)
qed

lemma trim_suffix_chars: "c \<in> set (trim_suffix suf s) \<Longrightarrow> c \<in> set s"
  by (auto simp: trim_suffix_def dest: in_set_takeD split: if_splits)

text \<open>What the extractor calls a format is a word: \<open>qcow2\<close>, \<open>raw\<close>, \<open>vmdk\<close>.\<close>

definition plain_format :: "string \<Rightarrow> bool" where
  "plain_format f \<longleftrightarrow> f \<noteq> [] \<and> list_all is_alnum f"

lemma safe_alnum: "is_alnum c \<Longrightarrow> safe_char c"
  by (auto simp: is_alnum_def is_digit_def is_upper_def is_lower_def safe_char_def)

lemma plain_formatD:
  assumes "plain_format f"
  shows "f \<noteq> []" "last f \<noteq> CHR ''.''" "c \<in> set f \<Longrightarrow> safe_char c"
proof -
  have "is_alnum (last f)" using assms by (auto simp: plain_format_def list_all_iff)
  then show "f \<noteq> []" "last f \<noteq> CHR ''.''" using assms
    by (auto simp: plain_format_def is_alnum_def is_digit_def is_upper_def is_lower_def)
  show "c \<in> set f \<Longrightarrow> safe_char c" using assms by (auto simp: plain_format_def list_all_iff intro: safe_alnum)
qed

text \<open>Safe characters, and an end that is no dot: so neither \<open>.\<close> nor \<open>..\<close>.\<close>

definition inside :: "string \<Rightarrow> bool" where
  "inside s \<longleftrightarrow> s \<noteq> [] \<and> last s \<noteq> CHR ''.'' \<and> (\<forall>c \<in> set s. safe_char c)"

lemma inside_plain:
  assumes "inside s"
  shows "plain_name s"
proof -
  have "s \<noteq> []" "s \<noteq> ''.''" "s \<noteq> ''..''" using assms by (auto simp: inside_def)
  moreover have "c \<notin> set s" if "\<not> safe_char c" for c using assms that unfolding inside_def by blast
  then have "CHR ''/'' \<notin> set s" "CHR 0x00 \<notin> set s" by (simp_all add: safe_char_def)
  ultimately show ?thesis by (simp add: plain_name_def)
qed

lemma inside_ending: "\<forall>c \<in> set s. safe_char c \<Longrightarrow> inside e \<Longrightarrow> inside (s @ e)"
  by (auto simp: inside_def)

lemma path_ext_end: "path_ext s \<noteq> [] \<Longrightarrow> last (path_ext s) = last s"
proof -
  assume ne: "path_ext s \<noteq> []"
  define tw where "tw = takeWhile (\<lambda>c. c \<noteq> CHR ''.'' \<and> c \<noteq> CHR ''/'') (rev s)"
  define rest where "rest = drop (length tw) (rev s)"
  have "path_ext s = (if rest \<noteq> [] \<and> hd rest = CHR ''.'' then CHR ''.'' # rev tw else [])"
    by (simp add: path_ext_def Let_def tw_def rest_def)
  then have ext: "path_ext s = CHR ''.'' # rev tw" and hd: "rest \<noteq> []" "hd rest = CHR ''.''"
    using ne by (metis)+
  have cut: "rev s = tw @ rest"
    unfolding tw_def rest_def by (simp add: dropWhile_eq_drop [symmetric])
  have "hd (tw @ rest) = last (path_ext s)"
    unfolding ext using hd by (cases tw) (simp_all add: last_rev)
  moreover have "s \<noteq> []" using cut hd(1) by (metis append_is_Nil_conv rev.simps(1))
  then have "hd (rev s) = last s" by (simp add: hd_rev)
  ultimately show ?thesis unfolding cut by simp
qed

lemma derived_name_inside:
  assumes "plain_format format" "derived_name upload format = (base, ext)"
  shows "inside base" "inside ext"
proof -
  define b0 where "b0 = sanitize_filename upload"
  have b0: "\<forall>c \<in> set b0. safe_char c" "b0 \<noteq> []"
    using safe_filename(1) [of upload] safe_filename(2) [where s = upload] by (auto simp: b0_def)
  have fmt: "inside (''.'' @ format)"
    using plain_formatD [OF assms(1)] by (auto simp: inside_def safe_char_def)
  obtain b1 e1 where b1: "(if path_ext b0 = [] then (b0 @ ''.'' @ format, ''.'' @ format) else (b0, path_ext b0)) = (b1, e1)"
    by force
  have in1: "\<forall>c \<in> set b1. safe_char c" "\<forall>c \<in> set e1. safe_char c" "b1 \<noteq> []" "e1 \<noteq> []" "last b1 = last e1"
    using b1 b0 fmt path_ext_chars [of _ b0] path_ext_end [of b0] by (auto simp: inside_def split: if_splits)
  have res: "(base, ext) = (if e1 \<in> {''.qcow2'', ''.raw'', ''.img''} then (b1, e1)
      else (trim_suffix e1 b1 @ ''.'' @ format, ''.'' @ format))"
    using assms(2) unfolding derived_name_def Let_def b0_def [symmetric] b1 prod.case by (rule sym)
  have cut: "\<forall>c \<in> set (trim_suffix e1 b1). safe_char c"
    using in1(1) trim_suffix_chars [of _ e1 b1] by auto
  have "inside b1" "inside e1" if "e1 \<in> {''.qcow2'', ''.raw'', ''.img''}"
    using that in1 by (auto simp: inside_def)
  then show "inside base" "inside ext"
    using res inside_ending [OF cut fmt] fmt by (auto split: if_splits)
qed

lemma hex_inside:
  assumes "sha256_match sha" "0 < n"
  shows "inside (take n sha)"
proof -
  have "length sha = 64" "\<forall>c \<in> set sha. is_lower_hex c"
    using assms(1) by (auto simp: sha256_match_def hex_run_def list_all_iff)
  then have "\<forall>c \<in> set (take n sha). safe_char c \<and> c \<noteq> CHR ''.''" "take n sha \<noteq> []"
    using assms(2) by (auto simp: is_lower_hex_def is_digit_def safe_char_def dest!: in_set_takeD)
  then show ?thesis by (auto simp: inside_def)
qed

lemma suffixed_inside:
  assumes "\<forall>c \<in> set base. safe_char c" "sha256_match sha" "ext = [] \<or> inside ext"
  shows "inside (suffixed_name base ext sha)"
proof -
  have hex: "inside (take 8 sha)" using hex_inside [OF assms(2)] by simp
  then have "inside (take 8 sha @ ext)" using assms(3) inside_ending [of "take 8 sha" ext] by (auto simp: inside_def)
  moreover have "\<forall>c \<in> set (trim_suffix ext base @ ''-''). safe_char c"
    using assms(1) trim_suffix_chars by (auto simp: safe_char_def)
  ultimately have "inside ((trim_suffix ext base @ ''-'') @ take 8 sha @ ext)" by (rule inside_ending [rotated])
  then show ?thesis by (simp add: suffixed_name_def)
qed

lemma unique_filename_inside:
  assumes "plain_format format" "sha256_match sha" "unique_filename f upload format sha t = Inr name"
  shows "inside name"
proof -
  obtain base ext where d: "derived_name upload format = (base, ext)" by force
  note in_d = derived_name_inside [OF assms(1) d]
  have "inside (take 12 sha @ ext)" "inside (suffixed_name base ext sha)"
    using in_d hex_inside [OF assms(2), of 12] suffixed_inside [OF _ assms(2)] by (auto simp: inside_def)
  then show ?thesis
    using assms(3) d in_d(1) by (auto simp: unique_filename_def split: if_splits option.splits)
qed

lemma retried_name_inside: "inside name \<Longrightarrow> sha256_match sha \<Longrightarrow> inside (suffixed_name name (path_ext name) sha)"
  using path_ext_end [of name] path_ext_chars [of _ name] by (intro suffixed_inside) (auto simp: inside_def)

end
