(* ===== verification/Image_Catalog.thy ===== *)
theory Image_Catalog
  imports Image_Store
begin

text \<open>
  What the image catalog promises when its requests run interleaved. A state of the system is the
  store, the finalizing requests and the deletions that are under way, each at its own step; chunks
  land, and uploads are started, aborted and collected in between. A chunk write acts on the session it
  read earlier, however old.
\<close>

type_synonym image_sys = "image_store \<times> fin_pc list"

definition pc_session :: "fin_pc \<Rightarrow> string option" where
  "pc_session pc =
    (case pc of
       FinChecking sess \<Rightarrow> Some (us_id sess) | FinCopying sess i acc \<Rightarrow> Some (us_id sess)
     | FinStaged sess fi \<Rightarrow> Some (us_id sess) | FinStored sess r \<Rightarrow> Some (us_id sess)
     | FinMoved sess r \<Rightarrow> Some (us_id sess) | FinFailed sess e \<Rightarrow> Some (us_id sess)
     | FinDone r \<Rightarrow> None | FinError e \<Rightarrow> None)"

text \<open>The row whose file is not in place yet.\<close>

definition pending :: "fin_pc \<Rightarrow> stored_image option" where
  "pending pc = (case pc of FinStored sess r \<Rightarrow> Some r | _ \<Rightarrow> None)"

definition no_pending :: "fin_pc list \<Rightarrow> string \<Rightarrow> bool" where
  "no_pending ths i \<longleftrightarrow> list_all (\<lambda>pc. case pending pc of None \<Rightarrow> True | Some r \<Rightarrow> ir_id r \<noteq> i) ths"

definition no_legacy_clash :: "image_store \<Rightarrow> string \<Rightarrow> bool" where
  "no_legacy_clash st i \<longleftrightarrow>
    list_all (\<lambda>r. ir_id r = i \<longrightarrow>
      list_all (\<lambda>q. ir_id q = i \<or> ir_filename q \<noteq> legacy_name (ir_sha r) (ir_format r)) (ig_images st)) (ig_images st)"

text \<open>
  What the requests other than deletions do. Identifiers are 128 random bits: a new session does not
  get the one of a request under way. The statement that takes a row back after a failed renaming is
  assumed to work.
\<close>

inductive image_step :: "(string \<Rightarrow> 256 word) \<Rightarrow> image_sys \<Rightarrow> image_sys \<Rightarrow> bool"
  for digest where
  create: "create_upload fl now rid inp st = (out, st') \<Longrightarrow> (\<And>i. rid = Inr i \<Longrightarrow> \<forall>pc \<in> set ths. pc_session pc \<noteq> Some i)
    \<Longrightarrow> image_step digest (st, ths) (st', ths)"
| chunk: "write_chunk_end digest fl sess n body sha st = (out, st') \<Longrightarrow> image_step digest (st, ths) (st', ths)"
| begin_finalize: "finalize_begin fl i st = (pc, st') \<Longrightarrow> image_step digest (st, ths) (st', ths @ [pc])"
| advance: "k < length ths \<Longrightarrow> finalize_step digest env (ths ! k) st = (pc, st') \<Longrightarrow> fe_faults env 12 = None
    \<Longrightarrow> image_step digest (st, ths) (st', ths[k := pc])"
| abort: "abort_upload fl i st = (out, st') \<Longrightarrow> image_step digest (st, ths) (st', ths)"
| collect: "gc_stale_uploads env cutoff st = (res, st') \<Longrightarrow> image_step digest (st, ths) (st', ths)"

text \<open>The names a deletion under way may still remove.\<close>

definition del_row :: "del_pc \<Rightarrow> stored_image option" where
  "del_row d =
    (case d of DelFound r \<Rightarrow> Some r | DelGone r \<Rightarrow> Some r | DelNamed r p \<Rightarrow> Some r | DelLegacy r p \<Rightarrow> Some r | _ \<Rightarrow> None)"

definition del_path :: "del_pc \<Rightarrow> image_path option" where
  "del_path d = (case d of DelNamed r p \<Rightarrow> Some p | DelLegacy r p \<Rightarrow> Some p | _ \<Rightarrow> None)"

definition del_names :: "del_pc \<Rightarrow> string set" where
  "del_names d = (case del_row d of None \<Rightarrow> {} | Some r \<Rightarrow> {ir_filename r, legacy_name (ir_sha r) (ir_format r)})"

text \<open>
  Three things the code does not guard against. \<open>safe_delete\<close>, of a deletion about to take its next step:
  the image has no file that is still being moved, and its former content-addressed name is not the
  file name of another image. \<open>stored_apart\<close>, of any other step: it stores no image under a name that a
  deletion under way may still remove.
\<close>

definition safe_delete :: "image_sys \<Rightarrow> del_pc \<Rightarrow> bool" where
  "safe_delete s d \<longleftrightarrow>
    (case d of DelStart i \<Rightarrow> no_legacy_clash (fst s) i | DelFound r \<Rightarrow> no_pending (snd s) (ir_id r) | _ \<Rightarrow> True)"

definition stored_apart :: "image_sys \<Rightarrow> image_sys \<Rightarrow> del_pc list \<Rightarrow> bool" where
  "stored_apart s s' ds \<longleftrightarrow>
    (\<forall>q \<in> set (ig_images (fst s')). q \<in> set (ig_images (fst s)) \<or> (\<forall>d \<in> set ds. ir_filename q \<notin> del_names d))"

inductive requests_step :: "(string \<Rightarrow> 256 word) \<Rightarrow> image_sys \<times> del_pc list \<Rightarrow> image_sys \<times> del_pc list \<Rightarrow> bool"
  for digest where
  request: "image_step digest s s' \<Longrightarrow> stored_apart s s' ds \<Longrightarrow> requests_step digest (s, ds) (s', ds)"
| begin_delete: "requests_step digest (s, ds) (s, ds @ [DelStart i])"
| delete: "k < length ds \<Longrightarrow> delete_step fl referenced (ds ! k) (fst s) = (d, st') \<Longrightarrow> safe_delete s (ds ! k)
    \<Longrightarrow> requests_step digest (s, ds) ((st', snd s), ds[k := d])"

subsection \<open>The invariant\<close>

definition bytes_match :: "(string \<Rightarrow> 256 word) \<Rightarrow> string \<Rightarrow> int \<Rightarrow> string \<Rightarrow> bool" where
  "bytes_match digest sha len bs \<longleftrightarrow> digest_hex (digest bs) = sha \<and> int (length bs) = len"

definition staged :: "(string \<Rightarrow> bool) \<Rightarrow> string \<Rightarrow> image_store \<Rightarrow> bool" where
  "staged Q i st \<longleftrightarrow> (case ig_files st (StageFile i) of None \<Rightarrow> True | Some bs \<Rightarrow> Q bs)"

text \<open>What a request knows of the store at its step.\<close>

definition pc_ok :: "(string \<Rightarrow> 256 word) \<Rightarrow> image_store \<Rightarrow> fin_pc \<Rightarrow> bool" where
  "pc_ok digest st pc \<longleftrightarrow>
    (case pc of
       FinCopying sess i acc \<Rightarrow> staged (\<lambda>bs. bs = acc) (us_id sess) st
     | FinStaged sess fi \<Rightarrow> fi_session fi = us_id sess \<and> staged (bytes_match digest (fi_sha fi) (fi_size fi)) (us_id sess) st
     | FinStored sess r \<Rightarrow> r \<in> set (ig_images st) \<and> staged (bytes_match digest (ir_sha r) (ir_size r)) (us_id sess) st
     | _ \<Rightarrow> True)"

definition held :: "image_store \<Rightarrow> fin_pc \<Rightarrow> bool" where
  "held st pc \<longleftrightarrow> (\<forall>u \<in> set (ig_sessions st). pc_session pc = Some (us_id u) \<longrightarrow> us_state u = state_finalizing)"

definition file_ok :: "(string \<Rightarrow> 256 word) \<Rightarrow> image_store \<Rightarrow> stored_image \<Rightarrow> bool" where
  "file_ok digest st r \<longleftrightarrow>
    (case ig_files st (CatalogFile (ir_filename r)) of None \<Rightarrow> False | Some bs \<Rightarrow> bytes_match digest (ir_sha r) (ir_size r) bs)"

definition exclusive :: "('a \<Rightarrow> 'b option) \<Rightarrow> 'a list \<Rightarrow> bool" where
  "exclusive f xs \<longleftrightarrow>
    (\<forall>j < length xs. \<forall>k < length xs. j \<noteq> k \<longrightarrow> f (xs ! j) \<noteq> None \<longrightarrow> f (xs ! j) \<noteq> f (xs ! k))"

definition catalog_keys :: "stored_image list \<Rightarrow> bool" where
  "catalog_keys t \<longleftrightarrow> keyed ir_id t \<and> keyed ir_sha t \<and> keyed ir_filename t \<and> (\<forall>r \<in> set t. ir_filename r \<noteq> [])"

definition requests_ok :: "(string \<Rightarrow> 256 word) \<Rightarrow> image_sys \<Rightarrow> bool" where
  "requests_ok digest s \<longleftrightarrow>
    exclusive pc_session (snd s) \<and> exclusive pending (snd s) \<and> (\<forall>pc \<in> set (snd s). pc_ok digest (fst s) pc \<and> held (fst s) pc)"

definition files_ok :: "(string \<Rightarrow> 256 word) \<Rightarrow> image_sys \<Rightarrow> bool" where
  "files_ok digest s \<longleftrightarrow>
    (\<forall>r \<in> set (ig_images (fst s)). (\<exists>pc \<in> set (snd s). pending pc = Some r) \<or> file_ok digest (fst s) r)"

definition image_inv :: "(string \<Rightarrow> 256 word) \<Rightarrow> image_sys \<Rightarrow> bool" where
  "image_inv digest s \<longleftrightarrow>
    catalog_keys (ig_images (fst s)) \<and> keyed us_id (ig_sessions (fst s)) \<and> requests_ok digest s \<and> files_ok digest s"

lemma image_invI:
  assumes "catalog_keys (ig_images st)" "keyed us_id (ig_sessions st)" "exclusive pc_session ths" "exclusive pending ths"
    and "\<And>pc. pc \<in> set ths \<Longrightarrow> pc_ok digest st pc" "\<And>pc. pc \<in> set ths \<Longrightarrow> held st pc"
    and "\<And>r. r \<in> set (ig_images st) \<Longrightarrow> (\<exists>pc \<in> set ths. pending pc = Some r) \<or> file_ok digest st r"
  shows "image_inv digest (st, ths)"
  using assms by (simp add: image_inv_def requests_ok_def files_ok_def)

lemma image_invD:
  assumes "image_inv digest (st, ths)"
  shows "catalog_keys (ig_images st)" "keyed us_id (ig_sessions st)" "exclusive pc_session ths" "exclusive pending ths"
    and "pc \<in> set ths \<Longrightarrow> pc_ok digest st pc" "pc \<in> set ths \<Longrightarrow> held st pc"
    and "r \<in> set (ig_images st) \<Longrightarrow> (\<exists>pc \<in> set ths. pending pc = Some r) \<or> file_ok digest st r"
  using assms by (simp_all add: image_inv_def requests_ok_def files_ok_def)

lemma exclusive_append:
  assumes "exclusive f xs" "f y = None \<or> (\<forall>x \<in> set xs. f x \<noteq> f y)"
  shows "exclusive f (xs @ [y])"
  using assms unfolding exclusive_def by (auto simp: nth_append less_Suc_eq)

lemma exclusive_update:
  assumes "exclusive f xs" "k < length xs" "f y = f (xs ! k) \<or> f y = None \<or> (\<forall>x \<in> set xs. f x \<noteq> f y)"
  shows "exclusive f (xs[k := y])"
proof -
  have one: "f (xs ! i) \<noteq> f y" if "i < length xs" "i \<noteq> k" "f y \<noteq> None" for i
    using assms that unfolding exclusive_def by (metis nth_mem)
  show ?thesis
    unfolding exclusive_def
  proof (intro allI impI)
    fix i j assume ij: "i < length (xs[k := y])" "j < length (xs[k := y])" "i \<noteq> j" "f (xs[k := y] ! i) \<noteq> None"
    show "f (xs[k := y] ! i) \<noteq> f (xs[k := y] ! j)"
      using ij one [of i] one [of j] assms(1,2)
      by (cases "i = k"; cases "j = k") (auto simp: exclusive_def)
  qed
qed

lemma exclusive_nth: "exclusive f xs \<Longrightarrow> j < length xs \<Longrightarrow> k < length xs \<Longrightarrow> f (xs ! j) = Some v \<Longrightarrow> f (xs ! k) = Some v \<Longrightarrow> j = k"
  unfolding exclusive_def by (metis option.distinct(1))

subsection \<open>What a step leaves alone\<close>

definition stage_kept :: "string \<Rightarrow> image_store \<Rightarrow> image_store \<Rightarrow> bool" where
  "stage_kept i st st' \<longleftrightarrow> ig_files st' (StageFile i) = ig_files st (StageFile i) \<or> ig_files st' (StageFile i) = None"

definition catalog_kept :: "image_store \<Rightarrow> image_store \<Rightarrow> bool" where
  "catalog_kept st st' \<longleftrightarrow> (\<forall>f. ig_files st' (CatalogFile f) = ig_files st (CatalogFile f))"

lemma staged_kept: "stage_kept i st st' \<Longrightarrow> staged Q i st \<Longrightarrow> staged Q i st'"
  by (auto simp: stage_kept_def staged_def)

lemma pc_ok_frame:
  assumes "pc_ok digest st pc" "\<And>i. pc_session pc = Some i \<Longrightarrow> stage_kept i st st'"
    and "\<And>r. pending pc = Some r \<Longrightarrow> r \<in> set (ig_images st) \<Longrightarrow> r \<in> set (ig_images st')"
  shows "pc_ok digest st' pc"
  using assms by (cases pc) (auto simp: pc_ok_def pc_session_def pending_def intro: staged_kept)

lemma file_ok_frame:
  "ig_files st' (CatalogFile (ir_filename r)) = ig_files st (CatalogFile (ir_filename r)) \<Longrightarrow> file_ok digest st' r = file_ok digest st r"
  by (simp add: file_ok_def)

lemma inv_frame:
  assumes inv: "image_inv digest (st, ths)" and "ig_images st' = ig_images st" "keyed us_id (ig_sessions st')"
    and h: "\<And>pc. pc \<in> set ths \<Longrightarrow> held st pc \<Longrightarrow> held st' pc" and k: "\<And>i. stage_kept i st st'" "catalog_kept st st'"
  shows "image_inv digest (st', ths)"
proof (rule image_invI)
  show "pc_ok digest st' pc" if "pc \<in> set ths" for pc
    using pc_ok_frame [OF image_invD(5) [OF inv that] k(1)] assms(2) by simp
  show "(\<exists>pc \<in> set ths. pending pc = Some r) \<or> file_ok digest st' r" if "r \<in> set (ig_images st')" for r
    using image_invD(7) [OF inv, of r] that assms(2) file_ok_frame [of st' r st] k(2) by (simp add: catalog_kept_def)
qed (use assms(2,3) h image_invD [OF inv] in auto)

lemma other_session:
  assumes "exclusive pc_session ths" "k < length ths" "pc_session (ths ! k) = Some i" "j < length ths" "j \<noteq> k"
  shows "pc_session (ths ! j) \<noteq> Some i"
  using exclusive_nth [OF assms(1,4,2)] assms(3,5) by blast

lemma in_update: "pc \<in> set (ths[k := p]) \<Longrightarrow> k < length ths \<Longrightarrow> pc = p \<or> (\<exists>j < length ths. j \<noteq> k \<and> pc = ths ! j)"
  by (auto simp: in_set_conv_nth nth_list_update split: if_splits)

text \<open>A step of a request that has no row yet, and touches its own assembled file only.\<close>

lemma inv_own:
  assumes inv: "image_inv digest (st, ths)" and k: "k < length ths" "pc_session (ths ! k) = Some i" "pending (ths ! k) = None"
    and p: "pc_session p = Some i" "pending p = None" "pc_ok digest st' p"
    and st: "ig_images st' = ig_images st" "ig_sessions st' = ig_sessions st"
      "\<And>q. q \<noteq> StageFile i \<Longrightarrow> ig_files st' q = ig_files st q"
  shows "image_inv digest (st', ths[k := p])"
proof (rule image_invI)
  note D = image_invD [OF inv]
  show "exclusive pc_session (ths[k := p])" "exclusive pending (ths[k := p])"
    using D(3,4) k p by (auto intro: exclusive_update)
  show "pc_ok digest st' q" if "q \<in> set (ths[k := p])" for q
    using in_update [OF that k(1)]
  proof (elim disjE exE conjE)
    fix j assume j: "j < length ths" "j \<noteq> k" "q = ths ! j"
    have "stage_kept l st st'" if "pc_session q = Some l" for l
      using other_session [OF D(3) k(1,2) j(1,2)] j(3) that st(3) by (auto simp: stage_kept_def)
    then show ?thesis
      using pc_ok_frame [OF D(5), of q st'] j st(1) by simp
  qed (use p(3) in simp)
  show "held st' q" if "q \<in> set (ths[k := p])" for q
    using in_update [OF that k(1)] D(6) [of "ths ! k"] D(6) [of q] k p(1) st(2) by (auto simp: held_def)
  show "(\<exists>q \<in> set (ths[k := p]). pending q = Some r) \<or> file_ok digest st' r" if r: "r \<in> set (ig_images st')" for r
  proof (cases "file_ok digest st r")
    case True
    then show ?thesis using file_ok_frame [of st' r st] st(3) by simp
  next
    case False
    then obtain j where j: "j < length ths" "pending (ths ! j) = Some r"
      using D(7) [of r] r st(1) by (metis in_set_conv_nth)
    then have "j \<noteq> k" using k(3) by auto
    then have "ths ! j \<in> set (ths[k := p])" using j(1) by (metis length_list_update nth_list_update_neq nth_mem)
    then show ?thesis using j(2) by blast
  qed
qed (use image_invD(1,2) [OF inv] st in auto)

subsection \<open>Sessions, chunks and collection\<close>

lemma held_subset: "set (ig_sessions st') \<subseteq> set (ig_sessions st) \<Longrightarrow> held st pc \<Longrightarrow> held st' pc"
  by (auto simp: held_def)

lemma create_upload_cases:
  assumes "create_upload fl now rid inp st = (out, st')"
  shows "st' = st \<or> (\<exists>r. out = Inr r \<and> rid = Inr (us_id r) \<and> (\<forall>q \<in> set (ig_sessions st). us_id q \<noteq> us_id r)
    \<and> st' = st\<lparr>ig_sessions := ins_row r (ig_sessions st)\<rparr>)"
  using assms
  by (auto simp: create_upload_def Let_def try_sql_def sql_insert_session_def split: sum.splits option.splits if_splits)

lemma inv_create:
  assumes inv: "image_inv digest (st, ths)" and c: "create_upload fl now rid inp st = (out, st')"
    and fresh: "\<And>i. rid = Inr i \<Longrightarrow> \<forall>pc \<in> set ths. pc_session pc \<noteq> Some i"
  shows "image_inv digest (st', ths)"
  using create_upload_cases [OF c]
proof (elim disjE exE conjE)
  fix r assume i: "rid = Inr (us_id r)" "\<forall>q \<in> set (ig_sessions st). us_id q \<noteq> us_id r"
    and st': "st' = st\<lparr>ig_sessions := ins_row r (ig_sessions st)\<rparr>"
  show ?thesis
  proof (rule inv_frame [OF inv])
    show "keyed us_id (ig_sessions st')"
      using image_invD(2) [OF inv] i st' by (auto intro: keyed_ins)
    show "held st' pc" if "pc \<in> set ths" "held st pc" for pc
      using that fresh [OF i(1)] st' by (auto simp: held_def)
  qed (simp_all add: st' stage_kept_def catalog_kept_def)
qed (use inv in simp)

lemma inv_bump:
  assumes "image_inv digest (st, ths)"
  shows "image_inv digest (bump_uploaded_chunks f i n st, ths)"
proof (cases f)
  case None
  show ?thesis
  proof (rule inv_frame [OF assms])
    show "keyed us_id (ig_sessions (bump_uploaded_chunks f i n st))"
      using image_invD(2) [OF assms] None by (auto simp: bump_uploaded_chunks_def intro: keyed_upd)
    show "held (bump_uploaded_chunks f i n st) pc" if "held st pc" for pc
      using that None by (auto simp: bump_uploaded_chunks_def held_def set_upd_where)
  qed (simp_all add: None bump_uploaded_chunks_def stage_kept_def catalog_kept_def)
qed (use assms in \<open>simp add: bump_uploaded_chunks_def\<close>)

lemma inv_files:
  assumes "image_inv digest (st, ths)" "ig_images st' = ig_images st" "ig_sessions st' = ig_sessions st"
    and "\<And>i. stage_kept i st st'" "catalog_kept st st'"
  shows "image_inv digest (st', ths)"
  using inv_frame [OF assms(1,2) _ _ assms(4,5)] assms(3) image_invD(2) [OF assms(1)] by (simp add: held_def)

lemma inv_chunk:
  assumes inv: "image_inv digest (st, ths)" and w: "write_chunk_end digest fl sess n body sha st = (out, st')"
  shows "image_inv digest (st', ths)"
proof -
  let ?st1 = "make_dir (us_id sess) st" and ?data = "take (nat (expected_len sess n + 1)) body"
  let ?st2 = "set_file (ChunkFile (us_id sess) n) (Some ?data) ?st1"
  have 1: "image_inv digest (?st1, ths)"
    by (rule inv_files [OF inv]) (simp_all add: make_dir_def stage_kept_def catalog_kept_def)
  have 2: "image_inv digest (?st2, ths)"
    by (rule inv_files [OF 1]) (simp_all add: set_file_def stage_kept_def catalog_kept_def)
  have "st' \<in> {st, ?st1, ?st2, bump_uploaded_chunks (fl 5) (us_id sess) n ?st2}"
    using w by (auto simp: write_chunk_end_def Let_def split: option.splits if_splits)
  then show ?thesis using inv 1 2 inv_bump by auto
qed

lemma inv_remove_dir: "image_inv digest (st, ths) \<Longrightarrow> image_inv digest (remove_dir f i st, ths)"
  by (erule inv_files) (auto simp: remove_dir_def stage_kept_def catalog_kept_def in_dir_def split: option.splits)

lemma inv_delete_upload:
  assumes inv: "image_inv digest (st, ths)"
  shows "image_inv digest (snd (delete_upload f i st), ths)"
proof (rule inv_frame [OF inv])
  show "keyed us_id (ig_sessions (snd (delete_upload f i st)))"
    using image_invD(2) [OF inv] by (auto simp: delete_upload_def split: option.splits)
  show "held (snd (delete_upload f i st)) pc" if "held st pc" for pc
    using that by (rule held_subset [rotated]) (auto simp: delete_upload_def split: option.splits)
qed (auto simp: delete_upload_def stage_kept_def catalog_kept_def split: option.splits)

lemma inv_abort: "image_inv digest (st, ths) \<Longrightarrow> image_inv digest (snd (abort_upload fl i st), ths)"
  using inv_delete_upload [of digest st ths "fl 0" i] inv_remove_dir
  by (auto simp: abort_upload_def split: prod.splits option.splits)

lemma inv_fold:
  assumes "image_inv digest (st, ths)" "\<And>x s. image_inv digest (s, ths) \<Longrightarrow> image_inv digest (f x s, ths)"
  shows "image_inv digest (fold f xs st, ths)"
  using assms(1) by (induction xs arbitrary: st) (auto intro: assms(2))

lemma inv_collect:
  assumes "image_inv digest (st, ths)" "gc_stale_uploads env cutoff st = (res, st')"
  shows "image_inv digest (st', ths)"
proof -
  have orphan: "image_inv digest (gc_orphan env cutoff i s, ths)" if "image_inv digest (s, ths)" for i s
    using that by (auto simp: gc_orphan_def split: sum.splits option.splits intro: inv_remove_dir)
  show ?thesis
    using assms by (auto simp: gc_stale_uploads_def Let_def split: sum.splits option.splits
        intro!: inv_fold inv_abort orphan)
qed

subsection \<open>The steps of a finalizing request\<close>

lemma inv_append:
  assumes inv: "image_inv digest (st, ths)" and "pending pc = None" "pc_ok digest st pc" "held st pc"
    and "pc_session pc = None \<or> (\<forall>q \<in> set ths. pc_session q \<noteq> pc_session pc)"
  shows "image_inv digest (st, ths @ [pc])"
proof (rule image_invI)
  note D = image_invD [OF inv]
  show "exclusive pc_session (ths @ [pc])" "exclusive pending (ths @ [pc])"
    using D(3,4) assms(2,5) by (auto intro: exclusive_append)
  show "(\<exists>q \<in> set (ths @ [pc]). pending q = Some r) \<or> file_ok digest st r" if "r \<in> set (ig_images st)" for r
    using D(7) [OF that] by auto
  show "pc_ok digest st q" "held st q" if "q \<in> set (ths @ [pc])" for q
    using that D(5,6) assms(3,4) by auto
qed (use image_invD(1,2) [OF inv] in auto)

lemma begin_cases:
  assumes "finalize_begin fl i st = (pc, st')"
  shows "(\<exists>e. pc = FinError e) \<and> st' = st \<or>
    (\<exists>sess. pc = FinChecking sess \<and> sess \<in> set (ig_sessions st) \<and> us_id sess = i
      \<and> (\<exists>u \<in> set (ig_sessions st). us_id u = i \<and> us_state u = state_uploading)
      \<and> st' = st\<lparr>ig_sessions := upd_where (\<lambda>r. us_id r = i \<and> us_state r = state_uploading)
               (\<lambda>r. r\<lparr>us_state := state_finalizing\<rparr>) (ig_sessions st)\<rparr>)"
  using assms
  by (auto simp: finalize_begin_def claim_finalize_def get_upload_def Let_def hits_zero
      split: sum.splits option.splits if_splits dest!: sel_row_Some)

lemma claimed_state:
  assumes "keyed us_id t" "u \<in> set t" "us_id u = i" "us_state u = state_uploading" "us_id v = i"
    and "v \<in> set (upd_where (\<lambda>r. us_id r = i \<and> us_state r = state_uploading) (\<lambda>r. r\<lparr>us_state := state_finalizing\<rparr>) t)"
  shows "us_state v = state_finalizing"
proof -
  obtain q where q: "q \<in> set t"
    "v = (if us_id q = i \<and> us_state q = state_uploading then q\<lparr>us_state := state_finalizing\<rparr> else q)"
    using assms(6) by (auto simp: upd_where_def)
  then have "us_id q = us_id u" using assms(3,5) by (simp split: if_splits)
  then have "q = u" by (rule keyed_unique [OF assms(1) q(1) assms(2)])
  then show ?thesis using q(2) assms(3,4) by simp
qed

lemma inv_begin:
  assumes inv: "image_inv digest (st, ths)" and b: "finalize_begin fl i st = (pc, st')"
  shows "image_inv digest (st', ths @ [pc])"
  using begin_cases [OF b]
proof (elim disjE exE conjE)
  fix e assume "pc = FinError e" "st' = st"
  then show ?thesis
    using inv by (auto intro!: inv_append simp: pc_session_def pending_def pc_ok_def held_def)
next
  fix sess assume pc: "pc = FinChecking sess" "us_id sess = i"
    and u: "\<exists>u \<in> set (ig_sessions st). us_id u = i \<and> us_state u = state_uploading"
    and st': "st' = st\<lparr>ig_sessions := upd_where (\<lambda>r. us_id r = i \<and> us_state r = state_uploading)
               (\<lambda>r. r\<lparr>us_state := state_finalizing\<rparr>) (ig_sessions st)\<rparr>"
  note D = image_invD [OF inv]
  have alone: "pc_session q \<noteq> Some i" if "q \<in> set ths" for q
    using u D(6) [OF that] by (auto simp: held_def state_uploading_def state_finalizing_def)
  have new: "pc_session pc = Some i" "pending pc = None" "pc_ok digest st' pc"
    by (simp_all add: pc pc_session_def pending_def pc_ok_def)
  have "us_state v = state_finalizing" if "v \<in> set (ig_sessions st')" "us_id v = i" for v
    using claimed_state [OF D(2)] u that unfolding st' by auto
  then have own: "held st' pc" using new(1) by (auto simp: held_def)
  have "image_inv digest (st', ths)"
  proof (rule inv_frame [OF inv])
    show "held st' q" if "q \<in> set ths" "held st q" for q
      using that(2) by (auto simp: st' held_def set_upd_where)
  qed (use D(2) in \<open>auto simp: st' stage_kept_def catalog_kept_def intro: keyed_upd\<close>)
  then show ?thesis
    using alone new own by (intro inv_append) auto
qed

definition own_step :: "(string \<Rightarrow> 256 word) \<Rightarrow> string \<Rightarrow> image_store \<Rightarrow> fin_pc \<times> image_store \<Rightarrow> bool" where
  "own_step digest i st r \<longleftrightarrow>
    ig_images (snd r) = ig_images st \<and> ig_sessions (snd r) = ig_sessions st
    \<and> (\<forall>q. q \<noteq> StageFile i \<longrightarrow> ig_files (snd r) q = ig_files st q)
    \<and> pc_session (fst r) = Some i \<and> pending (fst r) = None \<and> pc_ok digest (snd r) (fst r)"

lemma inv_own_step:
  assumes "image_inv digest (st, ths)" "k < length ths" "pc_session (ths ! k) = Some i" "pending (ths ! k) = None"
    and "own_step digest i st (p, st')"
  shows "image_inv digest (st', ths[k := p])"
  using assms(5) by (intro inv_own [OF assms(1-4)]) (auto simp: own_step_def)

lemma own_drop: "own_step digest (us_id sess) st (drop_stage fl sess e st)"
  by (auto simp: own_step_def drop_stage_def remove_file_def set_file_def pc_session_def pending_def pc_ok_def
      split: option.splits)

lemma own_fail: "own_step digest (us_id sess) st (FinFailed sess e, st)"
  by (simp add: own_step_def pc_session_def pending_def pc_ok_def)

lemma own_checking: "own_step digest (us_id sess) st (finalize_step digest env (FinChecking sess) st)"
  by (auto simp: finalize_step_def Let_def own_fail split: option.splits)
    (simp add: own_step_def set_file_def pc_session_def pending_def pc_ok_def staged_def)

lemma own_copying:
  assumes "pc_ok digest st (FinCopying sess i acc)"
  shows "own_step digest (us_id sess) st (finalize_step digest env (FinCopying sess i acc) st)"
proof -
  have copy: "own_step digest (us_id sess) st
      (FinCopying sess (i + 1) (acc @ bs), write_stage (us_id sess) (acc @ bs) st)" for bs
    by (auto simp: own_step_def write_stage_def set_file_def pc_session_def pending_def pc_ok_def staged_def
        split: option.splits)
  have verified: "own_step digest (us_id sess) st
      (FinStaged sess (finalize_args sess meta len sha), st)"
    if "int (length acc) = len" "digest_hex (digest acc) = sha" for meta len sha
    using assms that by (auto simp: own_step_def pc_session_def pending_def pc_ok_def finalize_args_def staged_def
        bytes_match_def split: option.splits)
  show ?thesis
    by (auto simp: finalize_step_def Let_def own_drop copy intro!: verified split: option.splits prod.splits)
qed

text \<open>Storing the row: the transaction removes the session and appends a row under new keys.\<close>

lemma sql_insert_image_Inr:
  assumes "sql_insert_image r t = Inr t'"
  shows "t' = ins_row r t" "\<forall>q \<in> set t. ir_id q \<noteq> ir_id r \<and> ir_sha q \<noteq> ir_sha r \<and> (ir_filename r = [] \<or> ir_filename q \<noteq> ir_filename r)"
  using assms by (auto simp: sql_insert_image_def split: if_splits)

lemma insert_image_Inr:
  assumes "insert_image f1 f2 r t = Inr (r', t')"
  shows "t' = ins_row r' t" "\<exists>name. r' = r\<lparr>ir_filename := name\<rparr> \<and> (name = ir_filename r
        \<or> name = suffixed_name (ir_filename r) (path_ext (ir_filename r)) (ir_sha r))"
    "\<forall>q \<in> set t. ir_id q \<noteq> ir_id r' \<and> ir_sha q \<noteq> ir_sha r' \<and> (ir_filename r' = [] \<or> ir_filename q \<noteq> ir_filename r')"
proof -
  let ?r2 = "r\<lparr>ir_filename := suffixed_name (ir_filename r) (path_ext (ir_filename r)) (ir_sha r)\<rparr>"
  have try_D: "x = Inr y" if "try_sql f x = Inr y" for f y and x :: "(string, stored_image list) result"
    using that by (simp add: try_sql_def split: option.splits)
  have two: "try_sql f1 (sql_insert_image r t) = Inr t' \<and> r' = r \<or> try_sql f2 (sql_insert_image ?r2 t) = Inr t' \<and> r' = ?r2"
    using assms unfolding insert_image_def Let_def by (simp split: sum.splits if_splits)
  then have ins: "sql_insert_image r' t = Inr t'" using try_D by blast
  show "t' = ins_row r' t"
    "\<forall>q \<in> set t. ir_id q \<noteq> ir_id r' \<and> ir_sha q \<noteq> ir_sha r' \<and> (ir_filename r' = [] \<or> ir_filename q \<noteq> ir_filename r')"
    using sql_insert_image_Inr [OF ins] by blast+
  have "r = r\<lparr>ir_filename := ir_filename r\<rparr>" by simp
  then show "\<exists>name. r' = r\<lparr>ir_filename := name\<rparr> \<and> (name = ir_filename r
        \<or> name = suffixed_name (ir_filename r) (path_ext (ir_filename r)) (ir_sha r))"
    using two by blast
qed

lemma suffixed_name_not_Nil: "suffixed_name base ext sha \<noteq> []"
  by (simp add: suffixed_name_def)

lemma derived_name_not_Nil: "derived_name upload format = (base, ext) \<Longrightarrow> base \<noteq> []"
  using safe_filename(1) [of upload] by (auto simp: derived_name_def Let_def split: if_splits)

lemma unique_filename_not_Nil: "unique_filename f upload format sha t = Inr name \<Longrightarrow> sha256_match sha \<Longrightarrow> name \<noteq> []"
  using derived_name_not_Nil [of upload format]
  by (auto simp: unique_filename_def suffixed_name_not_Nil sha256_match_def hex_run_def split: prod.splits if_splits option.splits)

lemma finalize_image_Inr:
  assumes "finalize_image fl now rid fi st = (Inr r, st')"
  shows "ig_images st' = ins_row r (ig_images st)" "ig_files st' = ig_files st"
    "ig_sessions st' = (if fi_session fi = [] then ig_sessions st else del_where (\<lambda>u. us_id u = fi_session fi) (ig_sessions st))"
    "ir_sha r = fi_sha fi" "ir_size r = fi_size fi" "ir_filename r \<noteq> []"
    "\<forall>q \<in> set (ig_images st). ir_id q \<noteq> ir_id r \<and> ir_sha q \<noteq> ir_sha r \<and> ir_filename q \<noteq> ir_filename r"
proof -
  obtain i name t where n: "unique_filename (fl 6) (fi_name fi) (fi_format fi) (fi_sha fi) (ig_images st) = Inr name"
    and sha: "sha256_match (fi_sha fi)"
    and ins: "insert_image (fl 7) (fl 8)
              \<lparr>ir_id = i, ir_name = fi_name fi, ir_version = fi_version fi, ir_family = fi_family fi, ir_arch = fi_arch fi,
               ir_format = fi_format fi, ir_size = fi_size fi, ir_virtual = fi_virtual fi, ir_sha = fi_sha fi,
               ir_filename = name, ir_uploaded = unix now, ir_by = fi_by fi, ir_last_used = None,
               ir_notes = fi_notes fi, ir_meta = fi_meta fi\<rparr> (ig_images st) = Inr (r, t)"
    and st': "st' = st\<lparr>ig_images := t, ig_sessions := (if fi_session fi = [] then ig_sessions st
                                  else del_where (\<lambda>u. us_id u = fi_session fi) (ig_sessions st))\<rparr>"
    using assms by (auto simp: finalize_image_def and_then_Inr split: sum.splits)
  note I = insert_image_Inr [OF ins]
  show "ir_filename r \<noteq> []"
    using I(2) unique_filename_not_Nil [OF n sha] suffixed_name_not_Nil by auto
  then show "\<forall>q \<in> set (ig_images st). ir_id q \<noteq> ir_id r \<and> ir_sha q \<noteq> ir_sha r \<and> ir_filename q \<noteq> ir_filename r"
    using I(3) by auto
  show "ig_images st' = ins_row r (ig_images st)" "ig_files st' = ig_files st"
    "ig_sessions st' = (if fi_session fi = [] then ig_sessions st else del_where (\<lambda>u. us_id u = fi_session fi) (ig_sessions st))"
    "ir_sha r = fi_sha fi" "ir_size r = fi_size fi"
    using I(1,2) st' by auto
qed

lemma finalize_image_Inl: "finalize_image fl now rid fi st = (Inl e, st') \<Longrightarrow> st' = st"
  by (auto simp: finalize_image_def split: sum.splits prod.splits)

text \<open>A change of a request's own entry, of the tables and of files, seen from the others.\<close>

lemma inv_update:
  assumes inv: "image_inv digest (st, ths)" and k: "k < length ths" "pc_session (ths ! k) = Some i"
    and p: "pc_session p = Some i \<or> pc_session p = None" "pc_ok digest st' p" "held st' p"
    and pend: "exclusive pending (ths[k := p])"
    and keys: "catalog_keys (ig_images st')" "keyed us_id (ig_sessions st')"
    and stage: "\<And>l. l \<noteq> i \<Longrightarrow> stage_kept l st st'"
    and rows: "\<And>q r. q \<in> set ths \<Longrightarrow> q \<noteq> ths ! k \<Longrightarrow> pending q = Some r \<Longrightarrow> r \<in> set (ig_images st')"
    and held: "\<And>q. q \<in> set ths \<Longrightarrow> pc_session q \<noteq> Some i \<Longrightarrow> held st q \<Longrightarrow> held st' q"
    and files: "\<And>r. r \<in> set (ig_images st') \<Longrightarrow> (\<exists>q \<in> set (ths[k := p]). pending q = Some r) \<or> file_ok digest st' r"
  shows "image_inv digest (st', ths[k := p])"
proof (rule image_invI)
  note D = image_invD [OF inv]
  show "exclusive pc_session (ths[k := p])"
    using D(3) k p(1) by (auto intro: exclusive_update)
  have other: "pc_session q \<noteq> Some i \<and> q \<in> set ths \<and> q \<noteq> ths ! k" if "q \<in> set (ths[k := p])" "q \<noteq> p" for q
    using in_update [OF that(1) k(1)] that(2) other_session [OF D(3) k] k(2) by (metis nth_mem)
  show "pc_ok digest st' q" if "q \<in> set (ths[k := p])" for q
  proof (cases "q = p")
    case False
    note o = other [OF that False]
    show ?thesis
      using o stage rows [of q] by (intro pc_ok_frame [OF D(5), of q st']) auto
  qed (use p(2) in simp)
  show "held st' q" if "q \<in> set (ths[k := p])" for q
    using other [OF that] p(3) held D(6) by (cases "q = p") auto
qed (use pend keys files in auto)

lemma files_others:
  assumes "image_inv digest (st, ths)" "k < length ths" "r \<in> set (ig_images st)" "pending (ths ! k) \<noteq> Some r"
  shows "(\<exists>q \<in> set (ths[k := p]). pending q = Some r) \<or> file_ok digest st r"
proof (cases "file_ok digest st r")
  case False
  then obtain j where j: "j < length ths" "pending (ths ! j) = Some r"
    using image_invD(7) [OF assms(1,3)] by (metis in_set_conv_nth)
  then have "j \<noteq> k" using assms(4) by auto
  then have "ths ! j \<in> set (ths[k := p])" using j(1) by (metis length_list_update nth_list_update_neq nth_mem)
  then show ?thesis using j(2) by blast
qed simp

lemma pending_row: "image_inv digest (st, ths) \<Longrightarrow> q \<in> set ths \<Longrightarrow> pending q = Some r \<Longrightarrow> r \<in> set (ig_images st)"
  using image_invD(5) [of digest st ths q] by (cases q) (auto simp: pc_ok_def pending_def)

lemma pending_ids:
  assumes "image_inv digest (st, ths)" "k < length ths" "q \<in> set ths" "q \<noteq> ths ! k"
    and "pending (ths ! k) = Some r" "pending q = Some r'"
  shows "ir_id r' \<noteq> ir_id r"
proof
  assume "ir_id r' = ir_id r"
  moreover have "r \<in> set (ig_images st)" "r' \<in> set (ig_images st)"
    using pending_row [OF assms(1) nth_mem [OF assms(2)] assms(5)] pending_row [OF assms(1,3,6)] by blast+
  ultimately have "r' = r"
    using image_invD(1) [OF assms(1)] by (auto simp: catalog_keys_def dest: keyed_unique)
  then show False
    using assms exclusive_nth [OF image_invD(4) [OF assms(1)]] by (metis in_set_conv_nth)
qed

lemma inv_store_row:
  assumes inv: "image_inv digest (st, ths)" and k: "k < length ths" "ths ! k = FinStaged sess fi"
    and f: "finalize_image fl now rid fi st = (Inr r, st')"
  shows "image_inv digest (st', ths[k := FinStored sess r])"
proof -
  note D = image_invD [OF inv] and F = finalize_image_Inr [OF f]
  have ok: "fi_session fi = us_id sess" "staged (bytes_match digest (fi_sha fi) (fi_size fi)) (us_id sess) st"
    using D(5) [OF nth_mem [OF k(1)]] k by (auto simp: pc_ok_def)
  have sub: "set (ig_sessions st') \<subseteq> set (ig_sessions st)" "keyed us_id (ig_sessions st')"
    using F(3) D(2) by auto
  have files_same: "file_ok digest st' q = file_ok digest st q" for q by (simp add: file_ok_def F(2))
  show ?thesis
  proof (rule inv_update [OF inv k(1), of "us_id sess"])
    show "pc_session (ths ! k) = Some (us_id sess)" "pc_session (FinStored sess r) = Some (us_id sess) \<or> pc_session (FinStored sess r) = None"
      by (simp_all add: k pc_session_def)
    show "pc_ok digest st' (FinStored sess r)"
      using ok(2) unfolding F(4,5) [symmetric] by (simp add: pc_ok_def staged_def F(1,2))
    show "held st' (FinStored sess r)"
      using D(6) [OF nth_mem [OF k(1)]] k by (intro held_subset [OF sub(1)]) (auto simp: held_def pc_session_def)
    have "pending q \<noteq> Some r" if "q \<in> set ths" for q
      using pending_row [OF inv that] F(7) by blast
    then show "exclusive pending (ths[k := FinStored sess r])"
      using D(4) k(1) by (auto simp: pending_def intro!: exclusive_update)
    show "catalog_keys (ig_images st')"
      using D(1) F(1,6,7) by (auto simp: catalog_keys_def intro!: keyed_ins)
    show "held st' q" if "held st q" for q using held_subset [OF sub(1) that] .
    show "q \<in> set ths \<Longrightarrow> pending q = Some s \<Longrightarrow> s \<in> set (ig_images st')" for q s
      using pending_row [OF inv] F(1) by auto
    show "(\<exists>q \<in> set (ths[k := FinStored sess r]). pending q = Some s) \<or> file_ok digest st' s" if s: "s \<in> set (ig_images st')" for s
    proof (cases "s = r")
      case True
      have "FinStored sess r \<in> set (ths[k := FinStored sess r])" using k(1) by (rule set_update_memI)
      then show ?thesis using True by (auto simp: pending_def intro!: bexI [of _ "FinStored sess r"])
    next
      case False
      then have "s \<in> set (ig_images st)" using s F(1) by simp
      from files_others [OF inv k(1) this] show ?thesis by (simp add: files_same k(2) pending_def)
    qed
  qed (use sub(2) F(2) in \<open>auto simp: stage_kept_def\<close>)
qed

lemma inv_move_file:
  assumes inv: "image_inv digest (st, ths)" and k: "k < length ths" "ths ! k = FinStored sess r"
    and bs: "ig_files st (StageFile (us_id sess)) = Some bs"
  shows "image_inv digest (set_file (CatalogFile (ir_filename r)) (Some bs) (set_file (StageFile (us_id sess)) None st), ths[k := FinMoved sess r])"
    (is "image_inv digest (?st, ?ths)")
proof -
  note D = image_invD [OF inv]
  have ok: "r \<in> set (ig_images st)" "bytes_match digest (ir_sha r) (ir_size r) bs"
    using D(5) [OF nth_mem [OF k(1)]] k bs by (auto simp: pc_ok_def staged_def)
  show ?thesis
  proof (rule inv_update [OF inv k(1), of "us_id sess"])
    show "pc_session (ths ! k) = Some (us_id sess)" "pc_session (FinMoved sess r) = Some (us_id sess) \<or> pc_session (FinMoved sess r) = None"
      by (simp_all add: k pc_session_def)
    show "held ?st (FinMoved sess r)"
      using D(6) [OF nth_mem [OF k(1)]] k by (auto simp: held_def pc_session_def set_file_def)
    show "exclusive pending ?ths" using D(4) k(1) by (auto simp: pending_def intro: exclusive_update)
    show "(\<exists>q \<in> set ?ths. pending q = Some s) \<or> file_ok digest ?st s" if "s \<in> set (ig_images ?st)" for s
    proof (cases "s = r")
      case True
      then show ?thesis using ok(2) by (simp add: file_ok_def set_file_def)
    next
      case False
      have s: "s \<in> set (ig_images st)" using that by (simp add: set_file_def)
      have "ir_filename s \<noteq> ir_filename r"
        using D(1) keyed_unique [of ir_filename "ig_images st" s r] s ok(1) False by (auto simp: catalog_keys_def)
      then have "file_ok digest ?st s = file_ok digest st s" by (simp add: file_ok_def set_file_def)
      then show ?thesis using files_others [OF inv k(1) s] False k(2) by (simp add: pending_def)
    qed
  qed (use D(1,2) pending_row [OF inv] in \<open>auto simp: stage_kept_def set_file_def pc_ok_def held_def\<close>)
qed

lemma inv_take_back:
  assumes inv: "image_inv digest (st, ths)" and k: "k < length ths" "ths ! k = FinStored sess r"
  shows "image_inv digest (delete_row None (ir_id r) st, ths[k := FinFailed sess e])"
    (is "image_inv digest (?st, ?ths)")
proof -
  note D = image_invD [OF inv]
  have st: "ig_images ?st = del_where (\<lambda>q. ir_id q = ir_id r) (ig_images st)" "ig_sessions ?st = ig_sessions st"
    "ig_files ?st = ig_files st"
    by (simp_all add: delete_row_def)
  have files_same: "file_ok digest ?st q = file_ok digest st q" for q by (simp add: file_ok_def st(3))
  have pend: "pending (ths ! k) = Some r" by (simp add: k pending_def)
  show ?thesis
  proof (rule inv_update [OF inv k(1), of "us_id sess"])
    show "pc_session (ths ! k) = Some (us_id sess)" "pc_session (FinFailed sess e) = Some (us_id sess) \<or> pc_session (FinFailed sess e) = None"
      by (simp_all add: k pc_session_def)
    show "held ?st (FinFailed sess e)"
      using D(6) [OF nth_mem [OF k(1)]] k by (auto simp: held_def pc_session_def st)
    show "exclusive pending ?ths" using D(4) k(1) by (auto simp: pending_def intro: exclusive_update)
    show "s \<in> set (ig_images ?st)" if "q \<in> set ths" "q \<noteq> ths ! k" "pending q = Some s" for q s
      using pending_row [OF inv that(1,3)] pending_ids [OF inv k(1) that(1,2) pend that(3)] st(1) by simp
    show "(\<exists>q \<in> set ?ths. pending q = Some s) \<or> file_ok digest ?st s" if "s \<in> set (ig_images ?st)" for s
    proof -
      have s: "s \<in> set (ig_images st)" "s \<noteq> r" using that st(1) by auto
      show ?thesis using files_others [OF inv k(1) s(1)] s(2) pend by (simp add: files_same)
    qed
    show "catalog_keys (ig_images ?st)" using D(1) by (auto simp: catalog_keys_def st)
  qed (use D(2) in \<open>auto simp: stage_kept_def st pc_ok_def held_def\<close>)
qed

lemma inv_leave:
  assumes inv: "image_inv digest (st, ths)" and k: "k < length ths" "pc_session (ths ! k) = Some i" "pending (ths ! k) = None"
    and p: "pc_session p = None" "pending p = None" and st: "ig_images st' = ig_images st" "keyed us_id (ig_sessions st')"
    "\<And>l. stage_kept l st st'" "catalog_kept st st'"
    and held: "\<And>q. pc_session q \<noteq> Some i \<Longrightarrow> held st q \<Longrightarrow> held st' q"
  shows "image_inv digest (st', ths[k := p])"
proof (rule inv_update [OF inv k(1,2)])
  note D = image_invD [OF inv]
  show "pc_ok digest st' p" "held st' p" using p(1) by (cases p; simp add: pc_ok_def held_def pc_session_def)+
  show "exclusive pending (ths[k := p])" using D(4) k(1) p(2) by (auto intro: exclusive_update)
  show "(\<exists>q \<in> set (ths[k := p]). pending q = Some r) \<or> file_ok digest st' r" if "r \<in> set (ig_images st')" for r
    using files_others [OF inv k(1), of r p] that st(1,4) k(3) by (simp add: file_ok_def catalog_kept_def)
qed (use p st held image_invD [OF inv] pending_row [OF inv] in auto)

lemma held_release: "pc_session q \<noteq> Some i \<Longrightarrow> held st q \<Longrightarrow> held (release_finalize f i st) q"
  by (auto simp: release_finalize_def held_def set_upd_where split: option.splits)

lemma inv_advance:
  assumes inv: "image_inv digest (st, ths)" and k: "k < length ths" and f: "finalize_step digest env (ths ! k) st = (p, st')"
    and undo: "fe_faults env 12 = None"
  shows "image_inv digest (st', ths[k := p])"
proof (cases "ths ! k")
  case (FinChecking sess)
  then show ?thesis
    using own_checking [of digest sess st env] f
    by (intro inv_own_step [OF inv k]) (auto simp: pc_session_def pending_def)
next
  case (FinCopying sess i acc)
  then show ?thesis
    using own_copying [of digest st sess i acc env] image_invD(5) [OF inv nth_mem [OF k]] f
    by (intro inv_own_step [OF inv k]) (auto simp: pc_session_def pending_def)
next
  case (FinStaged sess fi)
  obtain res st1 where r: "finalize_image (fe_faults env) (fe_now env) (fe_id env) fi st = (res, st1)" by force
  show ?thesis
  proof (cases res)
    case (Inl e)
    then have "st1 = st" using r finalize_image_Inl by blast
    then have "(p, st') = drop_stage (fe_faults env) sess e st"
      using f FinStaged r Inl by (simp add: finalize_step_def)
    then show ?thesis
      using own_drop [of digest sess st "fe_faults env" e] FinStaged
      by (intro inv_own_step [OF inv k]) (auto simp: pc_session_def pending_def)
  next
    case (Inr row)
    then show ?thesis
      using inv_store_row [OF inv k FinStaged] r f FinStaged by (auto simp: finalize_step_def)
  qed
next
  case (FinStored sess r)
  show ?thesis
  proof (cases "fe_faults env 11 = None \<and> ig_files st (StageFile (us_id sess)) \<noteq> None")
    case True
    then obtain bs where "ig_files st (StageFile (us_id sess)) = Some bs" by auto
    then show ?thesis
      using inv_move_file [OF inv k FinStored] f FinStored True by (simp add: finalize_step_def)
  next
    case False
    then have "\<exists>e. finalize_step digest env (FinStored sess r) st = drop_stage (fe_faults env) sess e (delete_row None (ir_id r) st)"
      using undo by (auto simp: finalize_step_def Let_def split: option.splits)
    then obtain e where "(p, st') = drop_stage (fe_faults env) sess e (delete_row None (ir_id r) st)"
      using f FinStored by auto
    moreover have "image_inv digest (delete_row None (ir_id r) st, ths[k := FinFailed sess e])"
      by (rule inv_take_back [OF inv k FinStored])
    ultimately show ?thesis
      using inv_own_step [of digest "delete_row None (ir_id r) st" "ths[k := FinFailed sess e]" k "us_id sess" p st']
        own_drop [of digest sess "delete_row None (ir_id r) st" "fe_faults env" e] k
      by (simp add: pc_session_def pending_def)
  qed
next
  case (FinMoved sess r)
  then have "p = FinDone r" "st' = remove_dir (fe_faults env 13) (us_id sess) st"
    using f by (auto simp: finalize_step_def)
  then show ?thesis
    using inv_leave [OF inv k, of "us_id sess" p st'] FinMoved image_invD(2) [OF inv]
    by (simp add: pc_session_def pending_def remove_dir_def stage_kept_def catalog_kept_def in_dir_def held_def
        split: option.splits)
next
  case (FinFailed sess e)
  then have "p = FinError e" "st' = release_finalize (fe_faults env 14) (us_id sess) st"
    using f by (auto simp: finalize_step_def)
  moreover have "keyed us_id (ig_sessions (release_finalize (fe_faults env 14) (us_id sess) st))"
    using image_invD(2) [OF inv] by (auto simp: release_finalize_def intro: keyed_upd split: option.splits)
  ultimately show ?thesis
    using inv_leave [OF inv k, of "us_id sess" p st'] FinFailed held_release
    by (simp add: pc_session_def pending_def release_finalize_def stage_kept_def catalog_kept_def split: option.splits)
next
  case (FinDone r)
  then show ?thesis using f inv by (simp add: finalize_step_def) (metis FinDone list_update_id)
next
  case (FinError e)
  then show ?thesis using f inv by (simp add: finalize_step_def) (metis FinError list_update_id)
qed

subsection \<open>Deletion\<close>

text \<open>A row leaves the table.\<close>

lemma inv_drop_row:
  assumes inv: "image_inv digest (st, ths)" and np: "no_pending ths i"
  shows "image_inv digest (st\<lparr>ig_images := del_where (\<lambda>q. ir_id q = i) (ig_images st)\<rparr>, ths)" (is "image_inv digest (?st, ths)")
proof (rule image_invI)
  note D = image_invD [OF inv]
  have pend: "ir_id q \<noteq> i" if "pc \<in> set ths" "pending pc = Some q" for pc q
    using np that by (force simp: no_pending_def list_all_iff)
  show "pc_ok digest ?st pc" if "pc \<in> set ths" for pc
    using pend [OF that] by (intro pc_ok_frame [OF D(5) [OF that]]) (auto simp: stage_kept_def)
  show "(\<exists>pc \<in> set ths. pending pc = Some q) \<or> file_ok digest ?st q" if "q \<in> set (ig_images ?st)" for q
    using that D(7) [of q] by (auto simp: file_ok_def)
  show "held ?st pc" if "pc \<in> set ths" for pc using D(6) [OF that] by (simp add: held_def)
  show "catalog_keys (ig_images ?st)" using D(1) by (auto simp: catalog_keys_def)
qed (use image_invD [OF inv] in auto)

text \<open>A file that no row names is removed.\<close>

lemma inv_remove_unnamed:
  assumes inv: "image_inv digest (st, ths)" and free: "\<forall>q \<in> set (ig_images st). ir_filename q \<noteq> n"
  shows "image_inv digest (remove_file f (CatalogFile n) st, ths)" (is "image_inv digest (?st, ths)")
proof (rule image_invI)
  note D = image_invD [OF inv]
  have st: "ig_images ?st = ig_images st" "ig_sessions ?st = ig_sessions st" "\<And>p. p \<noteq> CatalogFile n \<Longrightarrow> ig_files ?st p = ig_files st p"
    by (auto simp: remove_file_def set_file_def split: option.splits)
  show "pc_ok digest ?st pc" if "pc \<in> set ths" for pc
    by (rule pc_ok_frame [OF D(5) [OF that]]) (auto simp: stage_kept_def st)
  show "(\<exists>pc \<in> set ths. pending pc = Some q) \<or> file_ok digest ?st q" if "q \<in> set (ig_images ?st)" for q
    using D(7) [of q] that free file_ok_frame [of ?st q st] st by auto
  show "held ?st pc" if "pc \<in> set ths" for pc using D(6) [OF that] by (simp add: held_def st)
qed (use image_invD [OF inv] in \<open>auto simp: remove_file_def set_file_def split: option.splits\<close>)

lemma image_step_inv: "image_step digest s s' \<Longrightarrow> image_inv digest s \<Longrightarrow> image_inv digest s'"
proof (induction rule: image_step.induct)
  case (create fl now rid inp st out st' ths)
  then show ?case by (intro inv_create [of digest st ths fl now rid inp out st']) auto
next
  case (abort fl i st out st' ths)
  then show ?case using inv_abort [of digest st ths fl i] by simp
qed (auto intro: inv_chunk inv_begin inv_advance inv_collect)

text \<open>
  No row has a name that a deletion may still remove, except the row it is about to delete; and what it
  removes at the end is one of these names.
\<close>

definition del_ok :: "image_store \<Rightarrow> del_pc \<Rightarrow> bool" where
  "del_ok st d \<longleftrightarrow>
    (\<forall>q \<in> set (ig_images st). ir_filename q \<in> del_names d \<longrightarrow> (\<exists>r. d = DelFound r \<and> ir_id q = ir_id r))
    \<and> (\<forall>p. del_path d = Some p \<longrightarrow> p \<in> CatalogFile ` del_names d)"

definition requests_inv :: "(string \<Rightarrow> 256 word) \<Rightarrow> image_sys \<times> del_pc list \<Rightarrow> bool" where
  "requests_inv digest sd \<longleftrightarrow> image_inv digest (fst sd) \<and> (\<forall>d \<in> set (snd sd). del_ok (fst (fst sd)) d)"

lemma del_ok_subset: "set (ig_images st') \<subseteq> set (ig_images st) \<Longrightarrow> del_ok st d \<Longrightarrow> del_ok st' d"
  by (auto simp: del_ok_def)

lemma images_remove_file [simp]: "ig_images (remove_file f p st) = ig_images st"
  by (simp add: remove_file_def set_file_def split: option.splits)

lemma delete_step_ok:
  assumes inv: "image_inv digest (st, ths)" and ok: "del_ok st d" and safe: "safe_delete (st, ths) d"
    and s: "delete_step fl referenced d st = (d', st')"
  shows "image_inv digest (st', ths) \<and> set (ig_images st') \<subseteq> set (ig_images st) \<and> del_ok st' d'"
proof (cases d)
  case (DelStart i)
  show ?thesis
  proof (cases "get_image (fl 0) i st")
    case (Inl e)
    then show ?thesis
      using s DelStart inv by (auto simp: delete_step_def del_ok_def del_names_def del_row_def del_path_def)
  next
    case (Inr r)
    then have r: "r \<in> set (ig_images st)" "ir_id r = i" and d': "d' = DelFound r" "st' = st"
      using s DelStart by (auto simp: delete_step_def get_image_def split: option.splits dest!: sel_row_Some)
    have "ir_id q = ir_id r" if "q \<in> set (ig_images st)" "ir_filename q \<in> del_names d'" for q
    proof (cases "ir_filename q = ir_filename r")
      case True
      then show ?thesis
        using keyed_unique [of ir_filename "ig_images st" q r] image_invD(1) [OF inv] that(1) r(1) by (auto simp: catalog_keys_def)
    next
      case False
      then have "ir_filename q = legacy_name (ir_sha r) (ir_format r)"
        using that(2) by (simp add: d' del_names_def del_row_def)
      then show ?thesis
        using safe r that(1) DelStart by (force simp: safe_delete_def no_legacy_clash_def list_all_iff)
    qed
    then show ?thesis using inv d' by (auto simp: del_ok_def del_path_def)
  qed
next
  case (DelFound r)
  from s DelFound have "(\<exists>e. d' = DelError e) \<and> st' = st
      \<or> d' = DelGone r \<and> st' = st\<lparr>ig_images := del_where (\<lambda>q. ir_id q = ir_id r) (ig_images st)\<rparr>"
    by (auto simp: delete_step_def delete_image_def split: sum.splits)
  moreover have "no_pending ths (ir_id r)" using safe DelFound by (simp add: safe_delete_def)
  ultimately show ?thesis
    using inv inv_drop_row [OF inv] ok DelFound by (auto simp: del_ok_def del_names_def del_row_def del_path_def)
next
  case (DelGone r)
  then show ?thesis
    using inv ok s by (auto simp: delete_step_def del_ok_def del_names_def del_row_def del_path_def final_path_def)
next
  case (DelNamed r p)
  then have d': "d' = DelLegacy r p" "st' = remove_file (fl 3) (CatalogFile (legacy_name (ir_sha r) (ir_format r))) st"
    using s by (auto simp: delete_step_def)
  have "\<forall>q \<in> set (ig_images st). ir_filename q \<noteq> legacy_name (ir_sha r) (ir_format r)"
    using ok DelNamed by (auto simp: del_ok_def del_names_def del_row_def)
  from inv_remove_unnamed [OF inv this, of "fl 3"] show ?thesis
    using ok unfolding d' DelNamed by (auto simp: del_ok_def del_names_def del_row_def del_path_def)
next
  case (DelLegacy r p)
  then have d': "d' = DelDone r" "st' = remove_file (fl 4) p st"
    using s by (auto simp: delete_step_def)
  obtain n where n: "p = CatalogFile n" "n \<in> del_names d" using ok DelLegacy by (auto simp: del_ok_def del_path_def)
  then have "\<forall>q \<in> set (ig_images st). ir_filename q \<noteq> n" using ok DelLegacy by (auto simp: del_ok_def)
  from inv_remove_unnamed [OF inv this, of "fl 4"] show ?thesis
    unfolding d' n(1) by (auto simp: del_ok_def del_names_def del_row_def del_path_def)
qed (use assms in \<open>auto simp: delete_step_def\<close>)

lemma requests_step_inv: "requests_step digest sd sd' \<Longrightarrow> requests_inv digest sd \<Longrightarrow> requests_inv digest sd'"
proof (induction rule: requests_step.induct)
  case (request s s' ds)
  then show ?case
    using image_step_inv [OF request.hyps(1)]
    by (fastforce simp: requests_inv_def stored_apart_def del_ok_def)
next
  case (begin_delete s ds i)
  then show ?case by (auto simp: requests_inv_def del_ok_def del_names_def del_row_def del_path_def)
next
  case (delete k ds fl referenced s d st')
  obtain st ths where s: "s = (st, ths)" by force
  have inv: "image_inv digest (st, ths)" "\<forall>d \<in> set ds. del_ok st d" using delete.prems by (simp_all add: requests_inv_def s)
  have "del_ok st (ds ! k)" using inv(2) delete.hyps(1) by simp
  note ok = delete_step_ok [OF inv(1) this delete.hyps(3,2) [unfolded s fst_conv]]
  have "del_ok st' e" if "e \<in> set (ds[k := d])" for e
    using that ok inv(2) del_ok_subset [of st' st] set_update_subset_insert [of ds k d] by blast
  then show ?case using ok by (simp add: requests_inv_def s)
qed

interpretation image_steps: transition_system "image_step digest" "image_inv digest"
  by unfold_locales (rule image_step_inv)

interpretation requests_steps: transition_system "requests_step digest" "requests_inv digest"
  by unfold_locales (rule requests_step_inv)

text \<open>A request that runs alone is a sequence of steps of the system.\<close>

lemma run_reaches:
  assumes "fe_faults env 12 = None"
  shows "(image_step digest)\<^sup>*\<^sup>* (st, [pc]) (snd (finalize_run digest env pc st), [fst (finalize_run digest env pc st)])"
  using assms
proof (induction digest env pc st rule: finalize_run.induct)
  case (1 digest env pc st)
  show ?case
  proof (cases "fin_over pc")
    case True
    then show ?thesis by (subst (1 2) finalize_run.simps) simp
  next
    case False
    let ?r = "finalize_step digest env pc st"
    have "image_step digest (st, [pc]) (snd ?r, [pc][0 := fst ?r])"
      using 1(2) by (intro image_step.advance [where k = 0 and env = env]) auto
    then show ?thesis
      using 1(1) [OF False 1(2)] False by (subst (1 2) finalize_run.simps) (auto intro: converse_rtranclp_into_rtranclp)
  qed
qed

subsection \<open>Properties of the running system\<close>

lemma reached_inv:
  assumes "(requests_step digest)\<^sup>*\<^sup>* ((st0, []), []) ((st, ths), ds)" "image_inv digest (st0, [])"
  shows "image_inv digest (st, ths)"
  using requests_steps.reach_inv [OF assms(1)] assms(2) by (simp add: requests_inv_def)


subsection \<open>Who finalizes, whatever happens to the files\<close>

text \<open>The interleaving of all requests, without the three restrictions.\<close>

inductive any_step :: "(string \<Rightarrow> 256 word) \<Rightarrow> image_sys \<times> del_pc list \<Rightarrow> image_sys \<times> del_pc list \<Rightarrow> bool"
  for digest where
  any_request: "image_step digest s s' \<Longrightarrow> any_step digest (s, ds) (s', ds)"
| any_begin_delete: "any_step digest (s, ds) (s, ds @ [DelStart i])"
| any_delete: "k < length ds \<Longrightarrow> delete_step fl referenced (ds ! k) (fst s) = (d, st')
    \<Longrightarrow> any_step digest (s, ds) ((st', snd s), ds[k := d])"

definition session_inv :: "image_sys \<Rightarrow> bool" where
  "session_inv s \<longleftrightarrow>
    keyed us_id (ig_sessions (fst s)) \<and> exclusive pc_session (snd s) \<and> (\<forall>pc \<in> set (snd s). held (fst s) pc)"

lemma image_session_inv: "image_inv digest s \<Longrightarrow> session_inv s"
  by (simp add: image_inv_def requests_ok_def session_inv_def)

lemma session_inv_same: "session_inv (st, ths) \<Longrightarrow> ig_sessions st' = ig_sessions st \<Longrightarrow> session_inv (st', ths)"
  by (simp add: session_inv_def held_def)

text \<open>Sessions only leave.\<close>

definition fewer :: "image_store \<Rightarrow> image_store \<Rightarrow> bool" where
  "fewer st st' \<longleftrightarrow> (\<exists>P. ig_sessions st' = filter P (ig_sessions st))"

lemma fewer_refl [simp]: "fewer st st"
  unfolding fewer_def by (rule exI [of _ "\<lambda>_. True"]) simp

lemma fewer_trans: "fewer a b \<Longrightarrow> fewer b c \<Longrightarrow> fewer a c"
  unfolding fewer_def by (auto simp: filter_filter)

lemma fewer_fold: "(\<And>x s. fewer s (f x s)) \<Longrightarrow> fewer st (fold f xs st)"
  by (induction xs arbitrary: st) (auto intro: fewer_trans)

lemma session_inv_fewer:
  assumes "session_inv (st, ths)" "fewer st st'"
  shows "session_inv (st', ths)"
proof -
  obtain P where P: "ig_sessions st' = filter P (ig_sessions st)" using assms(2) by (auto simp: fewer_def)
  then show ?thesis
    using assms(1) by (auto simp: session_inv_def keyed_def distinct_map_filter intro: held_subset [rotated])
qed

lemma fewer_ops:
  "fewer st (remove_dir f i st)" "fewer st (snd (delete_upload f i st))" "fewer st (snd (abort_upload fl i st))"
  "fewer st (gc_orphan env cutoff i st)"
proof -
  show rd: "fewer st (remove_dir f i st)" for f i st
    by (auto simp: remove_dir_def fewer_def intro: exI [of _ "\<lambda>_. True"] split: option.split)
  show du: "fewer st (snd (delete_upload f i st))" for f
    by (auto simp: delete_upload_def del_where_def fewer_def split: option.split intro: exI [of _ "\<lambda>_. True"])
  show "fewer st (snd (abort_upload fl i st))"
    using du [of "fl 0"] fewer_trans [OF _ rd]
    by (auto simp: abort_upload_def split: prod.splits option.splits)
  show "fewer st (gc_orphan env cutoff i st)"
    using rd by (auto simp: gc_orphan_def split: sum.splits option.splits)
qed

lemma fewer_collect:
  assumes "gc_stale_uploads env cutoff st = (res, st')"
  shows "fewer st st'"
proof -
  have a: "fewer st (fold (\<lambda>u s. snd (abort_upload (ge_abort env (us_id u)) (us_id u) s)) us st)" for us
    by (rule fewer_fold) (rule fewer_ops)
  have b: "fewer s (fold (gc_orphan env cutoff) xs s)" for xs s
    by (rule fewer_fold) (rule fewer_ops)
  show ?thesis
    using assms a fewer_trans [OF a b] by (auto simp: gc_stale_uploads_def Let_def split: sum.splits option.splits)
qed

text \<open>A finalizing request keeps its session or lets go of it.\<close>

lemma finalize_step_sessions:
  assumes "finalize_step digest env pc st = (p, st')"
  shows "(pc_session p = pc_session pc \<or> pc_session p = None) \<and> (fewer st st'
    \<or> (\<exists>f i. pc_session pc = Some i \<and> pc_session p = None \<and> st' = release_finalize f i st))"
proof (cases pc)
  case (FinStaged sess fi)
  obtain res st1 where r: "finalize_image (fe_faults env) (fe_now env) (fe_id env) fi st = (res, st1)" by force
  have "fewer st st1"
  proof (cases res)
    case (Inl e)
    then have "st1 = st" using r finalize_image_Inl by blast
    then show ?thesis by simp
  next
    case (Inr x)
    then show ?thesis using finalize_image_Inr(3) [of _ _ _ fi st x st1] r
      by (auto simp: fewer_def del_where_def intro: exI [of _ "\<lambda>_. True"] split: if_splits)
  qed
  moreover have "fewer st1 (remove_file f q st1)" for f q
    by (auto simp: remove_file_def set_file_def fewer_def intro: exI [of _ "\<lambda>_. True"] split: option.split)
  ultimately show ?thesis
    using assms r FinStaged fewer_trans
    by (auto simp: finalize_step_def drop_stage_def pc_session_def split: sum.splits)
next
  case (FinFailed sess e)
  then show ?thesis using assms by (auto simp: finalize_step_def pc_session_def)
next
  case (FinMoved sess r)
  then show ?thesis using assms fewer_ops(1) by (auto simp: finalize_step_def pc_session_def)
qed (use assms in \<open>auto simp: finalize_step_def drop_stage_def delete_row_def remove_file_def set_file_def write_stage_def
    pc_session_def fewer_def Let_def intro: exI [of _ "\<lambda>_. True"] split: option.splits if_splits\<close>)

lemma session_advance:
  assumes inv: "session_inv (st, ths)" and k: "k < length ths" and f: "finalize_step digest env (ths ! k) st = (p, st')"
  shows "session_inv (st', ths[k := p])"
proof -
  note s = finalize_step_sessions [OF f]
  have ex: "exclusive pc_session (ths[k := p])"
    using inv k s by (intro exclusive_update) (auto simp: session_inv_def)
  have h: "held st q" if "q \<in> set (ths[k := p])" for q
    using in_update [OF that k] inv k s by (auto simp: session_inv_def held_def dest!: nth_mem)
  from s have "fewer st st' \<or> (\<exists>f i. pc_session (ths ! k) = Some i \<and> pc_session p = None \<and> st' = release_finalize f i st)"
    by (rule conjunct2)
  then show ?thesis
  proof (elim conjE disjE exE)
    assume "fewer st st'"
    moreover have "session_inv (st, ths[k := p])" using inv ex h by (simp add: session_inv_def)
    ultimately show "session_inv (st', ths[k := p])" using session_inv_fewer by blast
  next
    fix g i
    assume r: "pc_session (ths ! k) = Some i" "pc_session p = None" "st' = release_finalize g i st"
    have "held st' q" if q: "q \<in> set (ths[k := p])" for q
    proof -
      have "pc_session q \<noteq> Some i"
        using in_update [OF q k] other_session [OF _ k r(1)] inv r(2) by (auto simp: session_inv_def)
      then show ?thesis using held_release h [OF q] r(3) by blast
    qed
    moreover have "keyed us_id (ig_sessions st')"
      using inv by (auto simp: r(3) session_inv_def release_finalize_def intro: keyed_upd split: option.split)
    ultimately show "session_inv (st', ths[k := p])" using ex by (simp add: session_inv_def)
  qed
qed

lemma session_begin:
  assumes inv: "session_inv (st, ths)" and b: "finalize_begin fl i st = (pc, st')"
  shows "session_inv (st', ths @ [pc])"
  using begin_cases [OF b]
proof (elim disjE exE conjE)
  fix e assume "pc = FinError e" "st' = st"
  then show ?thesis
    using inv by (auto simp: session_inv_def pc_session_def held_def intro: exclusive_append)
next
  fix sess assume pc: "pc = FinChecking sess" "us_id sess = i"
    and u: "\<exists>u \<in> set (ig_sessions st). us_id u = i \<and> us_state u = state_uploading"
    and st': "st' = st\<lparr>ig_sessions := upd_where (\<lambda>r. us_id r = i \<and> us_state r = state_uploading)
               (\<lambda>r. r\<lparr>us_state := state_finalizing\<rparr>) (ig_sessions st)\<rparr>"
  have key: "keyed us_id (ig_sessions st)" using inv by (simp add: session_inv_def)
  have alone: "pc_session q \<noteq> Some i" if "q \<in> set ths" for q
    using u inv that by (fastforce simp: session_inv_def held_def state_uploading_def state_finalizing_def)
  have new: "pc_session pc = Some i" by (simp add: pc pc_session_def)
  have "us_state v = state_finalizing" if "v \<in> set (ig_sessions st')" "us_id v = i" for v
    using claimed_state [OF key] u that unfolding st' by auto
  then have own: "held st' pc" using new by (auto simp: held_def)
  have "held st' q" if "q \<in> set ths" for q
    using inv that by (auto simp: session_inv_def st' held_def set_upd_where)
  moreover have "keyed us_id (ig_sessions st')" using key by (auto simp: st' intro: keyed_upd)
  moreover have "exclusive pc_session (ths @ [pc])"
    using inv alone new by (intro exclusive_append) (auto simp: session_inv_def)
  ultimately show ?thesis using own by (auto simp: session_inv_def)
qed

lemma session_chunk:
  assumes inv: "session_inv (st, ths)" and w: "write_chunk_end digest fl sess n body sha st = (out, st')"
  shows "session_inv (st', ths)"
proof -
  have bump: "session_inv (bump_uploaded_chunks f i n s, ths)" if "session_inv (s, ths)" for f i n s
    using that by (auto simp: bump_uploaded_chunks_def session_inv_def held_def set_upd_where intro: keyed_upd split: option.split)
  let ?st1 = "make_dir (us_id sess) st" and ?data = "take (nat (expected_len sess n + 1)) body"
  let ?st2 = "set_file (ChunkFile (us_id sess) n) (Some ?data) ?st1"
  have "st' \<in> {st, ?st1, ?st2, bump_uploaded_chunks (fl 5) (us_id sess) n ?st2}"
    using w by (auto simp: write_chunk_end_def Let_def split: option.splits if_splits)
  moreover have "session_inv (?st1, ths)" "session_inv (?st2, ths)"
    by (rule session_inv_same [OF inv], simp add: make_dir_def set_file_def)+
  ultimately show ?thesis using inv bump by auto
qed

lemma session_step: "image_step digest s s' \<Longrightarrow> session_inv s \<Longrightarrow> session_inv s'"
proof (induction rule: image_step.induct)
  case (create fl now rid inp st out st' ths)
  from create_upload_cases [OF create.hyps(1)] show ?case
  proof (elim disjE exE conjE)
    fix r assume i: "rid = Inr (us_id r)" "\<forall>q \<in> set (ig_sessions st). us_id q \<noteq> us_id r"
      and st': "st' = st\<lparr>ig_sessions := ins_row r (ig_sessions st)\<rparr>"
    then show "session_inv (st', ths)"
      using create.prems create.hyps(2) [OF i(1)] by (auto simp: session_inv_def held_def intro: keyed_ins)
  qed (use create.prems in simp)
next
  case (abort fl i st out st' ths)
  then show ?case using session_inv_fewer fewer_ops(3) [of st fl i] by simp
next
  case (collect env cutoff st res st' ths)
  then show ?case using session_inv_fewer fewer_collect by blast
qed (blast intro: session_chunk session_begin session_advance)+

lemma delete_step_sessions: "delete_step fl referenced d st = (d', st') \<Longrightarrow> ig_sessions st' = ig_sessions st"
  by (auto simp: delete_step_def delete_image_def remove_file_def set_file_def
      split: del_pc.splits sum.splits option.splits if_splits)

lemma any_step_inv: "any_step digest sd sd' \<Longrightarrow> session_inv (fst sd) \<Longrightarrow> session_inv (fst sd')"
proof (induction rule: any_step.induct)
  case (any_delete k ds fl referenced s d st')
  then show ?case using delete_step_sessions session_inv_same [of "fst s" "snd s" st'] by auto
qed (auto intro: session_step)

interpretation any_steps: transition_system "any_step digest" "\<lambda>sd. session_inv (fst sd)"
  by unfold_locales (rule any_step_inv)

text \<open>
  C25: One request at a time finalizes an upload, and while it does, the session takes no new chunk and
  no second finalize, however requests and the steps of deletions interleave.
\<close>

theorem one_finalize_per_session:
  assumes "(any_step digest)\<^sup>*\<^sup>* ((st0, []), []) ((st, ths), ds)" and "keyed us_id (ig_sessions st0)"
    and "j < length ths" and "pc_session (ths ! j) = Some i"
  shows "(\<forall>k < length ths. pc_session (ths ! k) = Some i \<longrightarrow> k = j)
    \<and> (\<forall>f n sha. \<exists>e. write_chunk_begin f i n sha st = Inl e) \<and> (\<forall>fl. \<exists>e. finalize_begin fl i st = (FinError e, st))"
proof -
  have inv: "session_inv (st, ths)"
    using any_steps.reach_inv [OF assms(1)] assms(2) by (simp add: session_inv_def exclusive_def)
  have fin: "us_state u = state_finalizing" if "u \<in> set (ig_sessions st)" "us_id u = i" for u
    using inv nth_mem [OF assms(3)] assms(4) that by (auto simp: session_inv_def held_def)
  have 1: "\<exists>e. write_chunk_begin f i n sha st = Inl e" for f n sha
    using fin by (auto simp: write_chunk_begin_def get_upload_def and_then_def refuse_if_def
        split: option.splits sum.splits dest!: sel_row_Some)
  have 2: "\<exists>e. finalize_begin fl i st = (FinError e, st)" for fl
    using begin_cases [of fl i st "fst (finalize_begin fl i st)" "snd (finalize_begin fl i st)"] fin
    by (auto simp: state_uploading_def state_finalizing_def prod_eq_iff)
  have "exclusive pc_session ths" using inv by (simp add: session_inv_def)
  then show ?thesis
    using 1 2 exclusive_nth [of pc_session ths j _ i] assms(3,4) by blast
qed

subsection \<open>An upload from its chunks\<close>

definition piece :: "string \<Rightarrow> int \<Rightarrow> int \<Rightarrow> string" where
  "piece content c n = take (nat c) (drop (nat (c * (n - 1))) content)"

lemma concat_pieces:
  assumes "0 < c"
  shows "concat (map (piece content c) [1..int k]) = take (nat (c * int k)) content"
proof (induction k)
  case (Suc k)
  have "[1..int (Suc k)] = [1..int k] @ [int k + 1]" by (simp add: upto_rec2)
  moreover have "nat (c * int (Suc k)) = nat (c * int k) + nat c"
    using assms by (simp add: distrib_left nat_add_distrib)
  ultimately show ?case using Suc by (simp add: piece_def take_add)
qed simp

lemma chunk_count:
  assumes "0 < (c :: int)" "0 < tot" "num = (tot + c - 1) div c"
  shows "c * (num - 1) < tot" "tot \<le> c * num" "1 \<le> num"
proof -
  define m where "m = (tot + c - 1) mod c"
  have "c * num + m = tot + c - 1" "0 \<le> m" "m < c"
    using assms(1) by (simp_all add: assms(3) m_def)
  then show 1: "c * (num - 1) < tot" "tot \<le> c * num" by (auto simp: algebra_simps)
  show "1 \<le> num" using 1(2) assms(1,2) by (smt (verit) mult_nonneg_nonpos2 mult.commute zero_less_mult_pos)
qed

lemma all_pieces:
  assumes "0 < c" "int (length content) = tot" "tot \<le> c * num" "0 \<le> num"
  shows "concat (map (piece content c) [1..num]) = content"
  using concat_pieces [OF assms(1), of content "nat num"] assms(2-4) by simp

lemma length_piece:
  assumes "0 < us_chunk sess" "int (length content) = us_total sess" "us_chunk sess * (us_num sess - 1) < us_total sess"
    and "us_total sess \<le> us_chunk sess * us_num sess" "1 \<le> n" "n \<le> us_num sess"
  shows "int (length (piece content (us_chunk sess) n)) = expected_len sess n" "0 < expected_len sess n"
proof -
  let ?c = "us_chunk sess"
  have le: "?c * (n - 1) \<le> ?c * (us_num sess - 1)" "0 \<le> ?c * (n - 1)"
    using assms(1,5,6) by (simp_all add: mult_left_mono)
  have below: "?c * n \<le> ?c * (us_num sess - 1)" if "n \<noteq> us_num sess"
    using assms(1,6) that by (simp add: mult_left_mono)
  have arith: "int (min (k - nat x) (nat c)) = min (int k - x) c" if "0 \<le> x" "x < int k" "0 < c" for k x c
    using that by linarith
  have len: "int (length (piece content ?c n)) = min (us_total sess - ?c * (n - 1)) ?c"
    using arith [of "?c * (n - 1)" "length content" ?c] assms(1-3) le by (simp add: piece_def min.commute)
  show "int (length (piece content ?c n)) = expected_len sess n" "0 < expected_len sess n"
    using assms(1,3,4) below le by (auto simp: len expected_len_def algebra_simps)
qed

text \<open>The state while the chunks in \<open>S\<close> of a session have arrived.\<close>

definition collecting :: "upload_session \<Rightarrow> string \<Rightarrow> stored_image list \<Rightarrow> int set \<Rightarrow> image_store \<Rightarrow> bool" where
  "collecting sess content imgs S st \<longleftrightarrow>
    keyed us_id (ig_sessions st) \<and> (\<exists>d. sess\<lparr>us_done := d\<rparr> \<in> set (ig_sessions st)) \<and> ig_images st = imgs
    \<and> (\<forall>n \<in> S. ig_files st (ChunkFile (us_id sess) n) = Some (piece content (us_chunk sess) n))"

lemma collecting_get:
  assumes "collecting sess content imgs S st"
  obtains d where "get_upload None (us_id sess) st = Inr (sess\<lparr>us_done := d\<rparr>)"
proof -
  obtain d where "sess\<lparr>us_done := d\<rparr> \<in> set (ig_sessions st)" using assms by (auto simp: collecting_def)
  moreover have "keyed us_id (ig_sessions st)" using assms by (simp add: collecting_def)
  ultimately have "sel_row (\<lambda>r. us_id r = us_id sess) (ig_sessions st) = Some (sess\<lparr>us_done := d\<rparr>)"
    using keyed_sel [of us_id "ig_sessions st" "sess\<lparr>us_done := d\<rparr>"] by simp
  then show thesis using that by (simp add: get_upload_def)
qed

lemma collecting_bump:
  assumes "collecting sess content imgs S st"
  shows "collecting sess content imgs S (bump_uploaded_chunks None i n st)"
proof -
  obtain d where d: "sess\<lparr>us_done := d\<rparr> \<in> set (ig_sessions st)" using assms by (auto simp: collecting_def)
  let ?p = "\<lambda>r. us_id r = i \<and> us_done r < n"
  have "(if ?p (sess\<lparr>us_done := d\<rparr>) then sess\<lparr>us_done := n\<rparr> else sess\<lparr>us_done := d\<rparr>)
      \<in> set (upd_where ?p (\<lambda>r. r\<lparr>us_done := n\<rparr>) (ig_sessions st))"
    using d by (force simp: set_upd_where image_iff)
  then have "\<exists>d. sess\<lparr>us_done := d\<rparr> \<in> set (upd_where ?p (\<lambda>r. r\<lparr>us_done := n\<rparr>) (ig_sessions st))"
    by (auto split: if_splits)
  then show ?thesis
    using assms by (auto simp: collecting_def bump_uploaded_chunks_def intro: keyed_upd)
qed

lemma collecting_write:
  assumes c: "collecting sess content imgs S st" and n: "1 \<le> n" "n \<le> us_num sess" and up: "us_state sess \<noteq> state_finalizing"
    and len: "int (length (piece content (us_chunk sess) n)) = expected_len sess n"
  shows "collecting sess content imgs (insert n S)
    (snd (write_chunk digest no_faults (us_id sess) n (piece content (us_chunk sess) n) [] st))"
proof -
  obtain d where d: "get_upload None (us_id sess) st = Inr (sess\<lparr>us_done := d\<rparr>)" by (rule collecting_get [OF c])
  let ?u = "sess\<lparr>us_done := d\<rparr>" and ?body = "piece content (us_chunk sess) n"
  have start: "write_chunk_begin None (us_id sess) n [] st = Inr ?u"
    using n up by (simp add: write_chunk_begin_def d)
  have "expected_len ?u n = expected_len sess n" by (simp add: expected_len_def)
  then have all: "take (nat (expected_len ?u n + 1)) ?body = ?body" "int (length ?body) = expected_len ?u n"
    using len by simp_all
  let ?s = "set_file (ChunkFile (us_id sess) n) (Some ?body) (make_dir (us_id sess) st)"
  have "collecting sess content imgs (insert n S) ?s"
    using c by (auto simp: collecting_def set_file_def make_dir_def)
  moreover have "snd (write_chunk digest no_faults (us_id sess) n ?body [] st)
      = (if d < n then bump_uploaded_chunks None (us_id sess) n ?s else ?s)"
    using all by (simp add: write_chunk_def start write_chunk_end_def Let_def)
  ultimately show ?thesis using collecting_bump by simp
qed

lemma collecting_all:
  assumes "collecting sess content imgs S st" "us_state sess \<noteq> state_finalizing"
    and "\<And>n. n \<in> set ns \<Longrightarrow> 1 \<le> n \<and> n \<le> us_num sess \<and> int (length (piece content (us_chunk sess) n)) = expected_len sess n"
  shows "collecting sess content imgs (S \<union> set ns)
    (fold (\<lambda>n s. snd (write_chunk digest no_faults (us_id sess) n (piece content (us_chunk sess) n) [] s)) ns st)"
  using assms
proof (induction ns arbitrary: S st)
  case (Cons n ns)
  have "collecting sess content imgs (insert n S)
      (snd (write_chunk digest no_faults (us_id sess) n (piece content (us_chunk sess) n) [] st))"
    using Cons.prems by (intro collecting_write) auto
  from Cons.IH [OF this] Cons.prems show ?case by (simp del: no_faults_simp)
qed simp

text \<open>The copying loop of a request that meets no fault.\<close>

lemma first_missing_None:
  "(\<And>n. n \<in> set ns \<Longrightarrow> stat n = None \<and> ig_files st (ChunkFile i n) \<noteq> None) \<Longrightarrow> first_missing stat i st ns = None"
  by (induction ns) auto

lemma copy_all:
  assumes "fe_read env = (\<lambda>n. None)" "\<And>n. 1 \<le> n \<Longrightarrow> n \<le> us_num u \<Longrightarrow> ig_files st (ChunkFile (us_id u) n) = Some (f n)"
    and "int k \<le> us_num u"
  shows "finalize_run digest env (FinCopying u 1 []) (set_file (StageFile (us_id u)) (Some []) st)
    = finalize_run digest env (FinCopying u (1 + int k) (concat (map f [1..int k])))
        (set_file (StageFile (us_id u)) (Some (concat (map f [1..int k]))) st)"
  using assms(3)
proof (induction k)
  case (Suc k)
  have up: "[1..1 + int k] = [1..int k] @ [1 + int k]" by (simp add: upto_rec2)
  have "ig_files st (ChunkFile (us_id u) (1 + int k)) = Some (f (int k + 1))"
    using assms(2) [of "int k + 1"] Suc.prems by (simp add: add.commute)
  then have "finalize_step digest env (FinCopying u (1 + int k) (concat (map f [1..int k])))
        (set_file (StageFile (us_id u)) (Some (concat (map f [1..int k]))) st)
      = (FinCopying u (1 + int (Suc k)) (concat (map f [1..int (Suc k)])),
         set_file (StageFile (us_id u)) (Some (concat (map f [1..int (Suc k)]))) st)"
    using Suc.prems assms(1) by (simp add: finalize_step_def write_stage_def set_file_def up add.commute)
  then have "finalize_run digest env (FinCopying u (1 + int k) (concat (map f [1..int k])))
        (set_file (StageFile (us_id u)) (Some (concat (map f [1..int k]))) st)
      = finalize_run digest env (FinCopying u (1 + int (Suc k)) (concat (map f [1..int (Suc k)])))
         (set_file (StageFile (us_id u)) (Some (concat (map f [1..int (Suc k)]))) st)"
    by (subst finalize_run.simps) (simp add: fin_over_def)
  then show ?case using Suc by simp
qed simp

definition quiet_env :: "finalize_env \<Rightarrow> bool" where
  "quiet_env env \<longleftrightarrow> fe_faults env = no_faults \<and> fe_stat env = (\<lambda>n. None) \<and> fe_read env = (\<lambda>n. None)"

text \<open>The identifier and the file name the new row asks for are free, and so is the checksum.\<close>

definition row_fits :: "finalize_env \<Rightarrow> string \<Rightarrow> string \<Rightarrow> string \<Rightarrow> stored_image list \<Rightarrow> bool" where
  "row_fits env name format sha t \<longleftrightarrow>
    (case (fe_id env, unique_filename None name format sha t) of
       (Inr i, Inr fname) \<Rightarrow> list_all (\<lambda>q. ir_id q \<noteq> i \<and> ir_sha q \<noteq> sha \<and> ir_filename q \<noteq> fname) t
     | _ \<Rightarrow> False)"

lemma finalize_image_fits:
  assumes "row_fits env (fi_name fi) (fi_format fi) (fi_sha fi) (ig_images st)" "sha256_match (fi_sha fi)"
  shows "\<exists>r st'. finalize_image no_faults now (fe_id env) fi st = (Inr r, st') \<and> ir_name r = fi_name fi"
proof -
  obtain i fname where i: "fe_id env = Inr i"
    and u: "unique_filename None (fi_name fi) (fi_format fi) (fi_sha fi) (ig_images st) = Inr fname"
    and free: "\<forall>q \<in> set (ig_images st). ir_id q \<noteq> i \<and> ir_sha q \<noteq> fi_sha fi \<and> ir_filename q \<noteq> fname"
    using assms(1) by (auto simp: row_fits_def list_all_iff split: sum.splits)
  have "sel_row (\<lambda>r. ir_sha r = fi_sha fi) (ig_images st) = None"
    using free by (simp add: sel_row_None)
  then show ?thesis
    using assms(2) i u free by (auto simp: finalize_image_def insert_image_def sql_insert_image_def)
qed

lemma run_next: "\<not> fin_over pc \<Longrightarrow> finalize_step digest env pc st = (pc', st') \<Longrightarrow> finalize_run digest env pc st = finalize_run digest env pc' st'"
  by (subst finalize_run.simps) simp

lemma claim_ready:
  assumes "keyed us_id (ig_sessions st)" "u \<in> set (ig_sessions st)" "us_state u = state_uploading"
  shows "finalize_begin no_faults (us_id u) st = (FinChecking u, st\<lparr>ig_sessions :=
    upd_where (\<lambda>r. us_id r = us_id u \<and> us_state r = state_uploading) (\<lambda>r. r\<lparr>us_state := state_finalizing\<rparr>) (ig_sessions st)\<rparr>)"
proof -
  have "sel_row (\<lambda>r. us_id r = us_id u) (ig_sessions st) = Some u" by (rule keyed_sel [OF assms(1,2)])
  moreover have "hits (\<lambda>r. us_id r = us_id u \<and> us_state r = state_uploading) (ig_sessions st) \<noteq> 0"
    using assms(2,3) by (auto simp: hits_zero)
  ultimately show ?thesis by (simp add: finalize_begin_def get_upload_def claim_finalize_def Let_def)
qed

text \<open>From the claim to the verified file.\<close>

lemma run_to_staged:
  assumes q: "quiet_env env" and c: "0 < us_chunk u" "0 < us_total u" "us_num u = (us_total u + us_chunk u - 1) div us_chunk u"
    and len: "int (length content) = us_total u" and sha: "us_sha u = [] \<or> us_sha u = digest_hex (digest content)"
    and chunks: "\<And>n. 1 \<le> n \<Longrightarrow> n \<le> us_num u \<Longrightarrow> ig_files st (ChunkFile (us_id u) n) = Some (piece content (us_chunk u) n)"
  shows "finalize_run digest env (FinChecking u) st = finalize_run digest env
    (FinStaged u (finalize_args u (extract_metadata (fe_extract env) (us_name u) (Some content)) (us_total u) (digest_hex (digest content))))
    (set_file (StageFile (us_id u)) (Some content) st)"
proof -
  note count = chunk_count [OF c]
  have whole: "concat (map (piece content (us_chunk u)) [1..int (nat (us_num u))]) = content"
    using all_pieces [OF c(1) len count(2)] count(3) by simp
  have "finalize_step digest env (FinChecking u) st = (FinCopying u 1 [], set_file (StageFile (us_id u)) (Some []) st)"
  proof -
    have "first_missing (fe_stat env) (us_id u) st [1..us_num u] = None"
      using q chunks by (intro first_missing_None) (auto simp: quiet_env_def)
    then show ?thesis using q by (simp add: finalize_step_def quiet_env_def)
  qed
  then have "finalize_run digest env (FinChecking u) st
      = finalize_run digest env (FinCopying u 1 []) (set_file (StageFile (us_id u)) (Some []) st)"
    by (intro run_next) (simp_all add: fin_over_def)
  also have "\<dots> = finalize_run digest env (FinCopying u (1 + int (nat (us_num u))) content)
      (set_file (StageFile (us_id u)) (Some content) st)"
    using copy_all [of env u st "piece content (us_chunk u)" "nat (us_num u)" digest] q chunks count(3) whole
    by (simp add: quiet_env_def)
  also have "\<dots> = finalize_run digest env
    (FinStaged u (finalize_args u (extract_metadata (fe_extract env) (us_name u) (Some content)) (us_total u) (digest_hex (digest content))))
    (set_file (StageFile (us_id u)) (Some content) st)"
    using q len sha count(3)
    by (intro run_next) (auto simp: fin_over_def finalize_step_def quiet_env_def set_file_def Let_def)
  finally show ?thesis .
qed

text \<open>From the verified file to the catalog.\<close>

lemma run_to_done:
  assumes q: "quiet_env env" and stage: "ig_files st (StageFile (us_id u)) = Some content"
    and fi: "fi_session fi = us_id u" "sha256_match (fi_sha fi)"
    and fits: "row_fits env (fi_name fi) (fi_format fi) (fi_sha fi) (ig_images st)"
  shows "\<exists>r st'. finalize_run digest env (FinStaged u fi) st = (FinDone r, st') \<and> r \<in> set (ig_images st')
    \<and> ir_name r = fi_name fi \<and> ir_sha r = fi_sha fi \<and> ig_files st' (CatalogFile (ir_filename r)) = Some content
    \<and> (\<forall>p. in_dir (us_id u) p \<longrightarrow> ig_files st' p = None) \<and> (us_id u \<noteq> [] \<longrightarrow> (\<forall>v \<in> set (ig_sessions st'). us_id v \<noteq> us_id u))"
proof -
  obtain r st1 where f: "finalize_image no_faults (fe_now env) (fe_id env) fi st = (Inr r, st1)" and name: "ir_name r = fi_name fi"
    using finalize_image_fits [OF fits fi(2)] by blast
  note F = finalize_image_Inr [OF f]
  let ?s2 = "set_file (CatalogFile (ir_filename r)) (Some content) (set_file (StageFile (us_id u)) None st1)"
  have "finalize_run digest env (FinStaged u fi) st = finalize_run digest env (FinStored u r) st1"
    using f q by (intro run_next) (simp_all add: fin_over_def finalize_step_def quiet_env_def)
  also have "\<dots> = finalize_run digest env (FinMoved u r) ?s2"
    using q stage F(2) by (intro run_next) (simp_all add: fin_over_def finalize_step_def quiet_env_def)
  also have "\<dots> = finalize_run digest env (FinDone r) (remove_dir None (us_id u) ?s2)"
    using q by (intro run_next) (simp_all add: fin_over_def finalize_step_def quiet_env_def)
  also have "\<dots> = (FinDone r, remove_dir None (us_id u) ?s2)"
    by (subst finalize_run.simps) (simp add: fin_over_def)
  finally show ?thesis
    using name F fi(1) by (auto simp: remove_dir_def set_file_def in_dir_def split: if_splits)
qed

lemma created_session:
  assumes "create_upload fl now rid inp st = (Inr sess, st1)" "keyed us_id (ig_sessions st)"
  shows "rid = Inr (us_id sess)" "us_name sess = cu_name inp" "us_sha sess = cu_sha inp" "us_total sess = cu_total inp"
    "us_state sess = state_uploading" "0 < us_chunk sess" "0 < us_total sess"
    "us_num sess = (us_total sess + us_chunk sess - 1) div us_chunk sess"
    "collecting sess content (ig_images st) {} st1"
proof -
  obtain c where c: "check_upload_input inp = Inr c" and s: "sess = \<lparr>us_id = us_id sess, us_name = cu_name inp,
        us_version = cu_version inp, us_family = cu_family inp, us_arch = cu_arch inp, us_notes = cu_notes inp,
        us_sha = cu_sha inp, us_total = cu_total inp, us_chunk = c, us_num = (cu_total inp + c - 1) div c, us_done = 0,
        us_state = state_uploading, us_by = cu_by inp, us_started = unix now\<rparr>"
    using assms(1) by (auto simp: create_upload_def Let_def split: sum.splits option.splits if_splits)
  have pos: "0 < c" "0 < cu_total inp"
    using c by (auto simp: check_upload_input_def and_then_Inr Let_def default_chunk_size_def split: if_splits)
  from s have f: "us_name sess = cu_name inp" "us_sha sess = cu_sha inp" "us_total sess = cu_total inp" "us_chunk sess = c"
    "us_state sess = state_uploading" "us_num sess = (cu_total inp + c - 1) div c"
    by (metis upload_session.select_convs)+
  then show "us_name sess = cu_name inp" "us_sha sess = cu_sha inp" "us_total sess = cu_total inp"
    "us_state sess = state_uploading" "0 < us_chunk sess" "0 < us_total sess"
    "us_num sess = (us_total sess + us_chunk sess - 1) div us_chunk sess"
    using pos by simp_all
  have ins: "ig_sessions st1 = ins_row sess (ig_sessions st) \<and> (\<forall>q \<in> set (ig_sessions st). us_id q \<noteq> us_id sess)
      \<and> rid = Inr (us_id sess) \<or> st1 = st"
    using create_upload_cases [OF assms(1)] by auto
  have new: "st1 \<noteq> st"
    using assms(1) by (auto simp: create_upload_def Let_def try_sql_def sql_insert_session_def ins_row_def
        dest: arg_cong [of _ _ ig_sessions] split: sum.splits option.splits if_splits)
  then show "rid = Inr (us_id sess)" using ins by blast
  have "ig_images st1 = ig_images st" using create_upload_cases [OF assms(1)] by auto
  moreover have "\<exists>d. sess\<lparr>us_done := d\<rparr> \<in> set (ig_sessions st1)"
    by (rule exI [of _ "us_done sess"]) (use ins new in simp)
  moreover have "keyed us_id (ig_sessions st1)" using ins new assms(2) by (auto intro: keyed_ins)
  ultimately show "collecting sess content (ig_images st) {} st1" by (auto simp: collecting_def)
qed

text \<open>
  C26: An upload arrives whole: after a session was opened for a file, its chunks were written in any
  order, any of them again, and the session is finalized, the catalog holds the file byte for byte
  under a row with its checksum, and the session and its chunks are gone.
\<close>

theorem upload_arrives_whole:
  assumes "create_upload no_faults now rid inp st = (Inr sess, st1)" and "keyed us_id (ig_sessions st)" and "us_id sess \<noteq> []"
    and "int (length content) = cu_total inp" and "cu_sha inp = [] \<or> cu_sha inp = digest_hex (digest content)"
    and "set ns = {1..us_num sess}"
    and "st2 = fold (\<lambda>n s. snd (write_chunk digest no_faults (us_id sess) n (piece content (us_chunk sess) n) [] s)) ns st1"
    and "quiet_env env"
    and "row_fits env (cu_name inp) (fst (extract_metadata (fe_extract env) (cu_name inp) (Some content)))
           (digest_hex (digest content)) (ig_images st)"
  shows "\<exists>r st3. finalize_upload digest env (us_id sess) st2 = (Inr r, st3) \<and> r \<in> set (ig_images st3)
    \<and> ir_name r = cu_name inp \<and> ir_sha r = digest_hex (digest content) \<and> ig_files st3 (CatalogFile (ir_filename r)) = Some content
    \<and> (\<forall>v \<in> set (ig_sessions st3). us_id v \<noteq> us_id sess) \<and> (\<forall>n. ig_files st3 (ChunkFile (us_id sess) n) = None)"
proof -
  note C = created_session [OF assms(1,2)]
  have len: "int (length content) = us_total sess" using assms(4) C(4) by simp
  note count = chunk_count [OF C(6-8)]
  have "collecting sess content (ig_images st) {1..us_num sess} st2"
    using collecting_all [OF C(9), of ns content digest] C(5) assms(6,7) length_piece(1) [OF C(6) len count(1,2)]
    by (simp add: state_uploading_def state_finalizing_def del: no_faults_simp)
  then obtain d where k: "keyed us_id (ig_sessions st2)" "sess\<lparr>us_done := d\<rparr> \<in> set (ig_sessions st2)" "ig_images st2 = ig_images st"
    and chunks: "\<And>n. 1 \<le> n \<Longrightarrow> n \<le> us_num sess \<Longrightarrow> ig_files st2 (ChunkFile (us_id sess) n) = Some (piece content (us_chunk sess) n)"
    by (auto simp: collecting_def)
  define u where "u = sess\<lparr>us_done := d\<rparr>"
  have u: "us_id u = us_id sess" "us_name u = us_name sess" "us_sha u = us_sha sess" "us_total u = us_total sess"
    "us_chunk u = us_chunk sess" "us_num u = us_num sess" "us_state u = state_uploading"
    by (simp_all add: u_def C(5))
  obtain st' where claim: "finalize_begin no_faults (us_id sess) st2 = (FinChecking u, st')"
    and st': "ig_files st' = ig_files st2" "ig_images st' = ig_images st"
    using claim_ready [OF k(1), of u] k(2,3) u(1,7) by (auto simp: u_def [symmetric])
  define fi where "fi = finalize_args u (extract_metadata (fe_extract env) (us_name u) (Some content)) (us_total u) (digest_hex (digest content))"
  have fi: "fi_session fi = us_id u" "fi_sha fi = digest_hex (digest content)" "fi_name fi = cu_name inp"
    "fi_format fi = fst (extract_metadata (fe_extract env) (cu_name inp) (Some content))"
    by (simp_all add: fi_def finalize_args_def u(2) C(2))
  have "finalize_run digest env (FinChecking u) st' = finalize_run digest env (FinStaged u fi) (set_file (StageFile (us_id u)) (Some content) st')"
    unfolding fi_def using run_to_staged [OF assms(8), of u content digest st'] C(3,6,7,8) len assms(5) chunks st' u by simp
  moreover obtain r st3 where r: "finalize_run digest env (FinStaged u fi) (set_file (StageFile (us_id u)) (Some content) st') = (FinDone r, st3)"
      "r \<in> set (ig_images st3)" "ir_name r = fi_name fi" "ir_sha r = fi_sha fi" "ig_files st3 (CatalogFile (ir_filename r)) = Some content"
      "\<forall>p. in_dir (us_id u) p \<longrightarrow> ig_files st3 p = None" "us_id u \<noteq> [] \<longrightarrow> (\<forall>v \<in> set (ig_sessions st3). us_id v \<noteq> us_id u)"
    using run_to_done [OF assms(8), of "set_file (StageFile (us_id u)) (Some content) st'" u content fi digest] assms(9) fi st'(2)
    by (auto simp: set_file_def)
  ultimately have "finalize_upload digest env (us_id sess) st2 = (Inr r, st3)"
    using assms(8) claim by (simp add: finalize_upload_def quiet_env_def)
  then show ?thesis
    using r fi u(1) assms(3) by (auto simp: in_dir_def)
qed

text \<open>
  An upload's name cannot leave the catalog directory: the file name of every row that is stored is
  not empty, not \<open>.\<close> or \<open>..\<close>, and holds no slash and no NUL, whatever name the upload had, as long as
  the format is a word; and no row stored before has it.
\<close>

theorem image_names_stay_inside:
  assumes "finalize_image fl now rid fi st = (Inr r, st')" and "plain_format (fi_format fi)"
  shows "plain_name (ir_filename r) \<and> (\<forall>q \<in> set (ig_images st). ir_filename q \<noteq> ir_filename r)"
proof -
  obtain i name t where n: "unique_filename (fl 6) (fi_name fi) (fi_format fi) (fi_sha fi) (ig_images st) = Inr name"
    and sha: "sha256_match (fi_sha fi)"
    and ins: "insert_image (fl 7) (fl 8)
              \<lparr>ir_id = i, ir_name = fi_name fi, ir_version = fi_version fi, ir_family = fi_family fi, ir_arch = fi_arch fi,
               ir_format = fi_format fi, ir_size = fi_size fi, ir_virtual = fi_virtual fi, ir_sha = fi_sha fi,
               ir_filename = name, ir_uploaded = unix now, ir_by = fi_by fi, ir_last_used = None,
               ir_notes = fi_notes fi, ir_meta = fi_meta fi\<rparr> (ig_images st) = Inr (r, t)"
    using assms(1) by (auto simp: finalize_image_def and_then_Inr split: sum.splits)
  note ok = unique_filename_inside [OF assms(2) sha n]
  have "inside (ir_filename r)"
    using insert_image_Inr(2) [OF ins] ok retried_name_inside [OF ok sha] by auto
  then show ?thesis using finalize_image_Inr(7) [OF assms(1)] inside_plain by blast
qed

subsection \<open>Witnesses and counterexamples\<close>

text \<open>A digest for the examples: the sum of the bytes and the length.\<close>

definition toy_digest :: "string \<Rightarrow> 256 word" where
  "toy_digest s = of_nat (65536 * length s + sum_list (map byte s))"

definition no_images :: image_store where
  "no_images = \<lparr>ig_images = [], ig_sessions = [], ig_files = (\<lambda>p. None), ig_dirs = []\<rparr>"

definition toy_input :: "string \<Rightarrow> create_upload_input" where
  "toy_input name =
    \<lparr>cu_name = name, cu_version = [], cu_family = ''ubuntu'', cu_arch = ''amd64'', cu_notes = [], cu_sha = [],
     cu_total = 5, cu_chunk = 2, cu_by = ''root''\<rparr>"

definition toy_env :: "char \<Rightarrow> finalize_env" where
  "toy_env c =
    \<lparr>fe_faults = no_faults, fe_stat = (\<lambda>n. None), fe_read = (\<lambda>n. None), fe_extract = None,
     fe_id = Inr (hex_id c), fe_now = 0\<rparr>"

definition toy_start :: "char \<Rightarrow> string \<Rightarrow> image_store \<Rightarrow> image_store" where
  "toy_start c name st = snd (create_upload no_faults 0 (Inr (hex_id c)) (toy_input name) st)"

definition toy_session :: "char \<Rightarrow> string \<Rightarrow> upload_session" where
  "toy_session c name =
    \<lparr>us_id = hex_id c, us_name = name, us_version = [], us_family = ''ubuntu'', us_arch = ''amd64'', us_notes = [],
     us_sha = [], us_total = 5, us_chunk = 2, us_num = 3, us_done = 0, us_state = ''uploading'', us_by = ''root'', us_started = 0\<rparr>"

definition toy_chunks :: "char \<Rightarrow> string \<Rightarrow> string \<Rightarrow> image_store \<Rightarrow> image_store" where
  "toy_chunks c name content st =
    fold (\<lambda>n s. snd (write_chunk toy_digest no_faults (hex_id c) n (piece content 2 n) [] s)) [3, 1, 2, 1] (toy_start c name st)"

lemma toy_created:
  "create_upload no_faults 0 (Inr (hex_id CHR ''5'')) (toy_input ''a/b.img'') no_images
    = (Inr (toy_session CHR ''5'' ''a/b.img''), toy_start CHR ''5'' ''a/b.img'' no_images)"
  unfolding toy_start_def by (simp add: prod_eq_iff) code_simp

lemma toy_name: "derived_name ''a/b.img'' ''raw'' = (''b.img'', ''.img'')"
  by code_simp

lemma upload_arrives_whole_witness:
  "\<exists>r st. finalize_upload toy_digest (toy_env CHR ''9'') (hex_id CHR ''5'') (toy_chunks CHR ''5'' ''a/b.img'' ''hello'' no_images) = (Inr r, st)
    \<and> ig_files st (CatalogFile (ir_filename r)) = Some ''hello''"
proof -
  have "keyed us_id (ig_sessions no_images)" by (simp add: no_images_def)
  moreover have "us_id (toy_session CHR ''5'' ''a/b.img'') = hex_id CHR ''5''" "us_chunk (toy_session CHR ''5'' ''a/b.img'') = 2"
    "us_num (toy_session CHR ''5'' ''a/b.img'') = 3" "hex_id CHR ''5'' \<noteq> []"
    by (simp_all add: toy_session_def) code_simp
  moreover have "{1..3::int} = set [3, 1, 2, 1]" by auto
  moreover have "quiet_env (toy_env CHR ''9'')" by (simp add: quiet_env_def toy_env_def)
  moreover have "row_fits (toy_env CHR ''9'') ''a/b.img'' ''raw'' (digest_hex (toy_digest ''hello'')) []"
    by (simp add: row_fits_def toy_env_def unique_filename_def toy_name sel_row_def)
  moreover have "fst (extract_metadata (fe_extract (toy_env CHR ''9'')) ''a/b.img'' (Some ''hello'')) = ''raw''" by code_simp
  ultimately show ?thesis
    using upload_arrives_whole [OF toy_created, of "''hello''" toy_digest "[3, 1, 2, 1]"
        "toy_chunks CHR ''5'' ''a/b.img'' ''hello'' no_images" "toy_env CHR ''9''"]
    by (auto simp: toy_chunks_def toy_input_def no_images_def)
qed

definition toy_sha :: "char \<Rightarrow> string" where
  "toy_sha c = replicate 64 c"

definition toy_row :: "char \<Rightarrow> string \<Rightarrow> string \<Rightarrow> stored_image" where
  "toy_row c name sha =
    \<lparr>ir_id = hex_id c, ir_name = name, ir_version = [], ir_family = ''ubuntu'', ir_arch = ''amd64'', ir_format = ''raw'',
     ir_size = 1, ir_virtual = 0, ir_sha = sha, ir_filename = name, ir_uploaded = 0, ir_by = ''root'', ir_last_used = None,
     ir_notes = [], ir_meta = []\<rparr>"

text \<open>Two images, of the bytes \<open>a\<close> (all-zero digest) and \<open>b\<close>.\<close>

definition two_digest :: "string \<Rightarrow> 256 word" where
  "two_digest s = (if s = ''a'' then 0 else 1)"

lemma toy_hex: "hex_digit 0 = CHR ''0''" "hex_digit (Suc 0) = CHR ''1''"
  by code_simp+

lemma toy_zero: "digest_hex 0 = toy_sha CHR ''0''"
  by (simp add: digest_hex_def toy_sha_def toy_hex map_replicate_const)

lemma toy_one: "digest_hex 1 \<noteq> toy_sha CHR ''0''"
proof
  assume "digest_hex 1 = toy_sha CHR ''0''"
  then have "digest_hex 1 ! 63 = CHR ''0''" by (simp add: toy_sha_def)
  moreover have "digest_hex 1 ! 63 = hex_digit 1" by (simp add: digest_hex_def rev_nth)
  ultimately show False by (simp add: toy_hex)
qed

definition two_images :: "string \<Rightarrow> image_store" where
  "two_images name =
    \<lparr>ig_images = [toy_row CHR ''1'' ''a.raw'' (toy_sha CHR ''0''), toy_row CHR ''2'' name (digest_hex 1)], ig_sessions = [],
     ig_files = (\<lambda>p. None)(CatalogFile ''a.raw'' := Some ''a'', CatalogFile name := Some ''b''), ig_dirs = []\<rparr>"

lemma toy_ids: "hex_id CHR ''1'' \<noteq> hex_id CHR ''2''" by code_simp

lemma two_images_inv: "name \<noteq> [] \<Longrightarrow> name \<noteq> ''a.raw'' \<Longrightarrow> image_inv two_digest (two_images name, [])"
  using toy_ids toy_one
  by (auto simp: image_inv_def catalog_keys_def keyed_def requests_ok_def exclusive_def files_ok_def file_ok_def bytes_match_def
      two_images_def toy_row_def two_digest_def toy_zero)

lemma five_steps: "(g ^^ 5) x = g (g (g (g (g x))))"
  by (simp add: numeral_eq_Suc)

text \<open>A deletion that nothing interleaves with.\<close>

lemma deleted_alone:
  assumes "image_inv digest (st, [])" "no_legacy_clash st i"
  shows "(requests_step digest)\<^sup>*\<^sup>* ((st, []), []) ((snd (delete_image_file fl referenced i st), []),
    [fst (((\<lambda>(d, s). delete_step fl referenced d s) ^^ 5) (DelStart i, st))])"
proof -
  let ?g = "\<lambda>(d, s). delete_step fl referenced d s"
  have step: "requests_step digest ((snd x, []), [fst x]) ((snd (?g x), []), [fst (?g x)])" if "safe_delete (snd x, []) (fst x)" for x
    using requests_step.delete [of 0 "[fst x]" fl referenced "(snd x, [])" "fst (?g x)" "snd (?g x)" digest] that
    by (simp add: case_prod_beta)
  have later: "safe_delete (snd (?g x), []) (fst (?g x))" for x
    by (auto simp: safe_delete_def no_pending_def delete_step_def delete_image_def case_prod_beta split: del_pc.splits sum.splits)
  have many: "safe_delete (snd x, []) (fst x) \<Longrightarrow> (requests_step digest)\<^sup>*\<^sup>* ((snd x, []), [fst x]) ((snd ((?g ^^ n) x), []), [fst ((?g ^^ n) x)])" for n x
  proof (induction n arbitrary: x)
    case (Suc n)
    have "(requests_step digest)\<^sup>*\<^sup>* ((snd (?g x), []), [fst (?g x)]) ((snd ((?g ^^ n) (?g x)), []), [fst ((?g ^^ n) (?g x))])"
      by (rule Suc.IH [OF later])
    with step [OF Suc.prems] show ?case
      by (simp add: funpow_Suc_right del: funpow.simps)
  qed simp
  have "snd (delete_image_file fl referenced i st) = snd ((?g ^^ 5) (DelStart i, st))"
    by (simp add: delete_image_file_def case_prod_beta Let_def)
  moreover have "safe_delete (st, []) (DelStart i)" using assms(2) by (simp add: safe_delete_def)
  moreover have "requests_step digest ((st, []), []) ((st, []), [DelStart i])"
    using requests_step.begin_delete [of digest "(st, [])" "[]" i] by simp
  ultimately show ?thesis
    using many [of "(DelStart i, st)" 5] by (simp add: converse_rtranclp_into_rtranclp)
qed

lemmas deletion_defs = delete_image_file_def five_steps delete_step_def delete_image_def get_image_def sel_row_def try_sql_def remove_file_def
  set_file_def final_path_def


definition one_session :: image_store where
  "one_session = no_images\<lparr>ig_sessions := [toy_session CHR ''5'' ''x.raw'']\<rparr>"

lemma one_finalize_per_session_witness:
  "\<exists>e. write_chunk_begin None (hex_id CHR ''5'') 1 [] (snd (finalize_begin no_faults (hex_id CHR ''5'') one_session)) = Inl e"
proof -
  let ?b = "finalize_begin no_faults (hex_id CHR ''5'') one_session"
  have "keyed us_id (ig_sessions one_session)" by (simp add: keyed_def one_session_def)
  moreover have "any_step two_digest ((one_session, []), []) ((snd ?b, [] @ [fst ?b]), [])"
    by (rule any_step.any_request [OF image_step.begin_finalize]) simp
  moreover have "pc_session (fst ?b) = Some (hex_id CHR ''5'')" by code_simp
  ultimately show ?thesis
    using one_finalize_per_session [OF r_into_rtranclp [of "any_step two_digest"],
        of one_session "snd ?b" "[fst ?b]" "[]" 0 "hex_id CHR ''5''"] by simp
qed

definition toy_args :: finalize_input where
  "toy_args =
    \<lparr>fi_name = ''../x.raw'', fi_version = [], fi_family = [], fi_arch = [], fi_notes = [], fi_format = ''raw'', fi_size = 1,
     fi_virtual = 0, fi_sha = toy_sha CHR ''1'', fi_by = ''root'', fi_meta = [], fi_session = hex_id CHR ''6''\<rparr>"

lemma image_names_stay_inside_witness:
  "plain_name (ir_filename (toy_row CHR ''7'' ''x.raw'' (toy_sha CHR ''1'')))"
proof -
  have "plain_format (fi_format toy_args)" by code_simp
  moreover have "case finalize_image no_faults 0 (Inr (hex_id CHR ''7'')) toy_args no_images of
      (Inr r, st) \<Rightarrow> ir_filename r = ''x.raw'' | _ \<Rightarrow> False"
    by code_simp
  ultimately show ?thesis
    using image_names_stay_inside [of no_faults 0 "Inr (hex_id CHR ''7'')" toy_args no_images]
    by (auto simp: toy_row_def split: prod.splits sum.splits)
qed

text \<open>
  The three guards are needed. An image whose upload was named like the former content-addressed file
  of another image loses its file when that other image is deleted. And when an image is deleted just
  before its file is moved, and another upload of the same name is finished meanwhile, the late move
  puts the bytes of the deleted image under the new row. And when a deletion has taken the row out but
  not yet the file, a new upload of the same name that is finished in between loses its file.
\<close>

theorem deletion_takes_other_file:
  "let name = legacy_name (toy_sha CHR ''0'') ''raw''; s = snd (delete_image_file no_faults (\<lambda>i. False) (hex_id CHR ''1'') (two_images name)) in
   image_inv two_digest (two_images name, []) \<and> toy_row CHR ''2'' name (digest_hex 1) \<in> set (ig_images s)
   \<and> ig_files s (CatalogFile name) = None"
proof -
  define name where "name = legacy_name (toy_sha CHR ''0'') ''raw''"
  have "name \<noteq> []" "name \<noteq> ''a.raw''" unfolding name_def by code_simp+
  then have "image_inv two_digest (two_images name, [])" by (rule two_images_inv)
  moreover have "toy_row CHR ''2'' name (digest_hex 1) \<in> set (ig_images (snd (delete_image_file no_faults (\<lambda>i. False) (hex_id CHR ''1'') (two_images name))))
    \<and> ig_files (snd (delete_image_file no_faults (\<lambda>i. False) (hex_id CHR ''1'') (two_images name))) (CatalogFile name) = None"
    using toy_ids
    by (simp add: deletion_defs two_images_def toy_row_def Let_def name_def)
  ultimately show ?thesis by (simp add: Let_def name_def)
qed

definition race_store :: image_store where
  "race_store =
    \<lparr>ig_images = [toy_row CHR ''1'' ''x.raw'' (toy_sha CHR ''0'')], ig_sessions = [],
     ig_files = (\<lambda>p. None)(StageFile (hex_id CHR ''5'') := Some ''a'', StageFile (hex_id CHR ''6'') := Some ''b''), ig_dirs = []\<rparr>"

theorem late_move_replaces_file:
  "let s1 = snd (delete_image_file no_faults (\<lambda>i. False) (hex_id CHR ''1'') race_store);
       r2 = finalize_step two_digest (toy_env CHR ''7'') (FinStaged (toy_session CHR ''6'' ''x.raw'') toy_args) s1;
       r3 = finalize_step two_digest (toy_env CHR ''7'') (fst r2) (snd r2);
       r4 = finalize_step two_digest (toy_env CHR ''8'')
              (FinStored (toy_session CHR ''5'' ''x.raw'') (toy_row CHR ''1'' ''x.raw'' (toy_sha CHR ''0''))) (snd r3) in
   map (\<lambda>r. (ir_filename r, ir_sha r)) (ig_images (snd r4)) = [(''x.raw'', toy_sha CHR ''1'')]
   \<and> ig_files (snd r3) (CatalogFile ''x.raw'') = Some ''b'' \<and> ig_files (snd r4) (CatalogFile ''x.raw'') = Some ''a''"
proof -
  have sha: "sha256_match (toy_sha CHR ''1'')" "toy_sha CHR ''0'' \<noteq> toy_sha CHR ''1''" by code_simp+
  have name: "derived_name ''../x.raw'' ''raw'' = (''x.raw'', ''.raw'')" by code_simp
  have ids: "hex_id CHR ''6'' \<noteq> []" "hex_id CHR ''5'' \<noteq> hex_id CHR ''6''" by (simp_all add: hex_id_def replicate_eq_replicate)
  define s1 where "s1 = snd (delete_image_file no_faults (\<lambda>i. False) (hex_id CHR ''1'') race_store)"
  have s1: "ig_images s1 = []" "ig_sessions s1 = []" "ig_files s1 (StageFile (hex_id CHR ''5'')) = Some ''a''"
    "ig_files s1 (StageFile (hex_id CHR ''6'')) = Some ''b''"
    by (simp_all add: s1_def deletion_defs race_store_def toy_row_def Let_def del_where_def ids)
  show ?thesis
    unfolding s1_def [symmetric]
    by (simp add: ids Let_def finalize_step_def finalize_image_def toy_args_def toy_env_def unique_filename_def name s1 sha sel_row_def
        insert_image_def sql_insert_image_def ins_row_def set_file_def toy_session_def toy_row_def)
qed

definition named_deletion :: del_pc where
  "named_deletion = DelNamed (toy_row CHR ''1'' ''x.raw'' (toy_sha CHR ''0'')) (CatalogFile ''x.raw'')"

theorem late_removal_takes_new_file:
  "let step = delete_step no_faults (\<lambda>i. False);
       s0 = race_store\<lparr>ig_files := (ig_files race_store)(CatalogFile ''x.raw'' := Some ''a'')\<rparr>;
       d1 = step (DelStart (hex_id CHR ''1'')) s0; d2 = step (fst d1) (snd d1); d3 = step (fst d2) (snd d2);
       r1 = finalize_step two_digest (toy_env CHR ''7'') (FinStaged (toy_session CHR ''6'' ''x.raw'') toy_args) (snd d3);
       r2 = finalize_step two_digest (toy_env CHR ''7'') (fst r1) (snd r1);
       d4 = step (fst d3) (snd r2); d5 = step (fst d4) (snd d4) in
   fst d3 = named_deletion
   \<and> ig_files (snd r2) (CatalogFile ''x.raw'') = Some ''b''
   \<and> map (\<lambda>r. (ir_filename r, ir_sha r)) (ig_images (snd d5)) = [(''x.raw'', toy_sha CHR ''1'')]
   \<and> ig_files (snd d5) (CatalogFile ''x.raw'') = None"
proof -
  have sha: "sha256_match (toy_sha CHR ''1'')" "toy_sha CHR ''0'' \<noteq> toy_sha CHR ''1''" by code_simp+
  have name: "derived_name ''../x.raw'' ''raw'' = (''x.raw'', ''.raw'')" "''x.raw'' \<noteq> legacy_name (toy_sha CHR ''0'') ''raw''"
    by code_simp+
  have ids: "hex_id CHR ''6'' \<noteq> []" "hex_id CHR ''5'' \<noteq> hex_id CHR ''6''" by (simp_all add: hex_id_def replicate_eq_replicate)
  show ?thesis
    by (simp add: Let_def delete_step_def delete_image_def get_image_def sel_row_def try_sql_def remove_file_def final_path_def named_deletion_def
        race_store_def ids finalize_step_def finalize_image_def toy_args_def toy_env_def unique_filename_def name sha
        insert_image_def sql_insert_image_def ins_row_def set_file_def toy_session_def toy_row_def del_where_def)
qed

end
