(* ===== verification/Inst_World.thy ===== *)
theory Inst_World
  imports Go_Text "HOL-Library.State_Monad" "HOL-Library.AList"
begin

text \<open>
  The outside world of the installer, \<open>internal/installer/interfaces.go\<close>. All effects of the agent go
  through the interfaces \<open>Exec\<close>, \<open>FS\<close> and \<open>Reporter\<close>; here they are state transformers over \<open>iworld\<close>:
  the file tree, the commands run so far, the calls made to the controller and a count of file
  operations. \<open>realdeps.go\<close> implements \<open>FS\<close> by the functions of the package \<open>os\<close>; the operations
  below are those, with their errors.

  What a command prints, whether it fails and what it does to the tree is the parameter \<open>ie_exec\<close>, an
  arbitrary function of the world and the argument vector. \<open>ie_fault\<close> and \<open>ie_report\<close> are the failures
  of file operations and of calls to the controller, by their number. A path is the list of its
  components, after \<open>filepath.Clean\<close>. A link is followed where it is the last component of a path;
  directories that are links are outside the model, and so are owners and the umask.
\<close>

named_theorems io_rel \<open>rules that carry a relation of worlds through a program\<close>

subsection \<open>Paths\<close>

type_synonym path = "string list"

fun clean_comps :: "path \<Rightarrow> string list \<Rightarrow> path" where
  "clean_comps p [] = p"
| "clean_comps p (c # cs) =
    (if c = [] \<or> c = ''.'' then clean_comps p cs
     else if c = ''..'' then clean_comps (butlast p) cs
     else clean_comps (p @ [c]) cs)"

text \<open>\<open>filepath.Join\<close> of an absolute root and further elements.\<close>

definition abs_path :: "string \<Rightarrow> path" where
  "abs_path s = clean_comps [] (split_on CHR ''/'' s)"

definition path_join :: "path \<Rightarrow> string list \<Rightarrow> path" where
  "path_join p es = clean_comps p (concat (map (split_on CHR ''/'') es))"

definition show_path :: "path \<Rightarrow> string" where
  "show_path p = (if p = [] then ''/'' else concat (map (\<lambda>c. CHR ''/'' # c) p))"

definition plain_name :: "string \<Rightarrow> bool" where
  "plain_name c \<longleftrightarrow> c \<noteq> [] \<and> c \<noteq> ''.'' \<and> c \<noteq> ''..'' \<and> CHR ''/'' \<notin> set c"

definition under :: "path \<Rightarrow> path \<Rightarrow> bool" where
  "under r p \<longleftrightarrow> take (length r) p = r"

lemma under_refl [simp]: "under r r"
  by (simp add: under_def)

lemma under_append [simp]: "under r (r @ p)"
  by (simp add: under_def)

lemma underE:
  assumes "under r p"
  obtains q where "p = r @ q"
  using assms by (metis append_take_drop_id under_def)

lemma clean_comps_plain: "\<forall>c \<in> set cs. plain_name c \<Longrightarrow> clean_comps p cs = p @ cs"
  by (induction p cs rule: clean_comps.induct) (auto simp: plain_name_def)

lemma plain_split: "plain_name c \<Longrightarrow> split_on CHR ''/'' c = [c]"
  by (simp add: plain_name_def split_on_none)

lemma concat_plain_split: "\<forall>c \<in> set es. plain_name c \<Longrightarrow> concat (map (split_on CHR ''/'') es) = es"
  by (induction es) (auto simp: plain_split)

lemma path_join_plain: "\<forall>c \<in> set es. plain_name c \<Longrightarrow> path_join p es = p @ es"
  by (simp add: path_join_def concat_plain_split clean_comps_plain)

lemma under_path_join: "\<forall>c \<in> set es. plain_name c \<Longrightarrow> under r p \<Longrightarrow> under r (path_join p es)"
  by (auto simp: path_join_plain elim!: underE)

lemma path_join_Cons:
  "plain_name e \<Longrightarrow> path_join p (e # es) = path_join (p @ [e]) es"
  by (auto simp: path_join_def plain_split plain_name_def)

subsection \<open>The file tree\<close>

text \<open>A file with its bytes and mode, a directory, a symbolic link with its target.\<close>

datatype node = FileNode (node_data: string) (node_mode: nat) | DirNode | LinkNode (link_to: string)

type_synonym tree = "(path \<times> node) list"

definition node_at :: "tree \<Rightarrow> path \<Rightarrow> node option" where
  "node_at t p = (if p = [] then Some DirNode else map_of t p)"

definition set_node :: "path \<Rightarrow> node \<Rightarrow> tree \<Rightarrow> tree" where
  "set_node p n t = AList.update p n t"

definition drop_node :: "path \<Rightarrow> tree \<Rightarrow> tree" where
  "drop_node p t = AList.delete p t"

lemma node_at_set: "p \<noteq> [] \<Longrightarrow> node_at (set_node p n t) q = (if q = p then Some n else node_at t q)"
  by (auto simp: node_at_def set_node_def update_conv')

lemma node_at_drop: "p \<noteq> [] \<Longrightarrow> node_at (drop_node p t) q = (if q = p then None else node_at t q)"
  by (auto simp: node_at_def drop_node_def delete_conv')

text \<open>
  Where a path leads: links are followed as in \<open>ELOOP\<close>'s limit of forty. A relative target starts at
  the directory of the link.
\<close>

definition link_path :: "path \<Rightarrow> string \<Rightarrow> path" where
  "link_path p tgt = (if starts_with ''/'' tgt then abs_path tgt else path_join (butlast p) [tgt])"

fun follow :: "nat \<Rightarrow> tree \<Rightarrow> path \<Rightarrow> path option" where
  "follow 0 t p = None"
| "follow (Suc k) t p =
    (case node_at t p of Some (LinkNode tgt) \<Rightarrow> follow k t (link_path p tgt) | _ \<Rightarrow> Some p)"

definition resolve :: "tree \<Rightarrow> path \<Rightarrow> path option" where
  "resolve t p = follow 41 t p"

lemma resolve_plain: "\<forall>tgt. node_at t p \<noteq> Some (LinkNode tgt) \<Longrightarrow> resolve t p = Some p"
  by (auto simp: resolve_def numeral_eq_Suc split: option.splits node.splits)

definition is_dir :: "tree \<Rightarrow> path \<Rightarrow> bool" where
  "is_dir t p \<longleftrightarrow> node_at t p = Some DirNode"

definition file_text :: "tree \<Rightarrow> path \<Rightarrow> string option" where
  "file_text t p =
    (case resolve t p of None \<Rightarrow> None
     | Some q \<Rightarrow> (case node_at t q of Some (FileNode d m) \<Rightarrow> Some d | _ \<Rightarrow> None))"

subsection \<open>The world and its operations\<close>

datatype report_call =
    StageCall string
  | LogCall string string
  | SucceedCall
  | FailCall string

record iworld =
  iw_tree :: tree
  iw_cmds :: "(string list \<times> bool) list"
  iw_calls :: "report_call list"
  iw_ops :: nat

record inst_env =
  ie_exec :: "iworld \<Rightarrow> string list \<Rightarrow> string \<times> string option \<times> tree"
  ie_fault :: "nat \<Rightarrow> string option"
  ie_report :: "nat \<Rightarrow> string option"

type_synonym 'a io = "(iworld, 'a) state"

text \<open>\<open>Exec.Run\<close>: the combined output and the error. The commands are recorded with their success.\<close>

definition run_cmd :: "inst_env \<Rightarrow> string list \<Rightarrow> (string \<times> string option) io" where
  "run_cmd env argv = State (\<lambda>w.
    (case ie_exec env w argv of (out, err, t) \<Rightarrow>
       ((out, err), w\<lparr>iw_tree := t, iw_cmds := iw_cmds w @ [(argv, err = None)]\<rparr>)))"

text \<open>A file operation: its fault, then its effect on the tree.\<close>

definition fs_op :: "inst_env \<Rightarrow> (tree \<Rightarrow> (string, 'a \<times> tree) result) \<Rightarrow> (string, 'a) result io" where
  "fs_op env f = State (\<lambda>w.
    (let w1 = w\<lparr>iw_ops := Suc (iw_ops w)\<rparr> in
     case ie_fault env (iw_ops w) of
       Some msg \<Rightarrow> (Inl msg, w1)
     | None \<Rightarrow> (case f (iw_tree w) of Inl e \<Rightarrow> (Inl e, w1) | Inr (x, t) \<Rightarrow> (Inr x, w1\<lparr>iw_tree := t\<rparr>))))"

definition os_read :: "path \<Rightarrow> tree \<Rightarrow> (string, string \<times> tree) result" where
  "os_read p t =
    (case file_text t p of
       Some d \<Rightarrow> Inr (d, t)
     | None \<Rightarrow> Inl (''open '' @ show_path p @ '': no such file or directory''))"

definition os_write :: "path \<Rightarrow> string \<Rightarrow> nat \<Rightarrow> tree \<Rightarrow> (string, unit \<times> tree) result" where
  "os_write p d mode t =
    (case resolve t p of
       None \<Rightarrow> Inl (''open '' @ show_path p @ '': too many levels of symbolic links'')
     | Some q \<Rightarrow>
       (if \<not> is_dir t (butlast q) then Inl (''open '' @ show_path p @ '': no such file or directory'')
        else case node_at t q of
          Some DirNode \<Rightarrow> Inl (''open '' @ show_path p @ '': is a directory'')
        | Some (FileNode d0 m0) \<Rightarrow> Inr ((), set_node q (FileNode d m0) t)
        | _ \<Rightarrow> Inr ((), set_node q (FileNode d mode) t)))"

text \<open>\<open>MkdirAll\<close> makes every missing prefix.\<close>

definition prefixes_of :: "path \<Rightarrow> path list" where
  "prefixes_of p = map (\<lambda>k. take k p) [1..<Suc (length p)]"

definition os_mkdir_all :: "path \<Rightarrow> tree \<Rightarrow> (string, unit \<times> tree) result" where
  "os_mkdir_all p t =
    (if list_ex (\<lambda>q. node_at t q \<noteq> None \<and> \<not> is_dir t q) (prefixes_of p)
     then Inl (''mkdir '' @ show_path p @ '': not a directory'')
     else Inr ((), fold (\<lambda>q u. if node_at u q = None then set_node q DirNode u else u) (prefixes_of p) t))"

definition os_symlink :: "string \<Rightarrow> path \<Rightarrow> tree \<Rightarrow> (string, unit \<times> tree) result" where
  "os_symlink tgt p t =
    (if node_at t p \<noteq> None then Inl (''symlink '' @ tgt @ '' '' @ show_path p @ '': file exists'')
     else if \<not> is_dir t (butlast p)
     then Inl (''symlink '' @ tgt @ '' '' @ show_path p @ '': no such file or directory'')
     else Inr ((), set_node p (LinkNode tgt) t))"

definition os_remove :: "path \<Rightarrow> tree \<Rightarrow> (string, unit \<times> tree) result" where
  "os_remove p t =
    (if p = [] \<or> node_at t p = None then Inl (''remove '' @ show_path p @ '': no such file or directory'')
     else if is_dir t p \<and> list_ex (\<lambda>(q, n). q \<noteq> p \<and> under p q) t
     then Inl (''remove '' @ show_path p @ '': directory not empty'')
     else Inr ((), drop_node p t))"

text \<open>
  The methods of \<open>FS\<close>. \<open>Exists\<close> is \<open>os.Stat\<close> without an error, so a link counts for its target.
\<close>

definition fs_read :: "inst_env \<Rightarrow> path \<Rightarrow> (string, string) result io" where
  "fs_read env p = fs_op env (os_read p)"

definition fs_write :: "inst_env \<Rightarrow> path \<Rightarrow> string \<Rightarrow> nat \<Rightarrow> (string, unit) result io" where
  "fs_write env p d mode = fs_op env (os_write p d mode)"

definition fs_mkdir_all :: "inst_env \<Rightarrow> path \<Rightarrow> (string, unit) result io" where
  "fs_mkdir_all env p = fs_op env (os_mkdir_all p)"

definition fs_symlink :: "inst_env \<Rightarrow> string \<Rightarrow> path \<Rightarrow> (string, unit) result io" where
  "fs_symlink env tgt p = fs_op env (os_symlink tgt p)"

definition fs_remove :: "inst_env \<Rightarrow> path \<Rightarrow> (string, unit) result io" where
  "fs_remove env p = fs_op env (os_remove p)"

definition stat_node :: "path \<Rightarrow> tree \<Rightarrow> (string, node \<times> tree) result" where
  "stat_node p t =
    (case Option.bind (resolve t p) (node_at t) of
       Some n \<Rightarrow> Inr (n, t)
     | None \<Rightarrow> Inl (''stat '' @ show_path p @ '': no such file or directory''))"

definition fs_stat :: "inst_env \<Rightarrow> path \<Rightarrow> (string, node) result io" where
  "fs_stat env p = fs_op env (stat_node p)"

definition fs_exists :: "inst_env \<Rightarrow> path \<Rightarrow> bool io" where
  "fs_exists env p = do { r \<leftarrow> fs_stat env p; State_Monad.return (\<not> isl r) }"

text \<open>\<open>filepath.Glob\<close> with a pattern \<open>pre*suf\<close> in the last component: the entries of the directory.\<close>

definition glob_names :: "path \<Rightarrow> string \<Rightarrow> string \<Rightarrow> tree \<Rightarrow> path list" where
  "glob_names dir pre suf t =
    filter (\<lambda>p. p \<noteq> [] \<and> butlast p = dir \<and> length pre + length suf \<le> length (last p)
              \<and> starts_with pre (last p) \<and> starts_with (rev suf) (rev (last p))) (remdups (map fst t))"

text \<open>\<open>Reporter\<close>: the call is made, and may fail.\<close>

definition report :: "inst_env \<Rightarrow> report_call \<Rightarrow> string option io" where
  "report env c = State (\<lambda>w.
    (ie_report env (length (iw_calls w)), w\<lparr>iw_calls := iw_calls w @ [c]\<rparr>))"

subsection \<open>Programs\<close>

text \<open>
  \<open>x, err := m; if err != nil { return fmt.Errorf("pre: %w", err) }; ...\<close> is
  \<open>try_io pre m (\<lambda>x. ...)\<close>, and \<open>attempt m\<close> ignores the outcome.
\<close>

definition try_io :: "string \<Rightarrow> (string, 'a) result io \<Rightarrow> ('a \<Rightarrow> (string, 'b) result io) \<Rightarrow> (string, 'b) result io" where
  "try_io pre m k =
    do { r \<leftarrow> m; case r of Inl e \<Rightarrow> State_Monad.return (Inl (pre @ e)) | Inr x \<Rightarrow> k x }"

definition attempt :: "'a io \<Rightarrow> unit io" where
  "attempt m = do { _ \<leftarrow> m; State_Monad.return () }"

definition cmd_result :: "string \<times> string option \<Rightarrow> (string, string) result" where
  "cmd_result r = (case r of (out, Some e) \<Rightarrow> Inl e | (out, None) \<Rightarrow> Inr out)"

definition try_cmd :: "inst_env \<Rightarrow> string list \<Rightarrow> (string, string) result io" where
  "try_cmd env argv = do { r \<leftarrow> run_cmd env argv; State_Monad.return (cmd_result r) }"

fun each_io :: "('a \<Rightarrow> unit io) \<Rightarrow> 'a list \<Rightarrow> unit io" where
  "each_io f [] = State_Monad.return ()"
| "each_io f (x # xs) = do { _ \<leftarrow> f x; each_io f xs }"

definition when_io :: "bool \<Rightarrow> unit io \<Rightarrow> unit io" where
  "when_io b m = (if b then m else State_Monad.return ())"

text \<open>\<open>if !FS.Exists(dir) { _ = FS.MkdirAll(dir) }\<close>, the opening of most writers.\<close>

definition ensure_dir :: "inst_env \<Rightarrow> path \<Rightarrow> unit io" where
  "ensure_dir env p = do { b \<leftarrow> fs_exists env p; when_io (\<not> b) (attempt (fs_mkdir_all env p)) }"

subsection \<open>Relations between the worlds before and after\<close>

text \<open>
  \<open>state_io_rel R m\<close> of the library says that every run of \<open>m\<close> leads from a world to an \<open>R\<close>-related one.
  For a reflexive and transitive \<open>R\<close> it follows from the operations \<open>m\<close> is made of.
\<close>

locale world_order =
  fixes R :: "iworld \<Rightarrow> iworld \<Rightarrow> bool"
  assumes R_refl: "R w w"
    and R_trans: "R u v \<Longrightarrow> R v w \<Longrightarrow> R u w"
begin

lemma rel_return: "state_io_rel R (State_Monad.return x)"
  by (auto simp: R_refl)

lemma rel_bind:
  assumes "state_io_rel R m" "\<And>x. state_io_rel R (k x)"
  shows "state_io_rel R (m \<bind> k)"
  using assms by (fastforce simp: state_io_rel_def split: prod.splits intro: R_trans)

lemma rel_attempt: "state_io_rel R m \<Longrightarrow> state_io_rel R (attempt m)"
  unfolding attempt_def by (intro rel_bind rel_return)

lemma rel_when: "(b \<Longrightarrow> state_io_rel R m) \<Longrightarrow> state_io_rel R (when_io b m)"
  by (simp add: when_io_def rel_return)

lemma rel_try:
  assumes "state_io_rel R m" "\<And>x. state_io_rel R (k x)"
  shows "state_io_rel R (try_io pre m k)"
  unfolding try_io_def by (intro rel_bind assms) (auto intro!: rel_return assms split: sum.split)

lemma rel_each: "(\<And>x. x \<in> set xs \<Longrightarrow> state_io_rel R (f x)) \<Longrightarrow> state_io_rel R (each_io f xs)"
  by (induction xs) (auto intro!: rel_bind rel_return)

lemma rel_if: "(b \<Longrightarrow> state_io_rel R m) \<Longrightarrow> (\<not> b \<Longrightarrow> state_io_rel R n) \<Longrightarrow> state_io_rel R (if b then m else n)"
  by simp

lemma rel_try_cmd: "state_io_rel R (run_cmd env argv) \<Longrightarrow> state_io_rel R (try_cmd env argv)"
  unfolding try_cmd_def by (intro rel_bind rel_return)

lemma rel_exists: "state_io_rel R (fs_stat env p) \<Longrightarrow> state_io_rel R (fs_exists env p)"
  unfolding fs_exists_def by (intro rel_bind rel_return)

lemma rel_ensure:
  "state_io_rel R (fs_stat env p) \<Longrightarrow> state_io_rel R (fs_mkdir_all env p) \<Longrightarrow> state_io_rel R (ensure_dir env p)"
  unfolding ensure_dir_def by (intro rel_bind rel_exists rel_when rel_attempt)

lemmas rel_intros = rel_return rel_bind rel_attempt rel_when rel_try rel_each rel_if rel_try_cmd rel_exists rel_ensure

end

end
