(* ===== verification/Net_Render.thy ===== *)
theory Net_Render
  imports Inst_World Agent_Api
begin

text \<open>
  The network files of an installed system, \<open>internal/installer/seed.go\<close>: what the installer writes for
  netplan, NetworkManager, the sysconfig scripts of RHEL, \<open>ifupdown\<close> and wicked. The functions are
  pure; \<open>Seed\<close> writes what they return. A line-oriented file is its list of lines, and a function that
  writes several files returns them with their names, in the order of the code.
\<close>

subsection \<open>Text\<close>

abbreviation nl :: char where
  "nl \<equiv> CHR 0x0A"

definition unlines :: "string list \<Rightarrow> string" where
  "unlines ls = concat (map (\<lambda>l. l @ [nl]) ls)"

text \<open>\<open>strings.Join(lines, "\n") + "\n"\<close>.\<close>

definition lines_text :: "string list \<Rightarrow> string" where
  "lines_text ls = join_with [nl] ls @ [nl]"

definition to_upper_ascii :: "string \<Rightarrow> string" where
  "to_upper_ascii s = map (\<lambda>c. if is_lower c then char_of (byte c - 32) else c) s"

definition show_int :: "int \<Rightarrow> string" where
  "show_int n = (if n < 0 then CHR ''-'' # digits_nat (nat (- n)) else digits_nat (nat n))"

definition hex_digit :: "nat \<Rightarrow> char" where
  "hex_digit n = (if n < 10 then char_of (48 + n) else char_of (87 + n))"

text \<open>\<open>%q\<close>: printable bytes stand for themselves, and bytes above 127 are kept.\<close>

definition quote_byte :: "char \<Rightarrow> string" where
  "quote_byte c =
    (if c = CHR 0x22 \<or> c = CHR 0x5C then [CHR 0x5C, c]
     else if c = CHR 0x07 then CHR 0x5C # ''a''
     else if c = CHR 0x08 then CHR 0x5C # ''b''
     else if c = CHR 0x0C then CHR 0x5C # ''f''
     else if c = CHR 0x0A then CHR 0x5C # ''n''
     else if c = CHR 0x0D then CHR 0x5C # ''r''
     else if c = CHR 0x09 then CHR 0x5C # ''t''
     else if c = CHR 0x0B then CHR 0x5C # ''v''
     else if byte c < 32 \<or> byte c = 127
     then CHR 0x5C # CHR ''x'' # [hex_digit (byte c div 16), hex_digit (byte c mod 16)]
     else [c])"

definition go_quote :: "string \<Rightarrow> string" where
  "go_quote s = CHR 0x22 # concat (map quote_byte s) @ [CHR 0x22]"

text \<open>\<open>net.ParseMAC\<close> succeeds: 6, 8 or 20 bytes in one of its three notations.\<close>

definition is_valid_mac :: "string \<Rightarrow> bool" where
  "is_valid_mac s \<longleftrightarrow>
    14 \<le> length s \<and>
    (if s ! 2 = CHR '':'' \<or> s ! 2 = CHR ''-'' then
       (let gs = split_on (s ! 2) s in
        length gs \<in> {6, 8, 20} \<and> list_all (\<lambda>g. length g = 2 \<and> list_all is_hex g) gs)
     else s ! 4 = CHR ''.'' \<and>
       (let gs = split_on CHR ''.'' s in
        2 * length gs \<in> {6, 8, 20} \<and> list_all (\<lambda>g. length g = 4 \<and> list_all is_hex g) gs))"

definition mac_prefix :: string where
  "mac_prefix = ''by-mac:''"

definition name_prefix :: string where
  "name_prefix = ''by-name:''"

subsection \<open>The network interfaces of the live system\<close>

record nic_info =
  ni_name :: string
  ni_mac :: string
  ni_driver :: string
  ni_link :: bool

definition is_virtual :: "nic_info \<Rightarrow> bool" where
  "is_virtual n \<longleftrightarrow>
    ni_driver n \<in> {''cdc_ether'', ''cdc_ncm'', ''rndis_host'', ''r8152'', ''ax88179_178a'',
                    ''ax88772b'', ''smsc75xx'', ''smsc95xx'', ''asix'', ''ipheth'', ''sr9700''}
    \<or> ni_name n \<in> {''idrac'', ''ilo'', ''bmc''}"

text \<open>The first element with a property, else the first one.\<close>

definition find_or_hd :: "('a \<Rightarrow> bool) \<Rightarrow> 'a list \<Rightarrow> 'a option" where
  "find_or_hd p xs = (case find p xs of Some x \<Rightarrow> Some x | None \<Rightarrow> (case xs of [] \<Rightarrow> None | x # _ \<Rightarrow> Some x))"

definition pick_physical_nic :: "nic_info list \<Rightarrow> nic_info option" where
  "pick_physical_nic nics = find_or_hd ni_link (filter (\<lambda>n. \<not> is_virtual n \<and> ni_mac n \<noteq> []) nics)"

definition eth_name :: "nat \<Rightarrow> string" where
  "eth_name i = ''eth'' @ digits_nat i"

text \<open>The first interface of the list with a property, with its position.\<close>

definition nic_where :: "(nic_info \<Rightarrow> bool) \<Rightarrow> nic_info list \<Rightarrow> (nat \<times> nic_info) option" where
  "nic_where p nics = find (\<lambda>(i, n). p n) (enumerate 0 nics)"

definition named_mac :: "string \<Rightarrow> nic_info \<Rightarrow> bool" where
  "named_mac mac n \<longleftrightarrow> to_lower (ni_mac n) = mac \<and> ni_name n \<noteq> []"

definition named_fold :: "string \<Rightarrow> nic_info \<Rightarrow> bool" where
  "named_fold mac n \<longleftrightarrow> equal_fold (ni_mac n) mac \<and> ni_name n \<noteq> []"

definition resolve_nic_mac :: "nic_info list \<Rightarrow> string \<Rightarrow> string" where
  "resolve_nic_mac nics ifname =
    (case find (\<lambda>n. ni_name n = ifname \<and> ni_mac n \<noteq> []) nics of
       Some n \<Rightarrow> to_lower (ni_mac n) | None \<Rightarrow> [])"

definition lookup_slave_mac :: "string \<Rightarrow> nic_info list \<Rightarrow> string" where
  "lookup_slave_mac slave nics = (if is_valid_mac slave then to_lower slave else resolve_nic_mac nics slave)"

definition resolve_single_nic_key :: "string \<Rightarrow> nic_info list \<Rightarrow> bool \<Rightarrow> string" where
  "resolve_single_nic_key sel nics rhel7 =
    (let key = (\<lambda>r. case r of Some (i, n) \<Rightarrow> (if rhel7 then eth_name i else ni_name n) | None \<Rightarrow> ''eth0'') in
     if starts_with mac_prefix sel then key (nic_where (named_mac (to_lower (drop (length mac_prefix) sel))) nics)
     else if starts_with name_prefix sel then
       (let name = drop (length name_prefix) sel in
        if is_valid_mac name then key (nic_where (named_fold name) nics)
        else if name \<noteq> [] then name else ''eth0'')
     else ''eth0'')"

definition prefix_to_netmask :: "int \<Rightarrow> string" where
  "prefix_to_netmask n = (if n < 0 \<or> 32 < n then ''255.255.255.0'' else show_ip4 (cidr_mask (nat n)))"

definition or_else :: "string \<Rightarrow> string \<Rightarrow> string" where
  "or_else s d = (if s = [] then d else s)"

definition miimon_of :: "bond_config \<Rightarrow> int" where
  "miimon_of bo = (if bo_miimon bo = 0 then 100 else bo_miimon bo)"

definition lacp_rate_of :: "bond_config \<Rightarrow> string" where
  "lacp_rate_of bo = or_else (bo_lacp_rate bo) ''fast''"

definition xmit_policy_of :: "bond_config \<Rightarrow> string" where
  "xmit_policy_of bo = or_else (bo_xmit_policy bo) ''layer3+4''"

definition bond_vlan :: "network_config \<Rightarrow> string" where
  "bond_vlan nc = ''bond0.'' @ show_int (nc_vlan nc)"

subsection \<open>Netplan\<close>

definition write_ip :: "string \<Rightarrow> network_config \<Rightarrow> binding \<Rightarrow> string list" where
  "write_ip indent nc b =
    (if nc_method nc = ''dhcp'' then [indent @ ''dhcp4: true'']
     else [indent @ ''dhcp4: false'']
       @ (if bd_address b \<noteq> []
          then [indent @ ''addresses: ['' @ go_quote (bd_address b @ ''/'' @ show_int (nc_prefix_len nc)) @ '']'']
          else [])
       @ (if nc_gateway nc \<noteq> [] then [indent @ ''gateway4: '' @ go_quote (nc_gateway nc)] else [])
       @ (if nc_dns nc \<noteq> []
          then [indent @ ''nameservers:'',
                indent @ ''  addresses: ['' @ join_with '', '' (map go_quote (nc_dns nc)) @ '']'']
          else []))"

definition render_vlan :: "string \<Rightarrow> network_config \<Rightarrow> binding \<Rightarrow> string \<Rightarrow> string list" where
  "render_vlan indent nc b link =
    [''vlans:'',
     indent @ link @ ''.'' @ show_int (nc_vlan nc) @ '':'',
     indent @ ''  id: '' @ show_int (nc_vlan nc),
     indent @ ''  link: '' @ link]
    @ write_ip (indent @ ''  '') nc b"

definition netplan_ip :: "network_config \<Rightarrow> binding \<Rightarrow> string \<Rightarrow> string list" where
  "netplan_ip nc b dev = (if 0 < nc_vlan nc then render_vlan ''    '' nc b dev else write_ip ''    '' nc b)"

definition match_mac :: "string \<Rightarrow> string list" where
  "match_mac mac = [''    match:'', ''      macaddress: '' @ go_quote (to_lower mac)]"

definition match_name :: "string \<Rightarrow> string list" where
  "match_name name = [''    match:'', ''      name: '' @ go_quote name]"

definition single_match :: "string \<Rightarrow> nic_info list \<Rightarrow> string list" where
  "single_match sel nics =
    (if starts_with mac_prefix sel then match_mac (drop (length mac_prefix) sel)
     else if starts_with name_prefix sel then match_name (drop (length name_prefix) sel)
     else case pick_physical_nic nics of Some n \<Rightarrow> match_mac (ni_mac n) | None \<Rightarrow> match_name ''en*'')"

definition render_network_config_single ::
  "network_config \<Rightarrow> binding \<Rightarrow> nic_info list \<Rightarrow> bool \<Rightarrow> string list" where
  "render_network_config_single nc b nics rhel7 =
    (let key = resolve_single_nic_key (nc_nic_selector nc) nics rhel7 in
     [''version: 2'', ''ethernets:'', ''  '' @ key @ '':''] @ single_match (nc_nic_selector nc) nics @ netplan_ip nc b key)"

definition slave_key :: "nic_info list \<Rightarrow> bool \<Rightarrow> nat \<Rightarrow> string \<Rightarrow> string" where
  "slave_key nics rhel7 i slave =
    (let mac = lookup_slave_mac slave nics;
         key = (if is_valid_mac mac then
                  (if rhel7 then (case nic_where (\<lambda>n. equal_fold (ni_mac n) mac) nics of
                                    Some (j, n) \<Rightarrow> eth_name j | None \<Rightarrow> [])
                   else (case nic_where (named_fold mac) nics of Some (j, n) \<Rightarrow> ni_name n | None \<Rightarrow> []))
                else slave) in
     or_else key (eth_name i))"

definition slave_keys :: "nic_info list \<Rightarrow> bool \<Rightarrow> bond_config \<Rightarrow> string list" where
  "slave_keys nics rhel7 bo = map (\<lambda>(i, s). slave_key nics rhel7 i s) (enumerate 0 (bo_slaves bo))"

definition slave_stanza :: "nic_info list \<Rightarrow> bool \<Rightarrow> nat \<times> string \<Rightarrow> string list" where
  "slave_stanza nics rhel7 = (\<lambda>(i, slave).
    (let mac = lookup_slave_mac slave nics in
     (''  '' @ slave_key nics rhel7 i slave @ '':'')
     # (if is_valid_mac mac then match_mac mac else match_name slave)))"

definition first_index :: "string \<Rightarrow> string list \<Rightarrow> nat option" where
  "first_index x xs = map_option fst (find (\<lambda>(i, y). y = x) (enumerate 0 xs))"

definition netplan_bond_mode :: "string list \<Rightarrow> bond_config \<Rightarrow> string list" where
  "netplan_bond_mode keys bo =
    (if bo_mode bo = ''active-backup'' then
       (if bo_primary bo = [] then []
        else case first_index (bo_primary bo) (bo_slaves bo) of
          Some i \<Rightarrow> [''      primary: '' @ keys ! i] | None \<Rightarrow> [])
     else if bo_mode bo = ''802.3ad'' then
       [''      lacp-rate: '' @ lacp_rate_of bo, ''      transmit-hash-policy: '' @ xmit_policy_of bo]
     else [])"

definition render_network_config_bond ::
  "network_config \<Rightarrow> bond_config \<Rightarrow> binding \<Rightarrow> nic_info list \<Rightarrow> bool \<Rightarrow> string list" where
  "render_network_config_bond nc bo b nics rhel7 =
    (let keys = slave_keys nics rhel7 bo in
     [''version: 2'', ''ethernets:'']
     @ concat (map (slave_stanza nics rhel7) (enumerate 0 (bo_slaves bo)))
     @ [''bonds:'', ''  bond0:'', ''    interfaces: ['' @ join_with '', '' keys @ '']'', ''    parameters:'',
        ''      mode: '' @ bo_mode bo, ''      mii-monitor-interval: '' @ show_int (miimon_of bo)]
     @ netplan_bond_mode keys bo
     @ netplan_ip nc b ''bond0'')"

definition render_network_config :: "network_config \<Rightarrow> binding \<Rightarrow> nic_info list \<Rightarrow> bool \<Rightarrow> string" where
  "render_network_config nc b nics rhel7 =
    unlines (case nc_bond nc of
      Some bo \<Rightarrow> render_network_config_bond nc bo b nics rhel7
    | None \<Rightarrow> render_network_config_single nc b nics rhel7)"

definition indent_yaml :: "string \<Rightarrow> string" where
  "indent_yaml s = unlines (map (\<lambda>l. if l \<noteq> [] then ''  '' @ l else l) (split_on nl s))"

subsection \<open>ifupdown\<close>

definition eni_ip :: "network_config \<Rightarrow> binding \<Rightarrow> string list" where
  "eni_ip nc b =
    (if bd_address b \<noteq> [] then
       (''    address '' @ bd_address b)
       # (if 0 < nc_prefix_len nc then [''    netmask '' @ prefix_to_netmask (nc_prefix_len nc)] else [])
     else [])
    @ (if nc_gateway nc \<noteq> [] then [''    gateway '' @ nc_gateway nc] else [])
    @ (if nc_dns nc \<noteq> [] then [''    dns-nameservers '' @ join_with '' '' (nc_dns nc)] else [])"

definition eni_iface :: "network_config \<Rightarrow> binding \<Rightarrow> string \<Rightarrow> string list" where
  "eni_iface nc b dev =
    (if nc_method nc = ''dhcp'' then [''iface '' @ dev @ '' inet dhcp'']
     else (''iface '' @ dev @ '' inet static'') # eni_ip nc b)"

definition managed :: string where
  "managed = ''# Managed by metalkit installer''"

definition eni_head :: "string list" where
  "eni_head = [managed, ''source /etc/network/interfaces.d/*'', [], ''auto lo'', ''iface lo inet loopback'', []]"

definition selected_dev :: "string \<Rightarrow> nic_info list \<Rightarrow> string" where
  "selected_dev sel nics =
    (let dev = (\<lambda>r. case r of Some (i, n) \<Rightarrow> ni_name n | None \<Rightarrow> ''eth0'') in
     if starts_with mac_prefix sel then dev (nic_where (named_mac (to_lower (drop (length mac_prefix) sel))) nics)
     else if starts_with name_prefix sel then
       (let name = drop (length name_prefix) sel in
        if is_valid_mac name then dev (nic_where (named_fold name) nics)
        else or_else name ''eth0'')
     else case pick_physical_nic nics of Some n \<Rightarrow> ni_name n | None \<Rightarrow> ''eth0'')"

definition eni_interfaces :: "network_config \<Rightarrow> binding \<Rightarrow> nic_info list \<Rightarrow> string list" where
  "eni_interfaces nc b nics =
    (let dev = selected_dev (nc_nic_selector nc) nics in
     eni_head @ [''auto '' @ dev] @ eni_iface nc b dev)"

definition eni_slave_dev :: "nic_info list \<Rightarrow> string \<Rightarrow> string" where
  "eni_slave_dev nics slave =
    (if is_valid_mac slave
     then (case nic_where (named_fold slave) nics of Some (i, n) \<Rightarrow> ni_name n | None \<Rightarrow> slave)
     else slave)"

definition eni_slave :: "nic_info list \<Rightarrow> string \<Rightarrow> string list" where
  "eni_slave nics slave =
    (let dev = eni_slave_dev nics slave in
     [''auto '' @ dev, ''iface '' @ dev @ '' inet manual'', ''    bond-master bond0'', []])"

definition eni_bond_mode :: "bond_config \<Rightarrow> string list" where
  "eni_bond_mode bo =
    [''    bond-mode '' @ bo_mode bo, ''    bond-miimon '' @ show_int (miimon_of bo)]
    @ (if bo_mode bo = ''active-backup'' then
         (if bo_primary bo \<noteq> [] then [''    bond-primary '' @ bo_primary bo] else [])
       else if bo_mode bo = ''802.3ad'' then
         [''    bond-lacp-rate '' @ lacp_rate_of bo, ''    bond-xmit-hash-policy '' @ xmit_policy_of bo]
       else [])"

definition eni_interfaces_bond :: "network_config \<Rightarrow> bond_config \<Rightarrow> binding \<Rightarrow> nic_info list \<Rightarrow> string list" where
  "eni_interfaces_bond nc bo b nics =
    eni_head
    @ concat (map (eni_slave nics) (bo_slaves bo))
    @ [''auto bond0'']
    @ (if 0 < nc_vlan nc then [''iface bond0 inet manual''] else eni_iface nc b ''bond0'')
    @ eni_bond_mode bo
    @ (if 0 < nc_vlan nc
       then [[], ''auto '' @ bond_vlan nc] @ eni_iface nc b (bond_vlan nc) @ [''    vlan-raw-device bond0'']
       else [])"

subsection \<open>wicked\<close>

definition quoted :: "string \<Rightarrow> string \<Rightarrow> string" where
  "quoted key v = key @ ''='' @ [CHR 0x27] @ v @ [CHR 0x27]"

definition wicked_ip :: "network_config \<Rightarrow> binding \<Rightarrow> string list" where
  "wicked_ip nc b =
    (if bd_address b \<noteq> [] then [quoted ''IPADDR'' (bd_address b)] else [])
    @ (if 0 < nc_prefix_len nc then [quoted ''PREFIXLEN'' (show_int (nc_prefix_len nc))] else [])
    @ (if nc_gateway nc \<noteq> [] then [quoted ''GATEWAY'' (nc_gateway nc)] else [])"

text \<open>The device and the address of the interface a file is bound to, empty when unknown.\<close>

definition wicked_target :: "string \<Rightarrow> nic_info list \<Rightarrow> string \<times> string" where
  "wicked_target sel nics =
    (if starts_with mac_prefix sel then (selected_dev sel nics, to_lower (drop (length mac_prefix) sel))
     else if starts_with name_prefix sel then
       (let name = drop (length name_prefix) sel in
        (selected_dev sel nics, if is_valid_mac name then to_lower name else []))
     else case pick_physical_nic nics of
       Some n \<Rightarrow> (ni_name n, to_lower (ni_mac n)) | None \<Rightarrow> (''eth0'', []))"

definition wicked_ifcfg :: "network_config \<Rightarrow> binding \<Rightarrow> nic_info list \<Rightarrow> string \<times> string list" where
  "wicked_ifcfg nc b nics =
    (let (dev, hwaddr) = wicked_target (nc_nic_selector nc) nics in
     (''ifcfg-'' @ dev,
      [managed, quoted ''BOOTPROTO'' (if nc_method nc = ''dhcp'' then ''dhcp'' else ''static'')]
      @ (if nc_method nc \<noteq> ''dhcp''
         then wicked_ip nc b @ (if nc_dns nc \<noteq> [] then [quoted ''DNS'' (join_with '' '' (nc_dns nc))] else [])
         else [])
      @ (if hwaddr \<noteq> [] then [quoted ''LLADDR'' (to_upper_ascii hwaddr)] else [])
      @ [quoted ''STARTMODE'' ''auto'']))"

definition wicked_slave :: "nic_info list \<Rightarrow> nat \<times> string \<Rightarrow> string \<times> string list" where
  "wicked_slave nics = (\<lambda>(i, slave).
    (let dev = eni_slave_dev nics slave; hwaddr = (if is_valid_mac slave then to_lower slave else []) in
     (''ifcfg-'' @ dev,
      [managed, quoted ''BOOTPROTO'' ''none'']
      @ (if hwaddr \<noteq> [] then [quoted ''LLADDR'' (to_upper_ascii hwaddr)] else [])
      @ [quoted ''STARTMODE'' ''auto'', quoted ''BONDING_MASTER'' ''1'']
      @ (if i = 0 then [quoted ''BONDING_SLAVE_0'' dev] else []))))"

definition wicked_module_opts :: "bond_config \<Rightarrow> string" where
  "wicked_module_opts bo = ''mode='' @ bo_mode bo @ '' miimon='' @ show_int (miimon_of bo)"

definition wicked_master :: "network_config \<Rightarrow> bond_config \<Rightarrow> binding \<Rightarrow> string list" where
  "wicked_master nc bo b =
    [managed, quoted ''BOOTPROTO'' (if nc_method nc = ''dhcp'' \<and> nc_vlan nc = 0 then ''dhcp'' else ''none'')]
    @ (if nc_method nc \<noteq> ''dhcp'' \<and> nc_vlan nc = 0 then wicked_ip nc b else [])
    @ [quoted ''STARTMODE'' ''auto'', quoted ''BONDING_MODULE_OPTS'' (wicked_module_opts bo)]
    @ (if bo_mode bo = ''active-backup'' then
         (if bo_primary bo \<noteq> [] then [quoted ''BONDING_PRIMARY'' (bo_primary bo)] else [])
       else if bo_mode bo = ''802.3ad'' then
         [quoted ''BONDING_MODULE_OPTS'' (wicked_module_opts bo @ '' lacp_rate='' @ lacp_rate_of bo
                                           @ '' xmit_hash_policy='' @ xmit_policy_of bo)]
       else [])
    @ map (\<lambda>(i, s). quoted (''BONDING_SLAVE_'' @ digits_nat i) s) (enumerate 0 (bo_slaves bo))"

definition wicked_vlan :: "network_config \<Rightarrow> binding \<Rightarrow> string list" where
  "wicked_vlan nc b =
    [managed, quoted ''BOOTPROTO'' (if nc_method nc = ''dhcp'' then ''dhcp'' else ''static'')]
    @ (if nc_method nc \<noteq> ''dhcp'' then wicked_ip nc b else [])
    @ [quoted ''STARTMODE'' ''auto'', quoted ''VLAN'' ''yes'', quoted ''ETHERDEVICE'' ''bond0'',
       quoted ''VLAN_ID'' (show_int (nc_vlan nc))]"

definition wicked_bond ::
  "network_config \<Rightarrow> bond_config \<Rightarrow> binding \<Rightarrow> nic_info list \<Rightarrow> (string \<times> string list) list" where
  "wicked_bond nc bo b nics =
    map (wicked_slave nics) (enumerate 0 (bo_slaves bo))
    @ [(''ifcfg-bond0'', wicked_master nc bo b)]
    @ (if 0 < nc_vlan nc then [(''ifcfg-'' @ bond_vlan nc, wicked_vlan nc b)] else [])"

subsection \<open>The sysconfig scripts of RHEL\<close>

definition ifcfg_ip :: "network_config \<Rightarrow> binding \<Rightarrow> string list" where
  "ifcfg_ip nc b =
    (if nc_method nc = ''dhcp'' then [''BOOTPROTO=dhcp'']
     else [''BOOTPROTO=none'']
       @ (if bd_address b \<noteq> [] then [''IPADDR='' @ bd_address b] else [])
       @ (if 0 < nc_prefix_len nc then [''PREFIX='' @ show_int (nc_prefix_len nc)] else [])
       @ (if nc_gateway nc \<noteq> [] then [''GATEWAY='' @ nc_gateway nc] else [])
       @ map (\<lambda>(i, d). ''DNS'' @ digits_nat (Suc i) @ ''='' @ d) (enumerate 0 (nc_dns nc)))"

definition ifcfg_mac :: "string \<Rightarrow> nic_info list \<Rightarrow> string" where
  "ifcfg_mac sel nics =
    (if starts_with mac_prefix sel then to_lower (drop (length mac_prefix) sel)
     else if starts_with name_prefix sel then
       (let nm = drop (length name_prefix) sel in if is_valid_mac nm then to_lower nm else [])
     else case pick_physical_nic nics of Some n \<Rightarrow> to_lower (ni_mac n) | None \<Rightarrow> [])"

definition ifcfg_index :: "string \<Rightarrow> nic_info list \<Rightarrow> nat" where
  "ifcfg_index mac nics =
    (if mac = [] then 0
     else case nic_where (\<lambda>n. to_lower (ni_mac n) = mac) nics of Some (i, n) \<Rightarrow> i | None \<Rightarrow> 0)"

definition ifcfg_file :: "network_config \<Rightarrow> binding \<Rightarrow> nic_info list \<Rightarrow> string \<times> string list" where
  "ifcfg_file nc b nics =
    (let mac = ifcfg_mac (nc_nic_selector nc) nics; dev = eth_name (ifcfg_index mac nics) in
     (''ifcfg-'' @ dev,
      [managed, ''DEVICE='' @ dev, ''NAME='' @ dev]
      @ (if mac \<noteq> [] then [''HWADDR='' @ to_upper_ascii mac] else [])
      @ [''ONBOOT=yes'', ''TYPE=Ethernet''] @ ifcfg_ip nc b))"

definition bonding_opts :: "bond_config \<Rightarrow> string list" where
  "bonding_opts bo =
    [''mode='' @ bo_mode bo, ''miimon='' @ show_int (miimon_of bo)]
    @ (if bo_mode bo = ''active-backup'' then
         (if bo_primary bo = [] then []
          else case first_index (bo_primary bo) (bo_slaves bo) of
            Some i \<Rightarrow> [''primary='' @ eth_name i] | None \<Rightarrow> [])
       else if bo_mode bo = ''802.3ad'' then
         [''lacp_rate='' @ lacp_rate_of bo, ''xmit_hash_policy='' @ xmit_policy_of bo]
       else [])"

definition ifcfg_master :: "network_config \<Rightarrow> bond_config \<Rightarrow> binding \<Rightarrow> string list" where
  "ifcfg_master nc bo b =
    [managed, ''DEVICE=bond0'', ''NAME=bond0'', ''TYPE=Bond'', ''BONDING_MASTER=yes'', ''ONBOOT=yes'',
     ''BONDING_OPTS='' @ go_quote (join_with '' '' (bonding_opts bo))]
    @ (if nc_vlan nc = 0 then ifcfg_ip nc b else [''BOOTPROTO=none''])"

definition ifcfg_vlan :: "network_config \<Rightarrow> binding \<Rightarrow> string list" where
  "ifcfg_vlan nc b =
    [managed, ''DEVICE='' @ bond_vlan nc, ''NAME='' @ bond_vlan nc, ''TYPE=Vlan'', ''ONBOOT=yes'', ''VLAN=yes'',
     ''PHYSDEV=bond0'', ''VLAN_ID='' @ show_int (nc_vlan nc)]
    @ ifcfg_ip nc b"

definition ifcfg_slave :: "nic_info list \<Rightarrow> nat \<times> string \<Rightarrow> string \<times> string list" where
  "ifcfg_slave nics = (\<lambda>(i, slave).
    (let dev = eth_name i; mac = lookup_slave_mac slave nics in
     (''ifcfg-'' @ dev,
      [managed, ''DEVICE='' @ dev, ''NAME='' @ dev, ''TYPE=Ethernet'']
      @ (if is_valid_mac mac then [''HWADDR='' @ to_upper_ascii mac] else [])
      @ [''ONBOOT=yes'', ''BOOTPROTO=none'', ''MASTER=bond0'', ''SLAVE=yes''])))"

definition ifcfg_bond ::
  "network_config \<Rightarrow> bond_config \<Rightarrow> binding \<Rightarrow> nic_info list \<Rightarrow> (string \<times> string list) list" where
  "ifcfg_bond nc bo b nics =
    [(''ifcfg-bond0'', ifcfg_master nc bo b)]
    @ (if 0 < nc_vlan nc then [(''ifcfg-'' @ bond_vlan nc, ifcfg_vlan nc b)] else [])
    @ map (ifcfg_slave nics) (enumerate 0 (bo_slaves bo))"

subsection \<open>NetworkManager\<close>

definition resolve_nic_for_nm :: "string \<Rightarrow> nic_info list \<Rightarrow> string \<times> string" where
  "resolve_nic_for_nm sel nics =
    (let named = (\<lambda>r. case r of Some (i, n) \<Rightarrow> ni_name n | None \<Rightarrow> ''eth0'') in
     if starts_with mac_prefix sel then
       (let mac = to_lower (drop (length mac_prefix) sel) in (named (nic_where (named_mac mac) nics), mac))
     else if starts_with name_prefix sel then
       (let nm = drop (length name_prefix) sel in
        if is_valid_mac nm then (named (nic_where (named_fold nm) nics), to_lower nm)
        else if nm \<noteq> [] then
          (nm, case find (\<lambda>n. ni_name n = nm) nics of Some n \<Rightarrow> to_lower (ni_mac n) | None \<Rightarrow> [])
        else (''eth0'', []))
     else case find (\<lambda>n. ni_name n \<noteq> []) nics of
       Some n \<Rightarrow> (ni_name n, to_lower (ni_mac n)) | None \<Rightarrow> (''eth0'', []))"

definition resolve_slave_dev_and_mac :: "string \<Rightarrow> nic_info list \<Rightarrow> string \<times> string" where
  "resolve_slave_dev_and_mac slave nics =
    (let dev_of = (\<lambda>m d. case nic_where (named_fold m) nics of Some (i, n) \<Rightarrow> ni_name n | None \<Rightarrow> d) in
     if is_valid_mac slave then (dev_of slave slave, to_lower slave)
     else
       (let name = (if starts_with name_prefix slave then drop (length name_prefix) slave else slave);
            mac = resolve_nic_mac nics name in
        if mac \<noteq> [] then (name, mac)
        else if is_valid_mac name then (dev_of name name, to_lower name)
        else (name, [])))"

definition nm_ip :: "network_config \<Rightarrow> binding \<Rightarrow> string list" where
  "nm_ip nc b =
    (if nc_method nc = ''dhcp'' then [''method=auto'']
     else [''method=manual'']
       @ (if bd_address b \<noteq> [] then [''address1='' @ bd_address b @ ''/'' @ show_int (nc_prefix_len nc)] else [])
       @ (if nc_gateway nc \<noteq> [] then [''gateway='' @ nc_gateway nc] else [])
       @ (if nc_dns nc \<noteq> [] then [''dns='' @ join_with '';'' (nc_dns nc)] else []))"

definition nm_keyfile :: "network_config \<Rightarrow> binding \<Rightarrow> nic_info list \<Rightarrow> string \<times> string list" where
  "nm_keyfile nc b nics =
    (let (dev, mac) = resolve_nic_for_nm (nc_nic_selector nc) nics in
     (''metalkit-'' @ dev @ ''.nmconnection'',
      [managed, ''[connection]'', ''id=metalkit-'' @ dev, ''type=ethernet'', ''autoconnect=true'', [], ''[ethernet]'']
      @ (if mac \<noteq> [] then [''mac-address='' @ to_lower mac] else [])
      @ [[], ''[ipv4]''] @ nm_ip nc b))"

definition nm_slave :: "nic_info list \<Rightarrow> nat \<times> string \<Rightarrow> string \<times> string list" where
  "nm_slave nics = (\<lambda>(i, slave).
    (let mac = snd (resolve_slave_dev_and_mac slave nics) in
     (''bond0-slave-'' @ digits_nat i @ ''.nmconnection'',
      [managed, ''[connection]'', ''id=bond0-slave-'' @ digits_nat i, ''type=ethernet'', ''master=bond0'',
       ''slave-type=bond'', [], ''[ethernet]'']
      @ (if mac \<noteq> [] then [''mac-address='' @ to_lower mac] else []))))"

definition nm_master :: "network_config \<Rightarrow> bond_config \<Rightarrow> binding \<Rightarrow> string list" where
  "nm_master nc bo b =
    [managed, ''[connection]'', ''id=bond0'', ''type=bond'', ''interface-name=bond0'', ''autoconnect=true'', [],
     ''[bond]'', ''miimon='' @ show_int (miimon_of bo), ''mode='' @ bo_mode bo]
    @ (if bo_mode bo = ''802.3ad''
       then [''lacp-rate='' @ lacp_rate_of bo, ''transmit-hash-policy='' @ xmit_policy_of bo] else [])
    @ [[], ''[ipv4]'']
    @ (if 0 < nc_vlan nc then [''method=disabled'', [], ''[ipv6]'', ''method=disabled''] else nm_ip nc b)"

definition nm_vlan :: "network_config \<Rightarrow> binding \<Rightarrow> string \<times> string list" where
  "nm_vlan nc b =
    (let parent = (if nc_bond nc = None then ''metalkit0'' else ''bond0'');
         dev = parent @ ''.'' @ show_int (nc_vlan nc) in
     (dev @ ''.nmconnection'',
      [managed, ''[connection]'', ''id='' @ dev, ''type=vlan'', ''interface-name='' @ dev, ''autoconnect=true'',
       ''wait-device-timeout=30000'', [], ''[vlan]'', ''parent='' @ parent, ''id='' @ show_int (nc_vlan nc), [],
       ''[ipv4]'']
      @ nm_ip nc b @ [[], ''[ipv6]'', ''method=disabled'']))"

definition nm_bond ::
  "network_config \<Rightarrow> bond_config \<Rightarrow> binding \<Rightarrow> nic_info list \<Rightarrow> (string \<times> string list) list" where
  "nm_bond nc bo b nics =
    map (nm_slave nics) (enumerate 0 (bo_slaves bo))
    @ [(''bond0.nmconnection'', nm_master nc bo b)]
    @ (if 0 < nc_vlan nc then [nm_vlan nc b] else [])"

end
