(* ===== verification/Inst_Disk.thy ===== *)
theory Inst_Disk
  imports Net_Render
begin

text \<open>
  The disk side of the installer: choosing the target (\<open>diskpick.go\<close>), releasing and wiping it
  (\<open>release.go\<close>, \<open>zap.go\<close>), adding an EFI system partition (\<open>esp.go\<close>) and growing the root partition
  (\<open>grow.go\<close>), of \<open>internal/installer\<close>. A command is the argument vector given to \<open>Exec.Run\<close>; what it
  prints is read by the functions below as the code reads it. The logger is left out.
\<close>

subsection \<open>Reading the output of commands\<close>

text \<open>\<open>strings.Fields\<close>: the parts between runs of white space.\<close>

function fields_from :: "string \<Rightarrow> string \<Rightarrow> string list" where
  "fields_from cur s =
    (case s of
       [] \<Rightarrow> (if cur = [] then [] else [cur])
     | c # t \<Rightarrow>
         (if lead_seq space_seqs s = 0 then fields_from (cur @ [c]) t
          else (if cur = [] then [] else [cur]) @ fields_from [] (drop (lead_seq space_seqs s) s)))"
  by pat_completeness auto
termination
  by (relation "measure (\<lambda>(cur, s). length s)") auto

declare fields_from.simps [simp del]

definition fields_of :: "string \<Rightarrow> string list" where
  "fields_of s = fields_from [] s"

definition lines_of :: "string \<Rightarrow> string list" where
  "lines_of s = split_on nl s"

definition ends_with :: "string \<Rightarrow> string \<Rightarrow> bool" where
  "ends_with w s \<longleftrightarrow> starts_with (rev w) (rev s)"

definition trim_prefix :: "string \<Rightarrow> string \<Rightarrow> string" where
  "trim_prefix w s = (if starts_with w s then drop (length w) s else s)"

text \<open>\<open>path.Base\<close>.\<close>

definition path_base :: "string \<Rightarrow> string" where
  "path_base s =
    (if s = [] then ''.''
     else let t = rev (dropWhile (\<lambda>c. c = CHR ''/'') (rev s)) in
       if t = [] then ''/'' else last (split_on CHR ''/'' t))"

text \<open>The error of \<open>strconv.Atoi\<close>.\<close>

definition atoi_error :: "string \<Rightarrow> string" where
  "atoi_error s =
    (let ds = (if s \<noteq> [] \<and> hd s \<in> {CHR ''-'', CHR ''+''} then tl s else s) in
     ''strconv.Atoi: parsing '' @ go_quote s
       @ (if ds \<noteq> [] \<and> list_all is_digit ds then '': value out of range'' else '': invalid syntax''))"

text \<open>A command run for its effect: its failure is ignored, or is the error of the step.\<close>

definition run_quiet :: "inst_env \<Rightarrow> string list \<Rightarrow> unit io" where
  "run_quiet env argv = attempt (run_cmd env argv)"

definition must_run :: "string \<Rightarrow> inst_env \<Rightarrow> string list \<Rightarrow> (string, unit) result io \<Rightarrow> (string, unit) result io" where
  "must_run pre env argv m = try_io pre (try_cmd env argv) (\<lambda>_. m)"

definition log_line :: "inst_env \<Rightarrow> string \<Rightarrow> string \<Rightarrow> unit io" where
  "log_line env level msg = attempt (report env (LogCall level msg))"

text \<open>The results of a program on every element, concatenated.\<close>

fun collect_io :: "('a \<Rightarrow> 'b list io) \<Rightarrow> 'a list \<Rightarrow> 'b list io" where
  "collect_io f [] = State_Monad.return []"
| "collect_io f (x # xs) = do { ys \<leftarrow> f x; zs \<leftarrow> collect_io f xs; State_Monad.return (ys @ zs) }"

subsection \<open>Choosing the disk\<close>

record disk =
  dk_name :: string
  dk_path :: string
  dk_size :: int
  dk_removable :: bool
  dk_readonly :: bool
  dk_transport :: string
  dk_model :: string
  dk_wwn :: string
  dk_by_path :: string

definition disk_candidate :: "disk \<Rightarrow> bool" where
  "disk_candidate d \<longleftrightarrow> \<not> dk_removable d \<and> \<not> dk_readonly d \<and> dk_transport d \<noteq> ''usb'' \<and> 0 < dk_size d"

definition pick_smallest :: "disk list \<Rightarrow> (string, disk) result" where
  "pick_smallest disks =
    (let cs = filter disk_candidate disks in
     if cs = [] then Inl ''install: disk not found: no fixed non-USB disks''
     else Inr (hd (sort_key dk_size (sort_key dk_name cs))))"

definition pick_by_path :: "disk list \<Rightarrow> string \<Rightarrow> (string, disk) result" where
  "pick_by_path disks v =
    (case find (\<lambda>d. dk_by_path d = v \<or> dk_path d = v \<or> dk_name d = v) disks of
       Some d \<Rightarrow> Inr d
     | None \<Rightarrow> Inl (''install: disk not found: by-path='' @ go_quote v))"

definition scan_by_field :: "disk list \<Rightarrow> string \<Rightarrow> string \<Rightarrow> (disk \<Rightarrow> string) \<Rightarrow> (string, disk) result" where
  "scan_by_field disks mode v f =
    (case find (\<lambda>d. f d = v) disks of
       Some d \<Rightarrow> Inr d
     | None \<Rightarrow> Inl (''install: disk not found: '' @ mode @ ''='' @ go_quote v))"

definition pick_by_field :: "disk list \<Rightarrow> string \<Rightarrow> string \<Rightarrow> (disk \<Rightarrow> string) \<Rightarrow> (string, disk) result" where
  "pick_by_field disks mode v f =
    (if v = [] then Inl (''install: target_disk.mode='' @ mode @ '' requires a value'')
     else scan_by_field disks mode v f)"

definition pick_disk :: "disk list \<Rightarrow> target_disk \<Rightarrow> (string, disk) result" where
  "pick_disk disks sel =
    (if disks = [] then Inl ''install: disk not found: no candidates from lsblk''
     else if td_mode sel = ''smallest'' \<or> td_mode sel = [] then pick_smallest disks
     else if td_mode sel = ''by-path'' then
       (if td_value sel = [] then Inl ''install: target_disk.mode=by-path requires a value''
        else pick_by_path disks (td_value sel))
     else if td_mode sel = ''by-wwn'' then pick_by_field disks ''by-wwn'' (td_value sel) dk_wwn
     else if td_mode sel = ''by-model'' then pick_by_field disks ''by-model'' (td_value sel) dk_model
     else Inl (''install: target_disk.mode '' @ go_quote (td_mode sel) @ '': unsupported''))"

subsection \<open>Releasing the disk\<close>

record lsblk_row =
  lr_name :: string
  lr_type :: string
  lr_mount :: string

definition lsblk_row_of :: "string \<Rightarrow> lsblk_row list" where
  "lsblk_row_of line =
    (case fields_of line of
       n # t # rest \<Rightarrow> [\<lparr>lr_name = n, lr_type = t, lr_mount = (case rest of m # _ \<Rightarrow> m | [] \<Rightarrow> [])\<rparr>]
     | _ \<Rightarrow> [])"

definition lsblk_rows :: "inst_env \<Rightarrow> string \<Rightarrow> lsblk_row list io" where
  "lsblk_rows env dev =
    do { r \<leftarrow> try_cmd env [''lsblk'', ''-lnrpo'', ''NAME,TYPE,MOUNTPOINT'', dev];
         State_Monad.return (case r of Inl e \<Rightarrow> [] | Inr out \<Rightarrow> concat (map lsblk_row_of (lines_of (trim_space out)))) }"

definition swaps_of :: "string \<Rightarrow> string \<Rightarrow> string list" where
  "swaps_of dev out =
    concat (map (\<lambda>l. case fields_of l of f # _ \<Rightarrow> (if starts_with dev f then [f] else []) | [] \<Rightarrow> []) (tl (lines_of out)))"

definition active_swaps_on :: "inst_env \<Rightarrow> string \<Rightarrow> string list io" where
  "active_swaps_on env dev =
    do { r \<leftarrow> try_cmd env [''cat'', ''/proc/swaps''];
         State_Monad.return (case r of Inl e \<Rightarrow> [] | Inr out \<Rightarrow> swaps_of dev out) }"

text \<open>The volume groups with a physical volume on the disk, each once, in the order of their first line.\<close>

definition vgs_of :: "string \<Rightarrow> string \<Rightarrow> string list" where
  "vgs_of dev out =
    rev (remdups (rev (concat (map (\<lambda>l. case fields_of l of
        p # g # _ \<Rightarrow> (if starts_with dev p then [g] else []) | _ \<Rightarrow> []) (lines_of out)))))"

definition vgs_on :: "inst_env \<Rightarrow> string \<Rightarrow> string list io" where
  "vgs_on env dev =
    do { r \<leftarrow> try_cmd env [''pvs'', ''--noheadings'', ''-o'', ''pv_name,vg_name''];
         State_Monad.return (case r of Inl e \<Rightarrow> [] | Inr out \<Rightarrow> vgs_of dev out) }"

definition try_release :: "inst_env \<Rightarrow> string list \<Rightarrow> string \<Rightarrow> string list io" where
  "try_release env argv label =
    do { r \<leftarrow> run_cmd env argv; State_Monad.return (if snd r = None then [label] else []) }"

definition release_row :: "inst_env \<Rightarrow> lsblk_row \<Rightarrow> string list io" where
  "release_row env r =
    do {
      a \<leftarrow> (if starts_with ''raid'' (lr_type r)
            then try_release env [''mdadm'', ''--stop'', lr_name r] (''mdadm --stop '' @ lr_name r)
            else State_Monad.return []);
      b \<leftarrow> (if lr_type r = ''crypt''
            then try_release env [''cryptsetup'', ''close'', path_base (lr_name r)] (''cryptsetup close '' @ path_base (lr_name r))
            else State_Monad.return []);
      State_Monad.return (a @ b)
    }"

definition release_disk :: "inst_env \<Rightarrow> string \<Rightarrow> string list io" where
  "release_disk env dev =
    do {
      rows \<leftarrow> lsblk_rows env dev;
      us \<leftarrow> collect_io (\<lambda>r. try_release env [''umount'', ''-R'', ''-l'', lr_name r] (''umount '' @ lr_name r))
              (filter (\<lambda>r. lr_mount r \<noteq> []) rows);
      swaps \<leftarrow> active_swaps_on env dev;
      ss \<leftarrow> collect_io (\<lambda>d. try_release env [''swapoff'', d] (''swapoff '' @ d)) swaps;
      vgs \<leftarrow> vgs_on env dev;
      vs \<leftarrow> collect_io (\<lambda>v. try_release env [''vgchange'', ''-an'', v] (''vgchange -an '' @ v)) vgs;
      rs \<leftarrow> collect_io (release_row env) rows;
      State_Monad.return (us @ ss @ vs @ rs)
    }"

definition log_release :: "inst_env \<Rightarrow> string \<Rightarrow> string \<Rightarrow> unit io" where
  "log_release env dev stage =
    do { released \<leftarrow> release_disk env dev;
         when_io (released \<noteq> [])
           (log_line env ''info'' (''released target-disk holders on '' @ dev @ '' ('' @ stage @ ''): '' @ join_with '', '' released)) }"

subsection \<open>Wiping, and stale boot entries\<close>

definition wipe_disk :: "inst_env \<Rightarrow> string \<Rightarrow> unit io" where
  "wipe_disk env dev =
    do { r \<leftarrow> run_cmd env [''sgdisk'', ''-Z'', dev];
         case snd r of
           Some e \<Rightarrow> log_line env ''warn'' (''sgdisk -Z '' @ dev @ '' failed (continuing): '' @ e)
         | None \<Rightarrow> log_line env ''info'' (''zapped partition table on '' @ dev) }"

definition part_uuids_of :: "string \<Rightarrow> string list" where
  "part_uuids_of out =
    concat (map (\<lambda>l. case fields_of l of _ # u # _ \<Rightarrow> [to_lower u] | _ \<Rightarrow> []) (lines_of out))"

definition collect_part_uuids :: "inst_env \<Rightarrow> string \<Rightarrow> string list io" where
  "collect_part_uuids env dev =
    do { r \<leftarrow> try_cmd env [''lsblk'', ''-lnbo'', ''NAME,PARTUUID'', dev];
         State_Monad.return (case r of Inl e \<Rightarrow> [] | Inr out \<Rightarrow> part_uuids_of out) }"

text \<open>
  The regular expressions \<open>HD\(\d+,GPT,([0-9a-fA-F-]+),\<close> and \<open>HD\(\d+,MBR,0x([0-9a-fA-F]+),\<close>: the group of
  the leftmost match. No character of the group is a comma, so the greedy run is the only candidate.
\<close>

definition is_hex :: "char \<Rightarrow> bool" where
  "is_hex c \<longleftrightarrow> is_digit c \<or> (97 \<le> byte c \<and> byte c \<le> 102) \<or> (65 \<le> byte c \<and> byte c \<le> 70)"

definition hd_clause_at :: "string \<Rightarrow> (char \<Rightarrow> bool) \<Rightarrow> string \<Rightarrow> string option" where
  "hd_clause_at kind ok s =
    (let r = drop 3 s; ds = takeWhile is_digit r; r2 = drop (length ds) r; r3 = drop (length kind) r2; g = takeWhile ok r3 in
     if starts_with ''HD('' s \<and> ds \<noteq> [] \<and> starts_with kind r2 \<and> g \<noteq> [] \<and> starts_with '','' (drop (length g) r3)
     then Some g else None)"

fun hd_clause :: "string \<Rightarrow> (char \<Rightarrow> bool) \<Rightarrow> string \<Rightarrow> string option" where
  "hd_clause kind ok [] = None"
| "hd_clause kind ok (c # s) =
    (case hd_clause_at kind ok (c # s) of Some g \<Rightarrow> Some g | None \<Rightarrow> hd_clause kind ok s)"

definition nvram_gpt_part :: "string \<Rightarrow> string option" where
  "nvram_gpt_part line = hd_clause '',GPT,'' (\<lambda>c. is_hex c \<or> c = CHR ''-'') line"

definition nvram_mbr_sig :: "string \<Rightarrow> string option" where
  "nvram_mbr_sig line = hd_clause '',MBR,0x'' is_hex line"

definition is_hex_boot_num :: "string \<Rightarrow> bool" where
  "is_hex_boot_num s \<longleftrightarrow> length s = 4 \<and> list_all (\<lambda>c. is_digit c \<or> (65 \<le> byte c \<and> byte c \<le> 70)) s"

text \<open>Whether a line is a boot entry that is deleted, with its number and what it is logged as.\<close>

definition stale_entry :: "string list \<Rightarrow> string \<Rightarrow> (string \<times> string) option" where
  "stale_entry current line =
    (let num = take 4 (drop 4 line) in
     if \<not> starts_with ''Boot'' line \<or> length line < 8 \<or> \<not> is_hex_boot_num num then None
     else if nvram_mbr_sig line \<noteq> None then Some (num, num @ ''(MBR)'')
     else if current = [] then None
     else case nvram_gpt_part line of
       None \<Rightarrow> None
     | Some g \<Rightarrow> if to_lower g \<in> set current then None else Some (num, num @ ''(GPT)''))"

definition prune_stale_nvram :: "inst_env \<Rightarrow> string \<Rightarrow> unit io" where
  "prune_stale_nvram env dev =
    do {
      current \<leftarrow> collect_part_uuids env dev;
      r \<leftarrow> try_cmd env [''efibootmgr'', ''-v''];
      case r of Inl e \<Rightarrow> State_Monad.return ()
      | Inr out \<Rightarrow> do {
          deleted \<leftarrow> collect_io (\<lambda>l. case stale_entry current l of
                        None \<Rightarrow> State_Monad.return []
                      | Some (num, label) \<Rightarrow> try_release env [''efibootmgr'', ''-b'', num, ''-B''] label) (lines_of out);
          when_io (deleted \<noteq> [])
            (log_line env ''info'' (''pruned '' @ digits_nat (length deleted) @ '' stale NVRAM boot entries: '' @ join_with '','' deleted)) }
    }"

subsection \<open>Partitions\<close>

definition partition_number :: "string \<Rightarrow> string \<Rightarrow> (string, int) result" where
  "partition_number dev part =
    (if \<not> starts_with dev part
     then Inl (''install: partition '' @ go_quote part @ '' does not belong to disk '' @ go_quote dev)
     else
       let suffix = trim_prefix ''p'' (drop (length dev) part) in
       if suffix = []
       then Inl (''install: partition '' @ go_quote part @ '' has no numeric suffix after '' @ go_quote dev)
       else case atoi suffix of
         Some n \<Rightarrow> Inr n
       | None \<Rightarrow> Inl (''install: partition number from '' @ go_quote part @ '' (suffix '' @ go_quote suffix @ ''): ''
                      @ atoi_error suffix))"

definition partition_path :: "string \<Rightarrow> int \<Rightarrow> string" where
  "partition_path dev n =
    (if starts_with ''/dev/nvme'' dev \<or> starts_with ''/dev/mmcblk'' dev then dev @ ''p'' @ show_int n else dev @ show_int n)"

definition parent_disk_of :: "string \<Rightarrow> string" where
  "parent_disk_of part =
    (let r = dropWhile is_digit (rev part) in
     if length r = length part then part
     else rev (if r \<noteq> [] \<and> hd r = CHR ''p'' then tl r else r))"

definition next_part_num :: "string \<Rightarrow> int" where
  "next_part_num out =
    (let m = fold (\<lambda>l m. case fields_of l of f # _ \<Rightarrow> (case atoi f of Some n \<Rightarrow> max n m | None \<Rightarrow> m) | [] \<Rightarrow> m) (lines_of out) 0 in
     m + 1)"

definition part_names :: "string \<Rightarrow> string list" where
  "part_names out =
    concat (map (\<lambda>l. case fields_of l of n # t # _ \<Rightarrow> (if t = ''part'' then [n] else []) | _ \<Rightarrow> []) (lines_of out))"

definition blkid_type :: "string \<Rightarrow> string list" where
  "blkid_type part = [''blkid'', ''-o'', ''value'', ''-s'', ''TYPE'', part]"

fun first_vfat :: "inst_env \<Rightarrow> string \<Rightarrow> string list \<Rightarrow> string io" where
  "first_vfat env skip [] = State_Monad.return []"
| "first_vfat env skip (p # ps) =
    (if p = skip then first_vfat env skip ps
     else do { r \<leftarrow> try_cmd env (blkid_type p);
               if (case r of Inr out \<Rightarrow> trim_space out = ''vfat'' | Inl e \<Rightarrow> False) then State_Monad.return p
               else first_vfat env skip ps })"

definition find_esp :: "inst_env \<Rightarrow> string \<Rightarrow> string \<Rightarrow> (string, string) result io" where
  "find_esp env parent skip =
    try_io (''install: lsblk '' @ parent @ '': '') (try_cmd env [''lsblk'', ''-lnpo'', ''NAME,TYPE'', parent])
      (\<lambda>out. do { p \<leftarrow> first_vfat env skip (part_names out); State_Monad.return (Inr p) })"

subsection \<open>The EFI system partition\<close>

definition esp_type_guid :: string where
  "esp_type_guid = ''C12A7328-F81F-11D2-BA4B-00A0C93EC93B''"

definition detect_partition_table_type :: "string \<Rightarrow> string" where
  "detect_partition_table_type out =
    (case find (starts_with ''label:'') (map trim_space (lines_of out)) of
       Some l \<Rightarrow> trim_space (drop (length ''label:'') l) | None \<Rightarrow> [])"

definition esp_sgdisk_type :: "int \<Rightarrow> string" where
  "esp_sgdisk_type n = show_int n @ '':ef00''"

definition set_esp_type :: "inst_env \<Rightarrow> string \<Rightarrow> int \<Rightarrow> string \<Rightarrow> (string, unit) result io" where
  "set_esp_type env dev n want =
    do {
      r \<leftarrow> run_cmd env [''sfdisk'', ''--part-type'', dev, show_int n, want];
      r2 \<leftarrow> (case snd r of
               None \<Rightarrow> State_Monad.return (Inr ())
             | Some e \<Rightarrow> do {
                 q \<leftarrow> run_cmd env [''sgdisk'', ''-t'', esp_sgdisk_type n, dev];
                 State_Monad.return (case snd q of None \<Rightarrow> Inr ()
                   | Some e2 \<Rightarrow> Inl (''install: sfdisk --part-type '' @ dev @ '' '' @ show_int n @ '' '' @ want @ '': '' @ e
                       @ '' (sgdisk fallback also failed: '' @ e2 @ '', output: '' @ fst q @ '')'')) });
      case r2 of Inl e \<Rightarrow> State_Monad.return (Inl e)
      | Inr _ \<Rightarrow> do { _ \<leftarrow> run_quiet env [''partprobe'', dev]; State_Monad.return (Inr ()) }
    }"

definition check_esp_type :: "inst_env \<Rightarrow> string \<Rightarrow> int \<Rightarrow> string \<Rightarrow> (string, unit) result io" where
  "check_esp_type env dev n table =
    try_io (''install: sfdisk --part-type '' @ dev @ '' '' @ show_int n @ '': '')
      (try_cmd env [''sfdisk'', ''--part-type'', dev, show_int n]) (\<lambda>out.
      if table \<notin> {''dos'', ''gpt''} then State_Monad.return (Inr ())
      else
        let want = (if table = ''dos'' then ''ef'' else ''EF00'');
            current = (if table = ''gpt'' \<and> equal_fold (trim_space out) esp_type_guid then want else trim_space out) in
        if equal_fold current want then State_Monad.return (Inr ())
        else do {
          _ \<leftarrow> log_line env ''info'' (''fixing ESP partition type on '' @ dev @ show_int n @ '': '' @ current @ '' -> '' @ want
                 @ '' ('' @ table @ '' table)'');
          set_esp_type env dev n want
        })"

definition fix_esp_type_if_wrong :: "inst_env \<Rightarrow> string \<Rightarrow> string \<Rightarrow> (string, unit) result io" where
  "fix_esp_type_if_wrong env dev esp =
    (case partition_number dev esp of
       Inl e \<Rightarrow> State_Monad.return (Inl (''install: fix ESP type: '' @ e))
     | Inr n \<Rightarrow>
       try_io (''install: sfdisk -d '' @ dev @ '': '') (try_cmd env [''sfdisk'', ''-d'', dev]) (\<lambda>out.
         let table = detect_partition_table_type out in
         if table = []
         then State_Monad.return (Inl (''install: fix ESP type: could not determine partition table type for '' @ dev))
         else do {
           _ \<leftarrow> when_io (table = ''gpt'') (do {
             _ \<leftarrow> run_quiet env [''sgdisk'', ''-e'', dev];
             run_quiet env [''partprobe'', dev] });
           check_esp_type env dev n table
         }))"

definition make_esp :: "inst_env \<Rightarrow> string \<Rightarrow> (string, string) result io" where
  "make_esp env dev =
    do {
      _ \<leftarrow> run_quiet env [''sgdisk'', ''-z'', dev];
      try_io (''install: sgdisk -p '' @ dev @ '': '') (try_cmd env [''sgdisk'', ''-p'', dev]) (\<lambda>out.
        let n = next_part_num out; esp = partition_path dev n in
        do {
          _ \<leftarrow> run_quiet env [''sgdisk'', ''-g'', dev];
          try_io ''install: sgdisk new ESP: ''
            (try_cmd env [''sgdisk'', ''-n'', show_int n @ '':0:+512M'', ''-t'', esp_sgdisk_type n, dev]) (\<lambda>_.
            do {
              _ \<leftarrow> run_quiet env [''partprobe'', dev];
              try_io (''install: mkfs.fat '' @ esp @ '': '') (try_cmd env [''mkfs.fat'', ''-F32'', esp]) (\<lambda>_.
                State_Monad.return (Inr esp))
            })
        })
    }"

definition create_esp_if_missing :: "inst_env \<Rightarrow> string \<Rightarrow> string \<Rightarrow> string \<Rightarrow> (string, string) result io" where
  "create_esp_if_missing env dev part boot_mode =
    (let parent = parent_disk_of dev in
     try_io [] (find_esp env parent part) (\<lambda>esp.
       if esp \<noteq> [] then
         (if boot_mode = ''uefi''
          then do { _ \<leftarrow> fix_esp_type_if_wrong env parent esp; State_Monad.return (Inr esp) }
          else State_Monad.return (Inr esp))
       else if boot_mode \<noteq> ''uefi'' then State_Monad.return (Inr [])
       else make_esp env dev))"

subsection \<open>Growing the root partition\<close>

record grow_result =
  gr_part :: string
  gr_num :: int
  gr_fs :: string
  gr_xfs :: bool

record fs_candidate =
  fc_dev :: string
  fc_fs :: string
  fc_label :: string

definition not_root_types :: "string list" where
  "not_root_types = [[], ''vfat'', ''swap'', ''iso9660'', ''linux_raid_member'', ''LVM2_member'']"

definition probe_candidate :: "inst_env \<Rightarrow> string \<Rightarrow> fs_candidate list io" where
  "probe_candidate env p =
    do {
      r \<leftarrow> try_cmd env (blkid_type p);
      case r of Inl e \<Rightarrow> State_Monad.return []
      | Inr out \<Rightarrow>
        (if trim_space out \<in> set not_root_types then State_Monad.return []
         else do {
           l \<leftarrow> run_cmd env [''blkid'', ''-o'', ''value'', ''-s'', ''LABEL'', p];
           State_Monad.return [\<lparr>fc_dev = p, fc_fs = trim_space out, fc_label = trim_space (fst l)\<rparr>] })
    }"

definition is_root_label :: "string \<Rightarrow> bool" where
  "is_root_label label \<longleftrightarrow>
    (let l = to_lower label in
     l \<in> {''cloudimg-rootfs'', ''rootfs'', ''root'', ''_root''}
     \<or> ends_with ''-rootfs'' l \<or> ends_with ''_root'' l \<or> starts_with ''cloudimg-'' l)"

definition is_anti_root_label :: "string \<Rightarrow> bool" where
  "is_anti_root_label label \<longleftrightarrow> to_upper_ascii label \<in> {''BOOT'', ''EFI'', ''ESP'', ''UEFI''}"

definition choose_root :: "fs_candidate list \<Rightarrow> fs_candidate option" where
  "choose_root cs =
    (case find (\<lambda>c. is_root_label (fc_label c)) cs of
       Some c \<Rightarrow> Some c
     | None \<Rightarrow> find_or_hd (\<lambda>c. \<not> is_anti_root_label (fc_label c)) (rev cs))"

definition enumerate_parts :: "inst_env \<Rightarrow> string \<Rightarrow> string list io" where
  "enumerate_parts env dev =
    do { r \<leftarrow> try_cmd env [''lsblk'', ''-lnpo'', ''NAME,TYPE'', dev];
         State_Monad.return (case r of Inl e \<Rightarrow> [] | Inr out \<Rightarrow> part_names out) }"

definition parts_of_disk :: "inst_env \<Rightarrow> string \<Rightarrow> string list io" where
  "parts_of_disk env dev =
    do {
      ps \<leftarrow> enumerate_parts env dev;
      if ps \<noteq> [] then State_Monad.return ps
      else do {
        _ \<leftarrow> log_line env ''warn'' (''no partitions visible on '' @ dev @ '', forcing partprobe + blockdev --rereadpt and retrying'');
        _ \<leftarrow> log_release env dev ''no-partitions retry'';
        _ \<leftarrow> run_quiet env [''partprobe'', dev];
        _ \<leftarrow> run_quiet env [''blockdev'', ''--rereadpt'', dev];
        _ \<leftarrow> run_quiet env [''udevadm'', ''settle'', ''--timeout=5''];
        enumerate_parts env dev
      }
    }"

definition root_partition_of :: "inst_env \<Rightarrow> string \<Rightarrow> (string, string \<times> string) result io" where
  "root_partition_of env dev =
    do {
      ps \<leftarrow> parts_of_disk env dev;
      if ps = [] then State_Monad.return (Inl (''install: no partitions on '' @ dev))
      else do {
        cs \<leftarrow> collect_io (probe_candidate env) ps;
        State_Monad.return (case choose_root cs of
          None \<Rightarrow> Inl (''install: no rootfs candidate partition on '' @ dev)
        | Some c \<Rightarrow> Inr (fc_dev c, fc_fs c))
      }
    }"

text \<open>A command whose failure is excused by a word in its output or in its error.\<close>

definition excused_cmd :: "string \<Rightarrow> inst_env \<Rightarrow> string list \<Rightarrow> string list \<Rightarrow> (string, unit) result io" where
  "excused_cmd pre env argv words =
    do {
      r \<leftarrow> run_cmd env argv;
      State_Monad.return (case snd r of
        None \<Rightarrow> Inr ()
      | Some e \<Rightarrow>
          (if list_ex (\<lambda>w. contains_sub w (to_upper_ascii (fst r @ '' '' @ e))) words then Inr () else Inl (pre @ e)))
    }"

definition resize_root :: "inst_env \<Rightarrow> string \<Rightarrow> string \<Rightarrow> (string, bool) result io" where
  "resize_root env part fs =
    (if fs \<in> {''ext2'', ''ext3'', ''ext4''} then
       try_io [] (excused_cmd (''install: e2fsck '' @ part @ '': '') env [''e2fsck'', ''-fy'', part]
                    [''FILE SYSTEM WAS MODIFIED'', ''CLEAN'']) (\<lambda>_.
       try_io (''install: resize2fs '' @ part @ '': '') (try_cmd env [''resize2fs'', part]) (\<lambda>_.
       State_Monad.return (Inr False)))
     else if fs = ''xfs'' then State_Monad.return (Inr True)
     else State_Monad.return (Inl (''install: unsupported fs '' @ go_quote fs @ '' on '' @ part)))"

definition grow_last_partition :: "inst_env \<Rightarrow> string \<Rightarrow> (string, grow_result) result io" where
  "grow_last_partition env dev =
    (if dev = [] then State_Monad.return (Inl ''install: GrowLastPartition: devPath is empty'')
     else try_io [] (root_partition_of env dev) (\<lambda>(part, fs).
       case partition_number dev part of
         Inl e \<Rightarrow> State_Monad.return (Inl e)
       | Inr n \<Rightarrow>
         try_io [] (excused_cmd (''install: growpart '' @ dev @ '' '' @ show_int n @ '': '') env
                      [''growpart'', dev, show_int n] [''NOCHANGE'']) (\<lambda>_.
         try_io [] (resize_root env part fs) (\<lambda>xfs.
         State_Monad.return (Inr \<lparr>gr_part = part, gr_num = n, gr_fs = fs, gr_xfs = xfs\<rparr>)))))"

end
