(* ===== verification/Inst_Mount.thy ===== *)
theory Inst_Mount
  imports Inst_Disk
begin

text \<open>
  Writing the image and mounting the target, \<open>qemuwrite.go\<close> and \<open>mount.go\<close>, and
  the verified download of \<open>realdeps.go\<close>, of \<open>internal/installer\<close>. The directory of the mount point is an
  absolute path; \<open>filepath.Join\<close> of it is \<open>join_text\<close>.

  The image arrives as a stream: the bytes up to the end, or an error after some bytes. SHA-256 and the
  HTTP client are parameters.
\<close>

definition join_text :: "string \<Rightarrow> string list \<Rightarrow> string" where
  "join_text root es = show_path (path_join (abs_path root) es)"

subsection \<open>The download\<close>

type_synonym image_stream = "(nat \<times> string, string) result"

text \<open>
  \<open>sha256VerifyReader\<close>: the body with the error it ends in, if any. A reader that ends without one is
  compared with the expected checksum.
\<close>

definition verify_stream :: "(string \<Rightarrow> string) \<Rightarrow> string \<Rightarrow> string \<times> string option \<Rightarrow> image_stream" where
  "verify_stream sha256 expected body =
    (case body of
       (d, Some e) \<Rightarrow> Inl (length d, e)
     | (d, None) \<Rightarrow>
         if expected = [] \<or> sha256 d = expected then Inr d
         else Inl (length d, ''install: sha256 mismatch: got '' @ sha256 d @ '' want '' @ expected))"

definition http_stream ::
  "(string \<Rightarrow> string) \<Rightarrow> (string \<Rightarrow> (string, nat \<times> string \<times> string option) result) \<Rightarrow> string \<Rightarrow> string
    \<Rightarrow> (string, image_stream) result"
where
  "http_stream sha256 get url expected =
    (case get url of
       Inl e \<Rightarrow> Inl (''install: GET '' @ url @ '': '' @ e)
     | Inr (status, body) \<Rightarrow>
         if status \<noteq> 200 then Inl (''install: GET '' @ url @ '': status '' @ digits_nat status)
         else Inr (verify_stream sha256 (lower_trim expected) body))"

subsection \<open>Writing the image\<close>

definition spool_path :: "string \<Rightarrow> path" where
  "spool_path work = path_join (abs_path work) [''image.qcow2'']"

text \<open>
  The spool file: created, filled from the stream, closed. The error of the stream stands for a failed
  read or a failed write; \<open>os.Create\<close>, \<open>Close\<close> and \<open>os.Remove\<close> are operations with faults of their own.
\<close>

definition spool_image :: "inst_env \<Rightarrow> path \<Rightarrow> image_stream \<Rightarrow> (string, unit) result io" where
  "spool_image env spool src =
    try_io (''install: create spool '' @ show_path spool @ '': '') (fs_write env spool [] 438) (\<lambda>_.
      case src of
        Inl (n, e) \<Rightarrow> do {
          _ \<leftarrow> attempt (fs_remove env spool);
          State_Monad.return (Inl (''install: spool image to '' @ show_path spool @ '' after '' @ digits_nat n @ '' bytes: '' @ e)) }
      | Inr d \<Rightarrow> do {
          c \<leftarrow> fs_op env (os_write spool d 438);
          case c of
            Inl e \<Rightarrow> do { _ \<leftarrow> attempt (fs_remove env spool);
                         State_Monad.return (Inl (''install: close spool '' @ show_path spool @ '': '' @ e)) }
          | Inr _ \<Rightarrow> State_Monad.return (Inr ()) })"

definition reread_table :: "inst_env \<Rightarrow> string \<Rightarrow> unit io" where
  "reread_table env dev =
    do {
      r \<leftarrow> run_cmd env [''partprobe'', dev];
      _ \<leftarrow> (case snd r of
              None \<Rightarrow> State_Monad.return ()
            | Some e \<Rightarrow> do {
                _ \<leftarrow> log_line env ''warn'' (''partprobe '' @ dev @ '' failed (continuing): '' @ e);
                _ \<leftarrow> log_release env dev ''post-write retry'';
                q \<leftarrow> run_cmd env [''partprobe'', dev];
                when_io (snd q = None) (log_line env ''info'' (''partprobe '' @ dev @ '' succeeded after releasing holders'')) });
      b \<leftarrow> run_cmd env [''blockdev'', ''--rereadpt'', dev];
      when_io (snd b \<noteq> None) (run_quiet env [''partx'', ''-u'', dev])
    }"

text \<open>The spool file is removed whatever happens after it was filled.\<close>

definition convert_image :: "inst_env \<Rightarrow> path \<Rightarrow> string \<Rightarrow> (string, unit) result io" where
  "convert_image env spool dev =
    must_run (''install: qemu-img convert to '' @ dev @ '': '') env
      [''qemu-img'', ''convert'', ''-f'', ''qcow2'', ''-O'', ''raw'', show_path spool, dev]
      (must_run ''install: sync after image write: '' env [''sync'']
        (do { _ \<leftarrow> reread_table env dev; State_Monad.return (Inr ()) }))"

definition write_image :: "inst_env \<Rightarrow> string \<Rightarrow> image_stream \<Rightarrow> string \<Rightarrow> (string, unit) result io" where
  "write_image env work src dev =
    (if dev = [] then State_Monad.return (Inl ''install: WriteImage: devPath is empty'')
     else try_io (''install: prepare workdir '' @ work @ '': '') (fs_mkdir_all env (abs_path work)) (\<lambda>_.
          try_io [] (spool_image env (spool_path work) src) (\<lambda>_.
          do { r \<leftarrow> convert_image env (spool_path work) dev;
               _ \<leftarrow> attempt (fs_remove env (spool_path work));
               State_Monad.return r })))"

subsection \<open>Mounting\<close>

text \<open>The entries of \<open>/etc/fstab\<close> that are mounted: source and target, parents first.\<close>

definition fstab_entry :: "string \<Rightarrow> (string \<times> string) list" where
  "fstab_entry raw =
    (let line = trim_space raw in
     if line = [] \<or> starts_with ''#'' line then []
     else case fields_of line of
       source # target # fstype # _ \<Rightarrow>
         (if target \<in> {''/'', ''swap'', ''none''}
             \<or> fstype \<in> {''swap'', ''tmpfs'', ''proc'', ''sysfs'', ''devpts'', ''devtmpfs''}
          then [] else [(source, target)])
     | _ \<Rightarrow> [])"

definition path_depth :: "string \<Rightarrow> nat" where
  "path_depth s = length (filter (\<lambda>c. c = CHR ''/'') s)"

definition fstab_entries :: "string \<Rightarrow> (string \<times> string) list" where
  "fstab_entries text = sort_key (\<lambda>(s, t). path_depth t) (concat (map fstab_entry (lines_of text)))"

definition resolve_fstab_source :: "inst_env \<Rightarrow> string \<Rightarrow> (string, string) result io" where
  "resolve_fstab_source env source =
    (if starts_with ''/dev/'' source then State_Monad.return (Inr source)
     else if starts_with ''LABEL='' source then
       try_io [] (try_cmd env [''blkid'', ''-L'', drop 6 source]) (\<lambda>out. State_Monad.return (Inr (trim_space out)))
     else if starts_with ''UUID='' source then
       try_io [] (try_cmd env [''blkid'', ''-U'', drop 5 source]) (\<lambda>out. State_Monad.return (Inr (trim_space out)))
     else State_Monad.return (Inr []))"

text \<open>The targets mounted so far come back with an error too, and the mount point taken for the ESP.\<close>

fun mount_entries ::
  "inst_env \<Rightarrow> string \<Rightarrow> string list \<Rightarrow> string \<Rightarrow> (string \<times> string) list \<Rightarrow> (string list \<times> (string, string) result) io"
where
  "mount_entries env root mounted esp [] = State_Monad.return (mounted, Inr esp)"
| "mount_entries env root mounted esp ((source, target) # es) =
    do {
      dev \<leftarrow> resolve_fstab_source env source;
      (if (case dev of Inl e \<Rightarrow> True | Inr d \<Rightarrow> d = []) then mount_entries env root mounted esp es
       else
         let d = (case dev of Inl e \<Rightarrow> [] | Inr d \<Rightarrow> d); t = join_text root [target] in
         do {
           k \<leftarrow> fs_mkdir_all env (abs_path t);
           case k of Inl e \<Rightarrow> State_Monad.return (mounted, Inl (''install: mkdir '' @ t @ '': '' @ e))
           | Inr _ \<Rightarrow> do {
               r \<leftarrow> run_cmd env [''mount'', d, t];
               case snd r of
                 Some e \<Rightarrow> State_Monad.return
                   (mounted, Inl (''install: mount fstab '' @ source @ '' ('' @ d @ '') -> '' @ t @ '': '' @ e))
               | None \<Rightarrow> mount_entries env root (mounted @ [t])
                   (if target \<in> {''/boot/efi'', ''/boot''} then t else esp) es }
         })
    }"

definition mount_from_fstab :: "inst_env \<Rightarrow> string \<Rightarrow> (string list \<times> (string, string) result) io" where
  "mount_from_fstab env root =
    do {
      r \<leftarrow> fs_read env (path_join (abs_path root) [''etc'', ''fstab'']);
      case r of Inl e \<Rightarrow> State_Monad.return ([], Inr [])
      | Inr d \<Rightarrow> mount_entries env root [] [] (fstab_entries d)
    }"

text \<open>\<open>rollback\<close>, and \<open>cleanup\<close>, which keeps the first error.\<close>

definition rollback :: "inst_env \<Rightarrow> string list \<Rightarrow> unit io" where
  "rollback env mounted = each_io (\<lambda>t. run_quiet env [''umount'', t]) (rev mounted)"

fun umount_all :: "inst_env \<Rightarrow> string list \<Rightarrow> (string, unit) result io" where
  "umount_all env [] = State_Monad.return (Inr ())"
| "umount_all env (t # ts) =
    do {
      r \<leftarrow> run_cmd env [''umount'', t];
      rest \<leftarrow> umount_all env ts;
      State_Monad.return (case snd r of Some e \<Rightarrow> Inl (''install: umount '' @ t @ '': '' @ e) | None \<Rightarrow> rest)
    }"

definition cleanup :: "inst_env \<Rightarrow> string list \<Rightarrow> (string, unit) result io" where
  "cleanup env mounted = umount_all env (rev mounted)"

text \<open>A step of the setup after something was mounted: on an error the mounts are undone.\<close>

definition undo_on_error ::
  "inst_env \<Rightarrow> string list \<Rightarrow> string \<Rightarrow> (string, 'a) result io \<Rightarrow> ('a \<Rightarrow> (string, 'b) result io) \<Rightarrow> (string, 'b) result io"
where
  "undo_on_error env mounted pre m k =
    do {
      r \<leftarrow> m;
      case r of Inl e \<Rightarrow> do { _ \<leftarrow> rollback env mounted; State_Monad.return (Inl (pre @ e)) }
      | Inr x \<Rightarrow> k x
    }"

fun bind_mounts :: "inst_env \<Rightarrow> string \<Rightarrow> string list \<Rightarrow> string list \<Rightarrow> (string, string list) result io" where
  "bind_mounts env root mounted [] = State_Monad.return (Inr mounted)"
| "bind_mounts env root mounted (sub # subs) =
    (let t = join_text root [sub] in
     undo_on_error env mounted (''install: mkdir bind '' @ t @ '': '') (fs_mkdir_all env (abs_path t)) (\<lambda>_.
     undo_on_error env mounted (''install: bind '' @ sub @ '' -> '' @ t @ '': '')
       (try_cmd env [''mount'', ''--bind'', sub, t]) (\<lambda>_.
     bind_mounts env root (mounted @ [t]) subs)))"

definition mount_esp ::
  "inst_env \<Rightarrow> string \<Rightarrow> string \<Rightarrow> string list \<Rightarrow> string \<Rightarrow> (string, string \<times> string list) result io"
where
  "mount_esp env part root mounted from_fstab =
    (if from_fstab \<noteq> [] then State_Monad.return (Inr (from_fstab, mounted))
     else undo_on_error env mounted [] (find_esp env (parent_disk_of part) part) (\<lambda>dev.
       if dev = [] then State_Monad.return (Inr ([], mounted))
       else
         let t = join_text root [''boot'', ''efi''] in
         undo_on_error env mounted (''install: mkdir '' @ t @ '': '') (fs_mkdir_all env (abs_path t)) (\<lambda>_.
         undo_on_error env mounted (''install: mount ESP '' @ dev @ '' -> '' @ t @ '': '') (try_cmd env [''mount'', dev, t]) (\<lambda>_.
         State_Monad.return (Inr (t, mounted @ [t]))))))"

definition mount_efivars :: "inst_env \<Rightarrow> string \<Rightarrow> string \<Rightarrow> string list \<Rightarrow> string list io" where
  "mount_efivars env root esp mounted =
    (let t = join_text root [''sys'', ''firmware'', ''efi'', ''efivars''] in
     if esp = [] then State_Monad.return mounted
     else do { r \<leftarrow> run_cmd env [''mount'', ''-t'', ''efivarfs'', ''efivarfs'', t];
               State_Monad.return (if snd r = None then mounted @ [t] else mounted) })"

definition mount_target :: "inst_env \<Rightarrow> string \<Rightarrow> string \<Rightarrow> (string, string \<times> string list) result io" where
  "mount_target env part root =
    (if part = [] \<or> root = [] then State_Monad.return (Inl ''install: Mount: partDev and mntRoot are required'')
     else try_io (''install: mkdir '' @ root @ '': '') (fs_mkdir_all env (abs_path root)) (\<lambda>_.
          try_io (''install: mount '' @ part @ '' -> '' @ root @ '': '') (try_cmd env [''mount'', part, root]) (\<lambda>_.
          do {
            (ms, r) \<leftarrow> mount_from_fstab env root;
            case r of
              Inl e \<Rightarrow> do { _ \<leftarrow> rollback env [root]; State_Monad.return (Inl e) }
            | Inr esp0 \<Rightarrow>
              try_io [] (mount_esp env part root ([root] @ ms) esp0) (\<lambda>(esp, mounted).
              try_io [] (bind_mounts env root mounted [''/proc'', ''/sys'', ''/dev'', ''/dev/pts'', ''/run'']) (\<lambda>mounted2.
              do { all \<leftarrow> mount_efivars env root esp mounted2; State_Monad.return (Inr (esp, all)) }))
          })))"

end
