(* ===== verification/Net_Plan.thy ===== *)
theory Net_Plan
  imports Net_Render
begin

text \<open>
  What the network files of \<open>Net_Render\<close> mean: the address plan of a machine, and for each format a
  reader that looks the plan of a device up in the lines of a file. The renderers of a bond agree on
  the plan, and each of them binds the slaves by hardware address.
\<close>

subsection \<open>Texts of addresses\<close>

definition ip_char :: "char \<Rightarrow> bool" where
  "ip_char c \<longleftrightarrow> is_hex c \<or> c = CHR ''.'' \<or> c = CHR '':''"

definition ip_literal :: "string \<Rightarrow> bool" where
  "ip_literal s \<longleftrightarrow> s \<noteq> [] \<and> (\<forall>c \<in> set s. ip_char c)"

lemma ip_char_plain:
  "ip_char c \<Longrightarrow> c \<notin> {CHR 0x22, CHR 0x5C, CHR '' '', CHR '','', CHR '';'', CHR ''/'', nl} \<and> 32 \<le> byte c \<and> byte c < 127"
  by (auto simp: ip_char_def is_hex_def is_lower_hex_def is_digit_def)

lemma is_digit_ip: "is_digit c \<Longrightarrow> ip_char c"
  by (simp add: ip_char_def is_hex_def is_lower_hex_def)

lemma parse_dec_chars: "parse_dec m s = Some n \<Longrightarrow> c \<in> set s \<Longrightarrow> ip_char c"
  by (auto simp: parse_dec_def list_all_iff ip_char_def is_hex_def is_lower_hex_def split: if_splits)

lemma parse_ip4_chars:
  assumes "parse_ip4 s = Some w" "c \<in> set s"
  shows "ip_char c"
proof -
  have "\<forall>p \<in> set (split_on CHR ''.'' s). \<exists>n. parse_dec 255 p = Some n"
    using assms(1) by (auto simp: parse_ip4_def split: list.splits option.splits)
  moreover have "c = CHR ''.'' \<or> (\<exists>p \<in> set (split_on CHR ''.'' s). c \<in> set p)"
    using set_split_on [of s "CHR ''.''"] assms(2) by auto
  ultimately show ?thesis
    using parse_dec_chars by (fastforce simp: ip_char_def)
qed

lemma takeWhile_drop_set: "c \<in> set s \<Longrightarrow> c \<in> set (takeWhile P s) \<or> c \<in> set (drop (length (takeWhile P s)) s)"
  by (metis dropWhile_eq_drop set_append takeWhile_dropWhile_id UnE)

lemma ip6_groups_all:
  "ip6_groups k s gs el = Some (gs', el', rest) \<Longrightarrow> c \<in> set s \<Longrightarrow> ip_char c \<or> c \<in> set rest"
proof (induction k s gs el rule: ip6_groups.induct)
  case (2 k s gs el)
  define h where "h = takeWhile is_hex s"
  define r where "r = drop (length h) s"
  define gs1 where "gs1 = gs @ [val_hex h]"
  note run = "2.prems"(1) [unfolded ip6_groups.simps Let_def, folded h_def, folded r_def gs1_def]
  have hex: "ip_char c" if "c \<in> set h"
    using that set_takeWhileD [of c is_hex s] by (simp add: h_def ip_char_def)
  have split: "c \<in> set h \<or> c \<in> set r"
    using takeWhile_drop_set [OF "2.prems"(2), of is_hex] by (simp add: h_def r_def)
  show ?case
  proof (cases "c \<in> set h")
    case False
    then have r: "c \<in> set r" using split by simp
    then have ne: "r \<noteq> []" by auto
    show ?thesis
    proof (cases "hd r = CHR ''.''")
      case True
      then obtain w where "parse_ip4 s = Some w"
        using run ne by (auto split: if_splits option.splits)
      then show ?thesis using parse_ip4_chars "2.prems"(2) by blast
    next
      case False
      then have colon: "hd r = CHR '':''" "tl r \<noteq> []"
        using run ne by (auto split: if_splits)
      have c: "c = CHR '':'' \<or> c \<in> set (tl r)"
        using r ne colon(1) by (cases r) auto
      show ?thesis
      proof (cases "hd (tl r) = CHR '':''")
        case dbl: True
        have c2: "c = CHR '':'' \<or> c \<in> set (tl (tl r))"
          using c colon dbl by (cases "tl r") auto
        show ?thesis
        proof (cases "tl (tl r) = []")
          case True then show ?thesis using c2 by (auto simp: ip_char_def)
        next
          case more: False
          have "ip6_groups k (tl (tl r)) gs1 (Some (length gs1)) = Some (gs', el', rest)"
            using run ne False colon dbl more by (auto split: if_splits)
          moreover have "h \<noteq> [] \<and> length h \<le> 4" "el = None"
            using run ne False colon dbl more by (auto split: if_splits)
          ultimately show ?thesis
            using "2.IH"(1) [OF h_def r_def gs1_def] ne False colon dbl more c2 by (auto simp: ip_char_def)
        qed
      next
        case single: False
        have "ip6_groups k (tl r) gs1 el = Some (gs', el', rest)" "h \<noteq> [] \<and> length h \<le> 4"
          using run ne False colon single by (auto split: if_splits)
        then show ?thesis
          using "2.IH"(2) [OF h_def r_def gs1_def] ne False colon single c by (auto simp: ip_char_def)
      qed
    qed
  qed (simp add: hex)
qed simp

lemma ip6_groups_chars: "ip6_groups k s gs el = Some (gs', el', []) \<Longrightarrow> c \<in> set s \<Longrightarrow> ip_char c"
  by (drule (1) ip6_groups_all) simp

lemma ip6_finish_rest: "ip6_finish r = Some gs \<Longrightarrow> \<exists>gs' el. r = Some (gs', el, [])"
  by (auto simp: ip6_finish_def split: option.splits prod.splits if_splits)

lemma parse_ip6_chars:
  assumes "parse_ip6 s = Some gs" "c \<in> set s"
  shows "ip_char c"
proof (cases "starts_with ''::'' s")
  case True
  have "take 2 s = ''::''" using True by (simp add: starts_with_def numeral_2_eq_2)
  moreover have "set s = set (take 2 s) \<union> set (drop 2 s)"
    by (metis append_take_drop_id set_append)
  ultimately have "c = CHR '':'' \<or> c \<in> set (drop 2 s)"
    using assms(2) by auto
  moreover have "ip_char c" if "c \<in> set (drop 2 s)"
  proof -
    have "drop 2 s \<noteq> []" using that by auto
    then have "ip6_finish (ip6_groups 8 (drop 2 s) [] (Some 0)) = Some gs"
      using assms(1) True by (simp add: parse_ip6_def)
    then obtain gs' el where "ip6_groups 8 (drop 2 s) [] (Some 0) = Some (gs', el, [])"
      using ip6_finish_rest by blast
    then show ?thesis using that by (rule ip6_groups_chars)
  qed
  ultimately show ?thesis by (auto simp: ip_char_def)
next
  case False
  then have "ip6_finish (ip6_groups 8 s [] None) = Some gs"
    using assms(1) by (simp add: parse_ip6_def)
  then obtain gs' el where "ip6_groups 8 s [] None = Some (gs', el, [])"
    using ip6_finish_rest by blast
  then show ?thesis using assms(2) by (rule ip6_groups_chars)
qed

lemma parse_to4_ip_literal:
  assumes "parse_to4 s = Some w"
  shows "ip_literal s"
proof -
  have ne: "parse_ip s \<noteq> []"
    using assms by (auto simp: parse_to4_def addr_from_to4_def to4_def split: if_splits)
  then obtain a where a: "parse_addr s = Some a"
    by (auto simp: parse_ip_def split: option.splits)
  have "ip_char c" if c: "c \<in> set s" for c
  proof (cases a)
    case (Addr4 v)
    then have "parse_ip4 s = Some v" using parse_addr_is4 [OF a] by auto
    then show ?thesis using parse_ip4_chars c by blast
  next
    case (Addr6 gs zone)
    then have z: "zone = []" using ne a by (auto simp: parse_ip_def split: if_splits)
    let ?body = "takeWhile (\<lambda>c. c \<noteq> CHR ''%'') s"
    have "CHR ''%'' \<notin> set s" "parse_ip6 ?body = Some gs"
      using a z Addr6 by (auto simp: parse_addr_def Let_def split: option.splits if_splits)
    moreover from this(1) have "?body = s" by (auto simp: takeWhile_eq_all_conv)
    ultimately have "parse_ip6 s = Some gs" by simp
    then show ?thesis using c by (rule parse_ip6_chars)
  next
    case AddrZero
    then show ?thesis using ne a by (simp add: parse_ip_def)
  qed
  moreover have "s \<noteq> []" using a by (auto simp: parse_addr_def)
  ultimately show ?thesis by (simp add: ip_literal_def)
qed

subsection \<open>Address plans and how the formats carry them\<close>

record ip_plan =
  pl_dhcp :: bool
  pl_addr :: "(string \<times> int) option"
  pl_gateway :: string
  pl_dns :: "string list"

definition dhcp_plan :: ip_plan where
  "dhcp_plan = \<lparr>pl_dhcp = True, pl_addr = None, pl_gateway = [], pl_dns = []\<rparr>"

definition plan_of :: "network_config \<Rightarrow> binding \<Rightarrow> ip_plan" where
  "plan_of nc b =
    (if nc_method nc = ''dhcp'' then dhcp_plan
     else \<lparr>pl_dhcp = False, pl_addr = Some (bd_address b, nc_prefix_len nc),
           pl_gateway = nc_gateway nc, pl_dns = nc_dns nc\<rparr>)"

text \<open>What the validators of profiles, subnets and assignments leave of a template and an assignment.\<close>

definition plan_ok :: "network_config \<Rightarrow> binding \<Rightarrow> bool" where
  "plan_ok nc b \<longleftrightarrow>
    nc_method nc = ''dhcp''
    \<or> ip_literal (bd_address b) \<and> 1 \<le> nc_prefix_len nc \<and> nc_prefix_len nc \<le> 32
      \<and> (nc_gateway nc = [] \<or> ip_literal (nc_gateway nc)) \<and> (\<forall>d \<in> set (nc_dns nc). ip_literal d)"

fun lead_off :: "string \<Rightarrow> string \<Rightarrow> string option" where
  "lead_off [] s = Some s"
| "lead_off (c # w) [] = None"
| "lead_off (c # w) (d # s) = (if c = d then lead_off w s else None)"

primrec line_value :: "string \<Rightarrow> string list \<Rightarrow> string option" where
  "line_value key [] = None"
| "line_value key (l # ls) = (case lead_off key l of Some v \<Rightarrow> Some v | None \<Rightarrow> line_value key ls)"

definition or_empty :: "string option \<Rightarrow> string" where
  "or_empty r = (case r of Some v \<Rightarrow> v | None \<Rightarrow> [])"

definition read_int :: "string \<Rightarrow> int" where
  "read_int s = int (val_digits s)"

definition split_slash :: "string \<Rightarrow> string \<times> int" where
  "split_slash s = (takeWhile (\<lambda>c. c \<noteq> CHR ''/'') s, read_int (drop 1 (dropWhile (\<lambda>c. c \<noteq> CHR ''/'') s)))"

text \<open>Variable assignments, NetworkManager's sections, the stanzas of \<open>interfaces\<close>, netplan's nested maps.\<close>

definition read_ifcfg :: "string list \<Rightarrow> ip_plan" where
  "read_ifcfg ls =
    (if line_value ''BOOTPROTO='' ls = Some ''dhcp'' then dhcp_plan
     else \<lparr>pl_dhcp = False,
           pl_addr = (case (line_value ''IPADDR='' ls, line_value ''PREFIX='' ls) of
             (Some a, Some p) \<Rightarrow> Some (a, read_int p) | _ \<Rightarrow> None),
           pl_gateway = or_empty (line_value ''GATEWAY='' ls),
           pl_dns = concat (map (\<lambda>l. case lead_off ''DNS'' l of
             Some r \<Rightarrow> [drop 1 (dropWhile (\<lambda>c. c \<noteq> CHR ''='') r)] | None \<Rightarrow> []) ls)\<rparr>)"

primrec ini_body :: "string \<Rightarrow> string list \<Rightarrow> string list" where
  "ini_body sec [] = []"
| "ini_body sec (l # ls) = (if l = sec then takeWhile (\<lambda>x. \<not> starts_with ''['' x) ls else ini_body sec ls)"

definition read_nm :: "string list \<Rightarrow> ip_plan" where
  "read_nm ls =
    (let s = ini_body ''[ipv4]'' ls in
     if line_value ''method='' s = Some ''auto'' then dhcp_plan
     else \<lparr>pl_dhcp = False, pl_addr = map_option split_slash (line_value ''address1='' s),
           pl_gateway = or_empty (line_value ''gateway='' s),
           pl_dns = (case line_value ''dns='' s of Some v \<Rightarrow> split_on CHR '';'' v | None \<Rightarrow> [])\<rparr>)"

primrec stanza :: "string \<Rightarrow> string list \<Rightarrow> (string \<times> string list) option" where
  "stanza key [] = None"
| "stanza key (l # ls) =
    (case lead_off key l of
       Some r \<Rightarrow> Some (r, takeWhile (starts_with ''    '') ls)
     | None \<Rightarrow> stanza key ls)"

definition mask_len :: "string \<Rightarrow> int" where
  "mask_len m = (case find (\<lambda>n. prefix_to_netmask n = m) [0..32] of Some n \<Rightarrow> n | None \<Rightarrow> 24)"

definition iface_key :: "string \<Rightarrow> string" where
  "iface_key dev = ''iface '' @ dev @ '' inet ''"

definition read_eni :: "string \<Rightarrow> string list \<Rightarrow> ip_plan option" where
  "read_eni dev ls =
    (case stanza (iface_key dev) ls of
       None \<Rightarrow> None
     | Some (kind, s) \<Rightarrow>
       Some (if kind = ''dhcp'' then dhcp_plan
        else \<lparr>pl_dhcp = False,
              pl_addr = (case (line_value ''    address '' s, line_value ''    netmask '' s) of
                (Some a, Some m) \<Rightarrow> Some (a, mask_len m) | _ \<Rightarrow> None),
              pl_gateway = or_empty (line_value ''    gateway '' s),
              pl_dns = (case line_value ''    dns-nameservers '' s of Some v \<Rightarrow> split_on CHR '' '' v | None \<Rightarrow> [])\<rparr>))"

fun odds :: "'a list \<Rightarrow> 'a list" where
  "odds (x # y # zs) = y # odds zs"
| "odds _ = []"

definition quoted_words :: "string \<Rightarrow> string list" where
  "quoted_words s = odds (split_on CHR 0x22 s)"

primrec yaml_body :: "string \<Rightarrow> string \<Rightarrow> string list \<Rightarrow> string list" where
  "yaml_body key ind [] = []"
| "yaml_body key ind (l # ls) = (if l = key then takeWhile (starts_with ind) ls else yaml_body key ind ls)"

definition read_netplan :: "string \<Rightarrow> string \<Rightarrow> string list \<Rightarrow> ip_plan" where
  "read_netplan key ind ls =
    (let s = yaml_body key ind ls; words = (\<lambda>k. case line_value (ind @ k) s of Some v \<Rightarrow> quoted_words v | None \<Rightarrow> []) in
     if line_value (ind @ ''dhcp4: '') s = Some ''true'' then dhcp_plan
     else \<lparr>pl_dhcp = False,
           pl_addr = (case words ''addresses: ['' of a # _ \<Rightarrow> Some (split_slash a) | [] \<Rightarrow> None),
           pl_gateway = concat (words ''gateway4: ''),
           pl_dns = words ''  addresses: [''\<rparr>)"

subsection \<open>Reading what was written\<close>

lemma lead_off_append [simp]: "lead_off w (w @ s) = Some s"
  by (induction w) auto

lemma line_value_append: "line_value k (xs @ ys) = (case line_value k xs of Some v \<Rightarrow> Some v | None \<Rightarrow> line_value k ys)"
  by (induction xs) (auto split: option.splits)

lemma line_value_if: "line_value k (if c then xs else ys) = (if c then line_value k xs else line_value k ys)"
  by simp

lemma line_value_none: "(\<And>l. l \<in> set ls \<Longrightarrow> lead_off k l = None) \<Longrightarrow> line_value k ls = None"
  by (induction ls) auto

lemma ip_literal_ne: "ip_literal s \<Longrightarrow> s \<noteq> []"
  by (simp add: ip_literal_def)

lemma ip_literal_notin: "ip_literal s \<Longrightarrow> c \<in> {CHR 0x22, CHR 0x5C, CHR '' '', CHR '','', CHR '';'', CHR ''/'', nl} \<Longrightarrow> c \<notin> set s"
  using ip_char_plain [of c] by (auto simp: ip_literal_def)

lemma quote_byte_plain:
  assumes "32 \<le> byte c" "byte c < 127" "c \<noteq> CHR 0x22" "c \<noteq> CHR 0x5C"
  shows "quote_byte c = [c]"
proof -
  have "c \<noteq> d" if "byte d < 32" for d
    using that assms(1) by (metis linorder_not_le)
  then have "c \<noteq> CHR 0x07" "c \<noteq> CHR 0x08" "c \<noteq> CHR 0x0C" "c \<noteq> CHR 0x0A" "c \<noteq> CHR 0x0D" "c \<noteq> CHR 0x09"
    "c \<noteq> CHR 0x0B"
    by simp_all
  then show ?thesis using assms by (simp add: quote_byte_def)
qed

lemma go_quote_plain:
  assumes "\<And>c. c \<in> set s \<Longrightarrow> 32 \<le> byte c \<and> byte c < 127 \<and> c \<noteq> CHR 0x22 \<and> c \<noteq> CHR 0x5C"
  shows "go_quote s = CHR 0x22 # s @ [CHR 0x22]"
proof -
  have "concat (map quote_byte s) = s"
    using assms by (induction s) (auto simp: quote_byte_plain)
  then show ?thesis by (simp add: go_quote_def)
qed

lemma go_quote_ip: 
  assumes "ip_literal s"
  shows "go_quote s = CHR 0x22 # s @ [CHR 0x22]"
proof (rule go_quote_plain)
  fix c assume "c \<in> set s"
  then have "ip_char c" using assms by (simp add: ip_literal_def)
  then show "32 \<le> byte c \<and> byte c < 127 \<and> c \<noteq> CHR 0x22 \<and> c \<noteq> CHR 0x5C"
    using ip_char_plain [of c] by auto
qed

lemma show_int_pos: "0 \<le> n \<Longrightarrow> show_int n = digits_nat (nat n)"
  by (simp add: show_int_def)

lemma read_show_int [simp]: "0 \<le> n \<Longrightarrow> read_int (show_int n) = n"
  using digits_nat_props [of "nat n"] by (simp add: read_int_def show_int_def)

lemma digits_plain: "c \<in> set (digits_nat n) \<Longrightarrow> is_digit c"
  using digits_nat_props by blast

lemma is_digit_byte: "is_digit c \<Longrightarrow> 48 \<le> byte c \<and> byte c < 58"
  by (auto simp: is_digit_def)

lemma is_digit_not: "is_digit c \<Longrightarrow> c \<notin> {CHR 0x22, CHR 0x5C, CHR '' '', CHR '','', CHR '';'', CHR ''/'', CHR ''='', CHR ''n'', nl}"
  by (auto simp: is_digit_def)

lemma digits_ne [simp]: "digits_nat n \<noteq> []"
  using digits_nat_props by blast

lemma go_quote_cidr:
  assumes "ip_literal a" "0 \<le> n"
  shows "go_quote (a @ ''/'' @ show_int n) = CHR 0x22 # (a @ ''/'' @ show_int n) @ [CHR 0x22]"
proof (rule go_quote_plain)
  fix c assume "c \<in> set (a @ ''/'' @ show_int n)"
  then have "ip_char c \<or> c = CHR ''/'' \<or> is_digit c"
    using assms digits_plain by (auto simp: ip_literal_def show_int_pos)
  then show "32 \<le> byte c \<and> byte c < 127 \<and> c \<noteq> CHR 0x22 \<and> c \<noteq> CHR 0x5C"
    using ip_char_plain [of c] is_digit_ip [of c] by auto
qed

lemma split_at_char:
  "d \<notin> set a \<Longrightarrow> takeWhile (\<lambda>c. c \<noteq> d) (a @ d # s) = a \<and> drop 1 (dropWhile (\<lambda>c. c \<noteq> d) (a @ d # s)) = s"
  by (induction a) auto

lemma split_slash_cidr: "ip_literal a \<Longrightarrow> 0 \<le> n \<Longrightarrow> split_slash (a @ ''/'' @ show_int n) = (a, n)"
  using ip_literal_notin [of a "CHR ''/''"] split_at_char [of "CHR ''/''" a "show_int n"] by (simp add: split_slash_def)

text \<open>The words of a bracketed list of quoted literals.\<close>

lemma quoted_words_Cons:
  "CHR 0x22 \<notin> set a \<Longrightarrow> CHR 0x22 \<notin> set u \<Longrightarrow>
   quoted_words (u @ CHR 0x22 # a @ CHR 0x22 # s) = a # quoted_words s"
  by (simp add: quoted_words_def split_on_append)

lemma quoted_words_stop: "CHR 0x22 \<notin> set s \<Longrightarrow> quoted_words s = []"
  by (simp add: quoted_words_def split_on_none)

lemma odds_head: "odds (x # ys) = odds (y # ys)"
  by (cases ys) auto

lemma quoted_words_lead: "CHR 0x22 \<notin> set u \<Longrightarrow> quoted_words (u @ CHR 0x22 # s) = quoted_words (CHR 0x22 # s)"
  using odds_head [of u "split_on CHR 0x22 s" "[]"] by (simp add: quoted_words_def split_on_append)

lemma quoted_words_one: "CHR 0x22 \<notin> set a \<Longrightarrow> CHR 0x22 \<notin> set s \<Longrightarrow> quoted_words (CHR 0x22 # a @ CHR 0x22 # s) = [a]"
  using quoted_words_Cons [of a "[]" s] by (simp add: quoted_words_stop)

lemma quoted_words_list:
  assumes "ds \<noteq> []" "\<And>d. d \<in> set ds \<Longrightarrow> ip_literal d"
  shows "quoted_words (join_with '', '' (map go_quote ds) @ '']'') = ds"
  using assms
proof (induction ds rule: induct_list012)
  case (2 d)
  then show ?case
    using ip_literal_notin [of d "CHR 0x22"] by (simp add: go_quote_ip quoted_words_one)
next
  case (3 d e ds)
  have d: "CHR 0x22 \<notin> set d" using 3(4) ip_literal_notin [of d "CHR 0x22"] by simp
  let ?s = "join_with '', '' (map go_quote (e # ds)) @ '']''"
  have "quoted_words ('', '' @ ?s) = quoted_words ?s"
    using 3(4) [of e] quoted_words_lead [of "'', ''"] by (cases ds) (simp_all add: go_quote_ip)
  moreover have "join_with '', '' (map go_quote (d # e # ds)) @ '']'' = CHR 0x22 # d @ CHR 0x22 # '', '' @ ?s"
    using 3(4) [of d] by (simp add: go_quote_ip)
  moreover have "quoted_words (CHR 0x22 # d @ CHR 0x22 # '', '' @ ?s) = d # quoted_words ('', '' @ ?s)"
    using quoted_words_Cons [of d "[]" "'', '' @ ?s"] d by simp
  ultimately show ?case using 3 by simp
qed simp

lemma cidr_mask_inj:
  assumes "m \<le> 32" "n \<le> 32" "cidr_mask m = cidr_mask n"
  shows "m = n"
proof -
  have "card {i. i < 32 \<and> bit (cidr_mask k) i} = k" if "k \<le> 32" for k :: nat
  proof -
    have "{i. i < 32 \<and> bit (cidr_mask k) i} = {32 - k..<32}"
      by (auto simp: cidr_mask_def bit_simps)
    then show ?thesis using that by simp
  qed
  then show ?thesis using assms by metis
qed

lemma mask_len_netmask:
  assumes "1 \<le> n" "n \<le> 32"
  shows "mask_len (prefix_to_netmask n) = n"
proof -
  have inj: "m = n" if "m \<in> set [0..32]" "prefix_to_netmask m = prefix_to_netmask n" for m
  proof -
    have m: "0 \<le> m" "m \<le> 32" using that(1) by auto
    have "cidr_mask (nat m) = cidr_mask (nat n)"
      using that(2) m assms by (simp add: prefix_to_netmask_def)
    then have "nat m = nat n"
      using m assms cidr_mask_inj by simp
    then show ?thesis using m assms by simp
  qed
  have "find (\<lambda>m. prefix_to_netmask m = prefix_to_netmask n) [0..32] = Some n"
  proof (cases "find (\<lambda>m. prefix_to_netmask m = prefix_to_netmask n) [0..32]")
    case None
    then show ?thesis using assms by (auto simp: find_None_iff)
  next
    case (Some m)
    then have "m \<in> set [0..32]" "prefix_to_netmask m = prefix_to_netmask n"
      by (auto simp: find_Some_iff)
    then show ?thesis using inj Some by simp
  qed
  then show ?thesis by (simp add: mask_len_def)
qed

lemma ini_body_skip: "sec \<notin> set pre \<Longrightarrow> ini_body sec (pre @ ls) = ini_body sec ls"
  by (induction pre) auto

lemma takeWhile_all_append: "(\<And>x. x \<in> set xs \<Longrightarrow> P x) \<Longrightarrow> takeWhile P (xs @ ys) = xs @ takeWhile P ys"
  by (simp add: takeWhile_append2)

lemma plan_okD:
  assumes "plan_ok nc b" "nc_method nc \<noteq> ''dhcp''"
  shows "ip_literal (bd_address b)" "bd_address b \<noteq> []" "1 \<le> nc_prefix_len nc" "nc_prefix_len nc \<le> 32"
    "\<And>d. d \<in> set (nc_dns nc) \<Longrightarrow> ip_literal d" "nc_gateway nc \<noteq> [] \<Longrightarrow> ip_literal (nc_gateway nc)"
  using assms by (auto simp: plan_ok_def ip_literal_def)

lemma split_dns:
  assumes "ds \<noteq> []" "\<And>d. d \<in> set ds \<Longrightarrow> ip_literal d" "c \<in> {CHR '' '', CHR '';''}"
  shows "split_on c (join_with [c] ds) = ds"
  using assms ip_literal_notin by (intro split_join) auto

lemma read_nm_ip:
  assumes ok: "plan_ok nc b" and pre: "''[ipv4]'' \<notin> set pre"
    and post: "post = [] \<or> post = [[], ''[ipv6]'', ''method=disabled'']"
  shows "read_nm (pre @ ''[ipv4]'' # nm_ip nc b @ post) = plan_of nc b"
proof -
  have lines: "\<not> starts_with ''['' l" if "l \<in> set (nm_ip nc b)" for l
    using that by (auto simp: nm_ip_def starts_with_Cons split: if_splits)
  have "ini_body ''[ipv4]'' (pre @ ''[ipv4]'' # nm_ip nc b @ post)
        = nm_ip nc b @ takeWhile (\<lambda>x. \<not> starts_with ''['' x) post"
    by (simp add: ini_body_skip [OF pre] takeWhile_all_append lines)
  moreover have "takeWhile (\<lambda>x. \<not> starts_with ''['' x) post \<in> {[], [[]]}"
    using post by (auto simp: starts_with_Cons starts_with_def)
  ultimately obtain e where body: "ini_body ''[ipv4]'' (pre @ ''[ipv4]'' # nm_ip nc b @ post) = nm_ip nc b @ e"
    and e: "e = [] \<or> e = [[]]" by auto
  have fe: "line_value (c # k) e = None" for c k using e by auto
  show ?thesis
  proof (cases "nc_method nc = ''dhcp''")
    case True
    then show ?thesis unfolding read_nm_def body by (simp add: nm_ip_def plan_of_def)
  next
    case False
    note ok = plan_okD [OF ok False]
    have dns: "split_on CHR '';'' (join_with '';'' (nc_dns nc)) = nc_dns nc" if "nc_dns nc \<noteq> []"
      using that ok(5) by (intro split_dns) auto
    show ?thesis unfolding read_nm_def body using False ok(1-4) dns
      by (simp add: nm_ip_def plan_of_def line_value_append fe Let_def or_empty_def split_slash_cidr [simplified])
  qed
qed

lemma ifcfg_dns_lines:
  "concat (map (\<lambda>l. case lead_off ''DNS'' l of Some r \<Rightarrow> [drop 1 (dropWhile (\<lambda>c. c \<noteq> CHR ''='') r)] | None \<Rightarrow> [])
     (map (\<lambda>(i, d). ''DNS'' @ digits_nat (Suc i) @ ''='' @ d) (enumerate k ds))) = ds"
proof (induction ds arbitrary: k)
  case (Cons d ds)
  have "CHR ''='' \<notin> set (digits_nat (Suc k))" using digits_plain is_digit_not by blast
  then have "drop 1 (dropWhile (\<lambda>c. c \<noteq> CHR ''='') (digits_nat (Suc k) @ CHR ''='' # d)) = d"
    by (rule conjunct2 [OF split_at_char])
  then show ?case using Cons by simp
qed simp

lemma read_ifcfg_ip:
  assumes ok: "plan_ok nc b"
    and pre: "line_value ''BOOTPROTO='' pre = None" "line_value ''IPADDR='' pre = None" "line_value ''PREFIX='' pre = None"
      "line_value ''GATEWAY='' pre = None" "line_value ''DNS'' pre = None"
  shows "read_ifcfg (pre @ ifcfg_ip nc b) = plan_of nc b"
proof (cases "nc_method nc = ''dhcp''")
  case True
  then show ?thesis using pre(1) by (simp add: read_ifcfg_def ifcfg_ip_def line_value_append plan_of_def)
next
  case False
  note ok = plan_okD [OF ok False]
  have pre_dns: "concat (map (\<lambda>l. case lead_off ''DNS'' l of Some r \<Rightarrow> [drop 1 (dropWhile (\<lambda>c. c \<noteq> CHR ''='') r)] | None \<Rightarrow> []) pre) = []"
    using pre(5) by (induction pre) (auto split: option.splits)
  have skip: "line_value (c # k) (map (\<lambda>(i, d). ''DNS'' @ digits_nat (Suc i) @ ''='' @ d) (enumerate m ds)) = None"
    if "c \<noteq> CHR ''D''" for c k m ds
    using that by (induction ds arbitrary: m) auto
  show ?thesis unfolding read_ifcfg_def using False ok(1-4) pre pre_dns
    by (simp add: ifcfg_ip_def line_value_append skip [simplified] plan_of_def or_empty_def ifcfg_dns_lines [simplified])
qed

lemma lead_off_iff: "lead_off w s = Some r \<longleftrightarrow> s = w @ r"
  by (induction w s rule: lead_off.induct) auto

lemma lead_off_None: "lead_off w s = None \<longleftrightarrow> \<not> starts_with w s"
  by (induction w s rule: lead_off.induct) (auto simp: starts_with_Cons)

lemma first_word_eq:
  assumes "u @ CHR '' '' # s = v @ CHR '' '' # t" "CHR '' '' \<notin> set u" "CHR '' '' \<notin> set v"
  shows "u = v"
  using assms split_at_char by metis

lemma stanza_skip: "(\<And>l. l \<in> set pre \<Longrightarrow> lead_off key l = None) \<Longrightarrow> stanza key (pre @ ls) = stanza key ls"
  by (induction pre) auto

lemma line_value_takeWhile:
  "(\<And>l. l \<in> set ls \<Longrightarrow> P l) \<Longrightarrow> line_value k (takeWhile P ls) = line_value k ls"
  by (simp add: takeWhile_eq_all_conv [THEN iffD2])

definition eni_keys :: "string list" where
  "eni_keys = [''    address '', ''    netmask '', ''    gateway '', ''    dns-nameservers '']"

lemma read_eni_ip:
  assumes ok: "plan_ok nc b"
    and pre: "\<And>l. l \<in> set pre \<Longrightarrow> lead_off (iface_key dev) l = None"
    and post: "\<And>l. l \<in> set post \<Longrightarrow> starts_with ''    '' l" "\<And>k. k \<in> set eni_keys \<Longrightarrow> line_value k post = None"
    and rest: "rest = [] \<or> hd rest = []"
  shows "read_eni dev (pre @ eni_iface nc b dev @ post @ rest) = Some (plan_of nc b)"
proof -
  have stop: "takeWhile (starts_with ''    '') rest = []"
    using rest by (cases rest) (auto simp: starts_with_def)
  have posts: "line_value ''    address '' post = None" "line_value ''    netmask '' post = None"
    "line_value ''    gateway '' post = None" "line_value ''    dns-nameservers '' post = None"
    using post(2) by (simp_all add: eni_keys_def)
  have ip: "starts_with ''    '' l" if "l \<in> set (eni_ip nc b)" for l
    using that by (auto simp: eni_ip_def starts_with_Cons split: if_splits)
  have key: "lead_off (iface_key dev) (''iface '' @ dev @ '' inet '' @ k) = Some k" for k
    by (simp add: lead_off_iff iface_key_def)
  have st: "stanza (iface_key dev) (pre @ (''iface '' @ dev @ '' inet '' @ k) # ls)
      = Some (k, takeWhile (starts_with ''    '') ls)" for k ls
    by (simp only: stanza_skip [OF pre] stanza.simps key option.simps)
  show ?thesis
  proof (cases "nc_method nc = ''dhcp''")
    case True
    then have e: "eni_iface nc b dev = [''iface '' @ dev @ '' inet '' @ ''dhcp'']"
      by (simp add: eni_iface_def)
    have "stanza (iface_key dev) (pre @ eni_iface nc b dev @ post @ rest)
        = Some (''dhcp'', takeWhile (starts_with ''    '') (post @ rest))"
      unfolding e using st [of "''dhcp''" "post @ rest"] by simp
    then show ?thesis using True unfolding read_eni_def by (simp add: plan_of_def)
  next
    case False
    note ok = plan_okD [OF ok False]
    have dns: "split_on CHR '' '' (join_with '' '' (nc_dns nc)) = nc_dns nc" if "nc_dns nc \<noteq> []"
      using that ok(5) by (intro split_dns) auto
    have e: "eni_iface nc b dev = (''iface '' @ dev @ '' inet '' @ ''static'') # eni_ip nc b"
      using False by (simp add: eni_iface_def)
    have "stanza (iface_key dev) (pre @ eni_iface nc b dev @ post @ rest)
        = Some (''static'', takeWhile (starts_with ''    '') ((eni_ip nc b @ post) @ rest))"
      unfolding e using st [of "''static''" "(eni_ip nc b @ post) @ rest"] by simp
    moreover have "takeWhile (starts_with ''    '') ((eni_ip nc b @ post) @ rest) = eni_ip nc b @ post"
      using ip post(1) stop by (subst takeWhile_all_append) auto
    ultimately have st: "stanza (iface_key dev) (pre @ eni_iface nc b dev @ post @ rest)
        = Some (''static'', eni_ip nc b @ post)" by simp
    have mask: "mask_len (prefix_to_netmask (nc_prefix_len nc)) = nc_prefix_len nc"
      using ok(3,4) by (rule mask_len_netmask)
    show ?thesis unfolding read_eni_def st using False ok(1-4) posts dns mask
      by (simp add: eni_ip_def line_value_append plan_of_def or_empty_def)
  qed
qed

lemma yaml_body_skip: "key \<notin> set pre \<Longrightarrow> yaml_body key ind (pre @ ls) = yaml_body key ind ls"
  by (induction pre) auto

definition netplan_keys :: "string list" where
  "netplan_keys = [''dhcp4: '', ''addresses: ['', ''gateway4: '', ''  addresses: ['']"

lemma lead_off_app [simp]: "lead_off (ind @ k) (ind @ s) = lead_off k s"
  by (induction ind) auto

lemma read_netplan_ip:
  assumes ok: "plan_ok nc b" and pre: "key \<notin> set pre"
    and mid: "\<And>l. l \<in> set mid \<Longrightarrow> starts_with ind l" "\<And>k. k \<in> set netplan_keys \<Longrightarrow> line_value (ind @ k) mid = None"
  shows "read_netplan key ind (pre @ key # mid @ write_ip ind nc b) = plan_of nc b"
proof -
  have self: "starts_with ind (ind @ k)" for k
    by (simp add: starts_with_def)
  have "starts_with ind l" if "l \<in> set (write_ip ind nc b)" for l
    using that self by (auto simp: write_ip_def split: if_splits)
  then have body: "yaml_body key ind (pre @ key # mid @ write_ip ind nc b) = mid @ write_ip ind nc b"
    using mid(1) by (simp add: yaml_body_skip [OF pre] takeWhile_eq_all_conv [THEN iffD2])
  have mids: "line_value (ind @ ''dhcp4: '') mid = None" "line_value (ind @ ''addresses: ['') mid = None"
    "line_value (ind @ ''gateway4: '') mid = None" "line_value (ind @ ''  addresses: ['') mid = None"
    using mid(2) by (simp_all add: netplan_keys_def)
  show ?thesis
  proof (cases "nc_method nc = ''dhcp''")
    case True
    then show ?thesis unfolding read_netplan_def body by (simp add: write_ip_def line_value_append mids plan_of_def)
  next
    case False
    note ok = plan_okD [OF ok False]
    have q: "CHR 0x22 \<notin> set (bd_address b)" "nc_gateway nc \<noteq> [] \<Longrightarrow> CHR 0x22 \<notin> set (nc_gateway nc)"
      using ok(1,6) ip_literal_notin [of _ "CHR 0x22"] by auto
    have "CHR 0x22 \<notin> set (show_int (nc_prefix_len nc))"
      using ok(3) digits_plain is_digit_not by (fastforce simp: show_int_pos)
    then have addr: "quoted_words (go_quote (bd_address b @ ''/'' @ show_int (nc_prefix_len nc)) @ '']'')
        = [bd_address b @ ''/'' @ show_int (nc_prefix_len nc)]"
      using ok(1,3) q quoted_words_one [of "bd_address b @ ''/'' @ show_int (nc_prefix_len nc)" "'']''"]
      by (simp add: go_quote_cidr [simplified])
    have gw: "quoted_words (go_quote (nc_gateway nc)) = [nc_gateway nc]" if "nc_gateway nc \<noteq> []"
      using that ok(6) q quoted_words_one [of "nc_gateway nc" "[]"] by (simp add: go_quote_ip)
    have dns: "quoted_words (join_with '', '' (map go_quote (nc_dns nc)) @ '']'') = nc_dns nc" if "nc_dns nc \<noteq> []"
      using that ok(5) by (rule quoted_words_list)
    show ?thesis unfolding read_netplan_def body using False ok(1-4)
      by (simp add: write_ip_def line_value_append mids plan_of_def Let_def addr [simplified] gw dns split_slash_cidr [simplified])
  qed
qed

subsection \<open>The files of a bond\<close>

text \<open>
  The device that carries the address of a bond, and the file that is left under a name when several
  are written. The names of the slaves come from the live system or passed the validator, so they have
  no spaces and are not those of the bond's own devices.
\<close>

definition bond_device :: "network_config \<Rightarrow> string" where
  "bond_device nc = (if 0 < nc_vlan nc then bond_vlan nc else ''bond0'')"

definition written :: "(string \<times> string list) list \<Rightarrow> string \<Rightarrow> string list option" where
  "written fs name = map_of (rev fs) name"

definition netplan_plan :: "network_config \<Rightarrow> string list \<Rightarrow> ip_plan" where
  "netplan_plan nc ls =
    (if 0 < nc_vlan nc then read_netplan (''    '' @ bond_vlan nc @ '':'') ''      '' ls
     else read_netplan ''  bond0:'' ''    '' ls)"

definition apart_name :: "string \<Rightarrow> string \<Rightarrow> bool" where
  "apart_name dev k \<longleftrightarrow> CHR '' '' \<notin> set k \<and> k \<noteq> ''bond0'' \<and> k \<noteq> dev"

definition slaves_apart :: "string \<Rightarrow> nic_info list \<Rightarrow> bool \<Rightarrow> bond_config \<Rightarrow> bool" where
  "slaves_apart dev nics rhel7 bo \<longleftrightarrow>
    (\<forall>s \<in> set (bo_slaves bo). apart_name dev (eni_slave_dev nics s))
    \<and> (\<forall>(i, s) \<in> set (enumerate 0 (bo_slaves bo)). apart_name dev (slave_key nics rhel7 i s))"

lemma show_int_digits: "0 < n \<Longrightarrow> c \<in> set (show_int n) \<Longrightarrow> is_digit c"
  using digits_plain by (simp add: show_int_pos)

lemma bond_device_no_space: "CHR '' '' \<notin> set (bond_device nc)"
  using show_int_digits [of "nc_vlan nc" "CHR '' ''"] by (auto simp: bond_device_def bond_vlan_def is_digit_def)

lemma nm_bond_agrees:
  assumes "nc_bond nc = Some bo" "plan_ok nc b" "0 \<le> nc_vlan nc"
  shows "map_option read_nm (written (nm_bond nc bo b nics) (bond_device nc @ ''.nmconnection'')) = Some (plan_of nc b)"
proof (cases "0 < nc_vlan nc")
  case True
  then have "written (nm_bond nc bo b nics) (bond_device nc @ ''.nmconnection'') = Some (snd (nm_vlan nc b))"
    using assms(1) by (simp add: written_def nm_bond_def nm_vlan_def bond_device_def bond_vlan_def Let_def)
  moreover have "snd (nm_vlan nc b) = (managed # ''[connection]'' # (''id='' @ bond_vlan nc) # ''type=vlan'' #
      (''interface-name='' @ bond_vlan nc) # ''autoconnect=true'' # ''wait-device-timeout=30000'' # [] # ''[vlan]'' #
      ''parent=bond0'' # (''id='' @ show_int (nc_vlan nc)) # [[]])
      @ ''[ipv4]'' # nm_ip nc b @ [[], ''[ipv6]'', ''method=disabled'']"
    using assms(1) by (simp add: nm_vlan_def bond_vlan_def Let_def)
  ultimately show ?thesis
    by (simp only: option.map) (subst read_nm_ip [OF assms(2)]; simp add: managed_def)
next
  case False
  then have "written (nm_bond nc bo b nics) (bond_device nc @ ''.nmconnection'') = Some (nm_master nc bo b)"
    by (simp add: written_def nm_bond_def bond_device_def)
  moreover have "nm_master nc bo b =
      ([managed, ''[connection]'', ''id=bond0'', ''type=bond'', ''interface-name=bond0'', ''autoconnect=true'', [],
        ''[bond]'', ''miimon='' @ show_int (miimon_of bo), ''mode='' @ bo_mode bo]
       @ (if bo_mode bo = ''802.3ad''
          then [''lacp-rate='' @ lacp_rate_of bo, ''transmit-hash-policy='' @ xmit_policy_of bo] else []) @ [[]])
      @ ''[ipv4]'' # nm_ip nc b @ []"
    using False by (simp add: nm_master_def)
  ultimately show ?thesis
    by (simp only: option.map) (subst read_nm_ip [OF assms(2)]; simp add: managed_def)
qed

lemma ifcfg_bond_agrees:
  assumes "plan_ok nc b" "0 \<le> nc_vlan nc"
  shows "map_option read_ifcfg (written (ifcfg_bond nc bo b nics) (''ifcfg-'' @ bond_device nc)) = Some (plan_of nc b)"
proof -
  have slaves: "map_of (rev (map (ifcfg_slave nics) xs)) (''ifcfg-'' @ bond_device nc) = None" for xs
    by (auto simp: map_of_eq_None_iff ifcfg_slave_def bond_device_def bond_vlan_def eth_name_def Let_def)
  show ?thesis
  proof (cases "0 < nc_vlan nc")
    case True
    then have "written (ifcfg_bond nc bo b nics) (''ifcfg-'' @ bond_device nc) = Some (ifcfg_vlan nc b)"
      using slaves by (simp add: written_def ifcfg_bond_def map_add_def bond_device_def)
    then show ?thesis
      by (simp only: option.map ifcfg_vlan_def) (subst read_ifcfg_ip [OF assms(1)]; simp add: managed_def)
  next
    case False
    then have "written (ifcfg_bond nc bo b nics) (''ifcfg-'' @ bond_device nc) = Some (ifcfg_master nc bo b)"
      using slaves by (simp add: written_def ifcfg_bond_def map_add_def bond_device_def)
    moreover have "ifcfg_master nc bo b =
        [managed, ''DEVICE=bond0'', ''NAME=bond0'', ''TYPE=Bond'', ''BONDING_MASTER=yes'', ''ONBOOT=yes'',
         ''BONDING_OPTS='' @ go_quote (join_with '' '' (bonding_opts bo))] @ ifcfg_ip nc b"
      using False assms(2) by (simp add: ifcfg_master_def)
    ultimately show ?thesis
      by (simp only: option.map) (subst read_ifcfg_ip [OF assms(1)]; simp add: managed_def)
  qed
qed

lemma slave_stanza_lines:
  assumes "apart_name dev (slave_key nics rhel7 i sl)" "l \<in> set (slave_stanza nics rhel7 (i, sl))"
  shows "l \<noteq> ''  bond0:''" "l \<noteq> ''    bond0'' @ t"
proof -
  let ?k = "slave_key nics rhel7 i sl"
  have l: "l = ''  '' @ ?k @ '':'' \<or> l = ''    match:'' \<or> (\<exists>u. l = ''      '' @ u)"
    using assms(2) by (auto simp: slave_stanza_def match_mac_def match_name_def Let_def split: if_splits)
  show "l \<noteq> ''  bond0:''"
    using l assms(1) by (auto simp: apart_name_def append_eq_Cons_conv)
  show "l \<noteq> ''    bond0'' @ t"
    using l assms(1) by (cases ?k) (auto simp: apart_name_def)
qed

lemma netplan_mode_lines: "l \<in> set (netplan_bond_mode keys bo) \<Longrightarrow> \<exists>u. l = ''      '' @ u \<and> u \<noteq> [] \<and> hd u \<in> {CHR ''p'', CHR ''l'', CHR ''t''}"
  by (auto simp: netplan_bond_mode_def split: if_splits option.splits)

lemma netplan_bond_agrees:
  assumes ok: "plan_ok nc b" and apart: "slaves_apart (bond_device nc) nics rhel7 bo"
  shows "netplan_plan nc (render_network_config_bond nc bo b nics rhel7) = plan_of nc b"
proof -
  define keys where "keys = slave_keys nics rhel7 bo"
  define eths where "eths = concat (map (slave_stanza nics rhel7) (enumerate 0 (bo_slaves bo)))"
  define params where "params = [''    interfaces: ['' @ join_with '', '' keys @ '']'', ''    parameters:'',
        ''      mode: '' @ bo_mode bo, ''      mii-monitor-interval: '' @ show_int (miimon_of bo)] @ netplan_bond_mode keys bo"
  have render: "render_network_config_bond nc bo b nics rhel7
      = ([''version: 2'', ''ethernets:''] @ eths @ [''bonds:'']) @ ''  bond0:'' # params @ netplan_ip nc b ''bond0''"
    by (simp add: render_network_config_bond_def keys_def eths_def params_def Let_def)
  have eths: "l \<noteq> ''  bond0:''" "l \<noteq> ''    bond0'' @ t" if l: "l \<in> set eths" for l t
  proof -
    from l obtain i sl where "(i, sl) \<in> set (enumerate 0 (bo_slaves bo))" and ll: "l \<in> set (slave_stanza nics rhel7 (i, sl))"
      by (auto simp: eths_def)
    then have "apart_name (bond_device nc) (slave_key nics rhel7 i sl)"
      using apart by (auto simp: slaves_apart_def)
    from slave_stanza_lines [OF this ll] show "l \<noteq> ''  bond0:''" "l \<noteq> ''    bond0'' @ t" by blast+
  qed
  have params4: "starts_with ''    '' l" if "l \<in> set params" for l
    using that netplan_mode_lines [of l keys bo] by (auto simp: params_def starts_with_Cons)
  have params_fresh: "l \<noteq> ''    bond0'' @ t" if "l \<in> set params" for l t
    using that netplan_mode_lines [of l keys bo] by (auto simp: params_def)
  have mode_none: "line_value (''    '' @ k) (netplan_bond_mode keys bo) = None" if "k \<in> set netplan_keys" for k
  proof -
    have "lead_off (''    '' @ k) l = None" if l: "l \<in> set (netplan_bond_mode keys bo)" for l
    proof -
      obtain c u where "l = ''      '' @ c # u" "c \<in> {CHR ''p'', CHR ''l'', CHR ''t''}"
        using netplan_mode_lines [OF l] by (metis list.exhaust_sel)
      then show ?thesis using \<open>k \<in> set netplan_keys\<close> by (auto simp: netplan_keys_def)
    qed
    then show ?thesis by (rule line_value_none)
  qed
  show ?thesis
  proof (cases "0 < nc_vlan nc")
    case True
    let ?pre = "([''version: 2'', ''ethernets:''] @ eths @ [''bonds:'']) @ ''  bond0:'' # params @ [''vlans:'']"
    let ?mid = "[''      id: '' @ show_int (nc_vlan nc), ''      link: bond0'']"
    let ?key = "''    '' @ bond_vlan nc @ '':''"
    have fresh: "?key \<notin> set ?pre"
      using eths(2) [of ?key] params_fresh [of ?key] by (auto simp: bond_vlan_def)
    have whole: "render_network_config_bond nc bo b nics rhel7 = ?pre @ ?key # ?mid @ write_ip ''      '' nc b"
      using True by (simp add: render netplan_ip_def render_vlan_def bond_vlan_def)
    have "read_netplan ?key ''      '' (?pre @ ?key # ?mid @ write_ip ''      '' nc b) = plan_of nc b"
      using fresh by (rule read_netplan_ip [OF ok]) (auto simp: starts_with_Cons netplan_keys_def)
    then show ?thesis using True unfolding netplan_plan_def whole by simp
  next
    case False
    have "line_value (''    '' @ k) params = None" if "k \<in> set netplan_keys" for k
      using that mode_none [OF that] by (auto simp: params_def netplan_keys_def)
    then have "read_netplan ''  bond0:'' ''    ''
        (([''version: 2'', ''ethernets:''] @ eths @ [''bonds:'']) @ ''  bond0:'' # params @ write_ip ''    '' nc b) = plan_of nc b"
      using eths(1) params4 by (intro read_netplan_ip [OF ok]) auto
    then show ?thesis using False by (simp add: netplan_plan_def render netplan_ip_def)
  qed
qed

lemma eni_iface_line:
  assumes "CHR '' '' \<notin> set d" "CHR '' '' \<notin> set dev" "d \<noteq> dev"
  shows "lead_off (iface_key dev) (''iface '' @ d @ CHR '' '' # u) = None"
proof (rule ccontr)
  assume "\<not> ?thesis"
  then obtain r where "d @ CHR '' '' # u = dev @ CHR '' '' # ''inet '' @ r"
    by (auto simp: iface_key_def lead_off_iff)
  then show False using first_word_eq assms by metis
qed

lemma eni_bond_agrees:
  assumes ok: "plan_ok nc b" and apart: "slaves_apart (bond_device nc) nics rhel7 bo"
  shows "read_eni (bond_device nc) (eni_interfaces_bond nc bo b nics) = Some (plan_of nc b)"
proof -
  note dev = bond_device_no_space [of nc]
  let ?key = "iface_key (bond_device nc)"
  define slaves where "slaves = concat (map (eni_slave nics) (bo_slaves bo))"
  have lo: "bond_device nc \<noteq> ''lo''"
    by (simp add: bond_device_def bond_vlan_def)
  have no: "lead_off ?key l = None" if "\<not> starts_with ''iface '' l" for l
  proof (cases "lead_off ?key l")
    case (Some r)
    then have "starts_with ''iface '' l" by (simp add: lead_off_iff iface_key_def starts_with_Cons)
    then show ?thesis using that by simp
  qed
  have head: "lead_off ?key l = None" if "l \<in> set eni_head" for l
    using that eni_iface_line [of "''lo''" "bond_device nc" "''inet loopback''"] lo dev no [of l]
    by (auto simp: eni_head_def managed_def starts_with_Cons)
  have slave: "lead_off ?key l = None" if "l \<in> set slaves" for l
  proof -
    from that obtain sl where sl: "sl \<in> set (bo_slaves bo)" "l \<in> set (eni_slave nics sl)"
      by (auto simp: slaves_def)
    then have "apart_name (bond_device nc) (eni_slave_dev nics sl)"
      using apart by (auto simp: slaves_apart_def)
    then show ?thesis
      using sl(2) eni_iface_line [of "eni_slave_dev nics sl" "bond_device nc" "''inet manual''"] dev no [of l]
      by (auto simp: eni_slave_def apart_name_def Let_def starts_with_Cons)
  qed
  have mode: "starts_with ''    '' l" "lead_off ?key l = None" "k \<in> set eni_keys \<Longrightarrow> lead_off k l = None"
    if "l \<in> set (eni_bond_mode bo)" for l k
    using that no [of l] by (auto simp: eni_bond_mode_def starts_with_Cons eni_keys_def split: if_splits)
  have mode_none: "line_value k (eni_bond_mode bo) = None" if "k \<in> set eni_keys" for k
    using mode(3) [OF _ that] by (rule line_value_none)
  show ?thesis
  proof (cases "0 < nc_vlan nc")
    case True
    let ?pre = "eni_head @ slaves @ [''auto bond0'', ''iface bond0 inet manual''] @ eni_bond_mode bo @ [[], ''auto '' @ bond_vlan nc]"
    have bond0: "lead_off ?key ''iface bond0 inet manual'' = None"
      using eni_iface_line [of "''bond0''" "bond_device nc" "''inet manual''"] dev True
      by (simp add: bond_device_def bond_vlan_def)
    have "read_eni (bond_device nc) (?pre @ eni_iface nc b (bond_device nc) @ [''    vlan-raw-device bond0''] @ []) = Some (plan_of nc b)"
      using head slave mode(2) bond0 no [of "''auto bond0''"] no [of "[]"] no [of "''auto '' @ bond_vlan nc"]
      by (intro read_eni_ip [OF ok]) (auto simp: starts_with_Cons eni_keys_def)
    then show ?thesis using True by (simp add: eni_interfaces_bond_def slaves_def bond_device_def)
  next
    case False
    have "read_eni (bond_device nc) ((eni_head @ slaves @ [''auto bond0'']) @ eni_iface nc b (bond_device nc) @ eni_bond_mode bo @ []) = Some (plan_of nc b)"
      using head slave mode(1) mode_none no [of "''auto bond0''"]
      by (intro read_eni_ip [OF ok]) (auto simp: starts_with_Cons)
    then show ?thesis using False by (simp add: eni_interfaces_bond_def slaves_def bond_device_def)
  qed
qed

subsection \<open>Properties\<close>

text \<open>
  C27: the four renderers that support bonds with VLANs and name servers agree. Whatever the mode and the
  slaves of a bond and whether it carries a VLAN, the netplan document, the NetworkManager keyfile, the
  sysconfig script and the \<open>interfaces\<close> file each give the device that carries the address (the VLAN when
  there is one, else the bond) the same plan, and it is the plan of the template and the assignment:
  method, address with prefix, gateway, name servers.
\<close>

theorem bond_renderers_agree:
  assumes "nc_bond nc = Some bo" and "plan_ok nc b" and "0 \<le> nc_vlan nc"
    and "slaves_apart (bond_device nc) nics rhel7 bo"
  shows "netplan_plan nc (render_network_config_bond nc bo b nics rhel7) = plan_of nc b
    \<and> map_option read_nm (written (nm_bond nc bo b nics) (bond_device nc @ ''.nmconnection'')) = Some (plan_of nc b)
    \<and> map_option read_ifcfg (written (ifcfg_bond nc bo b nics) (''ifcfg-'' @ bond_device nc)) = Some (plan_of nc b)
    \<and> read_eni (bond_device nc) (eni_interfaces_bond nc bo b nics) = Some (plan_of nc b)"
  using assms by (intro conjI netplan_bond_agrees nm_bond_agrees ifcfg_bond_agrees eni_bond_agrees)

definition sample_nics :: "nic_info list" where
  "sample_nics =
    [\<lparr>ni_name = ''idrac'', ni_mac = ''18:66:da:00:00:01'', ni_driver = ''cdc_ether'', ni_link = True\<rparr>,
     \<lparr>ni_name = ''eno1'', ni_mac = ''18:66:da:00:00:02'', ni_driver = ''tg3'', ni_link = False\<rparr>,
     \<lparr>ni_name = ''eno2'', ni_mac = ''18:66:da:00:00:03'', ni_driver = ''tg3'', ni_link = True\<rparr>]"

definition sample_bond :: bond_config where
  "sample_bond = \<lparr>bo_mode = ''802.3ad'', bo_slaves = [''18:66:da:00:00:02'', ''eno2''], bo_miimon = 0,
     bo_lacp_rate = [], bo_xmit_policy = [], bo_primary = []\<rparr>"

definition sample_net :: network_config where
  "sample_net = \<lparr>nc_method = ''static'', nc_prefix_len = 24, nc_gateway = ''10.0.4.1'',
     nc_dns = [''10.0.4.2'', ''10.0.4.3''], nc_nic_selector = ''auto'', nc_vlan = 40, nc_bond = Some sample_bond\<rparr>"

definition sample_assignment :: binding where
  "sample_assignment = \<lparr>bd_machine = ''4c4c4544-0042-3510-8051-b4c04f4b4d32'', bd_image = [], bd_profile = [],
     bd_desired = ''install'', bd_address = ''10.0.4.17'', bd_hostname = ''web1'', bd_password = [],
     bd_target_disk = None, bd_bond = None, bd_subnet = [], bd_vlan = 0, bd_nic = [], bd_agent = None,
     bd_keys = [], bd_updated = 0, bd_updated_by = []\<rparr>"

theorem bond_renderers_agree_witness:
  "netplan_plan sample_net (render_network_config_bond sample_net sample_bond sample_assignment sample_nics False)
   = plan_of sample_net sample_assignment"
proof -
  have "plan_ok sample_net sample_assignment" by code_simp
  moreover have "slaves_apart (bond_device sample_net) sample_nics False sample_bond" by code_simp
  ultimately show ?thesis
    using bond_renderers_agree [of sample_net sample_bond sample_assignment sample_nics False]
    by (simp add: sample_net_def)
qed

lemma find_or_hd_in: "find_or_hd p xs = Some x \<Longrightarrow> x \<in> set xs"
  by (auto simp: find_or_hd_def find_Some_iff split: option.splits list.splits)

lemma find_or_hd_prefers: "find_or_hd p xs = Some x \<Longrightarrow> y \<in> set xs \<Longrightarrow> p y \<Longrightarrow> p x"
  by (auto simp: find_or_hd_def find_Some_iff find_None_iff split: option.splits)

lemma find_or_hd_total: "y \<in> set xs \<Longrightarrow> \<exists>x. find_or_hd p xs = Some x"
  by (cases xs) (auto simp: find_or_hd_def split: option.splits)

lemma pick_physical_some:
  assumes "pick_physical_nic nics = Some n"
  shows "n \<in> set nics" "\<not> is_virtual n" "ni_mac n \<noteq> []"
    "\<lbrakk>m \<in> set nics; \<not> is_virtual m; ni_mac m \<noteq> []; ni_link m\<rbrakk> \<Longrightarrow> ni_link n"
  using find_or_hd_in [OF assms [unfolded pick_physical_nic_def]]
    find_or_hd_prefers [OF assms [unfolded pick_physical_nic_def], of m] by auto

definition auto_selector :: "string \<Rightarrow> bool" where
  "auto_selector sel \<longleftrightarrow> \<not> starts_with mac_prefix sel \<and> \<not> starts_with name_prefix sel"

text \<open>
  C28: without an explicit choice the business network never lands on a management port. When the live
  system reports a physical interface, netplan, the sysconfig script, wicked and \<open>interfaces\<close> all bind to
  one and the same interface of the list; it is not the virtual interface of a management controller
  or a USB adapter, and it has a carrier if any physical interface has one.
\<close>

theorem auto_avoids_management_ports:
  assumes "auto_selector sel" and "m \<in> set nics" and "\<not> is_virtual m" and "ni_mac m \<noteq> []"
  shows "\<exists>n \<in> set nics. \<not> is_virtual n \<and> (ni_link m \<longrightarrow> ni_link n)
    \<and> single_match sel nics = match_mac (ni_mac n)
    \<and> ifcfg_mac sel nics = to_lower (ni_mac n)
    \<and> wicked_target sel nics = (ni_name n, to_lower (ni_mac n))
    \<and> selected_dev sel nics = ni_name n"
proof -
  have "m \<in> set (filter (\<lambda>n. \<not> is_virtual n \<and> ni_mac n \<noteq> []) nics)"
    using assms by simp
  then obtain n where n: "pick_physical_nic nics = Some n"
    using find_or_hd_total [of m _ ni_link] unfolding pick_physical_nic_def by blast
  note facts = pick_physical_some [OF n]
  have "ni_link m \<longrightarrow> ni_link n"
    using facts(4) assms(2-4) by blast
  moreover have "single_match sel nics = match_mac (ni_mac n)" "ifcfg_mac sel nics = to_lower (ni_mac n)"
    "wicked_target sel nics = (ni_name n, to_lower (ni_mac n))" "selected_dev sel nics = ni_name n"
    using assms(1) n
    by (simp_all add: auto_selector_def single_match_def ifcfg_mac_def wicked_target_def selected_dev_def)
  ultimately show ?thesis using facts(1,2) by (intro bexI [of _ n]) simp_all
qed

theorem auto_avoids_management_ports_witness:
  "\<exists>n \<in> set sample_nics. \<not> is_virtual n \<and> ni_link n \<and> single_match ''auto'' sample_nics = match_mac (ni_mac n)"
proof -
  have "auto_selector ''auto''" by code_simp
  moreover have "sample_nics ! 2 \<in> set sample_nics" "\<not> is_virtual (sample_nics ! 2)" "ni_mac (sample_nics ! 2) \<noteq> []"
    "ni_link (sample_nics ! 2)" by code_simp+
  ultimately show ?thesis
    using auto_avoids_management_ports [of "''auto''" "sample_nics ! 2" sample_nics] by blast
qed

text \<open>
  every slave of a bond whose hardware address is known, typed in or found in the live system, is
  bound by that address in netplan, in its sysconfig script and in its NetworkManager keyfile. (A slave
  written with the selector prefix is outside: the validators refuse it.)
\<close>

theorem bond_slaves_bound_by_address:
  assumes "i < length (bo_slaves bo)" and "bo_slaves bo ! i = slave" and "lookup_slave_mac slave nics = mac"
    and "is_valid_mac mac" and "\<not> starts_with name_prefix slave"
  shows "(\<exists>pre post. render_network_config_bond nc bo b nics rhel7
            = pre @ [''  '' @ slave_key nics rhel7 i slave @ '':''] @ match_mac mac @ post)
    \<and> (\<exists>ls. (''ifcfg-'' @ eth_name i, ls) \<in> set (ifcfg_bond nc bo b nics) \<and> ''HWADDR='' @ to_upper_ascii mac \<in> set ls)
    \<and> (\<exists>ls. (''bond0-slave-'' @ digits_nat i @ ''.nmconnection'', ls) \<in> set (nm_bond nc bo b nics)
            \<and> ''mac-address='' @ to_lower mac \<in> set ls)"
proof (intro conjI)
  have mem: "(i, slave) \<in> set (enumerate 0 (bo_slaves bo))"
    using assms(1,2) by (auto simp: in_set_enumerate_eq)
  then obtain us vs where split: "enumerate 0 (bo_slaves bo) = us @ (i, slave) # vs"
    by (auto simp: in_set_conv_decomp)
  have "slave_stanza nics rhel7 (i, slave) = (''  '' @ slave_key nics rhel7 i slave @ '':'') # match_mac mac"
    using assms(3,4) by (simp add: slave_stanza_def)
  then show "\<exists>pre post. render_network_config_bond nc bo b nics rhel7
      = pre @ [''  '' @ slave_key nics rhel7 i slave @ '':''] @ match_mac mac @ post"
    unfolding render_network_config_bond_def Let_def split
    by (intro exI [of _ "[''version: 2'', ''ethernets:''] @ concat (map (slave_stanza nics rhel7) us)"] exI) simp
  show "\<exists>ls. (''ifcfg-'' @ eth_name i, ls) \<in> set (ifcfg_bond nc bo b nics) \<and> ''HWADDR='' @ to_upper_ascii mac \<in> set ls"
    using mem assms(3,4) unfolding ifcfg_bond_def
    by (intro exI [of _ "snd (ifcfg_slave nics (i, slave))"] conjI UnI2)
      (auto simp: ifcfg_slave_def Let_def intro!: image_eqI [OF _ mem])
  have ne: "mac \<noteq> []"
    using assms(4) by (auto simp: is_valid_mac_def)
  moreover have "snd (resolve_slave_dev_and_mac slave nics) = mac"
  proof (cases "is_valid_mac slave")
    case True
    then show ?thesis using assms(3) by (simp add: resolve_slave_dev_and_mac_def lookup_slave_mac_def)
  next
    case False
    then have "resolve_nic_mac nics slave = mac"
      using assms(3) by (simp add: lookup_slave_mac_def)
    then show ?thesis using False ne assms(5) by (simp add: resolve_slave_dev_and_mac_def)
  qed
  ultimately show "\<exists>ls. (''bond0-slave-'' @ digits_nat i @ ''.nmconnection'', ls) \<in> set (nm_bond nc bo b nics)
      \<and> ''mac-address='' @ to_lower mac \<in> set ls"
    using mem unfolding nm_bond_def
    by (intro exI [of _ "snd (nm_slave nics (i, slave))"] conjI)
      (auto simp: nm_slave_def Let_def intro!: image_eqI [OF _ mem])
qed

theorem bond_slaves_bound_by_address_witness:
  "\<exists>ls. (''ifcfg-'' @ eth_name 1, ls) \<in> set (ifcfg_bond sample_net sample_bond sample_assignment sample_nics)
     \<and> ''HWADDR=18:66:DA:00:00:03'' \<in> set ls"
proof -
  have "1 < length (bo_slaves sample_bond)" "bo_slaves sample_bond ! 1 = ''eno2''"
    "lookup_slave_mac ''eno2'' sample_nics = ''18:66:da:00:00:03''" "is_valid_mac ''18:66:da:00:00:03''"
    "\<not> starts_with name_prefix ''eno2''"
    by code_simp+
  moreover have "to_upper_ascii ''18:66:da:00:00:03'' = ''18:66:DA:00:00:03''" by code_simp
  ultimately show ?thesis
    using bond_slaves_bound_by_address [of 1 sample_bond "''eno2''" sample_nics "''18:66:da:00:00:03''" sample_net
      sample_assignment False] by simp
qed

subsection \<open>Where the renderers part\<close>

text \<open>
  A VLAN on a single interface is rendered by netplan only. The NetworkManager keyfile, the sysconfig
  script, \<open>interfaces\<close> and the wicked file of a single interface do not depend on the VLAN of the template:
  the address is configured untagged. These are the files that images without cloud-init boot from, and
  the last three are written in any case.
\<close>

theorem single_interface_vlan_is_dropped:
  "nm_keyfile (nc\<lparr>nc_vlan := v\<rparr>) b nics = nm_keyfile nc b nics"
  "ifcfg_file (nc\<lparr>nc_vlan := v\<rparr>) b nics = ifcfg_file nc b nics"
  "eni_interfaces (nc\<lparr>nc_vlan := v\<rparr>) b nics = eni_interfaces nc b nics"
  "wicked_ifcfg (nc\<lparr>nc_vlan := v\<rparr>) b nics = wicked_ifcfg nc b nics"
  by (simp_all add: nm_keyfile_def nm_ip_def ifcfg_file_def ifcfg_ip_def eni_interfaces_def eni_iface_def eni_ip_def
      wicked_ifcfg_def wicked_ip_def Let_def)

text \<open>
  The NetworkManager keyfile of an image without cloud-init takes the first interface with a name, not
  the physical one: here the controller's own USB interface, which the other renderers avoid.
\<close>

theorem nm_auto_takes_management_port:
  "resolve_nic_for_nm ''auto'' sample_nics = (''idrac'', ''18:66:da:00:00:01'')"
  "is_virtual (sample_nics ! 0)" "ni_mac (sample_nics ! 0) = ''18:66:da:00:00:01''"
  "map_option ni_name (pick_physical_nic sample_nics) = Some ''eno2''"
  by code_simp+

text \<open>
  A selector \<open>by-name:\<close> with a hardware address, which the validator accepts, makes netplan look for an
  interface of that name; and the sysconfig script of a selector with an interface name binds nothing.
\<close>

theorem address_as_name_matches_nothing:
  "single_match (name_prefix @ ''18:66:da:00:00:02'') nics = match_name ''18:66:da:00:00:02''"
  "fst (ifcfg_file nc b nics) = ''ifcfg-eth0'' \<and> (\<forall>l \<in> set (snd (ifcfg_file nc b nics)). \<not> starts_with ''HWADDR='' l)"
  if "nc_nic_selector nc = ''by-name:eno2''"
proof -
  have p: "starts_with name_prefix (name_prefix @ s)" "\<not> starts_with mac_prefix (name_prefix @ s)" for s
    by (simp_all add: starts_with_def name_prefix_def mac_prefix_def)
  show "single_match (name_prefix @ ''18:66:da:00:00:02'') nics = match_name ''18:66:da:00:00:02''"
    by (simp only: single_match_def p if_True if_False append_eq_conv_conj) simp
  have "ifcfg_mac ''by-name:eno2'' nics = []"
    using p [of "''eno2''"] by (simp add: ifcfg_mac_def name_prefix_def is_valid_mac_def)
  then have "ifcfg_file nc b nics = (''ifcfg-eth0'',
      [managed, ''DEVICE=eth0'', ''NAME=eth0'', ''ONBOOT=yes'', ''TYPE=Ethernet''] @ ifcfg_ip nc b)"
    using that by (simp add: ifcfg_file_def ifcfg_index_def eth_name_def digits_nat_0 Let_def)
  then show "fst (ifcfg_file nc b nics) = ''ifcfg-eth0'' \<and> (\<forall>l \<in> set (snd (ifcfg_file nc b nics)). \<not> starts_with ''HWADDR='' l)"
    by (auto simp: managed_def ifcfg_ip_def starts_with_Cons in_set_enumerate_eq split: if_splits)
qed

text \<open>Wicked's files of a bond carry no name server, whatever the template says.\<close>

theorem wicked_bond_drops_name_servers:
  "wicked_bond (nc\<lparr>nc_dns := ds\<rparr>) bo b nics = wicked_bond nc bo b nics"
  by (simp add: wicked_bond_def wicked_master_def wicked_vlan_def wicked_ip_def bond_vlan_def)

text \<open>
  A primary that is given by its address, as the validator suggests, is copied as it is into
  \<open>interfaces\<close>, where the slaves are device names.
\<close>

theorem eni_primary_is_no_device:
  "(let bo = \<lparr>bo_mode = ''active-backup'', bo_slaves = [''18:66:da:00:00:02'', ''eno2''], bo_miimon = 0,
      bo_lacp_rate = [], bo_xmit_policy = [], bo_primary = ''18:66:da:00:00:02''\<rparr> in
    ''    bond-primary 18:66:da:00:00:02'' \<in> set (eni_bond_mode bo)
    \<and> map (eni_slave_dev sample_nics) (bo_slaves bo) = [''eno1'', ''eno2''])"
  by code_simp

end
