(* ===== verification/Seed.thy ===== *)
theory Seed
  imports Net_Plan
begin

text \<open>
  What the installer writes into a freshly written image, \<open>internal/installer/seed.go\<close>: the NoCloud seed of
  cloud-init, the network files of the renderer of the operating system, the authorized keys, and for
  images without cloud-init the host name, the password and the network configuration directly. A
  renderer is named by its identifier of \<open>internal/components\<close>; the seven families of
  \<open>osinstaller.go\<close> differ in the renderer, the naming scheme of interfaces and SELinux.

  The logger is left out. \<open>Glob\<close> reads the directory as it is at that moment.
\<close>

subsection \<open>Texts\<close>

definition em_dash :: string where
  "em_dash = [CHR 0xE2, CHR 0x80, CHR 0x94]"

definition mode_644 :: nat where "mode_644 = 420"
definition mode_600 :: nat where "mode_600 = 384"
definition mode_640 :: nat where "mode_640 = 416"

definition expand_hostname :: "string \<Rightarrow> binding \<Rightarrow> string" where
  "expand_hostname template b =
    (if trim_space (bd_hostname b) \<noteq> [] then trim_space (bd_hostname b)
     else let short = take 8 (bd_machine b) in
       replace_all ''{uuid8}'' short (replace_all ''{serial}'' short template))"

definition user_data_lines :: "string \<Rightarrow> string \<Rightarrow> string list" where
  "user_data_lines hash host =
    [''#cloud-config'',
     ''hostname: '' @ go_quote host,
     ''disable_root: false'',
     ''ssh_pwauth: true'',
     ''chpasswd:'',
     ''  expire: false'',
     ''  users:'',
     ''    - name: root'',
     ''      password: '' @ go_quote hash,
     ''      type: hash'',
     ''write_files:'',
     ''  - path: /etc/ssh/sshd_config.d/99-metalkit.conf'',
     ''    permissions: '' @ [CHR 0x22] @ ''0644'' @ [CHR 0x22],
     ''    owner: root:root'',
     ''    content: |'',
     ''      # Managed by metalkit installer'',
     ''      PermitRootLogin yes'',
     ''      PasswordAuthentication yes'',
     ''runcmd:'',
     ''  - [usermod, -p, '' @ go_quote hash @ '', root]'',
     ''  - [sh, -c, '' @ [CHR 0x22]
       @ ''systemctl restart sshd 2>/dev/null || systemctl restart ssh 2>/dev/null || true'' @ [CHR 0x22] @ '']'']"

definition render_user_data :: "install_spec \<Rightarrow> string \<Rightarrow> string" where
  "render_user_data spec host = unlines (user_data_lines (pr_hash (is_profile spec)) host)"

definition render_meta_data :: "install_spec \<Rightarrow> string \<Rightarrow> string" where
  "render_meta_data spec host =
    unlines [''instance-id: metalkit-'' @ take 12 (is_job spec), ''local-hostname: '' @ go_quote host]"

definition datasource_config :: string where
  "datasource_config =
    unlines [managed @ '' '' @ em_dash @ '' enables NoCloud seed discovery.'', ''datasource_list: [ NoCloud, None ]'']"

definition renderer_config :: "string \<Rightarrow> string \<Rightarrow> string" where
  "renderer_config comment renderers =
    unlines [managed @ '' '' @ em_dash @ '' '' @ comment, ''system_info:'', ''  network:'',
             ''    renderers: [ '' @ renderers @ '' ]'']"

subsection \<open>Writers\<close>

definition cloud_cfg_dir :: "path \<Rightarrow> path" where
  "cloud_cfg_dir root = path_join root [''etc'', ''cloud'', ''cloud.cfg.d'']"

definition glob_io :: "path \<Rightarrow> string \<Rightarrow> string \<Rightarrow> path list io" where
  "glob_io dir pre suf = State (\<lambda>w. (glob_names dir pre suf (iw_tree w), w))"

definition remove_matches :: "inst_env \<Rightarrow> path \<Rightarrow> string \<Rightarrow> string \<Rightarrow> unit io" where
  "remove_matches env dir pre suf =
    do { ps \<leftarrow> glob_io dir pre suf; each_io (\<lambda>p. attempt (fs_remove env p)) ps }"

definition clean_stale_network_config :: "inst_env \<Rightarrow> path \<Rightarrow> unit io" where
  "clean_stale_network_config env root =
    (let scripts = path_join root [''etc'', ''sysconfig'', ''network-scripts''];
         nm = path_join root [''etc'', ''NetworkManager'', ''system-connections''] in
     do {
       _ \<leftarrow> each_io (\<lambda>pre. remove_matches env scripts pre []) [''ifcfg-eth'', ''ifcfg-eno'', ''ifcfg-ens''];
       b \<leftarrow> fs_exists env nm;
       when_io b (remove_matches env nm [] ''.nmconnection'')
     })"

definition selinux_line :: "string list \<Rightarrow> bool" where
  "selinux_line ls =
    (case find (\<lambda>l. starts_with ''SELINUX='' (trim_space l)) ls of
       Some l \<Rightarrow> trim_space (drop (length ''SELINUX='') (trim_space l)) = ''disabled''
     | None \<Rightarrow> False)"

definition selinux_will_be_disabled :: "inst_env \<Rightarrow> path \<Rightarrow> bool io" where
  "selinux_will_be_disabled env root =
    do { r \<leftarrow> fs_read env (path_join root [''etc'', ''selinux'', ''config'']);
         State_Monad.return (case r of Inl e \<Rightarrow> True | Inr d \<Rightarrow> selinux_line (split_on nl d)) }"

definition write_drop_in :: "inst_env \<Rightarrow> path \<Rightarrow> string \<Rightarrow> string \<Rightarrow> unit io" where
  "write_drop_in env root name content =
    do { _ \<leftarrow> ensure_dir env (cloud_cfg_dir root);
         attempt (fs_write env (path_join (cloud_cfg_dir root) [name]) content mode_644) }"

definition disable_cloud_init_network :: "inst_env \<Rightarrow> path \<Rightarrow> unit io" where
  "disable_cloud_init_network env root =
    write_drop_in env root ''97-metalkit-no-network.cfg''
      (unlines [managed @ '' '' @ em_dash @ '' NM keyfiles written directly.'',
                ''# Disable cloud-init network rendering to avoid conflicts.'', ''network: {config: disabled}''])"

definition write_nm_renderer_config :: "inst_env \<Rightarrow> path \<Rightarrow> unit io" where
  "write_nm_renderer_config env root =
    write_drop_in env root ''98-metalkit-renderer.cfg''
      (renderer_config ''prefer NetworkManager keyfiles over legacy ifcfg.'' ''network-manager, sysconfig'')"

text \<open>The files of a renderer, one after the other; a failed write is ignored.\<close>

definition write_all :: "inst_env \<Rightarrow> path \<Rightarrow> nat \<Rightarrow> (string \<times> string list) list \<Rightarrow> unit io" where
  "write_all env dir mode fs = each_io (\<lambda>(n, ls). attempt (fs_write env (path_join dir [n]) (lines_text ls) mode)) fs"

definition write_dir :: "inst_env \<Rightarrow> path \<Rightarrow> nat \<Rightarrow> (string \<times> string list) list \<Rightarrow> unit io" where
  "write_dir env dir mode fs = do { _ \<leftarrow> ensure_dir env dir; write_all env dir mode fs }"

definition eni_files :: "network_config \<Rightarrow> binding \<Rightarrow> nic_info list \<Rightarrow> (string \<times> string list) list" where
  "eni_files nc b nics =
    [(''interfaces'', case nc_bond nc of Some bo \<Rightarrow> eni_interfaces_bond nc bo b nics | None \<Rightarrow> eni_interfaces nc b nics)]"

definition write_eni_renderer_config :: "inst_env \<Rightarrow> nic_info list \<Rightarrow> network_config \<Rightarrow> binding \<Rightarrow> path \<Rightarrow> unit io" where
  "write_eni_renderer_config env nics nc b root =
    do { _ \<leftarrow> write_drop_in env root ''98-metalkit-renderer.cfg''
           (renderer_config ''prefer ENI /etc/network/interfaces.'' ''eni, netplan'');
         write_dir env (path_join root [''etc'', ''network'']) mode_644 (eni_files nc b nics) }"

definition wicked_files :: "network_config \<Rightarrow> binding \<Rightarrow> nic_info list \<Rightarrow> (string \<times> string list) list" where
  "wicked_files nc b nics =
    (case nc_bond nc of Some bo \<Rightarrow> wicked_bond nc bo b nics | None \<Rightarrow> [wicked_ifcfg nc b nics])"

definition write_wicked_config :: "inst_env \<Rightarrow> nic_info list \<Rightarrow> network_config \<Rightarrow> binding \<Rightarrow> path \<Rightarrow> unit io" where
  "write_wicked_config env nics nc b root =
    do { _ \<leftarrow> write_drop_in env root ''98-metalkit-renderer.cfg''
           (renderer_config ''prefer sysconfig renderer for Wicked.'' ''sysconfig, netplan'');
         write_dir env (path_join root [''etc'', ''sysconfig'', ''network'']) mode_644 (wicked_files nc b nics) }"

definition sysconfig_files :: "network_config \<Rightarrow> binding \<Rightarrow> nic_info list \<Rightarrow> (string \<times> string list) list" where
  "sysconfig_files nc b nics =
    (case nc_bond nc of Some bo \<Rightarrow> ifcfg_bond nc bo b nics | None \<Rightarrow> [ifcfg_file nc b nics])"

definition write_sysconfig :: "inst_env \<Rightarrow> nic_info list \<Rightarrow> network_config \<Rightarrow> binding \<Rightarrow> path \<Rightarrow> unit io" where
  "write_sysconfig env nics nc b root =
    write_dir env (path_join root [''etc'', ''sysconfig'', ''network-scripts'']) mode_644 (sysconfig_files nc b nics)"

definition nm_files :: "network_config \<Rightarrow> binding \<Rightarrow> nic_info list \<Rightarrow> (string \<times> string list) list" where
  "nm_files nc b nics = (case nc_bond nc of Some bo \<Rightarrow> nm_bond nc bo b nics | None \<Rightarrow> [nm_keyfile nc b nics])"

definition write_nm_keyfiles :: "inst_env \<Rightarrow> nic_info list \<Rightarrow> network_config \<Rightarrow> binding \<Rightarrow> path \<Rightarrow> unit io" where
  "write_nm_keyfiles env nics nc b root =
    write_dir env (path_join root [''etc'', ''NetworkManager'', ''system-connections'']) mode_600 (nm_files nc b nics)"

definition write_direct_netplan ::
  "inst_env \<Rightarrow> nic_info list \<Rightarrow> bool \<Rightarrow> network_config \<Rightarrow> binding \<Rightarrow> path \<Rightarrow> unit io" where
  "write_direct_netplan env nics rhel7 nc b root =
    (let dir = path_join root [''etc'', ''netplan''] in
     do { _ \<leftarrow> ensure_dir env dir;
          attempt (fs_write env (path_join dir [''50-metalkit.yaml''])
            (''network:'' @ [nl] @ indent_yaml (render_network_config nc b nics rhel7)) mode_600) })"

definition vt_init_unit :: string where
  "vt_init_unit = unlines
    [''[Unit]'',
     ''Description=Disable Scroll_Lock keysym + clear lock state on Linux VTs (iDRAC vKVM USB HID sends Scroll_Lock key presses that pause tty output and look like the console keyboard is frozen)'',
     ''DefaultDependencies=no'',
     ''After=systemd-vconsole-setup.service'',
     ''Before=getty.target getty@tty1.service getty@tty2.service getty@tty3.service getty@tty4.service getty@tty5.service getty@tty6.service'',
     ''ConditionPathExists=/dev/tty1'', [],
     ''[Service]'', ''Type=oneshot'', ''RemainAfterExit=yes'',
     ''ExecStart=/bin/sh -c '' @ [CHR 0x27] @ ''echo '' @ [CHR 0x22] @ ''keycode 70 = VoidSymbol'' @ [CHR 0x22]
       @ '' | loadkeys -; for t in 1 2 3 4 5 6; do setleds -D -scroll < /dev/tty$t 2>/dev/null || true; done'' @ [CHR 0x27],
     [], ''[Install]'', ''WantedBy=getty.target'']"

definition write_vt_init_service :: "inst_env \<Rightarrow> path \<Rightarrow> unit io" where
  "write_vt_init_service env root =
    (let units = path_join root [''etc'', ''systemd'', ''system'']; wants = path_join units [''getty.target.wants''] in
     do {
       _ \<leftarrow> ensure_dir env units;
       r \<leftarrow> fs_write env (path_join units [''metalkit-vt-init.service'']) vt_init_unit mode_644;
       when_io (\<not> isl r)
         (do { _ \<leftarrow> ensure_dir env wants;
               attempt (fs_symlink env ''../metalkit-vt-init.service'' (path_join wants [''metalkit-vt-init.service''])) })
     })"

subsection \<open>Without cloud-init\<close>

definition has_cloud_init :: "inst_env \<Rightarrow> path \<Rightarrow> bool io" where
  "has_cloud_init env root =
    do { a \<leftarrow> fs_exists env (path_join root [''usr'', ''bin'', ''cloud-init'']);
         if a then State_Monad.return True
         else do { b \<leftarrow> fs_exists env (path_join root [''usr'', ''sbin'', ''cloud-init'']);
                   if b then State_Monad.return True
                   else fs_exists env (path_join root [''usr'', ''local'', ''bin'', ''cloud-init'']) } }"

definition write_direct_hostname :: "inst_env \<Rightarrow> path \<Rightarrow> string \<Rightarrow> unit io" where
  "write_direct_hostname env root host =
    when_io (host \<noteq> []) (attempt (fs_write env (path_join root [''etc'', ''hostname'']) (host @ [nl]) mode_644))"

text \<open>\<open>strings.SplitN\<close>; the first line whose first field is \<open>root\<close> gets the hash.\<close>

definition split_n :: "nat \<Rightarrow> char \<Rightarrow> string \<Rightarrow> string list" where
  "split_n n d s =
    (let ws = split_on d s in if length ws \<le> n then ws else take (n - 1) ws @ [join_with [d] (drop (n - 1) ws)])"

definition is_root_entry :: "string \<Rightarrow> bool" where
  "is_root_entry l \<longleftrightarrow> (let fs = split_n 9 CHR '':'' l in 2 \<le> length fs \<and> fs ! 0 = ''root'')"

definition with_hash :: "string \<Rightarrow> string \<Rightarrow> string" where
  "with_hash hash l = join_with '':'' ((split_n 9 CHR '':'' l)[1 := hash])"

fun set_root_hash :: "string \<Rightarrow> string list \<Rightarrow> string list option" where
  "set_root_hash hash [] = None"
| "set_root_hash hash (l # ls) =
    (if is_root_entry l then Some (with_hash hash l # ls) else map_option ((#) l) (set_root_hash hash ls))"

definition write_direct_password :: "inst_env \<Rightarrow> path \<Rightarrow> string \<Rightarrow> unit io" where
  "write_direct_password env root hash =
    (let shadow = path_join root [''etc'', ''shadow''] in
     when_io (hash \<noteq> []) (do {
       r \<leftarrow> fs_read env shadow;
       case r of Inl e \<Rightarrow> State_Monad.return ()
       | Inr d \<Rightarrow> (case set_root_hash hash (split_on nl d) of
           None \<Rightarrow> State_Monad.return ()
         | Some ls \<Rightarrow> attempt (fs_write env shadow (join_with [nl] ls) mode_640)) }))"

definition write_direct_sshd_config :: "inst_env \<Rightarrow> path \<Rightarrow> unit io" where
  "write_direct_sshd_config env root =
    (let dir = path_join root [''etc'', ''ssh'', ''sshd_config.d''] in
     do { _ \<leftarrow> ensure_dir env dir;
          attempt (fs_write env (path_join dir [''99-metalkit.conf''])
            (unlines [managed, ''PermitRootLogin yes'', ''PasswordAuthentication yes'']) mode_644) })"

definition write_authorized_keys :: "inst_env \<Rightarrow> path \<Rightarrow> string list \<Rightarrow> (string, unit) result io" where
  "write_authorized_keys env root keys =
    (let dir = path_join root [''root'', ''.ssh'']; p = path_join dir [''authorized_keys''] in
     if keys = [] then State_Monad.return (Inr ())
     else try_io (''mkdir '' @ show_path dir @ '': '') (fs_mkdir_all env dir) (\<lambda>_.
          try_io (''write '' @ show_path p @ '': '') (fs_write env p (lines_text keys) mode_600) (\<lambda>_.
          State_Monad.return (Inr ()))))"

definition write_direct_network_config ::
  "inst_env \<Rightarrow> nic_info list \<Rightarrow> install_spec \<Rightarrow> path \<Rightarrow> string \<Rightarrow> bool \<Rightarrow> unit io" where
  "write_direct_network_config env nics spec root renderer rhel7 =
    (let nc = pr_network (is_profile spec); b = is_binding spec in
     if renderer = ''network-manager'' then write_nm_keyfiles env nics nc b root
     else if renderer = ''sysconfig'' then write_sysconfig env nics nc b root
     else if renderer = ''wicked'' then write_wicked_config env nics nc b root
     else if renderer = ''eni'' then write_eni_renderer_config env nics nc b root
     else if renderer = ''netplan'' then write_direct_netplan env nics rhel7 nc b root
     else State_Monad.return ())"

subsection \<open>The seed\<close>

definition relabel_paths :: "string list" where
  "relabel_paths =
    [''/etc/cloud'', ''/etc/NetworkManager'', ''/etc/sysconfig/network-scripts'', ''/etc/network'', ''/etc/ssh'',
     ''/etc/hostname'', ''/etc/shadow'', ''/etc/fstab'', ''/etc/sysconfig/network'', ''/root/.ssh'', ''/var/lib/cloud'']"

definition relabel :: "inst_env \<Rightarrow> string \<Rightarrow> bool \<Rightarrow> unit io" where
  "relabel env mnt is_rhel =
    do {
      disabled \<leftarrow> (if is_rhel then selinux_will_be_disabled env (abs_path mnt) else State_Monad.return True);
      when_io (\<not> disabled) (do {
        r \<leftarrow> run_cmd env ([''chroot'', mnt, ''restorecon'', ''-RF''] @ relabel_paths);
        when_io (snd r \<noteq> None) (attempt (fs_write env (path_join (abs_path mnt) [''.autorelabel'']) [] mode_644)) })
    }"

definition renderer_files :: "inst_env \<Rightarrow> nic_info list \<Rightarrow> install_spec \<Rightarrow> path \<Rightarrow> string \<Rightarrow> unit io" where
  "renderer_files env nics spec root renderer =
    (let nc = pr_network (is_profile spec); b = is_binding spec in
     if renderer = ''network-manager'' then
       (if nc_bond nc \<noteq> None
        then do { _ \<leftarrow> write_nm_keyfiles env nics nc b root; disable_cloud_init_network env root }
        else write_nm_renderer_config env root)
     else if renderer = ''sysconfig'' then write_sysconfig env nics nc b root
     else if renderer = ''eni'' then write_eni_renderer_config env nics nc b root
     else if renderer = ''wicked'' then write_wicked_config env nics nc b root
     else State_Monad.return ())"

definition direct_files :: "inst_env \<Rightarrow> nic_info list \<Rightarrow> install_spec \<Rightarrow> path \<Rightarrow> string \<Rightarrow> bool \<Rightarrow> unit io" where
  "direct_files env nics spec root renderer rhel7 =
    do {
      _ \<leftarrow> write_direct_hostname env root (expand_hostname (pr_hostname (is_profile spec)) (is_binding spec));
      _ \<leftarrow> write_direct_password env root (pr_hash (is_profile spec));
      _ \<leftarrow> write_direct_sshd_config env root;
      write_direct_network_config env nics spec root renderer rhel7
    }"

definition seed_rest ::
  "inst_env \<Rightarrow> nic_info list \<Rightarrow> install_spec \<Rightarrow> string \<Rightarrow> string \<Rightarrow> bool \<Rightarrow> bool \<Rightarrow> (string, unit) result io" where
  "seed_rest env nics spec mnt renderer rhel7 is_rhel =
    (let root = abs_path mnt in
     try_io ''install: mkdir cloud.cfg.d: '' (fs_mkdir_all env (cloud_cfg_dir root)) (\<lambda>_.
     try_io ''install: write datasource config: ''
       (fs_write env (path_join (cloud_cfg_dir root) [''99-metalkit.cfg'']) datasource_config mode_644) (\<lambda>_.
     try_io ''install: write authorized_keys: '' (write_authorized_keys env root (is_keys spec)) (\<lambda>_.
     do {
       _ \<leftarrow> relabel env mnt is_rhel;
       ci \<leftarrow> has_cloud_init env root;
       _ \<leftarrow> when_io (\<not> ci) (direct_files env nics spec root renderer rhel7);
       _ \<leftarrow> write_vt_init_service env root;
       State_Monad.return (Inr ())
     }))))"

definition build_seed_common ::
  "inst_env \<Rightarrow> nic_info list \<Rightarrow> install_spec \<Rightarrow> string \<Rightarrow> string \<Rightarrow> bool \<Rightarrow> bool \<Rightarrow> (string, unit) result io" where
  "build_seed_common env nics spec mnt renderer rhel7 is_rhel =
    (if mnt = [] then State_Monad.return (Inl ''install: BuildSeed: mntRoot is empty'')
     else
       let root = abs_path mnt;
           dir = path_join root [''var'', ''lib'', ''cloud'', ''seed'', ''nocloud-net''];
           host = expand_hostname (pr_hostname (is_profile spec)) (is_binding spec);
           nc = pr_network (is_profile spec);
           bypass = (renderer = ''network-manager'' \<and> nc_bond nc \<noteq> None) in
       try_io ''install: mkdir seed dir: '' (fs_mkdir_all env dir) (\<lambda>_.
       try_io ''install: write user-data: ''
         (fs_write env (path_join dir [''user-data'']) (render_user_data spec host) mode_644) (\<lambda>_.
       try_io ''install: write meta-data: ''
         (fs_write env (path_join dir [''meta-data'']) (render_meta_data spec host) mode_644) (\<lambda>_.
       do {
         _ \<leftarrow> clean_stale_network_config env root;
         try_io ''install: write network-config: ''
           (if bypass then State_Monad.return (Inr ())
            else fs_write env (path_join dir [''network-config''])
                   (render_network_config nc (is_binding spec) nics rhel7) mode_644) (\<lambda>_.
         do {
           _ \<leftarrow> renderer_files env nics spec root renderer;
           seed_rest env nics spec mnt renderer rhel7 is_rhel
         })
       }))))"

subsection \<open>Operating systems\<close>

text \<open>The identifiers of the component registry, the default first.\<close>

definition renderer_ids :: "string \<Rightarrow> string list" where
  "renderer_ids family =
    (if family \<in> {''ubuntu'', ''debian''} then [''netplan'', ''eni'']
     else if family \<in> {''rhel'', ''openeuler''} then [''network-manager'', ''netplan'', ''sysconfig'']
     else if family = ''rhel7'' then [''sysconfig'', ''netplan'']
     else if family = ''kylin'' then [''netplan'', ''network-manager'', ''eni'']
     else if family = ''opensuse'' then [''wicked'', ''network-manager'', ''netplan'']
     else [''netplan'', ''network-manager'', ''eni'', ''sysconfig'', ''wicked''])"

definition bootloader_ids :: "string \<Rightarrow> string list" where
  "bootloader_ids family =
    (if family \<in> {''ubuntu'', ''debian''} then [''grub-host-debian'', ''grub-host-fallback'']
     else if family \<in> {''rhel'', ''openeuler'', ''opensuse''} then [''grub-chroot-rhel'', ''grub-host-fallback'']
     else if family = ''rhel7'' then [''grub-host-fallback'', ''grub-chroot-rhel'']
     else if family = ''kylin'' then [''grub-host-debian'', ''grub-chroot-rhel'']
     else [''grub-host-debian'', ''grub-chroot-rhel'', ''grub-host-fallback''])"

definition default_renderer :: "string \<Rightarrow> string" where
  "default_renderer family = (case renderer_ids (lower_trim family) of r # _ \<Rightarrow> r | [] \<Rightarrow> ''netplan'')"

definition default_bootloader :: "string \<Rightarrow> string" where
  "default_bootloader family = (case bootloader_ids (lower_trim family) of b # _ \<Rightarrow> b | [] \<Rightarrow> ''grub-host-debian'')"

definition resolve_network_renderer_for :: "install_spec \<Rightarrow> string \<Rightarrow> string" where
  "resolve_network_renderer_for spec family = or_else (is_renderer spec) (default_renderer family)"

definition resolve_bootloader_for :: "install_spec \<Rightarrow> string \<Rightarrow> string" where
  "resolve_bootloader_for spec family = or_else (is_bootloader spec) (default_bootloader family)"

definition os_installers :: "string list" where
  "os_installers = [''ubuntu'', ''debian'', ''rhel'', ''rhel7'', ''kylin'', ''openeuler'', ''opensuse'']"

definition pick_os_installer :: "string \<Rightarrow> (string, string) result" where
  "pick_os_installer family =
    (if family \<in> set os_installers then Inr family
     else Inl (''os_family '' @ go_quote family @ '' not in ubuntu/debian/rhel/rhel7/kylin/openeuler/opensuse ''
               @ em_dash @ '' set a concrete family in the profile''))"

text \<open>\<open>BuildSeed\<close> of the installer of a family.\<close>

definition os_build_seed :: "string \<Rightarrow> inst_env \<Rightarrow> nic_info list \<Rightarrow> install_spec \<Rightarrow> string \<Rightarrow> (string, unit) result io" where
  "os_build_seed family env nics spec mnt =
    build_seed_common env nics spec mnt (resolve_network_renderer_for spec family) (family = ''rhel7'')
      (family \<in> {''rhel'', ''rhel7'', ''openeuler'', ''opensuse''})"

end
