(* ===== verification/Inst_Grub.thy ===== *)
theory Inst_Grub
  imports Inst_Mount Seed
begin

text \<open>
  The boot loader of the target, \<open>grub.go\<close>, and what depends on the processor, \<open>arch.go\<close>, of
  \<open>internal/installer\<close>: the strategies of the families, the boot entry in the firmware, the storage
  drivers of the initramfs, the default kernel and the edits of files of the target. Most steps are
  best effort: a failed command or operation is passed over. The logger is there, as in the agent, so
  the commands that are run for it only are run. \<open>os.ReadDir\<close> lists a directory by name; the order in
  which Go walks over a map is that of the list here.
\<close>

subsection \<open>Processor\<close>

record arch_info =
  ai_arm :: bool
  ai_efi_type :: string
  ai_loaders :: "string list"
  ai_fallback :: string
  ai_meta_kernel :: string
  ai_serial :: "string list"

definition arch_from_spec :: "install_spec \<Rightarrow> arch_info" where
  "arch_from_spec spec =
    (if is_arch spec = ''arm64''
     then \<lparr>ai_arm = True, ai_efi_type = ''arm64-efi'', ai_loaders = [''shimaa64.efi'', ''grubaa64.efi''],
           ai_fallback = ''BOOTAA64.EFI'', ai_meta_kernel = ''linux-image-arm64'', ai_serial = [''ttyAMA0'', ''ttyS0'']\<rparr>
     else \<lparr>ai_arm = False, ai_efi_type = ''x86_64-efi'', ai_loaders = [''shimx64.efi'', ''shim.efi'', ''grubx64.efi''],
           ai_fallback = ''BOOTX64.EFI'', ai_meta_kernel = ''linux-image-amd64'', ai_serial = [''ttyS0'']\<rparr>)"

subsection \<open>Small programs\<close>

fun filter_io :: "('a \<Rightarrow> bool io) \<Rightarrow> 'a list \<Rightarrow> 'a list io" where
  "filter_io f [] = State_Monad.return []"
| "filter_io f (x # xs) =
    do { b \<leftarrow> f x; ys \<leftarrow> filter_io f xs; State_Monad.return (if b then x # ys else ys) }"

text \<open>The first element for which the program answers yes; the others after it are not asked.\<close>

fun first_io :: "('a \<Rightarrow> bool io) \<Rightarrow> 'a list \<Rightarrow> 'a option io" where
  "first_io f [] = State_Monad.return None"
| "first_io f (x # xs) = do { b \<leftarrow> f x; if b then State_Monad.return (Some x) else first_io f xs }"

definition run_ok :: "inst_env \<Rightarrow> string list \<Rightarrow> bool io" where
  "run_ok env argv = do { r \<leftarrow> run_cmd env argv; State_Monad.return (snd r = None) }"

definition target_path :: "string \<Rightarrow> string list \<Rightarrow> path" where
  "target_path mnt es = path_join (abs_path mnt) es"

definition in_target :: "string \<Rightarrow> string list \<Rightarrow> string list" where
  "in_target mnt argv = ''chroot'' # mnt # argv"

fun replace_first :: "('a \<Rightarrow> bool) \<Rightarrow> ('a \<Rightarrow> 'a list) \<Rightarrow> 'a list \<Rightarrow> 'a list option" where
  "replace_first p f [] = None"
| "replace_first p f (x # xs) = (if p x then Some (f x @ xs) else map_option ((#) x) (replace_first p f xs))"

text \<open>\<open>strings.Index\<close>: what follows the first occurrence.\<close>

fun after_sub :: "string \<Rightarrow> string \<Rightarrow> string option" where
  "after_sub w [] = (if w = [] then Some [] else None)"
| "after_sub w (c # s) = (if starts_with w (c # s) then Some (drop (length w) (c # s)) else after_sub w s)"

definition trim_chars :: "char set \<Rightarrow> string \<Rightarrow> string" where
  "trim_chars cs s = rev (dropWhile (\<lambda>c. c \<in> cs) (rev (dropWhile (\<lambda>c. c \<in> cs) s)))"

subsection \<open>Kernels and drivers\<close>

definition os_read_dir :: "path \<Rightarrow> tree \<Rightarrow> (string, string list \<times> tree) result" where
  "os_read_dir p t =
    (if is_dir t p
     then Inr (sort (map last (filter (\<lambda>q. q \<noteq> [] \<and> butlast q = p \<and> is_dir t q) (remdups (map fst t)))), t)
     else Inl (''open '' @ show_path p @ '': no such file or directory''))"

definition modules_path :: "string \<Rightarrow> path" where
  "modules_path mnt = target_path mnt [''lib'', ''modules'']"

definition list_kernel_versions :: "inst_env \<Rightarrow> string \<Rightarrow> string list io" where
  "list_kernel_versions env mnt =
    do { r \<leftarrow> fs_op env (os_read_dir (modules_path mnt)); State_Monad.return (case r of Inl e \<Rightarrow> [] | Inr ks \<Rightarrow> ks) }"

definition module_dir :: "string \<Rightarrow> string \<Rightarrow> string" where
  "module_dir mnt kver = join_text mnt [''lib'', ''modules'', kver]"

definition has_driver :: "inst_env \<Rightarrow> string \<Rightarrow> string \<Rightarrow> string \<Rightarrow> bool io" where
  "has_driver env mnt kver drv =
    do { r \<leftarrow> run_cmd env [''find'', module_dir mnt kver, ''-name'', drv @ ''.ko*'', ''-print'', ''-quit''];
         State_Monad.return (trim_space (fst r) \<noteq> []) }"

definition critical_drivers :: "string list" where
  "critical_drivers = [''megaraid_sas'', ''mpt3sas'', ''hpsa'', ''aacraid'', ''smartpqi'']"

definition boot_drivers :: "string list" where
  "boot_drivers = critical_drivers @ [''vfat'']"

definition driver_score :: "inst_env \<Rightarrow> string \<Rightarrow> string list \<Rightarrow> string \<Rightarrow> (string \<times> nat) list io" where
  "driver_score env mnt drivers kver =
    do { ds \<leftarrow> filter_io (has_driver env mnt kver) drivers; State_Monad.return [(kver, length ds)] }"

definition best_kernel :: "(string \<times> nat) list \<Rightarrow> string \<times> int" where
  "best_kernel cs =
    fold (\<lambda>(k, n) (b, m). if m < int n \<or> (int n = m \<and> b < k) then (k, int n) else (b, m)) cs ([], -1)"

definition raid_drivers :: "string list" where
  "raid_drivers = critical_drivers @ [''cciss'', ''arcmsr'']"

definition is_raid_path :: "string \<Rightarrow> bool" where
  "is_raid_path resolved \<longleftrightarrow>
    path_base resolved \<in> set raid_drivers \<or> list_ex (\<lambda>d. contains_sub d (to_lower resolved)) raid_drivers"

fun raid_probe :: "inst_env \<Rightarrow> string list \<Rightarrow> bool io" where
  "raid_probe env [] = State_Monad.return True"
| "raid_probe env (l # ls) =
    do {
      r \<leftarrow> try_cmd env [''readlink'', ''-f'', l];
      case r of Inl e \<Rightarrow> raid_probe env ls
      | Inr out \<Rightarrow>
        (if trim_space out = [] then raid_probe env ls else State_Monad.return (is_raid_path (trim_space out)))
    }"

definition is_raid_controller_disk :: "inst_env \<Rightarrow> string \<Rightarrow> bool io" where
  "is_raid_controller_disk env dev =
    (if dev = [] then State_Monad.return True
     else raid_probe env [''/sys/block/'' @ path_base dev @ ''/device/driver'', ''/sys/block/'' @ path_base dev @ ''/device/../driver''])"

definition chroot_dns_of :: "install_spec \<Rightarrow> string list" where
  "chroot_dns_of spec =
    (if pr_dns (is_profile spec) = [] then [''223.5.5.5'', ''114.114.114.114''] else pr_dns (is_profile spec))"

definition write_resolv_conf :: "inst_env \<Rightarrow> install_spec \<Rightarrow> string \<Rightarrow> unit io" where
  "write_resolv_conf env spec mnt =
    do {
      _ \<leftarrow> attempt (fs_mkdir_all env (target_path mnt [''etc'']));
      _ \<leftarrow> attempt (fs_remove env (target_path mnt [''etc'', ''resolv.conf'']));
      attempt (fs_write env (target_path mnt [''etc'', ''resolv.conf''])
        (unlines (map (\<lambda>s. ''nameserver '' @ s) (chroot_dns_of spec))) mode_644)
    }"

subsection \<open>The files of GRUB\<close>

definition with_saved_entry :: "string \<Rightarrow> string list \<Rightarrow> string list" where
  "with_saved_entry e ls =
    (let line = ''saved_entry='' @ e in
     case replace_first (starts_with ''saved_entry='') (\<lambda>_. [line]) ls of
       Some ls' \<Rightarrow> ls'
     | None \<Rightarrow> (case replace_first (\<lambda>l. \<not> starts_with ''#'' l \<and> trim_space l \<noteq> []) (\<lambda>l. [line, l]) ls of
         Some ls' \<Rightarrow> ls'
       | None \<Rightarrow> ls @ [line]))"

text \<open>The first of two places that can be read, with its text.\<close>

definition read_either :: "inst_env \<Rightarrow> path \<Rightarrow> path \<Rightarrow> (path \<times> string) option io" where
  "read_either env p q =
    do {
      r \<leftarrow> fs_read env p;
      case r of Inr d \<Rightarrow> State_Monad.return (Some (p, d))
      | Inl e \<Rightarrow> do { s \<leftarrow> fs_read env q; State_Monad.return (case s of Inr d \<Rightarrow> Some (q, d) | Inl e \<Rightarrow> None) }
    }"

definition write_saved_entry :: "inst_env \<Rightarrow> path \<Rightarrow> path \<Rightarrow> string \<Rightarrow> bool io" where
  "write_saved_entry env p q e =
    do {
      r \<leftarrow> read_either env p q;
      case r of None \<Rightarrow> State_Monad.return False
      | Some (f, d) \<Rightarrow> do {
          w \<leftarrow> fs_write env f (join_with [nl] (with_saved_entry e (lines_of d))) mode_644;
          State_Monad.return (\<not> isl w) }
    }"

definition extract_menuentry_id :: "string \<Rightarrow> string" where
  "extract_menuentry_id line =
    (case after_sub ''$menuentry_id_option'' line of
       None \<Rightarrow> []
     | Some rest0 \<Rightarrow>
       (case dropWhile (\<lambda>c. c \<in> {CHR '' '', CHR 0x09}) rest0 of
          [] \<Rightarrow> []
        | q # rest \<Rightarrow>
          (if q \<noteq> CHR 0x27 \<and> q \<noteq> CHR 0x22 \<or> q \<notin> set rest then [] else takeWhile (\<lambda>c. c \<noteq> q) rest)))"

definition linux_line_for :: "string \<Rightarrow> string \<Rightarrow> bool" where
  "linux_line_for kver l \<longleftrightarrow>
    (starts_with ''linux '' l \<or> starts_with (''linux'' @ [CHR 0x09]) l)
    \<and> (contains_sub (''vmlinuz-'' @ kver @ '' '') l \<or> ends_with (''vmlinuz-'' @ kver) l)"

text \<open>The scan of \<open>grub.cfg\<close>: the identifier of the open menu entry, if one is open.\<close>

fun menu_scan :: "string \<Rightarrow> string option \<Rightarrow> string list \<Rightarrow> string option" where
  "menu_scan kver cur [] = None"
| "menu_scan kver None (l # ls) = menu_scan kver (map_option extract_menuentry_id (after_sub ''menuentry '' (trim_space l))) ls"
| "menu_scan kver (Some i) (l # ls) =
    (if trim_space l = ''}'' then menu_scan kver None ls
     else if linux_line_for kver (trim_space l) then Some i
     else menu_scan kver (Some i) ls)"

fun find_menuentry :: "inst_env \<Rightarrow> string \<Rightarrow> path list \<Rightarrow> string io" where
  "find_menuentry env kver [] = State_Monad.return []"
| "find_menuentry env kver (p # ps) =
    do {
      r \<leftarrow> fs_read env p;
      case r of Inl e \<Rightarrow> find_menuentry env kver ps
      | Inr d \<Rightarrow> (case menu_scan kver None (lines_of d) of
          Some i \<Rightarrow> State_Monad.return i
        | None \<Rightarrow> find_menuentry env kver ps)
    }"

definition find_menuentry_id_for_kernel :: "inst_env \<Rightarrow> string \<Rightarrow> string \<Rightarrow> string io" where
  "find_menuentry_id_for_kernel env mnt kver =
    find_menuentry env kver [target_path mnt [''boot/grub/grub.cfg''], target_path mnt [''boot/grub2/grub.cfg'']]"

definition bridge_rhel_grub_cfg :: "inst_env \<Rightarrow> string \<Rightarrow> unit io" where
  "bridge_rhel_grub_cfg env mnt =
    do {
      a \<leftarrow> fs_exists env (target_path mnt [''boot'', ''grub2'', ''grub.cfg'']);
      if \<not> a then State_Monad.return ()
      else do {
        b \<leftarrow> fs_exists env (target_path mnt [''boot'', ''grub'', ''grub.cfg'']);
        when_io (\<not> b) (attempt (fs_symlink env ''../grub2/grub.cfg'' (target_path mnt [''boot'', ''grub'', ''grub.cfg'']))) }
    }"

subsection \<open>Debian and Ubuntu\<close>

definition is_ubuntu_family :: "string \<Rightarrow> bool" where
  "is_ubuntu_family family \<longleftrightarrow> family = ''ubuntu''"

definition standard_kernel_meta_package :: "install_spec \<Rightarrow> arch_info \<Rightarrow> string" where
  "standard_kernel_meta_package spec arch =
    (if is_ubuntu_family (pr_family (is_profile spec)) then ''linux-generic'' else ai_meta_kernel arch)"

definition tuna :: string where
  "tuna = ''https://mirrors.tuna.tsinghua.edu.cn/''"

definition tuna_ubuntu :: string where
  "tuna_ubuntu = unlines
    [''Types: deb'', ''URIs: '' @ tuna @ ''ubuntu'', ''Suites: noble noble-updates noble-backports'',
     ''Components: main universe restricted multiverse'', ''Signed-By: /usr/share/keyrings/ubuntu-archive-keyring.gpg'', [],
     ''Types: deb'', ''URIs: '' @ tuna @ ''ubuntu'', ''Suites: noble-security'',
     ''Components: main universe restricted multiverse'', ''Signed-By: /usr/share/keyrings/ubuntu-archive-keyring.gpg'']"

definition switch_mirror :: "inst_env \<Rightarrow> install_spec \<Rightarrow> string \<Rightarrow> unit io" where
  "switch_mirror env spec mnt =
    (if is_ubuntu_family (pr_family (is_profile spec)) then
       do { _ \<leftarrow> attempt (fs_mkdir_all env (target_path mnt [''etc'', ''apt'', ''sources.list.d'']));
            attempt (fs_write env (target_path mnt [''etc'', ''apt'', ''sources.list.d'', ''ubuntu.sources'']) tuna_ubuntu mode_644) }
     else
       do { _ \<leftarrow> attempt (fs_mkdir_all env (target_path mnt [''etc'', ''apt'', ''mirrors'']));
            _ \<leftarrow> attempt (fs_write env (target_path mnt [''etc'', ''apt'', ''mirrors'', ''debian.list'']) (tuna @ ''debian'' @ [nl]) mode_644);
            attempt (fs_write env (target_path mnt [''etc'', ''apt'', ''mirrors'', ''debian-security.list''])
              (tuna @ ''debian-security'' @ [nl]) mode_644) })"

definition kernel_files :: "string \<Rightarrow> string list" where
  "kernel_files kver =
    [''boot/vmlinuz-'' @ kver, ''boot/initrd.img-'' @ kver, ''boot/System.map-'' @ kver, ''boot/config-'' @ kver]"

definition drop_file :: "inst_env \<Rightarrow> path \<Rightarrow> bool io" where
  "drop_file env p =
    do { b \<leftarrow> fs_exists env p;
         if b then do { r \<leftarrow> fs_remove env p; State_Monad.return (\<not> isl r) } else State_Monad.return False }"

text \<open>Whether files of the kernel were removed.\<close>

definition purge_kernel :: "inst_env \<Rightarrow> string \<Rightarrow> string \<Rightarrow> bool io" where
  "purge_kernel env mnt kver =
    do {
      _ \<leftarrow> each_io (\<lambda>pkg. run_quiet env (in_target mnt [''apt-get'', ''purge'', ''-y'', pkg]))
             [''linux-image-'' @ kver, ''linux-modules-'' @ kver, ''linux-modules-extra-'' @ kver];
      fs \<leftarrow> filter_io (\<lambda>rel. drop_file env (target_path mnt [rel])) (kernel_files kver);
      d \<leftarrow> fs_exists env (target_path mnt [''lib'', ''modules'', kver]);
      m \<leftarrow> (if d then run_ok env [''rm'', ''-rf'', module_dir mnt kver] else State_Monad.return False);
      State_Monad.return (fs \<noteq> [] \<or> m)
    }"

definition purge_candidate :: "inst_env \<Rightarrow> string \<Rightarrow> string \<Rightarrow> string list io" where
  "purge_candidate env mnt kver =
    do {
      b \<leftarrow> purge_kernel env mnt kver;
      if b then State_Monad.return [kver]
      else do { _ \<leftarrow> log_line env ''warn'' (''failed to purge cloud kernel '' @ kver @ '' (no files removed)'');
                State_Monad.return [] }
    }"

text \<open>The kernels that miss a driver, if one kernel has them all.\<close>

definition stripped_kernels :: "(string \<times> nat) list \<Rightarrow> string list option" where
  "stripped_kernels cs =
    (if list_ex (\<lambda>(k, n). n = length critical_drivers) cs
     then Some (map fst (filter (\<lambda>(k, n). n \<noteq> length critical_drivers) cs)) else None)"

definition purge_cloud_kernel_debian :: "inst_env \<Rightarrow> string \<Rightarrow> unit io" where
  "purge_cloud_kernel_debian env mnt =
    do {
      ks \<leftarrow> list_kernel_versions env mnt;
      if length ks \<le> 1 then State_Monad.return ()
      else do {
        cs \<leftarrow> collect_io (driver_score env mnt critical_drivers) ks;
        case stripped_kernels cs of
          None \<Rightarrow> log_line env ''warn'' ''no driver-complete kernel available; cloud kernel kept (boot may stall on RAID controllers)''
        | Some bad \<Rightarrow> do {
            purged \<leftarrow> collect_io (purge_candidate env mnt) bad;
            when_io (purged \<noteq> []) (do {
              _ \<leftarrow> log_line env ''info'' (''purged driver-stripped cloud kernels: '' @ join_with '', '' purged);
              run_quiet env (in_target mnt [''update-grub'']) }) }
      }
    }"

definition with_default_saved :: "string list \<Rightarrow> string list option" where
  "with_default_saved ls =
    (case find (starts_with ''GRUB_DEFAULT='') ls of
       None \<Rightarrow> Some (''GRUB_DEFAULT=saved'' # ls)
     | Some l \<Rightarrow>
       (if starts_with ''GRUB_DEFAULT=saved'' l then None
        else replace_first (starts_with ''GRUB_DEFAULT='') (\<lambda>_. [''GRUB_DEFAULT=saved'']) ls))"

definition set_default_saved :: "inst_env \<Rightarrow> string \<Rightarrow> unit io" where
  "set_default_saved env mnt =
    do {
      r \<leftarrow> fs_read env (target_path mnt [''etc'', ''default'', ''grub'']);
      case r of Inl e \<Rightarrow> State_Monad.return ()
      | Inr d \<Rightarrow> (case with_default_saved (lines_of d) of None \<Rightarrow> State_Monad.return ()
        | Some ls \<Rightarrow> do {
            w \<leftarrow> fs_write env (target_path mnt [''etc'', ''default'', ''grub'']) (join_with [nl] ls) mode_644;
            when_io (\<not> isl w) (do {
              u \<leftarrow> run_ok env (in_target mnt [''update-grub'']);
              when_io u (log_line env ''info'' ''GRUB_DEFAULT=saved written, grub.cfg regenerated'') }) })
    }"

definition score_text :: "int \<Rightarrow> string" where
  "score_text n = ''(driver score '' @ show_int n @ ''/'' @ digits_nat (length boot_drivers) @ '')''"

definition set_saved_entry :: "inst_env \<Rightarrow> string \<Rightarrow> string \<Rightarrow> bool io" where
  "set_saved_entry env mnt i =
    do {
      b \<leftarrow> run_ok env (in_target mnt [''grub-set-default'', i]);
      if b then State_Monad.return True
      else write_saved_entry env (target_path mnt [''boot'', ''grub'', ''grubenv'']) (target_path mnt [''boot'', ''grub2'', ''grubenv'']) i
    }"

definition pin_debian_default_kernel :: "inst_env \<Rightarrow> string \<Rightarrow> unit io" where
  "pin_debian_default_kernel env mnt =
    do {
      ks \<leftarrow> list_kernel_versions env mnt;
      cs \<leftarrow> collect_io (driver_score env mnt boot_drivers) ks;
      let (best, score) = best_kernel cs in
      if best = [] then State_Monad.return ()
      else do {
        _ \<leftarrow> log_line env ''info'' (''pin-debian-kernel: best kernel '' @ best @ '' '' @ score_text score);
        u \<leftarrow> run_cmd env (in_target mnt [''update-grub'']);
        _ \<leftarrow> (case snd u of
                Some e \<Rightarrow> log_line env ''warn'' (''update-grub failed: '' @ e @ '' '' @ em_dash @ '' grub.cfg may be missing the new kernel menuentry'')
              | None \<Rightarrow> log_line env ''info'' ''grub.cfg regenerated with new kernel menuentry'');
        _ \<leftarrow> set_default_saved env mnt;
        i \<leftarrow> find_menuentry_id_for_kernel env mnt best;
        if i = []
        then log_line env ''warn'' (''could not pin default kernel to '' @ best @ '' '' @ em_dash @ '' no menuentry ID found in grub.cfg'')
        else do {
          b \<leftarrow> set_saved_entry env mnt i;
          when_io b (log_line env ''info'' (''GRUB saved_entry set to '' @ go_quote i @ '' (kernel '' @ best
            @ '', '' @ tl (score_text score))) }
      }
    }"

text \<open>Drivers that some kernel lacks.\<close>

definition missing_drivers :: "inst_env \<Rightarrow> string \<Rightarrow> string \<Rightarrow> string list io" where
  "missing_drivers env mnt kver = filter_io (\<lambda>d. do { b \<leftarrow> has_driver env mnt kver d; State_Monad.return (\<not> b) }) critical_drivers"

definition install_standard_kernel :: "inst_env \<Rightarrow> install_spec \<Rightarrow> string \<Rightarrow> unit io" where
  "install_standard_kernel env spec mnt =
    do {
      a \<leftarrow> run_cmd env (in_target mnt [''apt-get'', ''update'']);
      _ \<leftarrow> (case snd a of None \<Rightarrow> State_Monad.return ()
            | Some e \<Rightarrow> log_line env ''warn'' (''apt-get update failed: '' @ e @ '' '' @ em_dash @ '' initramfs may stay incomplete''));
      i \<leftarrow> run_cmd env (in_target mnt [''apt-get'', ''install'', ''-y'', standard_kernel_meta_package spec (arch_from_spec spec)]);
      case snd i of
        Some e \<Rightarrow> log_line env ''warn'' (''linux-image-amd64 install failed: '' @ e @ '' (output: '' @ fst i @ '') ''
                    @ em_dash @ '' initramfs may lack storage drivers'')
      | None \<Rightarrow> do {
          _ \<leftarrow> log_line env ''info'' ''linux-image-amd64 installed (full SCSI driver set)'';
          ks \<leftarrow> list_kernel_versions env mnt;
          u \<leftarrow> run_cmd env (in_target mnt [''update-initramfs'', ''-u'', ''-k'', ''all'']);
          _ \<leftarrow> (case snd u of
                  Some e \<Rightarrow> log_line env ''warn'' (''initramfs rebuild failed: '' @ e @ '' (output: '' @ fst u @ '')'')
                | None \<Rightarrow> log_line env ''info'' (''initramfs rebuilt for kernels: '' @ join_with '', '' ks));
          _ \<leftarrow> purge_cloud_kernel_debian env mnt;
          pin_debian_default_kernel env mnt }
    }"

definition regenerate_initramfs_debian :: "inst_env \<Rightarrow> install_spec \<Rightarrow> string \<Rightarrow> string \<Rightarrow> unit io" where
  "regenerate_initramfs_debian env spec mnt dev =
    do {
      ks \<leftarrow> list_kernel_versions env mnt;
      if ks = [] then State_Monad.return ()
      else do {
        ms \<leftarrow> collect_io (missing_drivers env mnt) ks;
        if ms = [] then log_line env ''info'' (''initramfs rebuild skipped '' @ em_dash @ '' Debian image already has storage drivers'')
        else do {
          _ \<leftarrow> log_line env ''info'' (''cloud kernel missing storage drivers ['' @ join_with '', '' (remdups ms) @ ''] ''
                 @ em_dash @ '' installing linux-image-amd64 + rebuilding initramfs'');
          _ \<leftarrow> is_raid_controller_disk env dev;
          _ \<leftarrow> write_resolv_conf env spec mnt;
          _ \<leftarrow> switch_mirror env spec mnt;
          install_standard_kernel env spec mnt }
      }
    }"

text \<open>The first command that succeeds.\<close>

definition any_cmd :: "inst_env \<Rightarrow> string list list \<Rightarrow> bool io" where
  "any_cmd env cmds = do { r \<leftarrow> first_io (run_ok env) cmds; State_Monad.return (r \<noteq> None) }"

definition install_grub_host_debian ::
  "inst_env \<Rightarrow> install_spec \<Rightarrow> string \<Rightarrow> string \<Rightarrow> string \<Rightarrow> (string, unit) result io"
where
  "install_grub_host_debian env spec mnt dev esp =
    (let arch = arch_from_spec spec; boot = join_text mnt [''boot''];
         efi = (if esp = [] \<or> \<not> starts_with mnt esp then join_text mnt [''boot'', ''efi''] else esp);
         rest = do {
           u \<leftarrow> any_cmd env [in_target mnt [''update-grub''],
                  in_target mnt [''grub2-mkconfig'', ''-o'', ''/boot/grub2/grub.cfg''],
                  in_target mnt [''grub-mkconfig'', ''-o'', ''/boot/grub/grub.cfg'']];
           _ \<leftarrow> when_io (\<not> u) (run_quiet env [''grub-mkconfig'', ''-o'', boot @ ''/grub/grub.cfg'']);
           _ \<leftarrow> bridge_rhel_grub_cfg env mnt;
           _ \<leftarrow> regenerate_initramfs_debian env spec mnt dev;
           _ \<leftarrow> when_io (esp \<noteq> []) (run_quiet env [''efibootmgr'', ''-v'']);
           State_Monad.return (Inr ()) } in
     if esp \<noteq> [] then
       must_run (''install: grub-install (uefi, dev '' @ dev @ ''): '') env
         [''grub-install'', ''--target='' @ ai_efi_type arch, ''--efi-directory='' @ efi, ''--boot-directory='' @ boot,
          ''--bootloader-id=metalkit'', ''--recheck''] rest
     else if ai_arm arch then
       State_Monad.return (Inl ''install: BIOS boot not supported on arm64; use a UEFI arm64 image'')
     else
       must_run (''install: grub-install (bios, dev '' @ dev @ ''): '') env
         [''grub-install'', ''--target=i386-pc'', ''--boot-directory='' @ boot, dev] rest)"

definition install_grub_host_fallback ::
  "inst_env \<Rightarrow> install_spec \<Rightarrow> string \<Rightarrow> string \<Rightarrow> string \<Rightarrow> (string, unit) result io"
where
  "install_grub_host_fallback env spec mnt dev esp = install_grub_host_debian env spec mnt dev esp"

subsection \<open>The boot entry in the firmware\<close>

definition detect_rhel_bootloader_id :: "inst_env \<Rightarrow> string \<Rightarrow> string io" where
  "detect_rhel_bootloader_id env mnt =
    do {
      r \<leftarrow> fs_read env (target_path mnt [''etc'', ''os-release'']);
      State_Monad.return (case r of Inl e \<Rightarrow> ''centos''
      | Inr d \<Rightarrow>
        (case find (\<lambda>(k, v). contains_sub (''id='' @ [CHR 0x22] @ k @ [CHR 0x22]) (to_lower d))
           [(''rocky'', ''rocky''), (''almalinux'', ''almalinux''), (''rhel'', ''redhat''), (''fedora'', ''fedora''),
            (''centos'', ''centos''), (''openeuler'', ''openEuler''), (''kylin'', ''kylin''), (''opensuse-leap'', ''opensuse''),
            (''opensuse-tumbleweed'', ''opensuse''), (''opensuse'', ''opensuse'')] of
           Some (k, v) \<Rightarrow> v | None \<Rightarrow> ''centos''))
    }"

definition efi_label_for :: "string \<Rightarrow> string" where
  "efi_label_for i =
    (case map_of
       [(''rocky'', ''Rocky Linux''), (''almalinux'', ''AlmaLinux''), (''redhat'', ''Red Hat Enterprise Linux''),
        (''centos'', ''CentOS Linux''), (''fedora'', ''Fedora''), (''openeuler'', ''openEuler''), (''openEuler'', ''openEuler''),
        (''kylin'', ''Kylin Linux''), (''opensuse'', ''openSUSE'')] i of
       Some l \<Rightarrow> l
     | None \<Rightarrow> (if i = [] then ''Linux'' else to_upper_ascii (take 1 i) @ drop 1 i))"

text \<open>
  \<open>(?i)^Boot[0-9A-F]{4}\*?\s+(.*?)(?:\t|  )\<close>: the group, up to the first tabulator or double space after
  the leading white space. A line on which only the white space itself could end the group is no
  match here; the group would be empty, and the label it is compared with never is.
\<close>

definition re_space :: "char \<Rightarrow> bool" where
  "re_space c \<longleftrightarrow> byte c \<in> {9, 10, 12, 13, 32}"

fun until_gap :: "string \<Rightarrow> string option" where
  "until_gap [] = None"
| "until_gap (c # s) =
    (if c = CHR 0x09 \<or> starts_with ''  '' (c # s) then Some [] else map_option ((#) c) (until_gap s))"

definition boot_line_label :: "string \<Rightarrow> string option" where
  "boot_line_label line =
    (let num = take 4 (drop 4 line); r = drop 8 line; r2 = (if starts_with ''*'' r then tl r else r) in
     if map lower_byte (take 4 line) = ''boot'' \<and> length num = 4 \<and> list_all is_hex num \<and> r2 \<noteq> [] \<and> re_space (hd r2)
     then until_gap (dropWhile re_space r2) else None)"

definition boot_line_index :: "string \<Rightarrow> string" where
  "boot_line_index line =
    (let idx = trim_prefix ''Boot'' (trim_space (takeWhile (\<lambda>c. c \<noteq> CHR '' '') line)) in
     if ends_with ''*'' idx then butlast idx else idx)"

definition stale_label :: "string \<Rightarrow> string \<Rightarrow> bool" where
  "stale_label label line \<longleftrightarrow>
    (case boot_line_label line of
       None \<Rightarrow> False
     | Some l \<Rightarrow> to_lower (trim_space l) = to_lower (trim_space label) \<and> length (boot_line_index line) = 4)"

definition remove_stale_efi_entries :: "inst_env \<Rightarrow> string \<Rightarrow> string \<Rightarrow> unit io" where
  "remove_stale_efi_entries env out label =
    each_io (\<lambda>l. run_quiet env [''efibootmgr'', ''-b'', boot_line_index l, ''-B'']) (filter (stale_label label) (lines_of out))"

text \<open>\<open>efiEntryMatches\<close>, which has no caller.\<close>

definition efi_entry_matches :: "string \<Rightarrow> string \<Rightarrow> string \<Rightarrow> bool" where
  "efi_entry_matches out label loader =
    list_ex (\<lambda>line. (case boot_line_label line of
        None \<Rightarrow> False
      | Some l \<Rightarrow> to_lower (trim_space l) = to_lower (trim_space label))
      \<and> contains_sub (to_lower loader) (to_lower line)) (lines_of out)"

definition mounted_device :: "string \<Rightarrow> string \<Rightarrow> string" where
  "mounted_device out target =
    (case find (\<lambda>fs. 2 \<le> length fs \<and> fs ! 1 = target) (map fields_of (lines_of out)) of Some fs \<Rightarrow> hd fs | None \<Rightarrow> [])"

definition find_esp_part_num :: "inst_env \<Rightarrow> string \<Rightarrow> (string, string) result io" where
  "find_esp_part_num env mnt =
    try_io ''read /proc/mounts: '' (fs_read env (abs_path ''/proc/mounts'')) (\<lambda>out.
      let dev = or_else (mounted_device out (join_text mnt [''boot'', ''efi''])) (mounted_device out (join_text mnt [''boot'']));
          num = rev (takeWhile is_digit (rev dev)) in
      State_Monad.return
       (if dev = [] then Inl (''no /proc/mounts entry for ESP under '' @ mnt)
        else if num = [] then Inl (''device '' @ dev @ '' has no trailing partition number'')
        else Inr num))"

definition register_efi_boot_entry_rhel ::
  "inst_env \<Rightarrow> string \<Rightarrow> string \<Rightarrow> string \<Rightarrow> string list \<Rightarrow> (string, unit) result io"
where
  "register_efi_boot_entry_rhel env mnt dev i loaders =
    do {
      d \<leftarrow> first_io (fs_exists env) [target_path mnt [''boot'', ''efi'', ''EFI'', i], target_path mnt [''boot'', ''EFI'', i]];
      case d of
        None \<Rightarrow> State_Monad.return (Inl (''install: EFI dir  missing on ESP '' @ em_dash
                  @ '' image did not ship a bootloader for id '' @ go_quote i))
      | Some dir \<Rightarrow> do {
          l \<leftarrow> first_io (\<lambda>c. fs_exists env (path_join dir [c])) loaders;
          case l of
            None \<Rightarrow> State_Monad.return (Inl (''install: no shim/grub binary found under '' @ show_path dir))
          | Some loader \<Rightarrow>
              try_io ''install: locate ESP partition number: '' (find_esp_part_num env mnt) (\<lambda>num.
              do {
                e \<leftarrow> try_cmd env [''efibootmgr'', ''-v''];
                _ \<leftarrow> (case e of Inl _ \<Rightarrow> State_Monad.return ()
                      | Inr out \<Rightarrow> remove_stale_efi_entries env out (efi_label_for i));
                let loader_path = [CHR 0x5C] @ ''EFI'' @ [CHR 0x5C] @ i @ [CHR 0x5C] @ loader in
                must_run (''install: efibootmgr --create (label '' @ go_quote (efi_label_for i) @ '' loader '' @ loader_path @ ''): '') env
                  [''efibootmgr'', ''--create'', ''--disk'', dev, ''--part'', num, ''--label'', efi_label_for i, ''--loader'', loader_path]
                  (State_Monad.return (Inr ())) }) }
    }"

definition copy_tree :: "inst_env \<Rightarrow> path \<Rightarrow> path \<Rightarrow> bool io" where
  "copy_tree env src dst = run_ok env [''cp'', ''-a'', show_path src @ ''/.'', show_path dst @ ''/'']"

definition normalize_esp_layout :: "inst_env \<Rightarrow> string \<Rightarrow> string \<Rightarrow> string list \<Rightarrow> string \<Rightarrow> unit io" where
  "normalize_esp_layout env esp i loaders fallback =
    (let target = path_join (abs_path esp) [''EFI'', i]; source = path_join (abs_path esp) [''efi'', ''EFI'', i];
         std = path_join (abs_path esp) [''EFI'', ''BOOT'']; nested = path_join (abs_path esp) [''efi'', ''EFI'', ''BOOT''];
         has_loader = (\<lambda>dir. do { r \<leftarrow> first_io (\<lambda>l. fs_exists env (path_join dir [l])) loaders; State_Monad.return (r \<noteq> None) }) in
     if esp = [] \<or> i = [] then State_Monad.return ()
     else do {
       a \<leftarrow> has_loader target;
       b \<leftarrow> (if a then State_Monad.return False else has_loader source);
       m \<leftarrow> (if b then do { r \<leftarrow> fs_mkdir_all env target; State_Monad.return (\<not> isl r) } else State_Monad.return False);
       c \<leftarrow> (if m then copy_tree env source target else State_Monad.return False);
       when_io c (do {
         _ \<leftarrow> log_line env ''info'' (''normalized ESP layout: copied efi/EFI/'' @ i @ ''/ '' @ [CHR 0xE2, CHR 0x86, CHR 0x92] @ '' EFI/'' @ i
                @ ''/ (firmware path now resolves)'');
         x \<leftarrow> fs_exists env (path_join nested [fallback]);
         y \<leftarrow> (if x then fs_exists env (path_join std [fallback]) else State_Monad.return True);
         when_io (\<not> y) (do { _ \<leftarrow> attempt (fs_mkdir_all env std); attempt (copy_tree env nested std) }) })
     })"

subsection \<open>The RHEL family\<close>

definition dracut_drivers :: string where
  "dracut_drivers = ''megaraid_sas mpt3sas hpsa aacraid smartpqi nvme vfat fat''"

definition initramfs_of :: "string \<Rightarrow> string" where
  "initramfs_of kver = join_text ''/boot'' [''initramfs-'' @ kver @ ''.img'']"

definition rebuild_initramfs :: "inst_env \<Rightarrow> string \<Rightarrow> string \<Rightarrow> unit io" where
  "rebuild_initramfs env mnt kver =
    do {
      _ \<leftarrow> each_io (\<lambda>d. attempt (has_driver env mnt kver d)) boot_drivers;
      r \<leftarrow> run_cmd env (in_target mnt [''dracut'', ''--no-hostonly'', ''--force'', ''--force-drivers'', dracut_drivers,
             ''--add-drivers'', dracut_drivers, initramfs_of kver, kver]);
      case snd r of
        None \<Rightarrow> log_line env ''info'' (''initramfs regenerated for kernel '' @ kver)
      | Some e \<Rightarrow> do {
          _ \<leftarrow> log_line env ''warn'' (''dracut failed for kernel '' @ kver @ '': '' @ e @ '' (output: '' @ fst r @ '')'');
          q \<leftarrow> run_cmd env (in_target mnt [''mkinitrd'', ''-f'', initramfs_of kver, kver]);
          case snd q of
            Some e2 \<Rightarrow> log_line env ''error'' (''mkinitrd also failed for kernel '' @ kver @ '': '' @ e2 @ '' (output: '' @ fst q @ '')'')
          | None \<Rightarrow> log_line env ''info'' (''initramfs regenerated via mkinitrd for kernel '' @ kver) }
    }"

definition some_kernel_has :: "inst_env \<Rightarrow> string \<Rightarrow> string \<Rightarrow> bool io" where
  "some_kernel_has env mnt drv =
    do {
      r \<leftarrow> fs_op env (os_read_dir (modules_path mnt));
      case r of Inl e \<Rightarrow> State_Monad.return True
      | Inr ks \<Rightarrow> do { k \<leftarrow> first_io (\<lambda>k. has_driver env mnt k drv) ks; State_Monad.return (k \<noteq> None) }
    }"

definition dnf_install :: "string \<Rightarrow> string list \<Rightarrow> string list" where
  "dnf_install mnt pkgs = in_target mnt ([''dnf'', ''install'', ''-y''] @ pkgs)"

definition install_kernel_modules :: "inst_env \<Rightarrow> string \<Rightarrow> bool io" where
  "install_kernel_modules env mnt =
    do {
      ks \<leftarrow> list_kernel_versions env mnt;
      let plain = dnf_install mnt [''kernel-modules'', ''kernel-modules-extra''];
          one = length ks = 1;
          first = (if one then dnf_install mnt [''kernel-modules-'' @ hd ks, ''kernel-modules-extra-'' @ hd ks] else plain) in
      do {
        a \<leftarrow> run_cmd env first;
        r \<leftarrow> (if snd a \<noteq> None \<and> one then run_cmd env plain else State_Monad.return a);
        case snd r of
          Some e \<Rightarrow> do {
            _ \<leftarrow> log_line env ''warn'' (''kernel-modules install failed: '' @ e @ '' (output: '' @ fst r @ '') '' @ em_dash
                   @ '' initramfs may be incomplete'');
            State_Monad.return False }
        | None \<Rightarrow> do { _ \<leftarrow> log_line env ''info'' ''kernel-modules + kernel-modules-extra installed''; State_Monad.return True } }
    }"

definition ensure_kernel_modules_installed :: "inst_env \<Rightarrow> install_spec \<Rightarrow> string \<Rightarrow> string \<Rightarrow> bool io" where
  "ensure_kernel_modules_installed env spec mnt dev =
    do {
      ms \<leftarrow> filter_io (\<lambda>d. do { b \<leftarrow> some_kernel_has env mnt d; State_Monad.return (\<not> b) }) [''megaraid_sas'', ''vfat''];
      if ms = [] then State_Monad.return False
      else do {
        raid \<leftarrow> is_raid_controller_disk env dev;
        if \<not> raid then do {
          _ \<leftarrow> log_line env ''info'' (''skipped kernel-modules install: '' @ dev @ '' is not behind a RAID controller (missing drivers [''
                 @ join_with '' '' ms @ ''] not needed)'');
          State_Monad.return False }
        else do {
          _ \<leftarrow> log_line env ''info'' (''installing kernel-modules package (missing drivers: '' @ join_with '', '' ms @ '')'');
          _ \<leftarrow> write_resolv_conf env spec mnt;
          install_kernel_modules env mnt }
      }
    }"

definition regenerate_initramfs_rhel :: "inst_env \<Rightarrow> install_spec \<Rightarrow> string \<Rightarrow> string \<Rightarrow> bool io" where
  "regenerate_initramfs_rhel env spec mnt dev =
    do {
      b \<leftarrow> ensure_kernel_modules_installed env spec mnt dev;
      if \<not> b then do {
        _ \<leftarrow> log_line env ''info'' (''initramfs rebuild skipped '' @ em_dash @ '' image already has required drivers'');
        State_Monad.return False }
      else do {
        ks \<leftarrow> list_kernel_versions env mnt;
        _ \<leftarrow> each_io (rebuild_initramfs env mnt) ks;
        State_Monad.return (ks \<noteq> []) }
    }"

definition set_default_boot_kernel :: "inst_env \<Rightarrow> string \<Rightarrow> unit io" where
  "set_default_boot_kernel env mnt =
    do {
      ks \<leftarrow> list_kernel_versions env mnt;
      cs \<leftarrow> collect_io (driver_score env mnt boot_drivers) ks;
      let (best, score) = best_kernel cs in
      if best = [] then State_Monad.return ()
      else do {
        g \<leftarrow> run_ok env (in_target mnt [''grubby'', ''--set-default=/boot/vmlinuz-'' @ best]);
        if g then log_line env ''info'' (''default boot kernel set to '' @ best @ '' '' @ score_text score)
        else do {
          w \<leftarrow> write_saved_entry env (target_path mnt [''boot'', ''grub2'', ''grubenv'']) (target_path mnt [''boot'', ''grub'', ''grubenv'']) best;
          when_io w (log_line env ''info'' (''default boot kernel set via grubenv to '' @ best @ '' '' @ score_text score)) }
      }
    }"

subsection \<open>Edits of files of the target\<close>

definition local_console :: "string \<Rightarrow> string \<Rightarrow> string" where
  "local_console dev s =
    replace_all (''console='' @ dev) ''console=tty0''
      (replace_all (''console='' @ dev @ '',115200n8'') ''console=tty0 nomodeset'' s)"

definition cmdline_key :: string where
  "cmdline_key = ''GRUB_CMDLINE_LINUX_DEFAULT=''"

definition is_cmdline :: "string \<Rightarrow> bool" where
  "is_cmdline l \<longleftrightarrow> starts_with cmdline_key (trim_space l)"

definition fix_cmdline :: "string list \<Rightarrow> string \<Rightarrow> string" where
  "fix_cmdline serial l =
    (let v = fold local_console serial (trim_chars {CHR 0x22, CHR 0x27} (drop (length cmdline_key) (trim_space l)));
         v2 = (if contains_sub ''nomodeset'' v then v else ''nomodeset '' @ v) in
     cmdline_key @ [CHR 0x22] @ v2 @ [CHR 0x22])"

fun replace_once :: "string \<Rightarrow> string \<Rightarrow> string \<Rightarrow> string" where
  "replace_once old new [] = (if old = [] then new else [])"
| "replace_once old new (c # s) =
    (if starts_with old (c # s) then new @ drop (length old) (c # s) else c # replace_once old new s)"

definition bls_edit :: "string \<Rightarrow> string" where
  "bls_edit text =
    (let t = local_console ''ttyS0'' text in
     fold (\<lambda>l u. if starts_with ''options '' l \<and> \<not> contains_sub ''nomodeset'' l
                 then replace_once l (''nomodeset '' @ l) u else u) (lines_of t) t)"

definition fix_bls_entries_cmdline :: "inst_env \<Rightarrow> string \<Rightarrow> unit io" where
  "fix_bls_entries_cmdline env mnt =
    do {
      b \<leftarrow> fs_exists env (target_path mnt [''boot'', ''loader'', ''entries'']);
      if \<not> b then State_Monad.return ()
      else do {
        r \<leftarrow> try_cmd env [''find'', join_text mnt [''boot'', ''loader'', ''entries''], ''-maxdepth'', ''1'', ''-name'', ''*.conf'', ''-type'', ''f''];
        case r of Inl e \<Rightarrow> State_Monad.return ()
        | Inr out \<Rightarrow> each_io (\<lambda>p. do {
            d \<leftarrow> fs_read env (abs_path p);
            case d of Inl e \<Rightarrow> State_Monad.return () | Inr t \<Rightarrow> attempt (fs_write env (abs_path p) (bls_edit t) mode_644) })
          (fields_of out) }
    }"

definition fix_rhel_grub_cmdline :: "inst_env \<Rightarrow> string \<Rightarrow> string list \<Rightarrow> unit io" where
  "fix_rhel_grub_cmdline env mnt serial =
    (let p = target_path mnt [''etc'', ''default'', ''grub''] in
     do {
       r \<leftarrow> fs_read env p;
       case r of Inl e \<Rightarrow> State_Monad.return ()
       | Inr d \<Rightarrow>
         (if \<not> list_ex is_cmdline (lines_of d) then State_Monad.return ()
          else do {
            w \<leftarrow> fs_write env p (join_with [nl] (map (\<lambda>l. if is_cmdline l then fix_cmdline serial l else l) (lines_of d))) mode_644;
            if isl w then State_Monad.return ()
            else do {
              g \<leftarrow> run_ok env (in_target mnt [''grubby'', ''--update-kernel=ALL'', ''--args=console=tty0 nomodeset'',
                     ''--remove-args=console=ttyS0,115200n8'']);
              if g then log_line env ''info'' ''GRUB cmdline updated: console=tty0 nomodeset''
              else fix_bls_entries_cmdline env mnt } })
     })"

definition selinux_on :: "string \<Rightarrow> bool" where
  "selinux_on l \<longleftrightarrow> starts_with ''SELINUX='' (trim_space l)
    \<and> trim_space (drop (length ''SELINUX='') (trim_space l)) \<in> {''enforcing'', ''permissive''}"

definition disable_selinux_if_enforcing :: "inst_env \<Rightarrow> string \<Rightarrow> unit io" where
  "disable_selinux_if_enforcing env mnt =
    (let p = target_path mnt [''etc'', ''selinux'', ''config''] in
     do {
       r \<leftarrow> fs_read env p;
       case r of Inl e \<Rightarrow> State_Monad.return ()
       | Inr d \<Rightarrow> when_io (list_ex selinux_on (lines_of d))
           (attempt (fs_write env p (join_with [nl] (map (\<lambda>l. if selinux_on l then ''SELINUX=disabled'' else l) (lines_of d))) mode_644))
     })"

definition unit_path :: "string \<Rightarrow> string list \<Rightarrow> path" where
  "unit_path mnt es = target_path mnt ([''etc'', ''systemd'', ''system''] @ es)"

text \<open>A unit without a file of its own is masked and taken out of the directories of its wants.\<close>

definition mask_unit :: "inst_env \<Rightarrow> string \<Rightarrow> unit io \<Rightarrow> string list \<Rightarrow> string \<Rightarrow> unit io" where
  "mask_unit env mnt prepare wants u =
    do {
      b \<leftarrow> fs_exists env (unit_path mnt [u]);
      if b then State_Monad.return ()
      else do {
        _ \<leftarrow> prepare;
        r \<leftarrow> fs_symlink env ''/dev/null'' (unit_path mnt [u]);
        when_io (\<not> isl r) (each_io (\<lambda>d. attempt (fs_remove env (unit_path mnt [d, u]))) wants) }
    }"

definition mask_boot_latency_hogs :: "inst_env \<Rightarrow> string \<Rightarrow> unit io" where
  "mask_boot_latency_hogs env mnt =
    each_io (\<lambda>u. do {
      _ \<leftarrow> attempt (fs_mkdir_all env (unit_path mnt []));
      mask_unit env mnt (State_Monad.return ()) [''multi-user.target.wants'', ''network-online.target.wants'', ''sysinit.target.wants''] u })
    [''systemd-networkd-wait-online.service'', ''snapd.seeded.service'', ''snapd.service'']"

definition mask_kdump_service :: "inst_env \<Rightarrow> string \<Rightarrow> unit io" where
  "mask_kdump_service env mnt =
    do {
      r \<leftarrow> fs_mkdir_all env (unit_path mnt []);
      if isl r then State_Monad.return ()
      else mask_unit env mnt (attempt (fs_remove env (unit_path mnt [''kdump.service''])))
             [''multi-user.target.wants'', ''sysinit.target.wants''] ''kdump.service''
    }"

subsection \<open>The strategies\<close>

text \<open>\<open>filepath.Rel\<close> of two absolute paths.\<close>

fun rel_comps :: "path \<Rightarrow> path \<Rightarrow> path" where
  "rel_comps [] ts = ts"
| "rel_comps (b # bs) [] = replicate (length (b # bs)) ''..''"
| "rel_comps (b # bs) (t # ts) = (if b = t then rel_comps bs ts else replicate (length (b # bs)) ''..'' @ t # ts)"

definition chroot_efi_dir :: "string \<Rightarrow> string \<Rightarrow> string" where
  "chroot_efi_dir mnt esp =
    (let rel = rel_comps (abs_path mnt) (abs_path esp) in
     if rel = [] then ''/boot/efi'' else ''/'' @ join_with ''/'' rel)"

definition rhel_uefi ::
  "inst_env \<Rightarrow> install_spec \<Rightarrow> string \<Rightarrow> string \<Rightarrow> string \<Rightarrow> string \<Rightarrow> (string, unit) result io"
where
  "rhel_uefi env spec mnt dev esp i =
    (let arch = arch_from_spec spec in
     do {
       r \<leftarrow> register_efi_boot_entry_rhel env mnt dev i (ai_loaders arch);
       s \<leftarrow> (case r of
               Inr _ \<Rightarrow> State_Monad.return (Inr ())
             | Inl e \<Rightarrow> do {
                 g \<leftarrow> run_cmd env (in_target mnt [''grub2-install'', ''--target='' @ ai_efi_type arch,
                        ''--efi-directory='' @ chroot_efi_dir mnt esp, ''--boot-directory=/boot'', ''--bootloader-id='' @ i,
                        ''--recheck'', ''--no-nvram'']);
                 State_Monad.return (case snd g of None \<Rightarrow> Inr ()
                   | Some e2 \<Rightarrow> Inl (''install: EFI boot entry registration failed ('' @ e
                       @ '') and chroot grub2-install also failed: '' @ e2)) });
       case s of Inl e \<Rightarrow> State_Monad.return (Inl e)
       | Inr _ \<Rightarrow> do { _ \<leftarrow> normalize_esp_layout env esp i (ai_loaders arch) (ai_fallback arch); State_Monad.return (Inr ()) }
     })"

definition rhel_bios :: "inst_env \<Rightarrow> install_spec \<Rightarrow> string \<Rightarrow> string \<Rightarrow> (string, unit) result io" where
  "rhel_bios env spec mnt dev =
    (if ai_arm (arch_from_spec spec)
     then State_Monad.return (Inl (''install: BIOS boot not supported on arm64 (image '' @ is_arch spec
            @ ''/this target is MBR/BIOS); use a UEFI arm64 image''))
     else must_run (''install: chroot grub2-install (bios, dev '' @ dev @ ''): '') env
       (in_target mnt [''grub2-install'', ''--target=i386-pc'', ''--boot-directory=/boot'', dev]) (State_Monad.return (Inr ())))"

definition make_grub_config :: "inst_env \<Rightarrow> string \<Rightarrow> unit io" where
  "make_grub_config env mnt =
    do {
      _ \<leftarrow> ensure_dir env (target_path mnt [''boot'', ''grub2'']);
      _ \<leftarrow> ensure_dir env (target_path mnt [''boot'', ''grub'']);
      u \<leftarrow> any_cmd env [in_target mnt [''grub2-mkconfig'', ''-o'', ''/boot/grub2/grub.cfg''],
             in_target mnt [''grub2-mkconfig'', ''-o'', ''/boot/grub/grub.cfg''],
             in_target mnt [''grub-mkconfig'', ''-o'', ''/boot/grub/grub.cfg''],
             in_target mnt [''grub-mkconfig'', ''-o'', ''/boot/grub2/grub.cfg'']];
      when_io (\<not> u) (run_quiet env [''grub-mkconfig'', ''-o'', join_text mnt [''boot'', ''grub'', ''grub.cfg'']])
    }"

definition install_grub_chroot_rhel ::
  "inst_env \<Rightarrow> install_spec \<Rightarrow> string \<Rightarrow> string \<Rightarrow> string \<Rightarrow> (string, unit) result io"
where
  "install_grub_chroot_rhel env spec mnt dev esp =
    do {
      i \<leftarrow> detect_rhel_bootloader_id env mnt;
      try_io [] (if esp \<noteq> [] then rhel_uefi env spec mnt dev esp i else rhel_bios env spec mnt dev) (\<lambda>_.
      do {
        _ \<leftarrow> make_grub_config env mnt;
        _ \<leftarrow> bridge_rhel_grub_cfg env mnt;
        b \<leftarrow> regenerate_initramfs_rhel env spec mnt dev;
        _ \<leftarrow> disable_selinux_if_enforcing env mnt;
        _ \<leftarrow> when_io b (set_default_boot_kernel env mnt);
        _ \<leftarrow> fix_rhel_grub_cmdline env mnt (ai_serial (arch_from_spec spec));
        _ \<leftarrow> mask_kdump_service env mnt;
        _ \<leftarrow> mask_boot_latency_hogs env mnt;
        _ \<leftarrow> when_io (esp \<noteq> []) (run_quiet env [''efibootmgr'', ''-v'']);
        State_Monad.return (Inr ())
      })
    }"

definition install_grub_dispatch ::
  "inst_env \<Rightarrow> install_spec \<Rightarrow> string \<Rightarrow> string \<Rightarrow> string \<Rightarrow> string \<Rightarrow> (string, unit) result io"
where
  "install_grub_dispatch env spec mnt dev esp bl =
    (if mnt = [] then State_Monad.return (Inl ''install: InstallGRUB: mntRoot is empty'')
     else if bl = ''grub-host-debian'' then install_grub_host_debian env spec mnt dev esp
     else if bl = ''grub-chroot-rhel'' then install_grub_chroot_rhel env spec mnt dev esp
     else if bl = ''grub-host-fallback'' then install_grub_host_fallback env spec mnt dev esp
     else State_Monad.return (Inl (''install: unknown bootloader '' @ go_quote bl)))"

text \<open>\<open>InstallBootloader\<close> of the installer of a family.\<close>

definition os_install_bootloader ::
  "string \<Rightarrow> inst_env \<Rightarrow> install_spec \<Rightarrow> string \<Rightarrow> string \<Rightarrow> string \<Rightarrow> (string, unit) result io"
where
  "os_install_bootloader family env spec mnt dev esp =
    install_grub_dispatch env spec mnt dev esp (resolve_bootloader_for spec family)"

end
