(* ===== verification/Inst_Run.thy ===== *)
theory Inst_Run
  imports Inst_Grub
begin

text \<open>
  The installation, \<open>installer.go\<close>, with the probe of the boot mode (\<open>bootmode.go\<close>), the monitor copied
  into the target (\<open>implant.go\<close>) and the listing of the disks (\<open>realdeps.go\<close>). \<open>run_install\<close> is \<open>Run\<close>: the
  stages in order, the cleanup on the way out and the report of the outcome. Resolving the URL of the
  image and opening its stream are parameters of it, and so is the answer of the disk listing, which is
  the same at each call of one run. A panic and the closing of the stream are left out.
\<close>

subsection \<open>Boot mode\<close>

definition detect_boot_mode :: "inst_env \<Rightarrow> (string, string) result io" where
  "detect_boot_mode env =
    (let p = abs_path ''/sys/firmware/efi/efivars'' in
     do {
       b \<leftarrow> fs_exists env p;
       if \<not> b then State_Monad.return (Inr ''bios'')
       else try_io (''install: stat '' @ show_path p @ '': '') (fs_stat env p) (\<lambda>n.
              State_Monad.return (Inr (if n = DirNode then ''uefi'' else ''bios'')))
     })"

definition require_uefi :: "inst_env \<Rightarrow> (string, unit) result io" where
  "require_uefi env =
    try_io [] (detect_boot_mode env) (\<lambda>mode.
      State_Monad.return (if mode \<noteq> ''uefi'' then Inl (''install: boot mode '' @ go_quote mode @ '': metalkit M2.3 requires UEFI'')
                          else Inr ()))"

subsection \<open>The monitor\<close>

definition monitor_bin :: string where
  "monitor_bin = ''/usr/local/bin/metalkit-monitor''"

definition monitor_unit_file :: string where
  "monitor_unit_file = ''/etc/systemd/system/metalkit-monitor.service''"

definition monitor_unit :: string where
  "monitor_unit = unlines
    [''[Unit]'', ''Description=metalkit monitoring agent'', ''After=network-online.target'', ''Wants=network-online.target'', [],
     ''[Service]'', ''Type=simple'', ''ExecStart='' @ monitor_bin,
     ''# The monitor owns its retry policy (collect never fails; POSTs back off to'',
     ''# the next tick). Restart covers the exit-early cases (no URL, no UUID).'',
     ''Restart=on-failure'', ''RestartSec=30'', ''StandardOutput=journal'', ''StandardError=journal'', [],
     ''[Install]'', ''WantedBy=multi-user.target'']"

definition monitor_conf :: "string \<Rightarrow> string" where
  "monitor_conf url =
    unlines [managed, ''url='' @ rev (dropWhile (\<lambda>c. c = CHR ''/'') (rev url)), ''interval=60'']"

definition enable_monitor :: "inst_env \<Rightarrow> string \<Rightarrow> (string, unit) result io" where
  "enable_monitor env mnt =
    (let wants = target_path mnt [''/etc/systemd/system/multi-user.target.wants''];
         link = path_join wants [''metalkit-monitor.service''] in
     try_io (''install: implant: mkdir '' @ show_path wants @ '': '') (fs_mkdir_all env wants) (\<lambda>_.
     do {
       b \<leftarrow> fs_exists env link;
       _ \<leftarrow> when_io b (attempt (fs_remove env link));
       try_io (''install: implant: symlink '' @ show_path link @ '': '') (fs_symlink env monitor_unit_file link) (\<lambda>_.
         State_Monad.return (Inr ()))
     }))"

definition implant_monitor :: "inst_env \<Rightarrow> string \<Rightarrow> string \<Rightarrow> (string, unit) result io" where
  "implant_monitor env mnt url =
    (let dst = target_path mnt [monitor_bin]; conf = target_path mnt [''/etc/metalkit''] in
     if mnt = [] then State_Monad.return (Inl ''install: implantMonitor: mntRoot is empty'')
     else if url = [] then State_Monad.return (Inl ''install: implantMonitor: controller URL is empty (agent BaseURL missing?)'')
     else do {
       r \<leftarrow> fs_read env (abs_path monitor_bin);
       case r of
         Inl e \<Rightarrow> State_Monad.return (Inl (''install: implant: read '' @ monitor_bin @ '': '' @ e
                    @ '' (live image built without '' @ [CHR 0x27] @ ''make monitor'' @ [CHR 0x27] @ ''?)''))
       | Inr bin \<Rightarrow>
         try_io (''install: implant: mkdir '' @ show_path (butlast dst) @ '': '') (fs_mkdir_all env (butlast dst)) (\<lambda>_.
         try_io (''install: implant: write '' @ show_path dst @ '': '') (fs_write env dst bin 493) (\<lambda>_.
         try_io (''install: implant: mkdir '' @ show_path conf @ '': '') (fs_mkdir_all env conf) (\<lambda>_.
         try_io ''install: implant: write /etc/metalkit/monitor.conf: ''
           (fs_write env (target_path mnt [''/etc/metalkit/monitor.conf'']) (monitor_conf url) mode_644) (\<lambda>_.
         try_io ''install: implant: mkdir systemd dir: '' (fs_mkdir_all env (target_path mnt [''etc/systemd/system''])) (\<lambda>_.
         try_io (''install: implant: write '' @ monitor_unit_file @ '': '')
           (fs_write env (target_path mnt [monitor_unit_file]) monitor_unit mode_644) (\<lambda>_.
         enable_monitor env mnt))))))
     })"

subsection \<open>Listing the disks\<close>

text \<open>
  \<open>flexBool\<close>: the text of a JSON value. A number is read by \<open>strconv.Atoi\<close>, as the decoder of the library
  reads it into an \<open>int\<close>.
\<close>

definition flex_bool :: "string \<Rightarrow> (string, bool) result" where
  "flex_bool data =
    (let s = trim_space data; q = (\<lambda>t. [CHR 0x22] @ t @ [CHR 0x22]) in
     if s \<in> {''true'', q ''true'', ''1'', q ''1''} then Inr True
     else if s \<in> {''false'', q ''false'', ''0'', q ''0'', ''null''} then Inr False
     else case atoi (trim_chars {CHR 0x22} s) of
       Some n \<Rightarrow> Inr (n \<noteq> 0)
     | None \<Rightarrow> Inl (''install: cannot parse '' @ go_quote s @ '' as bool''))"

text \<open>A device of the output of \<open>lsblk -J\<close>; the decoder of JSON is a parameter of the listing.\<close>

record lsblk_disk =
  ld_name :: string
  ld_path :: string
  ld_size :: int
  ld_rm :: bool
  ld_ro :: bool
  ld_tran :: string
  ld_model :: string
  ld_wwn :: string

definition by_path_link :: "string \<Rightarrow> string" where
  "by_path_link out =
    (let links = concat (map (\<lambda>l. if starts_with ''DEVLINKS='' l then fields_of (drop 9 l) else []) (lines_of out)) in
     case find (starts_with ''/dev/disk/by-path/'') links of Some l \<Rightarrow> l | None \<Rightarrow> [])"

definition by_path_for :: "inst_env \<Rightarrow> string \<Rightarrow> string io" where
  "by_path_for env dev =
    do { r \<leftarrow> try_cmd env [''udevadm'', ''info'', ''-q'', ''property'', ''-n'', dev];
         State_Monad.return (case r of Inl e \<Rightarrow> [] | Inr out \<Rightarrow> by_path_link out) }"

definition disk_of_row :: "inst_env \<Rightarrow> lsblk_disk \<Rightarrow> disk list io" where
  "disk_of_row env d =
    (let p = or_else (ld_path d) (''/dev/'' @ ld_name d) in
     do { b \<leftarrow> by_path_for env p;
          State_Monad.return
            [\<lparr>dk_name = ld_name d, dk_path = p, dk_size = ld_size d, dk_removable = ld_rm d, dk_readonly = ld_ro d,
              dk_transport = ld_tran d, dk_model = trim_space (ld_model d), dk_wwn = trim_space (ld_wwn d), dk_by_path = b\<rparr>] })"

definition list_disks ::
  "inst_env \<Rightarrow> (string \<Rightarrow> (string, lsblk_disk list) result) \<Rightarrow> (string, disk list) result io"
where
  "list_disks env decode =
    try_io ''install: lsblk: '' (try_cmd env [''lsblk'', ''-J'', ''-d'', ''-bo'', ''NAME,PATH,SIZE,RM,RO,TRAN,MODEL,WWN'']) (\<lambda>out.
    try_io ''install: parse lsblk output: '' (State_Monad.return (decode out)) (\<lambda>rows. do {
      ds \<leftarrow> collect_io (disk_of_row env) rows;
      State_Monad.return (Inr ds) }))"

subsection \<open>The pipeline\<close>

record install_deps =
  id_env :: inst_env
  id_nics :: "nic_info list"
  id_base_url :: string
  id_work_dir :: string
  id_disks :: "(string, disk list) result"
  id_resolve :: "string \<Rightarrow> string \<Rightarrow> (string, string) result"
  id_stream :: "string \<Rightarrow> string \<Rightarrow> (string, image_stream) result"

definition stage_names :: "string list" where
  "stage_names = [''boot-detect'', ''disk-pick'', ''download'', ''write'', ''grow'', ''mount'', ''seed'', ''agent-implant'',
    ''grub-install'', ''umount'']"

definition call_result :: "string option \<Rightarrow> (string, unit) result" where
  "call_result r = (case r of None \<Rightarrow> Inr () | Some e \<Rightarrow> Inl e)"

definition stage :: "inst_env \<Rightarrow> string \<Rightarrow> (string, 'a) result io \<Rightarrow> (string, 'a) result io" where
  "stage env s m =
    try_io (''install: stage '' @ s @ '': '') (do { r \<leftarrow> report env (StageCall s); State_Monad.return (call_result r) }) (\<lambda>_. m)"

definition work_dir :: "install_deps \<Rightarrow> string" where
  "work_dir d = or_else (id_work_dir d) ''/tmp/metalkit-install''"

definition choose_disk :: "install_deps \<Rightarrow> install_spec \<Rightarrow> (string, disk) result io" where
  "choose_disk d spec =
    (let env = id_env d in
     stage env ''disk-pick'' (
       try_io ''install: list disks: '' (State_Monad.return (id_disks d)) (\<lambda>disks.
       try_io [] (State_Monad.return (pick_disk disks (pr_disk (is_profile spec)))) (\<lambda>dk. do {
         _ \<leftarrow> log_line env ''info'' (''selected disk '' @ dk_path dk @ '' ('' @ show_int (dk_size dk) @ '' bytes, '' @ dk_transport dk @ '')'');
         _ \<leftarrow> log_release env (dk_path dk) ''pre-write'';
         _ \<leftarrow> wipe_disk env (dk_path dk);
         State_Monad.return (Inr dk) }))))"

definition open_image :: "install_deps \<Rightarrow> install_spec \<Rightarrow> (string, image_stream) result io" where
  "open_image d spec =
    (let env = id_env d in
     stage env ''download'' (
       try_io [] (State_Monad.return (id_resolve d (id_base_url d) (is_blob_url spec))) (\<lambda>url. do {
         _ \<leftarrow> log_line env ''info'' (''streaming '' @ url);
         try_io ''install: open image stream: '' (State_Monad.return (id_stream d url (is_sha256 spec))) (\<lambda>src.
           State_Monad.return (Inr src)) })))"

definition write_and_grow :: "install_deps \<Rightarrow> string \<Rightarrow> image_stream \<Rightarrow> string \<Rightarrow> (string, grow_result) result io" where
  "write_and_grow d dev src boot =
    (let env = id_env d in
     stage env ''write'' (
       try_io [] (write_image env (work_dir d) src dev) (\<lambda>_.
       try_io [] (create_esp_if_missing env dev [] boot) (\<lambda>_.
       stage env ''grow'' (grow_last_partition env dev)))))"

text \<open>Up to the mounted root: the disk, the grown partition and the boot mode.\<close>

definition prepare_disk :: "install_deps \<Rightarrow> install_spec \<Rightarrow> (string, disk \<times> grow_result \<times> string) result io" where
  "prepare_disk d spec =
    (let env = id_env d in
     stage env ''boot-detect'' (
       try_io [] (detect_boot_mode env) (\<lambda>boot. do {
         _ \<leftarrow> log_line env ''info'' (''boot mode: '' @ boot);
         try_io [] (choose_disk d spec) (\<lambda>dk.
         try_io [] (open_image d spec) (\<lambda>src.
         try_io [] (write_and_grow d (dk_path dk) src boot) (\<lambda>g.
           State_Monad.return (Inr (dk, g, boot))))) })))"

text \<open>On the mounted root.\<close>

definition fill_target ::
  "install_deps \<Rightarrow> install_spec \<Rightarrow> disk \<Rightarrow> grow_result \<Rightarrow> string \<Rightarrow> string \<Rightarrow> string \<Rightarrow> (string, unit) result io"
where
  "fill_target d spec dk g boot root esp =
    (let env = id_env d in
     try_io (''install: xfs_growfs '' @ root @ '': '')
       (if gr_xfs g then try_cmd env [''xfs_growfs'', root] else State_Monad.return (Inr [])) (\<lambda>_.
     stage env ''seed'' (
       try_io ''install: pick os installer: '' (State_Monad.return (pick_os_installer (pr_family (is_profile spec)))) (\<lambda>family.
       try_io [] (os_build_seed family env (id_nics d) spec root) (\<lambda>_.
       stage env ''agent-implant'' (
         try_io [] (if pr_agent (is_profile spec) then implant_monitor env root (id_base_url d) else State_Monad.return (Inr ())) (\<lambda>_.
         stage env ''grub-install'' (
           try_io [] (os_install_bootloader family env spec root (dk_path dk) esp) (\<lambda>_. do {
           _ \<leftarrow> when_io (boot = ''uefi'') (prune_stale_nvram env (dk_path dk));
           stage env ''umount'' (State_Monad.return (Inr ())) })))))))))"

text \<open>
  The body of \<open>Run\<close> with its deferred calls: after an error on the mounted root the mounts are undone,
  and so they are a second time when the cleanup of the last stage fails.
\<close>

definition install_body :: "install_deps \<Rightarrow> install_spec \<Rightarrow> (string, unit) result io" where
  "install_body d spec =
    (let env = id_env d; root = join_text (work_dir d) [''rootfs''] in
     try_io (''install: prepare workdir '' @ work_dir d @ '': '') (fs_mkdir_all env (abs_path (work_dir d))) (\<lambda>_.
     try_io [] (prepare_disk d spec) (\<lambda>(dk, g, boot).
     stage env ''mount'' (
       try_io [] (mount_target env (gr_part g) root) (\<lambda>(esp, mounted). do {
         r \<leftarrow> fill_target d spec dk g boot root esp;
         c \<leftarrow> (case r of Inl e \<Rightarrow> State_Monad.return (Inl e) | Inr _ \<Rightarrow> cleanup env mounted);
         case c of
           Inl e \<Rightarrow> do { _ \<leftarrow> cleanup env mounted; State_Monad.return (Inl e) }
         | Inr _ \<Rightarrow> do { s \<leftarrow> report env SucceedCall; State_Monad.return (call_result s) } })))))"

definition run_install :: "install_deps \<Rightarrow> install_spec \<Rightarrow> (string, unit) result io" where
  "run_install d spec =
    do {
      r \<leftarrow> install_body d spec;
      _ \<leftarrow> (case r of Inl e \<Rightarrow> attempt (report (id_env d) (FailCall e)) | Inr _ \<Rightarrow> State_Monad.return ());
      State_Monad.return r
    }"

end
