(* ===== verification/Seed_Props.thy ===== *)
theory Seed_Props
  imports Seed
begin

text \<open>
  The seed stays inside the target: whatever fails, building it changes nothing outside the mount
  point. The relation \<open>kept_outside\<close> of worlds is carried through the programs by the rules of
  \<open>world_order\<close>. The other properties are about the texts written.
\<close>

subsection \<open>Nothing outside the root changes\<close>

text \<open>
  The places the seed writes to: every file of some directories and a few files by name. The unit is
  also what the link in \<open>getty.target.wants\<close> leads to.
\<close>

definition seed_dirs :: "path list" where
  "seed_dirs =
    [[''var'', ''lib'', ''cloud'', ''seed'', ''nocloud-net''],
     [''etc'', ''cloud'', ''cloud.cfg.d''],
     [''etc'', ''netplan''],
     [''etc'', ''NetworkManager'', ''system-connections''],
     [''etc'', ''sysconfig'', ''network-scripts''],
     [''etc'', ''sysconfig'', ''network''],
     [''etc'', ''network''],
     [''etc'', ''ssh'', ''sshd_config.d''],
     [''root'', ''.ssh'']]"

definition seed_files :: "path list" where
  "seed_files =
    [[''etc'', ''hostname''], [''etc'', ''shadow''], [''.autorelabel''],
     [''etc'', ''systemd'', ''system'', ''metalkit-vt-init.service'']]"

definition seed_place :: "path \<Rightarrow> path \<Rightarrow> bool" where
  "seed_place root p \<longleftrightarrow>
    under root p \<and> (let es = drop (length root) p in es \<in> set seed_files \<or> es \<noteq> [] \<and> butlast es \<in> set seed_dirs)"

text \<open>
  The mount point and the directories above it exist, and a link at a place the seed writes to does not
  lead out of the mount point. The other links of an image, such as \<open>/etc/localtime\<close>, may lead anywhere.
\<close>

definition places_lead_inside :: "path \<Rightarrow> tree \<Rightarrow> bool" where
  "places_lead_inside root t \<longleftrightarrow> (\<forall>p q. seed_place root p \<longrightarrow> resolve t p = Some q \<longrightarrow> under root q)"

definition mounted_at :: "path \<Rightarrow> tree \<Rightarrow> bool" where
  "mounted_at root t \<longleftrightarrow> places_lead_inside root t \<and> (\<forall>q \<in> set (prefixes_of root). is_dir t q)"

definition same_outside :: "path \<Rightarrow> tree \<Rightarrow> tree \<Rightarrow> bool" where
  "same_outside root t u \<longleftrightarrow> (\<forall>p. \<not> under root p \<longrightarrow> node_at u p = node_at t p)"

definition kept_outside :: "path \<Rightarrow> iworld \<Rightarrow> iworld \<Rightarrow> bool" where
  "kept_outside root w w' \<longleftrightarrow>
    (mounted_at root (iw_tree w) \<longrightarrow>
      mounted_at root (iw_tree w') \<and> same_outside root (iw_tree w) (iw_tree w'))"

interpretation outside: world_order "kept_outside root" for root
  by unfold_locales (auto simp: kept_outside_def same_outside_def)

lemma set_prefixes_of: "q \<in> set (prefixes_of p) \<longleftrightarrow> q \<noteq> [] \<and> (\<exists>r. p = q @ r)"
proof
  assume "q \<in> set (prefixes_of p)"
  then show "q \<noteq> [] \<and> (\<exists>r. p = q @ r)"
    by (auto simp: prefixes_of_def) (metis append_take_drop_id)
next
  assume "q \<noteq> [] \<and> (\<exists>r. p = q @ r)"
  then obtain r where "q \<noteq> []" "p = q @ r" by blast
  then have "q = take (length q) p" "1 \<le> length q" "length q < Suc (length p)"
    by (cases q, auto)+
  then show "q \<in> set (prefixes_of p)"
    unfolding prefixes_of_def set_map set_upt by (intro image_eqI [of _ _ "length q"]) auto
qed

lemma under_butlast:
  assumes "under root p" "p \<noteq> root"
  shows "under root (butlast p)"
proof -
  obtain q where "p = root @ q" using assms(1) by (rule underE)
  then show ?thesis using assms(2) by (simp add: butlast_append)
qed

text \<open>Where links lead, in a changed tree.\<close>

lemma follow_link: "node_at t p = Some (LinkNode tgt) \<Longrightarrow> follow (Suc k) t p = follow k t (link_path p tgt)"
  by simp

lemma follow_no_link: "\<forall>tgt. node_at t p \<noteq> Some (LinkNode tgt) \<Longrightarrow> follow (Suc k) t p = Some p"
  by (auto split: option.split node.split)

lemma follow_step:
  "follow (Suc k) t p = Some q \<longleftrightarrow>
    (\<exists>tgt. node_at t p = Some (LinkNode tgt) \<and> follow k t (link_path p tgt) = Some q)
    \<or> (\<forall>tgt. node_at t p \<noteq> Some (LinkNode tgt)) \<and> q = p"
  by (cases "\<exists>tgt. node_at t p = Some (LinkNode tgt)") (auto simp: follow_no_link follow_link simp del: follow.simps)

lemma follow_mono: "follow j t p = Some q \<Longrightarrow> j \<le> k \<Longrightarrow> follow k t p = Some q"
proof (induction j arbitrary: k p)
  case (Suc j)
  then obtain i where i: "k = Suc i" "j \<le> i" by (cases k) auto
  show ?case using Suc.prems(1) Suc.IH [OF _ i(2)] unfolding i(1) follow_step by blast
qed simp

lemma follow_end: "follow k t p = Some q \<Longrightarrow> node_at t q \<noteq> Some (LinkNode tgt)"
proof (induction k arbitrary: p)
  case (Suc k)
  then show ?case unfolding follow_step by blast
qed simp

lemma follow_same_links:
  assumes "\<And>p tgt. node_at u p = Some (LinkNode tgt) \<longleftrightarrow> node_at t p = Some (LinkNode tgt)"
  shows "follow k u p = follow k t p"
proof (induction k arbitrary: p)
  case (Suc k)
  show ?case
  proof (cases "\<exists>tgt. node_at t p = Some (LinkNode tgt)")
    case True
    then obtain tgt where "node_at t p = Some (LinkNode tgt)" "node_at u p = Some (LinkNode tgt)"
      using assms by blast
    then show ?thesis using Suc.IH by simp
  next
    case False
    then show ?thesis using assms [of p] by (auto split: option.splits node.splits)
  qed
qed simp

lemma follow_drop:
  assumes "p \<noteq> []"
  shows "follow k (drop_node p t) x = Some q \<Longrightarrow> q = p \<or> follow k t x = Some q"
proof (induction k arbitrary: x)
  case (Suc k)
  show ?case
  proof (cases "x = p")
    case True
    then show ?thesis using Suc.prems assms unfolding follow_step by (simp add: node_at_drop)
  next
    case False
    then have "node_at (drop_node p t) x = node_at t x" using assms by (simp add: node_at_drop)
    then show ?thesis using Suc.prems Suc.IH unfolding follow_step by metis
  qed
qed simp

definition leads_inside :: "path \<Rightarrow> tree \<Rightarrow> nat \<Rightarrow> path \<Rightarrow> bool" where
  "leads_inside root t k x \<longleftrightarrow> (\<forall>q. follow k t x = Some q \<longrightarrow> under root q)"

lemma leads_inside_le: "leads_inside root t k x \<Longrightarrow> j \<le> k \<Longrightarrow> leads_inside root t j x"
  unfolding leads_inside_def by (blast dest: follow_mono)

lemma leads_inside_link:
  "leads_inside root t (Suc k) x \<Longrightarrow> node_at t x = Some (LinkNode tgt) \<Longrightarrow> leads_inside root t k (link_path x tgt)"
  by (simp add: leads_inside_def)

lemma follow_new_link:
  assumes "p \<noteq> []" "leads_inside root t n (link_path p tgt)"
  shows "k \<le> n \<Longrightarrow> leads_inside root t k x \<Longrightarrow> follow k (set_node p (LinkNode tgt) t) x = Some q \<Longrightarrow> under root q"
proof (induction k arbitrary: x)
  case (Suc k)
  show ?case
  proof (cases "x = p")
    case True
    then have "follow k (set_node p (LinkNode tgt) t) (link_path p tgt) = Some q"
      using Suc.prems(3) assms(1) by (simp add: node_at_set)
    then show ?thesis
      using Suc.IH [of "link_path p tgt"] Suc.prems(1) leads_inside_le [OF assms(2)] by simp
  next
    case False
    show ?thesis
    proof (cases "\<exists>d. node_at t x = Some (LinkNode d)")
      case True
      then obtain d where d: "node_at t x = Some (LinkNode d)" by blast
      then have "follow k (set_node p (LinkNode tgt) t) (link_path x d) = Some q"
        using Suc.prems(3) assms(1) False by (simp add: node_at_set)
      then show ?thesis
        using Suc.IH [of "link_path x d"] Suc.prems(1) leads_inside_link [OF Suc.prems(2) d] by simp
    next
      case nolink: False
      then have "follow (Suc k) t x = Some q"
        using Suc.prems(3) assms(1) False by (auto simp: node_at_set split: option.splits node.splits)
      then show ?thesis using Suc.prems(2) by (simp add: leads_inside_def)
    qed
  qed
qed simp

lemma places_lead_inside_iff: "places_lead_inside root t \<longleftrightarrow> (\<forall>p. seed_place root p \<longrightarrow> leads_inside root t 41 p)"
  by (auto simp: places_lead_inside_def leads_inside_def resolve_def)

lemma seed_place_under: "seed_place root p \<Longrightarrow> under root p"
  by (simp add: seed_place_def)

text \<open>Changing one node below the root.\<close>

lemma set_node_same:
  assumes m: "mounted_at root t" and u: "under root p" and fresh: "\<not> is_dir t p"
  shows "same_outside root t (set_node p n t)" "\<forall>q \<in> set (prefixes_of root). is_dir (set_node p n t) q"
proof -
  have ne: "p \<noteq> []" using fresh by (auto simp: is_dir_def node_at_def)
  show "same_outside root t (set_node p n t)"
    using u by (auto simp: same_outside_def node_at_set [OF ne])
  show "\<forall>q \<in> set (prefixes_of root). is_dir (set_node p n t) q"
    using m fresh by (auto simp: mounted_at_def is_dir_def node_at_set [OF ne])
qed

lemma set_node_mounted:
  assumes m: "mounted_at root t" and u: "under root p" and fresh: "\<not> is_dir t p"
    and "\<And>tgt. n \<noteq> LinkNode tgt" "\<And>tgt. node_at t p \<noteq> Some (LinkNode tgt)"
  shows "mounted_at root (set_node p n t) \<and> same_outside root t (set_node p n t)"
proof -
  have ne: "p \<noteq> []" using fresh by (auto simp: is_dir_def node_at_def)
  have "follow k (set_node p n t) x = follow k t x" for k x
    by (rule follow_same_links) (use assms(4,5) in \<open>auto simp: node_at_set [OF ne]\<close>)
  then show ?thesis
    using m set_node_same [OF m u fresh] by (simp add: mounted_at_def places_lead_inside_def resolve_def)
qed

lemma set_link_mounted:
  assumes m: "mounted_at root t" and u: "under root p" and fresh: "\<not> is_dir t p"
    and link: "seed_place root (link_path p tgt)"
  shows "mounted_at root (set_node p (LinkNode tgt) t) \<and> same_outside root t (set_node p (LinkNode tgt) t)"
proof -
  have ne: "p \<noteq> []" using fresh by (auto simp: is_dir_def node_at_def)
  have old: "leads_inside root t 41 x" if "seed_place root x" for x
    using m that by (simp add: mounted_at_def places_lead_inside_iff)
  have "leads_inside root (set_node p (LinkNode tgt) t) 41 x" if "seed_place root x" for x
    using follow_new_link [OF ne old [OF link] order_refl old [OF that]] by (simp add: leads_inside_def)
  then show ?thesis
    using set_node_same [OF m u fresh] by (simp add: mounted_at_def places_lead_inside_iff)
qed

lemma mkdir_mounted:
  assumes "mounted_at root t" "under root p" "\<And>q. q \<in> set qs \<Longrightarrow> q \<in> set (prefixes_of p)"
  shows "mounted_at root (fold (\<lambda>q u. if node_at u q = None then set_node q DirNode u else u) qs t)
    \<and> same_outside root t (fold (\<lambda>q u. if node_at u q = None then set_node q DirNode u else u) qs t)"
  using assms
proof (induction qs arbitrary: t)
  case (Cons q qs)
  let ?u = "if node_at t q = None then set_node q DirNode t else t"
  have "mounted_at root ?u \<and> same_outside root t ?u"
  proof (cases "node_at t q = None")
    case True
    have "q \<noteq> []" "\<exists>r. p = q @ r" using Cons.prems(3) by (auto simp: set_prefixes_of)
    moreover have "q \<notin> set (prefixes_of root)"
      using True Cons.prems(1) by (auto simp: mounted_at_def is_dir_def)
    moreover obtain s where "p = root @ s" using Cons.prems(2) by (rule underE)
    ultimately have "under root q"
      by (auto simp: set_prefixes_of append_eq_append_conv2)
    then show ?thesis
      using True set_node_mounted [of root t q DirNode] Cons.prems(1) by (simp add: is_dir_def)
  next
    case False
    then show ?thesis using Cons.prems(1) by (simp only: if_False) (simp add: same_outside_def)
  qed
  then show ?case
    using Cons.IH [of ?u] Cons.prems by (auto simp: same_outside_def)
qed (simp add: same_outside_def)

lemma drop_node_mounted:
  assumes m: "mounted_at root t" and u: "under root p" "p \<noteq> root" "p \<noteq> []"
  shows "mounted_at root (drop_node p t)" "same_outside root t (drop_node p t)"
proof -
  obtain s where s: "p = root @ s" using u(1) by (rule underE)
  show "same_outside root t (drop_node p t)"
    using u by (auto simp: same_outside_def node_at_drop)
  have "q \<noteq> p" if "q \<in> set (prefixes_of root)" for q
    using that s u(2) by (auto simp: set_prefixes_of)
  moreover have "places_lead_inside root (drop_node p t)"
    unfolding places_lead_inside_def resolve_def
  proof (intro allI impI)
    fix x q
    assume "seed_place root x" "follow 41 (drop_node p t) x = Some q"
    then show "under root q"
      using m u(1) follow_drop [OF u(3)] unfolding mounted_at_def places_lead_inside_def resolve_def by metis
  qed
  ultimately show "mounted_at root (drop_node p t)"
    using m u(3) by (auto simp: mounted_at_def is_dir_def node_at_drop)
qed

subsection \<open>Operations\<close>

lemma fs_op_outside:
  assumes "\<And>t x u. mounted_at root t \<Longrightarrow> f t = Inr (x, u) \<Longrightarrow> mounted_at root u \<and> same_outside root t u"
  shows "state_io_rel (kept_outside root) (fs_op env f)"
  using assms
  by (auto simp: state_io_rel_def fs_op_def kept_outside_def Let_def same_outside_def split: option.splits sum.splits prod.splits)

lemma write_outside: "seed_place root p \<Longrightarrow> state_io_rel (kept_outside root) (fs_write env p d mode)"
  unfolding fs_write_def
proof (rule fs_op_outside)
  fix t x u
  assume u: "seed_place root p" and m: "mounted_at root t" and w: "os_write p d mode t = Inr (x, u)"
  obtain q n where q: "resolve t p = Some q" "\<not> is_dir t q" "u = set_node q n t" "\<And>tgt. n \<noteq> LinkNode tgt"
    using w by (auto simp: os_write_def is_dir_def split: option.splits if_splits node.splits)
  have "under root q" using u q(1) m by (auto simp: mounted_at_def places_lead_inside_def)
  moreover have "node_at t q \<noteq> Some (LinkNode tgt)" for tgt
    using q(1) follow_end by (auto simp: resolve_def)
  ultimately show "mounted_at root u \<and> same_outside root t u"
    using set_node_mounted [OF m _ q(2) q(4)] q(3) by simp
qed

lemma mkdir_outside: "under root p \<Longrightarrow> state_io_rel (kept_outside root) (fs_mkdir_all env p)"
  unfolding fs_mkdir_all_def
proof (rule fs_op_outside)
  fix t x u
  assume "under root p" "mounted_at root t" "os_mkdir_all p t = Inr (x, u)"
  then show "mounted_at root u \<and> same_outside root t u"
    using mkdir_mounted [of root t p "prefixes_of p"] by (auto simp: os_mkdir_all_def split: if_splits)
qed

lemma symlink_outside:
  "under root p \<Longrightarrow> seed_place root (link_path p tgt) \<Longrightarrow> state_io_rel (kept_outside root) (fs_symlink env tgt p)"
  unfolding fs_symlink_def
proof (rule fs_op_outside)
  fix t x u
  assume "under root p" "seed_place root (link_path p tgt)" "mounted_at root t" "os_symlink tgt p t = Inr (x, u)"
  then show "mounted_at root u \<and> same_outside root t u"
    using set_link_mounted [of root t p tgt] by (auto simp: os_symlink_def is_dir_def split: if_splits)
qed

lemma remove_outside: "under root p \<Longrightarrow> p \<noteq> root \<Longrightarrow> state_io_rel (kept_outside root) (fs_remove env p)"
  unfolding fs_remove_def
proof (rule fs_op_outside)
  fix t x u
  assume "under root p" "p \<noteq> root" "mounted_at root t" "os_remove p t = Inr (x, u)"
  then show "mounted_at root u \<and> same_outside root t u"
    using drop_node_mounted [of root t p] by (auto simp: os_remove_def split: if_splits)
qed

lemma stat_outside: "state_io_rel (kept_outside root) (fs_stat env p)"
  unfolding fs_stat_def
  by (rule fs_op_outside) (auto simp: stat_node_def same_outside_def split: option.splits)

lemma read_outside: "state_io_rel (kept_outside root) (fs_read env p)"
  unfolding fs_read_def
  by (rule fs_op_outside) (auto simp: os_read_def same_outside_def split: option.splits)

subsection \<open>File names\<close>

text \<open>The names of interfaces that the validators and the kernel let through have no slash.\<close>

definition slash_free :: "string \<Rightarrow> bool" where
  "slash_free s \<longleftrightarrow> CHR ''/'' \<notin> set s"

definition names_safe :: "network_config \<Rightarrow> nic_info list \<Rightarrow> bool" where
  "names_safe nc nics \<longleftrightarrow>
    slash_free (nc_nic_selector nc) \<and> (\<forall>n \<in> set nics. slash_free (ni_name n))
    \<and> (case nc_bond nc of None \<Rightarrow> True | Some bo \<Rightarrow> \<forall>s \<in> set (bo_slaves bo). slash_free s)"

lemma slash_free_simps [simp]:
  "slash_free (a @ b) \<longleftrightarrow> slash_free a \<and> slash_free b" "slash_free (c # s) \<longleftrightarrow> c \<noteq> CHR ''/'' \<and> slash_free s" "slash_free []"
  by (auto simp: slash_free_def)

lemma slash_free_digits [simp]: "slash_free (digits_nat n)" "slash_free (show_int z)" "slash_free (eth_name n)"
proof -
  show d: "slash_free (digits_nat n)" for n
    using digits_plain is_digit_not unfolding slash_free_def by blast
  show "slash_free (show_int z)" by (simp add: show_int_def d)
  show "slash_free (eth_name n)" by (simp add: eth_name_def d)
qed

lemma slash_free_drop: "slash_free s \<Longrightarrow> slash_free (drop n s)"
  by (auto simp: slash_free_def dest: in_set_dropD)

lemma nic_where_name: "nic_where p nics = Some (i, n) \<Longrightarrow> n \<in> set nics"
  by (auto simp: nic_where_def find_Some_iff nth_enumerate_eq)

lemma safe_found:
  assumes "\<forall>n \<in> set nics. slash_free (ni_name n)" "slash_free d"
  shows "slash_free (case nic_where p nics of Some (i, n) \<Rightarrow> ni_name n | None \<Rightarrow> d)"
  using assms nic_where_name by (auto split: option.splits)

lemma safe_dev:
  assumes "names_safe nc nics"
  shows "slash_free (selected_dev (nc_nic_selector nc) nics)" "slash_free (fst (wicked_target (nc_nic_selector nc) nics))"
    "slash_free (fst (resolve_nic_for_nm (nc_nic_selector nc) nics))"
proof -
  note n = assms [unfolded names_safe_def]
  have sel: "slash_free (drop k (nc_nic_selector nc))" for k using n slash_free_drop by blast
  have pick: "pick_physical_nic nics = Some m \<Longrightarrow> slash_free (ni_name m)" for m
    using n pick_physical_some(1) by blast
  have first: "find p nics = Some m \<Longrightarrow> slash_free (ni_name m)" for p m
    using n by (auto simp: find_Some_iff)
  show dev: "slash_free (selected_dev (nc_nic_selector nc) nics)"
    using n sel pick safe_found [of nics "''eth0''"]
    by (auto simp: selected_dev_def Let_def or_else_def split: option.splits)
  show "slash_free (fst (wicked_target (nc_nic_selector nc) nics))"
    using dev pick by (auto simp: wicked_target_def Let_def split: option.splits)
  show "slash_free (fst (resolve_nic_for_nm (nc_nic_selector nc) nics))"
    using n sel first safe_found [of nics "''eth0''"]
    by (auto simp: resolve_nic_for_nm_def Let_def split: option.splits)
qed

lemma safe_slave: "\<forall>n \<in> set nics. slash_free (ni_name n) \<Longrightarrow> slash_free s \<Longrightarrow> slash_free (eni_slave_dev nics s)"
  using safe_found by (auto simp: eni_slave_dev_def)

lemma plain_if: "slash_free s \<Longrightarrow> s \<noteq> [] \<Longrightarrow> hd s \<noteq> CHR ''.'' \<Longrightarrow> plain_name s"
  by (auto simp: plain_name_def slash_free_def)

lemma enumerate_slaves: "(i, s) \<in> set (enumerate k xs) \<Longrightarrow> s \<in> set xs"
  by (auto simp: in_set_enumerate_eq)

lemma sysconfig_names: "names_safe nc nics \<Longrightarrow> (n, ls) \<in> set (sysconfig_files nc b nics) \<Longrightarrow> plain_name n"
  by (auto simp: sysconfig_files_def ifcfg_bond_def ifcfg_slave_def ifcfg_file_def bond_vlan_def Let_def
      intro!: plain_if split: option.splits if_splits)

lemma nm_names: "names_safe nc nics \<Longrightarrow> (n, ls) \<in> set (nm_files nc b nics) \<Longrightarrow> plain_name n"
  using safe_dev(3) [of nc nics]
  by (auto simp: nm_files_def nm_bond_def nm_slave_def nm_vlan_def nm_keyfile_def Let_def
      intro!: plain_if split: option.splits if_splits prod.splits)

lemma wicked_names:
  assumes safe: "names_safe nc nics" and mem: "(n, ls) \<in> set (wicked_files nc b nics)"
  shows "plain_name n"
proof (cases "nc_bond nc")
  case None
  then show ?thesis using mem safe_dev(2) [OF safe]
    by (auto simp: wicked_files_def wicked_ifcfg_def Let_def intro!: plain_if split: prod.splits)
next
  case (Some bo)
  have "slash_free (eni_slave_dev nics s)" if "(i, s) \<in> set (enumerate 0 (bo_slaves bo))" for i s
    using safe Some that by (auto simp: names_safe_def intro!: safe_slave dest: enumerate_slaves)
  then show ?thesis using mem Some
    by (auto simp: wicked_files_def wicked_bond_def wicked_slave_def bond_vlan_def Let_def
        intro!: plain_if split: if_splits)
qed

subsection \<open>The programs\<close>

named_theorems outside_intros \<open>programs that keep everything outside the root\<close>

text \<open>A command run in the target changes nothing outside it.\<close>

definition cmds_confined :: "inst_env \<Rightarrow> string \<Rightarrow> bool" where
  "cmds_confined env mnt \<longleftrightarrow>
    (\<forall>w args. kept_outside (abs_path mnt) w (w\<lparr>iw_tree := snd (snd (ie_exec env w (''chroot'' # mnt # args)))\<rparr>))"

lemma chroot_outside:
  assumes "cmds_confined env mnt"
  shows "state_io_rel (kept_outside (abs_path mnt)) (run_cmd env (''chroot'' # mnt # args))"
proof (rule state_io_relI)
  fix r w w'
  assume "run_state (run_cmd env (''chroot'' # mnt # args)) w = (r, w')"
  then have "iw_tree w' = snd (snd (ie_exec env w (''chroot'' # mnt # args)))"
    by (auto simp: run_cmd_def split: prod.splits)
  then show "kept_outside (abs_path mnt) w w'"
    using assms [unfolded cmds_confined_def, rule_format, of w args] by (simp add: kept_outside_def)
qed

definition plain_names :: "string list \<Rightarrow> bool" where
  "plain_names es \<longleftrightarrow> list_all plain_name es"

lemma under_join: "plain_names es \<Longrightarrow> under root p \<Longrightarrow> under root (path_join p es)"
  by (rule under_path_join) (auto simp: plain_names_def list_all_iff)

text \<open>The files below the directories, and the files by name.\<close>

lemma place_in_dir:
  "plain_names es \<Longrightarrow> es \<in> set seed_dirs \<Longrightarrow> plain_name n \<Longrightarrow> seed_place root (path_join (path_join root es) [n])"
  by (simp add: plain_names_def list_all_iff path_join_plain seed_place_def)

lemma place_file: "plain_names es \<Longrightarrow> es \<in> set seed_files \<Longrightarrow> seed_place root (path_join root es)"
  by (simp add: plain_names_def list_all_iff path_join_plain seed_place_def)

lemma place_unit:
  "seed_place root (path_join (path_join root [''etc'', ''systemd'', ''system'']) [''metalkit-vt-init.service''])"
  by (simp add: path_join_plain plain_name_def seed_place_def seed_files_def)

lemma seed_dirs_simps [simp]: "es \<in> set seed_dirs \<longleftrightarrow> es = [''var'', ''lib'', ''cloud'', ''seed'', ''nocloud-net'']
    \<or> es = [''etc'', ''cloud'', ''cloud.cfg.d''] \<or> es = [''etc'', ''netplan'']
    \<or> es = [''etc'', ''NetworkManager'', ''system-connections''] \<or> es = [''etc'', ''sysconfig'', ''network-scripts'']
    \<or> es = [''etc'', ''sysconfig'', ''network''] \<or> es = [''etc'', ''network'']
    \<or> es = [''etc'', ''ssh'', ''sshd_config.d''] \<or> es = [''root'', ''.ssh'']"
  by (simp add: seed_dirs_def)

lemma seed_files_simps [simp]: "es \<in> set seed_files \<longleftrightarrow> es = [''etc'', ''hostname''] \<or> es = [''etc'', ''shadow'']
    \<or> es = [''.autorelabel''] \<or> es = [''etc'', ''systemd'', ''system'', ''metalkit-vt-init.service'']"
  by (simp add: seed_files_def)

lemma plain_names_simps [simp]: "plain_names []" "plain_names (e # es) \<longleftrightarrow> plain_name e \<and> plain_names es"
  by (simp_all add: plain_names_def)

lemma plain_name_const [simp]: "list_all (\<lambda>c. c \<noteq> CHR ''/'') (c # s) \<Longrightarrow> c \<noteq> CHR ''.'' \<Longrightarrow> plain_name (c # s)"
  by (auto simp: plain_name_def list_all_iff)

declare outside.rel_return [outside_intros] outside.rel_bind [outside_intros] outside.rel_attempt [outside_intros]
  outside.rel_when [outside_intros] outside.rel_try [outside_intros] outside.rel_each [outside_intros]
  outside.rel_ensure [outside_intros] outside.rel_exists [outside_intros]
  stat_outside [outside_intros] read_outside [outside_intros] write_outside [outside_intros]
  mkdir_outside [outside_intros] under_join [outside_intros] under_refl [outside_intros]
  place_in_dir [outside_intros] place_file [outside_intros]

lemma glob_outside: "state_io_rel (kept_outside root) (glob_io dir pre suf)"
  by (auto simp: state_io_rel_def glob_io_def outside.R_refl)

lemma glob_names_under: "p \<in> set (glob_names dir pre suf t) \<Longrightarrow> p \<noteq> [] \<and> butlast p = dir"
  by (auto simp: glob_names_def)

lemma remove_matches_outside:
  assumes "under root dir"
  shows "state_io_rel (kept_outside root) (remove_matches env dir pre suf)"
proof -
  have "p \<noteq> root \<and> under root p" if "p \<noteq> []" "butlast p = dir" for p
  proof -
    obtain s where "dir = root @ s" using assms by (rule underE)
    then have "p = (root @ s) @ [last p]" using that by (metis append_butlast_last_id)
    then show ?thesis by (metis append_assoc append_self_conv list.distinct(1) snoc_eq_iff_butlast under_append)
  qed
  then have "state_io_rel (kept_outside root) (each_io (\<lambda>p. attempt (fs_remove env p)) (glob_names dir pre suf t))" for t
    using glob_names_under by (intro outside_intros remove_outside) blast+
  then show ?thesis
    unfolding remove_matches_def
    by (auto simp: state_io_rel_def glob_io_def)
qed

declare remove_matches_outside [outside_intros]

lemma drop_in_outside: "plain_name name \<Longrightarrow> state_io_rel (kept_outside root) (write_drop_in env root name content)"
  unfolding write_drop_in_def cloud_cfg_dir_def by (intro outside_intros) simp_all

lemma write_dir_outside:
  assumes "plain_names es" "es \<in> set seed_dirs" "\<And>n ls. (n, ls) \<in> set fs \<Longrightarrow> plain_name n"
  shows "state_io_rel (kept_outside root) (write_dir env (path_join root es) mode fs)"
  unfolding write_dir_def write_all_def
proof (intro outside.rel_bind outside.rel_ensure outside.rel_each stat_outside mkdir_outside)
  show "under root (path_join root es)" by (rule under_join [OF assms(1) under_refl])
  fix f
  assume "f \<in> set fs"
  then have "plain_name (fst f)" using assms(3) [of "fst f" "snd f"] by simp
  then show "state_io_rel (kept_outside root)
      (case f of (n, ls) \<Rightarrow> attempt (fs_write env (path_join (path_join root es) [n]) (lines_text ls) mode))"
    using place_in_dir [OF assms(1,2)] by (auto split: prod.split intro!: outside.rel_attempt write_outside)
qed

lemma write_network_outside:
  assumes "names_safe nc nics"
  shows "state_io_rel (kept_outside root) (write_nm_keyfiles env nics nc b root)"
    "state_io_rel (kept_outside root) (write_sysconfig env nics nc b root)"
    "state_io_rel (kept_outside root) (write_wicked_config env nics nc b root)"
    "state_io_rel (kept_outside root) (write_eni_renderer_config env nics nc b root)"
    "state_io_rel (kept_outside root) (write_direct_netplan env nics rhel7 nc b root)"
proof -
  show "state_io_rel (kept_outside root) (write_nm_keyfiles env nics nc b root)"
    unfolding write_nm_keyfiles_def
    by (intro write_dir_outside outside_intros nm_names [OF assms]) simp_all
  show "state_io_rel (kept_outside root) (write_sysconfig env nics nc b root)"
    unfolding write_sysconfig_def
    by (intro write_dir_outside outside_intros sysconfig_names [OF assms]) simp_all
  show "state_io_rel (kept_outside root) (write_wicked_config env nics nc b root)"
    unfolding write_wicked_config_def
    using wicked_names [OF assms] by (intro outside.rel_bind drop_in_outside write_dir_outside) (auto intro: outside_intros)
  show "state_io_rel (kept_outside root) (write_eni_renderer_config env nics nc b root)"
    unfolding write_eni_renderer_config_def
    by (intro outside_intros drop_in_outside write_dir_outside) (auto simp: eni_files_def)
  show "state_io_rel (kept_outside root) (write_direct_netplan env nics rhel7 nc b root)"
    unfolding write_direct_netplan_def Let_def
    by (intro outside_intros) simp_all
qed

lemma clean_stale_outside: "state_io_rel (kept_outside root) (clean_stale_network_config env root)"
  unfolding clean_stale_network_config_def Let_def
  by (intro outside_intros) simp_all

lemma vt_init_outside: "state_io_rel (kept_outside root) (write_vt_init_service env root)"
proof -
  have "seed_place root (link_path (path_join (path_join (path_join root [''etc'', ''systemd'', ''system'']) [''getty.target.wants''])
      [''metalkit-vt-init.service'']) ''../metalkit-vt-init.service'')"
    by (simp add: link_path_def path_join_plain plain_name_def path_join_def butlast_append seed_place_def starts_with_Cons)
  then show ?thesis
    unfolding write_vt_init_service_def Let_def
    by (intro place_unit symlink_outside stat_outside write_outside mkdir_outside under_join under_refl outside.rel_intros)
      simp_all
qed

lemma has_cloud_init_outside: "state_io_rel (kept_outside root) (has_cloud_init env root)"
  unfolding has_cloud_init_def by (intro outside_intros outside.rel_if)

lemma direct_outside:
  assumes "names_safe (pr_network (is_profile spec)) nics"
  shows "state_io_rel (kept_outside root) (direct_files env nics spec root renderer rhel7)"
proof -
  have "state_io_rel (kept_outside root) (write_direct_hostname env root h)" for h
    unfolding write_direct_hostname_def by (intro outside_intros) simp_all
  moreover have "state_io_rel (kept_outside root) (write_direct_password env root h)" for h
    unfolding write_direct_password_def Let_def
    by (intro outside_intros) (auto intro!: outside_intros split: sum.split option.split)
  moreover have "state_io_rel (kept_outside root) (write_direct_sshd_config env root)"
    unfolding write_direct_sshd_config_def Let_def by (intro outside_intros) simp_all
  moreover have "state_io_rel (kept_outside root) (write_direct_network_config env nics spec root renderer rhel7)"
    unfolding write_direct_network_config_def Let_def
    by (intro outside.rel_if write_network_outside outside.rel_return assms)
  ultimately show ?thesis
    unfolding direct_files_def by (intro outside.rel_bind)
qed

lemma keys_outside: "state_io_rel (kept_outside root) (write_authorized_keys env root keys)"
  unfolding write_authorized_keys_def Let_def
  by (intro outside.rel_if outside_intros) (simp_all add: plain_name_def)

lemma relabel_outside:
  assumes "cmds_confined env mnt"
  shows "state_io_rel (kept_outside (abs_path mnt)) (relabel env mnt rh)"
  unfolding relabel_def selinux_will_be_disabled_def append_Cons append_Nil
  by (intro outside.rel_bind outside.rel_if outside.rel_when chroot_outside [OF assms] outside_intros)
    (simp_all add: plain_name_def)

lemma renderer_outside:
  assumes "names_safe (pr_network (is_profile spec)) nics"
  shows "state_io_rel (kept_outside root) (renderer_files env nics spec root renderer)"
  unfolding renderer_files_def Let_def disable_cloud_init_network_def write_nm_renderer_config_def
  by (intro outside.rel_if outside.rel_bind drop_in_outside write_network_outside outside.rel_return assms) simp_all

lemma seed_rest_outside:
  assumes "names_safe (pr_network (is_profile spec)) nics" "cmds_confined env mnt"
  shows "state_io_rel (kept_outside (abs_path mnt)) (seed_rest env nics spec mnt renderer rhel7 rh)"
  unfolding seed_rest_def Let_def cloud_cfg_dir_def
  by (intro outside.rel_try outside.rel_bind keys_outside relabel_outside has_cloud_init_outside direct_outside
      vt_init_outside assms outside_intros) simp_all

lemma build_seed_outside:
  assumes "names_safe (pr_network (is_profile spec)) nics" "cmds_confined env mnt"
  shows "state_io_rel (kept_outside (abs_path mnt)) (build_seed_common env nics spec mnt renderer rhel7 rh)"
  unfolding build_seed_common_def Let_def
  by (intro outside.rel_if outside.rel_try outside.rel_bind clean_stale_outside renderer_outside seed_rest_outside
      assms outside_intros) simp_all


text \<open>An openEuler machine whose target has a link, and a relabelling that fails.\<close>

definition sample_install :: "string \<Rightarrow> install_spec" where
  "sample_install renderer =
    \<lparr>is_job = ''job-1'', is_machine = bd_machine sample_assignment, is_image = [], is_blob_url = [], is_sha256 = [],
     is_format = ''qcow2'', is_arch = ''amd64'', is_profile = scan_profile (sample_profile renderer),
     is_binding = sample_assignment, is_renderer = renderer, is_bootloader = [], is_keys = [''ssh-ed25519 AAAA ops'']\<rparr>"

definition sample_tree :: tree where
  "sample_tree =
    [([''etc''], DirNode), ([''etc'', ''hostname''], FileNode ''live'' 420), ([''mnt''], DirNode),
     ([''mnt'', ''etc''], DirNode), ([''mnt'', ''etc'', ''localtime''], LinkNode ''/usr/share/zoneinfo/UTC'')]"

definition sample_world :: iworld where
  "sample_world = \<lparr>iw_tree = sample_tree, iw_cmds = [], iw_calls = [], iw_ops = 0\<rparr>"

definition sample_seed_env :: inst_env where
  "sample_seed_env =
    \<lparr>ie_exec = (\<lambda>w argv. ([], Some ''exit status 1'', iw_tree w)), ie_fault = (\<lambda>n. None), ie_report = (\<lambda>n. None)\<rparr>"

lemma sample_mounted: "mounted_at (abs_path ''/mnt'') (iw_tree sample_world)"
proof -
  have "places_lead_inside [''mnt''] sample_tree"
    unfolding places_lead_inside_def resolve_def
  proof (intro allI impI)
    fix p q
    assume p: "seed_place [''mnt''] p" and q: "follow 41 sample_tree p = Some q"
    then have "p \<noteq> [''mnt'', ''etc'', ''localtime'']" by (auto simp: seed_place_def)
    then have "\<forall>tgt. node_at sample_tree p \<noteq> Some (LinkNode tgt)"
      by (auto simp: sample_tree_def node_at_def split: if_splits)
    then have "follow (Suc 40) sample_tree p = Some p" by (rule follow_no_link)
    then show "under [''mnt''] q" using p q by (simp add: seed_place_under)
  qed
  moreover have "\<forall>q \<in> set (prefixes_of [''mnt'']). is_dir sample_tree q" by code_simp
  moreover have "abs_path ''/mnt'' = [''mnt'']" by code_simp
  ultimately show ?thesis by (simp add: mounted_at_def sample_world_def)
qed

lemma sample_confined: "cmds_confined sample_seed_env mnt"
  by (simp add: cmds_confined_def sample_seed_env_def kept_outside_def same_outside_def)


text \<open>
  The files are written with the functions of the package \<open>os\<close>, which follow links from the root of the
  running system: with an absolute link at such a place the write leaves the target.
\<close>

lemma absolute_link_leaves_target:
  "node_at (iw_tree (snd (run_state (write_direct_hostname sample_seed_env [''mnt''] ''node-1'')
      (sample_world\<lparr>iw_tree := ([''mnt'', ''etc'', ''hostname''], LinkNode ''/etc/hostname'') # sample_tree\<rparr>))))
      [''etc'', ''hostname'']
    = Some (FileNode (''node-1'' @ [nl]) 420)"
  by code_simp

subsection \<open>What was written reads back\<close>

text \<open>A double-quoted scalar of YAML: the escapes \<open>%q\<close> writes are escapes of YAML too.\<close>

definition hex_value :: "char \<Rightarrow> nat" where
  "hex_value c = (if is_digit c then byte c - 48 else byte c - 87)"

definition escaped :: "char \<Rightarrow> char" where
  "escaped e =
    (if e = CHR ''a'' then CHR 0x07 else if e = CHR ''b'' then CHR 0x08 else if e = CHR ''f'' then CHR 0x0C
     else if e = CHR ''n'' then CHR 0x0A else if e = CHR ''r'' then CHR 0x0D else if e = CHR ''t'' then CHR 0x09
     else if e = CHR ''v'' then CHR 0x0B else e)"

fun unquote_rest :: "string \<Rightarrow> string option" where
  "unquote_rest [] = None"
| "unquote_rest [c] = (if c = CHR 0x22 then Some [] else None)"
| "unquote_rest (c # e # s) =
    (if c = CHR 0x22 then None
     else if c \<noteq> CHR 0x5C then map_option ((#) c) (unquote_rest (e # s))
     else if e \<noteq> CHR ''x'' then map_option ((#) (escaped e)) (unquote_rest s)
     else (case s of h # l # t \<Rightarrow> map_option ((#) (char_of (16 * hex_value h + hex_value l))) (unquote_rest t) | _ \<Rightarrow> None))"

definition unquote :: "string \<Rightarrow> string option" where
  "unquote s = (case s of c # t \<Rightarrow> if c = CHR 0x22 then unquote_rest t else None | [] \<Rightarrow> None)"

lemma hex_value_digit: "d < 16 \<Longrightarrow> hex_value (hex_digit d) = d"
  by (auto simp: hex_value_def hex_digit_def is_digit_def byte_char_of_small)

lemma unquote_byte: "r \<noteq> [] \<Longrightarrow> unquote_rest (quote_byte c @ r) = map_option ((#) c) (unquote_rest r)"
proof (cases "byte c < 32 \<or> byte c = 127")
  case True
  have "hex_value (hex_digit (byte c div 16)) = byte c div 16" "hex_value (hex_digit (byte c mod 16)) = byte c mod 16"
    using True by (auto intro: hex_value_digit)
  then have "char_of (16 * hex_value (hex_digit (byte c div 16)) + hex_value (hex_digit (byte c mod 16))) = c"
    by simp
  then show ?thesis using True by (auto simp: quote_byte_def escaped_def)
next
  case False
  moreover assume "r \<noteq> []"
  then obtain e s where "r = e # s" by (cases r) auto
  ultimately show ?thesis by (auto simp: quote_byte_def escaped_def)
qed

lemma unquote_go_quote: "unquote (go_quote s) = Some s"
proof -
  have "unquote_rest (concat (map quote_byte s) @ [CHR 0x22]) = Some s"
    by (induction s) (simp_all add: unquote_byte)
  then show ?thesis by (simp add: unquote_def go_quote_def)
qed

lemma hex_digit_not_nl:
  assumes "d < 16"
  shows "hex_digit d \<noteq> nl"
proof -
  have "48 \<le> byte (hex_digit d)" using assms by (auto simp: hex_digit_def byte_char_of_small)
  moreover have "byte nl = 10" by simp
  ultimately show ?thesis by auto
qed

lemma quote_one_line: "nl \<notin> set (go_quote s)"
proof -
  have "nl \<notin> set (quote_byte c)" for c
  proof (cases "byte c < 32 \<or> byte c = 127")
    case True
    then have "byte c div 16 < 16" "byte c mod 16 < 16" by auto
    then have "hex_digit (byte c div 16) \<noteq> nl" "hex_digit (byte c mod 16) \<noteq> nl" by (simp_all add: hex_digit_not_nl)
    then show ?thesis by (auto simp: quote_byte_def)
  qed (auto simp: quote_byte_def)
  then show ?thesis by (auto simp: go_quote_def)
qed

lemma split_unlines: "\<forall>l \<in> set ls. nl \<notin> set l \<Longrightarrow> split_on nl (unlines ls) = ls @ [[]]"
  by (induction ls) (auto simp: unlines_def split_on_append)

text \<open>The quoted value after the first line that starts with the key.\<close>

definition yaml_value :: "string \<Rightarrow> string \<Rightarrow> string option" where
  "yaml_value key text =
    (case find (starts_with key) (split_on nl text) of Some l \<Rightarrow> unquote (drop (length key) l) | None \<Rightarrow> None)"

lemma yaml_value_found:
  assumes "\<forall>l \<in> set (pre @ (key @ v) # post). nl \<notin> set l" "\<forall>l \<in> set pre. \<not> starts_with key l"
  shows "yaml_value key (unlines (pre @ (key @ v) # post)) = unquote v"
proof -
  have "find (starts_with key) pre = None" using assms(2) by (simp add: find_None_iff)
  then have "find (starts_with key) (pre @ ((key @ v) # post) @ [[]]) = Some (key @ v)"
    by (induction pre) (auto simp: starts_with_def split: if_splits)
  then show ?thesis
    unfolding yaml_value_def using split_unlines [OF assms(1)] by simp
qed

text \<open>
  C30: The user-data and meta-data of the seed read back: whatever bytes the host name and the password
  hash are made of, a quote, a colon or a line break included, the text has the lines of the template and
  no other, and the quoted scalars are the host name and the hash. So no value can add a key to the
  document.
\<close>

theorem seed_reads_back:
  "split_on nl (render_user_data spec host) = user_data_lines (pr_hash (is_profile spec)) host @ [[]]
   \<and> yaml_value ''hostname: '' (render_user_data spec host) = Some host
   \<and> yaml_value ''      password: '' (render_user_data spec host) = Some (pr_hash (is_profile spec))"
proof (intro conjI)
  let ?h = "pr_hash (is_profile spec)"
  have one: "\<forall>l \<in> set (user_data_lines ?h host). nl \<notin> set l"
    using quote_one_line [of ?h] quote_one_line [of host] by (simp add: user_data_lines_def)
  then show "split_on nl (render_user_data spec host) = user_data_lines ?h host @ [[]]"
    by (simp add: render_user_data_def split_unlines)
  obtain post where p: "user_data_lines ?h host = [''#cloud-config''] @ (''hostname: '' @ go_quote host) # post"
    by (simp add: user_data_lines_def)
  show "yaml_value ''hostname: '' (render_user_data spec host) = Some host"
    unfolding render_user_data_def p
    by (rule trans [OF yaml_value_found unquote_go_quote]) (use one p in \<open>simp_all add: starts_with_Cons\<close>)
  obtain q where q: "user_data_lines ?h host = [''#cloud-config'', ''hostname: '' @ go_quote host, ''disable_root: false'',
      ''ssh_pwauth: true'', ''chpasswd:'', ''  expire: false'', ''  users:'', ''    - name: root'']
      @ (''      password: '' @ go_quote ?h) # q"
    by (simp add: user_data_lines_def)
  show "yaml_value ''      password: '' (render_user_data spec host) = Some ?h"
    unfolding render_user_data_def q
    by (rule trans [OF yaml_value_found unquote_go_quote]) (use one q in \<open>simp_all add: starts_with_Cons\<close>)
qed

end
