(* ===== verification/Inst_Trace.thy ===== *)
theory Inst_Trace
  imports Inst_Run Seed_Props
begin

text \<open>
  What the installer does to disks and mounts, read off the trace of its commands. A relation of worlds
  says that the commands run in between satisfy a predicate; it is carried through every program by
  the rules of \<open>world_order\<close>, for every answer of the commands and every failure.
\<close>

subsection \<open>Rules for the remaining forms of programs\<close>

context world_order
begin

lemma rel_sum:
  "(\<And>e. state_io_rel R (f e)) \<Longrightarrow> (\<And>x. state_io_rel R (g x)) \<Longrightarrow> state_io_rel R (case r of Inl e \<Rightarrow> f e | Inr x \<Rightarrow> g x)"
  by (cases r) auto

lemma rel_option:
  "state_io_rel R f \<Longrightarrow> (\<And>x. state_io_rel R (g x)) \<Longrightarrow> state_io_rel R (case r of None \<Rightarrow> f | Some x \<Rightarrow> g x)"
  by (cases r) auto

lemma rel_prod: "(\<And>x y. state_io_rel R (f x y)) \<Longrightarrow> state_io_rel R (case p of (x, y) \<Rightarrow> f x y)"
  by (cases p) auto

lemma rel_collect: "(\<And>x. x \<in> set xs \<Longrightarrow> state_io_rel R (f x)) \<Longrightarrow> state_io_rel R (collect_io f xs)"
  by (induction xs) (auto intro!: rel_bind rel_return)

lemma rel_filter: "(\<And>x. x \<in> set xs \<Longrightarrow> state_io_rel R (f x)) \<Longrightarrow> state_io_rel R (filter_io f xs)"
  by (induction xs) (auto intro!: rel_bind rel_return)

lemma rel_first: "(\<And>x. x \<in> set xs \<Longrightarrow> state_io_rel R (f x)) \<Longrightarrow> state_io_rel R (first_io f xs)"
  by (induction xs) (auto intro!: rel_bind rel_return)

lemma rel_must: "state_io_rel R (run_cmd env argv) \<Longrightarrow> state_io_rel R m \<Longrightarrow> state_io_rel R (must_run pre env argv m)"
  unfolding must_run_def by (intro rel_try rel_try_cmd)

lemma rel_quiet: "state_io_rel R (run_cmd env argv) \<Longrightarrow> state_io_rel R (run_quiet env argv)"
  unfolding run_quiet_def by (rule rel_attempt)

lemma rel_log: "state_io_rel R (report env (LogCall level msg)) \<Longrightarrow> state_io_rel R (log_line env level msg)"
  unfolding log_line_def by (rule rel_attempt)

lemma rel_run_ok: "state_io_rel R (run_cmd env argv) \<Longrightarrow> state_io_rel R (run_ok env argv)"
  unfolding run_ok_def by (intro rel_bind rel_return)

lemma rel_release: "state_io_rel R (run_cmd env argv) \<Longrightarrow> state_io_rel R (try_release env argv l)"
  unfolding try_release_def by (intro rel_bind rel_return)

lemma rel_try_gives:
  assumes "state_io_rel R m" "\<And>w x. fst (run_state m w) = Inr x \<Longrightarrow> state_io_rel R (k x)"
  shows "state_io_rel R (try_io pre m k)"
proof (rule state_io_relI)
  fix a w w'
  assume run: "run_state (try_io pre m k) w = (a, w')"
  obtain r v where m: "run_state m w = (r, v)" by (cases "run_state m w") auto
  show "R w w'"
  proof (cases r)
    case (Inl e)
    then show ?thesis using run m state_io_relD [OF assms(1) m] by (auto simp: try_io_def)
  next
    case (Inr x)
    then have "run_state (k x) v = (a, w')" using run m by (simp add: try_io_def)
    then have "R v w'" using assms(2) [of w x] m Inr by (auto dest: state_io_relD)
    then show ?thesis using state_io_relD [OF assms(1) m] R_trans by blast
  qed
qed

lemma rel_bind_gives:
  assumes "state_io_rel R m" "\<And>w x. fst (run_state m w) = x \<Longrightarrow> state_io_rel R (k x)"
  shows "state_io_rel R (m \<bind> k)"
proof (rule state_io_relI)
  fix a w w'
  assume run: "run_state (m \<bind> k) w = (a, w')"
  obtain x v where m: "run_state m w = (x, v)" by (cases "run_state m w") auto
  then have "run_state (k x) v = (a, w')" using run by simp
  then have "R v w'" using assms(2) [of w x] m by (auto dest: state_io_relD)
  then show "R w w'" using state_io_relD [OF assms(1) m] R_trans by blast
qed

lemmas rel_rules = rel_return rel_bind rel_attempt rel_when rel_try rel_each rel_if rel_try_cmd rel_exists rel_ensure
  rel_sum rel_option rel_prod rel_collect rel_filter rel_first rel_must rel_quiet rel_log rel_run_ok rel_release

end

subsection \<open>Commands and the devices they write\<close>

definition log_only :: "report_call \<Rightarrow> bool" where
  "log_only c \<longleftrightarrow> (case c of LogCall l m \<Rightarrow> True | _ \<Rightarrow> False)"

definition acts :: "(report_call \<Rightarrow> bool) \<Rightarrow> (string list \<Rightarrow> bool) \<Rightarrow> iworld \<Rightarrow> iworld \<Rightarrow> bool" where
  "acts C P w w' \<longleftrightarrow>
    (\<exists>cs rs. iw_cmds w' = iw_cmds w @ cs \<and> iw_calls w' = iw_calls w @ rs
      \<and> (\<forall>c \<in> set cs. P (fst c)) \<and> (\<forall>r \<in> set rs. C r))"

interpretation acts: world_order "acts C P" for C P
proof
  show "acts C P w w" for w by (simp add: acts_def)
  show "acts C P u w" if "acts C P u v" "acts C P v w" for u v w
  proof -
    from that obtain cs rs cs2 rs2 where "iw_cmds w = iw_cmds u @ cs @ cs2" "iw_calls w = iw_calls u @ rs @ rs2"
      "\<forall>c \<in> set (cs @ cs2). P (fst c)" "\<forall>r \<in> set (rs @ rs2). C r"
      unfolding acts_def by fastforce
    then show ?thesis unfolding acts_def by blast
  qed
qed

lemma acts_mono:
  "state_io_rel (acts C P) m \<Longrightarrow> (\<And>argv. P argv \<Longrightarrow> Q argv) \<Longrightarrow> (\<And>c. C c \<Longrightarrow> D c) \<Longrightarrow> state_io_rel (acts D Q) m"
  unfolding state_io_rel_def acts_def by blast

lemma loud: "state_io_rel (acts log_only P) m \<Longrightarrow> state_io_rel (acts (\<lambda>_. True) P) m"
  by (erule acts_mono) auto

lemma run_cmds: "P argv \<Longrightarrow> state_io_rel (acts C P) (run_cmd env argv)"
  by (auto simp: state_io_rel_def run_cmd_def acts_def split: prod.splits)

lemma fs_cmds: "state_io_rel (acts C P) (fs_op env f)"
  by (auto simp: state_io_rel_def fs_op_def Let_def acts_def split: option.splits sum.splits)

lemma report_cmds: "C c \<Longrightarrow> state_io_rel (acts C P) (report env c)"
  by (auto simp: state_io_rel_def report_def acts_def)

lemma glob_cmds: "state_io_rel (acts C P) (glob_io dir pre suf)"
  by (auto simp: state_io_rel_def glob_io_def acts_def)

lemma log_is_log [simp]: "log_only (LogCall l m)"
  by (simp add: log_only_def)

text \<open>
  The block devices a command writes or re-reads: the operand of the partitioning and file system tools,
  of the image writer, of a boot loader for BIOS and of a new boot entry.
\<close>

definition disk_tools :: "string list" where
  "disk_tools = [''sgdisk'', ''qemu-img'', ''mkfs.fat'', ''e2fsck'', ''resize2fs'', ''partprobe'', ''blockdev'', ''partx'']"

definition grub_devices :: "string list \<Rightarrow> string list" where
  "grub_devices args = (if ''--target=i386-pc'' \<in> set args then [last args] else [])"

fun device_args :: "string list \<Rightarrow> string list" where
  "device_args [] = []"
| "device_args (p # args) =
    (if p \<in> set disk_tools then [last args]
     else if p = ''sfdisk'' then [args ! 1]
     else if p = ''growpart'' then [hd args]
     else if p = ''grub-install'' then grub_devices args
     else if p = ''efibootmgr'' \<and> take 2 args = [''--create'', ''--disk''] then [args ! 2]
     else if p = ''chroot'' \<and> 2 \<le> length args \<and> args ! 1 = ''grub2-install'' then grub_devices (drop 2 args)
     else [])"

text \<open>The file system of a device that a command mounts; the other forms name no device.\<close>

definition mount_args :: "string list \<Rightarrow> string list" where
  "mount_args argv = (if length argv = 3 \<and> hd argv = ''mount'' then [argv ! 1] else [])"

text \<open>
  What the installer mounts besides the root partition: the EFI system partition among the partitions
  \<open>lsblk\<close> lists, and the sources of \<open>/etc/fstab\<close>, by path or as \<open>blkid\<close> finds their label or UUID.
\<close>

definition listed_on :: "inst_env \<Rightarrow> string \<Rightarrow> string \<Rightarrow> bool" where
  "listed_on env disk a \<longleftrightarrow>
    (\<exists>w out t. ie_exec env w [''lsblk'', ''-lnpo'', ''NAME,TYPE'', disk] = (out, None, t) \<and> a \<in> set (part_names out))"

definition blkid_finds :: "inst_env \<Rightarrow> string \<Rightarrow> string \<Rightarrow> string \<Rightarrow> bool" where
  "blkid_finds env flag x a \<longleftrightarrow> (\<exists>w out t. ie_exec env w [''blkid'', flag, x] = (out, None, t) \<and> a = trim_space out)"

definition source_names :: "inst_env \<Rightarrow> string \<Rightarrow> string \<Rightarrow> bool" where
  "source_names env source a \<longleftrightarrow>
    (if starts_with ''/dev/'' source then a = source
     else if starts_with ''LABEL='' source then blkid_finds env ''-L'' (drop 6 source) a
     else starts_with ''UUID='' source \<and> blkid_finds env ''-U'' (drop 5 source) a)"

definition fstab_names :: "inst_env \<Rightarrow> string \<Rightarrow> string \<Rightarrow> bool" where
  "fstab_names env text a \<longleftrightarrow> (\<exists>source target. (source, target) \<in> set (fstab_entries text) \<and> source_names env source a)"

text \<open>The disk itself or one of its partitions.\<close>

definition on_disk :: "string \<Rightarrow> string \<Rightarrow> bool" where
  "on_disk dev a \<longleftrightarrow>
    starts_with dev a \<and>
    (let r = drop (length dev) a; s = trim_prefix ''p'' r; ds = (if s \<noteq> [] \<and> hd s \<in> {CHR ''-'', CHR ''+''} then tl s else s) in
     r = [] \<or> (ds \<noteq> [] \<and> list_all is_digit ds))"

definition fine :: "(string \<Rightarrow> string \<Rightarrow> bool) \<Rightarrow> string list \<Rightarrow> bool" where
  "fine okdev argv \<longleftrightarrow> (\<forall>a \<in> set (device_args argv). okdev (hd argv) a) \<and> (argv = [] \<or> hd argv \<noteq> ''mount'')"

lemma fine_Cons:
  "p \<notin> set disk_tools \<union> {''sfdisk'', ''growpart'', ''grub-install'', ''efibootmgr'', ''chroot'', ''mount''} \<Longrightarrow> fine okdev (p # args)"
  by (simp add: fine_def)

lemma on_disk_self: "on_disk dev dev"
  by (simp add: on_disk_def starts_with_def)

lemma on_disk_number: "partition_number dev a = Inr n \<Longrightarrow> on_disk dev a"
  by (auto simp: partition_number_def on_disk_def Let_def atoi_def split: if_splits option.splits)

named_theorems cmds_intros \<open>programs whose commands are fine\<close>

lemmas [cmds_intros] = acts.rel_rules log_is_log run_cmds report_cmds glob_cmds

lemma fs_cmds_intros [cmds_intros]:
  "state_io_rel (acts C P) (fs_read env p)" "state_io_rel (acts C P) (fs_write env p d m)"
  "state_io_rel (acts C P) (fs_mkdir_all env p)" "state_io_rel (acts C P) (fs_stat env p)"
  "state_io_rel (acts C P) (fs_symlink env t p)" "state_io_rel (acts C P) (fs_remove env p)"
  "state_io_rel (acts C P) (fs_op env f)"
  by (simp_all add: fs_read_def fs_write_def fs_mkdir_all_def fs_stat_def fs_symlink_def fs_remove_def fs_cmds)

lemmas fine_eval = fine_def disk_tools_def grub_devices_def blkid_type_def in_target_def

subsection \<open>The disk\<close>

lemma release_fine [cmds_intros]: "state_io_rel (acts log_only (fine okdev)) (log_release env dev why)"
  unfolding log_release_def release_disk_def lsblk_rows_def active_swaps_on_def vgs_on_def release_row_def
  by (intro cmds_intros) (simp_all add: fine_eval)

lemma wipe_fine: "okdev ''sgdisk'' dev \<Longrightarrow> state_io_rel (acts log_only (fine okdev)) (wipe_disk env dev)"
  unfolding wipe_disk_def by (intro cmds_intros) (simp_all add: fine_eval)

lemma prune_fine [cmds_intros]: "state_io_rel (acts log_only (fine okdev)) (prune_stale_nvram env dev)"
  unfolding prune_stale_nvram_def collect_part_uuids_def
  by (intro cmds_intros) (simp_all add: fine_eval)

lemma first_vfat_fine: "state_io_rel (acts log_only (fine okdev)) (first_vfat env skip ps)"
  by (induction ps) (auto intro!: cmds_intros simp: fine_eval)

lemma find_esp_fine [cmds_intros]: "state_io_rel (acts log_only (fine okdev)) (find_esp env parent skip)"
  unfolding find_esp_def by (intro cmds_intros first_vfat_fine) (simp_all add: fine_eval)

lemma find_esp_listed:
  assumes "fst (run_state (find_esp env parent skip) w) = Inr p"
  shows "p = [] \<or> listed_on env parent p"
proof -
  have vfat: "fst (run_state (first_vfat env skip ps) v) \<in> insert [] (set ps)" for ps v
  proof (induction ps arbitrary: v)
    case (Cons p ps)
    then show ?case by (auto split: prod.splits sum.splits)
  qed simp
  obtain out err t where x: "ie_exec env w [''lsblk'', ''-lnpo'', ''NAME,TYPE'', parent] = (out, err, t)"
    by (metis prod_cases3)
  show ?thesis
  proof (cases err)
    case None
    then have "p \<in> insert [] (set (part_names out))"
      using assms x vfat [of "part_names out"]
      by (auto simp: find_esp_def try_io_def try_cmd_def run_cmd_def cmd_result_def split: prod.splits) (metis fst_conv)
    then show ?thesis using x None by (auto simp: listed_on_def)
  next
    case (Some e)
    then show ?thesis using assms x by (auto simp: find_esp_def try_io_def try_cmd_def run_cmd_def cmd_result_def)
  qed
qed

lemma fix_esp_fine: "(\<And>p. okdev p dev) \<Longrightarrow> state_io_rel (acts log_only (fine okdev)) (fix_esp_type_if_wrong env dev esp)"
  unfolding fix_esp_type_if_wrong_def check_esp_type_def set_esp_type_def Let_def
  by (intro cmds_intros) (simp_all add: fine_eval)

lemma digits_digits: "digits_nat n \<noteq> [] \<and> list_all is_digit (digits_nat n)"
  using digits_nat_props by (auto simp: list_all_iff)

lemma show_int_digits_only:
  "let s = show_int n; ds = (if s \<noteq> [] \<and> hd s \<in> {CHR ''-'', CHR ''+''} then tl s else s) in ds \<noteq> [] \<and> list_all is_digit ds"
proof -
  have "hd (digits_nat k) \<notin> {CHR ''-'', CHR ''+''}" for k
    using digits_digits [of k] by (cases "digits_nat k") (auto simp: is_digit_def)
  then show ?thesis using digits_digits by (auto simp: show_int_def Let_def)
qed

lemma show_int_no_p: "trim_prefix ''p'' (show_int n) = show_int n"
proof -
  have "\<not> starts_with ''p'' (digits_nat k)" for k
    using digits_digits [of k] by (cases "digits_nat k") (auto simp: is_digit_def starts_with_Cons)
  then show ?thesis by (auto simp: trim_prefix_def show_int_def starts_with_Cons)
qed

lemma on_disk_path: "on_disk dev (partition_path dev n)"
  using show_int_digits_only [of n] show_int_no_p [of n]
  by (auto simp: on_disk_def partition_path_def Let_def starts_with_def trim_prefix_def)

lemma make_esp_fine: "(\<And>p a. on_disk dev a \<Longrightarrow> okdev p a) \<Longrightarrow> state_io_rel (acts log_only (fine okdev)) (make_esp env dev)"
  unfolding make_esp_def Let_def
  by (intro cmds_intros) (simp_all add: fine_eval on_disk_self on_disk_path)

lemma create_esp_fine:
  assumes "\<And>p a. on_disk dev a \<or> a = parent_disk_of dev \<Longrightarrow> okdev p a"
  shows "state_io_rel (acts log_only (fine okdev)) (create_esp_if_missing env dev part boot)"
  unfolding create_esp_if_missing_def Let_def using assms
  by (intro cmds_intros fix_esp_fine make_esp_fine) (auto simp: on_disk_self)

lemma root_partition_fine:
  assumes "\<And>p. okdev p dev"
  shows "state_io_rel (acts log_only (fine okdev)) (root_partition_of env dev)"
  unfolding root_partition_of_def parts_of_disk_def enumerate_parts_def probe_candidate_def using assms
  by (intro cmds_intros) (simp_all add: fine_eval)

lemma grow_fine:
  assumes "\<And>p a. on_disk dev a \<Longrightarrow> okdev p a"
  shows "state_io_rel (acts log_only (fine okdev)) (grow_last_partition env dev)"
proof -
  have "state_io_rel (acts log_only (fine okdev)) (resize_root env part fs)" if "\<And>p. okdev p part" for part fs
    unfolding resize_root_def excused_cmd_def using that by (intro cmds_intros) (simp_all add: fine_eval)
  moreover have "state_io_rel (acts log_only (fine okdev)) (excused_cmd pre env [''growpart'', dev, m] ws)" for pre m ws
    unfolding excused_cmd_def using assms by (intro cmds_intros) (simp_all add: fine_eval on_disk_self)
  ultimately show ?thesis
    unfolding grow_last_partition_def using assms on_disk_number
    by (auto intro!: acts.rel_if acts.rel_try root_partition_fine acts.rel_prod acts.rel_return
        simp: on_disk_self split: sum.split)
qed

lemma write_image_fine:
  assumes "\<And>p. okdev p dev"
  shows "state_io_rel (acts log_only (fine okdev)) (write_image env work src dev)"
  unfolding write_image_def spool_image_def convert_image_def reread_table_def using assms
  by (intro cmds_intros) (simp_all add: fine_eval)

subsection \<open>The boot loader\<close>

lemma drivers_fine [cmds_intros]:
  "state_io_rel (acts log_only (fine okdev)) (has_driver env mnt kver drv)"
  "state_io_rel (acts log_only (fine okdev)) (list_kernel_versions env mnt)"
  unfolding has_driver_def list_kernel_versions_def
  by (intro cmds_intros; simp add: fine_eval)+

lemma score_fine [cmds_intros]:
  "state_io_rel (acts log_only (fine okdev)) (driver_score env mnt ds kver)"
  "state_io_rel (acts log_only (fine okdev)) (missing_drivers env mnt kver)"
  unfolding driver_score_def missing_drivers_def by (intro cmds_intros)+

lemma raid_probe_fine: "state_io_rel (acts log_only (fine okdev)) (raid_probe env ls)"
  by (induction ls) (auto intro!: cmds_intros simp: fine_eval split: sum.split)

lemma raid_fine [cmds_intros]: "state_io_rel (acts log_only (fine okdev)) (is_raid_controller_disk env dev)"
  unfolding is_raid_controller_disk_def by (intro cmds_intros raid_probe_fine)

lemma files_fine [cmds_intros]:
  "state_io_rel (acts log_only (fine okdev)) (write_resolv_conf env spec mnt)"
  "state_io_rel (acts log_only (fine okdev)) (switch_mirror env spec mnt)"
  "state_io_rel (acts log_only (fine okdev)) (write_saved_entry env p q e)"
  "state_io_rel (acts log_only (fine okdev)) (bridge_rhel_grub_cfg env mnt)"
  unfolding write_resolv_conf_def switch_mirror_def write_saved_entry_def read_either_def bridge_rhel_grub_cfg_def
  by (intro cmds_intros)+

lemma menuentry_fine: "state_io_rel (acts log_only (fine okdev)) (find_menuentry env kver ps)"
  by (induction ps) (auto intro!: cmds_intros split: sum.split option.split)

lemma purge_fine [cmds_intros]: "state_io_rel (acts log_only (fine okdev)) (purge_cloud_kernel_debian env mnt)"
  unfolding purge_cloud_kernel_debian_def purge_candidate_def purge_kernel_def drop_file_def
  by (intro cmds_intros) (simp_all add: fine_eval)

lemma pin_fine [cmds_intros]: "state_io_rel (acts log_only (fine okdev)) (pin_debian_default_kernel env mnt)"
  unfolding pin_debian_default_kernel_def set_default_saved_def set_saved_entry_def find_menuentry_id_for_kernel_def Let_def
  by (intro cmds_intros menuentry_fine) (simp_all add: fine_eval)

lemma initramfs_debian_fine [cmds_intros]: "state_io_rel (acts log_only (fine okdev)) (regenerate_initramfs_debian env spec mnt dev)"
  unfolding regenerate_initramfs_debian_def install_standard_kernel_def
  by (intro cmds_intros) (simp_all add: fine_eval)

lemma any_cmd_fine: "(\<And>c. c \<in> set cs \<Longrightarrow> fine okdev c) \<Longrightarrow> state_io_rel (acts log_only (fine okdev)) (any_cmd env cs)"
  unfolding any_cmd_def by (intro cmds_intros) simp

lemma host_debian_fine:
  assumes "\<And>p. okdev p dev"
  shows "state_io_rel (acts log_only (fine okdev)) (install_grub_host_debian env spec mnt dev esp)"
  unfolding install_grub_host_debian_def Let_def using assms
  by (intro cmds_intros any_cmd_fine) (auto simp: fine_eval arch_from_spec_def)

lemma register_fine:
  assumes "\<And>p. okdev p dev"
  shows "state_io_rel (acts log_only (fine okdev)) (register_efi_boot_entry_rhel env mnt dev i loaders)"
  unfolding register_efi_boot_entry_rhel_def find_esp_part_num_def remove_stale_efi_entries_def Let_def using assms
  by (intro cmds_intros) (simp_all add: fine_eval)

lemma normalize_fine [cmds_intros]: "state_io_rel (acts log_only (fine okdev)) (normalize_esp_layout env esp i ls f)"
  unfolding normalize_esp_layout_def copy_tree_def Let_def
  by (intro cmds_intros) (simp_all add: fine_eval)

lemma rhel_steps_fine [cmds_intros]:
  "state_io_rel (acts log_only (fine okdev)) (detect_rhel_bootloader_id env mnt)"
  "state_io_rel (acts log_only (fine okdev)) (regenerate_initramfs_rhel env spec mnt dev)"
  "state_io_rel (acts log_only (fine okdev)) (set_default_boot_kernel env mnt)"
  unfolding detect_rhel_bootloader_id_def regenerate_initramfs_rhel_def rebuild_initramfs_def set_default_boot_kernel_def
    ensure_kernel_modules_installed_def some_kernel_has_def install_kernel_modules_def dnf_install_def Let_def
  by ((intro cmds_intros; simp add: fine_eval)+)[3]

lemma rhel_edits_fine [cmds_intros]:
  "state_io_rel (acts log_only (fine okdev)) (fix_rhel_grub_cmdline env mnt serial)"
  "state_io_rel (acts log_only (fine okdev)) (disable_selinux_if_enforcing env mnt)"
  "state_io_rel (acts log_only (fine okdev)) (mask_boot_latency_hogs env mnt)"
  "state_io_rel (acts log_only (fine okdev)) (mask_kdump_service env mnt)"
  unfolding fix_rhel_grub_cmdline_def fix_bls_entries_cmdline_def disable_selinux_if_enforcing_def mask_boot_latency_hogs_def
    mask_kdump_service_def mask_unit_def Let_def
  by (intro cmds_intros; simp add: fine_eval)+

lemma make_config_fine [cmds_intros]: "state_io_rel (acts log_only (fine okdev)) (make_grub_config env mnt)"
  unfolding make_grub_config_def
  by (intro cmds_intros any_cmd_fine) (auto simp: fine_eval)

lemma rhel_fine:
  assumes "\<And>p. okdev p dev"
  shows "state_io_rel (acts log_only (fine okdev)) (install_grub_chroot_rhel env spec mnt dev esp)"
  unfolding install_grub_chroot_rhel_def rhel_uefi_def rhel_bios_def Let_def using assms
  by (intro cmds_intros register_fine) (auto simp: fine_eval arch_from_spec_def)

lemma bootloader_fine:
  assumes "\<And>p. okdev p dev"
  shows "state_io_rel (acts log_only (fine okdev)) (os_install_bootloader family env spec mnt dev esp)"
  unfolding os_install_bootloader_def install_grub_dispatch_def install_grub_host_fallback_def
  by (intro cmds_intros host_debian_fine rhel_fine assms)

subsection \<open>Seed, monitor and mounts\<close>

lemma writers_fine [cmds_intros]:
  "state_io_rel (acts log_only P) (write_drop_in env root name content)"
  "state_io_rel (acts log_only P) (write_dir env dir mode fs)"
  unfolding write_drop_in_def write_dir_def write_all_def
  by (intro cmds_intros)+

lemma network_fine [cmds_intros]:
  "state_io_rel (acts log_only P) (write_nm_keyfiles env nics nc b root)"
  "state_io_rel (acts log_only P) (write_sysconfig env nics nc b root)"
  "state_io_rel (acts log_only P) (write_wicked_config env nics nc b root)"
  "state_io_rel (acts log_only P) (write_eni_renderer_config env nics nc b root)"
  "state_io_rel (acts log_only P) (write_direct_netplan env nics rhel7 nc b root)"
  unfolding write_nm_keyfiles_def write_sysconfig_def write_wicked_config_def write_eni_renderer_config_def
    write_direct_netplan_def Let_def
  by (intro cmds_intros)+

lemma seed_parts_fine [cmds_intros]:
  "state_io_rel (acts log_only P) (clean_stale_network_config env root)"
  "state_io_rel (acts log_only P) (renderer_files env nics spec root renderer)"
  "state_io_rel (acts log_only P) (direct_files env nics spec root renderer rhel7)"
  "state_io_rel (acts log_only P) (write_vt_init_service env root)"
  "state_io_rel (acts log_only P) (write_authorized_keys env root keys)"
  "state_io_rel (acts log_only P) (has_cloud_init env root)"
  unfolding clean_stale_network_config_def remove_matches_def renderer_files_def disable_cloud_init_network_def
    write_nm_renderer_config_def direct_files_def write_direct_hostname_def write_direct_password_def
    write_direct_sshd_config_def write_direct_network_config_def write_vt_init_service_def write_authorized_keys_def
    has_cloud_init_def Let_def
  by (intro cmds_intros)+

lemma seed_fine [cmds_intros]: "state_io_rel (acts log_only (fine okdev)) (os_build_seed family env nics spec mnt)"
  unfolding os_build_seed_def build_seed_common_def seed_rest_def relabel_def selinux_will_be_disabled_def Let_def
  by (intro cmds_intros) (simp_all add: fine_eval)

lemma implant_fine [cmds_intros]: "state_io_rel (acts log_only P) (implant_monitor env mnt url)"
  unfolding implant_monitor_def enable_monitor_def Let_def by (intro cmds_intros)

lemma stage_acts: "state_io_rel (acts (\<lambda>_. True) P) m \<Longrightarrow> state_io_rel (acts (\<lambda>_. True) P) (stage env s m)"
  unfolding stage_def by (intro cmds_intros) simp

lemma boot_mode_fine [cmds_intros]: "state_io_rel (acts log_only P) (detect_boot_mode env)"
  unfolding detect_boot_mode_def Let_def by (intro cmds_intros)

text \<open>Commands that write and mount no device outside the predicate.\<close>

definition tame :: "(string \<Rightarrow> string \<Rightarrow> bool) \<Rightarrow> string list \<Rightarrow> bool" where
  "tame okdev argv \<longleftrightarrow> (\<forall>a \<in> set (device_args argv @ mount_args argv). okdev (hd argv) a)"

lemma fine_is_tame: "fine okdev argv \<Longrightarrow> tame okdev argv"
  by (auto simp: fine_def tame_def mount_args_def)

lemma fine_tame: "state_io_rel (acts log_only (fine okdev)) m \<Longrightarrow> state_io_rel (acts log_only (tame okdev)) m"
  by (erule acts_mono) (simp_all add: fine_is_tame)

lemma tame_mount [simp]:
  "tame okdev (''umount'' # args)"
  "tame okdev (''mount'' # args) \<longleftrightarrow> (length args = 2 \<longrightarrow> okdev ''mount'' (hd args))"
  by (auto simp: tame_def disk_tools_def mount_args_def length_Suc_conv numeral_2_eq_2)

lemma rollback_tame: "state_io_rel (acts log_only (tame okdev)) (rollback env ms)"
  unfolding rollback_def by (intro cmds_intros) simp

lemma cleanup_tame: "state_io_rel (acts log_only (tame okdev)) (cleanup env ms)"
proof -
  have "state_io_rel (acts log_only (tame okdev)) (umount_all env ts)" for ts
    by (induction ts) (auto intro!: cmds_intros)
  then show ?thesis by (simp add: cleanup_def)
qed

lemma undo_tame:
  assumes "state_io_rel (acts log_only (tame okdev)) m" "\<And>x. state_io_rel (acts log_only (tame okdev)) (k x)"
  shows "state_io_rel (acts log_only (tame okdev)) (undo_on_error env ms pre m k)"
  unfolding undo_on_error_def by (intro cmds_intros rollback_tame assms)

lemma undo_gives_tame:
  assumes "state_io_rel (acts log_only (tame okdev)) m"
    "\<And>w x. fst (run_state m w) = Inr x \<Longrightarrow> state_io_rel (acts log_only (tame okdev)) (k x)"
  shows "state_io_rel (acts log_only (tame okdev)) (undo_on_error env ms pre m k)"
  unfolding undo_on_error_def
proof (rule acts.rel_bind_gives [OF assms(1)])
  fix w r
  assume "fst (run_state m w) = r"
  then show "state_io_rel (acts log_only (tame okdev))
      (case r of Inl e \<Rightarrow> do { _ \<leftarrow> rollback env ms; State_Monad.return (Inl (pre @ e)) } | Inr x \<Rightarrow> k x)"
    using assms(2) by (auto split: sum.split intro!: acts.rel_bind acts.rel_return rollback_tame)
qed

lemma fstab_source_fine [cmds_intros]: "state_io_rel (acts log_only (fine okdev)) (resolve_fstab_source env source)"
  unfolding resolve_fstab_source_def by (intro cmds_intros) (simp_all add: fine_eval)

lemma fstab_source_named:
  assumes "fst (run_state (resolve_fstab_source env source) w) = Inr d"
  shows "d = [] \<or> source_names env source d"
proof -
  have blkid: "blkid_finds env flag x d"
    if "fst (run_state (try_io [] (try_cmd env [''blkid'', flag, x]) (\<lambda>out. State_Monad.return (Inr (trim_space out)))) w) = Inr d"
    for flag x
  proof -
    obtain out err t where e: "ie_exec env w [''blkid'', flag, x] = (out, err, t)" by (metis prod_cases3)
    then have "err = None" "d = trim_space out"
      using that by (auto simp: try_io_def try_cmd_def run_cmd_def cmd_result_def split: option.splits)
    then show ?thesis using e unfolding blkid_finds_def by blast
  qed
  show ?thesis
    using assms blkid [of "''-L''" "drop 6 source"] blkid [of "''-U''" "drop 5 source"]
    unfolding resolve_fstab_source_def source_names_def by (simp split: if_splits)
qed

lemma mount_entries_tame:
  assumes "\<And>source target a. (source, target) \<in> set es \<Longrightarrow> source_names env source a \<Longrightarrow> okdev ''mount'' a"
  shows "state_io_rel (acts log_only (tame okdev)) (mount_entries env root ms esp es)"
  using assms
proof (induction es arbitrary: ms esp)
  case (Cons e es)
  obtain source target where e: "e = (source, target)" by (cases e)
  show ?case
    unfolding e mount_entries.simps Let_def
  proof (rule acts.rel_bind_gives [OF fine_tame [OF fstab_source_fine]])
    fix w dev
    assume "fst (run_state (resolve_fstab_source env source) w) = dev"
    then have ok: "okdev ''mount'' d" if "dev = Inr d" "d \<noteq> []" for d
      using that Cons.prems [of source target d] e fstab_source_named by auto
    have rest: "state_io_rel (acts log_only (tame okdev)) (mount_entries env root ms esp es)" for ms esp
      by (rule Cons.IH) (use Cons.prems in auto)
    show "state_io_rel (acts log_only (tame okdev))
      (if case dev of Inl e \<Rightarrow> True | Inr d \<Rightarrow> d = [] then mount_entries env root ms esp es
       else do {
         k \<leftarrow> fs_mkdir_all env (abs_path (join_text root [target]));
         case k of Inl e \<Rightarrow> State_Monad.return (ms, Inl (''install: mkdir '' @ join_text root [target] @ '': '' @ e))
         | Inr _ \<Rightarrow> do {
             r \<leftarrow> run_cmd env [''mount'', case dev of Inl e \<Rightarrow> [] | Inr d \<Rightarrow> d, join_text root [target]];
             case snd r of
               Some e \<Rightarrow> State_Monad.return
                 (ms, Inl (''install: mount fstab '' @ source @ '' ('' @ (case dev of Inl e \<Rightarrow> [] | Inr d \<Rightarrow> d) @ '') -> ''
                   @ join_text root [target] @ '': '' @ e))
             | None \<Rightarrow> mount_entries env root (ms @ [join_text root [target]])
                 (if target \<in> {''/boot/efi'', ''/boot''} then join_text root [target] else esp) es }
       })"
      by (intro acts.rel_if cmds_intros rest) (auto intro: ok split: sum.splits)
  qed
qed (simp add: acts.rel_return)

lemma bind_mounts_tame: "state_io_rel (acts log_only (tame okdev)) (bind_mounts env root ms subs)"
proof (induction subs arbitrary: ms)
  case (Cons sub subs)
  then show ?case
    unfolding bind_mounts.simps Let_def by (intro undo_tame cmds_intros) simp_all
qed (simp add: acts.rel_return)

lemma mount_esp_tame:
  assumes "\<And>a. listed_on env (parent_disk_of part) a \<Longrightarrow> okdev ''mount'' a"
  shows "state_io_rel (acts log_only (tame okdev)) (mount_esp env part root ms esp)"
proof -
  have "okdev ''mount'' dev" if "fst (run_state (find_esp env (parent_disk_of part) part) w) = Inr dev" "dev \<noteq> []" for w dev
    using that assms find_esp_listed by blast
  then show ?thesis
    unfolding mount_esp_def Let_def
    by (intro acts.rel_if acts.rel_return undo_gives_tame [OF fine_tame [OF find_esp_fine]] undo_tame cmds_intros) auto
qed

text \<open>The root is mounted first; then its \<open>fstab\<close> is read.\<close>

definition mount_root :: "inst_env \<Rightarrow> string \<Rightarrow> string \<Rightarrow> (string, unit) result io" where
  "mount_root env part root =
    (if part = [] \<or> root = [] then State_Monad.return (Inl ''install: Mount: partDev and mntRoot are required'')
     else try_io (''install: mkdir '' @ root @ '': '') (fs_mkdir_all env (abs_path root)) (\<lambda>_.
          try_io (''install: mount '' @ part @ '' -> '' @ root @ '': '') (try_cmd env [''mount'', part, root]) (\<lambda>_.
          State_Monad.return (Inr ()))))"

definition mount_pseudo ::
  "inst_env \<Rightarrow> string \<Rightarrow> string \<Rightarrow> string list \<times> (string, string) result \<Rightarrow> (string, string \<times> string list) result io"
where
  "mount_pseudo env part root = (\<lambda>(ms, r).
      case r of
        Inl e \<Rightarrow> do { _ \<leftarrow> rollback env [root]; State_Monad.return (Inl e) }
      | Inr esp0 \<Rightarrow>
        try_io [] (mount_esp env part root ([root] @ ms) esp0) (\<lambda>(esp, mounted).
        try_io [] (bind_mounts env root mounted [''/proc'', ''/sys'', ''/dev'', ''/dev/pts'', ''/run'']) (\<lambda>mounted2.
        do { all \<leftarrow> mount_efivars env root esp mounted2; State_Monad.return (Inr (esp, all)) })))"

definition mount_rest :: "inst_env \<Rightarrow> string \<Rightarrow> string \<Rightarrow> (string, string \<times> string list) result io" where
  "mount_rest env part root = mount_from_fstab env root \<bind> mount_pseudo env part root"

lemma run_mount_target:
  "run_state (mount_target env part root) w =
    (case run_state (mount_root env part root) w of
       (Inl e, u) \<Rightarrow> (Inl e, u) | (Inr _, u) \<Rightarrow> run_state (mount_rest env part root) u)"
  by (simp add: mount_target_def mount_root_def mount_rest_def mount_pseudo_def try_io_def split: prod.split sum.split)

lemma mount_root_tame:
  assumes "okdev ''mount'' part"
  shows "state_io_rel (acts log_only (tame okdev)) (mount_root env part root)"
  unfolding mount_root_def using assms by (intro cmds_intros) simp_all

text \<open>The text of the \<open>fstab\<close> below the root, in a world.\<close>

definition fstab_text :: "string \<Rightarrow> iworld \<Rightarrow> string option" where
  "fstab_text root w = file_text (iw_tree w) (path_join (abs_path root) [''etc'', ''fstab''])"

lemma mount_pseudo_tame:
  assumes "\<And>a. listed_on env (parent_disk_of part) a \<Longrightarrow> okdev ''mount'' a"
  shows "state_io_rel (acts log_only (tame okdev)) (mount_pseudo env part root p)"
  unfolding mount_pseudo_def mount_efivars_def Let_def
  by (intro cmds_intros mount_esp_tame bind_mounts_tame rollback_tame assms) simp_all

lemma fstab_mounts_tame:
  assumes run: "run_state (mount_from_fstab env root) u = (x, v)"
    and fstab: "\<And>content a. fstab_text root u = Some content \<Longrightarrow> fstab_names env content a \<Longrightarrow> okdev ''mount'' a"
  shows "acts log_only (tame okdev) u v"
proof -
  let ?p = "path_join (abs_path root) [''etc'', ''fstab'']"
  obtain y z where y: "run_state (fs_read env ?p) u = (y, z)" by fastforce
  have 1: "acts log_only (tame okdev) u z"
    by (rule state_io_relD [OF fs_cmds_intros(1) y])
  have read: "fstab_text root u = Some d" if "y = Inr d" for d
    using y that by (auto simp: fs_read_def fs_op_def os_read_def fstab_text_def Let_def split: option.splits)
  let ?m = "case y of Inl e \<Rightarrow> State_Monad.return ([], Inr []) | Inr d \<Rightarrow> mount_entries env root [] [] (fstab_entries d)"
  have "state_io_rel (acts log_only (tame okdev)) ?m"
    using fstab [OF read]
    by (auto split: sum.split intro!: acts.rel_return mount_entries_tame simp: fstab_names_def)
  moreover have "run_state ?m z = (x, v)" using run y by (simp add: mount_from_fstab_def)
  ultimately show ?thesis using 1 acts.R_trans state_io_relD by blast
qed

lemma mount_rest_tame:
  assumes run: "run_state (mount_rest env part root) u = (r, w')"
    and esp: "\<And>a. listed_on env (parent_disk_of part) a \<Longrightarrow> okdev ''mount'' a"
    and fstab: "\<And>content a. fstab_text root u = Some content \<Longrightarrow> fstab_names env content a \<Longrightarrow> okdev ''mount'' a"
  shows "acts log_only (tame okdev) u w'"
proof -
  obtain x v where x: "run_state (mount_from_fstab env root) u = (x, v)" by fastforce
  have "run_state (mount_pseudo env part root x) v = (r, w')" using run x by (simp add: mount_rest_def)
  moreover have "state_io_rel (acts log_only (tame okdev)) (mount_pseudo env part root x)"
    by (rule mount_pseudo_tame) (rule esp)
  ultimately have 2: "acts log_only (tame okdev) v w'" using state_io_relD by blast
  have "acts log_only (tame okdev) u v"
    by (rule fstab_mounts_tame [OF x]) (rule fstab)
  then show ?thesis using 2 acts.R_trans by blast
qed

lemma mount_target_tame:
  assumes "\<And>a. okdev ''mount'' a"
  shows "state_io_rel (acts log_only (tame okdev)) (mount_target env part root)"
proof (rule state_io_relI)
  fix r w w'
  assume run: "run_state (mount_target env part root) w = (r, w')"
  obtain x u where x: "run_state (mount_root env part root) w = (x, u)" by fastforce
  have 1: "acts log_only (tame okdev) w u"
    by (rule state_io_relD [OF mount_root_tame x]) (rule assms)
  show "acts log_only (tame okdev) w w'"
  proof (cases x)
    case (Inl e)
    then show ?thesis using run x 1 by (simp add: run_mount_target)
  next
    case (Inr y)
    then have "acts log_only (tame okdev) u w'"
      using run x assms mount_rest_tame [of env part root u r w' okdev] by (simp add: run_mount_target)
    then show ?thesis using 1 acts.R_trans by blast
  qed
qed

subsection \<open>The installation\<close>

definition picked_disk :: "install_deps \<Rightarrow> install_spec \<Rightarrow> disk \<Rightarrow> bool" where
  "picked_disk d spec dk \<longleftrightarrow>
    (case id_disks d of Inl e \<Rightarrow> False | Inr ds \<Rightarrow> pick_disk ds (pr_disk (is_profile spec)) = Inr dk)"

lemma try_io_Inr:
  assumes "fst (run_state (try_io pre m k) w) = Inr y"
  shows "\<exists>x v. run_state m w = (Inr x, v) \<and> fst (run_state (k x) v) = Inr y"
  using assms by (cases "run_state m w") (auto simp: try_io_def split: sum.splits)

lemma bind_result: "fst (run_state (m \<bind> k) w) = y \<Longrightarrow> \<exists>x v. fst (run_state (k x) v) = y"
  by (cases "run_state m w") auto

lemma try_io_pure:
  assumes "fst (run_state (try_io pre (State_Monad.return r) k) w) = Inr y"
  obtains x where "r = Inr x" "fst (run_state (k x) w) = Inr y"
  using try_io_Inr [OF assms] by auto

lemma choose_disk_picks:
  assumes "fst (run_state (choose_disk d spec) w) = Inr dk"
  shows "picked_disk d spec dk"
  using try_io_Inr [OF assms [unfolded choose_disk_def stage_def Let_def]]
  by (elim exE conjE try_io_pure) (auto simp: picked_disk_def dest!: bind_result simp del: run_state_bind)

text \<open>The phases of the installation, when the disk that is picked may be written.\<close>

lemma choose_disk_acts:
  assumes "\<And>dk. picked_disk d spec dk \<Longrightarrow> okdev ''sgdisk'' (dk_path dk)"
  shows "state_io_rel (acts (\<lambda>_. True) (fine okdev)) (choose_disk d spec)"
  unfolding choose_disk_def Let_def
  by (intro stage_acts loud acts.rel_try_gives [where m = "State_Monad.return _"] cmds_intros wipe_fine assms)
    (auto simp: picked_disk_def)

lemma open_image_acts: "state_io_rel (acts (\<lambda>_. True) P) (open_image d spec)"
  unfolding open_image_def Let_def by (intro stage_acts loud cmds_intros)

lemma write_and_grow_acts:
  assumes "\<And>p a. on_disk dev a \<or> a = parent_disk_of dev \<Longrightarrow> okdev p a"
  shows "state_io_rel (acts (\<lambda>_. True) (fine okdev)) (write_and_grow d dev src boot)"
  unfolding write_and_grow_def Let_def using assms
  by (intro stage_acts acts.rel_try loud [OF write_image_fine] loud [OF create_esp_fine] loud [OF grow_fine])
    (simp_all add: on_disk_self)

lemma prepare_disk_acts:
  assumes "\<And>p dk a. picked_disk d spec dk \<Longrightarrow> on_disk (dk_path dk) a \<or> a = parent_disk_of (dk_path dk) \<Longrightarrow> okdev p a"
  shows "state_io_rel (acts (\<lambda>_. True) (fine okdev)) (prepare_disk d spec)"
  unfolding prepare_disk_def Let_def
  by (intro stage_acts acts.rel_try [of _ _ "detect_boot_mode _"] loud [OF boot_mode_fine] acts.rel_bind
      acts.rel_log report_cmds acts.rel_try_gives [OF choose_disk_acts] open_image_acts acts.rel_try [OF open_image_acts]
      acts.rel_try [OF write_and_grow_acts] acts.rel_return)
    (auto intro: assms on_disk_self choose_disk_picks)

lemma fill_target_acts:
  assumes "\<And>p. okdev p (dk_path dk)"
  shows "state_io_rel (acts (\<lambda>_. True) (fine okdev)) (fill_target d spec dk g boot root esp)"
  unfolding fill_target_def Let_def
  by (intro acts.rel_try stage_acts acts.rel_if acts.rel_bind acts.rel_return)
    (auto intro!: loud cmds_intros bootloader_fine assms simp: fine_eval)

lemma grow_on_disk:
  assumes "fst (run_state (grow_last_partition env dev) w) = Inr g"
  shows "on_disk dev (gr_part g)"
proof -
  have "dev \<noteq> []" using assms by (auto simp: grow_last_partition_def)
  then obtain part fs v where "fst (run_state
      (case partition_number dev part of
         Inl e \<Rightarrow> State_Monad.return (Inl e)
       | Inr n \<Rightarrow>
         try_io [] (excused_cmd (''install: growpart '' @ dev @ '' '' @ show_int n @ '': '') env
                      [''growpart'', dev, show_int n] [''NOCHANGE'']) (\<lambda>_.
         try_io [] (resize_root env part fs) (\<lambda>xfs.
         State_Monad.return (Inr \<lparr>gr_part = part, gr_num = n, gr_fs = fs, gr_xfs = xfs\<rparr>)))) v) = Inr g"
    using assms by (auto simp: grow_last_partition_def dest!: try_io_Inr)
  then obtain n where "partition_number dev part = Inr n" "gr_part g = part"
    by (auto split: sum.splits dest!: try_io_Inr)
  then show ?thesis using on_disk_number by simp
qed

lemma prepare_disk_picks:
  assumes "fst (run_state (prepare_disk d spec) w) = Inr (dk, g, boot)"
  shows "picked_disk d spec dk" "on_disk (dk_path dk) (gr_part g)"
proof -
  obtain v v' where "run_state (choose_disk d spec) v = (Inr dk, v')"
    using try_io_Inr [OF assms [unfolded prepare_disk_def stage_def Let_def]]
    by (elim exE conjE) ((drule try_io_Inr bind_result, clarify)+, simp)
  then show "picked_disk d spec dk" using choose_disk_picks [of d spec v] by simp
  obtain u u' src b where "run_state (write_and_grow d (dk_path dk) src b) u = (Inr g, u')"
    using try_io_Inr [OF assms [unfolded prepare_disk_def stage_def Let_def]]
    by (elim exE conjE) ((drule try_io_Inr bind_result, clarify)+, simp)
  then have "fst (run_state (write_and_grow d (dk_path dk) src b) u) = Inr g" by simp
  from try_io_Inr [OF this [unfolded write_and_grow_def stage_def Let_def]]
  obtain x where "fst (run_state (grow_last_partition (id_env d) (dk_path dk)) x) = Inr g"
    by (elim exE conjE) ((drule try_io_Inr, clarify)+, metis)
  then show "on_disk (dk_path dk) (gr_part g)" by (rule grow_on_disk)
qed

text \<open>
  The devices that may be written - the picked disk, its partitions and what is taken for its parent - and
  those that may be mounted.
\<close>

definition target_device :: "install_deps \<Rightarrow> install_spec \<Rightarrow> string \<Rightarrow> bool" where
  "target_device d spec a \<longleftrightarrow>
    (\<exists>dk. picked_disk d spec dk \<and> (on_disk (dk_path dk) a \<or> a = parent_disk_of (dk_path dk)))"

definition until_root_mounted :: "install_deps \<Rightarrow> install_spec \<Rightarrow> (string, unit) result io" where
  "until_root_mounted d spec =
    (let env = id_env d; root = join_text (work_dir d) [''rootfs''] in
     try_io (''install: prepare workdir '' @ work_dir d @ '': '') (fs_mkdir_all env (abs_path (work_dir d))) (\<lambda>_.
     try_io [] (prepare_disk d spec) (\<lambda>(dk, g, boot).
     stage env ''mount'' (mount_root env (gr_part g) root))))"

text \<open>The \<open>fstab\<close> that an installation from a world reads: that of the root it has just mounted.\<close>

definition fstab_read :: "install_deps \<Rightarrow> install_spec \<Rightarrow> iworld \<Rightarrow> string option" where
  "fstab_read d spec w =
    (case run_state (until_root_mounted d spec) w of
       (Inr _, u) \<Rightarrow> fstab_text (join_text (work_dir d) [''rootfs'']) u | (Inl e, u) \<Rightarrow> None)"

definition mountable_device :: "install_deps \<Rightarrow> install_spec \<Rightarrow> iworld \<Rightarrow> string \<Rightarrow> bool" where
  "mountable_device d spec w a \<longleftrightarrow>
    (\<exists>dk part. picked_disk d spec dk \<and> on_disk (dk_path dk) part
      \<and> (a = part \<or> listed_on (id_env d) (parent_disk_of part) a))
    \<or> (\<exists>content. fstab_read d spec w = Some content \<and> fstab_names (id_env d) content a)"

definition install_device :: "install_deps \<Rightarrow> install_spec \<Rightarrow> iworld \<Rightarrow> string \<Rightarrow> string \<Rightarrow> bool" where
  "install_device d spec w p a \<longleftrightarrow> (if p = ''mount'' then mountable_device d spec w a else target_device d spec a)"

lemma fine_install:
  assumes "state_io_rel (acts C (fine (\<lambda>p a. target_device d spec a))) m"
  shows "state_io_rel (acts C (tame (install_device d spec w))) m"
proof (rule acts_mono [OF assms])
  show "tame (install_device d spec w) argv" if "fine (\<lambda>p a. target_device d spec a) argv" for argv
    using that by (cases argv) (auto simp: fine_def tame_def mount_args_def install_device_def)
qed

lemma install_acts:
  assumes run: "run_state (install_body d spec) w = (r, w')"
  shows "acts (\<lambda>_. True) (tame (install_device d spec w)) w w'"
proof -
  let ?env = "id_env d" and ?root = "join_text (work_dir d) [''rootfs'']"
  let ?R = "acts (\<lambda>_. True) (tame (install_device d spec w))"
  obtain x1 w1 where 1: "run_state (fs_mkdir_all ?env (abs_path (work_dir d))) w = (x1, w1)" by fastforce
  have a1: "?R w w1" by (rule state_io_relD [OF fs_cmds_intros(3) 1])
  obtain x2 w2 where 2: "run_state (prepare_disk d spec) w1 = (x2, w2)" by fastforce
  have "?R w1 w2"
    by (rule state_io_relD [OF fine_install [OF prepare_disk_acts] 2]) (auto simp: target_device_def)
  then have a2: "?R w w2" using a1 acts.R_trans by blast
  obtain x3 w3 where 3: "run_state (report ?env (StageCall ''mount'')) w2 = (x3, w3)" by fastforce
  have "?R w2 w3" by (rule state_io_relD [OF report_cmds 3]) simp
  then have a3: "?R w w3" using a2 acts.R_trans by blast
  show ?thesis
  proof (cases "\<exists>dk g boot. x1 = Inr () \<and> x2 = Inr (dk, g, boot) \<and> x3 = None")
    case False
    then have "w' \<in> {w1, w2, w3}"
      using run 1 2 3
      by (auto simp: install_body_def Let_def try_io_def stage_def call_result_def split: sum.splits prod.splits option.splits)
    then show ?thesis using a1 a2 a3 by auto
  next
    case True
    then obtain dk g boot where ok: "x1 = Inr ()" "x2 = Inr (dk, g, boot)" "x3 = None" by blast
    have dk: "picked_disk d spec dk" "on_disk (dk_path dk) (gr_part g)"
      using prepare_disk_picks [of d spec w1 dk g boot] 2 ok by auto
    obtain x4 w4 where 4: "run_state (mount_root ?env (gr_part g) ?root) w3 = (x4, w4)" by fastforce
    have "acts log_only (tame (install_device d spec w)) w3 w4"
      by (rule state_io_relD [OF mount_root_tame 4]) (use dk in \<open>auto simp: install_device_def mountable_device_def\<close>)
    then have "?R w3 w4" by (auto simp: acts_def)
    then have a4: "?R w w4" using a3 acts.R_trans by blast
    have until: "run_state (until_root_mounted d spec) w = (x4, w4)"
      using 1 2 3 4 ok by (simp add: until_root_mounted_def Let_def try_io_def stage_def call_result_def)
    obtain x5 w5 where 5: "run_state (mount_target ?env (gr_part g) ?root) w3 = (x5, w5)" by fastforce
    have a5: "?R w w5"
    proof (cases x4)
      case (Inl e)
      then show ?thesis using 4 5 a4 by (simp add: run_mount_target)
    next
      case (Inr y)
      then have "run_state (mount_rest ?env (gr_part g) ?root) w4 = (x5, w5)" using 4 5 by (simp add: run_mount_target)
      then have "acts log_only (tame (install_device d spec w)) w4 w5"
        by (rule mount_rest_tame) (use dk until Inr in \<open>auto simp: install_device_def mountable_device_def fstab_read_def\<close>)
      then have "?R w4 w5" by (auto simp: acts_def)
      then show ?thesis using a4 acts.R_trans by blast
    qed
    have fill: "state_io_rel ?R (fill_target d spec dk g boot ?root esp)" for esp
      by (intro fine_install fill_target_acts) (use dk on_disk_self in \<open>auto simp: target_device_def\<close>)
    show ?thesis
    proof (cases x5)
      case (Inl e)
      then have "w' = w5" using run 1 2 3 5 ok
        by (simp add: install_body_def Let_def try_io_def stage_def call_result_def)
      then show ?thesis using a5 by simp
    next
      case (Inr y)
      obtain esp mounted where y: "y = (esp, mounted)" by (cases y)
      let ?tail = "do {
         r \<leftarrow> fill_target d spec dk g boot ?root esp;
         c \<leftarrow> (case r of Inl e \<Rightarrow> State_Monad.return (Inl e) | Inr _ \<Rightarrow> cleanup ?env mounted);
         case c of
           Inl e \<Rightarrow> do { _ \<leftarrow> cleanup ?env mounted; State_Monad.return (Inl e) }
         | Inr _ \<Rightarrow> do { s \<leftarrow> report ?env SucceedCall; State_Monad.return (call_result s) } }"
      have "run_state ?tail w5 = (r, w')"
        using run 1 2 3 5 ok Inr y by (simp add: install_body_def Let_def try_io_def stage_def call_result_def)
      moreover have "state_io_rel ?R ?tail"
        by (intro acts.rel_bind acts.rel_sum acts.rel_return fill loud [OF cleanup_tame] report_cmds) simp
      ultimately have "?R w5 w'" by (auto dest: state_io_relD)
      then show ?thesis using a5 acts.R_trans by blast
    qed
  qed
qed

end
