(* ===== verification/Inst_Props.thy ===== *)
theory Inst_Props
  imports Inst_Trace
begin

text \<open>
  What an installation guarantees, \<open>installer.go\<close>: it writes only to the disk it selected, an image that
  does not have its checksum is never written, the controller is told the stages in order and the
  outcome once, and the mounts are undone. Each holds for every environment: whatever the commands
  print and change, and whichever commands, file operations and calls to the controller fail.
\<close>

subsection \<open>Small installations\<close>

text \<open>
  One fixed disk with one ext4 partition, and a root file system without an \<open>fstab\<close>. Every command
  succeeds. The profile names a family that has no installer, so the installation stops after the root
  is mounted.
\<close>

definition sample_disk :: disk where
  "sample_disk = \<lparr>dk_name = ''sda'', dk_path = ''/dev/sda'', dk_size = 1000, dk_removable = False, dk_readonly = False,
     dk_transport = ''sata'', dk_model = [], dk_wwn = [], dk_by_path = []\<rparr>"

definition good_output :: "string list \<Rightarrow> string" where
  "good_output argv =
    (if argv = [''lsblk'', ''-lnpo'', ''NAME,TYPE'', ''/dev/sda''] then ''/dev/sda disk'' @ [nl] @ ''/dev/sda1 part''
     else if argv = [''blkid'', ''-o'', ''value'', ''-s'', ''TYPE'', ''/dev/sda1''] then ''ext4'' else [])"

definition good_env :: inst_env where
  "good_env = \<lparr>ie_exec = (\<lambda>w argv. (good_output argv, None, iw_tree w)), ie_fault = (\<lambda>n. None), ie_report = (\<lambda>n. None)\<rparr>"

definition root_tree :: tree where
  "root_tree =
    (let r = [''tmp'', ''w'', ''rootfs''] in
     [([''tmp''], DirNode), ([''tmp'', ''w''], DirNode), (r, DirNode), (r @ [''proc''], DirNode), (r @ [''sys''], DirNode),
      (r @ [''dev''], DirNode), (r @ [''dev'', ''pts''], DirNode), (r @ [''run''], DirNode)])"

definition on_root :: "(string list \<times> bool) list \<Rightarrow> report_call list \<Rightarrow> nat \<Rightarrow> iworld" where
  "on_root cs rs n = \<lparr>iw_tree = root_tree, iw_cmds = cs, iw_calls = rs, iw_ops = n\<rparr>"

definition toy_sum :: "string \<Rightarrow> string" where
  "toy_sum s = digits_nat (length s)"

definition sample_deps :: install_deps where
  "sample_deps = \<lparr>id_env = good_env, id_nics = [], id_base_url = ''http://c'', id_work_dir = ''/tmp/w'',
     id_disks = Inr [sample_disk], id_resolve = (\<lambda>b u. Inr u),
     id_stream = http_stream toy_sum (\<lambda>u. Inr (200, ''image'', None))\<rparr>"

definition sample_spec :: install_spec where
  "sample_spec = (sample_install ''netplan'')
     \<lparr>is_sha256 := ''5'', is_profile := (scan_profile (sample_profile ''netplan''))\<lparr>pr_family := ''plan9''\<rparr>\<rparr>"

definition write_cmds :: "(string list \<times> bool) list" where
  "write_cmds = map (\<lambda>argv. (argv, True))
    [[''lsblk'', ''-lnrpo'', ''NAME,TYPE,MOUNTPOINT'', ''/dev/sda''], [''cat'', ''/proc/swaps''],
     [''pvs'', ''--noheadings'', ''-o'', ''pv_name,vg_name''], [''sgdisk'', ''-Z'', ''/dev/sda''],
     [''qemu-img'', ''convert'', ''-f'', ''qcow2'', ''-O'', ''raw'', ''/tmp/w/image.qcow2'', ''/dev/sda''], [''sync''],
     [''partprobe'', ''/dev/sda''], [''blockdev'', ''--rereadpt'', ''/dev/sda''],
     [''lsblk'', ''-lnpo'', ''NAME,TYPE'', ''/dev/sda''], [''blkid'', ''-o'', ''value'', ''-s'', ''TYPE'', ''/dev/sda1''],
     [''lsblk'', ''-lnpo'', ''NAME,TYPE'', ''/dev/sda''], [''blkid'', ''-o'', ''value'', ''-s'', ''TYPE'', ''/dev/sda1''],
     [''blkid'', ''-o'', ''value'', ''-s'', ''LABEL'', ''/dev/sda1''], [''growpart'', ''/dev/sda'', ''1''],
     [''e2fsck'', ''-fy'', ''/dev/sda1''], [''resize2fs'', ''/dev/sda1'']]"

definition mount_cmds :: "(string list \<times> bool) list" where
  "mount_cmds = map (\<lambda>argv. (argv, True))
    [[''mount'', ''/dev/sda1'', ''/tmp/w/rootfs''], [''lsblk'', ''-lnpo'', ''NAME,TYPE'', ''/dev/sda''],
     [''mount'', ''--bind'', ''/proc'', ''/tmp/w/rootfs/proc''], [''mount'', ''--bind'', ''/sys'', ''/tmp/w/rootfs/sys''],
     [''mount'', ''--bind'', ''/dev'', ''/tmp/w/rootfs/dev''], [''mount'', ''--bind'', ''/dev/pts'', ''/tmp/w/rootfs/dev/pts''],
     [''mount'', ''--bind'', ''/run'', ''/tmp/w/rootfs/run'']]"

definition sample_targets :: "string list" where
  "sample_targets = map (\<lambda>s. ''/tmp/w/rootfs'' @ s) [[], ''/proc'', ''/sys'', ''/dev'', ''/dev/pts'', ''/run'']"

text \<open>The run, phase by phase.\<close>

lemma sample_steps:
  "run_state (fs_mkdir_all good_env (abs_path ''/tmp/w'')) (on_root cs rs n) = (Inr (), on_root cs rs (n + 1))"
  "run_state (detect_boot_mode good_env) (on_root cs rs n) = (Inr ''bios'', on_root cs rs (n + 1))"
  "run_state (choose_disk sample_deps sample_spec) (on_root cs rs n) =
    (Inr sample_disk, on_root (cs @ take 4 write_cmds) (rs @ [StageCall ''disk-pick'',
       LogCall ''info'' ''selected disk /dev/sda (1000 bytes, sata)'', LogCall ''info'' ''zapped partition table on /dev/sda'']) n)"
  "run_state (open_image sample_deps sample_spec) (on_root cs rs n) =
    (Inr (Inr ''image''), on_root cs (rs @ [StageCall ''download'', LogCall ''info'' ''streaming '']) n)"
  "run_state (write_image good_env ''/tmp/w'' (Inr ''image'') ''/dev/sda'') (on_root cs rs n) =
    (Inr (), on_root (cs @ take 4 (drop 4 write_cmds)) rs (n + 4))"
  by (code_simp; simp)+

lemma sample_steps2:
  "run_state (create_esp_if_missing good_env ''/dev/sda'' [] ''bios'') (on_root cs rs n) =
    (Inr [], on_root (cs @ take 2 (drop 8 write_cmds)) rs n)"
  "run_state (grow_last_partition good_env ''/dev/sda'') (on_root cs rs n) =
    (Inr \<lparr>gr_part = ''/dev/sda1'', gr_num = 1, gr_fs = ''ext4'', gr_xfs = False\<rparr>, on_root (cs @ drop 10 write_cmds) rs n)"
  by (code_simp; simp)+

lemma sample_steps3:
  "run_state (mount_target good_env ''/dev/sda1'' ''/tmp/w/rootfs'') (on_root cs rs n) =
    (Inr ([], sample_targets), on_root (cs @ mount_cmds) rs (n + 7))"
  "run_state (cleanup good_env sample_targets) (on_root cs rs n) =
    (Inr (), on_root (cs @ map (\<lambda>t. ([''umount'', t], True)) (rev sample_targets)) rs n)"
  "run_state (report good_env c) (on_root cs rs n) = (None, on_root cs (rs @ [c]) n)"
  by (code_simp; simp)+

lemmas sample_run_steps = sample_steps sample_steps2 sample_steps3

lemma run_try_io:
  "run_state (try_io pre m k) w =
    (case run_state m w of (Inl e, v) \<Rightarrow> (Inl (pre @ e), v) | (Inr x, v) \<Rightarrow> run_state (k x) v)"
  by (simp add: try_io_def split: prod.split sum.split)

lemma run_stage:
  "run_state (stage env s m) w =
    (case run_state (report env (StageCall s)) w of
       (Some e, v) \<Rightarrow> (Inl (''install: stage '' @ s @ '': '' @ e), v) | (None, v) \<Rightarrow> run_state m v)"
  by (auto simp: stage_def run_try_io call_result_def split: prod.split option.split)

lemma sample_picked: "picked_disk sample_deps sample_spec dk \<longleftrightarrow> dk = sample_disk"
proof -
  have "pick_disk [sample_disk] (pr_disk (is_profile sample_spec)) = Inr sample_disk" by code_simp
  then show ?thesis by (auto simp: picked_disk_def sample_deps_def)
qed

definition sample_calls :: "report_call list" where
  "sample_calls = [StageCall ''boot-detect'', LogCall ''info'' ''boot mode: bios'', StageCall ''disk-pick'',
     LogCall ''info'' ''selected disk /dev/sda (1000 bytes, sata)'', LogCall ''info'' ''zapped partition table on /dev/sda'',
     StageCall ''download'', LogCall ''info'' ''streaming '', StageCall ''write'', StageCall ''grow'', StageCall ''mount'',
     StageCall ''seed'']"

lemma sample_prepare:
  "run_state (prepare_disk sample_deps sample_spec) (on_root [] [] n) =
    (Inr (sample_disk, \<lparr>gr_part = ''/dev/sda1'', gr_num = 1, gr_fs = ''ext4'', gr_xfs = False\<rparr>, ''bios''),
     on_root write_cmds (take 9 sample_calls) (n + 5))"
proof -
  have env: "id_env sample_deps = good_env" "work_dir sample_deps = ''/tmp/w''" "dk_path sample_disk = ''/dev/sda''"
    by (simp_all add: sample_deps_def work_dir_def or_else_def sample_disk_def)
  have cmds: "take 4 write_cmds @ take 4 (drop 4 write_cmds) @ take 2 (drop 8 write_cmds) @ drop 10 write_cmds = write_cmds"
    by (simp add: write_cmds_def)
  show ?thesis
    by (simp add: prepare_disk_def write_and_grow_def Let_def run_try_io run_stage env sample_run_steps log_line_def attempt_def
        cmds sample_calls_def add.commute)
qed

lemma sample_family: "\<exists>e. pick_os_installer (pr_family (is_profile sample_spec)) = Inl e"
  by (simp add: pick_os_installer_def os_installers_def sample_spec_def)

lemma sample_install_run:
  "\<exists>e n. run_state (run_install sample_deps sample_spec) (on_root [] [] 0) =
    (Inl e, on_root (write_cmds @ mount_cmds @ map (\<lambda>t. ([''umount'', t], True)) (rev sample_targets))
      (sample_calls @ [FailCall e]) n)"
proof -
  obtain e where e: "pick_os_installer (pr_family (is_profile sample_spec)) = Inl e" using sample_family by blast
  have env: "id_env sample_deps = good_env" "work_dir sample_deps = ''/tmp/w''"
    "join_text ''/tmp/w'' [''rootfs''] = ''/tmp/w/rootfs''"
    by (simp_all add: sample_deps_def work_dir_def or_else_def) code_simp
  show ?thesis
    by (simp add: run_install_def install_body_def fill_target_def Let_def run_try_io run_stage env sample_run_steps sample_prepare
        e attempt_def sample_calls_def) (rule exI, rule refl)
qed

subsection \<open>Writes only to the chosen disk\<close>

text \<open>C31: An installation writes only to the disk the profile selects from the listed ones, whatever the
  commands print and whichever of them fail. Every device operand of a command that changes a partition
  table, a file system, a boot loader or a boot entry, or writes the image, is that disk or a partition
  of it, or what \<open>createESPIfMissing\<close> takes for the parent of the disk (the disk itself, but for NVMe and
  MMC disks a device that does not exist). Every file system that is mounted, and so may be written
  through the target, is a partition of that disk, the EFI partition \<open>lsblk\<close> lists beside it, or one that
  the \<open>fstab\<close> of the root just mounted names by its path, its label or its UUID.\<close>
theorem only_picked_disk_is_written:
  assumes run: "run_state (run_install d spec) w = (r, w')"
    and cmd: "c \<in> set (drop (length (iw_cmds w)) (iw_cmds w'))"
  shows "(\<forall>a \<in> set (device_args (fst c)). target_device d spec a)
    \<and> (\<forall>a \<in> set (mount_args (fst c)). mountable_device d spec w a)"
proof -
  obtain x v where x: "run_state (install_body d spec) w = (x, v)" by fastforce
  have "iw_cmds w' = iw_cmds v"
    using run x by (auto simp: run_install_def attempt_def report_def split: sum.splits)
  then have tame: "tame (install_device d spec w) (fst c)"
    using install_acts [OF x] cmd by (auto simp: acts_def)
  have "hd (fst c) \<noteq> ''mount''" if "a \<in> set (device_args (fst c))" for a
    using that by (cases "fst c") (auto simp: disk_tools_def)
  moreover have "hd (fst c) = ''mount''" if "a \<in> set (mount_args (fst c))" for a
    using that by (auto simp: mount_args_def split: if_splits)
  ultimately show ?thesis using tame by (auto simp: tame_def install_device_def)
qed

theorem only_picked_disk_is_written_witness:
  "target_device sample_deps sample_spec ''/dev/sda1'' \<and> mountable_device sample_deps sample_spec (on_root [] [] 0) ''/dev/sda1''"
proof -
  obtain e n where run: "run_state (run_install sample_deps sample_spec) (on_root [] [] 0) =
    (Inl e, on_root (write_cmds @ mount_cmds @ map (\<lambda>t. ([''umount'', t], True)) (rev sample_targets))
      (sample_calls @ [FailCall e]) n)"
    using sample_install_run by blast
  have "target_device sample_deps sample_spec ''/dev/sda1''"
    using only_picked_disk_is_written [OF run, of "([''resize2fs'', ''/dev/sda1''], True)"]
    by (simp add: on_root_def write_cmds_def disk_tools_def)
  moreover have "mountable_device sample_deps sample_spec (on_root [] [] 0) ''/dev/sda1''"
    using only_picked_disk_is_written [OF run, of "([''mount'', ''/dev/sda1'', ''/tmp/w/rootfs''], True)"]
    by (simp add: on_root_def mount_cmds_def mount_args_def)
  ultimately show ?thesis by simp
qed

text \<open>
  A label is looked up on all disks: \<open>LABEL=BOOT\<close> of the new root brings in the boot partition of a disk
  that was left alone.
\<close>

lemma label_mounts_other_disk:
  "iw_cmds (snd (run_state (mount_from_fstab
      (good_env\<lparr>ie_exec := (\<lambda>w argv. (if hd argv = ''blkid'' then ''/dev/sdb1'' else [], None, iw_tree w))\<rparr>) ''/m'')
      \<lparr>iw_tree = [([''m''], DirNode), ([''m'', ''etc''], DirNode),
         ([''m'', ''etc'', ''fstab''], FileNode ''LABEL=BOOT /boot ext4 defaults 0 2'' 420)],
       iw_cmds = [], iw_calls = [], iw_ops = 0\<rparr>))
    = [([''blkid'', ''-L'', ''BOOT''], True), ([''mount'', ''/dev/sdb1'', ''/m/boot''], True)]"
  by code_simp

subsection \<open>Corrupt images\<close>

definition no_image :: "string list \<Rightarrow> bool" where
  "no_image argv \<longleftrightarrow> argv = [] \<or> hd argv \<noteq> ''qemu-img''"

lemma fine_no_image: "fine (\<lambda>p a. p \<noteq> ''qemu-img'') argv \<Longrightarrow> no_image argv"
  by (cases argv) (auto simp: fine_def no_image_def disk_tools_def)

lemma choose_disk_no_image: "state_io_rel (acts (\<lambda>_. True) no_image) (choose_disk d spec)"
  by (rule acts_mono [OF choose_disk_acts fine_no_image]) auto

lemma spool_fails: "fst (run_state (spool_image env p (Inl e)) w) \<noteq> Inr x"
  by (cases e) (auto simp: spool_image_def run_try_io split: prod.split sum.split)

lemma spool_acts: "state_io_rel (acts C P) (spool_image env p src)"
  unfolding spool_image_def by (intro cmds_intros)

lemma write_image_fails:
  "state_io_rel (acts C no_image) (write_image env work (Inl e) dev)"
  "fst (run_state (write_image env work (Inl e) dev) w) \<noteq> Inr x"
proof -
  show "state_io_rel (acts C no_image) (write_image env work (Inl e) dev)"
    unfolding write_image_def
    by (intro acts.rel_if acts.rel_return acts.rel_try [of _ _ "fs_mkdir_all _ _"] acts.rel_try_gives [OF spool_acts]
        fs_cmds_intros) (simp add: spool_fails)
  show "fst (run_state (write_image env work (Inl e) dev) w) \<noteq> Inr x"
    using spool_fails [of env "spool_path work" e]
    by (auto simp: write_image_def run_try_io split: prod.split sum.split) (metis fst_conv)
qed

text \<open>Whether the bytes that arrive end without an error and have the expected checksum.\<close>

definition image_arrives ::
  "(string \<Rightarrow> string) \<Rightarrow> (string \<Rightarrow> (string, nat \<times> string \<times> string option) result) \<Rightarrow> install_deps \<Rightarrow> install_spec \<Rightarrow> bool"
where
  "image_arrives sha256 get d spec \<longleftrightarrow>
    (case id_resolve d (id_base_url d) (is_blob_url spec) of
       Inl e \<Rightarrow> False
     | Inr url \<Rightarrow>
       (case get url of
          Inr (status, body, None) \<Rightarrow>
            status = 200 \<and> (lower_trim (is_sha256 spec) = [] \<or> sha256 body = lower_trim (is_sha256 spec))
        | _ \<Rightarrow> False))"

lemma corrupt_stream:
  assumes "id_stream d = http_stream sha256 get" "\<not> image_arrives sha256 get d spec"
    and "fst (run_state (open_image d spec) w) = Inr src"
  shows "\<exists>e. src = Inl e"
proof -
  from try_io_Inr [OF assms(3) [unfolded open_image_def stage_def Let_def]]
  obtain url v where url: "id_resolve d (id_base_url d) (is_blob_url spec) = Inr url"
    and "fst (run_state (try_io ''install: open image stream: '' (State_Monad.return (id_stream d url (is_sha256 spec)))
           (\<lambda>src. State_Monad.return (Inr src))) v) = Inr src"
    by (elim exE conjE try_io_pure) (auto dest!: bind_result simp del: run_state_bind)
  then have "http_stream sha256 get url (is_sha256 spec) = Inr src"
    using assms(1) by (auto elim!: try_io_pure)
  then show ?thesis using assms(2) url
    by (auto simp: http_stream_def image_arrives_def verify_stream_def split: sum.splits prod.splits option.splits if_splits)
qed

lemma corrupt_install:
  assumes "id_stream d = http_stream sha256 get" "\<not> image_arrives sha256 get d spec"
  shows "state_io_rel (acts (\<lambda>_. True) no_image) (run_install d spec)"
proof -
  have grow: "state_io_rel (acts (\<lambda>_. True) no_image) (write_and_grow d dev src boot)"
    "fst (run_state (write_and_grow d dev src boot) u) \<noteq> Inr g"
    if arrived: "fst (run_state (open_image d spec) w) = Inr src" for dev src boot w u g
  proof -
    obtain e where "src = Inl e" using corrupt_stream [OF assms arrived] by blast
    then show "state_io_rel (acts (\<lambda>_. True) no_image) (write_and_grow d dev src boot)"
      unfolding write_and_grow_def Let_def
      by (auto intro!: stage_acts acts.rel_try_gives [OF write_image_fails(1)] simp: write_image_fails(2))
    show "fst (run_state (write_and_grow d dev src boot) u) \<noteq> Inr g"
    proof
      assume "fst (run_state (write_and_grow d dev src boot) u) = Inr g"
      from try_io_Inr [OF this [unfolded write_and_grow_def stage_def Let_def]]
      obtain v x v' where "run_state (write_image (id_env d) (work_dir d) (Inl e) dev) v = (Inr x, v')"
        using \<open>src = Inl e\<close> by (elim exE conjE) (drule try_io_Inr, auto)
      then show False using write_image_fails(2) by (metis fst_conv)
    qed
  qed
  have prep: "state_io_rel (acts (\<lambda>_. True) no_image) (prepare_disk d spec)"
    unfolding prepare_disk_def Let_def
    by (intro stage_acts acts.rel_try loud [OF boot_mode_fine] acts.rel_bind acts.rel_log report_cmds
        choose_disk_no_image acts.rel_try_gives [OF open_image_acts] grow acts.rel_return) auto
  have fails: "fst (run_state (prepare_disk d spec) w) \<noteq> Inr y" for w y
  proof
    assume "fst (run_state (prepare_disk d spec) w) = Inr y"
    from try_io_Inr [OF this [unfolded prepare_disk_def stage_def Let_def]]
    show False
      by (elim exE conjE) ((drule try_io_Inr bind_result, clarify)+, metis grow(2) fst_conv)
  qed
  have "state_io_rel (acts (\<lambda>_. True) no_image) (install_body d spec)"
    unfolding install_body_def Let_def
    by (intro acts.rel_try [of _ _ "fs_mkdir_all _ _"] acts.rel_try_gives [OF prep] fs_cmds_intros) (simp add: fails)
  then show ?thesis
    unfolding run_install_def by (intro cmds_intros) simp_all
qed

text \<open>C32: An image is written only if it arrived whole with the checksum of the catalog: when the installer
  runs \<open>qemu-img\<close>, the response had status 200, its body ended without an error and its SHA-256 is the
  expected one, or none was expected.\<close>
theorem corrupt_image_never_written:
  assumes run: "run_state (run_install d spec) w = (r, w')"
    and stream: "id_stream d = http_stream sha256 get"
    and cmd: "(argv, ok) \<in> set (drop (length (iw_cmds w)) (iw_cmds w'))" "argv \<noteq> [] \<and> hd argv = ''qemu-img''"
  shows "image_arrives sha256 get d spec"
proof (rule ccontr)
  assume "\<not> image_arrives sha256 get d spec"
  then have "acts (\<lambda>_. True) no_image w w'"
    by (rule state_io_relD [OF corrupt_install [OF stream] run])
  then show False using cmd by (fastforce simp: acts_def no_image_def)
qed

theorem corrupt_image_never_written_witness:
  "image_arrives toy_sum (\<lambda>u. Inr (200, ''image'', None)) sample_deps sample_spec"
proof -
  obtain e n where "run_state (run_install sample_deps sample_spec) (on_root [] [] 0) =
    (Inl e, on_root (write_cmds @ mount_cmds @ map (\<lambda>t. ([''umount'', t], True)) (rev sample_targets))
      (sample_calls @ [FailCall e]) n)"
    using sample_install_run by blast
  then show ?thesis
    by (rule corrupt_image_never_written [where argv = "fst (write_cmds ! 4)" and ok = True])
      (auto simp: sample_deps_def on_root_def write_cmds_def)
qed

subsection \<open>The stages and the outcome\<close>

definition marks :: "report_call list \<Rightarrow> report_call list" where
  "marks cs = filter (\<lambda>c. \<not> log_only c) cs"

text \<open>
  A program that reports the calls of a list in order, all of them when it succeeds and an initial part
  when it fails, with log lines in between.
\<close>

definition reports :: "(string, 'a) result io \<Rightarrow> report_call list \<Rightarrow> bool" where
  "reports m ss \<longleftrightarrow>
    (\<forall>w r w'. run_state m w = (r, w') \<longrightarrow>
      (\<exists>cs k. iw_calls w' = iw_calls w @ cs \<and> marks cs = take k ss \<and> (isl r \<or> length ss \<le> k)))"

lemma reportsD:
  assumes "reports m ss" "run_state m w = (r, w')"
  obtains cs k where "iw_calls w' = iw_calls w @ cs" "marks cs = take k ss" "isl r \<or> length ss \<le> k"
  using assms unfolding reports_def by blast

lemma marks_append [simp]: "marks (xs @ ys) = marks xs @ marks ys"
  by (simp add: marks_def)

lemma quiet_marks: "acts log_only P w w' \<Longrightarrow> \<exists>cs. iw_calls w' = iw_calls w @ cs \<and> marks cs = []"
  by (auto simp: acts_def marks_def filter_empty_conv)

lemma reports_quiet: "state_io_rel (acts log_only P) m \<Longrightarrow> reports m []"
  unfolding reports_def by (auto dest!: state_io_relD quiet_marks)

lemma reports_bind:
  assumes "state_io_rel (acts log_only P) m" "\<And>x. reports (k x) ss"
  shows "reports (m \<bind> k) ss"
  unfolding reports_def
proof (intro allI impI)
  fix w r w' assume run: "run_state (m \<bind> k) w = (r, w')"
  obtain x v where m: "run_state m w = (x, v)" by fastforce
  obtain cs where cs: "iw_calls v = iw_calls w @ cs" "marks cs = []"
    using quiet_marks [OF state_io_relD [OF assms(1) m]] by blast
  have "run_state (k x) v = (r, w')" using run m by simp
  then obtain cs2 j where "iw_calls w' = iw_calls v @ cs2" "marks cs2 = take j ss" "isl r \<or> length ss \<le> j"
    using reportsD [OF assms(2)] by metis
  then show "\<exists>cs k. iw_calls w' = iw_calls w @ cs \<and> marks cs = take k ss \<and> (isl r \<or> length ss \<le> k)"
    using cs by (intro exI [of _ "cs @ cs2"] exI [of _ j]) simp
qed

lemma reports_try:
  assumes "reports m ss" "\<And>x. reports (k x) ts"
  shows "reports (try_io pre m k) (ss @ ts)"
  unfolding reports_def
proof (intro allI impI)
  fix w r w' assume run: "run_state (try_io pre m k) w = (r, w')"
  obtain x v where m: "run_state m w = (x, v)" by fastforce
  obtain cs j where cs: "iw_calls v = iw_calls w @ cs" "marks cs = take j ss" "isl x \<or> length ss \<le> j"
    by (rule reportsD [OF assms(1) m])
  show "\<exists>cs k. iw_calls w' = iw_calls w @ cs \<and> marks cs = take k (ss @ ts) \<and> (isl r \<or> length (ss @ ts) \<le> k)"
  proof (cases x)
    case (Inl e)
    then show ?thesis using run m cs
      by (intro exI [of _ cs] exI [of _ "min j (length ss)"]) (auto simp: run_try_io min_def)
  next
    case (Inr y)
    then have "run_state (k y) v = (r, w')" using run m by (simp add: run_try_io)
    then obtain cs2 i where "iw_calls w' = iw_calls v @ cs2" "marks cs2 = take i ts" "isl r \<or> length ts \<le> i"
      using reportsD [OF assms(2)] by metis
    then show ?thesis using cs Inr
      by (intro exI [of _ "cs @ cs2"] exI [of _ "length ss + i"]) auto
  qed
qed

lemma reports_call: "\<not> log_only c \<Longrightarrow> reports (do { r \<leftarrow> report env c; State_Monad.return (call_result r) }) [c]"
  unfolding reports_def
  by (auto simp: report_def marks_def call_result_def intro!: exI [of _ 1] split: option.splits)

lemma reports_stage:
  assumes "reports m ss"
  shows "reports (stage env s m) (StageCall s # ss)"
proof -
  have "reports (stage env s m) ([StageCall s] @ ss)"
    unfolding stage_def by (intro reports_try reports_call assms) (simp add: log_only_def)
  then show ?thesis by simp
qed

lemma reports_return: "reports (State_Monad.return r) []"
  by (simp add: reports_def marks_def)

text \<open>The phases.\<close>

abbreviation anything :: "string \<Rightarrow> string \<Rightarrow> bool" where
  "anything \<equiv> \<lambda>p a. True"

lemma choose_disk_reports: "reports (choose_disk d spec) [StageCall ''disk-pick'']"
  unfolding choose_disk_def Let_def
  by (intro reports_stage reports_quiet [where P = "fine anything"] cmds_intros wipe_fine) simp

lemma open_image_reports: "reports (open_image d spec) [StageCall ''download'']"
  unfolding open_image_def Let_def
  by (intro reports_stage reports_quiet [where P = "fine anything"] cmds_intros)

lemma write_and_grow_reports: "reports (write_and_grow d dev src boot) (map StageCall [''write'', ''grow''])"
proof -
  have "reports (write_image env work src dev) []" "reports (create_esp_if_missing env dev [] boot) []"
    "reports (grow_last_partition env dev) []" for env work
    by (intro reports_quiet [OF write_image_fine [where okdev = anything]] reports_quiet [OF create_esp_fine [where okdev = anything]]
        reports_quiet [OF grow_fine [where okdev = anything]]; simp)+
  then have "reports (write_and_grow d dev src boot) (StageCall ''write'' # [] @ [] @ StageCall ''grow'' # [])"
    unfolding write_and_grow_def Let_def by (intro reports_stage reports_try)
  then show ?thesis by simp
qed

lemma prepare_disk_reports: "reports (prepare_disk d spec) (map StageCall (take 5 stage_names))"
proof -
  have "reports (prepare_disk d spec)
      (StageCall ''boot-detect'' # [] @ [StageCall ''disk-pick''] @ [StageCall ''download''] @ map StageCall [''write'', ''grow''] @ [])"
    unfolding prepare_disk_def Let_def
    by (intro reports_stage reports_try choose_disk_reports open_image_reports write_and_grow_reports reports_return
        reports_quiet [OF boot_mode_fine] reports_bind [OF acts.rel_log [OF report_cmds]]) simp
  then show ?thesis by (simp add: stage_names_def)
qed

lemma fill_target_reports: "reports (fill_target d spec dk g boot root esp) (map StageCall (drop 6 stage_names))"
proof -
  have q: "state_io_rel (acts log_only (fine anything)) (os_install_bootloader f env spec root dev esp)" for f env dev
    by (rule bootloader_fine) simp
  have "reports (fill_target d spec dk g boot root esp)
      ([] @ StageCall ''seed'' # [] @ [] @ StageCall ''agent-implant'' # [] @ StageCall ''grub-install'' # [] @ [StageCall ''umount''])"
    unfolding fill_target_def Let_def
    by (intro reports_stage reports_try reports_return reports_bind [where P = "fine anything"] acts.rel_when prune_fine reports_quiet [OF q]
        reports_quiet [OF seed_fine] reports_quiet [where P = "fine anything"] acts.rel_if implant_fine acts.rel_return acts.rel_try_cmd
        run_cmds) (simp_all add: fine_eval)
  then show ?thesis by (simp add: stage_names_def)
qed

lemma mount_target_reports: "reports (mount_target env part root) []"
  by (rule reports_quiet [OF mount_target_tame [where okdev = anything]]) simp

text \<open>The part of \<open>Run\<close> after the mount: the target is filled, then the mounts are undone.\<close>

definition unmount_after :: "inst_env \<Rightarrow> string list \<Rightarrow> (string, unit) result io \<Rightarrow> (string, unit) result io" where
  "unmount_after env mounted m =
    do {
      r \<leftarrow> m;
      c \<leftarrow> (case r of Inl e \<Rightarrow> State_Monad.return (Inl e) | Inr _ \<Rightarrow> cleanup env mounted);
      case c of
        Inl e \<Rightarrow> do { _ \<leftarrow> cleanup env mounted; State_Monad.return (Inl e) }
      | Inr _ \<Rightarrow> do { s \<leftarrow> report env SucceedCall; State_Monad.return (call_result s) }
    }"

lemma install_body_eq:
  "install_body d spec =
    (let env = id_env d; root = join_text (work_dir d) [''rootfs''] in
     try_io (''install: prepare workdir '' @ work_dir d @ '': '') (fs_mkdir_all env (abs_path (work_dir d))) (\<lambda>_.
     try_io [] (prepare_disk d spec) (\<lambda>(dk, g, boot).
     stage env ''mount'' (
       try_io [] (mount_target env (gr_part g) root) (\<lambda>(esp, mounted).
         unmount_after env mounted (fill_target d spec dk g boot root esp))))))"
  by (simp add: install_body_def unmount_after_def Let_def)

lemma unmount_after_try:
  "unmount_after env mounted m =
    do {
      r \<leftarrow> try_io [] m (\<lambda>_. cleanup env mounted);
      case r of
        Inl e \<Rightarrow> do { _ \<leftarrow> cleanup env mounted; State_Monad.return (Inl e) }
      | Inr _ \<Rightarrow> do { s \<leftarrow> report env SucceedCall; State_Monad.return (call_result s) }
    }"
proof -
  have "(case (case r of Inl e \<Rightarrow> State_Monad.return (Inl e) | Inr _ \<Rightarrow> m2) of x \<Rightarrow> x) =
    (case r of Inl e \<Rightarrow> State_Monad.return (Inl ([] @ e)) | Inr _ \<Rightarrow> m2)" for r :: "(string, unit) result" and m2 :: "(string, unit) result io"
    by (cases r) simp_all
  then show ?thesis by (simp add: unmount_after_def try_io_def State_Monad.bind_assoc)
qed

lemma reports_unmount:
  assumes "reports m ss"
  shows "reports (unmount_after env mounted m) (ss @ [SucceedCall])"
  unfolding reports_def
proof (intro allI impI)
  fix w r w' assume run: "run_state (unmount_after env mounted m) w = (r, w')"
  have quiet: "state_io_rel (acts log_only (tame anything)) (cleanup env mounted)"
    by (rule cleanup_tame)
  have "reports (try_io [] m (\<lambda>_. cleanup env mounted)) (ss @ [])"
    by (intro reports_try assms reports_quiet [OF quiet])
  moreover obtain c v where c: "run_state (try_io [] m (\<lambda>_. cleanup env mounted)) w = (c, v)" by fastforce
  ultimately obtain cs k where cs: "iw_calls v = iw_calls w @ cs" "marks cs = take k (ss @ [])" "isl c \<or> length (ss @ []) \<le> k"
    using reportsD by metis
  show "\<exists>cs k. iw_calls w' = iw_calls w @ cs \<and> marks cs = take k (ss @ [SucceedCall])
      \<and> (isl r \<or> length (ss @ [SucceedCall]) \<le> k)"
  proof (cases c)
    case (Inl e)
    then obtain x where "run_state (cleanup env mounted) v = (x, w')" and r: "r = Inl e"
      using run c by (auto simp: unmount_after_try split: prod.splits)
    then obtain cs2 where "iw_calls w' = iw_calls v @ cs2" "marks cs2 = []"
      using quiet_marks [OF state_io_relD [OF quiet]] by blast
    then show ?thesis using cs r
      by (intro exI [of _ "cs @ cs2"] exI [of _ "min k (length ss)"]) (auto simp: min_def)
  next
    case (Inr u)
    then have "run_state (do { s \<leftarrow> report env SucceedCall; State_Monad.return (call_result s) }) v = (r, w')"
      using run c by (simp add: unmount_after_try)
    then show ?thesis using cs Inr
      by (intro exI [of _ "cs @ [SucceedCall]"] exI [of _ "Suc (length ss)"])
        (auto simp: report_def marks_def log_only_def)
  qed
qed

lemma install_body_reports: "reports (install_body d spec) (map StageCall stage_names @ [SucceedCall])"
proof -
  have q: "reports (fs_mkdir_all env p) []" for env p
    by (rule reports_quiet [where P = "\<lambda>_. True"]) (intro cmds_intros)
  have "reports (install_body d spec)
      ([] @ map StageCall (take 5 stage_names) @ StageCall ''mount'' # ([] @ (map StageCall (drop 6 stage_names) @ [SucceedCall])))"
    unfolding install_body_eq Let_def case_prod_unfold
    by (intro reports_try q prepare_disk_reports reports_stage mount_target_reports reports_unmount fill_target_reports)
  then show ?thesis by (simp add: stage_names_def)
qed

text \<open>C33: The controller is told the stages of an installation in their order, without a gap, and then the
  outcome: success exactly when \<open>Run\<close> returns without an error, after all ten stages; otherwise the
  failure with the returned error, once, after an initial part of the stages. Only when the call that
  reports the success itself fails does a failure follow it.\<close>
theorem install_reports_outcome:
  "case run_state (run_install d spec) w of (r, w') \<Rightarrow>
    (\<exists>cs k. iw_calls w' = iw_calls w @ cs
      \<and> (case r of
           Inr _ \<Rightarrow> marks cs = map StageCall stage_names @ [SucceedCall]
         | Inl e \<Rightarrow> marks cs = map StageCall (take k stage_names) @ [FailCall e]
             \<or> marks cs = map StageCall stage_names @ [SucceedCall, FailCall e]))"
proof -
  obtain r v where b: "run_state (install_body d spec) w = (r, v)" by fastforce
  obtain cs k where cs: "iw_calls v = iw_calls w @ cs" "marks cs = take k (map StageCall stage_names @ [SucceedCall])"
    "isl r \<or> length (map StageCall stage_names @ [SucceedCall]) \<le> k"
    by (rule reportsD [OF install_body_reports b])
  show ?thesis
  proof (cases r)
    case (Inr u)
    then show ?thesis using b cs by (auto simp: run_install_def)
  next
    case (Inl e)
    have "marks cs = map StageCall (take k stage_names) \<or> marks cs = map StageCall stage_names @ [SucceedCall]"
      using cs(2) by (cases "k - length stage_names") (auto simp: take_map)
    then show ?thesis using b cs(1) Inl
      by (auto simp: run_install_def attempt_def report_def marks_def log_only_def)
  qed
qed

subsection \<open>Mounts\<close>

text \<open>The targets of the mounts that succeeded, in order.\<close>

definition mounted_by :: "(string list \<times> bool) list \<Rightarrow> string list" where
  "mounted_by cs = concat (map (\<lambda>(argv, ok). if ok \<and> argv \<noteq> [] \<and> hd argv = ''mount'' then [last argv] else []) cs)"

lemma mounted_by_append [simp]: "mounted_by (xs @ ys) = mounted_by xs @ mounted_by ys"
  by (simp add: mounted_by_def)

lemma mounted_by_umounts [simp]: "mounted_by (map (\<lambda>t. ([''umount'', t], f t)) ts) = []"
  by (simp add: mounted_by_def)

lemma fine_mounts_nothing: "acts C (fine okdev) w w' \<Longrightarrow> \<exists>cs. iw_cmds w' = iw_cmds w @ cs \<and> mounted_by cs = []"
  unfolding acts_def mounted_by_def by (elim exE conjE) (auto simp: fine_def)

text \<open>A program whose result holds the targets mounted before it and by it.\<close>

definition adds :: "string list \<Rightarrow> 'a io \<Rightarrow> ('a \<Rightarrow> string list option) \<Rightarrow> bool" where
  "adds ms m f \<longleftrightarrow>
    (\<forall>w r w' ts. run_state m w = (r, w') \<longrightarrow> f r = Some ts \<longrightarrow>
      (\<exists>cs. iw_cmds w' = iw_cmds w @ cs \<and> ts = ms @ mounted_by cs))"

lemma addsI:
  assumes "\<And>w r w' ts. run_state m w = (r, w') \<Longrightarrow> f r = Some ts \<Longrightarrow>
    \<exists>cs. iw_cmds w' = iw_cmds w @ cs \<and> ts = ms @ mounted_by cs"
  shows "adds ms m f"
  using assms unfolding adds_def by blast

lemma addsD:
  assumes "adds ms m f" "run_state m w = (r, w')" "f r = Some ts"
  obtains cs where "iw_cmds w' = iw_cmds w @ cs" "ts = ms @ mounted_by cs"
  using assms unfolding adds_def by blast

lemma adds_return: "f x = Some ms \<or> f x = None \<Longrightarrow> adds ms (State_Monad.return x) f"
  by (auto simp: adds_def mounted_by_def)

lemma adds_bind:
  assumes "\<And>w x v. run_state m w = (x, v) \<Longrightarrow>
    \<exists>cs. iw_cmds v = iw_cmds w @ cs \<and> adds (ms @ mounted_by cs) (k x) f"
  shows "adds ms (m \<bind> k) f"
proof (rule addsI)
  fix w r w' ts assume run: "run_state (m \<bind> k) w = (r, w')" and ts: "f r = Some ts"
  obtain x v where x: "run_state m w = (x, v)" by fastforce
  obtain cs where cs: "iw_cmds v = iw_cmds w @ cs" "adds (ms @ mounted_by cs) (k x) f" using assms [OF x] by blast
  have "run_state (k x) v = (r, w')" using run x by simp
  then obtain cs2 where "iw_cmds w' = iw_cmds v @ cs2" "ts = (ms @ mounted_by cs) @ mounted_by cs2"
    by (rule addsD [OF cs(2) _ ts])
  then show "\<exists>cs. iw_cmds w' = iw_cmds w @ cs \<and> ts = ms @ mounted_by cs" using cs(1)
    by (intro exI [of _ "cs @ cs2"]) simp
qed

lemma adds_bind_fine:
  assumes "state_io_rel (acts C (fine okdev)) m" "\<And>x. adds ms (k x) f"
  shows "adds ms (m \<bind> k) f"
proof (rule adds_bind)
  fix w x v assume "run_state m w = (x, v)"
  then show "\<exists>cs. iw_cmds v = iw_cmds w @ cs \<and> adds (ms @ mounted_by cs) (k x) f"
    using fine_mounts_nothing [OF state_io_relD [OF assms(1)]] assms(2) by fastforce
qed

lemma adds_bind_mount:
  assumes "args \<noteq> []" "\<And>x. adds (if snd x = None then ms @ [last args] else ms) (k x) f"
  shows "adds ms (run_cmd env (''mount'' # args) \<bind> k) f"
proof (rule adds_bind)
  fix w x v assume run: "run_state (run_cmd env (''mount'' # args)) w = (x, v)"
  then have "iw_cmds v = iw_cmds w @ [(''mount'' # args, snd x = None)]"
    by (auto simp: run_cmd_def split: prod.splits)
  moreover have "mounted_by [(''mount'' # args, snd x = None)] = (if snd x = None then [last args] else [])"
    using assms(1) by (simp add: mounted_by_def)
  ultimately show "\<exists>cs. iw_cmds v = iw_cmds w @ cs \<and> adds (ms @ mounted_by cs) (k x) f"
    using assms(2) [of x] by (intro exI conjI) (auto split: if_splits)
qed

lemma adds_sum:
  "(\<And>e. adds ms (g e) f) \<Longrightarrow> (\<And>x. adds ms (h x) f) \<Longrightarrow> adds ms (case r of Inl e \<Rightarrow> g e | Inr x \<Rightarrow> h x) f"
  by (cases r) auto

lemma adds_if: "adds ms m f \<Longrightarrow> adds ms n f \<Longrightarrow> adds ms (if b then m else n) f"
  by simp

text \<open>A result that counts only without an error.\<close>

definition ok_only :: "('a \<Rightarrow> string list) \<Rightarrow> (string, 'a) result \<Rightarrow> string list option" where
  "ok_only f r = (case r of Inl e \<Rightarrow> None | Inr x \<Rightarrow> Some (f x))"

lemma ok_only_simps [simp]: "ok_only f (Inl e) = None" "ok_only f (Inr x) = Some (f x)"
  by (simp_all add: ok_only_def)

lemma adds_try:
  assumes "state_io_rel (acts C (fine okdev)) m" "\<And>x. adds ms (k x) (ok_only f)"
  shows "adds ms (try_io pre m k) (ok_only f)"
  unfolding try_io_def by (intro adds_bind_fine [OF assms(1)] adds_sum adds_return assms(2)) simp

lemma adds_undo:
  assumes "adds ms (try_io pre m k) (ok_only f)"
  shows "adds ms (undo_on_error env us pre m k) (ok_only f)"
proof (rule addsI)
  fix w r w' ts assume run: "run_state (undo_on_error env us pre m k) w = (r, w')" and ts: "ok_only f r = Some ts"
  then have "run_state (try_io pre m k) w = (r, w')"
    by (auto simp: undo_on_error_def try_io_def split: prod.splits sum.splits)
  then show "\<exists>cs. iw_cmds w' = iw_cmds w @ cs \<and> ts = ms @ mounted_by cs"
    using addsD [OF assms _ ts] by metis
qed

lemma adds_try_mount:
  assumes "args \<noteq> []" "\<And>x. adds (ms @ [last args]) (k x) (ok_only f)"
  shows "adds ms (try_io pre (try_cmd env (''mount'' # args)) k) (ok_only f)"
proof -
  have "try_io pre (try_cmd env (''mount'' # args)) k = run_cmd env (''mount'' # args) \<bind>
      (\<lambda>r. case cmd_result r of Inl e \<Rightarrow> State_Monad.return (Inl (pre @ e)) | Inr x \<Rightarrow> k x)"
    by (simp add: try_io_def try_cmd_def)
  moreover have "adds ms \<dots> (ok_only f)"
    by (rule adds_bind_mount [OF assms(1)])
      (auto simp: cmd_result_def intro!: adds_return assms(2) split: prod.split option.split)
  ultimately show ?thesis by simp
qed

lemma adds_try_adds:
  assumes "adds ms m (ok_only f)" "\<And>x. adds (f x) (k x) (ok_only g)"
  shows "adds ms (try_io pre m k) (ok_only g)"
proof (rule addsI)
  fix w r w' ts assume run: "run_state (try_io pre m k) w = (r, w')" and ts: "ok_only g r = Some ts"
  obtain x v where m: "run_state m w = (x, v)" by fastforce
  with run ts obtain y where y: "x = Inr y" "run_state (k y) v = (r, w')"
    by (cases x) (auto simp: run_try_io)
  obtain cs where "iw_cmds v = iw_cmds w @ cs" "f y = ms @ mounted_by cs"
    by (rule addsD [OF assms(1) m]) (simp add: y)
  moreover obtain cs2 where "iw_cmds w' = iw_cmds v @ cs2" "ts = f y @ mounted_by cs2"
    by (rule addsD [OF assms(2) y(2) ts])
  ultimately show "\<exists>cs. iw_cmds w' = iw_cmds w @ cs \<and> ts = ms @ mounted_by cs"
    by (intro exI [of _ "cs @ cs2"]) simp
qed

lemma mount_entries_adds:
  "adds ms (mount_entries env root ms esp es) (\<lambda>(ts, r). if isl r then None else Some ts)"
proof (induction es arbitrary: ms esp)
  case Nil
  then show ?case by (simp add: adds_return)
next
  case (Cons e es)
  obtain source target where e: "e = (source, target)" by fastforce
  have mk: "state_io_rel (acts log_only (fine anything)) (fs_mkdir_all env p)" for p
    by (intro cmds_intros)
  have step: "adds ms (run_cmd env [''mount'', d, t] \<bind> (\<lambda>r. case snd r of
        Some e \<Rightarrow> State_Monad.return (ms, Inl (x e))
      | None \<Rightarrow> mount_entries env root (ms @ [t]) (esp' r) es)) (\<lambda>(ts, r). if isl r then None else Some ts)" for d t x esp'
    by (rule adds_bind_mount) (auto intro!: adds_return Cons.IH split: option.split)
  show ?case
    unfolding e mount_entries.simps(2) Let_def
    by (intro adds_bind_fine [OF fstab_source_fine [where okdev = anything]])
      (auto intro!: Cons.IH adds_bind_fine [OF mk] adds_sum adds_return step)
qed

lemma bind_mounts_adds: "adds ms (bind_mounts env root ms subs) (ok_only id)"
proof (induction subs arbitrary: ms)
  case (Cons sub subs)
  have mk: "state_io_rel (acts log_only (fine anything)) (fs_mkdir_all env p)" for p
    by (intro cmds_intros)
  show ?case
    unfolding bind_mounts.simps(2) Let_def using Cons.IH
    by (intro adds_undo adds_try [OF mk] adds_try_mount) simp_all
qed (simp add: adds_return)

lemma mount_esp_adds: "adds ms (mount_esp env part root ms fstab) (ok_only snd)"
proof -
  have mk: "state_io_rel (acts log_only (fine anything)) (fs_mkdir_all env p)" for p
    by (intro cmds_intros)
  show ?thesis
    unfolding mount_esp_def Let_def
    by (auto intro!: adds_undo adds_try [OF mk] adds_try [OF find_esp_fine [where okdev = anything]] adds_try_mount adds_return)
qed

lemma adds_bind_adds:
  assumes "adds [] m f" "\<And>x ts. f x = Some ts \<Longrightarrow> adds (ms @ ts) (k x) g"
    and "\<And>x w. f x = None \<Longrightarrow> g (fst (run_state (k x) w)) = None"
  shows "adds ms (m \<bind> k) g"
proof (rule addsI)
  fix w r w' ts assume run: "run_state (m \<bind> k) w = (r, w')" and ts: "g r = Some ts"
  obtain x v where m: "run_state m w = (x, v)" by fastforce
  have k: "run_state (k x) v = (r, w')" using run m by simp
  then obtain us where us: "f x = Some us" using ts assms(3) [of x v] by (cases "f x") auto
  obtain cs where "iw_cmds v = iw_cmds w @ cs" "us = [] @ mounted_by cs" by (rule addsD [OF assms(1) m us])
  moreover obtain cs2 where "iw_cmds w' = iw_cmds v @ cs2" "ts = (ms @ us) @ mounted_by cs2"
    by (rule addsD [OF assms(2) [OF us] k ts])
  ultimately show "\<exists>cs. iw_cmds w' = iw_cmds w @ cs \<and> ts = ms @ mounted_by cs"
    by (intro exI [of _ "cs @ cs2"]) simp
qed

lemma mount_efivars_adds: "adds ms (do { all \<leftarrow> mount_efivars env root esp ms; State_Monad.return (Inr (esp, all)) }) (ok_only snd)"
proof (cases "esp = []")
  case False
  then show ?thesis
    by (simp add: mount_efivars_def Let_def) (rule adds_bind_mount, auto intro!: adds_return)
qed (simp add: mount_efivars_def adds_return)

lemma mount_from_fstab_adds: "adds [] (mount_from_fstab env root) (\<lambda>(ts, r). if isl r then None else Some ts)"
proof -
  have rd: "state_io_rel (acts log_only (fine anything)) (fs_read env p)" for p
    by (intro cmds_intros)
  show ?thesis
    unfolding mount_from_fstab_def by (intro adds_bind_fine [OF rd] adds_sum mount_entries_adds adds_return) simp
qed

lemma mount_target_adds: "adds [] (mount_target env part root) (ok_only snd)"
proof -
  have mk: "state_io_rel (acts log_only (fine anything)) (fs_mkdir_all env p)" for p
    by (intro cmds_intros)
  have rest: "adds ms (try_io [] (mount_esp env part root ms esp0) (\<lambda>(esp, mounted).
      try_io [] (bind_mounts env root mounted subs) (\<lambda>mounted2.
      do { all \<leftarrow> mount_efivars env root esp mounted2; State_Monad.return (Inr (esp, all)) }))) (ok_only snd)" for ms esp0 subs
    by (intro adds_try_adds [OF mount_esp_adds]) (auto intro!: adds_try_adds [OF bind_mounts_adds] mount_efivars_adds)
  have fstab: "adds ([] @ [last [part, root]]) (mount_from_fstab env root \<bind> (\<lambda>(ms, r). case r of
        Inl e \<Rightarrow> rollback env [root] \<bind> (\<lambda>_. State_Monad.return (Inl e))
      | Inr esp0 \<Rightarrow> try_io [] (mount_esp env part root ([root] @ ms) esp0) (\<lambda>(esp, mounted).
        try_io [] (bind_mounts env root mounted subs) (\<lambda>mounted2.
        do { all \<leftarrow> mount_efivars env root esp mounted2; State_Monad.return (Inr (esp, all)) })))) (ok_only snd)" for subs
    using rest
    by (intro adds_bind_adds [OF mount_from_fstab_adds])
      (auto split: if_splits sum.splits prod.splits)
  show ?thesis
    unfolding mount_target_def
    by (intro adds_if adds_try [OF mk] adds_try_mount fstab) (simp_all add: adds_return)
qed

text \<open>A cleanup runs \<open>umount\<close> on every target, the last mounted first; a success means that each of them succeeded.\<close>

lemma cleanup_cmds:
  assumes "run_state (cleanup env ms) w = (r, w')"
  obtains us where "iw_cmds w' = iw_cmds w @ us" "map fst us = map (\<lambda>t. [''umount'', t]) (rev ms)"
    "isl r \<or> (\<forall>u \<in> set us. snd u)"
proof -
  have "\<exists>us. iw_cmds w' = iw_cmds w @ us \<and> map fst us = map (\<lambda>t. [''umount'', t]) ts \<and> (isl r \<or> (\<forall>u \<in> set us. snd u))"
    if "run_state (umount_all env ts) w = (r, w')" for ts
    using that
  proof (induction ts arbitrary: w r)
    case Nil
    then show ?case by (auto intro: exI [of _ "[]"])
  next
    case (Cons t ts)
    obtain x v where x: "run_state (run_cmd env [''umount'', t]) w = (x, v)" by fastforce
    obtain y u where y: "run_state (umount_all env ts) v = (y, u)" by fastforce
    have u: "u = w'" and r: "isl r \<longleftrightarrow> snd x \<noteq> None \<or> isl y"
      using Cons.prems x y by (auto split: option.splits)
    have v: "iw_cmds v = iw_cmds w @ [([''umount'', t], snd x = None)]"
      using x by (auto simp: run_cmd_def split: prod.splits)
    obtain us where "iw_cmds w' = iw_cmds v @ us" "map fst us = map (\<lambda>t. [''umount'', t]) ts" "isl y \<or> (\<forall>u \<in> set us. snd u)"
      using Cons.IH [of v y] y u by blast
    then show ?case using v r by (intro exI [of _ "([''umount'', t], snd x = None) # us"]) auto
  qed
  then show thesis using assms that unfolding cleanup_def by blast
qed

lemma fill_target_mounts_nothing:
  assumes "run_state (fill_target d spec dk g boot root esp) w = (r, w')"
  obtains cs where "iw_cmds w' = iw_cmds w @ cs" "mounted_by cs = []"
proof -
  have "acts (\<lambda>_. True) (fine anything) w w'"
    by (rule state_io_relD [OF fill_target_acts assms]) simp
  then show thesis using that fine_mounts_nothing by blast
qed

lemma run_unmount_after:
  assumes "run_state (unmount_after env ms m) w = (r, w')" "run_state m w = (x, v)"
  obtains (error) e y where "x = Inl e" "r = Inl e" "run_state (cleanup env ms) v = (y, w')"
  | (again) u e y where "run_state (cleanup env ms) v = (Inl e, u)" "r = Inl e" "run_state (cleanup env ms) u = (y, w')"
  | (finished) u where "run_state (cleanup env ms) v = (Inr (), u)" "iw_cmds w' = iw_cmds u"
  using assms
  by (cases "run_state (cleanup env ms) v"; cases "fst (run_state (cleanup env ms) v)"; cases x)
    (auto simp: unmount_after_def report_def split: prod.splits)

lemma unmount_after_cmds:
  assumes "run_state (unmount_after env ms (fill_target d spec dk g boot root esp)) w = (r, w')"
  shows "\<exists>cs us. iw_cmds w' = iw_cmds w @ cs @ us \<and> mounted_by cs = []
    \<and> map fst us = map (\<lambda>t. [''umount'', t]) (rev ms) \<and> (isl r \<or> (\<forall>u \<in> set us. snd u))"
proof -
  obtain x v where x: "run_state (fill_target d spec dk g boot root esp) w = (x, v)" by fastforce
  obtain cs where cs: "iw_cmds v = iw_cmds w @ cs" "mounted_by cs = []"
    by (rule fill_target_mounts_nothing [OF x])
  have umounts: "mounted_by us = []" if "map fst us = map (\<lambda>t. [''umount'', t]) ts" for us ts
  proof -
    have "hd argv = ''umount''" if "argv \<in> set (map fst us)" for argv
      using that unfolding \<open>map fst us = _\<close> by auto
    then show ?thesis by (force simp: mounted_by_def)
  qed
  show ?thesis
    using assms x
  proof (cases rule: run_unmount_after)
    case (error e y)
    obtain us where "iw_cmds w' = iw_cmds v @ us" "map fst us = map (\<lambda>t. [''umount'', t]) (rev ms)"
      by (rule cleanup_cmds [OF error(3)])
    then show ?thesis using cs error(2) by (intro exI [of _ cs] exI [of _ us]) simp
  next
    case (again u e y)
    obtain us0 where "iw_cmds u = iw_cmds v @ us0" "map fst us0 = map (\<lambda>t. [''umount'', t]) (rev ms)"
      by (rule cleanup_cmds [OF again(1)])
    moreover obtain us where "iw_cmds w' = iw_cmds u @ us" "map fst us = map (\<lambda>t. [''umount'', t]) (rev ms)"
      by (rule cleanup_cmds [OF again(3)])
    ultimately show ?thesis using cs again(2) umounts [of us0] by (intro exI [of _ "cs @ us0"] exI [of _ us]) simp
  next
    case (finished u)
    obtain us where "iw_cmds u = iw_cmds v @ us" "map fst us = map (\<lambda>t. [''umount'', t]) (rev ms)"
      "isl (Inr () :: (string, unit) result) \<or> (\<forall>u \<in> set us. snd u)"
      by (rule cleanup_cmds [OF finished(1)])
    then show ?thesis using cs finished(2) by (intro exI [of _ cs] exI [of _ us]) simp
  qed
qed

lemma reports_no_seed:
  assumes "reports m ss" "run_state m w = (r, w')" "StageCall ''seed'' \<notin> set ss"
  shows "\<exists>cs. iw_calls w' = iw_calls w @ cs \<and> StageCall ''seed'' \<notin> set cs"
proof -
  obtain cs k where "iw_calls w' = iw_calls w @ cs" and k: "marks cs = take k ss"
    by (rule reportsD [OF assms(1,2)])
  moreover have "StageCall ''seed'' \<notin> set (marks cs)"
    unfolding k using assms(3) by (auto dest: in_set_takeD)
  moreover have "StageCall ''seed'' \<in> set (marks cs) \<longleftrightarrow> StageCall ''seed'' \<in> set cs"
    by (simp add: marks_def log_only_def)
  ultimately show ?thesis by auto
qed

text \<open>The run up to the point where the target is filled, when it gets there.\<close>

lemma reaches_seed:
  assumes run: "run_state (install_body d spec) w = (r, w')"
    and seed: "StageCall ''seed'' \<in> set (drop (length (iw_calls w)) (iw_calls w'))"
  obtains dk g boot esp ms v cs where
    "run_state (unmount_after (id_env d) ms (fill_target d spec dk g boot (join_text (work_dir d) [''rootfs'']) esp)) v = (r, w')"
    "iw_cmds v = iw_cmds w @ cs" "mounted_by cs = ms"
proof -
  let ?env = "id_env d" and ?root = "join_text (work_dir d) [''rootfs'']"
  have q: "reports (fs_mkdir_all env p) []" for env p
    by (rule reports_quiet [where P = "\<lambda>_. True"]) (intro cmds_intros)
  obtain x1 w1 where 1: "run_state (fs_mkdir_all ?env (abs_path (work_dir d))) w = (x1, w1)" by fastforce
  have c1: "iw_cmds w1 = iw_cmds w"
    using 1 by (auto simp: fs_mkdir_all_def fs_op_def Let_def split: option.splits sum.splits)
  obtain r1 where r1: "iw_calls w1 = iw_calls w @ r1" "StageCall ''seed'' \<notin> set r1"
    using reports_no_seed [OF q 1] by auto
  obtain x2 w2 where 2: "run_state (prepare_disk d spec) w1 = (x2, w2)" by fastforce
  obtain r2 where r2: "iw_calls w2 = iw_calls w1 @ r2" "StageCall ''seed'' \<notin> set r2"
    using reports_no_seed [OF prepare_disk_reports 2] by (auto simp: stage_names_def)
  have "acts (\<lambda>_. True) (fine anything) w1 w2"
    by (rule state_io_relD [OF prepare_disk_acts 2]) simp
  then obtain c2 where c2: "iw_cmds w2 = iw_cmds w1 @ c2" "mounted_by c2 = []"
    using fine_mounts_nothing by blast
  obtain x3 w3 where 3: "run_state (report ?env (StageCall ''mount'')) w2 = (x3, w3)" by fastforce
  have w3: "iw_cmds w3 = iw_cmds w2" "iw_calls w3 = iw_calls w2 @ [StageCall ''mount'']"
    using 3 by (auto simp: report_def)
  show thesis
  proof (cases "\<exists>dk g boot esp ms w4. x1 = Inr () \<and> x2 = Inr (dk, g, boot) \<and> x3 = None
      \<and> run_state (mount_target ?env (gr_part g) ?root) w3 = (Inr (esp, ms), w4)")
    case True
    then obtain dk g boot esp ms w4 where ok: "x1 = Inr ()" "x2 = Inr (dk, g, boot)" "x3 = None"
      and 4: "run_state (mount_target ?env (gr_part g) ?root) w3 = (Inr (esp, ms), w4)" by blast
    obtain c4 where c4: "iw_cmds w4 = iw_cmds w3 @ c4" "ms = [] @ mounted_by c4"
      by (rule addsD [OF mount_target_adds 4]) simp
    have "run_state (unmount_after ?env ms (fill_target d spec dk g boot ?root esp)) w4 = (r, w')"
      using run ok 1 2 3 4 by (simp add: install_body_eq Let_def run_try_io run_stage)
    then show thesis
      by (rule that [of ms dk g boot esp w4 "c2 @ c4"]) (use c1 c2 w3 c4 in auto)
  next
    case False
    have "\<exists>cs. iw_calls w' = iw_calls w @ cs \<and> StageCall ''seed'' \<notin> set cs"
    proof (cases x1)
      case (Inl e)
      then show ?thesis using run 1 r1 by (auto simp: install_body_eq Let_def run_try_io)
    next
      case o1: (Inr u1)
      show ?thesis
      proof (cases x2)
        case (Inl e)
        then show ?thesis using run 1 2 o1 r1 r2 by (auto simp: install_body_eq Let_def run_try_io)
      next
        case o2: (Inr y)
        obtain dk g boot where y: "y = (dk, g, boot)" by (cases y)
        show ?thesis
        proof (cases x3)
          case (Some e)
          then show ?thesis using run 1 2 3 o1 o2 y r1 r2 w3 by (auto simp: install_body_eq Let_def run_try_io run_stage)
        next
          case None
          obtain x4 w4 where 4: "run_state (mount_target ?env (gr_part g) ?root) w3 = (x4, w4)" by fastforce
          then obtain e where "x4 = Inl e" using False o1 o2 y None by (cases x4) auto
          moreover obtain r4 where "iw_calls w4 = iw_calls w3 @ r4" "StageCall ''seed'' \<notin> set r4"
            using reports_no_seed [OF mount_target_reports 4] by auto
          ultimately show ?thesis using run 1 2 3 4 o1 o2 y None r1 r2 w3
            by (auto simp: install_body_eq Let_def run_try_io run_stage)
        qed
      qed
    qed
    then show thesis using seed by auto
  qed
qed

text \<open>C34: Once an installation has started to fill the mounted target, it ends with one \<open>umount\<close> for every
  mount that succeeded, in the reverse order, whether or not it fails; when \<open>Run\<close> returns without an error
  each of them succeeded. So an \<open>umount\<close> that fails makes the installation fail, although the opening
  comment of \<open>mount.go\<close> says that it is only logged.\<close>
theorem mounts_are_undone:
  assumes run: "run_state (run_install d spec) w = (r, w')"
    and seed: "StageCall ''seed'' \<in> set (drop (length (iw_calls w)) (iw_calls w'))"
  shows "\<exists>cs us. iw_cmds w' = iw_cmds w @ cs @ us
    \<and> map fst us = map (\<lambda>t. [''umount'', t]) (rev (mounted_by cs)) \<and> (isl r \<or> (\<forall>u \<in> set us. snd u))"
proof -
  obtain x v where body: "run_state (install_body d spec) w = (x, v)" by fastforce
  have r: "r = x" and cmds: "iw_cmds w' = iw_cmds v"
    and calls: "\<exists>cs. iw_calls w' = iw_calls v @ cs \<and> StageCall ''seed'' \<notin> set cs"
    using run body by (auto simp: run_install_def attempt_def report_def split: sum.splits)
  obtain cs0 where v: "iw_calls v = iw_calls w @ cs0"
    using reportsD [OF install_body_reports body] by metis
  have "StageCall ''seed'' \<in> set (drop (length (iw_calls w)) (iw_calls v))"
    using seed calls v by auto
  then obtain dk g boot esp ms u cs where
    tail: "run_state (unmount_after (id_env d) ms (fill_target d spec dk g boot (join_text (work_dir d) [''rootfs'']) esp)) u = (x, v)"
    and cs: "iw_cmds u = iw_cmds w @ cs" "mounted_by cs = ms"
    by (rule reaches_seed [OF body])
  obtain cs2 us where "iw_cmds v = iw_cmds u @ cs2 @ us" "mounted_by cs2 = []"
    "map fst us = map (\<lambda>t. [''umount'', t]) (rev ms)" "isl x \<or> (\<forall>u \<in> set us. snd u)"
    using unmount_after_cmds [OF tail] by blast
  then show ?thesis using cs r cmds by (intro exI [of _ "cs @ cs2"] exI [of _ us]) simp
qed

theorem mounts_are_undone_witness:
  "\<exists>cs us. write_cmds @ mount_cmds @ map (\<lambda>t. ([''umount'', t], True)) (rev sample_targets) = cs @ us
    \<and> map fst us = map (\<lambda>t. [''umount'', t]) (rev (mounted_by cs))"
proof -
  obtain e n where run: "run_state (run_install sample_deps sample_spec) (on_root [] [] 0) =
    (Inl e, on_root (write_cmds @ mount_cmds @ map (\<lambda>t. ([''umount'', t], True)) (rev sample_targets))
      (sample_calls @ [FailCall e]) n)"
    using sample_install_run by blast
  have "StageCall ''seed'' \<in> set (drop (length (iw_calls (on_root [] [] 0)))
      (iw_calls (on_root (write_cmds @ mount_cmds @ map (\<lambda>t. ([''umount'', t], True)) (rev sample_targets))
        (sample_calls @ [FailCall e]) n)))"
    by (simp add: on_root_def sample_calls_def)
  from mounts_are_undone [OF run this] show ?thesis by (auto simp: on_root_def)
qed

subsection \<open>The smallest disk\<close>

lemma hd_sort_key_min:
  assumes "xs \<noteq> []" "y \<in> set xs"
  shows "f (hd (sort_key f xs)) \<le> (f y :: 'k :: linorder)"
proof -
  obtain x rest where s: "sort_key f xs = x # rest"
    using assms(1) by (metis length_0_conv length_sort neq_Nil_conv)
  have "y \<in> set (x # rest)" using assms(2) s by (metis set_sort)
  moreover have "sorted (map f (x # rest))" using s by (metis sorted_sort_key)
  ultimately show ?thesis using s by auto
qed

lemma hd_sort_key_in: "xs \<noteq> [] \<Longrightarrow> hd (sort_key f xs) \<in> set xs"
  by (metis hd_in_set length_0_conv length_sort set_sort)

text \<open>Sorting is stable: among the elements with the least key the first one comes first.\<close>

lemma hd_sort_key_first:
  assumes "xs \<noteq> []"
  shows "hd (sort_key f xs) = hd (filter (\<lambda>y. f y = f (hd (sort_key f xs))) xs)"
proof -
  let ?x = "hd (sort_key f xs)"
  have "filter (\<lambda>y. f y = f ?x) xs = filter (\<lambda>y. f y = f ?x) (sort_key f xs)"
    by (rule sort_key_stable [symmetric])
  moreover have "sort_key f xs = ?x # tl (sort_key f xs)"
    using assms by (metis hd_Cons_tl length_0_conv length_sort)
  ultimately show ?thesis by (metis (mono_tags, lifting) filter.simps(2) list.sel(1))
qed

lemma sorted_filter_hd:
  assumes "sorted (map f xs)" "y \<in> set xs" "P y"
  shows "f (hd (filter P xs)) \<le> (f y :: 'k :: linorder)"
proof -
  have "y \<in> set (filter P xs)" "sorted (map f (filter P xs))"
    using assms by (auto intro: sorted_filter)
  then show ?thesis by (cases "filter P xs") auto
qed

text \<open>With the mode \<open>smallest\<close>, or none, the disk is a fixed one: not removable, not read-only, not on USB
  and of known size. Among those it is the smallest, and of equally small ones the first by name. There
  is an error only when no such disk is listed.\<close>
theorem smallest_fixed_disk_is_picked:
  assumes "td_mode sel = ''smallest'' \<or> td_mode sel = []"
  shows "case pick_disk disks sel of
      Inl e \<Rightarrow> \<forall>d \<in> set disks. \<not> disk_candidate d
    | Inr d \<Rightarrow> d \<in> set disks \<and> disk_candidate d
        \<and> (\<forall>d' \<in> set disks. disk_candidate d' \<longrightarrow>
             dk_size d < dk_size d' \<or> (dk_size d = dk_size d' \<and> dk_name d \<le> dk_name d'))"
proof (cases "filter disk_candidate disks = []")
  case True
  then show ?thesis using assms by (auto simp: pick_disk_def pick_smallest_def filter_empty_conv)
next
  case False
  let ?cs = "filter disk_candidate disks"
  let ?ns = "sort_key dk_name ?cs"
  let ?d = "hd (sort_key dk_size ?ns)"
  have ns: "?ns \<noteq> []" "set ?ns = set ?cs" using False by (metis length_0_conv length_sort, simp)
  have pick: "pick_disk disks sel = Inr ?d"
    using assms False by (auto simp: pick_disk_def pick_smallest_def)
  have "dk_size ?d < dk_size d' \<or> (dk_size ?d = dk_size d' \<and> dk_name ?d \<le> dk_name d')" if "d' \<in> set ?cs" for d'
  proof (cases "dk_size ?d = dk_size d'")
    case True
    have "dk_name (hd (filter (\<lambda>y. dk_size y = dk_size ?d) ?ns)) \<le> dk_name d'"
      by (rule sorted_filter_hd) (use that True in auto)
    then show ?thesis using True hd_sort_key_first [OF ns(1), of dk_size] by simp
  next
    case False
    then show ?thesis using hd_sort_key_min [OF ns(1), of d' dk_size] that by simp
  qed
  moreover have "?d \<in> set ?cs" using hd_sort_key_in [OF ns(1)] ns(2) by blast
  ultimately show ?thesis using pick by auto
qed

theorem smallest_fixed_disk_is_picked_witness:
  "pick_disk [sample_disk\<lparr>dk_size := 2000\<rparr>, sample_disk\<lparr>dk_name := ''sdc''\<rparr>, sample_disk\<lparr>dk_name := ''sdb''\<rparr>]
      \<lparr>td_mode = ''smallest'', td_value = []\<rparr> = Inr (sample_disk\<lparr>dk_name := ''sdb''\<rparr>)
    \<and> disk_candidate (sample_disk\<lparr>dk_name := ''sdb''\<rparr>)"
proof -
  let ?ds = "[sample_disk\<lparr>dk_size := 2000\<rparr>, sample_disk\<lparr>dk_name := ''sdc''\<rparr>, sample_disk\<lparr>dk_name := ''sdb''\<rparr>]"
  have "pick_disk ?ds \<lparr>td_mode = ''smallest'', td_value = []\<rparr> = Inr (sample_disk\<lparr>dk_name := ''sdb''\<rparr>)" by code_simp
  then show ?thesis
    using smallest_fixed_disk_is_picked [of "\<lparr>td_mode = ''smallest'', td_value = []\<rparr>" ?ds] by simp
qed

subsection \<open>Deviations\<close>

text \<open>The disk of an NVMe or MMC device is not its own parent: the ESP is looked for on a device that does not exist.\<close>

lemma nvme_disk_is_no_parent:
  "parent_disk_of ''/dev/nvme0n1'' = ''/dev/nvme0n''" "parent_disk_of ''/dev/mmcblk0'' = ''/dev/mmcblk''"
  by code_simp+

text \<open>A physical volume of another disk counts for a disk whose name is a prefix.\<close>

lemma other_disk_is_released:
  "vgs_of ''/dev/sda'' ''/dev/sdaa1 data'' = [''data'']"
  by code_simp

text \<open>The options line of a boot entry is no longer one.\<close>

lemma boot_entry_loses_options:
  "bls_edit ''options root=/dev/sda2'' = ''nomodeset options root=/dev/sda2''"
  by code_simp

text \<open>A link that leads nowhere does not exist, and is not removed before the new one is made.\<close>

lemma dangling_link_stops_implant:
  "\<exists>e. fst (run_state (enable_monitor good_env ''/m'')
     \<lparr>iw_tree = [([''m''], DirNode), ([''m'', ''etc''], DirNode), ([''m'', ''etc'', ''systemd''], DirNode),
        ([''m'', ''etc'', ''systemd'', ''system''], DirNode),
        ([''m'', ''etc'', ''systemd'', ''system'', ''multi-user.target.wants''], DirNode),
        ([''m'', ''etc'', ''systemd'', ''system'', ''multi-user.target.wants'', ''metalkit-monitor.service''], LinkNode monitor_unit_file)],
      iw_cmds = [], iw_calls = [], iw_ops = 0\<rparr>) = Inl e"
proof -
  have "isl (fst (run_state (enable_monitor good_env ''/m'')
     \<lparr>iw_tree = [([''m''], DirNode), ([''m'', ''etc''], DirNode), ([''m'', ''etc'', ''systemd''], DirNode),
        ([''m'', ''etc'', ''systemd'', ''system''], DirNode),
        ([''m'', ''etc'', ''systemd'', ''system'', ''multi-user.target.wants''], DirNode),
        ([''m'', ''etc'', ''systemd'', ''system'', ''multi-user.target.wants'', ''metalkit-monitor.service''], LinkNode monitor_unit_file)],
      iw_cmds = [], iw_calls = [], iw_ops = 0\<rparr>))"
    by code_simp
  then show ?thesis by (auto simp: isl_def)
qed

end
