(* ===== verification/Inventory.thy ===== *)
theory Inventory
  imports Agent_Api
begin

text \<open>
  The machine inventory, \<open>internal/inventory/store.go\<close>, \<open>schema.go\<close> and \<open>api.go\<close>. The state \<open>inv_db\<close> has the
  tables of its schema, the BMC credentials among them: that schema is applied before the one of
  \<open>internal/bmc\<close>, so the table has no foreign key. A report holds what the store reads of it
  (\<open>types.go\<close>); the rest is the type parameter, and a stored body is the report it decodes to.
  The texts of the driver for a violated constraint are the constants below.
\<close>

subsection \<open>Reports and tables\<close>

record nic_report =
  nr_mac :: string
  nr_addresses :: "string list"

record bmc_report =
  br_mac :: string
  br_ip :: string

record 'r machine_report =
  rp_schema :: int
  rp_uuid :: string
  rp_serial :: string
  rp_manufacturer :: string
  rp_product :: string
  rp_bmc :: "bmc_report option"
  rp_nics :: "nic_report list"
  rp_rest :: 'r

datatype host_status = Online | Offline | StatusUnknown

record host =
  hs_uuid :: string
  hs_serial :: string
  hs_manufacturer :: string
  hs_product :: string
  hs_first :: int
  hs_last :: int
  hs_status :: host_status
  hs_report :: "int option"
  hs_notes :: string
  hs_location :: string

datatype mac_role = RoleBmc | RoleNic

record mac_row =
  mr_uuid :: string
  mr_mac :: string
  mr_role :: mac_role

record 'r report_row =
  rr_id :: int
  rr_uuid :: string
  rr_ts :: int
  rr_body :: "'r machine_report"

record bmc_row =
  bc_machine :: string
  bc_ip :: string
  bc_port :: int
  bc_user :: string
  bc_password :: string
  bc_iface :: string
  bc_name :: string
  bc_created :: int
  bc_updated :: int
  bc_by :: string

text \<open>\<open>iv_seq\<close> is the largest \<open>AUTOINCREMENT\<close> value \<open>reports\<close> ever used.\<close>

record 'r inv_db =
  iv_hosts :: "host list"
  iv_macs :: "mac_row list"
  iv_reports :: "'r report_row list"
  iv_seq :: int
  iv_beats :: "(string \<times> int) list"
  iv_creds :: "bmc_row list"

datatype inv_error =
    InvEmptyReportUuid
  | InvEmptyUuid
  | InvNotFound
  | InvHostNotFound
  | InvTooLong string nat
  | InvDb string string

definition max_notes_bytes :: nat where
  "max_notes_bytes = 512"

definition inv_error_text :: "inv_error \<Rightarrow> string" where
  "inv_error_text e =
    (case e of
       InvEmptyReportUuid \<Rightarrow> ''inventory: report has empty smbios_uuid''
     | InvEmptyUuid \<Rightarrow> ''inventory: empty uuid''
     | InvNotFound \<Rightarrow> ''inventory: not found''
     | InvHostNotFound \<Rightarrow> ''inventory: machine not found''
     | InvTooLong f n \<Rightarrow> ''inventory: '' @ f @ '' too long: '' @ digits_nat n @ '' > '' @ digits_nat max_notes_bytes @ '' bytes''
     | InvDb op msg \<Rightarrow> op @ '': '' @ msg)"

definition mac_taken :: string where
  "mac_taken = ''constraint failed: UNIQUE constraint failed: machine_macs.mac (2067)''"

definition row_bound :: string where
  "row_bound = ''constraint failed: FOREIGN KEY constraint failed (787)''"

subsection \<open>Reports\<close>

definition report_mac :: "string \<Rightarrow> string" where
  "report_mac s = lower_trim s"

text \<open>\<open>insertMAC\<close>, over the addresses in the order of the report; a statement each, numbered from \<open>k\<close>.\<close>

fun insert_macs ::
  "faults \<Rightarrow> nat \<Rightarrow> string \<Rightarrow> string list \<Rightarrow> (string \<times> mac_role) list \<Rightarrow> mac_row list \<Rightarrow> (inv_error, nat \<times> mac_row list) result"
where
  "insert_macs fl k u seen [] t = Inr (k, t)"
| "insert_macs fl k u seen ((raw, role) # ms) t =
    (let mac = report_mac raw in
     if mac = [] \<or> mac \<in> set seen then insert_macs fl k u seen ms t
     else case fl k of
       Some msg \<Rightarrow> Inl (InvDb (''insert mac '' @ mac) msg)
     | None \<Rightarrow>
       (if mac \<in> mr_mac ` set t then Inl (InvDb (''insert mac '' @ mac) mac_taken)
        else insert_macs fl (Suc k) u (mac # seen) ms (ins_row \<lparr>mr_uuid = u, mr_mac = mac, mr_role = role\<rparr> t)))"

definition report_macs :: "'r machine_report \<Rightarrow> (string \<times> mac_role) list" where
  "report_macs r =
    (case rp_bmc r of None \<Rightarrow> [] | Some b \<Rightarrow> [(br_mac b, RoleBmc)]) @ map (\<lambda>n. (nr_mac n, RoleNic)) (rp_nics r)"

definition upsert_host :: "time \<Rightarrow> string \<Rightarrow> 'r machine_report \<Rightarrow> host list \<Rightarrow> host list" where
  "upsert_host now u r t =
    (if u \<in> hs_uuid ` set t
     then upd_where (\<lambda>h. hs_uuid h = u)
            (\<lambda>h. h\<lparr>hs_serial := rp_serial r, hs_manufacturer := rp_manufacturer r, hs_product := rp_product r,
                   hs_last := unix now, hs_status := Online\<rparr>) t
     else ins_row \<lparr>hs_uuid = u, hs_serial = rp_serial r, hs_manufacturer = rp_manufacturer r, hs_product = rp_product r,
            hs_first = unix now, hs_last = unix now, hs_status = Online, hs_report = None, hs_notes = [], hs_location = []\<rparr> t)"

definition tx_step :: "faults \<Rightarrow> nat \<Rightarrow> string \<Rightarrow> (inv_error, unit) result" where
  "tx_step fl k what = (case fl k of Some msg \<Rightarrow> Inl (InvDb what msg) | None \<Rightarrow> Inr ())"

text \<open>The transaction of \<open>UpsertReport\<close>: the new tables, or an error and none of it.\<close>

definition report_tx ::
  "faults \<Rightarrow> time \<Rightarrow> string \<Rightarrow> 'r machine_report \<Rightarrow> 'r inv_db \<Rightarrow> (inv_error, int \<times> 'r inv_db) result"
where
  "report_tx fl now u r db =
    and_then (tx_step fl 0 ''begin tx'') (\<lambda>_.
    and_then (tx_step fl 1 ''upsert machine'') (\<lambda>_.
    and_then (tx_step fl 2 ''clear macs'') (\<lambda>_.
    and_then (insert_macs fl 3 u [] (report_macs r) (del_where (\<lambda>m. mr_uuid m = u) (iv_macs db))) (\<lambda>(k, macs).
    and_then (tx_step fl k ''insert report'') (\<lambda>_.
    and_then (tx_step fl (k + 1) ''last insert id'') (\<lambda>_.
    and_then (tx_step fl (k + 2) ''set latest_report'') (\<lambda>_.
    and_then (tx_step fl (k + 3) ''commit'') (\<lambda>_.
      let i = iv_seq db + 1 in
      Inr (i, db\<lparr>iv_hosts := upd_where (\<lambda>h. hs_uuid h = u) (\<lambda>h. h\<lparr>hs_report := Some i\<rparr>) (upsert_host now u r (iv_hosts db)),
                 iv_macs := macs,
                 iv_reports := ins_row \<lparr>rr_id = i, rr_uuid = u, rr_ts = unix now, rr_body = r\<rparr> (iv_reports db),
                 iv_seq := i\<rparr>)))))))))"

text \<open>
  The reconciliation of the BMC credentials after the commit is the argument \<open>reconcile\<close>; its failure
  is only logged, so it is a function of the state.
\<close>

definition upsert_report ::
  "faults \<Rightarrow> time \<Rightarrow> (string \<Rightarrow> string \<Rightarrow> 'r inv_db \<Rightarrow> 'r inv_db) \<Rightarrow> 'r machine_report \<Rightarrow> 'r inv_db
    \<Rightarrow> (inv_error, string \<times> int) result \<times> 'r inv_db"
where
  "upsert_report fl now reconcile r db =
    (let u = lower_trim (rp_uuid r) in
     if u = [] then (Inl InvEmptyReportUuid, db)
     else case report_tx fl now u r db of
       Inl e \<Rightarrow> (Inl e, db)
     | Inr (i, db') \<Rightarrow>
       (Inr (u, i),
        case rp_bmc r of
          Some b \<Rightarrow> (if br_ip b \<noteq> [] then reconcile u (br_ip b) db' else db')
        | None \<Rightarrow> db'))"

definition report_of :: "int option \<Rightarrow> 'r inv_db \<Rightarrow> 'r report_row option" where
  "report_of i db = (case i of None \<Rightarrow> None | Some n \<Rightarrow> sel_row (\<lambda>r. rr_id r = n) (iv_reports db))"

definition reported_bmc_ip :: "faults \<Rightarrow> string \<Rightarrow> 'r inv_db \<Rightarrow> (inv_error, string) result" where
  "reported_bmc_ip fl u0 db =
    (let u = lower_trim u0 in
     if u = [] then Inr []
     else case fl 0 of Some msg \<Rightarrow> Inl (InvDb ''reported bmc ip'' msg)
     | None \<Rightarrow>
       (case sel_row (\<lambda>h. hs_uuid h = u) (iv_hosts db) of
          None \<Rightarrow> Inr []
        | Some h \<Rightarrow> Inr (case report_of (hs_report h) db of
            None \<Rightarrow> []
          | Some r \<Rightarrow> (case rp_bmc (rr_body r) of None \<Rightarrow> [] | Some b \<Rightarrow> br_ip b))))"

definition latest_report :: "faults \<Rightarrow> string \<Rightarrow> 'r inv_db \<Rightarrow> (inv_error, 'r machine_report) result" where
  "latest_report fl u0 db =
    (case fl 0 of Some msg \<Rightarrow> Inl (InvDb ''query latest report'' msg)
     | None \<Rightarrow>
       (case Option.bind (sel_row (\<lambda>h. hs_uuid h = lower_trim u0) (iv_hosts db)) (\<lambda>h. report_of (hs_report h) db) of
          None \<Rightarrow> Inl InvNotFound
        | Some r \<Rightarrow> Inr (rr_body r)))"

text \<open>Newest first; the identifier breaks a tie.\<close>

definition list_reports :: "faults \<Rightarrow> string \<Rightarrow> 'r inv_db \<Rightarrow> (inv_error, (int \<times> int) list) result" where
  "list_reports fl u0 db =
    (case fl 0 of Some msg \<Rightarrow> Inl (InvDb ''query reports'' msg)
     | None \<Rightarrow>
       Inr (sort_key (\<lambda>(i, ts). - ts) (sort_key (\<lambda>(i, ts). - i)
         (map (\<lambda>r. (rr_id r, rr_ts r)) (filter (\<lambda>r. rr_uuid r = lower_trim u0) (iv_reports db))))))"

definition get_report :: "faults \<Rightarrow> string \<Rightarrow> int \<Rightarrow> 'r inv_db \<Rightarrow> (inv_error, 'r machine_report) result" where
  "get_report fl u0 i db =
    (case fl 0 of Some msg \<Rightarrow> Inl (InvDb ''query report'' msg)
     | None \<Rightarrow>
       (case sel_row (\<lambda>r. rr_id r = i \<and> rr_uuid r = lower_trim u0) (iv_reports db) of
          None \<Rightarrow> Inl InvNotFound
        | Some r \<Rightarrow> Inr (rr_body r)))"

definition lookup_by_mac :: "faults \<Rightarrow> string \<Rightarrow> 'r inv_db \<Rightarrow> (inv_error, string \<times> mac_role) result" where
  "lookup_by_mac fl mac0 db =
    (let mac = report_mac mac0 in
     if mac = [] then Inl InvNotFound
     else case fl 0 of Some msg \<Rightarrow> Inl (InvDb ''query mac'' msg)
     | None \<Rightarrow>
       (case sel_row (\<lambda>m. mr_mac m = mac) (iv_macs db) of
          None \<Rightarrow> Inl InvNotFound
        | Some m \<Rightarrow> Inr (mr_uuid m, mr_role m)))"

subsection \<open>Machines\<close>

definition heartbeat :: "faults \<Rightarrow> time \<Rightarrow> string \<Rightarrow> 'r inv_db \<Rightarrow> inv_error option \<times> 'r inv_db" where
  "heartbeat fl now u0 db =
    (let u = lower_trim u0 in
     if u = [] then (Some InvEmptyUuid, db)
     else case and_then (tx_step fl 0 ''begin tx'') (\<lambda>_. tx_step fl 1 ''update machine'') of
       Inl e \<Rightarrow> (Some e, db)
     | Inr _ \<Rightarrow>
       (if hits (\<lambda>h. hs_uuid h = u) (iv_hosts db) = 0 then (Some InvNotFound, db)
        else case and_then (tx_step fl 2 ''insert heartbeat'') (\<lambda>_. tx_step fl 3 ''commit'') of
          Inl e \<Rightarrow> (Some e, db)
        | Inr _ \<Rightarrow>
          (None, db\<lparr>iv_hosts := upd_where (\<lambda>h. hs_uuid h = u) (\<lambda>h. h\<lparr>hs_last := unix now, hs_status := Online\<rparr>) (iv_hosts db),
                   iv_beats := ins_row (u, unix now) (iv_beats db)\<rparr>)))"

text \<open>A row of a machine and what cascades from it, inside this schema.\<close>

definition drop_host :: "string \<Rightarrow> 'r inv_db \<Rightarrow> 'r inv_db" where
  "drop_host u db =
    db\<lparr>iv_hosts := del_where (\<lambda>h. hs_uuid h = u) (iv_hosts db),
       iv_macs := del_where (\<lambda>m. mr_uuid m = u) (iv_macs db),
       iv_reports := del_where (\<lambda>r. rr_uuid r = u) (iv_reports db),
       iv_beats := del_where (\<lambda>b. fst b = u) (iv_beats db)\<rparr>"

text \<open>\<open>held\<close>: a row of another table refers to the machine and its key restricts the deletion.\<close>

definition delete_host :: "faults \<Rightarrow> (string \<Rightarrow> bool) \<Rightarrow> string \<Rightarrow> 'r inv_db \<Rightarrow> inv_error option \<times> 'r inv_db" where
  "delete_host fl held u0 db =
    (let u = lower_trim u0 in
     if u = [] then (Some InvEmptyUuid, db)
     else case fl 0 of Some msg \<Rightarrow> (Some (InvDb ''delete machine'' msg), db)
     | None \<Rightarrow>
       (if hits (\<lambda>h. hs_uuid h = u) (iv_hosts db) = 0 then (Some InvNotFound, db)
        else if held u then (Some (InvDb ''delete machine'' row_bound), db)
        else (None, drop_host u db)))"

definition set_host_field ::
  "faults \<Rightarrow> string \<Rightarrow> string \<Rightarrow> (string \<Rightarrow> host \<Rightarrow> host) \<Rightarrow> string \<Rightarrow> 'r inv_db \<Rightarrow> inv_error option \<times> 'r inv_db"
where
  "set_host_field fl u fld upd v db =
    (if max_notes_bytes < length v then (Some (InvTooLong fld (length v)), db)
     else case fl 0 of Some msg \<Rightarrow> (Some (InvDb (''set '' @ fld) msg), db)
     | None \<Rightarrow>
       (if hits (\<lambda>h. hs_uuid h = u) (iv_hosts db) = 0 then (Some InvHostNotFound, db)
        else (None, db\<lparr>iv_hosts := upd_where (\<lambda>h. hs_uuid h = u) (upd v) (iv_hosts db)\<rparr>)))"

definition set_notes :: "faults \<Rightarrow> string \<Rightarrow> string \<Rightarrow> 'r inv_db \<Rightarrow> inv_error option \<times> 'r inv_db" where
  "set_notes fl u v db = set_host_field fl u ''notes'' (\<lambda>v h. h\<lparr>hs_notes := v\<rparr>) v db"

definition set_location :: "faults \<Rightarrow> string \<Rightarrow> string \<Rightarrow> 'r inv_db \<Rightarrow> inv_error option \<times> 'r inv_db" where
  "set_location fl u v db = set_host_field fl u ''location'' (\<lambda>v h. h\<lparr>hs_location := v\<rparr>) v db"

definition offline_after :: int where
  "offline_after = 90"

definition silent :: "time \<Rightarrow> host \<Rightarrow> bool" where
  "silent now h \<longleftrightarrow> hs_last h < unix (now - offline_after * second) \<and> hs_status h \<noteq> Offline"

definition mark_offline_once :: "faults \<Rightarrow> time \<Rightarrow> 'r inv_db \<Rightarrow> (inv_error, nat) result \<times> 'r inv_db" where
  "mark_offline_once fl now db =
    (case fl 0 of Some msg \<Rightarrow> (Inl (InvDb ''mark offline'' msg), db)
     | None \<Rightarrow> (Inr (hits (silent now) (iv_hosts db)),
                db\<lparr>iv_hosts := upd_where (silent now) (\<lambda>h. h\<lparr>hs_status := Offline\<rparr>) (iv_hosts db)\<rparr>))"

subsection \<open>The list of machines\<close>

record host_summary =
  sm_host :: host
  sm_bmc_ip :: string
  sm_managed :: bool
  sm_addresses :: "string list"
  sm_install_ip :: string

text \<open>
  The addresses of the network interfaces: dotted quads, without their mask and without loopback,
  each once, joined and split at commas as the query and its reader do. An address without a mask
  gives the empty text.
\<close>

definition ipv4_like :: "string \<Rightarrow> bool" where
  "ipv4_like a \<longleftrightarrow>
    3 \<le> length (filter (\<lambda>c. c = CHR ''.'') a) \<and> CHR '':'' \<notin> set a \<and> \<not> starts_with ''127.'' a"

definition before_mask :: "string \<Rightarrow> string" where
  "before_mask a = (if CHR ''/'' \<in> set a then takeWhile (\<lambda>c. c \<noteq> CHR ''/'') a else [])"

definition report_ips :: "'r machine_report \<Rightarrow> string list" where
  "report_ips r =
    (let ips = rev (remdups (rev (map before_mask (filter ipv4_like (concat (map nr_addresses (rp_nics r)))))));
         csv = join_with '','' ips in
     if csv = [] then [] else split_on CHR '','' csv)"

definition summary_of :: "'r inv_db \<Rightarrow> host \<Rightarrow> host_summary" where
  "summary_of db h =
    (let r = report_of (hs_report h) db in
     \<lparr>sm_host = h,
      sm_bmc_ip = (case Option.bind r (\<lambda>r. rp_bmc (rr_body r)) of None \<Rightarrow> [] | Some b \<Rightarrow> br_ip b),
      sm_managed = (hs_uuid h \<in> bc_machine ` set (iv_creds db)),
      sm_addresses = (case r of None \<Rightarrow> [] | Some r \<Rightarrow> report_ips (rr_body r)),
      sm_install_ip = []\<rparr>)"

text \<open>
  \<open>ListMachines\<close>; machines seen in the same second come in the order of the table. The table of
  bindings, if there is one, is an argument: its machines with their static addresses.
\<close>

definition list_machines ::
  "faults \<Rightarrow> (string \<times> string) list option \<Rightarrow> 'r inv_db \<Rightarrow> (inv_error, host_summary list) result"
where
  "list_machines fl bindings db =
    (case fl 0 of Some msg \<Rightarrow> Inl (InvDb ''query machines'' msg)
     | None \<Rightarrow>
       (let out = map (summary_of db) (sort_key (\<lambda>h. - hs_last h) (iv_hosts db)) in
        case (fl 1, bindings, fl 2) of
          (None, Some bs, None) \<Rightarrow>
            Inr (map (\<lambda>s. case map_of (rev (filter (\<lambda>b. snd b \<noteq> []) bs)) (hs_uuid (sm_host s)) of
                        Some ip \<Rightarrow> s\<lparr>sm_install_ip := ip\<rparr> | None \<Rightarrow> s) out)
        | _ \<Rightarrow> Inr out))"

subsection \<open>The HTTP interface\<close>

datatype bad_body = BodyTooLarge | BadJson string

definition schema_version :: int where
  "schema_version = 1"

definition post_report ::
  "faults \<Rightarrow> time \<Rightarrow> (string \<Rightarrow> string \<Rightarrow> 'r inv_db \<Rightarrow> 'r inv_db) \<Rightarrow> (bad_body, 'r machine_report) result \<Rightarrow> 'r inv_db
    \<Rightarrow> (string \<times> int) answer \<times> 'r inv_db"
where
  "post_report fl now reconcile dec db =
    (case dec of
       Inl BodyTooLarge \<Rightarrow> ((413, ErrorText ''request body too large''), db)
     | Inl (BadJson msg) \<Rightarrow> ((400, ErrorText (''invalid json: '' @ msg)), db)
     | Inr r \<Rightarrow>
       (if rp_schema r \<noteq> schema_version then ((400, ErrorText ''unsupported schema_version''), db)
        else if trim_space (rp_uuid r) = [] then ((400, ErrorText ''machine.smbios_uuid is required''), db)
        else case upsert_report fl now reconcile r db of
          (Inl e, db') \<Rightarrow> ((500, ErrorText ''upsert failed''), db')
        | (Inr x, db') \<Rightarrow> ((200, Json x), db')))"

text \<open>\<open>validUUID\<close>, which answers 400 itself.\<close>

definition valid_uuid :: "string \<Rightarrow> ('a answer, string) result" where
  "valid_uuid raw =
    (let u = lower_trim raw in
     if \<not> smbios_uuid_match u then Inl (400, ErrorText ''invalid uuid'') else Inr u)"

definition with_uuid :: "string \<Rightarrow> (string \<Rightarrow> 'a answer \<times> 's) \<Rightarrow> 's \<Rightarrow> 'a answer \<times> 's" where
  "with_uuid raw call db = (case valid_uuid raw of Inl a \<Rightarrow> (a, db) | Inr u \<Rightarrow> call u)"

definition post_heartbeat :: "faults \<Rightarrow> time \<Rightarrow> string \<Rightarrow> 'r inv_db \<Rightarrow> unit answer \<times> 'r inv_db" where
  "post_heartbeat fl now raw db =
    with_uuid raw (\<lambda>u.
      case heartbeat fl now u db of
        (Some InvNotFound, db') \<Rightarrow> ((404, ErrorText ''machine not found''), db')
      | (Some e, db') \<Rightarrow> ((500, ErrorText ''heartbeat failed''), db')
      | (None, db') \<Rightarrow> ((204, Empty), db')) db"

definition api_list_machines :: "faults \<Rightarrow> (string \<times> string) list option \<Rightarrow> 'r inv_db \<Rightarrow> host_summary list answer" where
  "api_list_machines fl bindings db =
    (case list_machines fl bindings db of
       Inl e \<Rightarrow> (500, ErrorText ''list failed'')
     | Inr ms \<Rightarrow> (200, Json ms))"

definition get_machine :: "faults \<Rightarrow> string \<Rightarrow> 'r inv_db \<Rightarrow> 'r machine_report answer" where
  "get_machine fl raw db =
    (case valid_uuid raw of
       Inl a \<Rightarrow> a
     | Inr u \<Rightarrow>
       (case latest_report fl u db of
          Inl InvNotFound \<Rightarrow> (404, ErrorText ''machine not found'')
        | Inl e \<Rightarrow> (500, ErrorText ''fetch failed'')
        | Inr r \<Rightarrow> (200, Json r)))"

text \<open>
  \<open>patchNotes\<close> and \<open>patchLocation\<close>, which differ in the field and in the text they look for; the
  changed machine is read back from the list, whose statements follow the update.
\<close>

definition patch_field ::
  "faults \<Rightarrow> (string \<times> string) list option \<Rightarrow> string \<Rightarrow>
   (faults \<Rightarrow> string \<Rightarrow> string \<Rightarrow> 'r inv_db \<Rightarrow> inv_error option \<times> 'r inv_db) \<Rightarrow> string \<Rightarrow> (string, string) result \<Rightarrow>
   'r inv_db \<Rightarrow> host_summary answer \<times> 'r inv_db"
where
  "patch_field fl bindings long put raw dec db =
    with_uuid raw (\<lambda>u.
      case dec of
        Inl msg \<Rightarrow> ((400, ErrorText (''invalid json: '' @ msg)), db)
      | Inr v \<Rightarrow>
        (case put fl u (trim_space v) db of
           (Some InvHostNotFound, db') \<Rightarrow> ((404, ErrorText ''machine not found''), db')
         | (Some e, db') \<Rightarrow>
             ((if contains_sub long (inv_error_text e) then (400, ErrorText (inv_error_text e))
               else (500, ErrorText ''update failed'')), db')
         | (None, db') \<Rightarrow>
           (case list_machines (later fl) bindings db' of
              Inl e \<Rightarrow> ((500, ErrorText ''list failed''), db')
            | Inr ms \<Rightarrow>
              (case sel_row (\<lambda>s. hs_uuid (sm_host s) = u) ms of
                 None \<Rightarrow> ((404, ErrorText ''machine not found''), db')
               | Some s \<Rightarrow> ((200, Json s), db'))))) db"

definition patch_notes ::
  "faults \<Rightarrow> (string \<times> string) list option \<Rightarrow> string \<Rightarrow> (string, string) result \<Rightarrow> 'r inv_db
    \<Rightarrow> host_summary answer \<times> 'r inv_db"
where
  "patch_notes fl bindings = patch_field fl bindings ''notes too long'' set_notes"

definition patch_location ::
  "faults \<Rightarrow> (string \<times> string) list option \<Rightarrow> string \<Rightarrow> (string, string) result \<Rightarrow> 'r inv_db
    \<Rightarrow> host_summary answer \<times> 'r inv_db"
where
  "patch_location fl bindings = patch_field fl bindings ''too long'' set_location"

definition api_list_reports :: "faults \<Rightarrow> string \<Rightarrow> 'r inv_db \<Rightarrow> (int \<times> int) list answer" where
  "api_list_reports fl raw db =
    (case valid_uuid raw of
       Inl a \<Rightarrow> a
     | Inr u \<Rightarrow>
       (case latest_report fl u db of
          Inl InvNotFound \<Rightarrow> (404, ErrorText ''machine not found'')
        | Inl e \<Rightarrow> (500, ErrorText ''fetch failed'')
        | Inr r \<Rightarrow>
          (case list_reports (later fl) u db of
             Inl e \<Rightarrow> (500, ErrorText ''list failed'')
           | Inr ms \<Rightarrow> (200, Json ms))))"

definition api_get_report :: "faults \<Rightarrow> string \<Rightarrow> string \<Rightarrow> 'r inv_db \<Rightarrow> 'r machine_report answer" where
  "api_get_report fl raw i db =
    (case valid_uuid raw of
       Inl a \<Rightarrow> a
     | Inr u \<Rightarrow>
       (case atoi i of
          None \<Rightarrow> (400, ErrorText ''invalid report id'')
        | Some n \<Rightarrow>
          (if n \<le> 0 then (400, ErrorText ''invalid report id'')
           else case get_report fl u n db of
             Inl InvNotFound \<Rightarrow> (404, ErrorText ''report not found'')
           | Inl e \<Rightarrow> (500, ErrorText ''fetch failed'')
           | Inr r \<Rightarrow> (200, Json r))))"

text \<open>\<open>macRE\<close>.\<close>

definition hex_byte_text :: "string \<Rightarrow> bool" where
  "hex_byte_text s \<longleftrightarrow> length s = 2 \<and> list_all is_hex s"

definition lookup_mac_match :: "string \<Rightarrow> bool" where
  "lookup_mac_match s \<longleftrightarrow> length (split_on CHR '':'' s) = 6 \<and> list_all hex_byte_text (split_on CHR '':'' s)"

definition api_lookup :: "faults \<Rightarrow> string \<Rightarrow> 'r inv_db \<Rightarrow> (string \<times> mac_role) answer" where
  "api_lookup fl mac db =
    (if \<not> lookup_mac_match mac then (400, ErrorText ''mac must be 6 colon-separated hex octets'')
     else case lookup_by_mac fl (to_lower mac) db of
       Inl InvNotFound \<Rightarrow> (404, ErrorText ''mac not found'')
     | Inl e \<Rightarrow> (500, ErrorText ''lookup failed'')
     | Inr m \<Rightarrow> (200, Json m))"

subsection \<open>The deletion of a machine\<close>

text \<open>
  The tables the deletion spans. The jobs keep their own view of the machines table, which loses the
  row as well.
\<close>

record 'r plant =
  pl_inv :: "'r inv_db"
  pl_bindings :: "binding list"
  pl_jobs :: jobs_db

definition has_active_job :: "faults \<Rightarrow> string \<Rightarrow> jobs_db \<Rightarrow> (job_error, bool) result" where
  "has_active_job fl u db =
    (case current_for_machine fl u db of
       Inr j \<Rightarrow> Inr True
     | Inl JobNotFound \<Rightarrow> Inr False
     | Inl e \<Rightarrow> Inl e)"

definition delete_binding_for_machine ::
  "faults \<Rightarrow> string \<Rightarrow> binding list \<Rightarrow> bind_error option \<times> binding list"
where
  "delete_binding_for_machine fl u t =
    (case delete_binding fl u t of
       (Some BindNotFound, t') \<Rightarrow> (None, t')
     | r \<Rightarrow> r)"

text \<open>
  The one statement that deletes the row: bindings restrict it, and so does a job of another machine
  that retries one of this machine; the jobs and their logs go by cascade.
\<close>

definition row_held :: "binding list \<Rightarrow> jobs_db \<Rightarrow> string \<Rightarrow> bool" where
  "row_held bs js u \<longleftrightarrow>
    u \<in> bd_machine ` set bs \<or> (case sql_delete_jobs (\<lambda>j. jb_machine j = u) js of Inl _ \<Rightarrow> True | Inr _ \<Rightarrow> False)"

definition cascade_jobs :: "string \<Rightarrow> jobs_db \<Rightarrow> jobs_db" where
  "cascade_jobs u js =
    (case sql_delete_jobs (\<lambda>j. jb_machine j = u) js of
       Inl _ \<Rightarrow> js
     | Inr js' \<Rightarrow> js'\<lparr>db_machines := del_where (\<lambda>m. mc_uuid m = u) (db_machines js')\<rparr>)"

definition delete_machine :: "faults \<Rightarrow> string \<Rightarrow> 'r plant \<Rightarrow> unit answer \<times> 'r plant" where
  "delete_machine fl raw p =
    with_uuid raw (\<lambda>u.
      case has_active_job fl u (pl_jobs p) of
        Inl e \<Rightarrow> ((500, ErrorText ''active-job check failed''), p)
      | Inr True \<Rightarrow> ((409, ErrorText (''machine has a pending/running job '' @ [CHR 0xE2, CHR 0x80, CHR 0x94] @ '' cancel it first'')), p)
      | Inr False \<Rightarrow>
        (case delete_binding_for_machine (later fl) u (pl_bindings p) of
           (Some e, bs) \<Rightarrow> ((500, ErrorText ''binding wipe failed''), p\<lparr>pl_bindings := bs\<rparr>)
         | (None, bs) \<Rightarrow>
           (case delete_host (later (later fl)) (row_held bs (pl_jobs p)) u (pl_inv p) of
              (Some InvNotFound, iv) \<Rightarrow> ((404, ErrorText ''machine not found''), p\<lparr>pl_bindings := bs, pl_inv := iv\<rparr>)
            | (Some e, iv) \<Rightarrow> ((500, ErrorText ''delete failed''), p\<lparr>pl_bindings := bs, pl_inv := iv\<rparr>)
            | (None, iv) \<Rightarrow>
                ((204, Empty), p\<lparr>pl_bindings := bs, pl_inv := iv, pl_jobs := cascade_jobs u (pl_jobs p)\<rparr>)))) p"

end
