(* ===== verification/Secrets.thy ===== *)
theory Secrets
  imports Go_Text
begin

text \<open>
  The encryption of secret columns, \<open>internal/crypto/cipher.go\<close>. AES-GCM of Go's library is the
  argument \<open>aead\<close>: its \<open>Seal\<close> and its \<open>Open\<close>, which return a text of \<open>char\<close> bytes; what the code relies
  on is \<open>opens_sealed\<close>, and what the stores rely on is the locale \<open>column_cipher\<close>. The key file is its content and its permission bits.
\<close>

subsection \<open>The master key\<close>

datatype secret_error =
    KeyPathEmpty
  | KeyIo string string string
  | KeyLength string nat
  | KeyPerm string nat
  | KeyRandom string
  | KeyArgument nat
  | NonceFailed string
  | BlobShort nat
  | BlobVersion nat
  | BlobOpen string

definition key_size :: nat where
  "key_size = 32"

definition current_version :: nat where
  "current_version = 1"

definition nonce_size :: nat where
  "nonce_size = 12"

text \<open>\<open>aead.Overhead()\<close> of GCM with its standard tag.\<close>

definition aead_overhead :: nat where
  "aead_overhead = 16"

fun show_base :: "nat \<Rightarrow> nat \<Rightarrow> string" where
  "show_base b n =
    (if b < 2 \<or> n < b then [char_of (if n < 10 then 48 + n else 87 + n)]
     else show_base b (n div b) @ [char_of (if n mod b < 10 then 48 + n mod b else 87 + n mod b)])"

definition secret_error_text :: "secret_error \<Rightarrow> string" where
  "secret_error_text e =
    (case e of
       KeyPathEmpty \<Rightarrow> ''crypto: master key path is empty''
     | KeyIo op path msg \<Rightarrow> ''crypto: '' @ op @ '' '' @ path @ '': '' @ msg
     | KeyLength path n \<Rightarrow> ''crypto: '' @ path @ '' has '' @ digits_nat n @ '' bytes, want '' @ digits_nat key_size
     | KeyPerm path m \<Rightarrow> ''crypto: '' @ path @ '' has perms 0'' @ show_base 8 m @ '', want 0600 (group/world readable)''
     | KeyRandom msg \<Rightarrow> ''crypto: generate master key: '' @ msg
     | KeyArgument n \<Rightarrow> ''crypto: key is '' @ digits_nat n @ '' bytes, want '' @ digits_nat key_size
     | NonceFailed msg \<Rightarrow> ''crypto: nonce: '' @ msg
     | BlobShort n \<Rightarrow> ''crypto: ciphertext too short ('' @ digits_nat n @ '' bytes)''
     | BlobVersion v \<Rightarrow> ''crypto: unsupported ciphertext version 0x'' @ show_base 16 v
     | BlobOpen msg \<Rightarrow> ''crypto: decrypt: '' @ msg)"

type_synonym key_file = "(string \<times> nat) option"

text \<open>
  \<open>fl\<close> has the failures of, in this order, the read, the \<open>stat\<close>, the exclusive creation, the write and
  the close; a failed write leaves the first \<open>short\<close> bytes in the file.
\<close>

definition assert_perm :: "string option \<Rightarrow> string \<Rightarrow> nat \<Rightarrow> secret_error option" where
  "assert_perm f path m =
    (case f of Some msg \<Rightarrow> Some (KeyIo ''stat'' path msg)
     | None \<Rightarrow> if m mod 64 \<noteq> 0 then Some (KeyPerm path m) else None)"

definition load_or_create_master ::
  "faults \<Rightarrow> (string, string) result \<Rightarrow> nat \<Rightarrow> string \<Rightarrow> key_file \<Rightarrow> (secret_error, string) result \<times> key_file"
where
  "load_or_create_master fl random short path kf =
    (if path = [] then (Inl KeyPathEmpty, kf)
     else case fl 0 of Some msg \<Rightarrow> (Inl (KeyIo ''read'' path msg), kf)
     | None \<Rightarrow>
       (case kf of
          Some (d, m) \<Rightarrow>
            ((if length d \<noteq> key_size then Inl (KeyLength path (length d))
              else case assert_perm (fl 1) path m of Some e \<Rightarrow> Inl e | None \<Rightarrow> Inr d), kf)
        | None \<Rightarrow>
          (case random of
             Inl msg \<Rightarrow> (Inl (KeyRandom msg), kf)
           | Inr d \<Rightarrow>
             (case fl 2 of Some msg \<Rightarrow> (Inl (KeyIo ''create'' path msg), kf)
              | None \<Rightarrow>
                (case fl 3 of Some msg \<Rightarrow> (Inl (KeyIo ''write'' path msg), Some (take short d, 384))
                 | None \<Rightarrow>
                   ((case fl 4 of Some msg \<Rightarrow> Inl (KeyIo ''close'' path msg) | None \<Rightarrow> Inr d), Some (d, 384)))))))"

text \<open>What a start of the controller creates, the next one loads; a key of another size stops it.\<close>

lemma key_is_loaded_again:
  assumes "load_or_create_master fl random short path None = (Inr d, kf)" "length d = key_size"
  shows "load_or_create_master no_faults random' short' path kf = (Inr d, kf)"
  using assms by (auto simp: load_or_create_master_def assert_perm_def split: if_splits option.splits sum.splits)

lemma torn_key_stops_the_controller:
  assumes "load_or_create_master fl (Inr d) short path None = (r, kf)" "fl 3 = Some msg"
    "fl 0 = None" "fl 2 = None" "path \<noteq> []" "short < key_size"
  shows "\<exists>n. fst (load_or_create_master no_faults random' short' path kf) = Inl (KeyLength path n)"
  using assms by (auto simp: load_or_create_master_def)

subsection \<open>The cipher\<close>

record aead =
  ae_seal :: "string \<Rightarrow> string \<Rightarrow> string"
  ae_open :: "string \<Rightarrow> string \<Rightarrow> (string, string) result"

text \<open>\<open>NewCipher\<close>: the block cipher of a key is the library's.\<close>

definition new_cipher :: "(string \<Rightarrow> aead) \<Rightarrow> string \<Rightarrow> (secret_error, aead) result" where
  "new_cipher gcm key = (if length key \<noteq> key_size then Inl (KeyArgument (length key)) else Inr (gcm key))"

definition encrypt_with :: "aead \<Rightarrow> (string, string) result \<Rightarrow> string \<Rightarrow> (secret_error, string) result" where
  "encrypt_with c random pt =
    (case random of
       Inl msg \<Rightarrow> Inl (NonceFailed msg)
     | Inr nonce \<Rightarrow> Inr (char_of current_version # nonce @ ae_seal c nonce pt))"

definition decrypt_with :: "aead \<Rightarrow> string \<Rightarrow> (secret_error, string) result" where
  "decrypt_with c blob =
    (if length blob < 1 + nonce_size + aead_overhead then Inl (BlobShort (length blob))
     else if of_char (hd blob) \<noteq> current_version then Inl (BlobVersion (of_char (hd blob)))
     else case ae_open c (take nonce_size (tl blob)) (drop nonce_size (tl blob)) of
       Inl msg \<Rightarrow> Inl (BlobOpen msg)
     | Inr pt \<Rightarrow> Inr pt)"

text \<open>The law of an authenticated cipher: it opens what it sealed under the same nonce.\<close>

definition opens_sealed :: "aead \<Rightarrow> bool" where
  "opens_sealed c \<longleftrightarrow>
    (\<forall>n pt. ae_open c n (ae_seal c n pt) = Inr pt \<and> length (ae_seal c n pt) = length pt + aead_overhead)"

definition nonce_ok :: "(string, string) result \<Rightarrow> bool" where
  "nonce_ok r \<longleftrightarrow> (case r of Inl _ \<Rightarrow> False | Inr n \<Rightarrow> length n = nonce_size)"

lemma decrypt_encrypt:
  assumes "opens_sealed c" "nonce_ok n" "encrypt_with c n pt = Inr blob"
  shows "decrypt_with c blob = Inr pt"
  using assms
  by (auto simp: encrypt_with_def decrypt_with_def nonce_ok_def opens_sealed_def nonce_size_def current_version_def
      split: sum.splits)

text \<open>The contract of a column cipher, which the stores rely on: keys, nonces, sealing and opening.\<close>

locale column_cipher =
  fixes seal :: "'k \<Rightarrow> 'n \<Rightarrow> string \<Rightarrow> (secret_error, string) result"
    and unseal :: "'k \<Rightarrow> string \<Rightarrow> (secret_error, string) result"
    and usable :: "'k \<Rightarrow> 'n \<Rightarrow> bool"
  assumes unseal_seal: "usable k n \<Longrightarrow> seal k n pt = Inr blob \<Longrightarrow> unseal k blob = Inr pt"
    and seal_works: "usable k n \<Longrightarrow> \<exists>blob. seal k n pt = Inr blob"
begin

lemma seal_injective: "usable k n \<Longrightarrow> usable k m \<Longrightarrow> seal k n p = Inr b \<Longrightarrow> seal k m q = Inr b \<Longrightarrow> p = q"
  by (metis Inr_inject unseal_seal)

lemma sealed_text_returns: "usable k n \<Longrightarrow> \<exists>blob. seal k n pt = Inr blob \<and> unseal k blob = Inr pt"
  by (metis unseal_seal seal_works)

end

interpretation gcm: column_cipher encrypt_with decrypt_with "\<lambda>c n. opens_sealed c \<and> nonce_ok n"
proof
  show "\<exists>blob. encrypt_with k n pt = Inr blob" if "opens_sealed k \<and> nonce_ok n" for k n pt
    using that by (auto simp: encrypt_with_def nonce_ok_def split: sum.splits)
qed (blast intro: decrypt_encrypt)

text \<open>A cipher for examples: it prepends sixteen zero bytes.\<close>

definition plain_aead :: aead where
  "plain_aead = \<lparr>ae_seal = (\<lambda>n pt. replicate 16 CHR 0x00 @ pt),
                 ae_open = (\<lambda>n ct. if take 16 ct = replicate 16 CHR 0x00 then Inr (drop 16 ct) else Inl ''open'')\<rparr>"

lemma plain_opens: "opens_sealed plain_aead"
  by (simp add: opens_sealed_def plain_aead_def aead_overhead_def)

end
