(* ===== verification/Bmc_Store.thy ===== *)
theory Bmc_Store
  imports Inventory Secrets Net_Render
begin

text \<open>
  The credentials of the management controllers, \<open>internal/bmc/store.go\<close>, \<open>validate.go\<close> and
  \<open>placeholder.go\<close>, on the table \<open>iv_creds\<close> of the inventory's database. The column \<open>bc_password\<close>
  holds the sealed password, an empty \<open>bc_name\<close> is SQL's NULL. \<open>held u\<close> says that a row of another
  table refers to the machine \<open>u\<close> and restricts its deletion.
\<close>

subsection \<open>Validation\<close>

record credential =
  cr_machine :: string
  cr_name :: string
  cr_ip :: string
  cr_port :: int
  cr_user :: string
  cr_iface :: string
  cr_created :: int
  cr_updated :: int
  cr_by :: string

record cred_input =
  ci_machine :: string
  ci_name :: string
  ci_ip :: string
  ci_port :: int
  ci_user :: string
  ci_password :: "string option"
  ci_iface :: string
  ci_by :: string

datatype bmc_error =
    BmcNotFound
  | BmcMachineUnknown string
  | BmcIpConflict string string
  | BmcUuid string
  | BmcSuffix string string
  | BmcIp string
  | BmcPort int
  | BmcUser string
  | BmcPasswordMissing
  | BmcPasswordLength nat
  | BmcIface string
  | BmcNameLength nat
  | BmcNameControl string
  | BmcNoActor
  | BmcMismatch string string string
  | BmcSeal secret_error
  | BmcUnseal string secret_error
  | BmcNotSmbios string
  | BmcNoPlaceholder string
  | BmcDb string string

definition max_password_len :: nat where
  "max_password_len = 255"

definition max_bmc_name :: nat where
  "max_bmc_name = 64"

definition bmc_error_text :: "(string \<Rightarrow> string) \<Rightarrow> bmc_error \<Rightarrow> string" where
  "bmc_error_text q e =
    (case e of
       BmcNotFound \<Rightarrow> ''bmc: not found''
     | BmcMachineUnknown u \<Rightarrow> ''bmc: machine_uuid not in inventory: '' @ u
     | BmcIpConflict u ip \<Rightarrow> ''bmc ip '' @ q ip @ '' already registered to machine '' @ q u
     | BmcUuid u \<Rightarrow> ''machine_uuid '' @ q u @ '': must be SMBIOS UUID or placeholder-<ipv4-dashed>''
     | BmcSuffix u s \<Rightarrow> ''machine_uuid '' @ q u @ '': placeholder suffix '' @ q s @ '' is not a valid IPv4''
     | BmcIp ip \<Rightarrow> ''ip '' @ q ip @ '': must be IPv4 literal''
     | BmcPort n \<Rightarrow> ''port '' @ show_int n @ '': must be 1..65535''
     | BmcUser u \<Rightarrow> ''username '' @ q u @ '': must be 1..64 printable ASCII, no whitespace''
     | BmcPasswordMissing \<Rightarrow> ''password: required''
     | BmcPasswordLength n \<Rightarrow> ''password length '' @ digits_nat n @ '' exceeds '' @ digits_nat max_password_len
     | BmcIface s \<Rightarrow> ''ipmi_interface '' @ q s @ '': must be lan or lanplus''
     | BmcNameLength n \<Rightarrow> ''name length '' @ digits_nat n @ '' exceeds '' @ digits_nat max_bmc_name @ '' runes''
     | BmcNameControl n \<Rightarrow> ''name '' @ q n @ '': contains control characters''
     | BmcNoActor \<Rightarrow> ''bmc: updated_by is required''
     | BmcMismatch u ip x \<Rightarrow>
         ''machine_uuid '' @ q u @ '': placeholder must encode ip '' @ q ip @ '' (expected '' @ q x @ '')''
     | BmcSeal e \<Rightarrow> ''encrypt password: '' @ secret_error_text e
     | BmcUnseal u e \<Rightarrow> ''decrypt password for '' @ u @ '': '' @ secret_error_text e
     | BmcNotSmbios u \<Rightarrow> ''reconcile: real uuid '' @ q u @ '' is not a SMBIOS UUID''
     | BmcNoPlaceholder ip \<Rightarrow> ''reconcile: cannot derive placeholder uuid from '' @ q ip
     | BmcDb op msg \<Rightarrow> op @ '': '' @ msg)"

definition placeholder_prefix :: string where
  "placeholder_prefix = ''placeholder-''"

definition swap_char :: "char \<Rightarrow> char \<Rightarrow> string \<Rightarrow> string" where
  "swap_char a b = map (\<lambda>c. if c = a then b else c)"

definition placeholder_uuid :: "string \<Rightarrow> string" where
  "placeholder_uuid ip =
    (case parse_to4 (trim_space ip) of
       None \<Rightarrow> []
     | Some a \<Rightarrow> placeholder_prefix @ swap_char CHR ''.'' CHR ''-'' (show_ip4 a))"

definition is_placeholder :: "string \<Rightarrow> bool" where
  "is_placeholder s \<longleftrightarrow> starts_with placeholder_prefix s"

text \<open>\<open>validatePlaceholderUUID\<close>, past the test of its prefix that its only caller has made.\<close>

definition validate_placeholder :: "string \<Rightarrow> (bmc_error, string) result" where
  "validate_placeholder s =
    (let suffix = drop (length placeholder_prefix) (lower_trim s) in
     case parse_to4 (swap_char CHR ''-'' CHR ''.'' suffix) of
       None \<Rightarrow> Inl (BmcSuffix (lower_trim s) suffix)
     | Some a \<Rightarrow> Inr (placeholder_uuid (show_ip4 a)))"

definition bmc_machine_uuid :: "string \<Rightarrow> (bmc_error, string) result" where
  "bmc_machine_uuid u0 =
    (let u = lower_trim u0 in
     if smbios_uuid_match u then Inr u
     else if is_placeholder u then validate_placeholder u
     else Inl (BmcUuid u))"

definition bmc_ip :: "string \<Rightarrow> (bmc_error, string) result" where
  "bmc_ip ip0 =
    (let ip = trim_space ip0 in case parse_to4 ip of None \<Rightarrow> Inl (BmcIp ip) | Some a \<Rightarrow> Inr (show_ip4 a))"

definition bmc_port :: "int \<Rightarrow> (bmc_error, int) result" where
  "bmc_port p = (if p = 0 then Inr 623 else if p < 1 \<or> 65535 < p then Inl (BmcPort p) else Inr p)"

definition bmc_user :: "string \<Rightarrow> (bmc_error, string) result" where
  "bmc_user u0 =
    (let u = trim_space u0 in
     if u = [] \<or> 64 < length u \<or> \<not> list_all (\<lambda>c. 33 \<le> byte c \<and> byte c \<le> 126) u then Inl (BmcUser u) else Inr u)"

definition bmc_password :: "string \<Rightarrow> (bmc_error, string) result" where
  "bmc_password p =
    (if p = [] then Inl BmcPasswordMissing
     else if max_password_len < length p then Inl (BmcPasswordLength (length p)) else Inr p)"

definition bmc_iface :: "string \<Rightarrow> (bmc_error, string) result" where
  "bmc_iface s0 =
    (let s = lower_trim s0 in
     if s = [] then Inr ''lanplus'' else if s \<notin> {''lan'', ''lanplus''} then Inl (BmcIface s) else Inr s)"

definition bmc_name :: "string \<Rightarrow> (bmc_error, string) result" where
  "bmc_name n0 =
    (let n = trim_space n0 in
     if n = [] then Inr []
     else if max_bmc_name < length (runes n) then Inl (BmcNameLength (length (runes n)))
     else if list_ex (\<lambda>r. r < 32 \<or> r = 127) (runes n) then Inl (BmcNameControl n) else Inr n)"

subsection \<open>The store\<close>

definition meta_of :: "bmc_row \<Rightarrow> credential" where
  "meta_of b = \<lparr>cr_machine = bc_machine b, cr_name = bc_name b, cr_ip = bc_ip b, cr_port = bc_port b,
     cr_user = bc_user b, cr_iface = bc_iface b, cr_created = bc_created b, cr_updated = bc_updated b, cr_by = bc_by b\<rparr>"

definition cred_row :: "string \<Rightarrow> 'r inv_db \<Rightarrow> bmc_row option" where
  "cred_row u db = sel_row (\<lambda>b. bc_machine b = u) (iv_creds db)"

text \<open>\<open>Get\<close>, and its query on an identifier that is canonical.\<close>

definition get_cred :: "string option \<Rightarrow> string \<Rightarrow> 'r inv_db \<Rightarrow> (bmc_error, credential) result" where
  "get_cred f u0 db =
    and_then (bmc_machine_uuid u0) (\<lambda>u.
      case f of Some msg \<Rightarrow> Inl (BmcDb ''get bmc'' msg)
      | None \<Rightarrow> (case cred_row u db of None \<Rightarrow> Inl BmcNotFound | Some b \<Rightarrow> Inr (meta_of b)))"

definition get_with_password ::
  "(string \<Rightarrow> (secret_error, string) result) \<Rightarrow> string option \<Rightarrow> string \<Rightarrow> 'r inv_db \<Rightarrow>
   (bmc_error, credential \<times> string) result"
where
  "get_with_password unseal f u0 db =
    and_then (bmc_machine_uuid u0) (\<lambda>u.
      case f of Some msg \<Rightarrow> Inl (BmcDb ''get bmc'' msg)
      | None \<Rightarrow>
        (case cred_row u db of
           None \<Rightarrow> Inl BmcNotFound
         | Some b \<Rightarrow>
           (case unseal (bc_password b) of Inl e \<Rightarrow> Inl (BmcUnseal u e) | Inr p \<Rightarrow> Inr (meta_of b, p))))"

text \<open>Named rows first, by name without regard to ASCII case, then by machine.\<close>

definition list_creds :: "faults \<Rightarrow> 'r inv_db \<Rightarrow> (bmc_error, credential list) result" where
  "list_creds fl db =
    (case fl 0 of Some msg \<Rightarrow> Inl (BmcDb ''list bmc'' msg)
     | None \<Rightarrow>
       Inr (map meta_of
         (sort_key (\<lambda>b. if bc_name b = [] then 1 else 0 :: nat)
           (sort_key (\<lambda>b. map lower_byte (bc_name b)) (sort_key bc_machine (iv_creds db))))))"

definition find_by_ip :: "string option \<Rightarrow> string \<Rightarrow> 'r inv_db \<Rightarrow> (bmc_error, string) result" where
  "find_by_ip f ip db =
    (case bmc_ip ip of
       Inl _ \<Rightarrow> Inl BmcNotFound
     | Inr norm \<Rightarrow>
       (case f of Some msg \<Rightarrow> Inl (BmcDb ''find bmc by ip'' msg)
        | None \<Rightarrow>
          (case sel_row (\<lambda>b. bc_ip b = norm) (iv_creds db) of
             None \<Rightarrow> Inl BmcNotFound
           | Some b \<Rightarrow> Inr (bc_machine b))))"

text \<open>\<open>fl\<close> has, in this order, the look-up and the insertion of the stub.\<close>

definition ensure_machine :: "faults \<Rightarrow> time \<Rightarrow> string \<Rightarrow> 'r inv_db \<Rightarrow> bmc_error option \<times> 'r inv_db" where
  "ensure_machine fl now u db =
    (case fl 0 of Some msg \<Rightarrow> (Some (BmcDb ''check machine'' msg), db)
     | None \<Rightarrow>
       (if u \<in> hs_uuid ` set (iv_hosts db) then (None, db)
        else if \<not> is_placeholder u then (Some (BmcMachineUnknown u), db)
        else case fl 1 of
          Some msg \<Rightarrow> (Some (BmcDb (''create placeholder machine '' @ u) msg), db)
        | None \<Rightarrow>
          (None, db\<lparr>iv_hosts := ins_row \<lparr>hs_uuid = u, hs_serial = [], hs_manufacturer = [], hs_product = [],
             hs_first = unix now, hs_last = unix now, hs_status = StatusUnknown, hs_report = None,
             hs_notes = [], hs_location = []\<rparr> (iv_hosts db)\<rparr>)))"

record checked_cred =
  cc_machine :: string
  cc_ip :: string
  cc_port :: int
  cc_user :: string
  cc_iface :: string
  cc_name :: string

definition check_cred :: "cred_input \<Rightarrow> (bmc_error, checked_cred) result" where
  "check_cred inp =
    and_then (bmc_machine_uuid (ci_machine inp)) (\<lambda>u.
    and_then (bmc_ip (ci_ip inp)) (\<lambda>ip.
    and_then (bmc_port (ci_port inp)) (\<lambda>port.
    and_then (bmc_user (ci_user inp)) (\<lambda>user.
    and_then (bmc_iface (ci_iface inp)) (\<lambda>iface.
    and_then (bmc_name (ci_name inp)) (\<lambda>name.
    and_then (refuse_if (ci_by inp = []) BmcNoActor) (\<lambda>_.
    and_then (refuse_if (is_placeholder u \<and> placeholder_uuid ip \<noteq> u) (BmcMismatch u ip (placeholder_uuid ip))) (\<lambda>_.
      Inr \<lparr>cc_machine = u, cc_ip = ip, cc_port = port, cc_user = user, cc_iface = iface, cc_name = name\<rparr>))))))))"

definition keep_password :: "cred_input \<Rightarrow> bool" where
  "keep_password inp \<longleftrightarrow> ci_password inp = None \<or> ci_password inp = Some []"

definition overwrite_cred :: "int \<Rightarrow> string \<Rightarrow> checked_cred \<Rightarrow> bmc_row \<Rightarrow> bmc_row" where
  "overwrite_cred now actor c b =
    b\<lparr>bc_ip := cc_ip c, bc_port := cc_port c, bc_user := cc_user c, bc_iface := cc_iface c, bc_name := cc_name c,
      bc_updated := now, bc_by := actor\<rparr>"

text \<open>The search by address that refuses the address of another machine.\<close>

definition ip_conflict :: "string option \<Rightarrow> checked_cred \<Rightarrow> 'r inv_db \<Rightarrow> bmc_error option" where
  "ip_conflict f c db =
    (case find_by_ip f (cc_ip c) db of
       Inl BmcNotFound \<Rightarrow> None
     | Inl (BmcDb op msg) \<Rightarrow> Some (BmcDb (''check bmc ip conflict: '' @ op) msg)
     | Inl e \<Rightarrow> Some e
     | Inr owner \<Rightarrow>
       (if owner \<noteq> [] \<and> owner \<noteq> cc_machine c then Some (BmcIpConflict owner (cc_ip c)) else None))"

text \<open>The second half of \<open>Upsert\<close>, from the check of the address on; \<open>fl\<close> from the search by address.\<close>

definition write_cred ::
  "(string \<Rightarrow> (secret_error, string) result) \<Rightarrow> faults \<Rightarrow> time \<Rightarrow> cred_input \<Rightarrow> checked_cred \<Rightarrow> 'r inv_db \<Rightarrow>
   (bmc_error, credential) result \<times> 'r inv_db"
where
  "write_cred seal fl now inp c db =
    (let u = cc_machine c;
         known = (u \<in> bc_machine ` set (iv_creds db)) in
     case ip_conflict (fl 0) c db of Some e \<Rightarrow> (Inl e, db)
     | None \<Rightarrow>
       (case fl 1 of Some msg \<Rightarrow> (Inl (BmcDb ''check bmc row'' msg), db)
        | None \<Rightarrow>
          (if \<not> known \<and> keep_password inp then (Inl BmcPasswordMissing, db)
           else if keep_password inp then
             (case fl 2 of Some msg \<Rightarrow> (Inl (BmcDb ''update bmc (no password)'' msg), db)
              | None \<Rightarrow>
                (let db' = db\<lparr>iv_creds := upd_where (\<lambda>b. bc_machine b = u)
                                (overwrite_cred (unix now) (ci_by inp) c) (iv_creds db)\<rparr>
                 in (get_cred (fl 3) u db', db')))
           else case and_then (bmc_password (the (ci_password inp))) (\<lambda>p.
                       case seal p of Inl e \<Rightarrow> Inl (BmcSeal e) | Inr ct \<Rightarrow> Inr ct) of
             Inl e \<Rightarrow> (Inl e, db)
           | Inr ct \<Rightarrow>
             (case fl 2 of Some msg \<Rightarrow> (Inl (BmcDb ''upsert bmc'' msg), db)
              | None \<Rightarrow>
                (let db' = db\<lparr>iv_creds :=
                       (if known then upd_where (\<lambda>b. bc_machine b = u)
                          (\<lambda>b. (overwrite_cred (unix now) (ci_by inp) c b)\<lparr>bc_password := ct\<rparr>) (iv_creds db)
                        else ins_row \<lparr>bc_machine = u, bc_ip = cc_ip c, bc_port = cc_port c, bc_user = cc_user c,
                          bc_password = ct, bc_iface = cc_iface c, bc_name = cc_name c,
                          bc_created = unix now, bc_updated = unix now, bc_by = ci_by inp\<rparr> (iv_creds db))\<rparr>
                 in (get_cred (fl 3) u db', db'))))))"

text \<open>The plan of \<open>upsert_cred\<close> has the two statements of \<open>ensure_machine\<close> first.\<close>

definition upsert_cred ::
  "(string \<Rightarrow> (secret_error, string) result) \<Rightarrow> faults \<Rightarrow> time \<Rightarrow> cred_input \<Rightarrow> 'r inv_db \<Rightarrow>
   (bmc_error, credential) result \<times> 'r inv_db"
where
  "upsert_cred seal fl now inp db =
    (case check_cred inp of
       Inl e \<Rightarrow> (Inl e, db)
     | Inr c \<Rightarrow>
       (case ensure_machine fl now (cc_machine c) db of
          (Some e, db') \<Rightarrow> (Inl e, db')
        | (None, db') \<Rightarrow> write_cred seal (later (later fl)) now inp c db'))"

text \<open>The stub of a placeholder goes with its credential; a failure of that is only logged.\<close>

definition delete_cred ::
  "faults \<Rightarrow> (string \<Rightarrow> bool) \<Rightarrow> string \<Rightarrow> 'r inv_db \<Rightarrow> bmc_error option \<times> 'r inv_db"
where
  "delete_cred fl held u0 db =
    (case bmc_machine_uuid u0 of
       Inl e \<Rightarrow> (Some e, db)
     | Inr u \<Rightarrow>
       (case fl 0 of Some msg \<Rightarrow> (Some (BmcDb ''delete bmc'' msg), db)
        | None \<Rightarrow>
          (if hits (\<lambda>b. bc_machine b = u) (iv_creds db) = 0 then (Some BmcNotFound, db)
           else let db' = db\<lparr>iv_creds := del_where (\<lambda>b. bc_machine b = u) (iv_creds db)\<rparr> in
             (None, if is_placeholder u \<and> fl 1 = None \<and> \<not> held u then drop_host u db' else db'))))"

definition cred_taken :: string where
  "cred_taken = ''constraint failed: UNIQUE constraint failed: bmc_credentials.machine_uuid (1555)''"

text \<open>\<open>UPDATE bmc_credentials SET machine_uuid = ? WHERE machine_uuid = ?\<close>, and its key.\<close>

definition move_cred :: "string option \<Rightarrow> string \<Rightarrow> string \<Rightarrow> bmc_row list \<Rightarrow> (bmc_error, bmc_row list) result" where
  "move_cred f to from t =
    (case f of Some msg \<Rightarrow> Inl (BmcDb ''reconcile: migrate credential'' msg)
     | None \<Rightarrow>
       (if to \<in> bc_machine ` set t \<and> to \<noteq> from \<and> from \<in> bc_machine ` set t
        then Inl (BmcDb ''reconcile: migrate credential'' cred_taken)
        else Inr (upd_where (\<lambda>b. bc_machine b = from) (\<lambda>b. b\<lparr>bc_machine := to\<rparr>) t)))"

definition bmc_step :: "string option \<Rightarrow> string \<Rightarrow> (bmc_error, unit) result" where
  "bmc_step f what = (case f of Some msg \<Rightarrow> Inl (BmcDb what msg) | None \<Rightarrow> Inr ())"

text \<open>The transaction both reconciliations run; \<open>what\<close> names the deletion of the stub.\<close>

definition move_to_host ::
  "faults \<Rightarrow> (string \<Rightarrow> bool) \<Rightarrow> string \<Rightarrow> string \<Rightarrow> string \<Rightarrow> 'r inv_db \<Rightarrow> (bmc_error, 'r inv_db) result"
where
  "move_to_host fl held what real owner db =
    and_then (move_cred (fl 0) real owner (iv_creds db)) (\<lambda>creds.
    let db' = db\<lparr>iv_creds := creds\<rparr> in
    and_then
      (if \<not> is_placeholder owner then Inr db'
       else and_then (bmc_step (fl 1) what) (\<lambda>_.
         if held owner \<and> owner \<in> hs_uuid ` set (iv_hosts db) then Inl (BmcDb what row_bound) else Inr (drop_host owner db')))
      (\<lambda>db''. and_then (bmc_step (fl 2) ''reconcile: commit'') (\<lambda>_. Inr db'')))"

definition reconcile_to_machine ::
  "faults \<Rightarrow> (string \<Rightarrow> bool) \<Rightarrow> string \<Rightarrow> string \<Rightarrow> 'r inv_db \<Rightarrow> (bmc_error, bool) result \<times> 'r inv_db"
where
  "reconcile_to_machine fl held real0 ip0 db =
    (let real = lower_trim real0 in
     if \<not> smbios_uuid_match real then (Inl (BmcNotSmbios real), db)
     else case and_then (bmc_ip ip0) (\<lambda>ip. find_by_ip (fl 0) ip db) of
       Inl e \<Rightarrow> (Inl e, db)
     | Inr owner \<Rightarrow>
       (if owner = real then (Inr False, db)
        else case and_then (bmc_step (fl 1) ''reconcile: begin tx'')
                    (\<lambda>_. move_to_host (\<lambda>k. fl (2 + k)) held ''reconcile: drop placeholder machine'' real owner db) of
          Inl e \<Rightarrow> (Inl e, db)
        | Inr db' \<Rightarrow> (Inr True, db')))"

definition reconcile_placeholder ::
  "faults \<Rightarrow> (string \<Rightarrow> bool) \<Rightarrow> string \<Rightarrow> string \<Rightarrow> 'r inv_db \<Rightarrow> bmc_error option \<times> 'r inv_db"
where
  "reconcile_placeholder fl held real0 ip0 db =
    (let real = lower_trim real0 in
     if \<not> smbios_uuid_match real then (Some (BmcNotSmbios real), db)
     else case bmc_ip ip0 of
       Inl e \<Rightarrow> (Some e, db)
     | Inr ip \<Rightarrow>
       (let ph = placeholder_uuid ip in
        if ph = [] then (Some (BmcNoPlaceholder ip0), db)
        else case and_then (bmc_step (fl 0) ''reconcile: begin tx'') (\<lambda>_. bmc_step (fl 1) ''reconcile: lookup placeholder'') of
          Inl e \<Rightarrow> (Some e, db)
        | Inr _ \<Rightarrow>
          (if cred_row ph db = None then (None, db)
           else case move_to_host (\<lambda>k. fl (2 + k)) held ''reconcile: delete placeholder machine'' real ph db of
             Inl e \<Rightarrow> (Some e, db)
           | Inr db' \<Rightarrow> (None, db'))))"

text \<open>What \<open>UpsertReport\<close> calls after its commit, and a report as the controller handles it.\<close>

definition reconcile_report :: "faults \<Rightarrow> (string \<Rightarrow> bool) \<Rightarrow> string \<Rightarrow> string \<Rightarrow> 'r inv_db \<Rightarrow> 'r inv_db" where
  "reconcile_report fl held u ip db = snd (reconcile_placeholder fl held u ip db)"

end
