(* ===== verification/Bmc_Api.thy ===== *)
theory Bmc_Api
  imports Bmc_Store
begin

text \<open>
  The handlers of \<open>internal/bmc/api.go\<close> and the wrapper of \<open>ipmitool\<close>, \<open>internal/ipmi/ipmi.go\<close>. The child
  process is the argument \<open>run\<close>: its environment, its program and its arguments, to its standard output,
  its error output and the text of a failure.
\<close>

subsection \<open>The power commands\<close>

datatype power_action = ActOn | ActOff | ActCycle | ActSoft | ActReset

datatype boot_device = BootPxe | BootDisk

type_synonym runner = "string list \<Rightarrow> string \<Rightarrow> string list \<Rightarrow> string \<times> string \<times> string option"

fun action_text :: "power_action \<Rightarrow> string" where
  "action_text ActOn = ''on''"
| "action_text ActOff = ''off''"
| "action_text ActCycle = ''cycle''"
| "action_text ActSoft = ''soft''"
| "action_text ActReset = ''reset''"

definition redact :: "string \<Rightarrow> string \<Rightarrow> string" where
  "redact b secret = (if secret = [] then b else replace_all secret ''***'' b)"

text \<open>The arguments carry everything but the password, which \<open>-E\<close> takes from the environment.\<close>

definition ipmi_args :: "credential \<Rightarrow> string list" where
  "ipmi_args c =
    [''-H'', cr_ip c, ''-p'', show_int (if cr_port c = 0 then 623 else cr_port c),
     ''-I'', if cr_iface c = [] then ''lanplus'' else cr_iface c, ''-U'', cr_user c, ''-E'']"

definition ipmi_run :: "runner \<Rightarrow> string \<Rightarrow> credential \<times> string \<Rightarrow> string list \<Rightarrow> (string, string) result" where
  "ipmi_run run bin cp args =
    (case run [''IPMI_PASSWORD='' @ snd cp] bin (ipmi_args (fst cp) @ args) of
       (out, err, Some e) \<Rightarrow>
         Inl (''ipmitool '' @ join_with '' '' args @ '': '' @ e @ '': '' @ trim_space (redact err (snd cp)))
     | (out, err, None) \<Rightarrow> Inr out)"

definition only_error :: "('e, 'a) result \<Rightarrow> 'e option" where
  "only_error r = (case r of Inl e \<Rightarrow> Some e | Inr _ \<Rightarrow> None)"

definition set_boot_device :: "runner \<Rightarrow> string \<Rightarrow> credential \<times> string \<Rightarrow> boot_device \<Rightarrow> string option" where
  "set_boot_device run bin cp d =
    only_error (ipmi_run run bin cp [''chassis'', ''bootdev'', case d of BootPxe \<Rightarrow> ''pxe'' | BootDisk \<Rightarrow> ''disk''])"

definition power_command :: "runner \<Rightarrow> string \<Rightarrow> credential \<times> string \<Rightarrow> power_action \<Rightarrow> string option" where
  "power_command run bin cp a = only_error (ipmi_run run bin cp [''chassis'', ''power'', action_text a])"

definition has_suffix :: "string \<Rightarrow> string \<Rightarrow> bool" where
  "has_suffix w s \<longleftrightarrow> starts_with (rev w) (rev s)"

definition power_status :: "runner \<Rightarrow> string \<Rightarrow> credential \<times> string \<Rightarrow> (string, string) result" where
  "power_status run bin cp =
    and_then (ipmi_run run bin cp [''chassis'', ''power'', ''status'']) (\<lambda>out.
      let line = to_lower (trim_space out) in
      Inr (if has_suffix '' on'' line then ''on'' else if has_suffix '' off'' line then ''off'' else ''unknown''))"

definition wrapped :: "string \<Rightarrow> string option \<Rightarrow> string option" where
  "wrapped what e = map_option (\<lambda>m. what @ '': '' @ m) e"

definition boot_for_pxe :: "runner \<Rightarrow> string \<Rightarrow> credential \<times> string \<Rightarrow> string option" where
  "boot_for_pxe run bin cp =
    (case set_boot_device run bin cp BootPxe of
       Some e \<Rightarrow> wrapped ''set bootdev=pxe'' (Some e)
     | None \<Rightarrow> wrapped ''power cycle'' (power_command run bin cp ActCycle))"

definition finalize_boot_disk :: "runner \<Rightarrow> string \<Rightarrow> credential \<times> string \<Rightarrow> string option" where
  "finalize_boot_disk run bin cp =
    (case set_boot_device run bin cp BootDisk of
       Some e \<Rightarrow> wrapped ''set bootdev=disk'' (Some e)
     | None \<Rightarrow> wrapped ''power cycle'' (power_command run bin cp ActCycle))"

subsection \<open>The handlers\<close>

definition api_list_creds :: "faults \<Rightarrow> 'r inv_db \<Rightarrow> credential list answer" where
  "api_list_creds fl db =
    (case list_creds fl db of Inl e \<Rightarrow> (500, ErrorText ''list failed'') | Inr cs \<Rightarrow> (200, Json cs))"

text \<open>What \<open>get\<close>, \<open>test\<close>, \<open>power\<close>, \<open>onboard\<close> and \<open>delete\<close> answer to a failure of the store.\<close>

definition bmc_failure :: "(string \<Rightarrow> string) \<Rightarrow> string \<Rightarrow> bmc_error \<Rightarrow> 'a answer" where
  "bmc_failure q internal e =
    (if e = BmcNotFound then (404, ErrorText ''bmc credential not found'')
     else if contains_sub ''machine_uuid'' (bmc_error_text q e) then (400, ErrorText (bmc_error_text q e))
     else (500, ErrorText internal))"

definition api_get_cred :: "(string \<Rightarrow> string) \<Rightarrow> faults \<Rightarrow> string \<Rightarrow> 'r inv_db \<Rightarrow> credential answer" where
  "api_get_cred q fl raw db =
    (case get_cred (fl 0) (lower_trim raw) db of
       Inl e \<Rightarrow> bmc_failure q ''fetch failed'' e
     | Inr c \<Rightarrow> (200, Json c))"

text \<open>The two parts of the sentence on a conflict, in UTF-8.\<close>

definition owned_text :: string where
  "owned_text =
      [CHR 0x20, CHR 0xE5, CHR 0xB7, CHR 0xB2, CHR 0xE8, CHR 0xA2, CHR 0xAB, CHR 0xE6, CHR 0x9C, CHR 0xBA, CHR 0xE5,
       CHR 0x99, CHR 0xA8, CHR 0x20]"

definition same_machine_text :: string where
  "same_machine_text =
      [CHR 0x20, CHR 0xE6, CHR 0xB3, CHR 0xA8, CHR 0xE5, CHR 0x86, CHR 0x8C, CHR 0xEF, CHR 0xBC, CHR 0x8C, CHR 0xE8,
       CHR 0xAF, CHR 0xB7, CHR 0xE7, CHR 0xA1, CHR 0xAE, CHR 0xE8, CHR 0xAE, CHR 0xA4, CHR 0xE6, CHR 0x98, CHR 0xAF,
       CHR 0xE5, CHR 0x90, CHR 0xA6, CHR 0xE5, CHR 0x90, CHR 0x8C, CHR 0xE4, CHR 0xB8, CHR 0x80, CHR 0xE5, CHR 0x8F,
       CHR 0xB0, CHR 0xE6, CHR 0x9C, CHR 0xBA, CHR 0xE5, CHR 0x99, CHR 0xA8]"

definition api_put_cred ::
  "(string \<Rightarrow> string) \<Rightarrow> (string \<Rightarrow> (secret_error, string) result) \<Rightarrow> faults \<Rightarrow> time \<Rightarrow> string \<Rightarrow> string \<Rightarrow>
   (string, cred_input) result \<Rightarrow> 'r inv_db \<Rightarrow> credential answer \<times> 'r inv_db"
where
  "api_put_cred q seal fl now actor raw dec db =
    (case dec of
       Inl msg \<Rightarrow> ((400, ErrorText (''invalid json: '' @ msg)), db)
     | Inr inp \<Rightarrow>
       (case upsert_cred seal fl now (inp\<lparr>ci_machine := raw, ci_by := actor\<rparr>) db of
          (Inl (BmcMachineUnknown u), db') \<Rightarrow> ((422, ErrorText (bmc_error_text q (BmcMachineUnknown u))), db')
        | (Inl (BmcIpConflict u ip), db') \<Rightarrow>
            ((409, ErrorText (''bmc ip '' @ q ip @ owned_text @ u @ same_machine_text)), db')
        | (Inl e, db') \<Rightarrow> ((400, ErrorText (bmc_error_text q e)), db')
        | (Inr c, db') \<Rightarrow> ((200, Json c), db')))"

datatype created = CreatedCred credential | ExistingOwner string

text \<open>The plan has the search by address first, then the statements of \<open>upsert_cred\<close>.\<close>

definition api_create_cred ::
  "(string \<Rightarrow> string) \<Rightarrow> (string \<Rightarrow> (secret_error, string) result) \<Rightarrow> faults \<Rightarrow> time \<Rightarrow> string \<Rightarrow>
   (string, cred_input) result \<Rightarrow> 'r inv_db \<Rightarrow> created answer \<times> 'r inv_db"
where
  "api_create_cred q seal fl now actor dec db =
    (case dec of
       Inl msg \<Rightarrow> ((400, ErrorText (''invalid json: '' @ msg)), db)
     | Inr inp \<Rightarrow>
       (case bmc_ip (ci_ip inp) of
          Inl e \<Rightarrow> ((400, ErrorText (bmc_error_text q e)), db)
        | Inr ip \<Rightarrow>
          (case find_by_ip (fl 0) ip db of
             Inr owner \<Rightarrow> ((409, Json (ExistingOwner owner)), db)
           | Inl _ \<Rightarrow>
             (case upsert_cred seal (later fl) now
                     (inp\<lparr>ci_ip := ip, ci_machine := placeholder_uuid ip, ci_by := actor\<rparr>) db of
                (Inl e, db') \<Rightarrow> ((400, ErrorText (bmc_error_text q e)), db')
              | (Inr c, db') \<Rightarrow> ((201, Json (CreatedCred c)), db')))))"

definition api_delete_cred ::
  "(string \<Rightarrow> string) \<Rightarrow> faults \<Rightarrow> (string \<Rightarrow> bool) \<Rightarrow> string \<Rightarrow> 'r inv_db \<Rightarrow> unit answer \<times> 'r inv_db"
where
  "api_delete_cred q fl held raw db =
    (case delete_cred fl held raw db of
       (Some e, db') \<Rightarrow> (bmc_failure q ''delete failed'' e, db')
     | (None, db') \<Rightarrow> ((204, Empty), db'))"

text \<open>The three calls that reach a BMC: the tester is \<open>None\<close> when it is not wired; \<open>Ok\<close> or its error, both 200.\<close>

datatype probe = ProbeOk string | ProbeFailed string

definition probed :: "(string, string) result \<Rightarrow> probe answer" where
  "probed r = (case r of Inl e \<Rightarrow> (200, Json (ProbeFailed e)) | Inr s \<Rightarrow> (200, Json (ProbeOk s)))"

definition after_command :: "string option \<Rightarrow> string \<Rightarrow> (string, string) result" where
  "after_command e s = (case e of Some m \<Rightarrow> Inl m | None \<Rightarrow> Inr s)"

definition with_cred ::
  "(string \<Rightarrow> string) \<Rightarrow> (string \<Rightarrow> (secret_error, string) result) \<Rightarrow> faults \<Rightarrow> string \<Rightarrow> 'r inv_db \<Rightarrow>
   (credential \<times> string \<Rightarrow> (string, string) result) \<Rightarrow> probe answer"
where
  "with_cred q unseal fl raw db call =
    (case get_with_password unseal (fl 0) (lower_trim raw) db of
       Inl e \<Rightarrow> bmc_failure q ''load failed'' e
     | Inr cp \<Rightarrow> probed (call cp))"

definition no_tester :: "probe answer" where
  "no_tester = (503, ErrorText ''ipmi not available on this controller'')"

definition api_test_cred ::
  "(string \<Rightarrow> string) \<Rightarrow> (string \<Rightarrow> (secret_error, string) result) \<Rightarrow> (runner \<times> string) option \<Rightarrow> faults \<Rightarrow> string \<Rightarrow>
   'r inv_db \<Rightarrow> probe answer"
where
  "api_test_cred q unseal tester fl raw db =
    (case tester of None \<Rightarrow> no_tester
     | Some (run, bin) \<Rightarrow> with_cred q unseal fl raw db (power_status run bin))"

definition action_of :: "string \<Rightarrow> power_action option" where
  "action_of s = find (\<lambda>a. action_text a = s) [ActOn, ActOff, ActCycle, ActSoft, ActReset]"

definition api_power ::
  "(string \<Rightarrow> string) \<Rightarrow> (string \<Rightarrow> (secret_error, string) result) \<Rightarrow> (runner \<times> string) option \<Rightarrow> faults \<Rightarrow> string \<Rightarrow>
   string \<Rightarrow> 'r inv_db \<Rightarrow> probe answer"
where
  "api_power q unseal tester fl raw raw_action db =
    (case tester of None \<Rightarrow> no_tester
     | Some (run, bin) \<Rightarrow>
       (case action_of (lower_trim raw_action) of
          None \<Rightarrow> (400, ErrorText (''unknown action: '' @ lower_trim raw_action))
        | Some a \<Rightarrow> with_cred q unseal fl raw db (\<lambda>cp. after_command (power_command run bin cp a) (action_text a))))"

definition api_onboard ::
  "(string \<Rightarrow> string) \<Rightarrow> (string \<Rightarrow> (secret_error, string) result) \<Rightarrow> (runner \<times> string) option \<Rightarrow> faults \<Rightarrow> string \<Rightarrow>
   'r inv_db \<Rightarrow> probe answer"
where
  "api_onboard q unseal tester fl raw db =
    (case tester of None \<Rightarrow> no_tester
     | Some (run, bin) \<Rightarrow> with_cred q unseal fl raw db (\<lambda>cp. after_command (boot_for_pxe run bin cp) ''onboard''))"

text \<open>The plan has the query of the inventory first; the answer is whether a row moved, and the address.\<close>

definition api_reconcile ::
  "(string \<Rightarrow> string) \<Rightarrow> bool \<Rightarrow> faults \<Rightarrow> (string \<Rightarrow> bool) \<Rightarrow> string \<Rightarrow> 'r inv_db \<Rightarrow> (bool \<times> string) answer \<times> 'r inv_db"
where
  "api_reconcile q wired fl held raw db =
    (if \<not> wired then ((503, ErrorText ''inventory store not wired''), db)
     else case reported_bmc_ip fl raw db of
       Inl e \<Rightarrow> ((500, ErrorText ''fetch report failed''), db)
     | Inr ip \<Rightarrow>
       (if ip = [] then
          ((409, ErrorText ''machine has no BMC IP in its latest report; let it PXE-report once first''), db)
        else case reconcile_to_machine (later fl) held raw ip db of
          (Inl BmcNotFound, db') \<Rightarrow> ((404, ErrorText (''no BMC credential registered for reported IP '' @ ip)), db')
        | (Inl e, db') \<Rightarrow> ((500, ErrorText (''reconcile failed: '' @ bmc_error_text q e)), db')
        | (Inr m, db') \<Rightarrow> ((200, Json (m, ip)), db')))"

end
