(* ===== verification/Inv_Props.thy ===== *)
theory Inv_Props
  imports Bmc_Api
begin

text \<open>
  The invariant of the inventory's database under everything the controller does to it, and what the
  interfaces promise: a report is read back, a busy machine stays, the credential of a BMC follows the
  machine that reports its address.
\<close>

subsection \<open>The invariant\<close>

definition newest_report :: "'r report_row list \<Rightarrow> host \<Rightarrow> bool" where
  "newest_report rs h \<longleftrightarrow>
    (case hs_report h of
       None \<Rightarrow> (\<forall>r \<in> set rs. rr_uuid r \<noteq> hs_uuid h)
     | Some i \<Rightarrow> (\<exists>r \<in> set rs. rr_id r = i \<and> rr_uuid r = hs_uuid h) \<and>
                 (\<forall>r \<in> set rs. rr_uuid r = hs_uuid h \<longrightarrow> rr_id r \<le> i))"

definition hosts_ok :: "'r inv_db \<Rightarrow> bool" where
  "hosts_ok db \<longleftrightarrow>
    keyed hs_uuid (iv_hosts db) \<and> keyed mr_mac (iv_macs db) \<and> keyed rr_id (iv_reports db) \<and> 0 \<le> iv_seq db \<and>
    (\<forall>r \<in> set (iv_reports db). 0 < rr_id r \<and> rr_id r \<le> iv_seq db) \<and>
    mr_uuid ` set (iv_macs db) \<subseteq> hs_uuid ` set (iv_hosts db) \<and>
    rr_uuid ` set (iv_reports db) \<subseteq> hs_uuid ` set (iv_hosts db) \<and>
    fst ` set (iv_beats db) \<subseteq> hs_uuid ` set (iv_hosts db) \<and>
    (\<forall>h \<in> set (iv_hosts db). newest_report (iv_reports db) h)"

definition cred_ok :: "bmc_row \<Rightarrow> bool" where
  "cred_ok b \<longleftrightarrow>
    (\<exists>a. bc_ip b = show_ip4 a) \<and> 1 \<le> bc_port b \<and> bc_port b \<le> 65535 \<and> bc_iface b \<in> {''lan'', ''lanplus''} \<and>
    bc_machine b \<noteq> [] \<and> (is_placeholder (bc_machine b) \<longrightarrow> bc_machine b = placeholder_uuid (bc_ip b))"

definition creds_ok :: "bmc_row list \<Rightarrow> bool" where
  "creds_ok t \<longleftrightarrow> keyed bc_machine t \<and> keyed bc_ip t \<and> (\<forall>b \<in> set t. cred_ok b)"

definition inv_ok :: "'r inv_db \<Rightarrow> bool" where
  "inv_ok db \<longleftrightarrow> hosts_ok db \<and> creds_ok (iv_creds db)"

definition empty_inv :: "'r inv_db" where
  "empty_inv = \<lparr>iv_hosts = [], iv_macs = [], iv_reports = [], iv_seq = 0, iv_beats = [], iv_creds = []\<rparr>"

lemma empty_inv_ok [simp]: "inv_ok empty_inv"
  by (simp add: inv_ok_def hosts_ok_def creds_ok_def empty_inv_def)

subsection \<open>The machines\<close>

lemma hosts_okI:
  assumes "keyed hs_uuid (iv_hosts db)" "keyed mr_mac (iv_macs db)" "keyed rr_id (iv_reports db)" "0 \<le> iv_seq db"
    "\<And>r. r \<in> set (iv_reports db) \<Longrightarrow> 0 < rr_id r \<and> rr_id r \<le> iv_seq db"
    "mr_uuid ` set (iv_macs db) \<subseteq> hs_uuid ` set (iv_hosts db)"
    "rr_uuid ` set (iv_reports db) \<subseteq> hs_uuid ` set (iv_hosts db)"
    "fst ` set (iv_beats db) \<subseteq> hs_uuid ` set (iv_hosts db)"
    "\<And>h. h \<in> set (iv_hosts db) \<Longrightarrow> newest_report (iv_reports db) h"
  shows "hosts_ok db"
  using assms by (simp add: hosts_ok_def)

lemma hosts_okD:
  assumes "hosts_ok db"
  shows "keyed hs_uuid (iv_hosts db)" "keyed mr_mac (iv_macs db)" "keyed rr_id (iv_reports db)" "0 \<le> iv_seq db"
    "r \<in> set (iv_reports db) \<Longrightarrow> 0 < rr_id r \<and> rr_id r \<le> iv_seq db"
    "mr_uuid ` set (iv_macs db) \<subseteq> hs_uuid ` set (iv_hosts db)"
    "rr_uuid ` set (iv_reports db) \<subseteq> hs_uuid ` set (iv_hosts db)"
    "fst ` set (iv_beats db) \<subseteq> hs_uuid ` set (iv_hosts db)"
    "h \<in> set (iv_hosts db) \<Longrightarrow> newest_report (iv_reports db) h"
  using assms by (simp_all add: hosts_ok_def)

lemma hosts_ok_creds [simp]: "hosts_ok (db\<lparr>iv_creds := t\<rparr>) \<longleftrightarrow> hosts_ok db"
  by (simp add: hosts_ok_def)

lemma uuids_upd:
  assumes "\<And>h. hs_uuid (f h) = hs_uuid h"
  shows "hs_uuid ` set (upd_where p f t) = hs_uuid ` set t"
  using map_upd_where [of t p hs_uuid f] assms by (metis list.set_map)

lemma hosts_ok_upd:
  assumes ok: "hosts_ok db" and f: "\<And>h. hs_uuid (f h) = hs_uuid h" "\<And>h. hs_report (f h) = hs_report h"
  shows "hosts_ok (db\<lparr>iv_hosts := upd_where p f (iv_hosts db)\<rparr>)"
proof -
  have new: "newest_report rs (f h) = newest_report rs h" for rs :: "'a report_row list" and h
    by (simp add: newest_report_def f split: option.split)
  have "keyed hs_uuid (upd_where p f (iv_hosts db))"
    using ok by (auto simp: hosts_ok_def f intro: keyed_upd)
  moreover have "\<forall>h \<in> set (upd_where p f (iv_hosts db)). newest_report (iv_reports db) h"
    using ok by (auto simp: hosts_ok_def set_upd_where new)
  ultimately show ?thesis
    using ok by (simp add: hosts_ok_def uuids_upd f)
qed

lemma hosts_ok_beat:
  assumes "hosts_ok db" "u \<in> hs_uuid ` set (iv_hosts db)"
  shows "hosts_ok (db\<lparr>iv_beats := ins_row (u, t) (iv_beats db)\<rparr>)"
  using assms by (simp add: hosts_ok_def)

lemma hosts_ok_insert:
  assumes ok: "hosts_ok db" and u: "hs_uuid h \<notin> hs_uuid ` set (iv_hosts db)" and r: "hs_report h = None"
  shows "hosts_ok (db\<lparr>iv_hosts := ins_row h (iv_hosts db)\<rparr>)"
proof -
  have k: "keyed hs_uuid (ins_row h (iv_hosts db))"
    by (rule keyed_ins [OF hosts_okD(1) [OF ok]]) (metis imageI u)
  have "rr_uuid q \<noteq> hs_uuid h" if "q \<in> set (iv_reports db)" for q
    using hosts_okD(7) [OF ok] u that by (metis imageI subsetD)
  then have "newest_report (iv_reports db) h" using r by (simp add: newest_report_def)
  then show ?thesis
    using k ok by (auto simp: hosts_ok_def)
qed

lemma newest_report_drop:
  "newest_report rs h \<Longrightarrow> hs_uuid h \<noteq> u \<Longrightarrow> newest_report (del_where (\<lambda>r. rr_uuid r = u) rs) h"
  by (auto simp: newest_report_def split: option.splits)

lemma refs_drop:
  assumes "f ` set t \<subseteq> g ` set s"
  shows "f ` set (del_where (\<lambda>x. f x = u) t) \<subseteq> g ` set (del_where (\<lambda>y. g y = u) s)"
proof
  fix x assume "x \<in> f ` set (del_where (\<lambda>x. f x = u) t)"
  then obtain y where "y \<in> set t" "x = f y" "f y \<noteq> u" by auto
  then show "x \<in> g ` set (del_where (\<lambda>y. g y = u) s)" using assms by fastforce
qed

lemma hosts_ok_drop:
  assumes "hosts_ok db"
  shows "hosts_ok (drop_host u db)"
  unfolding drop_host_def
  by (rule hosts_okI)
    (simp_all add: hosts_okD [OF assms] keyed_del refs_drop newest_report_drop del: set_del_where
      | auto intro: hosts_okD [OF assms] newest_report_drop)+

lemma drop_host_creds [simp]: "iv_creds (drop_host u db) = iv_creds db"
  by (simp add: drop_host_def)

subsection \<open>A report\<close>

lemma insert_macs_rows:
  assumes "insert_macs fl k u seen ms t = Inr (n, t')" "keyed mr_mac t" "mr_uuid ` set t \<subseteq> U" "u \<in> U"
  shows "keyed mr_mac t' \<and> mr_uuid ` set t' \<subseteq> U"
  using assms
proof (induction ms arbitrary: k seen t)
  case (Cons m ms)
  obtain raw role where m: "m = (raw, role)" by (cases m)
  show ?case
  proof (cases "report_mac raw = [] \<or> report_mac raw \<in> set seen")
    case True
    with Cons m show ?thesis by simp
  next
    case False
    let ?row = "\<lparr>mr_uuid = u, mr_mac = report_mac raw, mr_role = role\<rparr>"
    have new: "report_mac raw \<notin> mr_mac ` set t"
      and rest: "insert_macs fl (Suc k) u (report_mac raw # seen) ms (ins_row ?row t) = Inr (n, t')"
      using Cons.prems(1) m False by (auto simp: Let_def split: if_splits option.splits)
    have "keyed mr_mac (ins_row ?row t)" by (rule keyed_ins [OF Cons.prems(2)]) (metis imageI mac_row.select_convs(2) new)
    from Cons.IH [OF rest this] show ?thesis using Cons.prems(3,4) by simp
  qed
qed simp

lemma report_tx_cases:
  assumes "report_tx fl now u r db = Inr (i, db')"
  obtains n macs where
    "insert_macs fl 3 u [] (report_macs r) (del_where (\<lambda>m. mr_uuid m = u) (iv_macs db)) = Inr (n, macs)"
    "i = iv_seq db + 1"
    "db' = db\<lparr>iv_hosts := upd_where (\<lambda>h. hs_uuid h = u) (\<lambda>h. h\<lparr>hs_report := Some i\<rparr>) (upsert_host now u r (iv_hosts db)),
              iv_macs := macs, iv_reports := ins_row \<lparr>rr_id = i, rr_uuid = u, rr_ts = unix now, rr_body = r\<rparr> (iv_reports db),
              iv_seq := i\<rparr>"
  using assms by (auto simp: report_tx_def and_then_Inr Let_def)

lemma upsert_host_ok:
  assumes "hosts_ok db"
  shows "hosts_ok (db\<lparr>iv_hosts := upsert_host now u r (iv_hosts db)\<rparr>)" "u \<in> hs_uuid ` set (upsert_host now u r (iv_hosts db))"
proof -
  show "hosts_ok (db\<lparr>iv_hosts := upsert_host now u r (iv_hosts db)\<rparr>)"
  proof (cases "u \<in> hs_uuid ` set (iv_hosts db)")
    case True
    then show ?thesis using assms by (simp add: upsert_host_def hosts_ok_upd)
  next
    case False
    then show ?thesis using assms by (simp add: upsert_host_def hosts_ok_insert)
  qed
  show "u \<in> hs_uuid ` set (upsert_host now u r (iv_hosts db))"
    by (simp add: upsert_host_def uuids_upd)
qed

lemma latest_set:
  "h \<in> set (upd_where (\<lambda>h. hs_uuid h = u) (\<lambda>h. h\<lparr>hs_report := x\<rparr>) t) \<Longrightarrow>
    hs_uuid h = u \<and> hs_report h = x \<or> hs_uuid h \<noteq> u \<and> h \<in> set t"
  by (auto simp: set_upd_where)

lemma report_tx_ok:
  assumes ok: "hosts_ok db" and tx: "report_tx fl now u r db = Inr (i, db')"
  shows "hosts_ok db'"
  using tx
proof (rule report_tx_cases)
  fix n macs
  let ?hs = "upsert_host now u r (iv_hosts db)"
  let ?row = "\<lparr>rr_id = i, rr_uuid = u, rr_ts = unix now, rr_body = r\<rparr>"
  let ?hs' = "upd_where (\<lambda>h. hs_uuid h = u) (\<lambda>h. h\<lparr>hs_report := Some i\<rparr>) ?hs"
  assume ins: "insert_macs fl 3 u [] (report_macs r) (del_where (\<lambda>m. mr_uuid m = u) (iv_macs db)) = Inr (n, macs)"
    and i: "i = iv_seq db + 1"
    and db': "db' = db\<lparr>iv_hosts := ?hs', iv_macs := macs, iv_reports := ins_row ?row (iv_reports db), iv_seq := i\<rparr>"
  note up = upsert_host_ok [OF ok, where now = now and u = u and r = r]
  have k: "keyed hs_uuid ?hs'" using keyed_upd [OF hosts_okD(1) [OF up(1)]] by simp
  have us: "hs_uuid ` set ?hs' = hs_uuid ` set ?hs" by (simp add: uuids_upd)
  have "mr_uuid ` set (del_where (\<lambda>m. mr_uuid m = u) (iv_macs db)) \<subseteq> hs_uuid ` set ?hs"
    using hosts_okD(6) [OF up(1)] by auto
  then have m: "keyed mr_mac macs \<and> mr_uuid ` set macs \<subseteq> hs_uuid ` set ?hs"
    using insert_macs_rows [OF ins keyed_del [OF hosts_okD(2) [OF ok]]] up(2) by blast
  have ids: "rr_id q < i" if "q \<in> set (iv_reports db)" for q using hosts_okD(5) [OF ok that] i by simp
  have rk: "keyed rr_id (ins_row ?row (iv_reports db))"
    by (rule keyed_ins [OF hosts_okD(3) [OF ok]]) (use ids in fastforce)
  have new: "newest_report (ins_row ?row (iv_reports db)) h" if h: "h \<in> set ?hs'" for h
  proof (cases "hs_uuid h = u")
    case True
    then have "hs_report h = Some i" using latest_set [OF h] by simp
    moreover have "rr_id q \<le> i" if "q \<in> set (ins_row ?row (iv_reports db))" for q using that by (auto dest!: ids)
    ultimately show ?thesis using True by (simp add: newest_report_def)
  next
    case False
    then have "h \<in> set ?hs" using latest_set [OF h] by simp
    then have "newest_report (iv_reports db) h" using hosts_okD(9) [OF up(1)] by simp
    then show ?thesis using False by (auto simp: newest_report_def split: option.splits)
  qed
  have "0 < rr_id q \<and> rr_id q \<le> i" if "q \<in> set (ins_row ?row (iv_reports db))" for q
    using that hosts_okD(4) [OF ok] i by (auto dest!: hosts_okD(5) [OF ok])
  moreover have "rr_uuid ` set (ins_row ?row (iv_reports db)) \<subseteq> hs_uuid ` set ?hs"
    using hosts_okD(7) [OF up(1)] up(2) by simp
  moreover have "fst ` set (iv_beats db) \<subseteq> hs_uuid ` set ?hs" using hosts_okD(8) [OF up(1)] by simp
  ultimately show "hosts_ok db'"
    using k us m rk new i hosts_okD(4) [OF ok] unfolding db' by (intro hosts_okI) simp_all
qed

subsection \<open>The credentials\<close>

lemma keyed_upd_one:
  assumes d: "distinct (upd_where p f t)" and k: "keyed key t"
    and one: "\<And>a b. a \<in> set t \<Longrightarrow> b \<in> set t \<Longrightarrow> p a \<Longrightarrow> p b \<Longrightarrow> a = b"
    and x: "\<And>b. b \<in> set t \<Longrightarrow> p b \<Longrightarrow> key (f b) = x" and new: "\<And>b. b \<in> set t \<Longrightarrow> key b = x \<Longrightarrow> p b"
  shows "keyed key (upd_where p f t)"
proof -
  have "inj_on key (set (upd_where p f t))"
  proof (rule inj_onI)
    fix a b assume ab: "a \<in> set (upd_where p f t)" "b \<in> set (upd_where p f t)" "key a = key b"
    have cases: "(\<exists>c \<in> set t. p c \<and> e = f c \<and> key e = x) \<or> (e \<in> set t \<and> \<not> p e \<and> key e \<noteq> x)"
      if "e \<in> set (upd_where p f t)" for e
      using that x new by (fastforce simp: set_upd_where)
    from cases [OF ab(1)] cases [OF ab(2)] ab(3) show "a = b"
      using one keyed_unique [OF k] by metis
  qed
  then show ?thesis using d by (simp add: keyed_def distinct_map)
qed

lemma smbios_not_placeholder: "smbios_uuid_match u \<Longrightarrow> \<not> is_placeholder u"
proof
  assume m: "smbios_uuid_match u" and "is_placeholder u"
  then have "take (length placeholder_prefix) u = placeholder_prefix"
    by (simp add: is_placeholder_def starts_with_def)
  then have "u = ''placeholder'' @ CHR ''-'' # drop (length placeholder_prefix) u" (is "u = _ @ _ # ?r")
    using append_take_drop_id [of "length placeholder_prefix" u] by (simp add: placeholder_prefix_def)
  then have "split_on CHR ''-'' u = ''placeholder'' # split_on CHR ''-'' ?r"
    using split_on_append [of "CHR ''-''" "''placeholder''" ?r] by simp
  then show False using m by (simp add: smbios_uuid_match_def hex_run_def split: list.splits)
qed

lemma bmc_ip_show [simp]: "bmc_ip (show_ip4 a) = Inr (show_ip4 a)"
  by (simp add: bmc_ip_def)

lemma bmc_ip_Inr: "bmc_ip ip0 = Inr ip \<Longrightarrow> \<exists>a. ip = show_ip4 a"
  by (auto simp: bmc_ip_def Let_def split: option.splits)

lemma placeholder_uuid_show: "placeholder_uuid (show_ip4 a) = placeholder_prefix @ swap_char CHR ''.'' CHR ''-'' (show_ip4 a)"
  by (simp add: placeholder_uuid_def)

lemma bmc_machine_uuid_Inr: "bmc_machine_uuid u0 = Inr u \<Longrightarrow> u \<noteq> []"
  by (auto simp: bmc_machine_uuid_def validate_placeholder_def Let_def placeholder_uuid_show placeholder_prefix_def
      smbios_uuid_match_def split: if_splits option.splits)

lemma check_cred_Inr:
  assumes "check_cred inp = Inr c"
  shows "\<exists>a. cc_ip c = show_ip4 a" "1 \<le> cc_port c" "cc_port c \<le> 65535" "cc_iface c \<in> {''lan'', ''lanplus''}"
    "cc_machine c \<noteq> []" "is_placeholder (cc_machine c) \<Longrightarrow> cc_machine c = placeholder_uuid (cc_ip c)"
proof -
  show "\<exists>a. cc_ip c = show_ip4 a" using assms by (auto simp: check_cred_def and_then_Inr dest: bmc_ip_Inr)
  show "1 \<le> cc_port c" "cc_port c \<le> 65535"
    using assms by (auto simp: check_cred_def and_then_Inr bmc_port_def split: if_splits)
  show "cc_iface c \<in> {''lan'', ''lanplus''}"
    using assms by (auto simp: check_cred_def and_then_Inr bmc_iface_def Let_def split: if_splits)
  show "cc_machine c \<noteq> []"
    using assms bmc_machine_uuid_Inr by (auto simp: check_cred_def and_then_Inr)
  show "is_placeholder (cc_machine c) \<Longrightarrow> cc_machine c = placeholder_uuid (cc_ip c)"
    using assms by (auto simp: check_cred_def and_then_Inr)
qed

lemma no_conflict_owner:
  assumes ok: "creds_ok (iv_creds db)" and c: "check_cred inp = Inr c" and none: "ip_conflict f c db = None"
    and b: "b \<in> set (iv_creds db)" "bc_ip b = cc_ip c" "bc_machine b \<noteq> []"
  shows "bc_machine b = cc_machine c"
proof -
  obtain a where a: "cc_ip c = show_ip4 a" using check_cred_Inr(1) [OF c] by blast
  have "sel_row (\<lambda>q. bc_ip q = show_ip4 a) (iv_creds db) = Some b"
    using keyed_sel [of bc_ip "iv_creds db" b] ok b a by (simp add: creds_ok_def)
  then show ?thesis using none a b(3) by (simp add: ip_conflict_def find_by_ip_def split: option.splits if_splits)
qed

lemma creds_ok_overwrite:
  assumes ok: "creds_ok t" and c: "check_cred inp = Inr c"
    and own: "\<And>b. b \<in> set t \<Longrightarrow> bc_ip b = cc_ip c \<Longrightarrow> bc_machine b = cc_machine c"
    and f: "\<And>b. bc_machine (f b) = bc_machine b \<and> bc_ip (f b) = cc_ip c \<and> bc_port (f b) = cc_port c \<and> bc_iface (f b) = cc_iface c"
  shows "creds_ok (upd_where (\<lambda>b. bc_machine b = cc_machine c) f t)"
proof -
  let ?t = "upd_where (\<lambda>b. bc_machine b = cc_machine c) f t"
  have k: "keyed bc_machine ?t" using ok f by (auto simp: creds_ok_def intro: keyed_upd)
  then have "distinct ?t" by (simp add: keyed_def distinct_map)
  then have "keyed bc_ip ?t"
  proof (rule keyed_upd_one)
    show "keyed bc_ip t" using ok by (simp add: creds_ok_def)
    show "a = b" if "a \<in> set t" "b \<in> set t" "bc_machine a = cc_machine c" "bc_machine b = cc_machine c" for a b
      using keyed_unique [of bc_machine t] ok that by (simp add: creds_ok_def)
  qed (use f own in auto)
  moreover have "cred_ok (f b)" if "bc_machine b = cc_machine c" for b
    using f [of b] check_cred_Inr [OF c] that by (auto simp: cred_ok_def)
  ultimately show ?thesis using k ok by (auto simp: creds_ok_def set_upd_where)
qed

lemma creds_ok_insert:
  assumes ok: "creds_ok t" and c: "check_cred inp = Inr c" and new: "cc_machine c \<notin> bc_machine ` set t"
    and own: "\<And>b. b \<in> set t \<Longrightarrow> bc_ip b = cc_ip c \<Longrightarrow> bc_machine b = cc_machine c"
    and b: "bc_machine b = cc_machine c" "bc_ip b = cc_ip c" "bc_port b = cc_port c" "bc_iface b = cc_iface c"
  shows "creds_ok (ins_row b t)"
proof -
  have "keyed bc_machine (ins_row b t)" using ok new b by (intro keyed_ins) (auto simp: creds_ok_def image_iff)
  moreover have "keyed bc_ip (ins_row b t)" using ok own new b by (intro keyed_ins) (auto simp: creds_ok_def image_iff)
  moreover have "cred_ok b" using check_cred_Inr [OF c] b by (auto simp: cred_ok_def)
  ultimately show ?thesis using ok by (simp add: creds_ok_def)
qed

lemma write_cred_cases:
  assumes "write_cred seal fl now inp c db = (r, db')"
  obtains "db' = db"
  | f where "ip_conflict (fl 0) c db = None"
      "db' = db\<lparr>iv_creds := upd_where (\<lambda>b. bc_machine b = cc_machine c) f (iv_creds db)\<rparr>"
      "\<And>b. bc_machine (f b) = bc_machine b \<and> bc_ip (f b) = cc_ip c \<and> bc_port (f b) = cc_port c \<and> bc_iface (f b) = cc_iface c"
  | b where "ip_conflict (fl 0) c db = None" "cc_machine c \<notin> bc_machine ` set (iv_creds db)"
      "db' = db\<lparr>iv_creds := ins_row b (iv_creds db)\<rparr>"
      "bc_machine b = cc_machine c" "bc_ip b = cc_ip c" "bc_port b = cc_port c" "bc_iface b = cc_iface c"
proof -
  have f: "bc_machine (overwrite_cred n a c b) = bc_machine b \<and> bc_ip (overwrite_cred n a c b) = cc_ip c
      \<and> bc_port (overwrite_cred n a c b) = cc_port c \<and> bc_iface (overwrite_cred n a c b) = cc_iface c" for n a b
    by (simp add: overwrite_cred_def)
  let ?k = "cc_machine c \<in> bc_machine ` set (iv_creds db)"
  define ct where "ct = and_then (bmc_password (the (ci_password inp))) (\<lambda>p.
                       case seal p of Inl e \<Rightarrow> Inl (BmcSeal e) | Inr ct \<Rightarrow> Inr ct)"
  show thesis
  proof (cases "ip_conflict (fl 0) c db = None \<and> fl 1 = None \<and> fl 2 = None")
    case False
    then have "db' = db"
      using assms unfolding write_cred_def Let_def ct_def [symmetric]
      by (cases "ip_conflict (fl 0) c db"; cases "fl 1"; cases "fl 2"; cases ct) (auto split: if_splits)
    then show ?thesis by (rule that(1))
  next
    case True
    note w = assms [unfolded write_cred_def Let_def ct_def [symmetric]]
    consider "keep_password inp" "?k" | "keep_password inp" "\<not> ?k" | e where "\<not> keep_password inp" "ct = Inl e"
      | x where "\<not> keep_password inp" "ct = Inr x" "?k" | x where "\<not> keep_password inp" "ct = Inr x" "\<not> ?k"
      by (cases ct) blast+
    then show ?thesis
    proof cases
      case 1
      then show ?thesis
        using w True f by (intro that(2) [of "overwrite_cred (unix now) (ci_by inp) c"]) simp_all
    next
      case (4 x)
      then show ?thesis
        using w True f by (intro that(2) [of "\<lambda>b. (overwrite_cred (unix now) (ci_by inp) c b)\<lparr>bc_password := x\<rparr>"]) simp_all
    next
      case (5 x)
      then show ?thesis using w True by (auto intro: that(3))
    qed (use w True that(1) in auto)
  qed
qed

lemma write_cred_ok:
  assumes ok: "inv_ok db" and c: "check_cred inp = Inr c" and w: "write_cred seal fl now inp c db = (r, db')"
  shows "inv_ok db'"
proof -
  have creds: "creds_ok (iv_creds db)" using ok by (simp add: inv_ok_def)
  have own: "bc_machine b = cc_machine c"
    if "ip_conflict (fl 0) c db = None" "b \<in> set (iv_creds db)" "bc_ip b = cc_ip c" for b
    using no_conflict_owner [OF creds c that] creds that(2) by (auto simp: creds_ok_def cred_ok_def)
  from w show ?thesis
  proof (cases rule: write_cred_cases)
    case 1
    then show ?thesis using ok by simp
  next
    case (2 f)
    then show ?thesis using ok creds_ok_overwrite [OF creds c own [OF 2(1)] 2(3)] by (simp add: inv_ok_def)
  next
    case (3 b)
    then show ?thesis using ok creds_ok_insert [OF creds c 3(2) own [OF 3(1)] 3(4-7)] by (simp add: inv_ok_def)
  qed
qed

lemma ensure_machine_ok:
  assumes ok: "inv_ok db" and e: "ensure_machine fl now u db = (r, db')"
  shows "inv_ok db'"
  using assms
  by (auto simp: ensure_machine_def inv_ok_def intro!: hosts_ok_insert split: option.splits if_splits)

lemma upsert_cred_ok:
  assumes ok: "inv_ok db" and e: "upsert_cred seal fl now inp db = (r, db')"
  shows "inv_ok db'"
proof (cases "check_cred inp")
  case (Inr c)
  obtain x db1 where x: "ensure_machine fl now (cc_machine c) db = (x, db1)" by force
  have "inv_ok db1" by (rule ensure_machine_ok [OF ok x])
  then show ?thesis using e Inr x write_cred_ok [OF _ Inr] by (auto simp: upsert_cred_def split: option.splits)
qed (use ok e in \<open>simp add: upsert_cred_def\<close>)

lemma creds_ok_del: "creds_ok t \<Longrightarrow> creds_ok (del_where p t)"
  by (simp add: creds_ok_def keyed_del)

lemma inv_ok_drop: "inv_ok db \<Longrightarrow> inv_ok (drop_host u db)"
  by (simp add: inv_ok_def hosts_ok_drop)

lemma delete_cred_ok:
  assumes "inv_ok db" "delete_cred fl held u db = (r, db')"
  shows "inv_ok db'"
  using assms
  by (auto simp: delete_cred_def Let_def inv_ok_def creds_ok_del hosts_ok_drop split: option.splits sum.splits if_splits)

lemma move_cred_ok:
  assumes ok: "creds_ok t" and m: "move_cred f to from t = Inr t'" and to: "smbios_uuid_match to"
  shows "creds_ok t'"
proof -
  let ?p = "\<lambda>b. bc_machine b = from" and ?f = "\<lambda>b. b\<lparr>bc_machine := to\<rparr>"
  have t': "t' = upd_where ?p ?f t" and free: "to \<in> bc_machine ` set t \<Longrightarrow> from \<in> bc_machine ` set t \<Longrightarrow> to = from"
    using m by (auto simp: move_cred_def split: option.splits if_splits)
  have ip: "keyed bc_ip t'" using ok unfolding t' by (auto simp: creds_ok_def intro: keyed_upd)
  then have d: "distinct t'" by (simp add: keyed_def distinct_map)
  have "keyed bc_machine t'"
  proof (cases "from \<in> bc_machine ` set t")
    case True
    show ?thesis unfolding t'
    proof (rule keyed_upd_one [OF d [unfolded t']])
      show "a = b" if "a \<in> set t" "b \<in> set t" "?p a" "?p b" for a b
        using keyed_unique [of bc_machine t] ok that by (simp add: creds_ok_def)
      show "?p b" if "b \<in> set t" "bc_machine b = to" for b using free True that by (metis imageI)
    qed (use ok in \<open>simp_all add: creds_ok_def\<close>)
  next
    case False
    then have "t' = t" unfolding t' by (auto intro!: upd_where_none)
    then show ?thesis using ok by (simp add: creds_ok_def)
  qed
  moreover have "cred_ok (?f b)" if "cred_ok b" for b
    using that to smbios_not_placeholder [OF to] by (auto simp: cred_ok_def smbios_uuid_match_def)
  ultimately show ?thesis using ok ip unfolding t' by (auto simp: creds_ok_def set_upd_where)
qed

lemma move_to_host_ok:
  assumes ok: "inv_ok db" and m: "move_to_host fl held what real owner db = Inr db'" and real: "smbios_uuid_match real"
  shows "inv_ok db'"
proof -
  obtain creds where c: "move_cred (fl 0) real owner (iv_creds db) = Inr creds"
      and db': "db' = db\<lparr>iv_creds := creds\<rparr> \<or> db' = drop_host owner (db\<lparr>iv_creds := creds\<rparr>)"
    using m by (auto simp: move_to_host_def and_then_Inr Let_def split: if_splits)
  have "inv_ok (db\<lparr>iv_creds := creds\<rparr>)" using ok move_cred_ok [OF _ c real] by (simp add: inv_ok_def)
  then show ?thesis using db' inv_ok_drop by auto
qed

lemma reconcile_to_machine_ok:
  assumes "inv_ok db" "reconcile_to_machine fl held u ip db = (r, db')"
  shows "inv_ok db'"
  using assms
  by (auto simp: reconcile_to_machine_def Let_def and_then_Inr split: sum.splits if_splits intro: move_to_host_ok)

lemma reconcile_placeholder_ok:
  assumes "inv_ok db" "reconcile_placeholder fl held u ip db = (r, db')"
  shows "inv_ok db'"
  using assms
  by (auto simp: reconcile_placeholder_def Let_def split: sum.splits if_splits intro: move_to_host_ok)

subsection \<open>Every step\<close>

inductive inv_step :: "'r inv_db \<Rightarrow> 'r inv_db \<Rightarrow> bool" where
  report: "post_report fl now (reconcile_report gl held) dec db = (a, db') \<Longrightarrow> inv_step db db'"
| beat: "post_heartbeat fl now raw db = (a, db') \<Longrightarrow> inv_step db db'"
| remark: "patch_notes fl bs raw v db = (a, db') \<Longrightarrow> inv_step db db'"
| location: "patch_location fl bs raw v db = (a, db') \<Longrightarrow> inv_step db db'"
| offline: "mark_offline_once fl now db = (n, db') \<Longrightarrow> inv_step db db'"
| remove: "delete_machine fl raw p = (a, p') \<Longrightarrow> inv_step (pl_inv p) (pl_inv p')"
| put: "api_put_cred q seal fl now actor raw v db = (a, db') \<Longrightarrow> inv_step db db'"
| create: "api_create_cred q seal fl now actor v db = (c, db') \<Longrightarrow> inv_step db db'"
| drop: "api_delete_cred q fl held raw db = (a, db') \<Longrightarrow> inv_step db db'"
| reconcile: "api_reconcile q wired fl held raw db = (m, db') \<Longrightarrow> inv_step db db'"

lemma post_report_ok:
  assumes ok: "inv_ok db" and p: "post_report fl now (reconcile_report gl held) dec db = (a, db')"
  shows "inv_ok db'"
proof -
  have up: "inv_ok db1" if u: "upsert_report fl now (reconcile_report gl held) r db = (x, db1)" for r x db1
  proof (cases "report_tx fl now (lower_trim (rp_uuid r)) r db")
    case (Inl e)
    then show ?thesis using u ok by (auto simp: upsert_report_def Let_def split: if_splits)
  next
    case (Inr y)
    obtain i db2 where y: "y = (i, db2)" by force
    have creds: "iv_creds db2 = iv_creds db" using Inr y by (auto elim!: report_tx_cases)
    have ok2: "inv_ok db2" using report_tx_ok [of db] ok Inr y creds by (auto simp: inv_ok_def)
    have "inv_ok (reconcile_report gl held v ip db2)" for v ip
      unfolding reconcile_report_def by (rule reconcile_placeholder_ok [OF ok2 prod.collapse [symmetric]])
    then show ?thesis using u ok ok2 Inr y
      by (auto simp: upsert_report_def Let_def split: if_splits option.splits)
  qed
  show ?thesis
    using p ok up by (auto simp: post_report_def split: sum.splits bad_body.splits if_splits prod.splits)
qed

lemma inv_ok_upd:
  assumes "inv_ok db" "\<And>h. hs_uuid (f h) = hs_uuid h" "\<And>h. hs_report (f h) = hs_report h"
  shows "inv_ok (db\<lparr>iv_hosts := upd_where p f (iv_hosts db)\<rparr>)"
  using assms by (simp add: inv_ok_def hosts_ok_upd)

lemma heartbeat_ok:
  assumes ok: "inv_ok db" and h: "heartbeat fl now u db = (e, db')"
  shows "inv_ok db'"
proof -
  let ?f = "\<lambda>h. h\<lparr>hs_last := unix now, hs_status := Online\<rparr>"
  let ?db = "db\<lparr>iv_hosts := upd_where (\<lambda>h. hs_uuid h = lower_trim u) ?f (iv_hosts db)\<rparr>"
  have up: "inv_ok ?db" using ok by (rule inv_ok_upd) simp_all
  have "inv_ok (?db\<lparr>iv_beats := ins_row (lower_trim u, unix now) (iv_beats ?db)\<rparr>)"
    if "lower_trim u \<in> hs_uuid ` set (iv_hosts db)"
    using hosts_ok_beat [of ?db "lower_trim u"] up that by (simp add: inv_ok_def uuids_upd)
  moreover have "db' = db \<or> lower_trim u \<in> hs_uuid ` set (iv_hosts db) \<and>
      db' = ?db\<lparr>iv_beats := ins_row (lower_trim u, unix now) (iv_beats ?db)\<rparr>"
    using h by (force simp: heartbeat_def Let_def hits_zero split: if_splits sum.splits)
  ultimately show ?thesis using ok by auto
qed

lemma patch_field_ok:
  assumes ok: "inv_ok db" and p: "patch_field fl bs long put raw v db = (a, db')"
    and put: "\<And>u w e db1. put fl u w db = (e, db1) \<Longrightarrow> inv_ok db1"
  shows "inv_ok db'"
  using assms
  by (auto simp: patch_field_def with_uuid_def split: sum.splits option.splits prod.splits inv_error.splits)

lemma set_host_field_ok:
  assumes "inv_ok db" "set_host_field fl u fld upd v db = (e, db')"
    "\<And>h. hs_uuid (upd v h) = hs_uuid h" "\<And>h. hs_report (upd v h) = hs_report h"
  shows "inv_ok db'"
  using assms by (auto simp: set_host_field_def intro: inv_ok_upd split: if_splits option.splits)

lemma inv_step_ok: "inv_step db db' \<Longrightarrow> inv_ok db \<Longrightarrow> inv_ok db'"
proof (induction rule: inv_step.induct)
  case (report fl now gl held dec db a db')
  then show ?case using post_report_ok by blast
next
  case (beat fl now raw db a db')
  then show ?case
    by (auto simp: post_heartbeat_def with_uuid_def split: sum.splits prod.splits option.splits inv_error.splits
        intro: heartbeat_ok)
next
  case (remark fl bs raw v db a db')
  then show ?case
    unfolding patch_notes_def by (rule_tac patch_field_ok) (auto simp: set_notes_def intro: set_host_field_ok)
next
  case (location fl bs raw v db a db')
  then show ?case
    unfolding patch_location_def by (rule_tac patch_field_ok) (auto simp: set_location_def intro: set_host_field_ok)
next
  case (offline fl now db n db')
  then show ?case by (auto simp: mark_offline_once_def intro: inv_ok_upd split: option.splits)
next
  case (remove fl raw p a p')
  then show ?case
    by (auto simp: delete_machine_def with_uuid_def delete_host_def Let_def inv_ok_drop
        split: sum.splits option.splits prod.splits inv_error.splits bool.splits if_splits)
next
  case (put q seal fl now actor raw v db a db')
  then show ?case
    by (auto simp: api_put_cred_def split: sum.splits prod.splits bmc_error.splits intro: upsert_cred_ok)
next
  case (create q seal fl now actor v db c db')
  then show ?case
    by (auto simp: api_create_cred_def split: sum.splits prod.splits intro: upsert_cred_ok)
next
  case (drop q fl held raw db a db')
  then show ?case by (auto simp: api_delete_cred_def split: prod.splits option.splits intro: delete_cred_ok)
next
  case (reconcile q wired fl held raw db m db')
  then show ?case
    by (auto simp: api_reconcile_def split: if_splits sum.splits prod.splits bmc_error.splits intro: reconcile_to_machine_ok)
qed

interpretation inventory: transition_system inv_step inv_ok
  by unfold_locales (rule inv_step_ok)

subsection \<open>Reading a report back\<close>

lemma insert_macs_keeps:
  "insert_macs fl k u seen ms t = Inr (n, t') \<Longrightarrow> set t \<subseteq> set t'"
proof (induction ms arbitrary: k seen t)
  case (Cons m ms)
  obtain raw role where m: "m = (raw, role)" by (cases m)
  show ?case
    using Cons.prems Cons.IH m by (fastforce simp: Let_def split: if_splits option.splits)
qed simp

lemma insert_macs_found:
  assumes "insert_macs fl k u seen ms t = Inr (n, t')" "(m, ro) \<in> set ms" "report_mac m \<noteq> []" "report_mac m \<notin> set seen"
  shows "\<exists>role. map_of (map (\<lambda>(m, r). (report_mac m, r)) ms) (report_mac m) = Some role
           \<and> \<lparr>mr_uuid = u, mr_mac = report_mac m, mr_role = role\<rparr> \<in> set t'"
  using assms
proof (induction ms arbitrary: k seen t)
  case (Cons x ms)
  obtain raw role where x: "x = (raw, role)" by (cases x)
  show ?case
  proof (cases "report_mac raw = [] \<or> report_mac raw \<in> set seen")
    case True
    then have ne: "report_mac raw \<noteq> report_mac m" using Cons.prems(3,4) by auto
    then have "(m, ro) \<in> set ms" using Cons.prems(2) x by auto
    with Cons True x ne show ?thesis by simp
  next
    case False
    let ?row = "\<lparr>mr_uuid = u, mr_mac = report_mac raw, mr_role = role\<rparr>"
    have rest: "insert_macs fl (Suc k) u (report_mac raw # seen) ms (ins_row ?row t) = Inr (n, t')"
      using Cons.prems(1) x False by (auto simp: Let_def split: if_splits option.splits)
    show ?thesis
    proof (cases "report_mac raw = report_mac m")
      case True
      have "set (ins_row ?row t) \<subseteq> set t'" by (rule insert_macs_keeps [OF rest])
      then show ?thesis using True x by auto
    next
      case ne: False
      then have "(m, ro) \<in> set ms" using Cons.prems(2) x by auto
      then show ?thesis using Cons.IH [OF rest] Cons.prems(3,4) ne x by auto
    qed
  qed
qed simp

text \<open>The rows of a report of machine \<open>u\<close>.\<close>

definition stored :: "string \<Rightarrow> int \<Rightarrow> 'r machine_report \<Rightarrow> 'r inv_db \<Rightarrow> bool" where
  "stored u i r db \<longleftrightarrow>
    (\<exists>h \<in> set (iv_hosts db). hs_uuid h = u \<and> hs_report h = Some i) \<and>
    (\<exists>x \<in> set (iv_reports db). rr_id x = i \<and> rr_uuid x = u \<and> rr_body x = r) \<and>
    (\<forall>(m, ro) \<in> set (report_macs r). report_mac m \<noteq> [] \<longrightarrow>
      (\<exists>role. map_of (map (\<lambda>(m, r). (report_mac m, r)) (report_macs r)) (report_mac m) = Some role
         \<and> \<lparr>mr_uuid = u, mr_mac = report_mac m, mr_role = role\<rparr> \<in> set (iv_macs db)))"

lemma report_tx_stored:
  assumes tx: "report_tx fl now u r db = Inr (i, db')"
  shows "stored u i r db'"
  using tx
proof (rule report_tx_cases)
  fix n macs
  let ?hs = "upsert_host now u r (iv_hosts db)"
  let ?hs' = "upd_where (\<lambda>h. hs_uuid h = u) (\<lambda>h. h\<lparr>hs_report := Some i\<rparr>) ?hs"
  let ?row = "\<lparr>rr_id = i, rr_uuid = u, rr_ts = unix now, rr_body = r\<rparr>"
  assume ins: "insert_macs fl 3 u [] (report_macs r) (del_where (\<lambda>m. mr_uuid m = u) (iv_macs db)) = Inr (n, macs)"
    and db': "db' = db\<lparr>iv_hosts := ?hs', iv_macs := macs, iv_reports := ins_row ?row (iv_reports db), iv_seq := i\<rparr>"
  have "u \<in> hs_uuid ` set ?hs'" by (simp add: uuids_upd upsert_host_def)
  then obtain h where h: "h \<in> set ?hs'" "hs_uuid h = u" by auto
  then have "hs_report h = Some i" using latest_set [OF h(1)] by simp
  then show ?thesis using h insert_macs_found [OF ins] unfolding stored_def db' by fastforce
qed

lemma stored_drop:
  assumes "u \<noteq> v" "stored u i r db"
  shows "stored u i r (drop_host v db)"
  using assms unfolding stored_def drop_host_def by fastforce

lemma move_to_host_stored:
  assumes s: "stored u i r db" and m: "move_to_host fl held what real owner db = Inr db'" and u: "u \<noteq> owner"
  shows "stored u i r db'"
proof -
  have c: "stored u i r (db\<lparr>iv_creds := c\<rparr>)" for c using s by (simp add: stored_def)
  then show ?thesis using m stored_drop [OF u c]
    by (auto simp: move_to_host_def and_then_Inr Let_def split: if_splits)
qed

lemma is_placeholder_uuid: "placeholder_uuid ip \<noteq> [] \<Longrightarrow> is_placeholder (placeholder_uuid ip)"
  by (auto simp: placeholder_uuid_def is_placeholder_def starts_with_def split: option.splits)

lemma reconcile_report_stored:
  assumes s: "stored u i r db" and u: "lower_trim u = u"
  shows "stored u i r (reconcile_report gl held u ip db)"
proof (cases "smbios_uuid_match u")
  case True
  have ne: "u \<noteq> placeholder_uuid x" if "placeholder_uuid x \<noteq> []" for x
    using smbios_not_placeholder [OF True] is_placeholder_uuid [OF that] by metis
  show ?thesis
    using s u True ne
    by (auto simp: reconcile_report_def reconcile_placeholder_def Let_def split: sum.splits if_splits
        dest: move_to_host_stored)
qed (use s u in \<open>simp add: reconcile_report_def reconcile_placeholder_def\<close>)

lemma post_report_stored:
  assumes p: "post_report fl now (reconcile_report gl held) (Inr r) db = ((200, Json (u, i)), db')"
    and u: "lower_trim u = u"
  shows "u = lower_trim (rp_uuid r) \<and> stored u i r db'"
proof -
  obtain db1 where tx: "report_tx fl now u r db = Inr (i, db1)" and ur: "u = lower_trim (rp_uuid r)"
    and db': "db' = db1 \<or> (\<exists>ip. db' = reconcile_report gl held u ip db1)"
    using p by (auto simp: post_report_def upsert_report_def Let_def split: if_splits sum.splits prod.splits option.splits)
  then show ?thesis using reconcile_report_stored [OF report_tx_stored [OF tx] u] report_tx_stored [OF tx] by auto
qed

definition canonical_mac :: "string \<Rightarrow> bool" where
  "canonical_mac m \<longleftrightarrow> lookup_mac_match m \<and> list_all (\<lambda>c. canonical_char c) m"

lemma canonical_mac_fixed:
  assumes "canonical_mac m"
  shows "report_mac m = m" "to_lower m = m" "m \<noteq> []"
proof -
  have c: "c \<in> set m \<Longrightarrow> canonical_char c" for c using assms by (auto simp: canonical_mac_def list_all_iff)
  show "report_mac m = m" unfolding report_mac_def by (rule lower_trim_canonical) (rule c)
  show "to_lower m = m" using c by (intro to_lower_id) (force simp: canonical_char_def visible_def)
  show "m \<noteq> []" using assms by (auto simp: canonical_mac_def lookup_mac_match_def)
qed

lemma keyed_sel_and:
  assumes "keyed key t" "r \<in> set t" "Q r"
  shows "sel_row (\<lambda>q. key q = key r \<and> Q q) t = Some r"
proof (cases "sel_row (\<lambda>q. key q = key r \<and> Q q) t")
  case None
  then show ?thesis using assms by (auto simp: sel_row_None)
next
  case (Some q)
  then show ?thesis using sel_row_Some [OF Some] keyed_unique [OF assms(1) _ assms(2)] by auto
qed

text \<open>
  C36: A report that is accepted is what the interface then returns: as the latest report of its machine,
  under the identifier of the answer, and each of its canonical hardware addresses resolves to the machine
  with the role of its first occurrence.
\<close>

theorem report_is_read_back:
  assumes ok: "inv_ok db" and p: "post_report fl now (reconcile_report gl held) (Inr r) db = ((200, Json (u, i)), db')"
    and u: "smbios_uuid_match u"
  shows "get_machine no_faults u db' = (200, Json r)
    \<and> get_report no_faults u i db' = Inr r
    \<and> (\<forall>(m, ro) \<in> set (report_macs r). canonical_mac m \<longrightarrow>
         (\<exists>role. map_of (map (\<lambda>(m, r). (report_mac m, r)) (report_macs r)) m = Some role
            \<and> api_lookup no_faults m db' = (200, Json (u, role))))"
proof -
  have uu: "lower_trim u = u" using smbios_uuid_canonical [OF u] .
  have s: "stored u i r db'" by (rule conjunct2 [OF post_report_stored [OF p uu]])
  have ok': "hosts_ok db'" using post_report_ok [OF ok p] by (simp add: inv_ok_def)
  obtain h where h: "h \<in> set (iv_hosts db')" "hs_uuid h = u" "hs_report h = Some i" using s by (auto simp: stored_def)
  obtain x where x: "x \<in> set (iv_reports db')" "rr_id x = i" "rr_uuid x = u" "rr_body x = r" using s by (auto simp: stored_def)
  have sh: "sel_row (\<lambda>h. hs_uuid h = u) (iv_hosts db') = Some h"
    using keyed_sel [OF hosts_okD(1) [OF ok'] h(1)] h(2) by simp
  have sx: "sel_row (\<lambda>x. rr_id x = i) (iv_reports db') = Some x"
    using keyed_sel [OF hosts_okD(3) [OF ok'] x(1)] x(2) by simp
  have sx': "sel_row (\<lambda>x. rr_id x = i \<and> rr_uuid x = u) (iv_reports db') = Some x"
    using keyed_sel_and [OF hosts_okD(3) [OF ok'] x(1), of "\<lambda>x. rr_uuid x = u"] x by simp
  have "get_machine no_faults u db' = (200, Json r)"
    using u uu sh h(3) sx x(4) by (simp add: get_machine_def valid_uuid_def latest_report_def report_of_def)
  moreover have "get_report no_faults u i db' = Inr r" using uu sx' x(4) by (simp add: get_report_def)
  moreover have "\<exists>role. map_of (map (\<lambda>(m, r). (report_mac m, r)) (report_macs r)) m = Some role
            \<and> api_lookup no_faults m db' = (200, Json (u, role))"
    if m: "(m, ro) \<in> set (report_macs r)" "canonical_mac m" for m ro
  proof -
    note c = canonical_mac_fixed [OF m(2)]
    obtain role where role: "map_of (map (\<lambda>(m, r). (report_mac m, r)) (report_macs r)) m = Some role"
        "\<lparr>mr_uuid = u, mr_mac = m, mr_role = role\<rparr> \<in> set (iv_macs db')"
      using s m(1) c unfolding stored_def by fastforce
    have "sel_row (\<lambda>y. mr_mac y = m) (iv_macs db') = Some \<lparr>mr_uuid = u, mr_mac = m, mr_role = role\<rparr>"
      using keyed_sel [OF hosts_okD(2) [OF ok'] role(2)] by simp
    then show ?thesis using role(1) c m(2) by (simp add: api_lookup_def lookup_by_mac_def canonical_mac_def)
  qed
  ultimately show ?thesis by auto
qed

subsection \<open>The deletion of a machine\<close>

lemma cascade_jobs_rows:
  assumes "\<not> row_held bs js u"
  shows "db_jobs (cascade_jobs u js) = del_where (\<lambda>j. jb_machine j = u) (db_jobs js)"
    "db_logs (cascade_jobs u js) = del_where (\<lambda>l. \<exists>j \<in> set (db_jobs js). jb_machine j = u \<and> jb_id j = jl_job l) (db_logs js)"
    "db_machines (cascade_jobs u js) = del_where (\<lambda>m. mc_uuid m = u) (db_machines js)"
  using assms by (auto simp: row_held_def cascade_jobs_def sql_delete_jobs_def Let_def split: if_splits)

lemma busy_is_active:
  assumes "j \<in> set (db_jobs db)" "in_flight j" "jb_machine j = u" and u: "smbios_uuid_match u"
  shows "\<exists>e. has_active_job fl u db = Inl e \<or> has_active_job fl u db = Inr True"
proof -
  have v: "validate_machine_uuid u = Inr u" using u by (simp add: validate_machine_uuid_def smbios_uuid_canonical)
  have "sel_row (\<lambda>r. jb_machine r = u \<and> in_flight r) (db_jobs db) \<noteq> None" using assms by (auto simp: sel_row_None)
  then show ?thesis
    by (auto simp: v has_active_job_def current_for_machine_def fetch_job_def split: sum.splits option.splits job_error.splits)
qed

text \<open>
  C37: A machine with a pending or running job is not deleted and nothing is touched; a deletion that answers
  204 takes out the machine with its addresses, reports and heartbeats, its binding, its jobs and their logs, and no
  other row. Its credential stays (\<open>credential_outlives_machine\<close> below), although the comment of
  \<open>Store.Delete\<close> says that it goes too.
\<close>

theorem busy_machine_is_kept:
  assumes d: "delete_machine fl raw p = (a, p')"
  shows "((\<exists>j \<in> set (db_jobs (pl_jobs p)). in_flight j \<and> jb_machine j = lower_trim raw) \<longrightarrow> fst a \<noteq> 204 \<and> p' = p)
    \<and> (fst a = 204 \<longrightarrow> (\<exists>u. u = lower_trim raw \<and> u \<in> hs_uuid ` set (iv_hosts (pl_inv p)) \<and> pl_inv p' = drop_host u (pl_inv p)
        \<and> pl_bindings p' = del_where (\<lambda>b. bd_machine b = u) (pl_bindings p)
        \<and> db_jobs (pl_jobs p') = del_where (\<lambda>j. jb_machine j = u) (db_jobs (pl_jobs p))
        \<and> db_logs (pl_jobs p') = del_where (\<lambda>l. \<exists>j \<in> set (db_jobs (pl_jobs p)). jb_machine j = u \<and> jb_id j = jl_job l)
            (db_logs (pl_jobs p))))"
proof (intro conjI impI)
  let ?u = "lower_trim raw"
  assume busy: "\<exists>j \<in> set (db_jobs (pl_jobs p)). in_flight j \<and> jb_machine j = ?u"
  then show "fst a \<noteq> 204" "p' = p"
    using d busy_is_active [of _ "pl_jobs p" ?u fl]
    by (auto simp: delete_machine_def with_uuid_def valid_uuid_def Let_def split: if_splits sum.splits bool.splits)
next
  let ?u = "lower_trim raw"
  assume "fst a = 204"
  then have uu: "smbios_uuid_match ?u" and act: "has_active_job fl ?u (pl_jobs p) = Inr False"
    using d by (auto simp: delete_machine_def with_uuid_def valid_uuid_def Let_def split: if_splits sum.splits bool.splits)
  obtain e bs where b: "delete_binding_for_machine (later fl) ?u (pl_bindings p) = (e, bs)" by force
  obtain e2 iv where h: "delete_host (later (later fl)) (row_held bs (pl_jobs p)) ?u (pl_inv p) = (e2, iv)" by force
  have "e = None" "e2 = None" and p': "p' = p\<lparr>pl_bindings := bs, pl_inv := iv, pl_jobs := cascade_jobs ?u (pl_jobs p)\<rparr>"
    using d \<open>fst a = 204\<close> uu act b h
    by (auto simp: delete_machine_def with_uuid_def valid_uuid_def split: option.splits inv_error.splits)
  have low: "lower_trim ?u = ?u" by (rule smbios_uuid_canonical [OF uu])
  have bs: "bs = del_where (\<lambda>b. bd_machine b = ?u) (pl_bindings p)"
    using b \<open>e = None\<close> uu low
    by (auto simp: delete_binding_for_machine_def delete_binding_def bind_machine_uuid_def hits_zero del_where_def Let_def
        split: prod.splits option.splits bind_error.splits if_splits sum.splits intro: filter_True [symmetric])
  have "?u \<in> hs_uuid ` set (iv_hosts (pl_inv p))" "\<not> row_held bs (pl_jobs p) ?u" "iv = drop_host ?u (pl_inv p)"
    using h \<open>e2 = None\<close> low by (force simp: delete_host_def Let_def hits_zero split: option.splits if_splits)+
  then show "\<exists>u. u = ?u \<and> u \<in> hs_uuid ` set (iv_hosts (pl_inv p)) \<and> pl_inv p' = drop_host u (pl_inv p)
        \<and> pl_bindings p' = del_where (\<lambda>b. bd_machine b = u) (pl_bindings p)
        \<and> db_jobs (pl_jobs p') = del_where (\<lambda>j. jb_machine j = u) (db_jobs (pl_jobs p))
        \<and> db_logs (pl_jobs p') = del_where (\<lambda>l. \<exists>j \<in> set (db_jobs (pl_jobs p)). jb_machine j = u \<and> jb_id j = jl_job l)
            (db_logs (pl_jobs p))"
    using bs p' cascade_jobs_rows by auto
qed

subsection \<open>The credential of a reported BMC\<close>

lemma shown_ip4_char: "c \<in> set (show_ip4 a) \<Longrightarrow> is_digit c \<or> c = CHR ''.''"
  using digits_nat_props by (auto simp: show_ip4_def octets_def)

lemma swap_back: "CHR ''-'' \<notin> set s \<Longrightarrow> swap_char CHR ''-'' CHR ''.'' (swap_char CHR ''.'' CHR ''-'' s) = s"
  by (induction s) (auto simp: swap_char_def)

lemma swap_back_show [simp]:
  "swap_char CHR ''-'' CHR ''.'' (swap_char CHR ''.'' CHR ''-'' (show_ip4 a)) = show_ip4 a"
  by (rule swap_back) (use shown_ip4_char [of "CHR ''-''" a] in \<open>auto simp: is_digit_def\<close>)

lemma placeholder_inj: "placeholder_uuid (show_ip4 a) = placeholder_uuid (show_ip4 b) \<Longrightarrow> a = b"
  by (simp add: placeholder_uuid_show) (metis show_ip4_inj swap_back_show)

lemma placeholder_shape [simp]: "is_placeholder (placeholder_uuid (show_ip4 a))" "placeholder_uuid (show_ip4 a) \<noteq> []"
  by (simp_all add: placeholder_uuid_show is_placeholder_def starts_with_def placeholder_prefix_def)

lemma placeholder_accepted: "bmc_machine_uuid (placeholder_uuid (show_ip4 a)) = Inr (placeholder_uuid (show_ip4 a))"
proof -
  let ?u = "placeholder_uuid (show_ip4 a)"
  have "canonical_char c" if "c \<in> set ?u" for c
  proof -
    have "c \<in> set placeholder_prefix \<or> is_digit c \<or> c = CHR ''-''"
      using that shown_ip4_char [of _ a] by (auto simp: placeholder_uuid_show swap_char_def split: if_splits)
    moreover have "list_all canonical_char (CHR ''-'' # placeholder_prefix)" by code_simp
    ultimately show ?thesis
      using canonical_lower_hex [of c] by (auto simp: list_all_iff is_lower_hex_def)
  qed
  then have low: "lower_trim ?u = ?u" by (rule lower_trim_canonical)
  have "\<not> smbios_uuid_match ?u" using smbios_not_placeholder [of ?u] by auto
  then show ?thesis using low
    by (simp add: bmc_machine_uuid_def validate_placeholder_def Let_def)
       (simp add: placeholder_uuid_show)
qed

lemma bmc_machine_uuid_shape:
  "bmc_machine_uuid u0 = Inr u \<Longrightarrow> smbios_uuid_match u \<or> (\<exists>a. u = placeholder_uuid (show_ip4 a))"
  by (auto simp: bmc_machine_uuid_def validate_placeholder_def Let_def split: if_splits option.splits)

lemma bmc_machine_uuid_fixed:
  assumes "bmc_machine_uuid u0 = Inr u"
  shows "bmc_machine_uuid u = Inr u"
proof (cases "smbios_uuid_match u")
  case True
  then show ?thesis by (simp add: bmc_machine_uuid_def smbios_uuid_canonical)
qed (use bmc_machine_uuid_shape [OF assms] placeholder_accepted in auto)

lemma cred_row_upd:
  assumes "\<And>b. bc_machine (f b) = bc_machine b"
  shows "sel_row (\<lambda>b. bc_machine b = u) (upd_where (\<lambda>b. bc_machine b = u) f t) = map_option f (sel_row (\<lambda>b. bc_machine b = u) t)"
  using assms by (induction t) (auto simp: sel_row_def upd_where_def)

lemma cred_row_other:
  "v \<noteq> u \<Longrightarrow> v \<noteq> w \<Longrightarrow>
    sel_row (\<lambda>b. bc_machine b = v) (upd_where (\<lambda>b. bc_machine b = w) (\<lambda>b. b\<lparr>bc_machine := u\<rparr>) t) =
    sel_row (\<lambda>b. bc_machine b = v) t"
  by (induction t) (auto simp: sel_row_def upd_where_def)

lemma cred_row_ins:
  "u \<notin> bc_machine ` set t \<Longrightarrow> bc_machine b = u \<Longrightarrow> sel_row (\<lambda>b. bc_machine b = u) (ins_row b t) = Some b"
  by (induction t) (auto simp: sel_row_def ins_row_def)

text \<open>
  C38: A report brings the credential of its BMC along. When a credential was registered by address before the
  machine reported, an accepted report with that BMC address hands it over, unchanged but for its owner; the
  stub of the placeholder is gone and every other credential stays where it was.
\<close>

theorem credential_follows_report:
  assumes ok: "inv_ok db" and p: "post_report fl now (reconcile_report no_faults held) (Inr r) db = ((200, Json (u, i)), db')"
    and u: "smbios_uuid_match u" and b: "rp_bmc r = Some b" "bmc_ip (br_ip b) = Inr ip"
    and c: "cred_row (placeholder_uuid ip) db = Some c" and free: "cred_row u db = None"
    and held: "\<not> held (placeholder_uuid ip)"
  shows "cred_row u db' = Some (c\<lparr>bc_machine := u\<rparr>) \<and> find_by_ip None ip db' = Inr u
    \<and> placeholder_uuid ip \<notin> hs_uuid ` set (iv_hosts db')
    \<and> (\<forall>v. v \<noteq> u \<and> v \<noteq> placeholder_uuid ip \<longrightarrow> cred_row v db' = cred_row v db)"
proof -
  obtain a where a: "ip = show_ip4 a" using bmc_ip_Inr [OF b(2)] by blast
  let ?ph = "placeholder_uuid ip" and ?f = "\<lambda>b. b\<lparr>bc_machine := u\<rparr>"
  have uu: "lower_trim u = u" by (rule smbios_uuid_canonical [OF u])
  have "br_ip b \<noteq> []"
  proof
    assume "br_ip b = []"
    moreover have "bmc_ip [] = Inl (BmcIp [])" by code_simp
    ultimately show False using b(2) by simp
  qed
  then obtain db1 where tx: "report_tx fl now u r db = Inr (i, db1)" and db': "db' = reconcile_report no_faults held u (br_ip b) db1"
    using p b(1) by (auto simp: post_report_def upsert_report_def Let_def split: if_splits sum.splits prod.splits)
  have creds: "iv_creds db1 = iv_creds db" using tx by (auto elim!: report_tx_cases)
  have ph: "is_placeholder ?ph" "?ph \<noteq> []" using a by simp_all
  have ne: "u \<noteq> ?ph" using smbios_not_placeholder [OF u] ph by metis
  have not_u: "u \<notin> bc_machine ` set (iv_creds db)" using free by (auto simp: cred_row_def sel_row_None)
  have c1: "cred_row ?ph db1 = Some c" using c creds by (simp add: cred_row_def)
  have "db' = drop_host ?ph (db1\<lparr>iv_creds := upd_where (\<lambda>b. bc_machine b = ?ph) ?f (iv_creds db)\<rparr>)"
    using u uu b(2) ph held c1 not_u creds
    by (simp add: db' reconcile_report_def reconcile_placeholder_def move_to_host_def move_cred_def bmc_step_def Let_def)
  then have cr: "iv_creds db' = upd_where (\<lambda>b. bc_machine b = ?ph) ?f (iv_creds db)"
    and hosts: "?ph \<notin> hs_uuid ` set (iv_hosts db')" by (auto simp: drop_host_def)
  have cc: "c \<in> set (iv_creds db)" "bc_machine c = ?ph"
    using sel_row_Some [OF c [unfolded cred_row_def]] by simp_all
  have in': "?f c \<in> set (iv_creds db')" using cc unfolding cr by (force simp: set_upd_where)
  have ok': "creds_ok (iv_creds db')" using post_report_ok [OF ok p] by (simp add: inv_ok_def)
  have ip: "bc_ip c = ip"
  proof -
    obtain a' where "bc_ip c = show_ip4 a'" "bc_machine c = placeholder_uuid (bc_ip c)"
      using ok cc ph by (auto simp: inv_ok_def creds_ok_def cred_ok_def)
    then show ?thesis using cc(2) a placeholder_inj by simp
  qed
  have "cred_row u db' = Some (?f c)"
    using keyed_sel [of bc_machine "iv_creds db'" "?f c"] ok' in' by (simp add: cred_row_def creds_ok_def)
  moreover have "find_by_ip None ip db' = Inr u"
    using keyed_sel [of bc_ip "iv_creds db'" "?f c"] ok' in' ip a by (simp add: find_by_ip_def creds_ok_def)
  moreover have "cred_row v db' = cred_row v db" if "v \<noteq> u" "v \<noteq> ?ph" for v
    unfolding cred_row_def cr using cred_row_other that by metis
  ultimately show ?thesis using hosts by blast
qed

lemma write_cred_Inr:
  assumes w: "write_cred seal fl now inp c db = (Inr m, db')" and u: "bmc_machine_uuid (cc_machine c) = Inr (cc_machine c)"
  obtains b where "cred_row (cc_machine c) db' = Some b" "m = meta_of b" "bc_machine b = cc_machine c"
    "keep_password inp \<Longrightarrow> \<exists>q. cred_row (cc_machine c) db = Some q \<and> bc_password b = bc_password q"
    "\<not> keep_password inp \<Longrightarrow> seal (the (ci_password inp)) = Inr (bc_password b)"
proof -
  let ?u = "cc_machine c"
  let ?k = "?u \<in> bc_machine ` set (iv_creds db)"
  have g: "\<exists>b. cred_row ?u x = Some b \<and> m = meta_of b" if "get_cred f ?u x = Inr m" for f x
    using that u by (auto simp: get_cred_def split: option.splits)
  have keep: "bc_machine (overwrite_cred t a c b) = bc_machine b" "bc_password (overwrite_cred t a c b) = bc_password b" for t a b
    by (simp_all add: overwrite_cred_def)
  have pre: "ip_conflict (fl 0) c db = None" "fl 1 = None"
    using w by (auto simp: write_cred_def Let_def split: option.splits)
  show thesis
  proof (cases "keep_password inp")
    case True
    then have "?k" and db': "db' = db\<lparr>iv_creds := upd_where (\<lambda>b. bc_machine b = ?u) (overwrite_cred (unix now) (ci_by inp) c) (iv_creds db)\<rparr>"
      and "get_cred (fl 3) ?u db' = Inr m"
      using w pre by (auto simp: write_cred_def Let_def split: option.splits if_splits)
    from g [OF this(3)] obtain b where b: "cred_row ?u db' = Some b" "m = meta_of b" by blast
    moreover obtain q where "cred_row ?u db = Some q" "b = overwrite_cred (unix now) (ci_by inp) c q"
      using b(1) cred_row_upd [of "overwrite_cred (unix now) (ci_by inp) c" ?u "iv_creds db", OF keep(1)]
      by (auto simp: db' cred_row_def)
    moreover have "bc_machine b = ?u" using b(1) by (auto simp: cred_row_def dest: sel_row_Some)
    ultimately show ?thesis using that keep True by simp
  next
    case False
    then obtain ct where ct: "seal (the (ci_password inp)) = Inr ct" and "get_cred (fl 3) ?u db' = Inr m"
      and db': "iv_creds db' = (if ?k then upd_where (\<lambda>b. bc_machine b = ?u) (\<lambda>b. (overwrite_cred (unix now) (ci_by inp) c b)\<lparr>bc_password := ct\<rparr>) (iv_creds db)
            else ins_row \<lparr>bc_machine = ?u, bc_ip = cc_ip c, bc_port = cc_port c, bc_user = cc_user c,
                          bc_password = ct, bc_iface = cc_iface c, bc_name = cc_name c,
                          bc_created = unix now, bc_updated = unix now, bc_by = ci_by inp\<rparr> (iv_creds db))"
      using w pre
      by (auto simp: write_cred_def Let_def and_then_Inr bmc_password_def split: option.splits if_splits sum.splits)
    from g [OF this(2)] obtain b where b: "cred_row ?u db' = Some b" "m = meta_of b" by blast
    have "bc_password b = ct"
    proof (cases ?k)
      case True
      then show ?thesis
        using b(1) cred_row_upd [of "\<lambda>b. (overwrite_cred (unix now) (ci_by inp) c b)\<lparr>bc_password := ct\<rparr>"] keep(1)
        by (auto simp: db' cred_row_def)
    next
      case False
      then show ?thesis using b(1) cred_row_ins [OF False] by (auto simp: db' cred_row_def)
    qed
    moreover have "bc_machine b = ?u" using b(1) by (auto simp: cred_row_def dest: sel_row_Some)
    ultimately show ?thesis using that b ct False by simp
  qed
qed

text \<open>
  C39: What is stored of a password comes back: after a call that gives one, the credential that the power
  commands load has exactly it; after a call without one, it has the password it had before.
\<close>

theorem password_round_trip:
  assumes k: "opens_sealed k" "nonce_ok n" and up: "upsert_cred (encrypt_with k n) fl now inp db = (Inr m, db')"
  shows "if keep_password inp
    then (\<exists>q. cred_row (cr_machine m) db = Some q \<and>
      get_with_password (decrypt_with k) None (cr_machine m) db' =
        (case decrypt_with k (bc_password q) of Inl e \<Rightarrow> Inl (BmcUnseal (cr_machine m) e) | Inr p \<Rightarrow> Inr (m, p)))
    else get_with_password (decrypt_with k) None (cr_machine m) db' = Inr (m, the (ci_password inp))"
proof -
  obtain c db1 where c: "check_cred inp = Inr c" and e: "ensure_machine fl now (cc_machine c) db = (None, db1)"
    and w: "write_cred (encrypt_with k n) (later (later fl)) now inp c db1 = (Inr m, db')"
    using up by (auto simp: upsert_cred_def split: sum.splits prod.splits option.splits)
  have u: "bmc_machine_uuid (cc_machine c) = Inr (cc_machine c)"
    using c bmc_machine_uuid_fixed by (auto simp: check_cred_def and_then_Inr)
  have creds: "cred_row v db1 = cred_row v db" for v
    using e by (auto simp: ensure_machine_def cred_row_def split: option.splits if_splits)
  from write_cred_Inr [OF w u] obtain b where b: "cred_row (cc_machine c) db' = Some b" "m = meta_of b"
    "bc_machine b = cc_machine c"
    "keep_password inp \<Longrightarrow> \<exists>q. cred_row (cc_machine c) db1 = Some q \<and> bc_password b = bc_password q"
    "\<not> keep_password inp \<Longrightarrow> encrypt_with k n (the (ci_password inp)) = Inr (bc_password b)" by blast
  have m: "cr_machine m = cc_machine c" using b(2,3) by (simp add: meta_of_def)
  have get: "get_with_password (decrypt_with k) None (cr_machine m) db' =
      (case decrypt_with k (bc_password b) of Inl e \<Rightarrow> Inl (BmcUnseal (cc_machine c) e) | Inr p \<Rightarrow> Inr (m, p))"
    using b u m by (simp add: get_with_password_def split: sum.split)
  show ?thesis
  proof (cases "keep_password inp")
    case True
    then obtain q where "cred_row (cc_machine c) db1 = Some q" "bc_password b = bc_password q" using b(4) by blast
    then show ?thesis unfolding m using True get [unfolded m] creds by simp
  next
    case False
    then have "decrypt_with k (bc_password b) = Inr (the (ci_password inp))" using gcm.unseal_seal b(5) k by blast
    then show ?thesis using False get by simp
  qed
qed

subsection \<open>What the handlers leave behind\<close>

text \<open>A hardware address that is still recorded for another machine refuses every report of its new owner.\<close>

lemma insert_macs_foreign:
  assumes "(m, ro) \<in> set ms" "report_mac m \<noteq> []" "report_mac m \<notin> set seen" "report_mac m \<in> mr_mac ` set t"
  shows "\<exists>e. insert_macs fl k u seen ms t = Inl e"
  using assms
proof (induction ms arbitrary: k seen t)
  case (Cons x ms)
  obtain raw role where x: "x = (raw, role)" by (cases x)
  show ?case
  proof (cases "report_mac raw = report_mac m")
    case True
    then show ?thesis using Cons.prems(2-4) x by (simp add: Let_def split: option.split)
  next
    case False
    then have "(m, ro) \<in> set ms" using Cons.prems(1) x by auto
    note IH = Cons.IH [OF this Cons.prems(2)]
    have "\<exists>e. insert_macs fl (Suc k) u (report_mac raw # seen) ms (ins_row y t) = Inl e" for y
      by (rule IH) (use False Cons.prems(3,4) in auto)
    moreover have "\<exists>e. insert_macs fl k u seen ms t = Inl e" by (rule IH) (use Cons.prems(3,4) in auto)
    ultimately show ?thesis using x by (simp add: Let_def split: option.split)
  qed
qed simp

lemma foreign_mac_blocks_reports:
  assumes "(m, ro) \<in> set (report_macs r)" "report_mac m \<noteq> []" "rp_schema r = schema_version" "trim_space (rp_uuid r) \<noteq> []"
    "x \<in> set (iv_macs db)" "mr_mac x = report_mac m" "mr_uuid x \<noteq> lower_trim (rp_uuid r)"
  shows "post_report fl now rc (Inr r) db = ((500, ErrorText ''upsert failed''), db)"
proof -
  let ?u = "lower_trim (rp_uuid r)"
  have "report_mac m \<in> mr_mac ` set (del_where (\<lambda>m. mr_uuid m = ?u) (iv_macs db))" using assms(5-7) by force
  then obtain e where "insert_macs fl 3 ?u [] (report_macs r) (del_where (\<lambda>m. mr_uuid m = ?u) (iv_macs db)) = Inl e"
    using insert_macs_foreign [OF assms(1,2), of "[]"] by fastforce
  then have "\<exists>e. report_tx fl now ?u r db = Inl e" by (cases "fl 0"; cases "fl 1"; cases "fl 2") (simp_all add: report_tx_def tx_step_def)
  then show ?thesis using assms(3,4) by (auto simp: post_report_def upsert_report_def Let_def)
qed

text \<open>The credential of a deleted machine stays and keeps its address for itself.\<close>

lemma credential_outlives_machine:
  assumes "delete_machine fl raw p = (a, p')"
  shows "iv_creds (pl_inv p') = iv_creds (pl_inv p)"
  using assms
  by (auto simp: delete_machine_def with_uuid_def delete_host_def Let_def
      split: sum.splits bool.splits option.splits prod.splits inv_error.splits if_splits)

definition demo_nonce :: "(string, string) result" where
  "demo_nonce = Inr (replicate 12 CHR ''n'')"

definition demo_cred :: "string option \<Rightarrow> cred_input" where
  "demo_cred pw = \<lparr>ci_machine = [], ci_name = ''rack 1'', ci_ip = ''10.0.0.9'', ci_port = 0, ci_user = ''root'',
     ci_password = pw, ci_iface = [], ci_by = []\<rparr>"

definition demo_create :: "string option \<Rightarrow> created answer \<times> unit inv_db" where
  "demo_create pw = api_create_cred id (encrypt_with plain_aead demo_nonce) no_faults 0 ''op'' (Inr (demo_cred pw)) empty_inv"

definition demo_report :: "char \<Rightarrow> unit machine_report" where
  "demo_report c = \<lparr>rp_schema = 1, rp_uuid = machine_id c, rp_serial = ''S1'', rp_manufacturer = [], rp_product = [],
     rp_bmc = Some \<lparr>br_mac = ''aa:bb:cc:dd:ee:01'', br_ip = ''10.0.0.9''\<rparr>,
     rp_nics = [\<lparr>nr_mac = ''aa:bb:cc:dd:ee:02'', nr_addresses = [''10.0.1.7/24'']\<rparr>], rp_rest = ()\<rparr>"

definition demo_post :: "unit inv_db \<Rightarrow> (string \<times> int) answer \<times> unit inv_db" where
  "demo_post db = post_report no_faults (5 * second) (reconcile_report no_faults (\<lambda>_. False)) (Inr (demo_report CHR ''A'')) db"

text \<open>
  A refused registration leaves the stub of its placeholder in the table of machines, which neither the
  deletion of the credential nor the deletion of the machine can remove.
\<close>

definition demo_stub :: "unit inv_db" where
  "demo_stub = empty_inv\<lparr>iv_hosts := [\<lparr>hs_uuid = ''placeholder-10-0-0-9'', hs_serial = [], hs_manufacturer = [],
     hs_product = [], hs_first = 0, hs_last = 0, hs_status = StatusUnknown, hs_report = None, hs_notes = [], hs_location = []\<rparr>]\<rparr>"

lemma refused_registration_leaves_stub: "demo_create None = ((400, ErrorText ''password: required''), demo_stub)"
  by code_simp

lemma stub_has_no_credential: "fst (delete_cred no_faults (\<lambda>_. False) ''placeholder-10-0-0-9'' demo_stub) = Some BmcNotFound"
  by code_simp

lemma placeholder_is_no_uuid: "valid_uuid ''placeholder-10-0-0-9'' = Inl (400, ErrorText ''invalid uuid'')"
proof -
  have "\<not> smbios_uuid_match (lower_trim ''placeholder-10-0-0-9'')" by code_simp
  then show ?thesis by (simp add: valid_uuid_def)
qed

lemma stub_is_not_deleted: "fst (delete_machine fl ''placeholder-10-0-0-9'' p) = (400, ErrorText ''invalid uuid'')"
  by (simp add: delete_machine_def with_uuid_def placeholder_is_no_uuid)

text \<open>A report is accepted under an identifier that no other call of the interface takes.\<close>

lemma odd_identifier_is_accepted:
  "fst (post_report no_faults 0 (\<lambda>_ _ db. db) (Inr ((demo_report CHR ''1'')\<lparr>rp_uuid := ''Not Settable'', rp_bmc := None\<rparr>)) empty_inv)
    = (200, Json (''not settable'', 1))"
  by code_simp

lemma odd_identifier_is_no_uuid: "\<not> smbios_uuid_match (lower_trim ''not settable'')"
  by code_simp

lemma odd_identifier_is_unreachable: "get_machine fl ''not settable'' db = (400, ErrorText ''invalid uuid'')"
  by (simp add: get_machine_def valid_uuid_def odd_identifier_is_no_uuid)

lemma demo_create_result:
  "fst (demo_create (Some ''pw'')) = (201, Json (CreatedCred \<lparr>cr_machine = ''placeholder-10-0-0-9'', cr_name = ''rack 1'',
     cr_ip = ''10.0.0.9'', cr_port = 623, cr_user = ''root'', cr_iface = ''lanplus'', cr_created = 0, cr_updated = 0, cr_by = ''op''\<rparr>))"
  by code_simp

lemma demo_post_result: "fst (demo_post (snd (demo_create (Some ''pw'')))) = (200, Json (machine_id CHR ''a'', 1))"
  by code_simp

subsection \<open>The invariant over all calls\<close>

text \<open>
  C35: Whatever the agents and the operators call, in any order and whichever statements fail, the inventory
  stays consistent: a machine has one row, a hardware address belongs to one machine, every address, report
  and heartbeat belongs to a known machine, the latest report of a machine is its newest, a machine and a BMC
  address have at most one credential, and a placeholder's credential has the address its name encodes.
\<close>

theorem inventory_stays_consistent:
  assumes "inv_step\<^sup>*\<^sup>* empty_inv db"
  shows "inv_ok db"
  by (rule inventory.reach_inv [OF assms empty_inv_ok])

definition demo_first :: "unit inv_db" where
  "demo_first = snd (demo_create (Some ''pw''))"

lemma demo_first_reached: "inv_step empty_inv demo_first"
  unfolding demo_first_def demo_create_def by (rule inv_step.create [OF prod.collapse [symmetric]])

lemma demo_post_reached: "inv_step db (snd (demo_post db))"
  unfolding demo_post_def by (rule inv_step.report [OF prod.collapse [symmetric]])

lemma demo_first_ok: "inv_ok demo_first"
  using inv_step_ok [OF demo_first_reached empty_inv_ok] .

theorem inventory_stays_consistent_witness: "inv_ok (snd (demo_post demo_first))"
proof (rule inventory_stays_consistent)
  show "inv_step\<^sup>*\<^sup>* empty_inv (snd (demo_post demo_first))"
    using demo_first_reached demo_post_reached [of demo_first] by (meson rtranclp.rtrancl_into_rtrancl rtranclp.rtrancl_refl)
qed

lemma demo_posted:
  "post_report no_faults (5 * second) (reconcile_report no_faults (\<lambda>_. False)) (Inr (demo_report CHR ''A'')) demo_first
    = ((200, Json (machine_id CHR ''a'', 1)), snd (demo_post demo_first))"
  using demo_post_result by (metis demo_first_def demo_post_def prod.collapse)

lemma demo_uuid: "smbios_uuid_match (machine_id CHR ''a'')"
  by code_simp

theorem report_is_read_back_witness:
  "get_machine no_faults (machine_id CHR ''a'') (snd (demo_post demo_first)) = (200, Json (demo_report CHR ''A''))"
  using report_is_read_back [OF demo_first_ok demo_posted demo_uuid] by blast

lemma demo_bmc: "rp_bmc (demo_report c) = Some \<lparr>br_mac = ''aa:bb:cc:dd:ee:01'', br_ip = ''10.0.0.9''\<rparr>"
  by (simp add: demo_report_def)

lemma demo_rows:
  "bmc_ip ''10.0.0.9'' = Inr ''10.0.0.9''"
  "map_option bc_port (cred_row (placeholder_uuid ''10.0.0.9'') demo_first) = Some 623"
  "cred_row (machine_id CHR ''a'') demo_first = None"
  by code_simp+

theorem credential_follows_report_witness:
  "find_by_ip None ''10.0.0.9'' (snd (demo_post demo_first)) = Inr (machine_id CHR ''a'')"
proof -
  obtain c where c: "cred_row (placeholder_uuid ''10.0.0.9'') demo_first = Some c" using demo_rows(2) by auto
  show ?thesis
    using credential_follows_report [OF demo_first_ok demo_posted demo_uuid demo_bmc _ c demo_rows(3)] demo_rows(1) by simp
qed

definition demo_plant :: "unit plant" where
  "demo_plant = \<lparr>pl_inv = snd (demo_post demo_first), pl_bindings = [],
     pl_jobs = \<lparr>db_machines = [\<lparr>mc_uuid = machine_id CHR ''a'', mc_last_seen = 5, mc_latest_report = Some 1\<rparr>],
       db_images = [], db_profiles = [], db_jobs = [], db_logs = [], db_log_seq = 0\<rparr>\<rparr>"

theorem busy_machine_is_kept_witness:
  "pl_inv (snd (delete_machine no_faults (machine_id CHR ''a'') demo_plant)) = drop_host (machine_id CHR ''a'') (pl_inv demo_plant)"
proof -
  have "fst (fst (delete_machine no_faults (machine_id CHR ''a'') demo_plant)) = 204" by code_simp
  then show ?thesis
    using busy_machine_is_kept [OF prod.collapse [symmetric], where fl = no_faults
        and raw = "machine_id CHR ''a''" and p = demo_plant]
      smbios_uuid_canonical [OF demo_uuid] by auto
qed

lemma demo_keep: "\<not> keep_password ((demo_cred (Some ''pw''))\<lparr>ci_machine := ''placeholder-10-0-0-9'', ci_by := ''op''\<rparr>)"
  by code_simp

theorem password_round_trip_witness:
  "get_with_password (decrypt_with plain_aead) None ''placeholder-10-0-0-9''
     (snd (upsert_cred (encrypt_with plain_aead demo_nonce) no_faults 0
       ((demo_cred (Some ''pw''))\<lparr>ci_machine := ''placeholder-10-0-0-9'', ci_by := ''op''\<rparr>) (empty_inv :: unit inv_db)))
   = Inr (\<lparr>cr_machine = ''placeholder-10-0-0-9'', cr_name = ''rack 1'', cr_ip = ''10.0.0.9'', cr_port = 623,
     cr_user = ''root'', cr_iface = ''lanplus'', cr_created = 0, cr_updated = 0, cr_by = ''op''\<rparr>, ''pw'')"
proof -
  let ?i = "(demo_cred (Some ''pw''))\<lparr>ci_machine := ''placeholder-10-0-0-9'', ci_by := ''op''\<rparr>"
  let ?m = "\<lparr>cr_machine = ''placeholder-10-0-0-9'', cr_name = ''rack 1'', cr_ip = ''10.0.0.9'', cr_port = 623,
     cr_user = ''root'', cr_iface = ''lanplus'', cr_created = 0, cr_updated = 0, cr_by = ''op''\<rparr>"
  have up: "fst (upsert_cred (encrypt_with plain_aead demo_nonce) no_faults 0 ?i (empty_inv :: unit inv_db)) = Inr ?m"
    by code_simp
  have n: "nonce_ok demo_nonce" by code_simp
  have "upsert_cred (encrypt_with plain_aead demo_nonce) no_faults 0 ?i (empty_inv :: unit inv_db)
     = (Inr ?m, snd (upsert_cred (encrypt_with plain_aead demo_nonce) no_faults 0 ?i empty_inv))"
    by (simp add: up [symmetric])
  from password_round_trip [OF plain_opens n this] demo_keep
  show ?thesis by (simp add: demo_cred_def)
qed

end
