(* ===== verification/Http_Front.thy ===== *)
theory Http_Front
  imports Auth Agent_Api Inst_World
begin

text \<open>
  The HTTP front end: the audit trail (\<open>internal/audit/store.go\<close>, \<open>api.go\<close>), the boot files and the chain
  of middleware (\<open>internal/httpd/server.go\<close>, \<open>ipxe.go\<close>, \<open>redirect.go\<close>) and the actor of a request
  (\<open>internal/apiutil\<close>). A handler behind the chain is a function of the identity that the chain attached
  and of the state, to a status and the state. A stored time is the time itself; \<open>json\<close> is the encoding
  of a string.
\<close>

subsection \<open>The audit trail\<close>

record audit_event =
  ae_id :: int
  ae_ts :: time
  ae_actor :: string
  ae_action :: string
  ae_target :: string
  ae_outcome :: string
  ae_details :: string

text \<open>\<open>au_seq\<close> is the largest \<open>AUTOINCREMENT\<close> value.\<close>

record audit_db =
  au_events :: "audit_event list"
  au_seq :: int

datatype audit_error = AuditNotFound | AuditDb string string

definition default_retention :: int where
  "default_retention = 180 * 24 * 3600 * second"

definition prune_events :: "faults \<Rightarrow> time \<Rightarrow> int \<Rightarrow> audit_db \<Rightarrow> (audit_error, nat) result \<times> audit_db" where
  "prune_events fl now keep db =
    (let old = (\<lambda>e. ae_ts e < now - (if keep \<le> 0 then default_retention else keep)) in
     case fl 0 of Some msg \<Rightarrow> (Inl (AuditDb ''audit: prune'' msg), db)
     | None \<Rightarrow> (Inr (hits old (au_events db)), db\<lparr>au_events := del_where old (au_events db)\<rparr>))"

definition delete_event :: "faults \<Rightarrow> int \<Rightarrow> audit_db \<Rightarrow> audit_error option \<times> audit_db" where
  "delete_event fl i db =
    (case fl 0 of Some msg \<Rightarrow> (Some (AuditDb ''delete event'' msg), db)
     | None \<Rightarrow>
       (if hits (\<lambda>e. ae_id e = i) (au_events db) = 0 then (Some AuditNotFound, db)
        else (None, db\<lparr>au_events := del_where (\<lambda>e. ae_id e = i) (au_events db)\<rparr>)))"

definition delete_all_events :: "faults \<Rightarrow> audit_db \<Rightarrow> (audit_error, nat) result \<times> audit_db" where
  "delete_all_events fl db =
    (case fl 0 of Some msg \<Rightarrow> (Inl (AuditDb ''delete all events'' msg), db)
     | None \<Rightarrow> (Inr (length (au_events db)), db\<lparr>au_events := []\<rparr>))"

definition max_details_bytes :: nat where
  "max_details_bytes = 4096"

definition clip_details :: "string \<Rightarrow> string" where
  "clip_details raw =
    (if max_details_bytes < length raw then take max_details_bytes raw @ '',\"_truncated\":true}'' else raw)"

text \<open>\<open>Record\<close>: the encoded details, or the error of the encoder; a failure is only logged.\<close>

definition record_event ::
  "faults \<Rightarrow> time \<Rightarrow> string \<Rightarrow> string \<Rightarrow> string \<Rightarrow> string \<Rightarrow> (string, string) result \<Rightarrow> audit_db \<Rightarrow> audit_db"
where
  "record_event fl now actor action target outcome details db =
    (case fl 0 of Some msg \<Rightarrow> db
     | None \<Rightarrow>
       db\<lparr>au_events := ins_row \<lparr>ae_id = au_seq db + 1, ae_ts = now, ae_actor = actor, ae_action = action,
            ae_target = target, ae_outcome = outcome,
            ae_details = clip_details (case details of Inl e \<Rightarrow> ''{}'' | Inr raw \<Rightarrow> raw)\<rparr> (au_events db),
          au_seq := au_seq db + 1\<rparr>)"

record audit_query =
  aq_actor :: string
  aq_action :: string
  aq_limit :: int
  aq_offset :: int

definition clamp_query :: "audit_query \<Rightarrow> audit_query" where
  "clamp_query q =
    q\<lparr>aq_limit := (if aq_limit q \<le> 0 then 200 else if 500 < aq_limit q then 500 else aq_limit q),
      aq_offset := (if aq_offset q < 0 then 0 else aq_offset q)\<rparr>"

definition list_events :: "faults \<Rightarrow> audit_query \<Rightarrow> audit_db \<Rightarrow> (audit_error, audit_event list) result" where
  "list_events fl q0 db =
    (let q = clamp_query q0;
         found = filter (\<lambda>e. (aq_actor q = [] \<or> ae_actor e = aq_actor q) \<and> (aq_action q = [] \<or> ae_action e = aq_action q))
                   (rev (sort_key ae_id (au_events db))) in
     case fl 0 of Some msg \<Rightarrow> Inl (AuditDb ''audit list'' msg)
     | None \<Rightarrow> Inr (take (nat (aq_limit q)) (drop (nat (aq_offset q)) found)))"

definition number_or :: "int \<Rightarrow> string \<Rightarrow> int" where
  "number_or d s = (if s = [] then d else case atoi s of None \<Rightarrow> d | Some n \<Rightarrow> n)"

definition audit_list ::
  "faults \<Rightarrow> identity option \<Rightarrow> string \<Rightarrow> string \<Rightarrow> string \<Rightarrow> string \<Rightarrow> audit_db \<Rightarrow> audit_event list answer"
where
  "audit_list fl i actor action limit offset db =
    (if \<not> is_admin i then (403, ErrorText ''reading the audit trail requires the admin role'')
     else case list_events fl \<lparr>aq_actor = actor, aq_action = action, aq_limit = number_or 0 limit,
                               aq_offset = number_or 0 offset\<rparr> db of
       Inl e \<Rightarrow> (500, ErrorText ''list failed'')
     | Inr es \<Rightarrow> (200, Json es))"

definition audit_remove :: "faults \<Rightarrow> identity option \<Rightarrow> string \<Rightarrow> audit_db \<Rightarrow> unit answer \<times> audit_db" where
  "audit_remove fl i raw db =
    (if \<not> is_admin i then ((403, ErrorText ''deleting audit events requires the admin role''), db)
     else case atoi raw of
       None \<Rightarrow> ((400, ErrorText ''invalid event id''), db)
     | Some n \<Rightarrow>
       (if n \<le> 0 then ((400, ErrorText ''invalid event id''), db)
        else case delete_event fl n db of
          (Some AuditNotFound, db') \<Rightarrow> ((404, ErrorText ''event not found''), db')
        | (Some e, db') \<Rightarrow> ((500, ErrorText ''delete failed''), db')
        | (None, db') \<Rightarrow> ((204, Empty), db')))"

definition audit_purge :: "faults \<Rightarrow> identity option \<Rightarrow> audit_db \<Rightarrow> nat answer \<times> audit_db" where
  "audit_purge fl i db =
    (if \<not> is_admin i then ((403, ErrorText ''purging the audit trail requires the admin role''), db)
     else case delete_all_events fl db of
       (Inl e, db') \<Rightarrow> ((500, ErrorText ''purge failed''), db')
     | (Inr n, db') \<Rightarrow> ((200, Json n), db'))"

subsection \<open>Requests\<close>

record http_call = http_request +
  hc_method :: string
  hc_agent :: string
  hc_arch :: string
  hc_remote :: string
  hc_host :: string
  hc_uri :: string

definition split_last :: "char \<Rightarrow> string \<Rightarrow> (string \<times> string) option" where
  "split_last c s =
    (if c \<notin> set s then None
     else let after = takeWhile (\<lambda>d. d \<noteq> c) (rev s) in
       Some (take (length s - Suc (length after)) s, c # rev after))"

text \<open>\<open>net.SplitHostPort\<close>, \<open>None\<close> for its errors.\<close>

definition split_host_port :: "string \<Rightarrow> (string \<times> string) option" where
  "split_host_port hp =
    (case split_last CHR '':'' hp of
       None \<Rightarrow> None
     | Some (before, colon_port) \<Rightarrow>
       (let port = tl colon_port in
        if starts_with ''['' hp then
          (let inside = takeWhile (\<lambda>c. c \<noteq> CHR '']'') (tl hp) in
           if CHR '']'' \<notin> set hp \<or> before \<noteq> CHR ''['' # inside @ '']'' then None
           else if CHR ''['' \<in> set inside \<or> CHR ''['' \<in> set port \<or> CHR '']'' \<in> set port then None
           else Some (inside, port))
        else if CHR '':'' \<in> set before \<or> CHR ''['' \<in> set hp \<or> CHR '']'' \<in> set hp then None
        else Some (before, port)))"

definition remote_ip :: "string \<Rightarrow> string" where
  "remote_ip addr = (case split_host_port addr of None \<Rightarrow> addr | Some (h, p) \<Rightarrow> h)"

definition request_actor :: "identity option \<Rightarrow> http_call \<Rightarrow> string" where
  "request_actor i r =
    (case i of
       Some x \<Rightarrow> if id_user x \<noteq> [] then id_user x else (case hr_basic r of Some (u, p) \<Rightarrow> u | None \<Rightarrow> ''anonymous'')
     | None \<Rightarrow> (case hr_basic r of Some (u, p) \<Rightarrow> u | None \<Rightarrow> ''anonymous''))"

subsection \<open>The boot path\<close>

definition derive_port_suffix :: "string \<Rightarrow> string option" where
  "derive_port_suffix addr =
    (if starts_with '':'' addr then Some addr
     else map_option (\<lambda>(h, p). CHR '':'' # p) (split_host_port addr))"

text \<open>The checks of \<open>New\<close>; the server is the address in its URLs.\<close>

definition new_http_server :: "string \<Rightarrow> string \<Rightarrow> string \<Rightarrow> string option" where
  "new_http_server listen boot_dir server_ip =
    (if listen = [] \<or> boot_dir = [] \<or> parse_to4 server_ip = None then None else derive_port_suffix listen)"

definition client_arch :: "http_call \<Rightarrow> string" where
  "client_arch r =
    (let a = trim_space (hc_arch r); ua = to_lower (hc_agent r) in
     if a = ''amd64'' \<or> a = ''arm64'' then a
     else if contains_sub ''arm64'' ua \<or> contains_sub ''aarch64'' ua then ''arm64''
     else ''amd64'')"

definition ipxe_base :: "string \<Rightarrow> string \<Rightarrow> string \<Rightarrow> string" where
  "ipxe_base ip port arch = ''http://'' @ ip @ port @ ''/boot/'' @ arch @ ''/''"

definition render_ipxe :: "string \<Rightarrow> string \<Rightarrow> string \<Rightarrow> string" where
  "render_ipxe ip port arch0 =
    (let arch = (if arch0 = [] then ''amd64'' else arch0);
         console = (if arch = ''arm64'' then ''ttyAMA0'' else ''ttyS0'') in
     join_with [CHR 0x0A]
       [''#!ipxe'',
        ''kernel '' @ ipxe_base ip port arch @ ''vmlinuz initrd=initrd.img boot=live fetch='' @ ipxe_base ip port arch
          @ ''filesystem.squashfs ip=dhcp ethdevice-timeout=90 console='' @ console @ '',115200 metalkit.url=http://'' @ ip @ port
          @ '' systemd.mask=lvm2-pvscan@.service'',
        ''initrd '' @ ipxe_base ip port arch @ ''initrd.img'',
        ''boot'', []])"

definition boot_names :: "string list" where
  "boot_names = [''vmlinuz'', ''initrd.img'', ''filesystem.squashfs'']"

datatype boot_answer = BootScript string | BootFile path | BootHealth | BootMethod | BootMissing

definition boot_file :: "(path \<Rightarrow> bool) \<Rightarrow> path \<Rightarrow> string \<Rightarrow> string \<Rightarrow> path" where
  "boot_file present dir arch name =
    (if present (path_join dir [arch, name]) then path_join dir [arch, name] else path_join dir [name])"

definition serve_boot_file :: "(path \<Rightarrow> bool) \<Rightarrow> path \<Rightarrow> http_call \<Rightarrow> string \<Rightarrow> string \<Rightarrow> boot_answer" where
  "serve_boot_file present dir r arch name =
    (if hc_method r \<noteq> ''GET'' \<and> hc_method r \<noteq> ''HEAD'' then BootMethod else BootFile (boot_file present dir arch name))"

definition boot_arch_handler :: "(path \<Rightarrow> bool) \<Rightarrow> path \<Rightarrow> string \<Rightarrow> http_call \<Rightarrow> boot_answer" where
  "boot_arch_handler present dir arch r =
    (let name = drop (length (''/boot/'' @ arch @ ''/'')) (hr_path r) in
     if name \<in> set boot_names then serve_boot_file present dir r arch name else BootMissing)"

definition handle_health :: "http_call \<Rightarrow> boot_answer" where
  "handle_health r = (if hc_method r = ''GET'' then BootHealth else BootMethod)"

definition handle_ipxe :: "string \<Rightarrow> string \<Rightarrow> http_call \<Rightarrow> boot_answer" where
  "handle_ipxe ip port r =
    (if hc_method r \<noteq> ''GET'' then BootMethod else BootScript (render_ipxe ip port (client_arch r)))"

definition boot_file_handler :: "(path \<Rightarrow> bool) \<Rightarrow> path \<Rightarrow> string \<Rightarrow> http_call \<Rightarrow> boot_answer" where
  "boot_file_handler present dir name r =
    (if hc_method r \<noteq> ''GET'' \<and> hc_method r \<noteq> ''HEAD'' then BootMethod
     else serve_boot_file present dir r (client_arch r) name)"

text \<open>The routes of \<open>routes\<close> below \<open>/healthz\<close> and \<open>/boot/\<close>; \<open>None\<close> is a route of another component.\<close>

definition boot_route :: "(path \<Rightarrow> bool) \<Rightarrow> path \<Rightarrow> string \<Rightarrow> string \<Rightarrow> http_call \<Rightarrow> boot_answer option" where
  "boot_route present dir ip port r =
    (let p = hr_path r in
     if p = ''/healthz'' then Some (handle_health r)
     else if p = ''/boot/ipxe'' then Some (handle_ipxe ip port r)
     else if starts_with ''/boot/amd64/'' p then Some (boot_arch_handler present dir ''amd64'' r)
     else if starts_with ''/boot/arm64/'' p then Some (boot_arch_handler present dir ''arm64'' r)
     else if \<exists>n \<in> set boot_names. p = ''/boot/'' @ n then
       Some (boot_file_handler present dir (drop (length ''/boot/'') p) r)
     else if starts_with ''/boot/'' p then Some BootMissing
     else None)"

subsection \<open>The chain\<close>

definition is_machine_channel :: "string \<Rightarrow> bool" where
  "is_machine_channel p \<longleftrightarrow>
    p = ''/healthz'' \<or> starts_with ''/boot/'' p \<or> p = ''/api/v1/report'' \<or> starts_with ''/api/v1/report/'' p \<or>
    starts_with ''/api/v1/heartbeat/'' p \<or> starts_with ''/api/v1/agent/'' p"

definition https_url :: "string \<Rightarrow> http_call \<Rightarrow> string" where
  "https_url https_addr r =
    (let host = (case split_last CHR '':'' (hc_host r) of
                   None \<Rightarrow> hc_host r
                 | Some (h, rest) \<Rightarrow> if CHR '']'' \<in> set rest then hc_host r else h);
         port = (case split_last CHR '':'' https_addr of None \<Rightarrow> '':8443'' | Some (h, rest) \<Rightarrow> rest) in
     ''https://'' @ host @ port @ hc_uri r)"

datatype 'b front = Answered nat 'b | Redirected nat string

definition machine_channel_or_redirect :: "string \<Rightarrow> http_call \<Rightarrow> ('s \<Rightarrow> 'b front \<times> 's) \<Rightarrow> 's \<Rightarrow> 'b front \<times> 's" where
  "machine_channel_or_redirect https_addr r call s =
    (if is_machine_channel (hr_path r) then call s else (Redirected 308 (https_url https_addr r), s))"

definition audited :: "http_call \<Rightarrow> bool" where
  "audited r \<longleftrightarrow>
    hc_method r \<notin> {''GET'', ''HEAD''} \<and> starts_with ''/api/v1/'' (hr_path r) \<and>
    \<not> starts_with ''/api/v1/agent/'' (hr_path r) \<and> \<not> starts_with ''/api/v1/report'' (hr_path r)"

definition event_details :: "(string \<Rightarrow> string) \<Rightarrow> nat \<Rightarrow> http_call \<Rightarrow> string" where
  "event_details json status r =
    ''{\"remote\":'' @ json (remote_ip (hc_remote r)) @ '',\"status\":'' @ digits_nat status @ ''}''"

text \<open>\<open>auditMiddleware\<close> around a handler; \<open>fl\<close> is the plan of the insertion.\<close>

definition audit_middleware ::
  "(string \<Rightarrow> string) \<Rightarrow> bool \<Rightarrow> faults \<Rightarrow> time \<Rightarrow> identity option \<Rightarrow> http_call \<Rightarrow> ('s \<Rightarrow> (nat \<times> 'b) \<times> 's) \<Rightarrow>
   's \<times> audit_db \<Rightarrow> (nat \<times> 'b) \<times> 's \<times> audit_db"
where
  "audit_middleware json wired fl now i r call sa =
    (case call (fst sa) of (a, s') \<Rightarrow>
       (a, s',
        if \<not> wired \<or> \<not> audited r then snd sa
        else record_event fl now (case i of None \<Rightarrow> ''anonymous'' | Some x \<Rightarrow> if id_user x = [] then ''anonymous'' else id_user x)
          (hc_method r @ '' '' @ hr_path r) [] (if 400 \<le> fst a then ''failed'' else ''ok'') (Inr (event_details json (fst a) r)) (snd sa)))"

text \<open>The whole chain: access control around the audit around the routes.\<close>

definition serve ::
  "mkpasswd \<Rightarrow> credentials \<Rightarrow> bool \<Rightarrow> faults \<Rightarrow> faults \<Rightarrow> (string \<Rightarrow> string) \<Rightarrow> bool \<Rightarrow> faults \<Rightarrow> time \<Rightarrow> http_call \<Rightarrow>
   (identity option \<Rightarrow> 's \<Rightarrow> (nat \<times> 'b) \<times> 's) \<Rightarrow> session list \<times> 's \<times> audit_db \<Rightarrow> access \<times> (nat \<times> 'b) option \<times> session list \<times> 's \<times> audit_db"
where
  "serve mk cr has_store fl fl' json wired afl now r call st =
    (case session_or_basic_auth mk cr has_store fl fl' now (http_request.truncate r) (fst st) of
       (Served i, t) \<Rightarrow>
         (case audit_middleware json wired afl now i r (call i) (snd st) of (a, sa) \<Rightarrow> (Served i, Some a, t, sa))
     | (x, t) \<Rightarrow> (x, None, t, snd st))"

subsection \<open>What the front end promises\<close>

lemma boot_arch_routes:
  assumes "hr_path r = ''/boot/'' @ arch @ ''/'' @ n" "arch = ''amd64'' \<or> arch = ''arm64''"
  shows "boot_route present dir ip port r = Some (boot_arch_handler present dir arch r)"
  using assms(2)
proof
  assume "arch = ''amd64''"
  then show ?thesis using assms(1) by (simp add: boot_route_def starts_with_def)
next
  assume "arch = ''arm64''"
  then show ?thesis using assms(1) by (simp add: boot_route_def starts_with_def)
qed

lemma contains_sub_infix: "contains_sub w (a @ w @ b)"
proof (induction a)
  case Nil
  have "starts_with w (w @ b)" by (simp add: starts_with_def)
  then show ?case by (cases "w @ b") simp_all
qed simp

lemma script_urls:
  assumes "arch \<noteq> []"
  shows "contains_sub (ipxe_base ip port arch @ ''vmlinuz'') (render_ipxe ip port arch)"
    "contains_sub (ipxe_base ip port arch @ ''filesystem.squashfs'') (render_ipxe ip port arch)"
    "contains_sub (ipxe_base ip port arch @ ''initrd.img'') (render_ipxe ip port arch)"
proof -
  let ?u = "ipxe_base ip port arch" and ?nl = "[CHR 0x0A]"
  let ?c = "if arch = ''arm64'' then ''ttyAMA0'' else ''ttyS0''"
  let ?tail = "'' ip=dhcp ethdevice-timeout=90 console='' @ ?c @ '',115200 metalkit.url=http://'' @ ip @ port
          @ '' systemd.mask=lvm2-pvscan@.service'' @ ?nl"
  have r: "render_ipxe ip port arch = ''#!ipxe'' @ ?nl @ ''kernel '' @ (?u @ ''vmlinuz'') @ '' initrd=initrd.img boot=live fetch=''
      @ (?u @ ''filesystem.squashfs'') @ ?tail @ ''initrd '' @ (?u @ ''initrd.img'') @ ?nl @ ''boot'' @ ?nl"
    using assms by (simp add: render_ipxe_def)
  show "contains_sub (?u @ ''vmlinuz'') (render_ipxe ip port arch)"
    using contains_sub_infix [of "?u @ ''vmlinuz''" "''#!ipxe'' @ ?nl @ ''kernel ''"] unfolding r by (simp only: append_assoc)
  show "contains_sub (?u @ ''filesystem.squashfs'') (render_ipxe ip port arch)"
    using contains_sub_infix [of "?u @ ''filesystem.squashfs''"
        "''#!ipxe'' @ ?nl @ ''kernel '' @ (?u @ ''vmlinuz'') @ '' initrd=initrd.img boot=live fetch=''"]
    unfolding r by (simp only: append_assoc)
  show "contains_sub (?u @ ''initrd.img'') (render_ipxe ip port arch)"
    using contains_sub_infix [of "?u @ ''initrd.img''"
        "''#!ipxe'' @ ?nl @ ''kernel '' @ (?u @ ''vmlinuz'') @ '' initrd=initrd.img boot=live fetch=''
          @ (?u @ ''filesystem.squashfs'') @ ?tail @ ''initrd ''"]
    unfolding r by (simp only: append_assoc)
qed

text \<open>
  Every URL in the script a machine boots with can be fetched by that machine: its path is served on the
  plain listener and without a login, and a GET of it is answered with the file of the machine's processor,
  or the one of the flat directory when there is none for the processor.
\<close>

theorem boot_script_is_served:
  assumes a: "arch = client_arch r0" and n: "n \<in> set boot_names"
    and r: "hr_path r = ''/boot/'' @ arch @ ''/'' @ n" "hc_method r = ''GET''"
  shows "contains_sub (''http://'' @ ip @ port @ hr_path r) (render_ipxe ip port arch)
    \<and> is_machine_channel (hr_path r) \<and> \<not> needs_auth (hr_path r)
    \<and> boot_route present dir ip' port' r = Some (BootFile (boot_file present dir arch n))"
proof -
  have arch: "arch = ''amd64'' \<or> arch = ''arm64''" using a by (auto simp: client_arch_def Let_def)
  have url: "''http://'' @ ip @ port @ hr_path r = ipxe_base ip port arch @ n" using r by (simp add: ipxe_base_def)
  have "contains_sub (ipxe_base ip port arch @ n) (render_ipxe ip port arch)"
    using script_urls [of arch ip port] arch n by (auto simp: boot_names_def)
  moreover have "is_machine_channel (hr_path r)" using r by (simp add: is_machine_channel_def starts_with_def)
  moreover have "\<not> needs_auth (hr_path r)" using r by (simp add: needs_auth_def open_prefixes_def starts_with_def)
  moreover have "boot_route present dir ip' port' r = Some (BootFile (boot_file present dir arch n))"
    unfolding boot_arch_routes [OF r(1) arch] using n r by (simp add: boot_arch_handler_def serve_boot_file_def)
  ultimately show ?thesis unfolding url by blast
qed

lemma plain_boot: "plain_name ''amd64'' \<and> plain_name ''arm64'' \<and> (\<forall>n \<in> set boot_names. plain_name n)"
  by code_simp

lemma boot_files_stay_inside:
  assumes "boot_route present dir ip port r = Some (BootFile f)"
  shows "\<exists>n \<in> set boot_names. f = dir @ [n] \<or> (\<exists>arch \<in> {''amd64'', ''arm64''}. f = dir @ [arch, n])"
proof -
  have j: "path_join dir [arch, n] = dir @ [arch, n]" if "arch \<in> {''amd64'', ''arm64''}" "n \<in> set boot_names" for arch n
    using plain_boot that by (auto simp: path_join_plain)
  have k: "path_join dir [n] = dir @ [n]" if "n \<in> set boot_names" for n
    using plain_boot that by (auto simp: path_join_plain)
  have arch: "client_arch r \<in> {''amd64'', ''arm64''}" by (simp add: client_arch_def Let_def)
  have name: "drop (length ''/boot/'') (''/boot/'' @ n) = n" for n by simp
  show ?thesis
    using assms j k arch name
    by (auto simp: boot_route_def handle_health_def handle_ipxe_def boot_file_handler_def boot_arch_handler_def
        serve_boot_file_def boot_file_def Let_def split: if_splits)
qed

text \<open>
  With accounts configured, a call of an operator that may change something leaves one event that names
  who made it: the owner of a live session whose cookie the request carries, or an account whose password it
  carries; the event says whether the call failed. A call that was turned away changes nothing and leaves none.
\<close>

theorem changes_are_attributed:
  assumes on: "\<not> (c_admin_pass cr = [] \<and> c_users cr = [])" and r: "needs_auth (hr_path r)" "audited r" and ins: "afl 0 = None"
    and s: "serve mk cr has fl fl' json True afl now r call (t, st, au) = (x, a, t', st', au')"
  shows "case a of
      None \<Rightarrow> st' = st \<and> au' = au
    | Some (status, b) \<Rightarrow>
        (\<exists>e. au_events au' = au_events au @ [e] \<and> ae_action e = hc_method r @ '' '' @ hr_path r
           \<and> (ae_outcome e = ''failed'' \<longleftrightarrow> 400 \<le> status)
           \<and> (\<exists>i. x = Served (Some i) \<and> (id_user i \<noteq> [] \<longrightarrow> ae_actor e = id_user i)
                \<and> ((\<exists>q \<in> set t. hr_cookie r = Some (s_id q) \<and> now < from_unix (s_expires q) \<and> id_user i = s_username q)
                   \<or> (\<exists>p. hr_basic r = Some (c_admin_user cr, p) \<and> p = c_admin_pass cr \<and> p \<noteq> [])
                   \<or> (\<exists>p u. hr_basic r = Some (u_name u, p) \<and> u \<in> set (c_users cr) \<and> verifies mk p u \<and> id_user i = u_name u))))"
proof -
  let ?r = "http_request.truncate r"
  have f: "hr_path ?r = hr_path r" "hr_cookie ?r = hr_cookie r" "hr_basic ?r = hr_basic r"
    by (simp_all add: http_request.truncate_def)
  obtain y t1 where y: "session_or_basic_auth mk cr has fl fl' now ?r t = (y, t1)" by force
  show ?thesis
  proof (cases y)
    case (Served i)
    have need: "needs_auth (hr_path ?r)" using r(1) f by simp
    note id = access_needs_identity [OF on need y [unfolded Served], unfolded f]
    then obtain j where j: "i = Some j" by blast
    obtain status b s1 where c: "call i st = ((status, b), s1)" by (metis prod.collapse)
    have au': "au' = record_event afl now (if id_user j = [] then ''anonymous'' else id_user j) (hc_method r @ '' '' @ hr_path r) []
        (if 400 \<le> status then ''failed'' else ''ok'') (Inr (event_details json status r)) au"
      and xa: "x = Served i" "a = Some (status, b)"
      using s y r(2) c by (auto simp: serve_def audit_middleware_def Served j)
    show ?thesis
      using id ins unfolding au' xa j by (auto simp: record_event_def ins_row_def)
  qed (use s y in \<open>auto simp: serve_def\<close>)
qed

text \<open>
  The report of a machine is left out of the trail, its heartbeat is not: every machine adds an event of
  nobody at every beat.
\<close>

lemma heartbeats_are_audited:
  assumes "hr_path r = ''/api/v1/heartbeat/'' @ u" "hc_method r = ''POST''"
  shows "audited r \<and> \<not> needs_auth (hr_path r)"
  using assms by (simp add: audited_def needs_auth_def open_prefixes_def starts_with_def)

text \<open>A long value is cut in the middle: what is stored is no JSON text any more, here one without its closing quote.\<close>

lemma clipped_details_are_no_json:
  "clip_details (''{\"a\":\"'' @ replicate 5000 CHR ''x'' @ ''\"}'') = ''{\"a\":\"'' @ replicate 4090 CHR ''x'' @ '',\"_truncated\":true}''"
  by (simp add: clip_details_def max_details_bytes_def)

definition demo_call :: "string \<Rightarrow> string \<Rightarrow> http_call" where
  "demo_call meth p = http_request.extend (demo_http\<lparr>hr_path := p\<rparr>)
     (http_call.fields meth ''iPXE/arm64-efi'' [] ''10.0.0.7:4711'' ''10.0.0.1'' p)"

theorem boot_script_is_served_witness:
  "boot_route (\<lambda>_. True) [''boot''] ''10.0.0.1'' '':8080'' (demo_call ''GET'' ''/boot/arm64/vmlinuz'')
    = Some (BootFile (boot_file (\<lambda>_. True) [''boot''] ''arm64'' ''vmlinuz''))"
proof -
  have "''arm64'' = client_arch (demo_call ''GET'' ''/boot/arm64/vmlinuz'')" by code_simp
  moreover have "hr_path (demo_call ''GET'' ''/boot/arm64/vmlinuz'') = ''/boot/'' @ ''arm64'' @ ''/'' @ ''vmlinuz''"
    "hc_method (demo_call ''GET'' ''/boot/arm64/vmlinuz'') = ''GET''" by code_simp+
  moreover have "''vmlinuz'' \<in> set boot_names" by code_simp
  ultimately show ?thesis using boot_script_is_served by blast
qed

definition demo_served :: "access \<times> (nat \<times> string) option \<times> session list \<times> nat \<times> audit_db" where
  "demo_served = serve demo_mk demo_creds True no_faults no_faults id True no_faults 0 (demo_call ''DELETE'' ''/api/v1/jobs/1'')
     (\<lambda>i n. ((204, []), Suc n)) ([demo_session], 0, \<lparr>au_events = [], au_seq = 0\<rparr>)"

theorem changes_are_attributed_witness:
  "\<exists>e. au_events (snd (snd (snd (snd demo_served)))) = [e] \<and> ae_action e = ''DELETE /api/v1/jobs/1''"
proof -
  obtain x a t' st' au' where d: "demo_served = (x, a, t', st', au')" by (metis prod.collapse)
  have "fst (the (fst (snd demo_served))) = 204 \<and> fst (snd demo_served) \<noteq> None" by code_simp
  then obtain b where a: "a = Some (204, b)" unfolding d by (cases a) auto
  have "needs_auth (hr_path (demo_call ''DELETE'' ''/api/v1/jobs/1''))" "audited (demo_call ''DELETE'' ''/api/v1/jobs/1'')"
    "hc_method (demo_call ''DELETE'' ''/api/v1/jobs/1'') @ '' '' @ hr_path (demo_call ''DELETE'' ''/api/v1/jobs/1'') = ''DELETE /api/v1/jobs/1''"
    by code_simp+
  then have "\<exists>e. au_events au' = [e] \<and> ae_action e = ''DELETE /api/v1/jobs/1''"
    using changes_are_attributed [OF demo_creds_on _ _ no_faults_simp d [unfolded demo_served_def]] a by auto
  then show ?thesis unfolding d by simp
qed

end
