(* ===== verification/Boot_Config.thy ===== *)
theory Boot_Config
  imports Dhcp_Settings Net_Render
begin

text \<open>
  What the controller starts with. \<open>internal/config/config.go\<close> completes and checks the YAML
  configuration and derives a DHCP pool from the address of a network card; the overlay of the
  operator's settings is in \<open>Settings\<close>. The YAML document is the record the parser fills, the network
  cards of the host are a parameter.
\<close>

subsection \<open>Paths that need not be absolute\<close>

text \<open>\<open>filepath.Clean\<close>, \<open>filepath.Dir\<close> and \<open>filepath.Join\<close> of two elements.\<close>

fun clean_stack :: "bool \<Rightarrow> string list \<Rightarrow> string list \<Rightarrow> string list" where
  "clean_stack rooted st [] = st"
| "clean_stack rooted st (c # cs) =
    (if c = [] \<or> c = ''.'' then clean_stack rooted st cs
     else if c = ''..'' then
       (if st = [] then clean_stack rooted (if rooted then [] else [c]) cs
        else if st ! (length st - 1) = ''..'' then clean_stack rooted (st @ [c]) cs
        else clean_stack rooted (butlast st) cs)
     else clean_stack rooted (st @ [c]) cs)"

definition rooted_text :: "string \<Rightarrow> bool" where
  "rooted_text s \<longleftrightarrow> starts_with ''/'' s"

definition clean_text :: "string \<Rightarrow> string" where
  "clean_text s =
    (let body = join_with ''/'' (clean_stack (rooted_text s) [] (split_on CHR ''/'' s)) in
     if rooted_text s then CHR ''/'' # body else if body = [] then ''.'' else body)"

definition dir_text :: "string \<Rightarrow> string" where
  "dir_text s = clean_text (rev (dropWhile (\<lambda>c. c \<noteq> CHR ''/'') (rev s)))"

definition join_two :: "string \<Rightarrow> string \<Rightarrow> string" where
  "join_two a b = (if a = [] \<and> b = [] then [] else clean_text (join_with ''/'' (filter (\<lambda>e. e \<noteq> []) [a, b])))"

subsection \<open>The configuration\<close>

record pool_conf =
  pc_start :: string
  pc_end :: string
  pc_netmask :: string
  pc_gateway :: string
  pc_dns :: "string list"
  pc_lease_hours :: int
  pc_exclude :: "string list"

record https_conf =
  hc_addr :: string
  hc_cert :: string
  hc_key :: string
  hc_state_dir :: string
  hc_dns_name :: string

record user_conf =
  uc_name :: string
  uc_hash :: string
  uc_role :: string

record config =
  cf_server_ip :: string
  cf_interface :: string
  cf_http_addr :: string
  cf_dhcp_addr :: string
  cf_bsdp_addr :: string
  cf_tftp_addr :: string
  cf_boot_dir :: string
  cf_log_level :: string
  cf_dhcp_mode :: string
  cf_reply_target :: string
  cf_pool :: "pool_conf option"
  cf_db_path :: string
  cf_images_dir :: string
  cf_master_key :: string
  cf_admin_user :: string
  cf_admin_pass :: string
  cf_root_password :: string
  cf_pinned :: bool
  cf_https :: "https_conf option"
  cf_users :: "user_conf list"

definition blank_pool :: pool_conf where
  "blank_pool = \<lparr>pc_start = [], pc_end = [], pc_netmask = [], pc_gateway = [], pc_dns = [],
     pc_lease_hours = 0, pc_exclude = []\<rparr>"

datatype config_error =
    InterfaceRequired
  | NoInterface string
  | NoAddresses string
  | NoUsableAddress string
  | BadServerIp string
  | ServerNotIpv4 string
  | NoSubnet string string
  | CertPairIncomplete
  | BadRole nat string
  | BadDhcpMode string
  | BadReplyTarget string
  | ConfNetmask string
  | ConfGateway string
  | ConfStart string
  | ConfEnd string
  | ConfStartAfterEnd string string
  | ConfPoolOutside string string prefix4
  | ConfDns string
  | ConfExclude string

text \<open>
  The network cards: whether a card is up, and its addresses in the kernel's order, each an IPv4
  address with the length of its mask or something else. \<open>None\<close> is a card whose addresses cannot be
  read.
\<close>

datatype nic_addr = NicV4 ip4 nat | NicOther

record nic =
  nic_up :: bool
  nic_addrs :: "nic_addr list option"

type_synonym nic_table = "string \<Rightarrow> nic option"

definition nic_nets :: "nic_table \<Rightarrow> string \<Rightarrow> (config_error, prefix4 list) result" where
  "nic_nets host name =
    (case host name of
       None \<Rightarrow> Inl (NoInterface name)
     | Some nc \<Rightarrow>
       (case nic_addrs nc of
          None \<Rightarrow> Inl (NoAddresses name)
        | Some as \<Rightarrow> Inr (concat (map (\<lambda>a. case a of NicV4 w n \<Rightarrow> if 31 \<le> n then [] else [(w, n)] | NicOther \<Rightarrow> []) as))))"

definition detect_interface_ip :: "nic_table \<Rightarrow> string \<Rightarrow> (config_error, string) result" where
  "detect_interface_ip host name =
    (case nic_nets host name of
       Inl e \<Rightarrow> Inl e
     | Inr nets \<Rightarrow> (case nets of [] \<Rightarrow> Inl (NoUsableAddress name) | (w, n) # _ \<Rightarrow> Inr (show_ip4 w)))"

definition interface_prefix :: "nic_table \<Rightarrow> string \<Rightarrow> string \<Rightarrow> (config_error, prefix4) result" where
  "interface_prefix host name server_ip =
    (case nic_nets host name of
       Inl e \<Rightarrow> Inl e
     | Inr nets \<Rightarrow>
       (case parse_addr server_ip of
          None \<Rightarrow> Inl (BadServerIp server_ip)
        | Some a \<Rightarrow>
          (case find (\<lambda>p. case a of Addr4 w \<Rightarrow> prefix_contains p w | _ \<Rightarrow> False) nets of
             None \<Rightarrow> Inl (NoSubnet name server_ip)
           | Some p \<Rightarrow> Inr p)))"

text \<open>\<open>offsetIP\<close>: the sum wraps around.\<close>

definition offset_ip :: "ip4 \<Rightarrow> ip4 \<Rightarrow> ip4" where
  "offset_ip base n = base + n"

definition or_text :: "string \<Rightarrow> string \<Rightarrow> string" where
  "or_text s d = (if s = [] then d else s)"

text \<open>The blanks of a pool, filled from the network of the card.\<close>

definition fill_pool :: "prefix4 \<Rightarrow> pool_conf \<Rightarrow> pool_conf" where
  "fill_pool net p =
    (let base = fst (prefix_masked net) in
     p\<lparr>pc_netmask := or_text (pc_netmask p) (show_ip4 (cidr_mask (snd net))),
       pc_gateway := or_text (pc_gateway p) (show_ip4 (offset_ip base 1)),
       pc_start := or_text (pc_start p) (show_ip4 (offset_ip base 100)),
       pc_end := or_text (pc_end p) (show_ip4 (offset_ip base 200))\<rparr>)"

definition check_pool :: "string \<Rightarrow> prefix4 \<Rightarrow> pool_conf \<Rightarrow> (config_error, pool_conf) result" where
  "check_pool server_ip net p =
    (case parse_v4 (pc_start p) of
       None \<Rightarrow> Inl (ConfStart (pc_start p))
     | Some a \<Rightarrow>
       (case parse_v4 (pc_end p) of
          None \<Rightarrow> Inl (ConfEnd (pc_end p))
        | Some b \<Rightarrow>
          (if b < a then Inl (ConfStartAfterEnd (pc_start p) (pc_end p))
           else if \<not> prefix_contains net a \<or> \<not> prefix_contains net b then
             Inl (ConfPoolOutside (pc_start p) (pc_end p) net)
           else case find (\<lambda>d. parse_v4 d = None) (pc_dns p) of
             Some d \<Rightarrow> Inl (ConfDns d)
           | None \<Rightarrow>
             (case find (\<lambda>e. parse_v4 e = None) (pc_exclude p) of
                Some e \<Rightarrow> Inl (ConfExclude e)
              | None \<Rightarrow>
                Inr (p\<lparr>pc_dns := (if pc_dns p = [] then [''8.8.8.8'', ''1.1.1.1''] else pc_dns p),
                       pc_lease_hours := (if pc_lease_hours p \<le> 0 then 24 else pc_lease_hours p),
                       pc_exclude := remdups (server_ip # pc_gateway p #
                         map (\<lambda>e. case parse_v4 e of Some w \<Rightarrow> show_ip4 w | None \<Rightarrow> e) (pc_exclude p))\<rparr>)))))"

definition resolve_dhcp_pool :: "nic_table \<Rightarrow> config \<Rightarrow> (config_error, config) result" where
  "resolve_dhcp_pool host c =
    (let p = (case cf_pool c of None \<Rightarrow> blank_pool | Some p \<Rightarrow> p) in
     case interface_prefix host (cf_interface c) (cf_server_ip c) of
       Inl e \<Rightarrow> Inl e
     | Inr net \<Rightarrow>
       (if pc_netmask p \<noteq> [] \<and> parse_ipv4_mask (pc_netmask p) = None then Inl (ConfNetmask (pc_netmask p))
        else if pc_gateway p \<noteq> [] \<and> parse_addr (pc_gateway p) = None then Inl (ConfGateway (pc_gateway p))
        else case check_pool (cf_server_ip c) net (fill_pool net p) of
          Inl e \<Rightarrow> Inl e
        | Inr q \<Rightarrow> Inr (c\<lparr>cf_pool := Some q\<rparr>)))"

fun normal_roles :: "nat \<Rightarrow> user_conf list \<Rightarrow> (config_error, user_conf list) result" where
  "normal_roles i [] = Inr []"
| "normal_roles i (u # us) =
    (let r = lower_trim (uc_role u) in
     if r \<noteq> [] \<and> r \<noteq> ''admin'' \<and> r \<noteq> ''operator'' then Inl (BadRole i (uc_role u))
     else case normal_roles (Suc i) us of
       Inl e \<Rightarrow> Inl e
     | Inr vs \<Rightarrow> Inr (u\<lparr>uc_role := or_text r ''admin''\<rparr> # vs))"

definition normal_https :: "string \<Rightarrow> https_conf option \<Rightarrow> (config_error, https_conf option) result" where
  "normal_https db_path h =
    (case h of
       None \<Rightarrow> Inr None
     | Some hc \<Rightarrow>
       (if (hc_cert hc = []) \<noteq> (hc_key hc = []) then Inl CertPairIncomplete
        else Inr (Some (hc\<lparr>hc_addr := or_text (hc_addr hc) '':8443'',
               hc_state_dir := or_text (hc_state_dir hc) (join_two (dir_text db_path) ''tls'')\<rparr>))))"

definition normal_mode :: "string \<Rightarrow> (config_error, string) result" where
  "normal_mode s =
    (if lower_trim s = [] \<or> lower_trim s = ''proxy'' then Inr ''proxy''
     else if lower_trim s = ''full'' then Inr ''full'' else Inl (BadDhcpMode s))"

definition normal_target :: "string \<Rightarrow> (config_error, string) result" where
  "normal_target s =
    (if lower_trim s = [] then Inr ''giaddr''
     else if lower_trim s = ''giaddr'' \<or> lower_trim s = ''source'' then Inr (lower_trim s)
     else Inl (BadReplyTarget s))"

text \<open>The address of the controller: pinned by the file, or the first usable one of the card.\<close>

definition server_address :: "nic_table \<Rightarrow> config \<Rightarrow> (config_error, string \<times> bool) result" where
  "server_address host c =
    (if cf_server_ip c = [] then
       (case detect_interface_ip host (cf_interface c) of Inl e \<Rightarrow> Inl e | Inr ip \<Rightarrow> Inr (ip, False))
     else Inr (cf_server_ip c, True))"

text \<open>\<open>Load\<close>, from the record the parser filled.\<close>

definition load_config :: "nic_table \<Rightarrow> config \<Rightarrow> (config_error, config) result" where
  "load_config host c =
    (if cf_interface c = [] then Inl InterfaceRequired
     else and_then (server_address host c) (\<lambda>(ip, pinned).
       case parse_addr ip of
         None \<Rightarrow> Inl (BadServerIp ip)
       | Some a \<Rightarrow>
         (if \<not> is4 a then Inl (ServerNotIpv4 ip)
          else let db_path = or_text (cf_db_path c) ''/var/lib/metalkit/inventory.db'' in
            and_then (normal_https db_path (cf_https c)) (\<lambda>https.
            and_then (normal_roles 0 (cf_users c)) (\<lambda>users.
            and_then (normal_mode (cf_dhcp_mode c)) (\<lambda>mode.
            and_then (normal_target (cf_reply_target c)) (\<lambda>target.
              let d = c\<lparr>cf_server_ip := ip, cf_pinned := pinned, cf_bsdp_addr := or_text (cf_bsdp_addr c) '':4011'',
                    cf_db_path := db_path,
                    cf_images_dir := or_text (cf_images_dir c) ''/var/lib/metalkit/images'',
                    cf_master_key := or_text (cf_master_key c) ''/var/lib/metalkit/master.key'',
                    cf_admin_user := or_text (cf_admin_user c) ''admin'',
                    cf_root_password := or_text (cf_root_password c) ''metalkit'',
                    cf_https := https, cf_users := users, cf_dhcp_mode := mode, cf_reply_target := target\<rparr>
              in if mode = ''full'' then resolve_dhcp_pool host d else Inr d)))))))"

datatype log_level = LogDebug | LogInfo | LogWarn | LogError

definition slog_level :: "string \<Rightarrow> log_level" where
  "slog_level s =
    (let l = to_lower s in
     if l = ''debug'' then LogDebug else if l = ''warn'' \<or> l = ''warning'' then LogWarn
     else if l = ''error'' then LogError else LogInfo)"

end
