(* ===== verification/Settings.thy ===== *)
theory Settings
  imports Boot_Config
begin

text \<open>
  The operator's overrides: the table of \<open>internal/settings/store.go\<close>, the DHCP form of
  \<open>internal/settings/api.go\<close> (saving, the merged view, the overlay on the configuration), and the
  first steps of \<open>run\<close> in \<open>cmd/controller/main.go\<close>, from the file to the address pool.
\<close>

subsection \<open>The table\<close>

record setting =
  sg_key :: string
  sg_value :: string
  sg_updated :: int
  sg_by :: string

datatype settings_failure = SettingMissing | SettingFault string | SettingKeyRequired | SettingEmptyKey

definition put_setting :: "int \<Rightarrow> string \<Rightarrow> string \<times> string \<Rightarrow> setting list \<Rightarrow> setting list" where
  "put_setting ts by kv t =
    (let row = \<lparr>sg_key = fst kv, sg_value = snd kv, sg_updated = ts, sg_by = by\<rparr> in
     if sel_row (\<lambda>r. sg_key r = fst kv) t = None then ins_row row t
     else upd_where (\<lambda>r. sg_key r = fst kv) (\<lambda>r. row) t)"

definition get_setting :: "faults \<Rightarrow> nat \<Rightarrow> string \<Rightarrow> setting list \<Rightarrow> (settings_failure, string) result" where
  "get_setting fl k key t =
    (case fl k of
       Some e \<Rightarrow> Inl (SettingFault e)
     | None \<Rightarrow>
       (case sel_row (\<lambda>r. sg_key r = key) t of
          None \<Rightarrow> Inl SettingMissing
        | Some r \<Rightarrow> Inr (sg_value r)))"

text \<open>The values of several keys, the missing ones left out. The \<open>k\<close>-th query may fail.\<close>

fun get_many ::
  "faults \<Rightarrow> nat \<Rightarrow> string list \<Rightarrow> setting list \<Rightarrow> (settings_failure, string \<rightharpoonup> string) result"
where
  "get_many fl k [] t = Inr (\<lambda>_. None)"
| "get_many fl k (key # keys) t =
    (case get_setting fl k key t of
       Inl SettingMissing \<Rightarrow> get_many fl (Suc k) keys t
     | Inl e \<Rightarrow> Inl e
     | Inr v \<Rightarrow> (case get_many fl (Suc k) keys t of Inl e \<Rightarrow> Inl e | Inr m \<Rightarrow> Inr (m(key \<mapsto> v))))"

definition get_all :: "faults \<Rightarrow> setting list \<Rightarrow> (settings_failure, setting list) result" where
  "get_all fl t = (case fl 0 of Some e \<Rightarrow> Inl (SettingFault e) | None \<Rightarrow> Inr (sort_key sg_key t))"

definition set_setting ::
  "faults \<Rightarrow> time \<Rightarrow> string \<Rightarrow> string \<Rightarrow> string \<Rightarrow> setting list \<Rightarrow> settings_failure option \<times> setting list"
where
  "set_setting fl now key v by t =
    (if key = [] then (Some SettingKeyRequired, t)
     else case fl 0 of
       Some e \<Rightarrow> (Some (SettingFault e), t)
     | None \<Rightarrow> (None, put_setting (unix now) by (key, v) t))"

text \<open>
  \<open>SetMany\<close> is one transaction: begin, prepare, one statement per pair and commit, each of which may
  fail. Go visits the pairs of the map in any order; the keys are distinct.
\<close>

fun exec_pairs ::
  "faults \<Rightarrow> nat \<Rightarrow> int \<Rightarrow> string \<Rightarrow> (string \<times> string) list \<Rightarrow> setting list \<Rightarrow> (settings_failure, setting list) result"
where
  "exec_pairs fl k ts by [] t = Inr t"
| "exec_pairs fl k ts by (kv # kvs) t =
    (if fst kv = [] then Inl SettingEmptyKey
     else case fl k of
       Some e \<Rightarrow> Inl (SettingFault e)
     | None \<Rightarrow> exec_pairs fl (Suc k) ts by kvs (put_setting ts by kv t))"

definition set_many ::
  "faults \<Rightarrow> time \<Rightarrow> (string \<times> string) list \<Rightarrow> string \<Rightarrow> setting list \<Rightarrow> settings_failure option \<times> setting list"
where
  "set_many fl now kvs by t =
    (case (fl 0, fl 1) of
       (Some e, _) \<Rightarrow> (Some (SettingFault e), t)
     | (None, Some e) \<Rightarrow> (Some (SettingFault e), t)
     | (None, None) \<Rightarrow>
       (case exec_pairs fl 2 (unix now) by kvs t of
          Inl e \<Rightarrow> (Some e, t)
        | Inr t' \<Rightarrow>
          (case fl (2 + length kvs) of
             Some e \<Rightarrow> (Some (SettingFault e), t)
           | None \<Rightarrow> (None, t'))))"

subsection \<open>The DHCP keys\<close>

definition key_mode :: string where "key_mode = ''dhcp.mode''"
definition key_start :: string where "key_start = ''dhcp.pool.start''"
definition key_end :: string where "key_end = ''dhcp.pool.end''"
definition key_netmask :: string where "key_netmask = ''dhcp.pool.netmask''"
definition key_gateway :: string where "key_gateway = ''dhcp.pool.gateway''"
definition key_dns :: string where "key_dns = ''dhcp.pool.dns''"
definition key_lease_hours :: string where "key_lease_hours = ''dhcp.pool.lease_hours''"
definition key_exclude :: string where "key_exclude = ''dhcp.pool.exclude''"
definition key_interface :: string where "key_interface = ''dhcp.interface''"
definition key_images_dir :: string where "key_images_dir = ''storage.images_dir''"

lemmas key_defs = key_mode_def key_start_def key_end_def key_netmask_def key_gateway_def key_dns_def
  key_lease_hours_def key_exclude_def key_interface_def key_images_dir_def

definition dhcp_keys :: "string list" where
  "dhcp_keys = [key_mode, key_start, key_end, key_netmask, key_gateway, key_dns, key_lease_hours,
     key_exclude, key_interface]"

definition split_csv :: "string \<Rightarrow> string list" where
  "split_csv s = (if s = [] then [] else filter (\<lambda>p. p \<noteq> []) (map trim_space (split_on CHR '','' s)))"

definition dhcp_pairs :: "dhcp_settings \<Rightarrow> (string \<times> string) list" where
  "dhcp_pairs s =
    [(key_mode, ds_mode s), (key_start, ds_start s), (key_end, ds_end s), (key_netmask, ds_netmask s),
     (key_gateway, ds_gateway s), (key_dns, join_with '','' (ds_dns s)),
     (key_lease_hours, show_int (ds_lease_hours s)), (key_exclude, join_with '','' (ds_exclude s))] @
    (if ds_interface s = [] then [] else [(key_interface, ds_interface s)])"

text \<open>The settings a configuration stands for, without its pool when it has none.\<close>

definition conf_settings :: "config \<Rightarrow> dhcp_settings" where
  "conf_settings c =
    (let p = (case cf_pool c of None \<Rightarrow> blank_pool | Some p \<Rightarrow> p) in
     \<lparr>ds_mode = cf_dhcp_mode c, ds_interface = cf_interface c, ds_start = pc_start p, ds_end = pc_end p,
      ds_netmask = pc_netmask p, ds_gateway = pc_gateway p, ds_dns = pc_dns p,
      ds_lease_hours = pc_lease_hours p, ds_exclude = pc_exclude p\<rparr>)"

definition or_found :: "string option \<Rightarrow> string \<Rightarrow> string" where
  "or_found v d = (case v of None \<Rightarrow> d | Some s \<Rightarrow> s)"

definition csv_found :: "string option \<Rightarrow> string list \<Rightarrow> string list" where
  "csv_found v d = (case v of None \<Rightarrow> d | Some s \<Rightarrow> split_csv s)"

definition hours_found :: "string option \<Rightarrow> int \<Rightarrow> int" where
  "hours_found v d =
    (case v of None \<Rightarrow> d | Some s \<Rightarrow> (case atoi s of None \<Rightarrow> d | Some n \<Rightarrow> if 0 < n then n else d))"

definition overlay_settings :: "(string \<rightharpoonup> string) \<Rightarrow> dhcp_settings \<Rightarrow> dhcp_settings" where
  "overlay_settings m s =
    \<lparr>ds_mode = or_text (or_found (m key_mode) (ds_mode s)) ''proxy'',
     ds_interface = or_text (or_found (m key_interface) []) (ds_interface s),
     ds_start = or_found (m key_start) (ds_start s), ds_end = or_found (m key_end) (ds_end s),
     ds_netmask = or_found (m key_netmask) (ds_netmask s), ds_gateway = or_found (m key_gateway) (ds_gateway s),
     ds_dns = csv_found (m key_dns) (ds_dns s),
     ds_lease_hours = hours_found (m key_lease_hours) (ds_lease_hours s),
     ds_exclude = csv_found (m key_exclude) (ds_exclude s)\<rparr>"

definition effective_dhcp :: "faults \<Rightarrow> config \<Rightarrow> setting list \<Rightarrow> (settings_failure, dhcp_settings) result" where
  "effective_dhcp fl cfg t =
    (case get_many fl 0 dhcp_keys t of
       Inl e \<Rightarrow> Inl e
     | Inr m \<Rightarrow> Inr (overlay_settings m (conf_settings cfg)))"

definition effective_interface :: "faults \<Rightarrow> config \<Rightarrow> setting list \<Rightarrow> string \<times> bool" where
  "effective_interface fl cfg t =
    (case get_setting fl 0 key_interface t of
       Inr v \<Rightarrow> (if v \<noteq> [] then (v, True) else (cf_interface cfg, False))
     | Inl _ \<Rightarrow> (cf_interface cfg, False))"

subsection \<open>The form\<close>

datatype form_answer =
    BadBody string
  | UnknownInterface string
  | InterfaceDown string
  | InvalidForm settings_error
  | FormFailed string
  | FormView dhcp_settings
  | FormSaved dhcp_settings bool

definition get_dhcp :: "faults \<Rightarrow> config \<Rightarrow> setting list \<Rightarrow> nat \<times> form_answer" where
  "get_dhcp fl cfg t =
    (case effective_dhcp fl cfg t of
       Inl e \<Rightarrow> (500, FormFailed ''fetch failed'')
     | Inr s \<Rightarrow> (200, FormView s))"

definition nic_problem :: "nic_table \<Rightarrow> string \<Rightarrow> form_answer option" where
  "nic_problem host name =
    (if name = [] then None
     else case host name of
       None \<Rightarrow> Some (UnknownInterface name)
     | Some nc \<Rightarrow> (if nic_up nc then None else Some (InterfaceDown name)))"

text \<open>
  \<open>putDHCP\<close>: the body or why it is no JSON, the optional hot reload, the table and the running server.
\<close>

definition put_dhcp ::
  "nic_table \<Rightarrow> config \<Rightarrow> faults \<Rightarrow> time \<Rightarrow> string \<Rightarrow> (dhcp_settings \<Rightarrow> 's \<Rightarrow> 'e option \<times> 's) option \<Rightarrow>
   (string, dhcp_settings) result \<Rightarrow> setting list \<Rightarrow> 's \<Rightarrow> (nat \<times> form_answer) \<times> setting list \<times> 's"
where
  "put_dhcp host cfg fl now actor reloader sent t sv =
    (case sent of
       Inl e \<Rightarrow> ((400, BadBody e), t, sv)
     | Inr s0 \<Rightarrow>
       (let s1 = (if trim_space (ds_interface s0) = [] then s0\<lparr>ds_interface := cf_interface cfg\<rparr> else s0) in
        case nic_problem host (ds_interface s1) of
          Some a \<Rightarrow> ((400, a), t, sv)
        | None \<Rightarrow>
          (case validate_dhcp_settings (cf_server_ip cfg) s1 of
             Inl e \<Rightarrow> ((400, InvalidForm e), t, sv)
           | Inr s \<Rightarrow>
             (case set_many fl now (dhcp_pairs s) actor t of
                (Some e, t') \<Rightarrow> ((500, FormFailed ''save failed''), t', sv)
              | (None, t') \<Rightarrow>
                (let (stale, sv') =
                   (case reloader of
                      None \<Rightarrow> (True, sv)
                    | Some f \<Rightarrow> (case f s sv of (e, sv') \<Rightarrow> (e \<noteq> None, sv')))
                 in ((200, FormSaved s (stale \<or> ds_interface s \<noteq> [] \<and> ds_interface s \<noteq> cf_interface cfg)),
                     t', sv'))))))"

subsection \<open>The overlay at the next start\<close>

text \<open>\<open>can_make dir\<close>: whether \<open>os.MkdirAll\<close> succeeds.\<close>

definition overlay_images :: "(string \<Rightarrow> bool) \<Rightarrow> string option \<Rightarrow> config \<Rightarrow> config" where
  "overlay_images can_make v c =
    (case v of
       None \<Rightarrow> c
     | Some s \<Rightarrow>
       (let dir = trim_space s in
        if dir \<noteq> [] \<and> rooted_text dir \<and> can_make dir then c\<lparr>cf_images_dir := dir\<rparr> else c))"

definition overlay_mode :: "string option \<Rightarrow> config \<Rightarrow> config" where
  "overlay_mode v c =
    (if v = Some ''proxy'' \<or> v = Some ''full'' then c\<lparr>cf_dhcp_mode := the v\<rparr> else c)"

definition overlay_interface :: "nic_table \<Rightarrow> string option \<Rightarrow> config \<Rightarrow> config" where
  "overlay_interface host v c =
    (case v of
       None \<Rightarrow> c
     | Some name \<Rightarrow>
       (if name = [] \<or> name = cf_interface c \<or> host name = None then c
        else let d = c\<lparr>cf_interface := name\<rparr> in
          if cf_pinned c then d
          else case detect_interface_ip host name of Inl e \<Rightarrow> d | Inr ip \<Rightarrow> d\<lparr>cf_server_ip := ip\<rparr>))"

definition overlay_pool :: "(string \<rightharpoonup> string) \<Rightarrow> config \<Rightarrow> config" where
  "overlay_pool m c =
    (if cf_dhcp_mode c \<noteq> ''full'' then c
     else let p = (case cf_pool c of None \<Rightarrow> blank_pool | Some p \<Rightarrow> p) in
       c\<lparr>cf_pool := Some (p\<lparr>pc_start := or_found (m key_start) (pc_start p), pc_end := or_found (m key_end) (pc_end p),
            pc_netmask := or_found (m key_netmask) (pc_netmask p),
            pc_gateway := or_found (m key_gateway) (pc_gateway p), pc_dns := csv_found (m key_dns) (pc_dns p),
            pc_lease_hours := hours_found (m key_lease_hours) (pc_lease_hours p),
            pc_exclude := csv_found (m key_exclude) (pc_exclude p)\<rparr>)\<rparr>)"

definition apply_overrides ::
  "nic_table \<Rightarrow> (string \<Rightarrow> bool) \<Rightarrow> faults \<Rightarrow> setting list \<Rightarrow> config \<Rightarrow> (settings_failure, config) result"
where
  "apply_overrides host can_make fl t c =
    (case get_many fl 0 (dhcp_keys @ [key_images_dir]) t of
       Inl e \<Rightarrow> Inl e
     | Inr m \<Rightarrow>
       (if \<forall>k \<in> set (dhcp_keys @ [key_images_dir]). m k = None then Inr c
        else Inr (overlay_pool m (overlay_interface host (m key_interface)
          (overlay_mode (m key_mode) (overlay_images can_make (m key_images_dir) c))))))"

subsection \<open>From the file to the pool\<close>

datatype start_error = LoadFailed config_error | OverlayFailed settings_failure | ResolveFailed config_error
  | PoolFailed pool_error

record started =
  sd_config :: config
  sd_url :: string
  sd_pool :: "pool option"

definition boot_url :: "config \<Rightarrow> string" where
  "boot_url c = ''http://'' @ cf_server_ip c @ cf_http_addr c @ ''/boot/ipxe''"

definition conf_pool :: "config \<Rightarrow> (pool_error, pool option) result" where
  "conf_pool c =
    (let s = conf_settings c in
     if ds_mode s \<noteq> ''full'' then Inr None
     else case new_pool (ds_start s) (ds_end s) (ds_netmask s) (ds_gateway s) (ds_dns s)
            (lease_seconds (ds_lease_hours s)) (ds_exclude s) of
       Inl e \<Rightarrow> Inl e
     | Inr p \<Rightarrow> Inr (Some p))"

definition start_controller ::
  "nic_table \<Rightarrow> (string \<Rightarrow> bool) \<Rightarrow> faults \<Rightarrow> setting list \<Rightarrow> config \<Rightarrow> (start_error, started) result"
where
  "start_controller host can_make fl t yaml =
    (case load_config host yaml of
       Inl e \<Rightarrow> Inl (LoadFailed e)
     | Inr c0 \<Rightarrow>
       (case apply_overrides host can_make fl t c0 of
          Inl e \<Rightarrow> Inl (OverlayFailed e)
        | Inr c1 \<Rightarrow>
          (case (if cf_dhcp_mode c1 = ''full'' \<and> cf_pool c1 = None then resolve_dhcp_pool host c1 else Inr c1) of
             Inl e \<Rightarrow> Inl (ResolveFailed e)
           | Inr c \<Rightarrow>
             (case conf_pool c of
                Inl e \<Rightarrow> Inl (PoolFailed e)
              | Inr p \<Rightarrow> Inr \<lparr>sd_config = c, sd_url = boot_url c0, sd_pool = p\<rparr>))))"

subsection \<open>Reading back what was written\<close>

text \<open>What a key holds.\<close>

definition value_of_key :: "setting list \<Rightarrow> string \<rightharpoonup> string" where
  "value_of_key t key = map_option sg_value (sel_row (\<lambda>r. sg_key r = key) t)"

lemma value_after_put:
  "value_of_key (put_setting ts who kv t) key = (if key = fst kv then Some (snd kv) else value_of_key t key)"
proof -
  let ?row = "\<lparr>sg_key = fst kv, sg_value = snd kv, sg_updated = ts, sg_by = who\<rparr>"
  have "sel_row (\<lambda>r. sg_key r = key) (upd_where (\<lambda>r. sg_key r = fst kv) (\<lambda>r. ?row) t) =
      (if key = fst kv then map_option (\<lambda>r. ?row) (sel_row (\<lambda>r. sg_key r = fst kv) t)
       else sel_row (\<lambda>r. sg_key r = key) t)"
    by (induction t) (auto simp: sel_row_def upd_where_def)
  moreover have "find P (t @ [r]) = (case find P t of None \<Rightarrow> if P r then Some r else None | Some q \<Rightarrow> Some q)"
    for P and r :: setting
    by (induction t) auto
  ultimately show ?thesis
    by (auto simp: value_of_key_def put_setting_def Let_def sel_row_def ins_row_def split: option.splits)
qed

lemma get_many_values:
  "get_many fl k keys t = Inr m \<Longrightarrow> m = (\<lambda>key. if key \<in> set keys then value_of_key t key else None)"
proof (induction fl k keys t arbitrary: m rule: get_many.induct)
  case (2 fl k key keys t)
  show ?case
  proof (cases "get_setting fl k key t")
    case (Inl e)
    with "2.prems" have e: "e = SettingMissing" and m: "get_many fl (Suc k) keys t = Inr m"
      by (auto split: settings_failure.splits)
    with Inl have "value_of_key t key = None"
      by (auto simp: get_setting_def value_of_key_def split: option.splits)
    with "2.IH"(1) [OF Inl e m] show ?thesis by auto
  next
    case (Inr v)
    with "2.prems" obtain m' where m': "get_many fl (Suc k) keys t = Inr m'" "m = m'(key \<mapsto> v)"
      by (auto split: sum.splits)
    from Inr have "value_of_key t key = Some v"
      by (auto simp: get_setting_def value_of_key_def split: option.splits)
    with "2.IH"(2) [OF Inr m'(1)] m'(2) show ?thesis by auto
  qed
qed (simp add: fun_eq_iff)

lemma get_many_no_faults: "\<exists>m. get_many no_faults k keys t = Inr m"
  by (induction no_faults k keys t rule: get_many.induct)
    (auto simp: get_setting_def split: sum.splits option.splits settings_failure.splits)

lemma read_back:
  "get_many no_faults k keys t = Inr (\<lambda>key. if key \<in> set keys then value_of_key t key else None)"
  using get_many_no_faults get_many_values by metis

lemma exec_pairs_fold:
  "exec_pairs fl k ts who kvs t = Inr t' \<Longrightarrow> t' = fold (put_setting ts who) kvs t"
  by (induction fl k ts who kvs t rule: exec_pairs.induct) (auto split: if_splits option.splits)

lemma set_many_all_or_nothing:
  "set_many fl now kvs who t = (e, t') \<Longrightarrow>
    (if e = None then t' = fold (put_setting (unix now) who) kvs t else t' = t)"
  unfolding set_many_def by (auto split: option.splits sum.splits dest: exec_pairs_fold)

lemma value_after_fold:
  "distinct (map fst kvs) \<Longrightarrow>
    value_of_key (fold (put_setting ts who) kvs t) key =
      (case map_of kvs key of None \<Rightarrow> value_of_key t key | Some v \<Rightarrow> Some v)"
proof (induction kvs arbitrary: t)
  case (Cons kv kvs)
  then have "map_of kvs (fst kv) = None" by (simp add: map_of_eq_None_iff)
  with Cons show ?case
    by (cases kv) (auto simp: value_after_put split: option.split)
qed simp

lemma parse_v4_chars:
  assumes "parse_v4 s = Some w"
  shows "s \<noteq> [] \<and> (\<forall>c \<in> set s. is_digit c \<or> c = CHR ''.'')"
proof -
  have "parse_ip4 s = Some w"
    using assms parse_addr_is4 [of s "Addr4 w"] by (auto simp: parse_v4_def split: option.splits addr.splits)
  then have q: "None \<notin> set (map (parse_dec 255) (split_on CHR ''.'' s))" "s \<noteq> []"
    unfolding parse_ip4_def by (auto split: list.split_asm option.split_asm simp del: set_map)
  have "list_all is_digit p \<and> p \<noteq> []" if "p \<in> set (split_on CHR ''.'' s)" for p
  proof -
    from q(1) that have "parse_dec 255 p \<noteq> None" by force
    then show ?thesis by (auto simp: parse_dec_def split: if_splits)
  qed
  with set_split_on [of s "CHR ''.''"] show ?thesis
    using q(2) by (force simp: list_all_iff)
qed

lemma digit_visible: "is_digit c \<or> c = CHR ''.'' \<Longrightarrow> visible c \<and> c \<noteq> CHR '',''"
  by (auto simp: is_digit_def visible_def)

lemma split_csv_join:
  assumes "\<And>d. d \<in> set ds \<Longrightarrow> parse_v4 d \<noteq> None"
  shows "split_csv (join_with '','' ds) = ds"
proof (cases "ds = []")
  case False
  have t: "d \<noteq> [] \<and> trim_space d = d \<and> CHR '','' \<notin> set d" if "d \<in> set ds" for d
  proof -
    from assms [OF that] obtain w where "parse_v4 d = Some w" by auto
    note c = parse_v4_chars [OF this]
    then have "\<forall>x \<in> set d. visible x \<and> x \<noteq> CHR '',''" using digit_visible by blast
    with c show ?thesis by (metis hd_in_set last_in_set trim_space_visible)
  qed
  have "split_on CHR '','' (join_with '','' ds) = ds"
    using False t by (intro split_join) auto
  moreover have "join_with '','' ds \<noteq> []"
  proof -
    from False obtain d more where ds: "ds = d # more" by (cases ds) auto
    then have "d \<noteq> []" using t by simp
    then show ?thesis unfolding ds by (cases more) simp_all
  qed
  moreover have "map trim_space ds = ds" "filter (\<lambda>p. p \<noteq> []) ds = ds"
    using t by (simp_all add: map_idI filter_id_conv)
  ultimately show ?thesis by (simp add: split_csv_def)
qed (simp add: split_csv_def)

lemma atoi_show:
  assumes "0 < n" "n < 2 ^ 63"
  shows "atoi (show_int n) = Some n"
proof -
  have d: "digits_nat (nat n) \<noteq> []" "list_all is_digit (digits_nat (nat n))" "val_digits (digits_nat (nat n)) = nat n"
    using digits_nat_props [of "nat n"] by (auto simp: list_all_iff)
  then have "is_digit (hd (digits_nat (nat n)))"
    using digits_nat_props [of "nat n"] by auto
  then have "hd (digits_nat (nat n)) \<noteq> CHR ''-''" "hd (digits_nat (nat n)) \<noteq> CHR ''+''"
    by (auto simp: is_digit_def)
  with assms d show ?thesis
    by (simp add: atoi_def show_int_def Let_def)
qed

lemma validated_full:
  assumes "validate_dhcp_settings ip s0 = Inr s" "ds_mode s = ''full''" "parse_v4 ip \<noteq> None"
  shows "\<forall>d \<in> set (ds_dns s). parse_v4 d \<noteq> None" "\<forall>e \<in> set (ds_exclude s). parse_v4 e \<noteq> None"
    "0 < ds_lease_hours s" "ds_interface s = ds_interface s0"
proof -
  from assms(1,2) obtain gw where v: "parse_v4 (ds_gateway s0) = Some gw"
    "find (\<lambda>d. parse_v4 d = None) (ds_dns s0) = None" "find (\<lambda>e. parse_v4 e = None) (ds_exclude s0) = None"
    and s: "s = s0\<lparr>ds_mode := lower_trim (ds_mode s0),
        ds_dns := (if ds_dns s0 = [] then [''8.8.8.8'', ''1.1.1.1''] else ds_dns s0),
        ds_lease_hours := (if ds_lease_hours s0 \<le> 0 then 24 else ds_lease_hours s0),
        ds_exclude := remdups (ip # ds_gateway s0 #
          map (\<lambda>e. case parse_v4 e of Some w \<Rightarrow> show_ip4 w | None \<Rightarrow> e) (ds_exclude s0))\<rparr>"
    unfolding validate_dhcp_settings_def Let_def by (auto split: if_splits option.splits)
  have "parse_v4 ''8.8.8.8'' \<noteq> None" "parse_v4 ''1.1.1.1'' \<noteq> None" by code_simp+
  with v(2) show "\<forall>d \<in> set (ds_dns s). parse_v4 d \<noteq> None" by (auto simp: s find_None_iff)
  show "\<forall>e \<in> set (ds_exclude s). parse_v4 e \<noteq> None"
    using v(1,3) assms(3) by (auto simp: s find_None_iff split: option.splits)
  show "0 < ds_lease_hours s" "ds_interface s = ds_interface s0" by (simp_all add: s)
qed

lemma dhcp_keys_distinct: "distinct (dhcp_keys @ [key_images_dir])"
  by code_simp

lemma dhcp_pairs_keys: "distinct (map fst (dhcp_pairs s))"
  using dhcp_keys_distinct by (simp add: dhcp_pairs_def dhcp_keys_def)

lemma stored_form:
  assumes t': "t' = fold (put_setting ts who) (dhcp_pairs s) t" and i: "ds_interface s \<noteq> []"
  shows "value_of_key t' key_mode = Some (ds_mode s)" "value_of_key t' key_start = Some (ds_start s)"
    "value_of_key t' key_end = Some (ds_end s)" "value_of_key t' key_netmask = Some (ds_netmask s)"
    "value_of_key t' key_gateway = Some (ds_gateway s)" "value_of_key t' key_dns = Some (join_with '','' (ds_dns s))"
    "value_of_key t' key_lease_hours = Some (show_int (ds_lease_hours s))"
    "value_of_key t' key_exclude = Some (join_with '','' (ds_exclude s))"
    "value_of_key t' key_interface = Some (ds_interface s)"
  unfolding t' value_after_fold [OF dhcp_pairs_keys]
  using i by (simp_all add: dhcp_pairs_def key_defs)

lemma overlay_stored:
  assumes m: "m = (\<lambda>key. if key \<in> set ks then value_of_key t' key else None)" "set dhcp_keys \<subseteq> set ks"
    and t': "t' = fold (put_setting ts who) (dhcp_pairs s) t" and i: "ds_interface s \<noteq> []"
    and s: "ds_mode s = ''full''" "\<forall>d \<in> set (ds_dns s). parse_v4 d \<noteq> None"
    "\<forall>e \<in> set (ds_exclude s). parse_v4 e \<noteq> None" "0 < ds_lease_hours s" "ds_lease_hours s < 2 ^ 63"
  shows "overlay_settings m s0 = s"
    "conf_settings (overlay_pool m (overlay_interface host (m key_interface)
       (overlay_mode (m key_mode) (overlay_images can_make v c)))) =
      s\<lparr>ds_interface := (if host (ds_interface s) = None then cf_interface c else ds_interface s)\<rparr>"
proof -
  have k: "m key = value_of_key t' key" if "key \<in> set dhcp_keys" for key
    using that m by auto
  have mm: "m key_mode = Some (ds_mode s)" "m key_start = Some (ds_start s)" "m key_end = Some (ds_end s)"
    "m key_netmask = Some (ds_netmask s)" "m key_gateway = Some (ds_gateway s)"
    "m key_dns = Some (join_with '','' (ds_dns s))" "m key_lease_hours = Some (show_int (ds_lease_hours s))"
    "m key_exclude = Some (join_with '','' (ds_exclude s))" "m key_interface = Some (ds_interface s)"
    using stored_form [OF t' i] by (simp_all add: k dhcp_keys_def)
  have r: "split_csv (join_with '','' (ds_dns s)) = ds_dns s"
    "split_csv (join_with '','' (ds_exclude s)) = ds_exclude s" "atoi (show_int (ds_lease_hours s)) = Some (ds_lease_hours s)"
    using s by (auto intro: split_csv_join atoi_show)
  show "overlay_settings m s0 = s"
    using mm r i s by (simp add: overlay_settings_def or_found_def csv_found_def hours_found_def or_text_def)
  let ?c = "overlay_interface host (m key_interface) (overlay_mode (m key_mode) (overlay_images can_make v c))"
  have c: "cf_dhcp_mode ?c = ''full''" "cf_interface ?c = (if host (ds_interface s) = None then cf_interface c else ds_interface s)"
    using i s(1) by (auto simp: mm overlay_interface_def overlay_mode_def overlay_images_def Let_def split: option.splits sum.splits)
  show "conf_settings (overlay_pool m ?c) =
      s\<lparr>ds_interface := (if host (ds_interface s) = None then cf_interface c else ds_interface s)\<rparr>"
    using mm r s(1,4) c by (simp add: overlay_pool_def conf_settings_def or_found_def csv_found_def hours_found_def Let_def)
qed

lemma put_dhcp_saved:
  assumes "put_dhcp host cfg fl now actor reloader (Inr s0) t sv = ((200, FormSaved s restart), t', sv')"
  shows "validate_dhcp_settings (cf_server_ip cfg)
      (if trim_space (ds_interface s0) = [] then s0\<lparr>ds_interface := cf_interface cfg\<rparr> else s0) = Inr s"
    "set_many fl now (dhcp_pairs s) actor t = (None, t')"
    "\<not> restart \<Longrightarrow> (\<exists>f. reloader = Some f \<and> f s sv = (None, sv')) \<and> (ds_interface s = [] \<or> ds_interface s = cf_interface cfg)"
  using assms unfolding put_dhcp_def Let_def sum.case
  by (auto split: option.split_asm sum.split_asm prod.split_asm)


text \<open>The form of the example network, saved on a card that is up and handed to the running server.\<close>

definition demo_host :: "nat \<Rightarrow> nic_table" where
  "demo_host n = (\<lambda>name. if name = ''eth0'' then Some \<lparr>nic_up = True, nic_addrs = Some [NicOther, NicV4 (ip4_of 10 0 0 2) n]\<rparr>
     else if name = ''eth1'' then Some \<lparr>nic_up = True, nic_addrs = Some [NicV4 (ip4_of 192 168 1 9) 24]\<rparr> else None)"

definition demo_yaml :: config where
  "demo_yaml = \<lparr>cf_server_ip = [], cf_interface = ''eth0'', cf_http_addr = '':8080'', cf_dhcp_addr = [], cf_bsdp_addr = [],
     cf_tftp_addr = [], cf_boot_dir = [], cf_log_level = [], cf_dhcp_mode = '' Full'', cf_reply_target = [], cf_pool = None,
     cf_db_path = [], cf_images_dir = [], cf_master_key = [], cf_admin_user = [], cf_admin_pass = [], cf_root_password = [],
     cf_pinned = False, cf_https = None, cf_users = []\<rparr>"

definition demo_config :: config where
  "demo_config = demo_yaml\<lparr>cf_server_ip := ''10.0.0.2'', cf_dhcp_mode := ''proxy''\<rparr>"

definition demo_saved :: "(nat \<times> form_answer) \<times> setting list \<times> lease list dhcp_server" where
  "demo_saved = put_dhcp (demo_host 24) demo_config no_faults 0 ''admin''
     (Some (reload_dhcp no_faults (Some demo_catalog) (leases_adapter no_faults 0))) (Inr demo_settings) [] demo_proxy"


subsection \<open>Deviations\<close>

text \<open>
  Full mode without a pool works out of the box on a network of at least 256 addresses; on a smaller one
  the derived end lies outside, is not clamped and stops the controller.
\<close>

lemma narrow_network_stops_start:
  "case start_controller (demo_host 24) (\<lambda>_. True) no_faults [] demo_yaml of
     Inr s \<Rightarrow> map_option pc_end (cf_pool (sd_config s)) = Some ''10.0.0.200'' | Inl e \<Rightarrow> False"
  "start_controller (demo_host 25) (\<lambda>_. True) no_faults [] demo_yaml
     = Inl (LoadFailed (ConfPoolOutside ''10.0.0.100'' ''10.0.0.200'' (ip4_of 10 0 0 2, 25)))"
  by code_simp+

text \<open>The boot URL handed out by DHCP is composed before the saved settings are read.\<close>

lemma boot_url_is_stale:
  "case start_controller (demo_host 24) (\<lambda>_. True) no_faults (put_setting 0 ''admin'' (key_interface, ''eth1'') [])
      (demo_yaml\<lparr>cf_dhcp_mode := []\<rparr>) of
     Inr s \<Rightarrow> cf_server_ip (sd_config s) = ''192.168.1.9'' \<and> sd_url s = ''http://10.0.0.2:8080/boot/ipxe''
   | Inl e \<Rightarrow> False"
  by code_simp

text \<open>A stored value that is no address is not ignored: the controller does not start.\<close>

lemma corrupt_override_stops_start:
  "case start_controller (demo_host 24) (\<lambda>_. True) no_faults (put_setting 0 ''admin'' (key_start, ''oops'') []) demo_yaml of
     Inl (PoolFailed e) \<Rightarrow> True | _ \<Rightarrow> False"
  by code_simp

text \<open>An unknown mode in the file is an error, not the mode \<open>proxy\<close>.\<close>

lemma unknown_mode_is_refused:
  "load_config (demo_host 24) (demo_yaml\<lparr>cf_dhcp_mode := ''ful''\<rparr>) = Inl (BadDhcpMode ''ful'')"
  by code_simp

end
