(* ===== verification/Spec2Isabelle.thy ===== *)
theory Spec2Isabelle
  imports Lease_Store Dhcp_Pool Dhcp_Server Subnet_Store Dhcp_Settings Auth Job_Store Profile_Rules Binding_Store Orchestrator Profile_Store Agent_Api Image_Catalog Inst_Props Inv_Props Http_Front Settings
begin

text \<open>
  A verification development of metalkit, a bare-metal provisioning system written in Go. Its
  controller (\<open>cmd/controller\<close>) hands out DHCP leases, boots machines over the network into a live
  system, keeps an inventory of them, and drives installation jobs; the agent (\<open>cmd/agent\<close>) runs in the
  live system, reports the hardware, takes the job of its machine and writes an image to a disk.

  \<^bold>\<open>How the parts interact.\<close> A machine asks the DHCP server (\<open>internal/dhcp\<close>) for an address. The server
  picks the pool of the relay, built from the configuration, the saved settings and the subnet catalog,
  leases an address from the lease table (\<open>internal/leases\<close>) and names a boot file, which the HTTP front
  end (\<open>internal/httpd\<close>) serves. The live system posts its report to the inventory
  (\<open>internal/inventory\<close>), which also ties the credential of the management controller
  (\<open>internal/bmc\<close>) to the machine. An operator logs in (\<open>internal/authapi\<close>, \<open>internal/sessions\<close>), uploads
  images (\<open>internal/images\<close>), writes install profiles (\<open>internal/profiles\<close>) and assigns both to a machine
  (\<open>internal/bindings\<close>). The orchestrator (\<open>internal/jobs/orchestrator.go\<close>) turns requested assignments into
  jobs and commands \<open>ipmitool\<close> to boot the machine from the network; the agent claims the job, fetches
  its blueprint (\<open>internal/jobs/agent_api.go\<close>) and runs the installer (\<open>internal/installer\<close>); the orchestrator
  wraps the finished job up. Every statement a component issues is a function here, composed the way
  the code composes them; the properties of a component stand at the end of its theory, numbered as in
  the manifest.

  \<^bold>\<open>The ground.\<close>

  \<^item> \<open>Go_Base\<close>: results, tables as lists of rows, the plan of driver failures of a call, and the contract
    of a transition system.
  \<^item> \<open>Go_Text\<close>, \<open>Go_Net\<close>: what is used of \<open>strings\<close>, \<open>strconv\<close>, \<open>regexp\<close>, \<open>net\<close> and \<open>net/netip\<close>; strings are
    bytes, IPv4 addresses are \<open>32 word\<close>. Round trips of parsing and printing.
  \<^item> \<open>Inst_World\<close>: the agent's outside world (\<open>interfaces.go\<close>, \<open>realdeps.go\<close>): the file tree with links, the
    commands run so far, the calls to the controller; programs are state transformers over it.

  \<^bold>\<open>The network side.\<close>

  \<^item> \<open>Lease_Store\<close> (\<open>internal/leases/store.go\<close>): \<open>allocate\<close>, \<open>confirm\<close>, \<open>release\<close>, \<open>gc_leases\<close>. A live lease of
    another client survives every call (C1); the address scan returns (C3), except for a range that
    ends at the last address.
  \<^item> \<open>Dhcp_Pool\<close> (\<open>pool.go\<close>, \<open>pools.go\<close>): the constructors of pools and \<open>pool_for_request\<close>; a relay gets exactly the
    pool whose selector holds its address (C2).
  \<^item> \<open>Dhcp_Server\<close> (\<open>server.go\<close>, \<open>options.go\<close>, \<open>arch.go\<close>, \<open>bsdp.go\<close>, and the lease adapter of
    \<open>cmd/controller/main.go\<close>): the packet handlers. No address is given to two clients before the lease of
    the first runs out (C4), only a recorded address is acknowledged (C5), every packet is handled (C6).
    \<open>reload\<close> is the check and the exchange of the configuration as one step.
  \<^item> \<open>Subnet_Store\<close> (\<open>internal/subnets\<close>): the catalog of subnets keeps its rows valid and canonical (C8).
  \<^item> \<open>Dhcp_Settings\<close> (\<open>internal/settings/api.go\<close>, \<open>main.go\<close>): the checks of saved settings and the assembly of the
    pools; a relayed client of a catalogued subnet gets its addresses, netmask, router and servers (C7).
  \<^item> \<open>Boot_Config\<close> (\<open>internal/config/config.go\<close>) and \<open>Settings\<close> (\<open>internal/settings/store.go\<close>, \<open>api.go\<close>, \<open>main.go\<close>):
    the configuration, the table of overrides, the form and the overlay at start; what the form answers
    as saved is what the next start uses (C40).
  \<^item> \<open>Http_Front\<close> (\<open>internal/httpd\<close>, \<open>internal/audit\<close>, \<open>internal/apiutil\<close>): boot files, the iPXE script, the chain
    of access control and audit. Every URL in the boot script is one that the machine can fetch, and a
    change made through the chain is recorded with its actor.

  \<^bold>\<open>The catalogs and the jobs.\<close>

  \<^item> \<open>Auth\<close> (\<open>internal/authapi\<close>, \<open>internal/sessions\<close>, \<open>internal/util/verify.go\<close>, \<open>internal/httpd/auth.go\<close>): a session
    needs the right credentials (C12), the login form lets an address guess a bounded number of times in
    a window (C13).
  \<^item> \<open>Job_Store\<close> (\<open>internal/jobs/store.go\<close>, \<open>validate.go\<close>): one unfinished job per machine in every reachable
    state (C9), the life cycle of a row (C10), and the refinement of claim, success, failure and
    cancellation to an abstract machine over one row (C11).
  \<^item> \<open>Profile_Rules\<close>, \<open>Profile_Store\<close> (\<open>internal/profiles\<close>, \<open>internal/components\<close>): the validators give
    a canonical form (C18); a deleted profile leaves no dangling reference (C17).
  \<^item> \<open>Static_Ip\<close>, \<open>Binding_Store\<close> (\<open>internal/bindings\<close>): the choice of a static address and the assignments:
    distinct addresses (C14), valid rows (C15), the frame and the optional fields of a request (C16).
  \<^item> \<open>Orchestrator\<close> (\<open>internal/jobs/orchestrator.go\<close>): one pass, \<open>tick\<close>: a requested installation starts (C19), is
    not repeated by itself (C20), and is cleared when it has finished (C21).
  \<^item> \<open>Agent_Api\<close> (\<open>agent_api.go\<close>, \<open>installspec.go\<close>, \<open>api.go\<close> of \<open>internal/jobs\<close>): an agent drives only the jobs
    of its machine (C22); the blueprint combines profile, assignment and subnet (C23).
  \<^item> \<open>Image_Store\<close>, \<open>Image_Catalog\<close> (\<open>internal/images/store.go\<close>, \<open>uploads.go\<close>, \<open>validate.go\<close>): uploads in chunks, the
    finalize and the deletion as sequences of steps that interleave with everything else. The file of a
    row has its checksum and size (C24), one finalize at a time (C25), an upload arrives whole (C26).
  \<^item> \<open>Inventory\<close>, \<open>Secrets\<close>, \<open>Bmc_Store\<close>, \<open>Bmc_Api\<close>, \<open>Inv_Props\<close> (\<open>internal/inventory\<close>, \<open>internal/crypto\<close>,
    \<open>internal/bmc\<close>, \<open>internal/ipmi\<close>): machines, their addresses, reports and heartbeats, and the sealed
    credentials: the invariant of the database (C35), a report reads back (C36), a busy machine is not
    deleted (C37), credentials follow the machine (C38), and passwords survive the encryption (C39).

  \<^bold>\<open>The installer\<close> (\<open>internal/installer\<close>).

  \<^item> \<open>Net_Render\<close>, \<open>Net_Plan\<close> (\<open>seed.go\<close>): the network files of five systems, and readers that give back the
    plan they carry: the renderers of a bond agree (C27), the automatic choice avoids management
    ports (C28).
  \<^item> \<open>Seed\<close>, \<open>Seed_Props\<close> (\<open>seed.go\<close>, \<open>osinstaller.go\<close>, \<open>osfam_*.go\<close>): what is written into the image stays inside
    it (C29) and quoted texts read back (C30).
  \<^item> \<open>Inst_Disk\<close> (\<open>diskpick.go\<close>, \<open>release.go\<close>, \<open>zap.go\<close>, \<open>esp.go\<close>, \<open>grow.go\<close>), \<open>Inst_Mount\<close> (\<open>qemuwrite.go\<close>, \<open>mount.go\<close>,
    \<open>realdeps.go\<close>), \<open>Inst_Grub\<close> (\<open>grub.go\<close>, \<open>arch.go\<close>), \<open>Inst_Run\<close> (\<open>installer.go\<close>, \<open>bootmode.go\<close>, \<open>implant.go\<close>): the
    programs; \<open>run_install\<close> is \<open>Run\<close>.
  \<^item> \<open>Inst_Trace\<close>, \<open>Inst_Props\<close>: the trace of the commands. Writing commands name the picked disk and mounts
    are pinned (C31), a corrupt image is not written (C32), the controller is told the stages and the
    outcome (C33), and mounts are undone (C34).

  \<^bold>\<open>Interfaces.\<close> \<open>transition_system\<close> is the contract of a component with an invariant; it is interpreted on
  the steps of the agent interface, the assignments, the image catalog (three relations), the inventory,
  the job store (its steps and their effects) and the profile catalog. \<open>canonical_validator\<close> is
  interpreted on the validators of the job store. \<open>lease_service\<close> and its extension \<open>lease_isolation\<close> are what the
  DHCP server relies on; the lease store behind its adapter interprets both. \<open>column_cipher\<close> is what
  the stores rely on of encryption. \<open>world_order\<close> carries a relation of worlds through the programs of the
  installer; it is interpreted on \<open>kept_outside\<close> and on \<open>acts\<close>.

  \<^bold>\<open>Failures, bounds and termination.\<close> Every call that issues statements, file operations or requests takes
  a plan that says which of them fail; the properties hold for every plan unless they say otherwise. An
  address scan that does not return is \<open>None\<close>; \<open>allocate_returns\<close> and \<open>static_allocation_returns\<close> state when it does.
  A chain of links is followed 41 times, which is the limit of forty expansions and the lookup after
  them; a longer chain is the error of the system call. All other recursions end by structure or by a
  proved measure.

  \<^bold>\<open>Parameters.\<close> The packet library of DHCP, the decoders of JSON, YAML and URLs, AES-GCM, SHA-256,
  \<open>mkpasswd\<close>, \<open>qemu-img\<close> as the extractor of metadata, the child process of \<open>ipmitool\<close>, the prober of addresses, the random
  identifiers, the clock, the network cards, and what each command of the installer prints and changes.

  \<^bold>\<open>Not modelled.\<close> Sockets, timers, logging, TLS, cookies and static files; the polling loop and HTTP client
  of the agent; the collectors of hardware data; the monitoring samples; the store of SSH keys;
  schema migrations; the storage form of the settings and the list of network interfaces; panics.
  The lock of \<open>Reload\<close> and the snapshot a handler takes are not modelled: a packet sees one configuration. The requests
  of the inventory and of the management controllers run one at a time, as do the steps of one pass of the
  orchestrator; the assignment and lease stores have the lock that makes a call one step. The \<open>.partial\<close> file of a
  chunk, the order in which Go walks over a map, the owners of files, the umask and directories that are links are left out,
  and so are \<open>strconv.Quote\<close> and \<open>strings.ToUpper\<close> on texts outside ASCII. The concrete runs at
  the end of the theories show where the code does not do what its comments or its purpose say; the
  manifest lists them.
\<close>

end
